(* ===== verification/GoPrelude.thy ===== *)
theory GoPrelude
  imports Main "HOL-Library.AList" "HOL-Library.Sublist"
begin

text \<open>
  Shared prelude of the development: the parts of the Go language and of its standard
  library that the modelled packages use.

  \<^item> \<open>int64\<close> values are \<^typ>\<open>int\<close> with the wrap-around of every operation written out
    (\<open>i64_add\<close>, \<open>i64_sub\<close>, \<open>i64_mul\<close>, \<open>i64_quot\<close>); division truncates towards zero.
  \<^item> \<open>time.Time\<close> is a record of the wall clock in nanoseconds since the Unix epoch and of
    the optional monotonic reading, with the rules of package \<open>time\<close> for \<open>Before\<close>,
    \<open>After\<close>, \<open>Add\<close> and \<open>Sub\<close>: comparisons use the monotonic readings when both operands
    carry one, \<open>Add\<close> drops the reading when it overflows or when the wall second leaves
    its packed 33-bit field, \<open>Sub\<close> saturates.
  \<^item> strings are byte lists; \<open>strings.TrimSpace\<close>, \<open>ToLower\<close>, \<open>HasPrefix\<close>, \<open>Cut\<close>,
    \<open>CutPrefix\<close> and \<open>hex.DecodeString\<close> are modelled on ASCII bytes.
  \<^item> a result with an error is a sum, \<open>Inl\<close> the error; \<open>bindE\<close> is the
    ``if err != nil { return err }'' of the sources.
\<close>

section \<open>Proof collections\<close>

named_theorems i64_defs \<open>the definitions of int64 arithmetic\<close>
named_theorems time_defs \<open>the definitions of the time package\<close>
named_theorems str_defs \<open>the definitions of the string helpers\<close>

section \<open>Errors as values\<close>

type_synonym ('e, 'a) result = "'e + 'a"

definition bindE :: "'e + 'a \<Rightarrow> ('a \<Rightarrow> 'e + 'b) \<Rightarrow> 'e + 'b" where
  "bindE r f = (case r of Inl e \<Rightarrow> Inl e | Inr a \<Rightarrow> f a)"

lemma bindE_simps [simp]:
  "bindE (Inl e) f = Inl e"
  "bindE (Inr a) f = f a"
  by (simp_all add: bindE_def)

lemma bindE_Inr_iff [simp]:
  "bindE r f = Inr b \<longleftrightarrow> (\<exists>a. r = Inr a \<and> f a = Inr b)"
  by (cases r) auto

lemma bindE_Inl_iff:
  "bindE r f = Inl e \<longleftrightarrow> r = Inl e \<or> (\<exists>a. r = Inr a \<and> f a = Inl e)"
  by (cases r) auto

lemma bindE_cong [fundef_cong]:
  "r = r' \<Longrightarrow> (\<And>a. r' = Inr a \<Longrightarrow> f a = g a) \<Longrightarrow> bindE r f = bindE r' g"
  by (cases r') auto

text \<open>\<open>require c e\<close> is the guard ``if !c { return e }''.\<close>

definition require :: "bool \<Rightarrow> 'e \<Rightarrow> 'e + unit" where
  "require c e = (if c then Inr () else Inl e)"

lemma require_simps [simp]:
  "require True e = Inr ()"
  "require False e = Inl e"
  by (simp_all add: require_def)

lemma require_Inr_iff [simp]: "require c e = Inr u \<longleftrightarrow> c"
  by (cases c) auto

lemma require_Inl_iff [simp]: "require c e = Inl e' \<longleftrightarrow> \<not> c \<and> e' = e"
  by (cases c) auto

text \<open>A loop that computes one value per element and returns at the first error.\<close>

fun mapE :: "('a \<Rightarrow> 'e + 'b) \<Rightarrow> 'a list \<Rightarrow> 'e + 'b list" where
  "mapE f [] = Inr []"
| "mapE f (x # xs) = bindE (f x) (\<lambda>y. bindE (mapE f xs) (\<lambda>ys. Inr (y # ys)))"

lemma mapE_cong [fundef_cong]: "xs = ys \<Longrightarrow> (\<And>x. x \<in> set ys \<Longrightarrow> f x = g x) \<Longrightarrow> mapE f xs = mapE g ys"
  by (induction ys arbitrary: xs) simp_all

lemma mapE_Inr_iff:
  "mapE f xs = Inr ys \<longleftrightarrow> list_all2 (\<lambda>x y. f x = Inr y) xs ys"
  by (induction xs arbitrary: ys) (auto simp: list_all2_Cons1)

lemma mapE_Inr_set:
  "mapE f xs = Inr ys \<Longrightarrow> set ys = {y. \<exists>x \<in> set xs. f x = Inr y}"
  by (induction xs arbitrary: ys) auto

section \<open>int64\<close>

definition MaxInt64 :: int where
  [i64_defs]: "MaxInt64 = 9223372036854775807"

definition MinInt64 :: int where
  [i64_defs]: "MinInt64 = -9223372036854775808"

definition in_i64 :: "int \<Rightarrow> bool" where
  [i64_defs]: "in_i64 x \<longleftrightarrow> MinInt64 \<le> x \<and> x \<le> MaxInt64"

definition wrap64 :: "int \<Rightarrow> int" where
  "wrap64 x = (x + 9223372036854775808) mod 18446744073709551616 - 9223372036854775808"

definition sat64 :: "int \<Rightarrow> int" where
  "sat64 x = (if x > MaxInt64 then MaxInt64 else if x < MinInt64 then MinInt64 else x)"

definition i64_add :: "int \<Rightarrow> int \<Rightarrow> int" where
  "i64_add a b = wrap64 (a + b)"

definition i64_sub :: "int \<Rightarrow> int \<Rightarrow> int" where
  "i64_sub a b = wrap64 (a - b)"

definition i64_mul :: "int \<Rightarrow> int \<Rightarrow> int" where
  "i64_mul a b = wrap64 (a * b)"

text \<open>Go's \<open>/\<close> and \<open>%\<close> truncate towards zero.\<close>

definition i64_quot :: "int \<Rightarrow> int \<Rightarrow> int" where
  "i64_quot a b = wrap64 (sgn a * sgn b * (\<bar>a\<bar> div \<bar>b\<bar>))"

definition i64_rem :: "int \<Rightarrow> int \<Rightarrow> int" where
  "i64_rem a b = a - b * (sgn a * sgn b * (\<bar>a\<bar> div \<bar>b\<bar>))"

lemma wrap64_id [simp]: "in_i64 x \<Longrightarrow> wrap64 x = x"
  by (simp add: wrap64_def i64_defs)

lemma wrap64_in_i64 [simp]: "in_i64 (wrap64 x)"
proof -
  have "0 \<le> (x + 9223372036854775808) mod 18446744073709551616"
    and "(x + 9223372036854775808) mod 18446744073709551616 < 18446744073709551616"
    by simp_all
  then show ?thesis by (simp add: wrap64_def i64_defs)
qed

lemma wrap64_over:
  assumes "MaxInt64 < x" "x < 3 * 9223372036854775808"
  shows "wrap64 x = x - 18446744073709551616"
proof -
  have "(x + 9223372036854775808) mod 18446744073709551616
      = (x - 9223372036854775808 + 18446744073709551616) mod 18446744073709551616" by (simp add: algebra_simps)
  also have "\<dots> = (x - 9223372036854775808) mod 18446744073709551616" by (rule mod_add_self2)
  also have "\<dots> = x - 9223372036854775808"
    using assms by (intro mod_pos_pos_trivial) (simp_all add: i64_defs)
  finally show ?thesis by (simp add: wrap64_def)
qed

lemma sat64_in_i64 [simp]: "in_i64 (sat64 x)"
  by (simp add: sat64_def i64_defs)

lemma sat64_id [simp]: "in_i64 x \<Longrightarrow> sat64 x = x"
  by (simp add: sat64_def i64_defs)

lemma i64_add_exact: "in_i64 (a + b) \<Longrightarrow> i64_add a b = a + b"
  by (simp add: i64_add_def)

lemma i64_sub_exact: "in_i64 (a - b) \<Longrightarrow> i64_sub a b = a - b"
  by (simp add: i64_sub_def)

lemma i64_mul_exact: "in_i64 (a * b) \<Longrightarrow> i64_mul a b = a * b"
  by (simp add: i64_mul_def)

lemma in_i64_nonneg: "0 \<le> x \<Longrightarrow> x \<le> MaxInt64 \<Longrightarrow> in_i64 x"
  by (simp add: i64_defs)

lemma in_i64_le_Max: "in_i64 x \<Longrightarrow> x \<le> MaxInt64"
  by (simp add: in_i64_def)

lemma le_div_iff_mult_le:
  fixes t a r :: int
  assumes "0 < r"
  shows "t \<le> a div r \<longleftrightarrow> t * r \<le> a"
proof
  assume "t \<le> a div r"
  then have "t * r \<le> a div r * r" using assms by simp
  also have "\<dots> \<le> a" using assms pos_mod_sign [OF assms, of a] by (simp add: minus_mod_eq_div_mult [symmetric])
  finally show "t * r \<le> a" .
next
  assume "t * r \<le> a"
  then have "(t * r) div r \<le> a div r" using assms by (rule zdiv_mono1)
  then show "t \<le> a div r" using assms by simp
qed

lemma i64_quot_nonneg:
  assumes "0 \<le> a" "a \<le> MaxInt64" "0 < b"
  shows "i64_quot a b = a div b"
proof -
  have "a div b \<le> a" using assms by (simp add: int_div_less_self div_le_dividend zdiv_mono2 [of a 1 b, simplified])
  moreover have "0 \<le> a div b" using assms by (simp add: pos_imp_zdiv_nonneg_iff)
  ultimately have "in_i64 (a div b)" using assms by (simp add: i64_defs)
  moreover have "sgn a * sgn b * (\<bar>a\<bar> div \<bar>b\<bar>) = a div b"
    using assms by (cases "a = 0") (auto simp: sgn_if)
  ultimately show ?thesis by (simp add: i64_quot_def)
qed

lemma i64_rem_nonneg:
  assumes "0 \<le> a" "0 < b"
  shows "i64_rem a b = a mod b"
proof -
  have "sgn a * sgn b * (\<bar>a\<bar> div \<bar>b\<bar>) = a div b"
    using assms by (cases "a = 0") (auto simp: sgn_if)
  then show ?thesis by (simp add: i64_rem_def minus_mult_div_eq_mod)
qed

section \<open>Package time\<close>

text \<open>
  Nanoseconds are \<^typ>\<open>int\<close>. \<open>t_wall\<close> counts from the Unix epoch; \<open>t_mono\<close> is the
  monotonic reading \<open>time.Now\<close> attaches. \<open>Second\<close>, \<open>Millisecond\<close> are durations.
\<close>

record gotime =
  t_wall :: int
  t_mono :: "int option"

abbreviation Second :: int where "Second \<equiv> 1000000000"
abbreviation Millisecond :: int where "Millisecond \<equiv> 1000000"

definition unixToInternal :: int where
  [time_defs]: "unixToInternal = 62135596800"

text \<open>\<open>time.Unix\<close> adds the internal epoch to the seconds in 64-bit arithmetic.\<close>

definition t_Unix :: "int \<Rightarrow> int \<Rightarrow> gotime" where
  "t_Unix sec nsec =
     \<lparr>t_wall = (i64_add sec unixToInternal - unixToInternal) * Second + nsec, t_mono = None\<rparr>"

text \<open>The second count of a wall clock saturates when \<open>Add\<close> overflows it.\<close>

definition wall_add :: "int \<Rightarrow> int \<Rightarrow> int" where
  "wall_add w d =
     (let t = w + d; s = t div Second + unixToInternal
      in if s > MaxInt64 then (MaxInt64 - unixToInternal) * Second + t mod Second
         else if s < MinInt64 then (- MaxInt64 - unixToInternal) * Second + t mod Second
         else t)"

text \<open>A time with a monotonic reading packs its wall second in 33 bits counted from 1885.\<close>

definition wall_packed :: "int \<Rightarrow> bool" where
  "wall_packed w \<longleftrightarrow> -2682288000 \<le> w div Second \<and> w div Second < -2682288000 + 8589934592"

definition t_Add :: "gotime \<Rightarrow> int \<Rightarrow> gotime" where
  "t_Add t d =
     (let w = wall_add (t_wall t) d
      in \<lparr>t_wall = w,
          t_mono = (case t_mono t of
              None \<Rightarrow> None
            | Some m \<Rightarrow> if wall_packed w \<and> in_i64 (m + d) then Some (m + d) else None)\<rparr>)"

definition t_Before :: "gotime \<Rightarrow> gotime \<Rightarrow> bool" where
  "t_Before t u =
     (case (t_mono t, t_mono u) of
        (Some a, Some b) \<Rightarrow> a < b
      | _ \<Rightarrow> t_wall t < t_wall u)"

definition t_After :: "gotime \<Rightarrow> gotime \<Rightarrow> bool" where
  "t_After t u = t_Before u t"

definition t_Sub :: "gotime \<Rightarrow> gotime \<Rightarrow> int" where
  "t_Sub t u =
     (case (t_mono t, t_mono u) of
        (Some a, Some b) \<Rightarrow> sat64 (a - b)
      | _ \<Rightarrow> sat64 (t_wall t - t_wall u))"

definition t_UnixSec :: "gotime \<Rightarrow> int" where
  "t_UnixSec t = t_wall t div Second"

definition t_Nanosecond :: "gotime \<Rightarrow> int" where
  "t_Nanosecond t = t_wall t mod Second"

definition t_UnixMilli :: "gotime \<Rightarrow> int" where
  "t_UnixMilli t = wrap64 (t_wall t div Millisecond)"

text \<open>
  Readings of the running process: a monotonic reading is present, and both it and the
  wall clock are far from the ends of their fields (the wall between 1970 and the year
  2126, the monotonic clock below \<open>2^61\<close> ns, some 73 years of uptime), so that adding
  any duration of up to ten years is exact.
\<close>

definition live_time :: "gotime \<Rightarrow> bool" where
  "live_time t \<longleftrightarrow>
     0 \<le> t_wall t \<and> t_wall t \<le> 4922000000 * Second \<and>
     (\<exists>m. t_mono t = Some m \<and> 0 \<le> m \<and> m < 2305843009213693952)"

definition short_span :: "int \<Rightarrow> bool" where
  "short_span d \<longleftrightarrow> \<bar>d\<bar> \<le> 315360000 * Second"

abbreviation mono_of :: "gotime \<Rightarrow> int" where
  "mono_of t \<equiv> the (t_mono t)"

lemma wall_add_exact:
  assumes "0 \<le> w" "w \<le> 4922000000 * Second" "short_span d"
  shows "wall_add w d = w + d" "wall_packed (w + d)"
proof -
  have "-315360000 \<le> (w + d) div Second" and "(w + d) div Second \<le> 5237360000"
    using assms by (auto simp: short_span_def)
  then show "wall_add w d = w + d" "wall_packed (w + d)"
    by (simp_all add: wall_add_def wall_packed_def Let_def time_defs i64_defs)
qed

lemma t_Add_live:
  assumes "live_time t" "short_span d"
  shows "t_Add t d = \<lparr>t_wall = t_wall t + d, t_mono = Some (mono_of t + d)\<rparr>"
proof -
  obtain m where m: "t_mono t = Some m" "0 \<le> m" "m < 2305843009213693952"
    using assms(1) by (auto simp: live_time_def)
  then have "in_i64 (m + d)" using assms(2) by (simp add: i64_defs short_span_def abs_le_iff)
  moreover have "wall_add (t_wall t) d = t_wall t + d" "wall_packed (t_wall t + d)"
    using assms wall_add_exact [of "t_wall t" d] by (auto simp: live_time_def)
  ultimately show ?thesis using m by (simp add: t_Add_def Let_def)
qed

lemma t_Before_mono:
  "t_mono t = Some a \<Longrightarrow> t_mono u = Some b \<Longrightarrow> t_Before t u \<longleftrightarrow> a < b"
  by (simp add: t_Before_def)

lemma t_Before_wall:
  "t_mono t = None \<or> t_mono u = None \<Longrightarrow> t_Before t u \<longleftrightarrow> t_wall t < t_wall u"
  by (cases "t_mono t"; cases "t_mono u") (auto simp: t_Before_def)

lemma t_Before_Add_live:
  assumes "live_time now" "live_time t" "short_span d"
  shows "t_Before now (t_Add t d) \<longleftrightarrow> mono_of now < mono_of t + d"
  using assms t_Add_live [OF assms(2,3)] by (auto simp: t_Before_def live_time_def)

text \<open>The zero \<open>time.Time\<close>, 1 January of year 1 without a monotonic reading, and \<open>IsZero\<close>.\<close>

definition t_Zero :: gotime where
  "t_Zero = \<lparr>t_wall = - unixToInternal * Second, t_mono = None\<rparr>"

definition t_IsZero :: "gotime \<Rightarrow> bool" where
  "t_IsZero t \<longleftrightarrow> t_wall t = - unixToInternal * Second"

text \<open>Against a time without a monotonic reading, a comparison is on the wall clock.\<close>

lemma t_Before_Zero: "t_Before now t_Zero \<longleftrightarrow> t_wall now < - unixToInternal * Second"
  by (simp add: t_Before_def t_Zero_def split: option.splits)

end
