(* ===== verification/SpendLease.thy ===== *)
theory SpendLease
  imports GoPrelude
begin

text \<open>
  The data of package \<open>internal/spendlease\<close> (\<open>types.go\<close>) and its price estimator
  (\<open>estimator.go\<close>). Micro-dollar amounts and token counts are \<open>int64\<close>; every
  arithmetic operation of the estimator is the wrapping one, and the lemmas show that
  its guards make every operation exact.
\<close>

section \<open>Types (types.go)\<close>

datatype lease_error =
    NegativeTokenEstimate
  | NegativeMaxTokens
  | OverflowingPrice
  | NegativePriceOrTokens
  | TokenPriceOverflow
  | VerifierNotConfigured
  | CompactJWSRequired
  | ParseJWSFailed
  | ParseHeaderFailed
  | UnsupportedHeader
  | UnconfiguredKid
  | SignatureFailed
  | ParseClaimsFailed
  | InvalidRequiredClaims
  | InvalidGrantClaims
  | InvalidLocalAdmissionClaims
  | TTLExceedsMaximum
  | IatOutsideWindow
  | TokenExpired
  | TokenFromFuture
  | EmptyCatalog
  | InvalidCatalogCandidate
  | InvalidLocalAdmissionCandidate
  | AuthoritativeRefused
  | VerifierUnavailable
  | MissingGrantBinding
  | GrantBindingMismatch
  | InvalidLeaseStatus
  | SignerUnavailable
  | InvalidReceiptClaims
  | SigningFailed

record Candidate =
  cd_EndpointID :: string
  cd_Model :: string
  cd_UpstreamModel :: string
  cd_Provider :: string
  cd_UsageType :: string
  cd_WaferZDRRequired :: bool
  cd_Region :: string
  cd_RouteType :: string
  cd_ServiceTier :: string
  cd_PriceTierMaxInputTokens :: "int option"
  cd_InputPriceMicroPerMTok :: int
  cd_OutputPriceMicroPerMTok :: int
  cd_RequestPriceMicro :: int
  cd_CacheReadMicroPerMTok :: int
  cd_CacheWriteMicroPerMTok :: int

record Catalog =
  cat_Version :: string
  cat_Candidates :: "Candidate list"

record Claims =
  cl_Version :: int
  cl_Type :: string
  cl_Authoritative :: bool
  cl_LocalAdmissionAllowed :: bool
  cl_RoutingPolicyHash :: string
  cl_LeaseID :: string
  cl_KeyHash :: string
  cl_WorkspaceID :: string
  cl_Cohort :: string
  cl_CapMicro :: int
  cl_Generation :: int
  cl_IssuedAt :: int
  cl_ExpiresAt :: int
  cl_BootKID :: string
  cl_Catalog :: Catalog

record VerifiedLease =
  vl_Claims :: Claims
  vl_Deadline :: gotime
  vl_AdmitUntil :: gotime

record Response =
  rsp_Token :: "string option"
  rsp_LeaseStatus :: string
  rsp_RemainingMicro :: "int option"

record Echo =
  ec_LeaseID :: "string option"
  ec_State :: string
  ec_RemainingMicro :: "int option"
  ec_EnclaveEstimateMicro :: "int option"
  ec_CatalogVersion :: "string option"
  ec_WouldAdmit :: "bool option"

record EstimateRequest =
  er_Model :: string
  er_ProviderConstraints :: "string list"
  er_RouteType :: string
  er_Region :: string
  er_ServiceTier :: string
  er_EstimatedInputTokens :: int
  er_MaxTokens :: "int option"

record AdmissionReceiptClaims =
  ar_AdmittedAtMS :: int
  ar_BootKID :: string
  ar_EnclaveEstimateMicro :: int
  ar_Generation :: int
  ar_IdempotencyKeySHA256 :: string
  ar_KeyHash :: string
  ar_LeaseID :: string
  ar_RemainingAfterMicro :: int
  ar_RoutingPolicyHash :: string
  ar_Version :: int
  ar_WorkspaceID :: string

record Admission =
  ad_Receipt :: string
  ad_ReceiptHash :: string
  ad_Scope :: string
  ad_Lease :: VerifiedLease
  ad_EstimateMicro :: int
  ad_RemainingAfterMicro :: int
  ad_Echo :: Echo
  ad_release :: "string option"

section \<open>The estimator (estimator.go)\<close>

definition microPerMillion :: int where
  "microPerMillion = 1000000"

definition tokenCost :: "int \<Rightarrow> int \<Rightarrow> lease_error + int" where
  "tokenCost rate tokens =
     (if rate < 0 \<or> tokens < 0 then Inl NegativePriceOrTokens
      else if rate = 0 \<or> tokens = 0 then Inr 0
      else if tokens > i64_quot (i64_sub MaxInt64 (i64_quot microPerMillion 2)) rate
        then Inl TokenPriceOverflow
      else Inr (i64_quot (i64_add (i64_mul rate tokens) (i64_quot microPerMillion 2)) microPerMillion))"

definition applies :: "Candidate \<Rightarrow> EstimateRequest \<Rightarrow> bool" where
  "applies c r =
     (if cd_EndpointID c = '''' \<or> cd_Model c \<noteq> er_Model r \<or> cd_RouteType c \<noteq> er_RouteType r
         \<or> cd_Region c \<noteq> er_Region r \<or> cd_ServiceTier c \<noteq> er_ServiceTier r then False
      else if er_ProviderConstraints r = [] then True
      else cd_Provider c \<in> set (er_ProviderConstraints r))"

text \<open>The price of one candidate: the body of the loop of \<open>Estimate\<close> after its guards.\<close>

definition candidateCost :: "Candidate \<Rightarrow> EstimateRequest \<Rightarrow> int \<Rightarrow> lease_error + int" where
  "candidateCost c r outputTokens =
     bindE (tokenCost (cd_InputPriceMicroPerMTok c) (er_EstimatedInputTokens r)) (\<lambda>inputCost.
     bindE (tokenCost (cd_OutputPriceMicroPerMTok c) outputTokens) (\<lambda>outputCost.
       if cd_RequestPriceMicro c < 0 \<or> inputCost > i64_sub MaxInt64 (cd_RequestPriceMicro c)
          \<or> outputCost > i64_sub (i64_sub MaxInt64 (cd_RequestPriceMicro c)) inputCost
       then Inl OverflowingPrice
       else
         (let total = i64_add (i64_add (cd_RequestPriceMicro c) inputCost) outputCost;
              hasPositiveCharge = cd_RequestPriceMicro c > 0
                \<or> (er_EstimatedInputTokens r > 0 \<and> cd_InputPriceMicroPerMTok c > 0)
                \<or> (outputTokens > 0 \<and> cd_OutputPriceMicroPerMTok c > 0)
          in Inr (if hasPositiveCharge \<and> total < 1 then 1 else total))))"

definition outsideTier :: "Candidate \<Rightarrow> EstimateRequest \<Rightarrow> bool" where
  "outsideTier c r =
     (case cd_PriceTierMaxInputTokens c of None \<Rightarrow> False | Some m \<Rightarrow> er_EstimatedInputTokens r > m)"

fun estimateLoop ::
  "Candidate list \<Rightarrow> EstimateRequest \<Rightarrow> int \<Rightarrow> string set \<Rightarrow> int \<Rightarrow> bool \<Rightarrow> lease_error + int option" where
  "estimateLoop [] r outTok sel maximum found = Inr (if found then Some maximum else None)"
| "estimateLoop (c # cs) r outTok sel maximum found =
     (if cd_EndpointID c \<in> sel \<or> \<not> applies c r then estimateLoop cs r outTok sel maximum found
      else if outsideTier c r then estimateLoop cs r outTok sel maximum found
      else bindE (candidateCost c r outTok) (\<lambda>total.
        estimateLoop cs r outTok (insert (cd_EndpointID c) sel)
          (if \<not> found \<or> total > maximum then total else maximum) True))"

definition Estimate :: "Catalog \<Rightarrow> EstimateRequest \<Rightarrow> lease_error + int option" where
  "Estimate catalog r =
     (if er_EstimatedInputTokens r < 0 then Inl NegativeTokenEstimate
      else
        (let outTok = (case er_MaxTokens r of None \<Rightarrow> 512 | Some m \<Rightarrow> m)
         in if outTok < 0 then Inl NegativeMaxTokens
            else estimateLoop (cat_Candidates catalog) r outTok {} 0 False))"

section \<open>Exactness of the checked arithmetic\<close>

text \<open>The price the arithmetic means, over unbounded integers: round half up.\<close>

definition exactTokenCost :: "int \<Rightarrow> int \<Rightarrow> int" where
  "exactTokenCost rate tokens = (rate * tokens + 500000) div 1000000"

lemma quot_half [simp]: "i64_quot microPerMillion 2 = 500000"
  by (simp add: microPerMillion_def i64_quot_nonneg i64_defs)

lemma quot_million [simp]:
  "0 \<le> x \<Longrightarrow> x \<le> MaxInt64 \<Longrightarrow> i64_quot x microPerMillion = x div 1000000"
  by (simp add: microPerMillion_def i64_quot_nonneg)

lemma guard_limit [simp]:
  "i64_sub MaxInt64 500000 = MaxInt64 - 500000"
  by (rule i64_sub_exact) (simp add: i64_defs)

lemma guard_iff_product:
  fixes rate tokens :: int
  assumes "0 < rate"
  shows "tokens > i64_quot (MaxInt64 - 500000) rate \<longleftrightarrow> rate * tokens + 500000 > MaxInt64"
proof -
  have "i64_quot (MaxInt64 - 500000) rate = (MaxInt64 - 500000) div rate"
    using assms by (intro i64_quot_nonneg) (simp_all add: i64_defs)
  moreover have "tokens \<le> (MaxInt64 - 500000) div rate \<longleftrightarrow> tokens * rate \<le> MaxInt64 - 500000"
    using assms by (rule le_div_iff_mult_le)
  ultimately show ?thesis by (simp add: mult.commute not_le [symmetric]) linarith
qed

lemma tokenCost_exact_cases:
  assumes "0 \<le> rate" "0 \<le> tokens"
  shows "tokenCost rate tokens =
     (if rate * tokens + 500000 \<le> MaxInt64 then Inr (exactTokenCost rate tokens)
      else Inl TokenPriceOverflow)"
proof (cases "rate = 0 \<or> tokens = 0")
  case True
  then show ?thesis using assms by (auto simp: tokenCost_def exactTokenCost_def i64_defs)
next
  case False
  then have pos: "0 < rate" "0 < tokens" using assms by auto
  show ?thesis
  proof (cases "rate * tokens + 500000 \<le> MaxInt64")
    case True
    have nn: "0 \<le> rate * tokens" using pos by simp
    have "in_i64 (rate * tokens)" "in_i64 (rate * tokens + 500000)"
      using True nn by (simp_all add: i64_defs)
    then have "i64_add (i64_mul rate tokens) 500000 = rate * tokens + 500000"
      by (simp add: i64_mul_exact i64_add_exact)
    then show ?thesis using True pos nn guard_iff_product [OF pos(1), of tokens]
      by (simp add: tokenCost_def exactTokenCost_def)
  next
    case False
    then show ?thesis using pos guard_iff_product [OF pos(1), of tokens]
      by (simp add: tokenCost_def)
  qed
qed

lemma exactTokenCost_nonneg: "0 \<le> rate \<Longrightarrow> 0 \<le> tokens \<Longrightarrow> 0 \<le> exactTokenCost rate tokens"
  by (simp add: exactTokenCost_def pos_imp_zdiv_nonneg_iff)

lemma exactTokenCost_half_up:
  "\<bar>1000000 * exactTokenCost rate tokens - rate * tokens\<bar> \<le> 500000"
proof -
  have "1000000 * ((rate * tokens + 500000) div 1000000)
      = rate * tokens + 500000 - (rate * tokens + 500000) mod 1000000"
    by (simp add: minus_mod_eq_mult_div)
  moreover have "0 \<le> (rate * tokens + 500000) mod 1000000"
    "(rate * tokens + 500000) mod 1000000 < 1000000" by simp_all
  ultimately show ?thesis unfolding exactTokenCost_def by linarith
qed

lemma tokenCost_Inr:
  assumes "tokenCost rate tokens = Inr v"
  shows "0 \<le> rate" "0 \<le> tokens" "v = exactTokenCost rate tokens" "0 \<le> v"
    "rate * tokens + 500000 \<le> MaxInt64"
proof -
  show 1: "0 \<le> rate" and 2: "0 \<le> tokens"
    using assms by (auto simp: tokenCost_def split: if_splits)
  show "v = exactTokenCost rate tokens" "rate * tokens + 500000 \<le> MaxInt64"
    using assms by (auto simp: tokenCost_exact_cases [OF 1 2] split: if_splits)
  then show "0 \<le> v" using exactTokenCost_nonneg [OF 1 2] by simp
qed

lemma exactTokenCost_pos_fit:
  assumes "rate * tokens + 500000 \<le> MaxInt64"
  shows "exactTokenCost rate tokens \<le> MaxInt64 div 1000000"
  using assms unfolding exactTokenCost_def by (rule zdiv_mono1) simp

section \<open>The estimate against its reference\<close>

text \<open>
  The reference: keep, per endpoint, the first candidate of the catalog that applies to
  the request and whose tier covers it; price each of them; the estimate is the largest.
\<close>

definition quotable :: "EstimateRequest \<Rightarrow> Candidate \<Rightarrow> bool" where
  "quotable r c \<longleftrightarrow> applies c r \<and> \<not> outsideTier c r"

function firstPerEndpoint :: "Candidate list \<Rightarrow> Candidate list" where
  "firstPerEndpoint [] = []"
| "firstPerEndpoint (c # cs) =
     c # firstPerEndpoint (filter (\<lambda>d. cd_EndpointID d \<noteq> cd_EndpointID c) cs)"
  by pat_completeness auto
termination
  by (relation "measure length") (auto simp: le_imp_less_Suc)

definition selectedCandidates :: "Catalog \<Rightarrow> EstimateRequest \<Rightarrow> Candidate list" where
  "selectedCandidates catalog r = firstPerEndpoint (filter (quotable r) (cat_Candidates catalog))"

definition outputTokensOf :: "EstimateRequest \<Rightarrow> int" where
  "outputTokensOf r = (case er_MaxTokens r of None \<Rightarrow> 512 | Some m \<Rightarrow> m)"

definition exactCandidateCost :: "Candidate \<Rightarrow> EstimateRequest \<Rightarrow> int" where
  "exactCandidateCost c r =
     (let inTok = er_EstimatedInputTokens r; outTok = outputTokensOf r;
          total = cd_RequestPriceMicro c + exactTokenCost (cd_InputPriceMicroPerMTok c) inTok
            + exactTokenCost (cd_OutputPriceMicroPerMTok c) outTok
      in if (cd_RequestPriceMicro c > 0 \<or> inTok > 0 \<and> cd_InputPriceMicroPerMTok c > 0
            \<or> outTok > 0 \<and> cd_OutputPriceMicroPerMTok c > 0) \<and> total < 1
         then 1 else total)"

lemma firstPerEndpoint_subset: "set (firstPerEndpoint cs) \<subseteq> set cs"
  by (induction cs rule: firstPerEndpoint.induct) auto

lemma firstPerEndpoint_distinct: "distinct (map cd_EndpointID (firstPerEndpoint cs))"
proof (induction cs rule: firstPerEndpoint.induct)
  case (2 c cs)
  then show ?case
    using firstPerEndpoint_subset [of "filter (\<lambda>d. cd_EndpointID d \<noteq> cd_EndpointID c) cs"] by auto
qed simp

lemma firstPerEndpoint_covers:
  "c \<in> set cs \<Longrightarrow> \<exists>d \<in> set (firstPerEndpoint cs). cd_EndpointID d = cd_EndpointID c"
proof (induction cs rule: firstPerEndpoint.induct)
  case (2 e es)
  then show ?case by (cases "cd_EndpointID c = cd_EndpointID e") auto
qed simp

lemma selectedCandidates_subset: "set (selectedCandidates cat r) \<subseteq> set (cat_Candidates cat)"
  using firstPerEndpoint_subset [of "filter (quotable r) (cat_Candidates cat)"]
  by (auto simp: selectedCandidates_def)

lemma estimateLoop_eq_fold:
  "estimateLoop cs r outTok sel m found =
     bindE (mapE (\<lambda>c. candidateCost c r outTok)
             (firstPerEndpoint (filter (\<lambda>c. quotable r c \<and> cd_EndpointID c \<notin> sel) cs)))
       (\<lambda>costs. Inr (if found \<or> costs \<noteq> []
                     then Some (fold max costs (if found then m else hd costs)) else None))"
proof (induction cs arbitrary: sel m found)
  case Nil
  then show ?case by simp
next
  case (Cons c cs)
  show ?case
  proof (cases "quotable r c \<and> cd_EndpointID c \<notin> sel")
    case False
    then show ?thesis using Cons.IH by (auto simp: quotable_def)
  next
    case True
    let ?S = "firstPerEndpoint (filter (\<lambda>d. quotable r d
        \<and> cd_EndpointID d \<notin> insert (cd_EndpointID c) sel) cs)"
    have "filter (\<lambda>d. cd_EndpointID d \<noteq> cd_EndpointID c)
          (filter (\<lambda>c. quotable r c \<and> cd_EndpointID c \<notin> sel) cs)
        = filter (\<lambda>d. quotable r d \<and> cd_EndpointID d \<notin> insert (cd_EndpointID c) sel) cs"
      by (auto intro: filter_cong)
    then have list: "firstPerEndpoint (filter (\<lambda>c. quotable r c \<and> cd_EndpointID c \<notin> sel) (c # cs)) = c # ?S"
      using True by (simp del: filter_filter)
    have loop: "estimateLoop (c # cs) r outTok sel m found =
        bindE (candidateCost c r outTok) (\<lambda>total. estimateLoop cs r outTok
          (insert (cd_EndpointID c) sel) (if \<not> found \<or> total > m then total else m) True)"
      using True by (simp add: quotable_def)
    show ?thesis unfolding list loop
      by (cases "candidateCost c r outTok"; cases "mapE (\<lambda>c. candidateCost c r outTok) ?S")
        (simp_all add: Cons.IH max_def)
  qed
qed

lemma Estimate_reference_nonneg:
  assumes "0 \<le> er_EstimatedInputTokens r" "0 \<le> outputTokensOf r"
  shows "Estimate cat r =
     bindE (mapE (\<lambda>c. candidateCost c r (outputTokensOf r)) (selectedCandidates cat r))
       (\<lambda>costs. Inr (if costs = [] then None else Some (Max (set costs))))"
proof -
  have "fold max costs (hd costs) = Max (set costs)" if "costs \<noteq> []" for costs :: "int list"
  proof (cases costs)
    case (Cons a as)
    then show ?thesis using Max.set_eq_fold [of a as] by simp
  qed (use that in simp)
  then show ?thesis using assms
    by (auto simp: Estimate_def outputTokensOf_def estimateLoop_eq_fold selectedCandidates_def
        bindE_def split: sum.splits)
qed

text \<open>The field types of the catalog: every amount is an \<open>int64\<close>.\<close>

definition catalog_i64 :: "Catalog \<Rightarrow> bool" where
  "catalog_i64 cat \<longleftrightarrow> list_all (\<lambda>c. in_i64 (cd_RequestPriceMicro c)) (cat_Candidates cat)"

lemma candidateCost_exact:
  assumes "in_i64 (cd_RequestPriceMicro c)" "candidateCost c r (outputTokensOf r) = Inr v"
  shows "v = exactCandidateCost c r" "0 \<le> v" "v \<le> MaxInt64"
proof -
  obtain ic oc where c: "tokenCost (cd_InputPriceMicroPerMTok c) (er_EstimatedInputTokens r) = Inr ic"
      "tokenCost (cd_OutputPriceMicroPerMTok c) (outputTokensOf r) = Inr oc"
    and g: "0 \<le> cd_RequestPriceMicro c" "ic \<le> i64_sub MaxInt64 (cd_RequestPriceMicro c)"
      "oc \<le> i64_sub (i64_sub MaxInt64 (cd_RequestPriceMicro c)) ic"
    and v: "v = (let total = i64_add (i64_add (cd_RequestPriceMicro c) ic) oc
        in if (cd_RequestPriceMicro c > 0 \<or> er_EstimatedInputTokens r > 0 \<and> cd_InputPriceMicroPerMTok c > 0
            \<or> outputTokensOf r > 0 \<and> cd_OutputPriceMicroPerMTok c > 0) \<and> total < 1 then 1 else total)"
    using assms(2) by (auto simp: candidateCost_def Let_def not_less split: if_splits)
  note ic = tokenCost_Inr [OF c(1)] and oc = tokenCost_Inr [OF c(2)]
  have r: "i64_sub MaxInt64 (cd_RequestPriceMicro c) = MaxInt64 - cd_RequestPriceMicro c"
    using assms(1) g(1) by (intro i64_sub_exact) (simp add: i64_defs)
  then have r2: "i64_sub (i64_sub MaxInt64 (cd_RequestPriceMicro c)) ic = MaxInt64 - cd_RequestPriceMicro c - ic"
    using assms(1) g ic(4) by (simp add: i64_sub_exact i64_defs)
  have t: "i64_add (i64_add (cd_RequestPriceMicro c) ic) oc = cd_RequestPriceMicro c + ic + oc"
    using g r r2 ic(4) oc(4) by (simp add: i64_add_exact i64_defs)
  show "v = exactCandidateCost c r"
    using v t ic(3) oc(3) by (simp add: exactCandidateCost_def Let_def)
  show "0 \<le> v" "v \<le> MaxInt64"
    using v t g r2 ic(4) oc(4) by (auto simp: Let_def i64_defs)
qed

lemma Estimate_Some_nonneg:
  assumes "Estimate cat r = Inr v"
  shows "0 \<le> er_EstimatedInputTokens r" "0 \<le> outputTokensOf r"
  using assms by (auto simp: Estimate_def outputTokensOf_def Let_def split: if_splits)

lemma Estimate_SomeD:
  assumes "catalog_i64 cat" "Estimate cat r = Inr (Some m)"
  shows "0 \<le> m \<and> m \<le> MaxInt64"
    and "\<exists>c \<in> set (selectedCandidates cat r). m = exactCandidateCost c r"
    and "\<forall>c \<in> set (selectedCandidates cat r). exactCandidateCost c r \<le> m"
proof -
  let ?f = "\<lambda>c. candidateCost c r (outputTokensOf r)"
  obtain costs where costs: "mapE ?f (selectedCandidates cat r) = Inr costs" "costs \<noteq> []" "m = Max (set costs)"
    using assms(2) Estimate_Some_nonneg [OF assms(2)]
    by (auto simp: Estimate_reference_nonneg split: if_splits)
  have i64: "in_i64 (cd_RequestPriceMicro c)" if "c \<in> set (selectedCandidates cat r)" for c
    using that assms(1) selectedCandidates_subset by (auto simp: catalog_i64_def list_all_iff)
  have sets: "set costs = {y. \<exists>c \<in> set (selectedCandidates cat r). ?f c = Inr y}"
    using costs(1) by (rule mapE_Inr_set)
  have "m \<in> set costs" using costs(2,3) by simp
  then obtain c where c: "c \<in> set (selectedCandidates cat r)" "?f c = Inr m" using sets by auto
  then show "0 \<le> m \<and> m \<le> MaxInt64" "\<exists>c \<in> set (selectedCandidates cat r). m = exactCandidateCost c r"
    using candidateCost_exact [OF i64 [OF c(1)] c(2)] by auto
  show "\<forall>c \<in> set (selectedCandidates cat r). exactCandidateCost c r \<le> m"
  proof
    fix d assume d: "d \<in> set (selectedCandidates cat r)"
    then obtain y where y: "?f d = Inr y"
      using costs(1) by (auto simp: mapE_Inr_iff list_all2_conv_all_nth in_set_conv_nth)
    then have "y \<in> set costs" using d sets by auto
    then show "exactCandidateCost d r \<le> m"
      using candidateCost_exact(1) [OF i64 [OF d] y] costs(3) by simp
  qed
qed

section \<open>Properties of the estimator\<close>

text \<open>The checked \<open>int64\<close> arithmetic of \<open>tokenCost\<close> is exact: on every pair of
  arguments it is the round-half-up price over unbounded integers, and it reports an
  overflow exactly when the half-up numerator does not fit in an \<open>int64\<close>.\<close>
theorem tokenCost_spec:
  "tokenCost rate tokens =
     (if rate < 0 \<or> tokens < 0 then Inl NegativePriceOrTokens
      else if rate * tokens + 500000 \<le> MaxInt64 then Inr ((rate * tokens + 500000) div 1000000)
      else Inl TokenPriceOverflow)"
proof (cases "rate < 0 \<or> tokens < 0")
  case True
  then show ?thesis by (auto simp: tokenCost_def)
next
  case False
  then show ?thesis
    using tokenCost_exact_cases [of rate tokens] by (simp add: not_less exactTokenCost_def)
qed

text \<open>(C11) The one-pass loop of \<open>Estimate\<close> refines the reference: select the first
  applicable candidate of the right tier per endpoint, price each in catalog order
  (stopping at the first price error), and return the largest price, or nothing when no
  candidate applies.\<close>
theorem Estimate_reference:
  "Estimate cat r =
     (if er_EstimatedInputTokens r < 0 then Inl NegativeTokenEstimate
      else if outputTokensOf r < 0 then Inl NegativeMaxTokens
      else bindE (mapE (\<lambda>c. candidateCost c r (outputTokensOf r)) (selectedCandidates cat r))
        (\<lambda>costs. Inr (if costs = [] then None else Some (Max (set costs)))))"
proof (cases "er_EstimatedInputTokens r < 0 \<or> outputTokensOf r < 0")
  case True
  then show ?thesis by (auto simp: Estimate_def outputTokensOf_def Let_def)
next
  case False
  then show ?thesis using Estimate_reference_nonneg [of r cat] by (simp add: not_less)
qed

definition exampleCandidate :: "string \<Rightarrow> int \<Rightarrow> int \<Rightarrow> Candidate" where
  "exampleCandidate e i out =
     \<lparr>cd_EndpointID = e, cd_Model = ''m'', cd_UpstreamModel = ''u'', cd_Provider = ''p'',
      cd_UsageType = ''Credits'', cd_WaferZDRRequired = False, cd_Region = ''r'', cd_RouteType = ''chat'',
      cd_ServiceTier = '''', cd_PriceTierMaxInputTokens = None, cd_InputPriceMicroPerMTok = i,
      cd_OutputPriceMicroPerMTok = out, cd_RequestPriceMicro = 0, cd_CacheReadMicroPerMTok = 0,
      cd_CacheWriteMicroPerMTok = 0\<rparr>"

definition exampleCatalog :: Catalog where
  "exampleCatalog = \<lparr>cat_Version = ''v1'',
     cat_Candidates = [exampleCandidate ''a'' 1000000 2000000, exampleCandidate ''b'' 3000000 1000000,
                       exampleCandidate ''a'' 9000000 9000000]\<rparr>"

definition exampleRequest :: EstimateRequest where
  "exampleRequest = \<lparr>er_Model = ''m'', er_ProviderConstraints = [], er_RouteType = ''chat'',
     er_Region = ''r'', er_ServiceTier = '''', er_EstimatedInputTokens = 100, er_MaxTokens = Some 10\<rparr>"

lemma example_estimate: "Estimate exampleCatalog exampleRequest = Inr (Some 310)"
  by code_simp

lemma example_catalog_i64: "catalog_i64 exampleCatalog"
  by code_simp

text \<open>A quoted estimate is conservative and representable: it is the exact price of one
  selected candidate, no selected candidate is dearer, and it is a non-negative \<open>int64\<close>.\<close>
theorem Estimate_conservative:
  assumes "catalog_i64 cat" "Estimate cat r = Inr (Some m)"
  shows "0 \<le> m \<and> m \<le> MaxInt64
    \<and> m \<in> (\<lambda>c. exactCandidateCost c r) ` set (selectedCandidates cat r)
    \<and> list_all (\<lambda>c. exactCandidateCost c r \<le> m) (selectedCandidates cat r)"
  using Estimate_SomeD [OF assms] by (auto simp: list_all_iff)

theorem Estimate_conservative_witness:
  "Estimate exampleCatalog exampleRequest = Inr (Some 310)
   \<and> list_all (\<lambda>c. exactCandidateCost c exampleRequest \<le> 310) (selectedCandidates exampleCatalog exampleRequest)"
  using Estimate_conservative [OF example_catalog_i64 example_estimate] example_estimate by simp

end
