(* ===== verification/GoText.thy ===== *)
theory GoText
  imports GoPrelude
begin

text \<open>
  Byte strings of the Go sources: the functions of packages \<open>strings\<close>, \<open>encoding/hex\<close>
  and \<open>encoding/base64\<close> (\<open>RawURLEncoding\<close>) that the modelled packages call. Go strings
  and \<open>[]byte\<close> values are lists of bytes (\<^typ>\<open>char\<close>). \<open>TrimSpace\<close> and \<open>ToLower\<close> act on
  the ASCII range. The decoder skips carriage returns and line feeds and ignores the
  unused bits of a last partial group, as the non-strict Go decoder does.
\<close>

section \<open>Package strings\<close>

definition is_space :: "char \<Rightarrow> bool" where
  "is_space c \<longleftrightarrow> of_char c \<in> {9, 10, 11, 12, 13, 32 :: nat}"

lemma is_space_punct [simp]: "\<not> is_space CHR ''.''" "\<not> is_space CHR ''{''" "\<not> is_space CHR ''/''"
  by (simp_all add: is_space_def)

definition TrimSpace :: "string \<Rightarrow> string" where
  "TrimSpace s = rev (dropWhile is_space (rev (dropWhile is_space s)))"

definition to_lower_char :: "char \<Rightarrow> char" where
  "to_lower_char c = (let n = of_char c :: nat in if 65 \<le> n \<and> n \<le> 90 then char_of (n + 32) else c)"

definition ToLower :: "string \<Rightarrow> string" where
  "ToLower s = map to_lower_char s"

fun HasPrefix :: "string \<Rightarrow> string \<Rightarrow> bool" where
  "HasPrefix s [] = True"
| "HasPrefix [] (p # ps) = False"
| "HasPrefix (c # cs) (p # ps) = (c = p \<and> HasPrefix cs ps)"

definition CutPrefix :: "string \<Rightarrow> string \<Rightarrow> string option" where
  "CutPrefix s p = (if HasPrefix s p then Some (drop (length p) s) else None)"

definition TrimPrefix :: "string \<Rightarrow> string \<Rightarrow> string" where
  "TrimPrefix s p = (case CutPrefix s p of None \<Rightarrow> s | Some t \<Rightarrow> t)"

definition HasSuffix :: "string \<Rightarrow> string \<Rightarrow> bool" where
  "HasSuffix s p = HasPrefix (rev s) (rev p)"

text \<open>\<open>strings.Cut\<close> at a one-byte separator.\<close>

fun CutAt :: "char \<Rightarrow> string \<Rightarrow> (string \<times> string) option" where
  "CutAt c [] = None"
| "CutAt c (x # xs) = (if x = c then Some ([], xs)
     else map_option (\<lambda>(a, b). (x # a, b)) (CutAt c xs))"

text \<open>\<open>strings.Split\<close> at a one-byte separator.\<close>

fun SplitAt :: "char \<Rightarrow> string \<Rightarrow> string list" where
  "SplitAt c [] = [[]]"
| "SplitAt c (x # xs) = (if x = c then [] # SplitAt c xs
     else (case SplitAt c xs of [] \<Rightarrow> [[x]] | p # ps \<Rightarrow> (x # p) # ps))"

definition ContainsAny :: "string \<Rightarrow> string \<Rightarrow> bool" where
  "ContainsAny s chars = list_ex (\<lambda>c. c \<in> set chars) s"

fun Contains :: "string \<Rightarrow> string \<Rightarrow> bool" where
  "Contains [] p = (p = [])"
| "Contains (c # cs) p = (HasPrefix (c # cs) p \<or> Contains cs p)"

lemma HasPrefix_iff: "HasPrefix s p \<longleftrightarrow> (\<exists>t. s = p @ t)"
  by (induction s p rule: HasPrefix.induct) auto

lemma HasPrefix_append [simp]: "HasPrefix (p @ s) p"
  by (auto simp: HasPrefix_iff)

lemma CutPrefix_append [simp]: "CutPrefix (p @ s) p = Some s"
  by (simp add: CutPrefix_def)

lemma CutPrefix_Some_iff: "CutPrefix s p = Some t \<longleftrightarrow> s = p @ t"
  by (auto simp: CutPrefix_def HasPrefix_iff split: if_splits)

lemma TrimPrefix_append [simp]: "TrimPrefix (p @ s) p = s"
  by (simp add: TrimPrefix_def)

lemma SplitAt_not_Nil [simp]: "SplitAt c s \<noteq> []"
  by (induction s) (auto split: list.splits)

lemma SplitAt_no_sep: "c \<notin> set s \<Longrightarrow> SplitAt c s = [s]"
  by (induction s) auto

lemma SplitAt_append:
  "c \<notin> set a \<Longrightarrow> SplitAt c (a @ c # b) = a # SplitAt c b"
  by (induction a) auto

lemma CutAt_append: "c \<notin> set a \<Longrightarrow> CutAt c (a @ c # b) = Some (a, b)"
  by (induction a) auto

lemma CutAt_Some: "CutAt c s = Some (a, b) \<Longrightarrow> s = a @ c # b \<and> c \<notin> set a"
  by (induction s arbitrary: a) (auto split: if_splits)

lemma TrimSpace_id: "list_all (\<lambda>c. \<not> is_space c) s \<Longrightarrow> TrimSpace s = s"
proof -
  assume a: "list_all (\<lambda>c. \<not> is_space c) s"
  have d: "dropWhile is_space t = t" if "list_all (\<lambda>c. \<not> is_space c) t" for t
    using that by (cases t) auto
  have "list_all (\<lambda>c. \<not> is_space c) (rev s)" using a by simp
  then show ?thesis using a d by (simp add: TrimSpace_def)
qed

section \<open>Package encoding/hex\<close>

definition hex_val :: "char \<Rightarrow> nat option" where
  "hex_val c =
     (let n = of_char c in
      if 48 \<le> n \<and> n \<le> 57 then Some (n - 48)
      else if 97 \<le> n \<and> n \<le> 102 then Some (n - 87)
      else if 65 \<le> n \<and> n \<le> 70 then Some (n - 55)
      else None)"

fun hex_DecodeString :: "string \<Rightarrow> nat list option" where
  "hex_DecodeString [] = Some []"
| "hex_DecodeString [c] = None"
| "hex_DecodeString (a # b # cs) =
     (case (hex_val a, hex_val b, hex_DecodeString cs) of
        (Some x, Some y, Some bs) \<Rightarrow> Some ((16 * x + y) # bs)
      | _ \<Rightarrow> None)"

definition lower_hex_char :: "char \<Rightarrow> bool" where
  "lower_hex_char c \<longleftrightarrow> (let n = of_char c :: nat in 48 \<le> n \<and> n \<le> 57 \<or> 97 \<le> n \<and> n \<le> 102)"

definition hex_digit :: "nat \<Rightarrow> char" where
  "hex_digit n = char_of (if n < 10 then n + 48 else n + 87)"

definition hex_EncodeToString :: "string \<Rightarrow> string" where
  "hex_EncodeToString s = concat (map (\<lambda>c. let n = of_char c in [hex_digit (n div 16), hex_digit (n mod 16)]) s)"

lemma hex_digit_lower: "n < 16 \<Longrightarrow> lower_hex_char (hex_digit n)"
  by (auto simp: hex_digit_def lower_hex_char_def take_bit_eq_mod)

lemma hex_EncodeToString_lower: "list_all lower_hex_char (hex_EncodeToString s)"
proof -
  have "of_char c div 16 < (16 :: nat)" for c :: char
    using nat_of_char_less_256 [of c] by (simp add: less_mult_imp_div_less)
  then show ?thesis by (auto simp: hex_EncodeToString_def list_all_iff Let_def hex_digit_lower)
qed

lemma hex_EncodeToString_length: "length (hex_EncodeToString s) = 2 * length s"
  by (induction s) (auto simp: hex_EncodeToString_def Let_def)

lemma hex_DecodeString_length:
  "hex_DecodeString s = Some bs \<Longrightarrow> length s = 2 * length bs"
  by (induction s arbitrary: bs rule: hex_DecodeString.induct) (auto split: option.splits)

lemma hex_DecodeString_chars:
  "hex_DecodeString s = Some bs \<Longrightarrow> \<forall>c \<in> set s. hex_val c \<noteq> None"
  by (induction s arbitrary: bs rule: hex_DecodeString.induct) (auto split: option.splits)

lemma hex_DecodeString_total:
  "even (length s) \<Longrightarrow> \<forall>c \<in> set s. hex_val c \<noteq> None \<Longrightarrow> \<exists>bs. hex_DecodeString s = Some bs"
  by (induction s rule: hex_DecodeString.induct) (auto split: option.splits)

lemma lower_hex_iff:
  "lower_hex_char c \<longleftrightarrow> hex_val c \<noteq> None \<and> to_lower_char c = c"
proof (cases "65 \<le> (of_char c :: nat) \<and> (of_char c :: nat) \<le> 90")
  case True
  have "to_lower_char c \<noteq> c"
  proof
    assume "to_lower_char c = c"
    then have "of_char (char_of ((of_char c :: nat) + 32) :: char) = (of_char c :: nat)"
      using True by (simp add: to_lower_char_def Let_def)
    then show False using True by (simp add: take_bit_eq_mod)
  qed
  then show ?thesis using True by (auto simp: lower_hex_char_def Let_def)
next
  case False
  then show ?thesis
    by (auto simp: lower_hex_char_def to_lower_char_def hex_val_def Let_def)
qed

section \<open>Package encoding/base64: RawURLEncoding\<close>

text \<open>The alphabet \<open>A-Z a-z 0-9 - _\<close> by position.\<close>

definition b64_char :: "nat \<Rightarrow> char" where
  "b64_char n =
     char_of (if n < 26 then n + 65 else if n < 52 then n + 71 else if n < 62 then n - 4
              else if n = 62 then 45 else 95)"

definition b64_val :: "char \<Rightarrow> nat option" where
  "b64_val c =
     (let n = of_char c in
      if 65 \<le> n \<and> n \<le> 90 then Some (n - 65)
      else if 97 \<le> n \<and> n \<le> 122 then Some (n - 71)
      else if 48 \<le> n \<and> n \<le> 57 then Some (n + 4)
      else if n = 45 then Some 62
      else if n = 95 then Some 63
      else None)"

fun b64_groups :: "nat list \<Rightarrow> nat list" where
  "b64_groups [] = []"
| "b64_groups [a] = [a div 4, (a mod 4) * 16]"
| "b64_groups [a, b] = [a div 4, (a mod 4) * 16 + b div 16, (b mod 16) * 4]"
| "b64_groups (a # b # c # bs) =
     [a div 4, (a mod 4) * 16 + b div 16, (b mod 16) * 4 + c div 64, c mod 64] @ b64_groups bs"

definition b64_EncodeToString :: "string \<Rightarrow> string" where
  "b64_EncodeToString s = map b64_char (b64_groups (map of_char s))"

fun b64_ungroups :: "nat list \<Rightarrow> nat list option" where
  "b64_ungroups [] = Some []"
| "b64_ungroups [x] = None"
| "b64_ungroups [x, y] = Some [x * 4 + y div 16]"
| "b64_ungroups [x, y, z] = Some [x * 4 + y div 16, (y mod 16) * 16 + z div 4]"
| "b64_ungroups (x # y # z # w # vs) =
     map_option (\<lambda>bs. (x * 4 + y div 16) # ((y mod 16) * 16 + z div 4) # ((z mod 4) * 64 + w) # bs)
       (b64_ungroups vs)"

definition b64_skipped :: "char \<Rightarrow> bool" where
  "b64_skipped c \<longleftrightarrow> of_char c \<in> {10, 13 :: nat}"

definition b64_DecodeString :: "string \<Rightarrow> string option" where
  "b64_DecodeString s =
     (let vs = map b64_val (filter (\<lambda>c. \<not> b64_skipped c) s)
      in if None \<in> set vs then None
         else map_option (map char_of) (b64_ungroups (map the vs)))"

lemma b64_char_facts:
  "n < 64 \<Longrightarrow> b64_val (b64_char n) = Some n \<and> \<not> b64_skipped (b64_char n)
     \<and> b64_char n \<noteq> CHR ''.'' \<and> b64_char n \<noteq> CHR ''{'' \<and> \<not> is_space (b64_char n)"
proof -
  assume n: "n < 64"
  let ?k = "if n < 26 then n + 65 else if n < 52 then n + 71 else if n < 62 then n - 4
              else if n = 62 then 45 else (95 :: nat)"
  have k: "of_char (b64_char n) = ?k"
    using n by (simp add: b64_char_def take_bit_eq_mod)
  have "b64_val (b64_char n) = Some n"
    unfolding b64_val_def k Let_def using n by auto
  moreover have "b64_char n \<noteq> c" if "of_char c \<in> {46, 123 :: nat}" for c
    using that k n by (auto split: if_splits)
  then have "b64_char n \<noteq> CHR ''.''" "b64_char n \<noteq> CHR ''{''" by simp_all
  ultimately show ?thesis unfolding b64_skipped_def is_space_def k using n by auto
qed

lemma b64_groups_bound:
  "\<forall>b \<in> set bs. b < 256 \<Longrightarrow> \<forall>v \<in> set (b64_groups bs). v < 64"
proof (induction bs rule: b64_groups.induct)
  case (4 a b c bs)
  have "(a mod 4) * 16 + b div 16 < 64" "(b mod 16) * 4 + c div 64 < 64"
    using 4(2) by auto
  then show ?case using 4 by auto
next
  case (3 a b)
  have "(a mod 4) * 16 + b div 16 < 64" using 3 by auto
  then show ?case using 3 by auto
qed auto

lemma b64_ungroups_groups:
  "\<forall>b \<in> set bs. b < 256 \<Longrightarrow> b64_ungroups (b64_groups bs) = Some bs"
proof (induction bs rule: b64_groups.induct)
  case (4 a b c bs)
  have "((a mod 4) * 16 + b div 16) div 16 = a mod 4" "((a mod 4) * 16 + b div 16) mod 16 = b div 16"
    "((b mod 16) * 4 + c div 64) div 4 = b mod 16" "((b mod 16) * 4 + c div 64) mod 4 = c div 64"
    using 4(2) by (auto simp: div_add1_eq mod_add_eq)
  then show ?case using 4 by simp
next
  case (3 a b)
  have "((a mod 4) * 16 + b div 16) div 16 = a mod 4" "((a mod 4) * 16 + b div 16) mod 16 = b div 16"
    using 3 by auto
  then show ?case using 3 by simp
qed auto

lemma b64_Encode_chars:
  assumes "c \<in> set (b64_EncodeToString s)"
  shows "\<exists>n < 64. c = b64_char n"
proof -
  have "\<forall>b \<in> set (map of_char s). (b :: nat) < 256" by auto
  then show ?thesis using assms b64_groups_bound [of "map of_char s"]
    by (auto simp: b64_EncodeToString_def)
qed

lemma b64_Encode_clean:
  "CHR ''.'' \<notin> set (b64_EncodeToString s)"
  "list_all (\<lambda>c. \<not> is_space c) (b64_EncodeToString s)"
  "b64_EncodeToString s \<noteq> [] \<Longrightarrow> hd (b64_EncodeToString s) \<noteq> CHR ''{''"
  using b64_Encode_chars [of _ s] b64_char_facts hd_in_set
  by (fastforce simp: list_all_iff)+

lemma b64_Encode_Nil_iff: "b64_EncodeToString s = [] \<longleftrightarrow> s = []"
  by (cases "map of_char s :: nat list" rule: b64_groups.cases) (auto simp: b64_EncodeToString_def)

lemma b64_roundtrip: "b64_DecodeString (b64_EncodeToString s) = Some s"
proof -
  let ?bs = "map of_char s :: nat list"
  let ?gs = "b64_groups ?bs"
  have b: "\<forall>b \<in> set ?bs. b < 256" by auto
  note g = b64_groups_bound [OF b]
  have f: "filter (\<lambda>c. \<not> b64_skipped c) (map b64_char ?gs) = map b64_char ?gs"
    using g b64_char_facts by (auto simp: filter_id_conv)
  have v: "map b64_val (map b64_char ?gs) = map Some ?gs"
    using g b64_char_facts by auto
  have n: "None \<notin> set (map b64_val (map b64_char ?gs))" and t: "map the (map b64_val (map b64_char ?gs)) = ?gs"
    unfolding v by (auto simp: comp_def)
  have "map char_of ?bs = s" by (simp add: comp_def)
  then show ?thesis
    unfolding b64_DecodeString_def b64_EncodeToString_def f Let_def
    using n by (simp only: t b64_ungroups_groups [OF b] if_False option.map)
qed

end
