(* ===== verification/Receipt.thy ===== *)
theory Receipt
  imports GoText
begin

text \<open>
  Package \<open>internal/receipt\<close> (\<open>receipt.go\<close>): the enclave's Ed25519 signer and the
  JWS serialisation that inference receipts, admission receipts and spend leases share.

  The cryptographic primitives and \<open>encoding/json\<close> on the fixed structs are parameters,
  the fields of \<open>receipt_env\<close>; what the package relies on is the hypothesis
  \<open>receipt_laws\<close> (signatures of a key pair verify, keys have Ed25519's sizes, a
  marshalled header decodes to itself). Serialisation, base64, splitting and every check
  of the verifier are modelled in full.
\<close>

section \<open>Data\<close>

datatype receipt_error =
    GenerateKeyFailed | BadSeedSize | UnexpectedPublicKeyType | SignerNotInitialized
  | AttestationRequired | UnsupportedAttestationKind
  | UnmarshalFlattened | CompactPartCount | DecodeProtected | DecodePayload | DecodeSignature
  | UnmarshalHeader | UnsupportedProtectedHeader | InvalidPublicKey | KidMismatch | SignatureVerification

record JWK =
  jwk_KeyType :: string
  jwk_Curve :: string
  jwk_X :: string

record protectedHeader =
  ph_Algorithm :: string
  ph_Type :: string
  ph_KID :: string
  ph_JWK :: JWK
  ph_Attestation :: string
  ph_AttestationKind :: string

record flattenedJWS =
  fj_Protected :: string
  fj_Payload :: string
  fj_Signature :: string

record JWSParts =
  jp_ProtectedJSON :: string
  jp_PayloadJSON :: string
  jp_Signature :: string
  jp_SigningInput :: string

record Signer =
  sg_publicKey :: string
  sg_privateKey :: string

text \<open>Code outside the repository: SHA-256, Ed25519 and the JSON codec of the two structs.\<close>

record receipt_env =
  re_sha256 :: "string \<Rightarrow> string"
  re_NewKeyFromSeed :: "string \<Rightarrow> string"
  re_Public :: "string \<Rightarrow> string"
  re_Sign :: "string \<Rightarrow> string \<Rightarrow> string"
  re_Verify :: "string \<Rightarrow> string \<Rightarrow> string \<Rightarrow> bool"
  re_marshalHeader :: "protectedHeader \<Rightarrow> string"
  re_unmarshalHeader :: "string \<Rightarrow> protectedHeader option"
  re_marshalFlattened :: "flattenedJWS \<Rightarrow> string"
  re_unmarshalFlattened :: "string \<Rightarrow> flattenedJWS option"

definition receiptType :: string where
  "receiptType = ''inference-receipt+jws''"

definition keyCommitmentDomain :: string where
  "keyCommitmentDomain = ''inference-receipt-key-v1''"

definition PublicKeySize :: nat where "PublicKeySize = 32"
definition PrivateKeySize :: nat where "PrivateKeySize = 64"
definition SeedSize :: nat where "SeedSize = 32"

section \<open>The signer\<close>

definition NewSignerFromSeed :: "receipt_env \<Rightarrow> string \<Rightarrow> receipt_error + Signer" where
  "NewSignerFromSeed env seed =
     (if length seed \<noteq> SeedSize then Inl BadSeedSize
      else (let priv = re_NewKeyFromSeed env seed
            in Inr \<lparr>sg_publicKey = re_Public env priv, sg_privateKey = priv\<rparr>))"

definition KeyCommitment :: "receipt_env \<Rightarrow> Signer \<Rightarrow> string" where
  "KeyCommitment env s = re_sha256 env (keyCommitmentDomain @ [char_of (0::nat)] @ sg_publicKey s)"

definition Kid :: "receipt_env \<Rightarrow> Signer \<Rightarrow> string" where
  "Kid env s = b64_EncodeToString (re_sha256 env (sg_publicKey s))"

definition signer_JWK :: "Signer \<Rightarrow> JWK" where
  "signer_JWK s = \<lparr>jwk_KeyType = ''OKP'', jwk_Curve = ''Ed25519'',
     jwk_X = b64_EncodeToString (sg_publicKey s)\<rparr>"

definition SignDigest :: "receipt_env \<Rightarrow> Signer option \<Rightarrow> string \<Rightarrow> receipt_error + string" where
  "SignDigest env s digest =
     (case s of None \<Rightarrow> Inl SignerNotInitialized
      | Some g \<Rightarrow> if length (sg_privateKey g) \<noteq> PrivateKeySize then Inl SignerNotInitialized
                  else Inr (re_Sign env (sg_privateKey g) digest))"

definition SignMessage :: "receipt_env \<Rightarrow> Signer option \<Rightarrow> string \<Rightarrow> receipt_error + string" where
  "SignMessage env s message =
     (case s of None \<Rightarrow> Inl SignerNotInitialized
      | Some g \<Rightarrow> if length (sg_privateKey g) \<noteq> PrivateKeySize then Inl SignerNotInitialized
                  else Inr (re_Sign env (sg_privateKey g) message))"

text \<open>\<open>sign\<close> takes the marshalled claims; \<open>json.Marshal\<close> of the claim struct happens in the
  caller's model, since the package only signs the bytes.\<close>

definition sign ::
  "receipt_env \<Rightarrow> Signer option \<Rightarrow> string \<Rightarrow> string \<Rightarrow> string \<Rightarrow> receipt_error + string \<times> string \<times> string" where
  "sign env s payloadJSON attestation attKind =
     (case s of None \<Rightarrow> Inl SignerNotInitialized
      | Some g \<Rightarrow>
        if length (sg_publicKey g) \<noteq> PublicKeySize \<or> length (sg_privateKey g) \<noteq> PrivateKeySize
        then Inl SignerNotInitialized
        else
          (let header = \<lparr>ph_Algorithm = ''EdDSA'', ph_Type = receiptType, ph_KID = Kid env g,
                         ph_JWK = signer_JWK g, ph_Attestation = attestation, ph_AttestationKind = attKind\<rparr>;
               prot = b64_EncodeToString (re_marshalHeader env header);
               payload = b64_EncodeToString payloadJSON;
               signingInput = prot @ ''.'' @ payload;
               signature = re_Sign env (sg_privateKey g) signingInput
           in Inr (prot, payload, b64_EncodeToString signature)))"

definition SignCompact :: "receipt_env \<Rightarrow> Signer option \<Rightarrow> string \<Rightarrow> receipt_error + string" where
  "SignCompact env s payloadJSON =
     bindE (sign env s payloadJSON '''' '''') (\<lambda>(prot, payload, signature).
       Inr (prot @ ''.'' @ payload @ ''.'' @ signature))"

definition EncodeAttestation :: "string \<Rightarrow> string \<Rightarrow> receipt_error + string" where
  "EncodeAttestation attDoc attKind =
     (if attDoc = [] then Inl AttestationRequired
      else if attKind = ''gcp-cs-jwt'' \<or> attKind = ''azure-maa-jwt'' then Inr attDoc
      else if attKind = ''aws-nitro-cose'' then Inr (b64_EncodeToString attDoc)
      else Inl UnsupportedAttestationKind)"

definition SignFlattened ::
  "receipt_env \<Rightarrow> Signer option \<Rightarrow> string \<Rightarrow> string \<Rightarrow> string \<Rightarrow> receipt_error + string" where
  "SignFlattened env s payloadJSON attDoc attKind =
     bindE (EncodeAttestation attDoc attKind) (\<lambda>att.
     bindE (sign env s payloadJSON att attKind) (\<lambda>(prot, payload, signature).
       Inr (re_marshalFlattened env \<lparr>fj_Protected = prot, fj_Payload = payload, fj_Signature = signature\<rparr>)))"

section \<open>Parsing and verifying\<close>

definition splitJWS :: "receipt_env \<Rightarrow> string \<Rightarrow> receipt_error + string \<times> string \<times> string" where
  "splitJWS env serialized =
     (let trimmed = TrimSpace serialized in
      if HasPrefix trimmed ''{'' then
        (case re_unmarshalFlattened env trimmed of
           None \<Rightarrow> Inl UnmarshalFlattened
         | Some f \<Rightarrow> Inr (fj_Protected f, fj_Payload f, fj_Signature f))
      else (case SplitAt CHR ''.'' trimmed of
           [a, b, c] \<Rightarrow> Inr (a, b, c)
         | _ \<Rightarrow> Inl CompactPartCount))"

definition decodePart :: "receipt_error \<Rightarrow> string \<Rightarrow> receipt_error + string" where
  "decodePart e s = (case b64_DecodeString s of None \<Rightarrow> Inl e | Some b \<Rightarrow> Inr b)"

definition ParseJWS :: "receipt_env \<Rightarrow> string \<Rightarrow> receipt_error + JWSParts" where
  "ParseJWS env serialized =
     bindE (splitJWS env serialized) (\<lambda>(prot, payload, signature).
     bindE (decodePart DecodeProtected prot) (\<lambda>headerJSON.
     bindE (decodePart DecodePayload payload) (\<lambda>payloadJSON.
     bindE (decodePart DecodeSignature signature) (\<lambda>signatureBytes.
       Inr \<lparr>jp_ProtectedJSON = headerJSON, jp_PayloadJSON = payloadJSON,
            jp_Signature = signatureBytes, jp_SigningInput = prot @ ''.'' @ payload\<rparr>))))"

definition VerifyReceipt :: "receipt_env \<Rightarrow> string \<Rightarrow> receipt_error + unit" where
  "VerifyReceipt env serialized =
     bindE (ParseJWS env serialized) (\<lambda>parts.
     (case re_unmarshalHeader env (jp_ProtectedJSON parts) of
        None \<Rightarrow> Inl UnmarshalHeader
      | Some h \<Rightarrow>
        if ph_Algorithm h \<noteq> ''EdDSA'' \<or> ph_Type h \<noteq> receiptType \<or> jwk_KeyType (ph_JWK h) \<noteq> ''OKP''
           \<or> jwk_Curve (ph_JWK h) \<noteq> ''Ed25519'' then Inl UnsupportedProtectedHeader
        else (case b64_DecodeString (jwk_X (ph_JWK h)) of
            None \<Rightarrow> Inl InvalidPublicKey
          | Some publicKey \<Rightarrow>
            if length publicKey \<noteq> PublicKeySize then Inl InvalidPublicKey
            else if ph_KID h \<noteq> b64_EncodeToString (re_sha256 env publicKey) then Inl KidMismatch
            else if \<not> re_Verify env publicKey (jp_SigningInput parts) (jp_Signature parts)
              then Inl SignatureVerification
            else Inr ())))"

section \<open>What the package relies on\<close>

text \<open>The documented behaviour of the primitives: signatures of a key pair verify, and the
  JSON codec of the two structs decodes what it encodes, a flattened JWS to an object.\<close>

definition receipt_laws :: "receipt_env \<Rightarrow> bool" where
  "receipt_laws env \<longleftrightarrow>
     (\<forall>priv msg. re_Verify env (re_Public env priv) msg (re_Sign env priv msg))
     \<and> (\<forall>h. re_unmarshalHeader env (re_marshalHeader env h) = Some h \<and> re_marshalHeader env h \<noteq> [])
     \<and> (\<forall>f. re_unmarshalFlattened env (re_marshalFlattened env f) = Some f
          \<and> TrimSpace (re_marshalFlattened env f) = re_marshalFlattened env f
          \<and> HasPrefix (re_marshalFlattened env f) ''{'')"

text \<open>A signer whose public key belongs to its private key, both of Ed25519's sizes.\<close>

definition wf_signer :: "receipt_env \<Rightarrow> Signer \<Rightarrow> bool" where
  "wf_signer env s \<longleftrightarrow> sg_publicKey s = re_Public env (sg_privateKey s)
     \<and> length (re_Public env (sg_privateKey s)) = PublicKeySize
     \<and> length (sg_privateKey s) = PrivateKeySize"


lemma split_compact:
  assumes "h \<noteq> []"
  shows "splitJWS env (b64_EncodeToString h @ ''.'' @ b64_EncodeToString p @ ''.'' @ b64_EncodeToString s)
    = Inr (b64_EncodeToString h, b64_EncodeToString p, b64_EncodeToString s)"
proof -
  let ?t = "b64_EncodeToString h @ ''.'' @ b64_EncodeToString p @ ''.'' @ b64_EncodeToString s"
  have "TrimSpace ?t = ?t"
    by (rule TrimSpace_id) (simp add: b64_Encode_clean)
  moreover have "\<not> HasPrefix ?t ''{''"
  proof -
    obtain c cs where "b64_EncodeToString h = c # cs"
      using assms b64_Encode_Nil_iff by (cases "b64_EncodeToString h") auto
    then show ?thesis using b64_Encode_clean(3) [of h] by simp
  qed
  moreover have "SplitAt CHR ''.'' ?t = [b64_EncodeToString h, b64_EncodeToString p, b64_EncodeToString s]"
    using b64_Encode_clean(1) by (simp add: SplitAt_append SplitAt_no_sep)
  ultimately show ?thesis by (simp add: splitJWS_def Let_def)
qed

lemma ParseJWS_compact:
  assumes "h \<noteq> []"
  shows "ParseJWS env (b64_EncodeToString h @ ''.'' @ b64_EncodeToString p @ ''.'' @ b64_EncodeToString s)
    = Inr \<lparr>jp_ProtectedJSON = h, jp_PayloadJSON = p, jp_Signature = s,
           jp_SigningInput = b64_EncodeToString h @ ''.'' @ b64_EncodeToString p\<rparr>"
  unfolding ParseJWS_def split_compact [OF assms]
  by (simp add: decodePart_def b64_roundtrip)

lemma sign_wf:
  assumes "receipt_laws env" "wf_signer env g" "sign env (Some g) pl att kind = Inr (a, b, c)"
  shows "\<exists>h. h \<noteq> [] \<and> a = b64_EncodeToString h \<and> b = b64_EncodeToString pl
     \<and> c = b64_EncodeToString (re_Sign env (sg_privateKey g) (a @ ''.'' @ b))
     \<and> h = re_marshalHeader env \<lparr>ph_Algorithm = ''EdDSA'', ph_Type = receiptType, ph_KID = Kid env g,
            ph_JWK = signer_JWK g, ph_Attestation = att, ph_AttestationKind = kind\<rparr>"
  using assms by (auto simp: sign_def wf_signer_def receipt_laws_def Let_def)

lemma verify_parsed:
  assumes "receipt_laws env" "wf_signer env g"
    and "ParseJWS env ser = Inr \<lparr>jp_ProtectedJSON = re_marshalHeader env
        \<lparr>ph_Algorithm = ''EdDSA'', ph_Type = receiptType, ph_KID = Kid env g,
         ph_JWK = signer_JWK g, ph_Attestation = att, ph_AttestationKind = kind\<rparr>,
        jp_PayloadJSON = pl, jp_Signature = re_Sign env (sg_privateKey g) m, jp_SigningInput = m\<rparr>"
  shows "VerifyReceipt env ser = Inr ()"
  using assms
  by (simp add: VerifyReceipt_def receipt_laws_def signer_JWK_def b64_roundtrip wf_signer_def Kid_def)

lemma compact_verifies:
  assumes "receipt_laws env" "wf_signer env g" "SignCompact env (Some g) pl = Inr tok"
  shows "VerifyReceipt env tok = Inr () \<and> (\<exists>parts. ParseJWS env tok = Inr parts \<and> jp_PayloadJSON parts = pl)"
proof -
  obtain a b c where s: "sign env (Some g) pl '''' '''' = Inr (a, b, c)"
    and tok: "tok = a @ ''.'' @ b @ ''.'' @ c"
    using assms(3) by (auto simp: SignCompact_def)
  obtain h where h: "h \<noteq> []" "a = b64_EncodeToString h" "b = b64_EncodeToString pl"
      "c = b64_EncodeToString (re_Sign env (sg_privateKey g) (a @ ''.'' @ b))"
    and hd: "h = re_marshalHeader env \<lparr>ph_Algorithm = ''EdDSA'', ph_Type = receiptType, ph_KID = Kid env g,
            ph_JWK = signer_JWK g, ph_Attestation = '''', ph_AttestationKind = ''''\<rparr>"
    using sign_wf [OF assms(1,2) s] by blast
  have p: "ParseJWS env tok = Inr \<lparr>jp_ProtectedJSON = h, jp_PayloadJSON = pl,
      jp_Signature = re_Sign env (sg_privateKey g) (a @ ''.'' @ b), jp_SigningInput = a @ ''.'' @ b\<rparr>"
    using ParseJWS_compact [OF h(1)] h tok by simp
  then show ?thesis using verify_parsed [OF assms(1,2)] hd by auto
qed

lemma flattened_verifies:
  assumes "receipt_laws env" "wf_signer env g" "SignFlattened env (Some g) pl doc kind = Inr tok"
  shows "VerifyReceipt env tok = Inr () \<and> (\<exists>parts. ParseJWS env tok = Inr parts \<and> jp_PayloadJSON parts = pl)"
proof -
  obtain att a b c where s: "sign env (Some g) pl att kind = Inr (a, b, c)"
    and tok: "tok = re_marshalFlattened env \<lparr>fj_Protected = a, fj_Payload = b, fj_Signature = c\<rparr>"
    using assms(3) by (auto simp: SignFlattened_def)
  obtain h where h: "h \<noteq> []" "a = b64_EncodeToString h" "b = b64_EncodeToString pl"
      "c = b64_EncodeToString (re_Sign env (sg_privateKey g) (a @ ''.'' @ b))"
    and hd: "h = re_marshalHeader env \<lparr>ph_Algorithm = ''EdDSA'', ph_Type = receiptType, ph_KID = Kid env g,
            ph_JWK = signer_JWK g, ph_Attestation = att, ph_AttestationKind = kind\<rparr>"
    using sign_wf [OF assms(1,2) s] by blast
  have "splitJWS env tok = Inr (a, b, c)"
    using assms(1) by (simp add: splitJWS_def tok receipt_laws_def)
  then have "ParseJWS env tok = Inr \<lparr>jp_ProtectedJSON = h, jp_PayloadJSON = pl,
      jp_Signature = re_Sign env (sg_privateKey g) (a @ ''.'' @ b), jp_SigningInput = a @ ''.'' @ b\<rparr>"
    using h by (simp add: ParseJWS_def decodePart_def b64_roundtrip)
  then show ?thesis using verify_parsed [OF assms(1,2)] hd by auto
qed

section \<open>A concrete instance of the primitives\<close>

text \<open>The laws can hold: fields are base64, joined by dots; a signature is the message.\<close>

fun joinFields :: "string list \<Rightarrow> string" where
  "joinFields [] = []"
| "joinFields [x] = b64_EncodeToString x"
| "joinFields (x # y # zs) = b64_EncodeToString x @ CHR ''.'' # joinFields (y # zs)"

definition splitFields :: "string \<Rightarrow> string list" where
  "splitFields s = map (\<lambda>p. the (b64_DecodeString p)) (SplitAt CHR ''.'' s)"

lemma split_join: "xs \<noteq> [] \<Longrightarrow> splitFields (joinFields xs) = xs"
  by (induction xs rule: joinFields.induct)
    (auto simp: splitFields_def SplitAt_append SplitAt_no_sep b64_Encode_clean b64_roundtrip)

lemma joinFields_nospace: "list_all (\<lambda>c. \<not> is_space c) (joinFields xs)"
  by (induction xs rule: joinFields.induct) (auto simp: b64_Encode_clean)

definition exampleEnv :: receipt_env where
  "exampleEnv =
     \<lparr>re_sha256 = (\<lambda>s. s), re_NewKeyFromSeed = (\<lambda>s. s @ s), re_Public = take 32,
      re_Sign = (\<lambda>priv m. m), re_Verify = (\<lambda>pub m s. s = m),
      re_marshalHeader = (\<lambda>h. joinFields [ph_Algorithm h, ph_Type h, ph_KID h, jwk_KeyType (ph_JWK h),
         jwk_Curve (ph_JWK h), jwk_X (ph_JWK h), ph_Attestation h, ph_AttestationKind h]),
      re_unmarshalHeader = (\<lambda>s. case splitFields s of
         [a, b, c, d, e, f, g, h] \<Rightarrow> Some \<lparr>ph_Algorithm = a, ph_Type = b, ph_KID = c,
           ph_JWK = \<lparr>jwk_KeyType = d, jwk_Curve = e, jwk_X = f\<rparr>, ph_Attestation = g, ph_AttestationKind = h\<rparr>
       | _ \<Rightarrow> None),
      re_marshalFlattened = (\<lambda>f. CHR ''{'' # joinFields [fj_Protected f, fj_Payload f, fj_Signature f]),
      re_unmarshalFlattened = (\<lambda>s. case splitFields (tl s) of
         [a, b, c] \<Rightarrow> Some \<lparr>fj_Protected = a, fj_Payload = b, fj_Signature = c\<rparr> | _ \<Rightarrow> None)\<rparr>"

lemma exampleEnv_laws: "receipt_laws exampleEnv"
proof -
  have "TrimSpace (CHR ''{'' # joinFields xs) = CHR ''{'' # joinFields xs" for xs
    by (rule TrimSpace_id) (simp add: joinFields_nospace)
  then show ?thesis
    by (simp add: receipt_laws_def exampleEnv_def split_join del: joinFields.simps) simp
qed

definition exampleSigner :: Signer where
  "exampleSigner = \<lparr>sg_publicKey = replicate 32 CHR ''k'', sg_privateKey = replicate 64 CHR ''k''\<rparr>"

lemma exampleSigner_wf: "wf_signer exampleEnv exampleSigner"
  by (simp add: wf_signer_def exampleEnv_def exampleSigner_def PublicKeySize_def PrivateKeySize_def)

section \<open>Properties\<close>



text \<open>The same for flattened receipts, whose protected header embeds the attestation
  document of any supported kind.\<close>
theorem SignFlattened_roundtrip:
  assumes "receipt_laws env" "wf_signer env g" "SignFlattened env (Some g) payload doc kind = Inr tok"
  shows "VerifyReceipt env tok = Inr ()
    \<and> (\<exists>parts. ParseJWS env tok = Inr parts \<and> jp_PayloadJSON parts = payload)"
  using assms by (rule flattened_verifies)

theorem SignFlattened_roundtrip_witness:
  "\<exists>tok. SignFlattened exampleEnv (Some exampleSigner) ''hello'' ''doc'' ''aws-nitro-cose'' = Inr tok
     \<and> VerifyReceipt exampleEnv tok = Inr ()"
proof -
  obtain tok where "SignFlattened exampleEnv (Some exampleSigner) ''hello'' ''doc'' ''aws-nitro-cose'' = Inr tok"
    by (simp add: SignFlattened_def EncodeAttestation_def sign_def exampleSigner_def PublicKeySize_def
        PrivateKeySize_def Let_def)
  then show ?thesis
    using SignFlattened_roundtrip [OF exampleEnv_laws exampleSigner_wf] by blast
qed

end
