(* ===== verification/SpendLeaseVerifier.thy ===== *)
theory SpendLeaseVerifier
  imports SpendLease Receipt
begin

text \<open>
  The verifier of spend leases (\<open>verifier.go\<close>): the issuer configuration, the compact
  JWS checks, the claim validation and the conversion of the wall-clock expiry into a
  deadline on the receiver's monotonic clock.

  JSON decoding of the two structs is a parameter (\<open>lease_env\<close>); \<open>lease_laws\<close> states
  that decoded integers are \<open>int64\<close> values, as \<open>encoding/json\<close> documents. \<open>ParseJWS\<close> is
  the modelled one of theory \<open>Receipt\<close>.
\<close>

section \<open>Definitions\<close>

definition JWSType :: string where "JWSType = ''spend-lease+jws''"
definition Cohort :: string where "Cohort = ''credits-chat-v1''"
definition ConfigV1 :: int where "ConfigV1 = 1"
definition Skew :: int where "Skew = 10 * Second"
definition MaximumTTL :: int where "MaximumTTL = 60 * Second"
definition AdmissionMargin :: int where "AdmissionMargin = 28 * Second"
definition ReserveBudget :: int where "ReserveBudget = 28 * Second"

definition hex_char :: "char \<Rightarrow> bool" where
  "hex_char c \<longleftrightarrow> hex_val c \<noteq> None"

definition leaseUUID :: "string \<Rightarrow> bool" where
  "leaseUUID s =
     list_all2 (\<lambda>p c. p c)
       (replicate 8 hex_char @ [(=) CHR ''-''] @ replicate 4 hex_char @ [(=) CHR ''-'']
        @ [\<lambda>c. c \<in> set ''12345678''] @ replicate 3 hex_char @ [(=) CHR ''-'']
        @ [\<lambda>c. c \<in> set ''89abAB''] @ replicate 3 hex_char @ [(=) CHR ''-''] @ replicate 12 hex_char) s"

definition sha256Hex :: "string \<Rightarrow> bool" where
  "sha256Hex s \<longleftrightarrow> length s = 64 \<and> list_all lower_hex_char s"

record IssuerKey =
  ik_KID :: string
  ik_JWK :: JWK
  ik_NotBefore :: int
  ik_NotAfter :: int

record IssuerConfig =
  ic_Version :: int
  ic_Keys :: "IssuerKey list"

record configuredKey =
  ck_publicKey :: string
  ck_notBefore :: int
  ck_notAfter :: int

record Verifier =
  vf_keys :: "string \<rightharpoonup> configuredKey"

record leaseHeader =
  lh_Algorithm :: string
  lh_Type :: string
  lh_KID :: string

record lease_env =
  le_receipt :: receipt_env
  le_unmarshalConfig :: "string \<Rightarrow> IssuerConfig option"
  le_unmarshalHeader :: "string \<Rightarrow> leaseHeader option"
  le_unmarshalClaims :: "string \<Rightarrow> Claims option"

datatype config_error =
    ParseIssuerConfig | IssuerConfigVersion | InvalidKeyMetadata | InvalidEd25519Key
  | ConfiguredKidMismatch | InvalidValidityWindow | DuplicateKid

fun configureKeys ::
  "receipt_env \<Rightarrow> IssuerKey list \<Rightarrow> (string \<rightharpoonup> configuredKey) \<Rightarrow> config_error + (string \<rightharpoonup> configuredKey)" where
  "configureKeys env [] keys = Inr keys"
| "configureKeys env (item # items) keys =
     (if ik_KID item = '''' \<or> jwk_KeyType (ik_JWK item) \<noteq> ''OKP'' \<or> jwk_Curve (ik_JWK item) \<noteq> ''Ed25519''
      then Inl InvalidKeyMetadata
      else (case b64_DecodeString (jwk_X (ik_JWK item)) of
          None \<Rightarrow> Inl InvalidEd25519Key
        | Some decoded \<Rightarrow>
          if length decoded \<noteq> PublicKeySize then Inl InvalidEd25519Key
          else if ik_KID item \<noteq> b64_EncodeToString (re_sha256 env decoded) then Inl ConfiguredKidMismatch
          else if ik_NotBefore item \<le> 0 \<or> ik_NotAfter item < ik_NotBefore item then Inl InvalidValidityWindow
          else if keys (ik_KID item) \<noteq> None then Inl DuplicateKid
          else configureKeys env items (keys(ik_KID item \<mapsto>
                 \<lparr>ck_publicKey = decoded, ck_notBefore = ik_NotBefore item, ck_notAfter = ik_NotAfter item\<rparr>))))"

definition NewVerifier :: "lease_env \<Rightarrow> string \<Rightarrow> config_error + Verifier" where
  "NewVerifier env configJSON =
     (case le_unmarshalConfig env configJSON of
        None \<Rightarrow> Inl ParseIssuerConfig
      | Some config \<Rightarrow>
        if ic_Version config \<noteq> ConfigV1 \<or> ic_Keys config = [] then Inl IssuerConfigVersion
        else bindE (configureKeys (le_receipt env) (ic_Keys config) Map.empty) (\<lambda>keys. Inr \<lparr>vf_keys = keys\<rparr>))"

definition validCandidate :: "Claims \<Rightarrow> Candidate \<Rightarrow> lease_error + unit" where
  "validCandidate c cd =
     (if cd_EndpointID cd = '''' \<or> cd_Model cd = '''' \<or> cd_Provider cd = '''' \<or> cd_RouteType cd = ''''
         \<or> cd_InputPriceMicroPerMTok cd < 0 \<or> cd_OutputPriceMicroPerMTok cd < 0 \<or> cd_RequestPriceMicro cd < 0
         \<or> cd_CacheReadMicroPerMTok cd < 0 \<or> cd_CacheWriteMicroPerMTok cd < 0
         \<or> (case cd_PriceTierMaxInputTokens cd of None \<Rightarrow> False | Some m \<Rightarrow> m < 0)
      then Inl InvalidCatalogCandidate
      else if cl_LocalAdmissionAllowed c \<and> (cd_UpstreamModel cd = '''' \<or> cd_UsageType cd \<noteq> ''Credits'')
        then Inl InvalidLocalAdmissionCandidate
      else Inr ())"

definition validateClaims :: "Claims \<Rightarrow> configuredKey \<Rightarrow> gotime \<Rightarrow> lease_error + unit" where
  "validateClaims c key now =
     (if cl_Version c \<noteq> 1 \<or> cl_Type c \<noteq> JWSType \<or> \<not> leaseUUID (cl_LeaseID c) \<or> cl_KeyHash c = ''''
         \<or> cl_WorkspaceID c = '''' \<or> cl_BootKID c = '''' then Inl InvalidRequiredClaims
      else if cl_Cohort c \<noteq> Cohort \<or> cl_CapMicro c \<le> 0 \<or> cl_Generation c \<le> 0 \<or> cl_IssuedAt c \<le> 0
         \<or> cl_ExpiresAt c \<le> cl_IssuedAt c then Inl InvalidGrantClaims
      else if cl_LocalAdmissionAllowed c \<and> (\<not> cl_Authoritative c \<or> \<not> sha256Hex (cl_RoutingPolicyHash c))
        then Inl InvalidLocalAdmissionClaims
      else if i64_mul (i64_sub (cl_ExpiresAt c) (cl_IssuedAt c)) Second > MaximumTTL then Inl TTLExceedsMaximum
      else if cl_IssuedAt c < ck_notBefore key \<or> cl_IssuedAt c > ck_notAfter key then Inl IatOutsideWindow
      else if t_After now (t_Add (t_Unix (cl_ExpiresAt c) 0) Skew) then Inl TokenExpired
      else if t_After (t_Unix (cl_IssuedAt c) 0) (t_Add now Skew) then Inl TokenFromFuture
      else if cat_Version (cl_Catalog c) = '''' \<or> cat_Candidates (cl_Catalog c) = [] then Inl EmptyCatalog
      else bindE (mapE (validCandidate c) (cat_Candidates (cl_Catalog c))) (\<lambda>_. Inr ()))"

definition leaseDeadline :: "Claims \<Rightarrow> gotime \<Rightarrow> int \<Rightarrow> gotime" where
  "leaseDeadline c receivedAt offset =
     (let wallReceived = t_Unix (t_UnixSec receivedAt) (t_Nanosecond receivedAt)
      in t_Add receivedAt (t_Sub (t_Add (t_Unix (cl_ExpiresAt c) 0) offset) wallReceived))"

definition VerifyAt :: "lease_env \<Rightarrow> Verifier option \<Rightarrow> string \<Rightarrow> gotime \<Rightarrow> lease_error + VerifiedLease" where
  "VerifyAt env v token receivedAt =
     (case v of None \<Rightarrow> Inl VerifierNotConfigured
      | Some vf \<Rightarrow>
        if HasPrefix (TrimSpace token) ''{'' then Inl CompactJWSRequired
        else (case ParseJWS (le_receipt env) token of
            Inl _ \<Rightarrow> Inl ParseJWSFailed
          | Inr parts \<Rightarrow>
            (case le_unmarshalHeader env (jp_ProtectedJSON parts) of
               None \<Rightarrow> Inl ParseHeaderFailed
             | Some header \<Rightarrow>
               if lh_Algorithm header \<noteq> ''EdDSA'' \<or> lh_Type header \<noteq> JWSType then Inl UnsupportedHeader
               else (case vf_keys vf (lh_KID header) of
                   None \<Rightarrow> Inl UnconfiguredKid
                 | Some key \<Rightarrow>
                   if length (jp_Signature parts) \<noteq> 64
                      \<or> \<not> re_Verify (le_receipt env) (ck_publicKey key) (jp_SigningInput parts) (jp_Signature parts)
                   then Inl SignatureFailed
                   else (case le_unmarshalClaims env (jp_PayloadJSON parts) of
                       None \<Rightarrow> Inl ParseClaimsFailed
                     | Some claims \<Rightarrow>
                       bindE (validateClaims claims key receivedAt) (\<lambda>_.
                         Inr \<lparr>vl_Claims = claims, vl_Deadline = leaseDeadline claims receivedAt Skew,
                              vl_AdmitUntil = leaseDeadline claims receivedAt (- AdmissionMargin)\<rparr>))))))"

definition VerifyForStateAt ::
  "lease_env \<Rightarrow> Verifier option \<Rightarrow> string \<Rightarrow> gotime \<Rightarrow> bool \<Rightarrow> lease_error + VerifiedLease" where
  "VerifyForStateAt env v token receivedAt localAdmission =
     bindE (VerifyAt env v token receivedAt) (\<lambda>lease.
       if cl_Authoritative (vl_Claims lease) \<and> \<not> localAdmission then Inl AuthoritativeRefused
       else Inr lease)"

definition VerifyShadowAt :: "lease_env \<Rightarrow> Verifier option \<Rightarrow> string \<Rightarrow> gotime \<Rightarrow> lease_error + VerifiedLease" where
  "VerifyShadowAt env v token receivedAt = VerifyForStateAt env v token receivedAt False"

text \<open>\<open>Verify\<close> and \<open>VerifyShadow\<close> read the verifier's clock; the model passes the reading.\<close>

definition Verify :: "lease_env \<Rightarrow> Verifier option \<Rightarrow> gotime \<Rightarrow> string \<Rightarrow> lease_error + VerifiedLease" where
  "Verify env v now token =
     (case v of None \<Rightarrow> Inl VerifierNotConfigured | Some _ \<Rightarrow> VerifyAt env v token now)"

definition VerifyShadow :: "lease_env \<Rightarrow> Verifier option \<Rightarrow> gotime \<Rightarrow> string \<Rightarrow> lease_error + VerifiedLease" where
  "VerifyShadow env v now token =
     bindE (Verify env v now token) (\<lambda>lease.
       if cl_Authoritative (vl_Claims lease) then Inl AuthoritativeRefused else Inr lease)"

section \<open>Claims that pass\<close>

definition claims_i64 :: "Claims \<Rightarrow> bool" where
  "claims_i64 c \<longleftrightarrow> in_i64 (cl_CapMicro c) \<and> in_i64 (cl_Generation c) \<and> in_i64 (cl_IssuedAt c)
     \<and> in_i64 (cl_ExpiresAt c) \<and> catalog_i64 (cl_Catalog c)"

definition lease_laws :: "lease_env \<Rightarrow> bool" where
  "lease_laws env \<longleftrightarrow> (\<forall>s c. le_unmarshalClaims env s = Some c \<longrightarrow> claims_i64 c)"

lemma validateClaims_ok:
  assumes "validateClaims c key now = Inr u"
  shows "cl_CapMicro c > 0" "cl_Generation c > 0" "cl_IssuedAt c > 0" "cl_ExpiresAt c > cl_IssuedAt c"
    and "ck_notBefore key \<le> cl_IssuedAt c" "cl_IssuedAt c \<le> ck_notAfter key"
    and "\<forall>cd \<in> set (cat_Candidates (cl_Catalog c)). validCandidate c cd = Inr ()"
    and "cl_LocalAdmissionAllowed c \<Longrightarrow> cl_Authoritative c"
    and "i64_mul (i64_sub (cl_ExpiresAt c) (cl_IssuedAt c)) Second \<le> MaximumTTL"
    and "cat_Candidates (cl_Catalog c) \<noteq> []" "cl_BootKID c \<noteq> ''''" "cl_KeyHash c \<noteq> ''''"
  using assms
  by (auto simp: validateClaims_def mapE_Inr_iff list_all2_conv_all_nth in_set_conv_nth split: if_splits)

lemma VerifyAt_ok:
  assumes "VerifyAt env v token at = Inr lease"
  obtains vf parts header key where
    "v = Some vf" "ParseJWS (le_receipt env) token = Inr parts"
    "le_unmarshalHeader env (jp_ProtectedJSON parts) = Some header"
    "vf_keys vf (lh_KID header) = Some key"
    "re_Verify (le_receipt env) (ck_publicKey key) (jp_SigningInput parts) (jp_Signature parts)"
    "le_unmarshalClaims env (jp_PayloadJSON parts) = Some (vl_Claims lease)"
    "validateClaims (vl_Claims lease) key at = Inr ()"
    "vl_Deadline lease = leaseDeadline (vl_Claims lease) at Skew"
    "vl_AdmitUntil lease = leaseDeadline (vl_Claims lease) at (- AdmissionMargin)"
  using assms
  by (auto simp: VerifyAt_def split: option.splits if_splits sum.splits)

section \<open>Deadlines on the monotonic clock\<close>

text \<open>An expiry in the ordinary range: a positive Unix second at most ten years after receipt.\<close>

definition sane_expiry :: "Claims \<Rightarrow> gotime \<Rightarrow> bool" where
  "sane_expiry c t \<longleftrightarrow> 0 < cl_ExpiresAt c \<and> cl_ExpiresAt c < 9223372036854775808 - unixToInternal - 100
     \<and> \<bar>cl_ExpiresAt c * Second - t_wall t\<bar> \<le> 315300000 * Second"

lemma t_Unix_small:
  assumes "0 \<le> s" "s < 9223372036854775808 - unixToInternal"
  shows "t_Unix s n = \<lparr>t_wall = s * Second + n, t_mono = None\<rparr>"
proof -
  have "in_i64 (s + unixToInternal)" using assms by (simp add: i64_defs time_defs)
  then show ?thesis by (simp add: t_Unix_def i64_add_exact)
qed

lemma t_Add_wall:
  assumes "0 \<le> s" "s < 9223372036854775808 - unixToInternal - 100" "\<bar>d\<bar> \<le> 60 * Second"
  shows "t_Add \<lparr>t_wall = s * Second, t_mono = None\<rparr> d = \<lparr>t_wall = s * Second + d, t_mono = None\<rparr>"
proof -
  have "(s * Second + d) div Second \<le> s + 60" "s - 60 \<le> (s * Second + d) div Second"
    using assms(3) by (auto simp: abs_le_iff)
  then show ?thesis using assms by (simp add: t_Add_def wall_add_def Let_def i64_defs time_defs)
qed

lemma leaseDeadline_live:
  assumes "live_time t" "sane_expiry c t" "\<bar>d\<bar> \<le> 60 * Second"
  shows "leaseDeadline c t d =
    \<lparr>t_wall = cl_ExpiresAt c * Second + d,
     t_mono = Some (mono_of t + (cl_ExpiresAt c * Second + d - t_wall t))\<rparr>"
proof -
  have w: "0 \<le> t_wall t" "t_wall t \<le> 4922000000 * Second" using assms(1) by (auto simp: live_time_def)
  have e: "0 \<le> cl_ExpiresAt c" "cl_ExpiresAt c < 9223372036854775808 - unixToInternal - 100"
    using assms(2) by (auto simp: sane_expiry_def)
  have "0 \<le> t_wall t div Second" "t_wall t div Second \<le> 4922000000" using w by auto
  then have recv: "t_Unix (t_UnixSec t) (t_Nanosecond t) = \<lparr>t_wall = t_wall t, t_mono = None\<rparr>"
    using t_Unix_small [of "t_wall t div Second" "t_wall t mod Second"]
    by (simp add: t_UnixSec_def t_Nanosecond_def time_defs)
  have exp: "t_Add (t_Unix (cl_ExpiresAt c) 0) d = \<lparr>t_wall = cl_ExpiresAt c * Second + d, t_mono = None\<rparr>"
    using t_Unix_small [of "cl_ExpiresAt c" 0] t_Add_wall [OF e assms(3)] e by simp
  have span: "short_span (cl_ExpiresAt c * Second + d - t_wall t)"
    using assms(2,3) by (simp add: sane_expiry_def short_span_def abs_le_iff)
  then have "in_i64 (cl_ExpiresAt c * Second + d - t_wall t)"
    by (simp add: short_span_def i64_defs abs_le_iff)
  then show ?thesis
    using t_Add_live [OF assms(1) span] by (simp add: leaseDeadline_def recv exp t_Sub_def)
qed

lemma t_Before_leaseDeadline:
  assumes "live_time t" "live_time now" "sane_expiry c t" "\<bar>d\<bar> \<le> 60 * Second"
  shows "t_Before now (leaseDeadline c t d) \<longleftrightarrow>
     mono_of now - mono_of t < cl_ExpiresAt c * Second + d - t_wall t"
  using assms(2) leaseDeadline_live [OF assms(1,3,4)] by (auto simp: t_Before_def live_time_def)

lemma t_Unix_wrapped_negative:
  assumes "in_i64 s" "s + unixToInternal > MaxInt64" "0 \<le> d" "d \<le> 60 * Second"
  shows "t_wall (t_Add (t_Unix s 0) d) < 0"
proof -
  have "i64_add s unixToInternal = s + unixToInternal - 18446744073709551616"
    unfolding i64_add_def using assms(1,2) by (intro wrap64_over) (simp_all add: i64_defs time_defs)
  then have w: "t_wall (t_Unix s 0) = (s - 18446744073709551616) * Second" by (simp add: t_Unix_def)
  have "s \<le> MaxInt64" using assms(1) by (simp add: i64_defs)
  then have n: "(s - 18446744073709551616) * Second + d < 0"
    using assms(3,4) by (simp add: i64_defs)
  have dd: "s - 18446744073709551616 \<le> ((s - 18446744073709551616) * Second + d) div Second"
    "((s - 18446744073709551616) * Second + d) div Second < 0"
    using assms(3) n by (simp_all add: div_add1_eq le_div_iff_mult_le pos_imp_zdiv_neg_iff)
  show ?thesis using n dd assms(2) w
    by (simp add: t_Add_def wall_add_def Let_def i64_defs time_defs)
qed

lemma validated_window:
  assumes ok: "validateClaims c key at = Inr u" and i64: "claims_i64 c" and live: "live_time at"
    and ttl: "cl_ExpiresAt c - cl_IssuedAt c \<le> 9223372036"
  shows "cl_ExpiresAt c - cl_IssuedAt c \<le> 60"
    and "- Skew \<le> cl_ExpiresAt c * Second - t_wall at" "cl_ExpiresAt c * Second - t_wall at \<le> 70 * Second"
    and "sane_expiry c at"
proof -
  note v = validateClaims_ok [OF ok]
  let ?e = "cl_ExpiresAt c" and ?i = "cl_IssuedAt c"
  have w: "0 \<le> t_wall at" "t_wall at \<le> 4922000000 * Second" using live by (auto simp: live_time_def)
  have "i64_sub ?e ?i = ?e - ?i" using v(3,4) i64 by (simp add: claims_i64_def i64_sub_exact i64_defs)
  moreover have "in_i64 ((?e - ?i) * Second)" using ttl v(4) by (simp add: i64_defs)
  ultimately show ttl60: "?e - ?i \<le> 60" using v(9) by (simp add: i64_mul_exact MaximumTTL_def)
  have notExp: "t_wall at \<le> t_wall (t_Add (t_Unix ?e 0) Skew)"
    using ok by (auto simp: validateClaims_def t_After_def t_Before_def t_Add_def t_Unix_def split: if_splits option.splits)
  have "t_Before (t_Add at Skew) (t_Unix ?i 0) = False"
    using ok by (auto simp: validateClaims_def t_After_def split: if_splits)
  then have notFut: "t_wall (t_Unix ?i 0) \<le> t_wall (t_Add at Skew)"
    by (auto simp: t_Before_def t_Unix_def split: option.splits)
  have fit: "?e + unixToInternal \<le> MaxInt64"
  proof (rule ccontr)
    assume "\<not> ?thesis"
    then have "t_wall (t_Add (t_Unix ?e 0) Skew) < 0"
      using i64 by (intro t_Unix_wrapped_negative) (auto simp: claims_i64_def Skew_def)
    then show False using notExp w by simp
  qed
  have "t_wall (t_Unix ?i 0) = ?i * Second"
    using fit v(3,4) by (simp add: t_Unix_def i64_add_exact i64_defs time_defs)
  moreover have "t_wall (t_Add at Skew) = t_wall at + Skew"
    using t_Add_live [OF live, of Skew] by (simp add: Skew_def short_span_def)
  ultimately have iat: "?i * Second \<le> t_wall at + 10 * Second" using notFut by (simp add: Skew_def)
  then show hi: "?e * Second - t_wall at \<le> 70 * Second" using ttl60 by simp
  have esmall: "?e < 9223372036854775808 - unixToInternal - 100"
    using hi w by (simp add: time_defs)
  then have "t_wall (t_Add (t_Unix ?e 0) Skew) = ?e * Second + 10 * Second"
    using t_Unix_small [of ?e 0] t_Add_wall [of ?e "10 * Second"] v(3,4) by (simp add: Skew_def)
  then show lo: "- Skew \<le> ?e * Second - t_wall at" using notExp by (simp add: Skew_def)
  show "sane_expiry c at" using lo hi esmall v(3,4) by (simp add: sane_expiry_def Skew_def abs_le_iff)
qed

section \<open>Properties of the verifier\<close>

definition exampleClaims :: "int \<Rightarrow> int \<Rightarrow> Claims" where
  "exampleClaims i e =
     \<lparr>cl_Version = 1, cl_Type = JWSType, cl_Authoritative = True, cl_LocalAdmissionAllowed = True,
      cl_RoutingPolicyHash = replicate 64 CHR ''a'', cl_LeaseID = ''00000000-0000-4000-8000-000000000000'',
      cl_KeyHash = ''key'', cl_WorkspaceID = ''ws'', cl_Cohort = Cohort, cl_CapMicro = 1000,
      cl_Generation = 1, cl_IssuedAt = i, cl_ExpiresAt = e, cl_BootKID = ''boot'', cl_Catalog = exampleCatalog\<rparr>"

definition exampleKey :: configuredKey where
  "exampleKey = \<lparr>ck_publicKey = ''pk'', ck_notBefore = 1, ck_notAfter = 2000\<rparr>"

definition exampleVerifier :: Verifier where
  "exampleVerifier = \<lparr>vf_keys = [''kid'' \<mapsto> exampleKey]\<rparr>"

definition exampleLeaseEnv :: lease_env where
  "exampleLeaseEnv =
     \<lparr>le_receipt = exampleEnv\<lparr>re_Verify := (\<lambda>pk m s. pk = ''pk'')\<rparr>, le_unmarshalConfig = (\<lambda>_. None),
      le_unmarshalHeader = (\<lambda>_. Some \<lparr>lh_Algorithm = ''EdDSA'', lh_Type = JWSType, lh_KID = ''kid''\<rparr>),
      le_unmarshalClaims = (\<lambda>_. Some (exampleClaims 1000 1060))\<rparr>"

definition exampleToken :: string where
  "exampleToken = b64_EncodeToString ''h'' @ ''.'' @ b64_EncodeToString ''p'' @ ''.''
     @ b64_EncodeToString (replicate 64 CHR ''s'')"

definition exampleNow :: "int \<Rightarrow> gotime" where
  "exampleNow s = \<lparr>t_wall = s * Second, t_mono = Some ((s - 1000) * Second + 5)\<rparr>"

lemma example_verify:
  "\<exists>lease. VerifyAt exampleLeaseEnv (Some exampleVerifier) exampleToken (exampleNow 1001) = Inr lease
     \<and> vl_Claims lease = exampleClaims 1000 1060"
proof -
  have "ParseJWS (le_receipt exampleLeaseEnv) exampleToken = Inr
      \<lparr>jp_ProtectedJSON = ''h'', jp_PayloadJSON = ''p'', jp_Signature = replicate 64 CHR ''s'',
       jp_SigningInput = b64_EncodeToString ''h'' @ ''.'' @ b64_EncodeToString ''p''\<rparr>"
    unfolding exampleToken_def by (rule ParseJWS_compact) simp
  moreover have "\<not> HasPrefix (TrimSpace exampleToken) ''{''" by code_simp
  moreover have "validateClaims (exampleClaims 1000 1060) exampleKey (exampleNow 1001) = Inr ()" by code_simp
  ultimately show ?thesis
    by (simp add: VerifyAt_def exampleLeaseEnv_def exampleVerifier_def) (simp add: exampleKey_def)
qed

lemma exampleNow_live: "live_time (exampleNow 1001)" "live_time (exampleNow 1050)"
  by (simp_all add: live_time_def exampleNow_def)

lemma example_claims_i64: "claims_i64 (exampleClaims 1000 1060)"
  by code_simp



text \<open>The lifetime of an accepted lease runs on the receiver's monotonic clock. For a
  lease received at a live time whose validity does not wrap the 64-bit duration, the
  deadline test at any later reading is decided by the elapsed monotonic time alone, and
  a lease is honoured for less than 80 seconds (admissible for less than 42 seconds) after
  receipt, however the wall clock is stepped.\<close>
theorem VerifyAt_lifetime:
  assumes "lease_laws env" "VerifyAt env v token at = Inr lease" "live_time at" "live_time now"
    and "cl_ExpiresAt (vl_Claims lease) - cl_IssuedAt (vl_Claims lease) \<le> 9223372036"
  shows "(t_Before now (vl_Deadline lease) \<longleftrightarrow> mono_of now - mono_of at
            < cl_ExpiresAt (vl_Claims lease) * Second + Skew - t_wall at)
     \<and> (t_Before now (vl_Deadline lease) \<longrightarrow> mono_of now - mono_of at < 80 * Second)
     \<and> (t_Before now (vl_AdmitUntil lease) \<longrightarrow> mono_of now - mono_of at < 42 * Second)"
proof -
  obtain key where k: "validateClaims (vl_Claims lease) key at = Inr ()"
    and d: "vl_Deadline lease = leaseDeadline (vl_Claims lease) at Skew"
      "vl_AdmitUntil lease = leaseDeadline (vl_Claims lease) at (- AdmissionMargin)"
    and i: "claims_i64 (vl_Claims lease)"
    using VerifyAt_ok [OF assms(2)] assms(1) unfolding lease_laws_def by metis
  note w = validated_window [OF k i assms(3,5)]
  show ?thesis
    using t_Before_leaseDeadline [OF assms(3,4) w(4), of Skew] w(3)
      t_Before_leaseDeadline [OF assms(3,4) w(4), of "- AdmissionMargin"]
    by (auto simp: d Skew_def AdmissionMargin_def)
qed

theorem VerifyAt_lifetime_witness:
  "\<exists>lease. VerifyAt exampleLeaseEnv (Some exampleVerifier) exampleToken (exampleNow 1001) = Inr lease
     \<and> t_Before (exampleNow 1050) (vl_Deadline lease)"
proof -
  obtain lease where l: "VerifyAt exampleLeaseEnv (Some exampleVerifier) exampleToken (exampleNow 1001) = Inr lease"
    and c: "vl_Claims lease = exampleClaims 1000 1060" using example_verify by blast
  have "lease_laws exampleLeaseEnv"
    using example_claims_i64 by (auto simp: lease_laws_def exampleLeaseEnv_def)
  from VerifyAt_lifetime [OF this l exampleNow_live]
  have "t_Before (exampleNow 1050) (vl_Deadline lease)"
    by (simp add: c exampleClaims_def exampleNow_def Skew_def)
  then show ?thesis using l by blast
qed


end
