(* ===== verification/LeaseBudget.thy ===== *)
theory LeaseBudget
  imports GoPrelude
begin

text \<open>
  The contract of a component that hands out money against capped budgets, and what its
  clients may conclude. A budget has an identity, a cap and a remaining amount; a step
  may report debits. The laws say that a live budget only shrinks, by at least what was
  debited; that only live budgets are debited; and that a retired identity never returns.
  The conclusion is the safety of the ledger: over a whole run, the debits of one budget
  never exceed its cap. The contract has two providers: the methods of the lease state
  run one at a time (theory \<open>SpendLeaseState\<close>) and the atomics of concurrent admissions
  under every interleaving (theory \<open>SpendLeaseCAS\<close>).
\<close>

type_synonym 'i debit = "'i \<times> int \<times> int"

text \<open>The amounts a list of debits takes from one budget.\<close>

fun debited :: "'i debit list \<Rightarrow> 'i \<Rightarrow> int" where
  "debited [] i = 0"
| "debited ((j, c, a) # ds) i = (if j = i then a else 0) + debited ds i"

lemma debited_append [simp]: "debited (ds @ es) i = debited ds i + debited es i"
  by (induction ds i rule: debited.induct) auto

lemma debited_absent [simp]: "i \<notin> fst ` set ds \<Longrightarrow> debited ds i = 0"
  by (induction ds i rule: debited.induct) auto

text \<open>A run of a machine, with the debits of its steps in order.\<close>

inductive run_of :: "('s \<Rightarrow> 'd list \<Rightarrow> 's \<Rightarrow> bool) \<Rightarrow> 's \<Rightarrow> 'd list \<Rightarrow> 's \<Rightarrow> bool"
  for step :: "'s \<Rightarrow> 'd list \<Rightarrow> 's \<Rightarrow> bool" and s0 :: 's where
  run_start: "run_of step s0 [] s0"
| run_step: "run_of step s0 ds s \<Longrightarrow> step s es t \<Longrightarrow> run_of step s0 (ds @ es) t"

locale budget_machine =
  fixes inv :: "'s \<Rightarrow> bool"
    and view :: "'s \<Rightarrow> 'i \<Rightarrow> (int \<times> int) option"
    and retired :: "'s \<Rightarrow> 'i set"
    and step :: "'s \<Rightarrow> 'i debit list \<Rightarrow> 's \<Rightarrow> bool"
  assumes inv_step: "inv s \<Longrightarrow> step s ds t \<Longrightarrow> inv t"
    and held: "inv s \<Longrightarrow> view s i = Some (c, r) \<Longrightarrow> 0 \<le> r \<and> r \<le> c"
    and live_step: "inv s \<Longrightarrow> step s ds t \<Longrightarrow> view s i = Some (c, r) \<Longrightarrow>
      (\<exists>r'. view t i = Some (c, r') \<and> r' + debited ds i \<le> r) \<or> (i \<in> retired t \<and> debited ds i \<le> 0)"
    and debit_live: "inv s \<Longrightarrow> step s ds t \<Longrightarrow> (i, c, a) \<in> set ds \<Longrightarrow> \<exists>r. view s i = Some (c, r)"
    and retired_step: "inv s \<Longrightarrow> step s ds t \<Longrightarrow> i \<in> retired s \<Longrightarrow> i \<in> retired t"
    and retired_absent: "inv s \<Longrightarrow> i \<in> retired s \<Longrightarrow> view s i = None"
begin

text \<open>The ledger invariant of a run: what is known of every identity after the debits \<open>ds\<close>.\<close>

definition ledger :: "'i debit list \<Rightarrow> 's \<Rightarrow> bool" where
  "ledger ds s \<longleftrightarrow> inv s
     \<and> (\<forall>i c r. view s i = Some (c, r) \<longrightarrow> debited ds i + r \<le> c)
     \<and> (\<forall>i c a. (i, c, a) \<in> set ds \<longrightarrow>
          debited ds i \<le> c \<and> (i \<in> retired s \<or> (\<exists>r. view s i = Some (c, r))))"

lemma ledgerD:
  assumes "ledger ds s"
  shows "inv s"
    and "view s i = Some (c, r) \<Longrightarrow> debited ds i + r \<le> c"
    and "(i, c, a) \<in> set ds \<Longrightarrow> debited ds i \<le> c"
    and "(i, c, a) \<in> set ds \<Longrightarrow> i \<in> retired s \<or> (\<exists>r. view s i = Some (c, r))"
  using assms unfolding ledger_def by blast+

lemma ledger_step:
  assumes "ledger ds s" "step s es t"
  shows "ledger (ds @ es) t"
  unfolding ledger_def
proof (intro conjI allI impI)
  have inv: "inv s" using assms(1) by (simp add: ledger_def)
  show "inv t" using inv_step inv assms(2) by blast
  fix i c
  have gone: "debited es i = 0" if "view s i = None"
    using that debit_live [OF inv assms(2), of i] by (intro debited_absent) force
  show "debited (ds @ es) i + r \<le> c" if v: "view t i = Some (c, r)" for r
  proof (cases "view s i")
    case None
    have "i \<notin> retired s" using retired_step [OF inv assms(2)] retired_absent [OF \<open>inv t\<close>] v by force
    then have "i \<notin> fst ` set ds" using assms(1) None by (force simp: ledger_def)
    then show ?thesis using gone [OF None] held [OF \<open>inv t\<close> v] by simp
  next
    case (Some cr)
    then obtain c' r' where s: "view s i = Some (c', r')" by (cases cr) auto
    have "debited ds i + r' \<le> c'" using assms(1) s by (auto simp: ledger_def)
    moreover have "c' = c \<and> r + debited es i \<le> r'"
      using live_step [OF inv assms(2) s] v retired_absent [OF \<open>inv t\<close>] by auto
    ultimately show ?thesis by simp
  qed
  have keep: "i \<in> retired t \<or> (\<exists>r. view t i = Some (c, r))"
    if "i \<in> retired s \<or> (\<exists>r. view s i = Some (c, r))"
    using that retired_step [OF inv assms(2)] live_step [OF inv assms(2)] by blast
  show "debited (ds @ es) i \<le> c" if m: "(i, c, a) \<in> set (ds @ es)" for a
  proof (cases "view s i")
    case None
    then have "(i, c, a) \<in> set ds" using m debit_live [OF inv assms(2)] by fastforce
    then show ?thesis using ledgerD(3) [OF assms(1)] gone [OF None] by simp
  next
    case (Some cr)
    then obtain c' r where s: "view s i = Some (c', r)" by (cases cr) auto
    have c: "c' = c"
    proof -
      have "\<exists>r. view s i = Some (c, r)" if "(i, c, a) \<in> set ds"
        using that assms(1) s retired_absent [OF inv] by (fastforce simp: ledger_def)
      then show ?thesis using m s debit_live [OF inv assms(2)] by fastforce
    qed
    have "debited ds i + r \<le> c" "0 \<le> r" using assms(1) s c held [OF inv s] by (auto simp: ledger_def)
    then show ?thesis
      using live_step [OF inv assms(2) s] held [OF \<open>inv t\<close>, of i] c by auto
  qed
  show "i \<in> retired t \<or> (\<exists>r. view t i = Some (c, r))" if m: "(i, c, a) \<in> set (ds @ es)" for a
  proof (cases "(i, c, a) \<in> set ds")
    case True
    then show ?thesis using ledgerD(4) [OF assms(1)] keep by blast
  next
    case False
    then show ?thesis using m debit_live [OF inv assms(2)] keep by auto
  qed
qed

lemma ledger_run:
  assumes "run_of step s0 ds s" "inv s0"
  shows "ledger ds s"
  using assms
proof (induction rule: run_of.induct)
  case run_start
  then show ?case by (auto simp: ledger_def dest: held)
next
  case (run_step ds s es t)
  then show ?case by (blast intro: ledger_step)
qed

theorem budget_safe:
  assumes "run_of step s0 ds s" "inv s0"
  shows "(i, c, a) \<in> set ds \<Longrightarrow> debited ds i \<le> c"
    and "view s i = Some (c, r) \<Longrightarrow> debited ds i + r \<le> c"
  using ledgerD [OF ledger_run [OF assms]] by blast+

end

end
