(* ===== verification/SpendLeaseState.thy ===== *)
theory SpendLeaseState
  imports SpendLeaseVerifier LeaseBudget
begin

text \<open>
  The lease state of one boot (\<open>state.go\<close>, \<open>admission.go\<close>, \<open>auth.go\<close>): one grant per key
  hash, spent by \<open>BeforeRequest\<close> (Stage A echo) and \<open>TryAdmit\<close> (Stage C admission),
  lowered by \<open>ObserveReserve\<close>, replaced by \<open>HandleResponse\<close>.

  A slot is present in \<open>ss_slots\<close> once created; its inner option is the atomic
  \<open>current\<close> pointer. Here every method runs alone, so a compare-and-swap loop takes one
  iteration; theory \<open>SpendLeaseCAS\<close> models the same atomics under every interleaving.
  SHA-256 and the JSON encoding of the receipt are parameters (\<open>admission_env\<close>), and so is
  the \<open>MessageSigner\<close> interface value.
\<close>

section \<open>State\<close>

datatype grant_status =
    grantActive | grantExhausted | grantExpired | grantTerminal | grantAdmissionDisabled

record grant =
  g_lease :: VerifiedLease
  g_remaining :: int
  g_status :: grant_status

record ShadowState =
  ss_verifier :: "Verifier option"
  ss_bootKID :: string
  ss_registered :: bool
  ss_localAdmission :: bool
  ss_slots :: "string \<rightharpoonup> grant option"
  ss_inFlight :: "string set"

definition NewShadowState :: "Verifier option \<Rightarrow> string \<Rightarrow> ShadowState" where
  "NewShadowState verifier bootKID =
     \<lparr>ss_verifier = verifier, ss_bootKID = bootKID, ss_registered = False, ss_localAdmission = False,
      ss_slots = Map.empty, ss_inFlight = {}\<rparr>"

definition SetLocalAdmission :: "ShadowState option \<Rightarrow> bool \<Rightarrow> ShadowState option" where
  "SetLocalAdmission s enabled = map_option (\<lambda>st. st\<lparr>ss_localAdmission := enabled\<rparr>) s"

definition LocalAdmissionEnabled :: "ShadowState option \<Rightarrow> bool" where
  "LocalAdmissionEnabled s = (case s of None \<Rightarrow> False | Some st \<Rightarrow> ss_localAdmission st)"

definition SetRegistered :: "ShadowState option \<Rightarrow> bool \<Rightarrow> ShadowState option" where
  "SetRegistered s registered = map_option (\<lambda>st. st\<lparr>ss_registered := registered\<rparr>) s"

definition Registered :: "ShadowState option \<Rightarrow> bool" where
  "Registered s = (case s of None \<Rightarrow> False | Some st \<Rightarrow> ss_registered st)"

definition status_CAS :: "grant_status \<Rightarrow> grant_status \<Rightarrow> grant \<Rightarrow> grant" where
  "status_CAS old new g = (if g_status g = old then g\<lparr>g_status := new\<rparr> else g)"

definition putGrant :: "string \<Rightarrow> grant \<Rightarrow> ShadowState \<Rightarrow> ShadowState" where
  "putGrant k g st = st\<lparr>ss_slots := (ss_slots st)(k \<mapsto> Some g)\<rparr>"

definition currentGrant :: "ShadowState \<Rightarrow> string \<Rightarrow> grant option" where
  "currentGrant st k = (case ss_slots st k of None \<Rightarrow> None | Some c \<Rightarrow> c)"

fun stateName :: "grant_status \<Rightarrow> string" where
  "stateName grantExhausted = ''exhausted''"
| "stateName grantExpired = ''expired''"
| "stateName grantTerminal = ''terminal''"
| "stateName grantAdmissionDisabled = ''admission-disabled''"
| "stateName grantActive = ''active''"

definition emptyEcho :: "string \<Rightarrow> Echo" where
  "emptyEcho state = \<lparr>ec_LeaseID = None, ec_State = state, ec_RemainingMicro = None,
     ec_EnclaveEstimateMicro = None, ec_CatalogVersion = None, ec_WouldAdmit = None\<rparr>"

section \<open>Stage A: BeforeRequest\<close>

definition BeforeRequest ::
  "ShadowState option \<Rightarrow> string \<Rightarrow> EstimateRequest \<Rightarrow> gotime \<Rightarrow> ShadowState option \<times> Echo" where
  "BeforeRequest s keyHash request now =
     (case s of None \<Rightarrow> (None, emptyEcho ''dormant'')
      | Some st \<Rightarrow>
        if \<not> ss_registered st then (s, emptyEcho ''dormant'')
        else (case currentGrant st keyHash of
            None \<Rightarrow> (s, emptyEcho ''no-lease'')
          | Some current0 \<Rightarrow>
            (let claims = vl_Claims (g_lease current0);
                 current = (if \<not> t_Before now (vl_Deadline (g_lease current0))
                            then status_CAS grantActive grantExpired current0 else current0);
                 remaining = g_remaining current;
                 base = (emptyEcho '''')\<lparr>ec_LeaseID := Some (cl_LeaseID claims),
                          ec_CatalogVersion := Some (cat_Version (cl_Catalog claims)),
                          ec_RemainingMicro := Some remaining\<rparr>
             in if g_status current \<noteq> grantActive then
                  (Some (putGrant keyHash current st),
                   base\<lparr>ec_State := stateName (g_status current), ec_WouldAdmit := Some False\<rparr>)
                else (case Estimate (cl_Catalog claims) request of
                    Inr (Some estimate) \<Rightarrow>
                      (let base = base\<lparr>ec_EnclaveEstimateMicro := Some estimate\<rparr> in
                       if cl_Authoritative claims \<and> ss_localAdmission st then
                         (if remaining \<le> 0 then
                            (Some (putGrant keyHash (status_CAS grantActive grantExhausted current) st),
                             base\<lparr>ec_State := ''exhausted'', ec_WouldAdmit := Some False\<rparr>)
                          else if remaining < estimate then
                            (Some (putGrant keyHash current st),
                             base\<lparr>ec_State := ''insufficient'', ec_WouldAdmit := Some False\<rparr>)
                          else
                            (Some (putGrant keyHash current st),
                             base\<lparr>ec_State := ''active'', ec_WouldAdmit := Some False\<rparr>))
                       else if remaining \<le> 0 then
                         (Some (putGrant keyHash (status_CAS grantActive grantExhausted current) st),
                          base\<lparr>ec_State := ''exhausted'', ec_WouldAdmit := Some False\<rparr>)
                       else if remaining < estimate then
                         (Some (putGrant keyHash current st),
                          base\<lparr>ec_State := ''insufficient'', ec_WouldAdmit := Some False\<rparr>)
                       else
                         (let left = i64_sub remaining estimate;
                              debited = current\<lparr>g_remaining := left\<rparr>
                          in (Some (putGrant keyHash
                                (if left = 0 then status_CAS grantActive grantExhausted debited else debited) st),
                              base\<lparr>ec_State := ''active'', ec_WouldAdmit := Some True\<rparr>)))
                  | _ \<Rightarrow> (Some (putGrant keyHash current st),
                          base\<lparr>ec_State := ''no-applicable-lease'', ec_WouldAdmit := Some False\<rparr>)))))"

section \<open>Admission receipts (admission.go)\<close>

record admission_env =
  ae_sha256 :: "string \<Rightarrow> string"
  ae_marshalHeader :: "string \<Rightarrow> string \<Rightarrow> string \<Rightarrow> string"
  ae_marshalClaims :: "AdmissionReceiptClaims \<Rightarrow> string"

record MessageSigner =
  ms_Kid :: string
  ms_SignMessage :: "string \<Rightarrow> string option"

definition AdmissionJWSType :: string where
  "AdmissionJWSType = ''spend_lease_admission+jws''"

definition SignAdmissionReceipt ::
  "admission_env \<Rightarrow> MessageSigner option \<Rightarrow> AdmissionReceiptClaims \<Rightarrow> lease_error + string" where
  "SignAdmissionReceipt env signer claims =
     (case signer of None \<Rightarrow> Inl SignerUnavailable
      | Some sg \<Rightarrow>
        if ms_Kid sg = '''' then Inl SignerUnavailable
        else if ar_Version claims \<noteq> 1 \<or> ar_BootKID claims = '''' \<or> ar_BootKID claims \<noteq> ms_Kid sg
          then Inl InvalidReceiptClaims
        else
          (let headerJSON = ae_marshalHeader env ''EdDSA'' (ms_Kid sg) AdmissionJWSType;
               payloadJSON = ae_marshalClaims env claims;
               signingInput = b64_EncodeToString headerJSON @ ''.'' @ b64_EncodeToString payloadJSON
           in (case ms_SignMessage sg signingInput of
                 None \<Rightarrow> Inl SigningFailed
               | Some signature \<Rightarrow> Inr (signingInput @ ''.'' @ b64_EncodeToString signature))))"

definition AdmissionReceiptHash :: "admission_env \<Rightarrow> string \<Rightarrow> string" where
  "AdmissionReceiptHash env receipt = hex_EncodeToString (ae_sha256 env receipt)"

definition IdempotencyKeyHash :: "admission_env \<Rightarrow> string \<Rightarrow> string" where
  "IdempotencyKeyHash env key = hex_EncodeToString (ae_sha256 env key)"

section \<open>Stage C: TryAdmit\<close>

definition claimScope :: "ShadowState \<Rightarrow> string \<Rightarrow> ShadowState \<times> bool" where
  "claimScope st scope =
     (if scope \<in> ss_inFlight st then (st, False)
      else (st\<lparr>ss_inFlight := insert scope (ss_inFlight st)\<rparr>, True))"

definition releaseScope :: "ShadowState \<Rightarrow> string \<Rightarrow> ShadowState" where
  "releaseScope st scope = st\<lparr>ss_inFlight := ss_inFlight st - {scope}\<rparr>"

definition admissionScope :: "admission_env \<Rightarrow> Claims \<Rightarrow> string \<Rightarrow> string" where
  "admissionScope env claims idempotencyKey =
     cl_WorkspaceID claims @ ''#'' @ cl_KeyHash claims @ ''#'' @ IdempotencyKeyHash env idempotencyKey"

text \<open>The preconditions of \<open>TryAdmit\<close> on the grant's claims, evaluated in one condition.\<close>

definition admissible :: "ShadowState \<Rightarrow> grant \<Rightarrow> string \<Rightarrow> gotime \<Rightarrow> bool" where
  "admissible st g routingPolicyHash now =
     (let claims = vl_Claims (g_lease g) in
      \<not> (\<not> cl_Authoritative claims \<or> \<not> cl_LocalAdmissionAllowed claims \<or> cl_BootKID claims \<noteq> ss_bootKID st
         \<or> cl_RoutingPolicyHash claims \<noteq> routingPolicyHash
         \<or> t_UnixMilli now < i64_mul (cl_IssuedAt claims) 1000
         \<or> \<not> t_Before now (vl_AdmitUntil (g_lease g))))"

definition receiptFor :: "admission_env \<Rightarrow> Claims \<Rightarrow> string \<Rightarrow> int \<Rightarrow> int \<Rightarrow> gotime \<Rightarrow> AdmissionReceiptClaims" where
  "receiptFor env claims idempotencyKey estimate remainingAfter now =
     \<lparr>ar_AdmittedAtMS = t_UnixMilli now, ar_BootKID = cl_BootKID claims, ar_EnclaveEstimateMicro = estimate,
      ar_Generation = cl_Generation claims, ar_IdempotencyKeySHA256 = IdempotencyKeyHash env idempotencyKey,
      ar_KeyHash = cl_KeyHash claims, ar_LeaseID = cl_LeaseID claims, ar_RemainingAfterMicro = remainingAfter,
      ar_RoutingPolicyHash = cl_RoutingPolicyHash claims, ar_Version = 1, ar_WorkspaceID = cl_WorkspaceID claims\<rparr>"

text \<open>The loop of \<open>TryAdmit\<close> after the scope was claimed.\<close>

definition admitDecrement ::
  "admission_env \<Rightarrow> ShadowState \<Rightarrow> string \<Rightarrow> grant \<Rightarrow> string \<Rightarrow> int \<Rightarrow> gotime \<Rightarrow> MessageSigner option
    \<Rightarrow> ShadowState \<times> (lease_error + Admission option)" where
  "admitDecrement env st keyHash current idempotencyKey estimate now signer =
     (let claims = vl_Claims (g_lease current); scope = admissionScope env claims idempotencyKey;
          remaining = g_remaining current in
      if g_status current \<noteq> grantActive then (releaseScope st scope, Inr None)
      else if remaining \<le> 0 then
        (releaseScope (putGrant keyHash (status_CAS grantActive grantExhausted current) st) scope, Inr None)
      else if remaining < estimate then (releaseScope st scope, Inr None)
      else
        (let remainingAfter = i64_sub remaining estimate;
             debited = current\<lparr>g_remaining := remainingAfter\<rparr>;
             st' = putGrant keyHash (if remainingAfter = 0 then status_CAS grantActive grantExhausted debited
                                     else debited) st
         in (case SignAdmissionReceipt env signer (receiptFor env claims idempotencyKey estimate remainingAfter now) of
               Inl e \<Rightarrow> (releaseScope st' scope, Inl e)
             | Inr receipt \<Rightarrow>
               (st', Inr (Some
                 \<lparr>ad_Receipt = receipt, ad_ReceiptHash = AdmissionReceiptHash env receipt, ad_Scope = scope,
                  ad_Lease = g_lease current, ad_EstimateMicro = estimate, ad_RemainingAfterMicro = remainingAfter,
                  ad_Echo = \<lparr>ec_LeaseID = Some (cl_LeaseID claims), ec_State = ''active'',
                    ec_RemainingMicro = Some remaining, ec_EnclaveEstimateMicro = Some estimate,
                    ec_CatalogVersion = Some (cat_Version (cl_Catalog claims)), ec_WouldAdmit = Some True\<rparr>,
                  ad_release = Some scope\<rparr>)))))"

definition TryAdmit ::
  "admission_env \<Rightarrow> ShadowState option \<Rightarrow> string \<Rightarrow> string \<Rightarrow> string \<Rightarrow> EstimateRequest \<Rightarrow> gotime
    \<Rightarrow> MessageSigner option \<Rightarrow> ShadowState option \<times> (lease_error + Admission option)" where
  "TryAdmit env s keyHash idempotencyKey routingPolicyHash request now signer =
     (case s of None \<Rightarrow> (None, Inr None)
      | Some st \<Rightarrow>
        if \<not> ss_localAdmission st \<or> \<not> ss_registered st
           \<or> (case signer of None \<Rightarrow> True | Some sg \<Rightarrow> ms_Kid sg = '''') \<or> idempotencyKey = ''''
        then (s, Inr None)
        else (case currentGrant st keyHash of
            None \<Rightarrow> (s, Inr None)
          | Some current \<Rightarrow>
            (let claims = vl_Claims (g_lease current) in
             if \<not> admissible st current routingPolicyHash now then (s, Inr None)
             else if g_status current \<noteq> grantActive then (s, Inr None)
             else (case Estimate (cl_Catalog claims) request of
                 Inl e \<Rightarrow> (s, Inl e)
               | Inr None \<Rightarrow> (s, Inr None)
               | Inr (Some estimate) \<Rightarrow>
                 (case claimScope st (admissionScope env claims idempotencyKey) of
                    (_, False) \<Rightarrow> (s, Inr None)
                  | (st1, True) \<Rightarrow>
                    (case admitDecrement env st1 keyHash current idempotencyKey estimate now signer of
                       (st2, r) \<Rightarrow> (Some st2, r)))))))"

definition Release :: "ShadowState \<Rightarrow> Admission option \<Rightarrow> ShadowState \<times> Admission option" where
  "Release st a =
     (case a of None \<Rightarrow> (st, None)
      | Some ad \<Rightarrow> (case ad_release ad of
          None \<Rightarrow> (st, Some ad)
        | Some scope \<Rightarrow> (releaseScope st scope, Some (ad\<lparr>ad_release := None\<rparr>))))"

section \<open>Router feedback: ObserveReserve and HandleResponse\<close>

definition ObserveReserve ::
  "ShadowState option \<Rightarrow> string \<Rightarrow> string \<Rightarrow> int \<Rightarrow> int option \<Rightarrow> string \<Rightarrow> bool \<Rightarrow> ShadowState option" where
  "ObserveReserve s keyHash leaseID generation ledgerRemaining reason marked =
     (case s of None \<Rightarrow> None
      | Some st \<Rightarrow>
        (case currentGrant st keyHash of
           None \<Rightarrow> s
         | Some current \<Rightarrow>
           if cl_LeaseID (vl_Claims (g_lease current)) \<noteq> leaseID
              \<or> cl_Generation (vl_Claims (g_lease current)) \<noteq> generation then s
           else if \<not> marked \<or> reason = ''not_accepting'' \<or> reason = ''boot_not_accepted''
             then Some (putGrant keyHash (current\<lparr>g_status := grantAdmissionDisabled\<rparr>) st)
           else if reason = ''capacity''
             then Some (putGrant keyHash (current\<lparr>g_remaining := 0, g_status := grantExhausted\<rparr>) st)
           else (case ledgerRemaining of
               None \<Rightarrow> s
             | Some ledger \<Rightarrow>
               if ledger < 0 then s
               else
                 (let lowered = (if ledger \<ge> g_remaining current then current
                                 else current\<lparr>g_remaining := ledger\<rparr>)
                  in Some (putGrant keyHash
                       (if g_remaining lowered = 0 then status_CAS grantActive grantExhausted lowered else lowered) st)))))"

definition grantAlive :: "grant \<Rightarrow> gotime \<Rightarrow> grant \<times> bool" where
  "grantAlive g now =
     (if g_status g \<noteq> grantActive \<or> g_remaining g \<le> 0 then (g, False)
      else if \<not> t_Before now (vl_Deadline (g_lease g)) then (status_CAS grantActive grantExpired g, False)
      else (g, True))"

definition lookupSlot :: "ShadowState \<Rightarrow> string \<Rightarrow> bool \<Rightarrow> ShadowState" where
  "lookupSlot st keyHash create =
     (if ss_slots st keyHash = None \<and> create then st\<lparr>ss_slots := (ss_slots st)(keyHash \<mapsto> None)\<rparr> else st)"

text \<open>The part of \<open>handleResponse\<close> under the slot's mutex.\<close>

definition installLease ::
  "ShadowState \<Rightarrow> string \<Rightarrow> string \<Rightarrow> VerifiedLease \<Rightarrow> gotime \<Rightarrow> ShadowState \<times> (lease_error + unit)" where
  "installLease st lookupHash leaseStatus lease receivedAt =
     (let claims = vl_Claims lease; current = currentGrant st lookupHash in
      if leaseStatus = ''terminal'' \<or> leaseStatus = ''expired'' then
        (case current of None \<Rightarrow> (st, Inr ())
         | Some g \<Rightarrow>
           if cl_LeaseID (vl_Claims (g_lease g)) = cl_LeaseID claims then
             (putGrant lookupHash (g\<lparr>g_status := (if leaseStatus = ''terminal'' then grantTerminal else grantExpired)\<rparr>) st,
              Inr ())
           else (st, Inr ()))
      else if leaseStatus \<noteq> ''active'' then (st, Inl InvalidLeaseStatus)
      else
        (let fresh = \<lparr>g_lease = lease, g_remaining = cl_CapMicro claims, g_status = grantActive\<rparr> in
         (case current of None \<Rightarrow> (putGrant lookupHash fresh st, Inr ())
          | Some g \<Rightarrow>
            (case grantAlive g receivedAt of
               (g', True) \<Rightarrow> (putGrant lookupHash g' st, Inr ())
             | (g', False) \<Rightarrow>
               if cl_Generation claims \<le> cl_Generation (vl_Claims (g_lease g'))
               then (putGrant lookupHash g' st, Inr ())
               else (putGrant lookupHash fresh st, Inr ())))))"

definition handleResponse ::
  "lease_env \<Rightarrow> ShadowState option \<Rightarrow> string \<Rightarrow> string \<Rightarrow> string \<Rightarrow> Response option \<Rightarrow> gotime
    \<Rightarrow> ShadowState option \<times> (lease_error + unit)" where
  "handleResponse env s lookupHash keyHash0 workspaceID response receivedAt =
     (case (s, response) of
        (Some st, Some rsp) \<Rightarrow>
          (case rsp_Token rsp of
             None \<Rightarrow> (s, Inr ())
           | Some token \<Rightarrow>
             if token = '''' then (s, Inr ())
             else if ss_verifier st = None then (s, Inl VerifierUnavailable)
             else (case VerifyForStateAt env (ss_verifier st) token receivedAt (ss_localAdmission st) of
                 Inl e \<Rightarrow> (s, Inl e)
               | Inr lease \<Rightarrow>
                 (let claims = vl_Claims lease;
                      keyHash = (if cl_Authoritative claims then keyHash0 else lookupHash) in
                  if cl_Authoritative claims \<and> (lookupHash = '''' \<or> keyHash0 = '''' \<or> workspaceID = '''')
                    then (s, Inl MissingGrantBinding)
                  else if cl_KeyHash claims \<noteq> keyHash \<or> cl_BootKID claims \<noteq> ss_bootKID st
                     \<or> (workspaceID \<noteq> '''' \<and> cl_WorkspaceID claims \<noteq> workspaceID)
                    then (s, Inl GrantBindingMismatch)
                  else if \<not> ss_registered st then (s, Inr ())
                  else (case installLease (lookupSlot st lookupHash True) lookupHash (rsp_LeaseStatus rsp) lease receivedAt of
                      (st', r) \<Rightarrow> (Some st', r)))))
      | _ \<Rightarrow> (s, Inr ()))"

definition HandleResponse ::
  "lease_env \<Rightarrow> ShadowState option \<Rightarrow> string \<Rightarrow> string \<Rightarrow> Response option \<Rightarrow> gotime
    \<Rightarrow> ShadowState option \<times> (lease_error + unit)" where
  "HandleResponse env s keyHash workspaceID response receivedAt =
     handleResponse env s keyHash keyHash workspaceID response receivedAt"

definition HandleAdmissionResponse ::
  "lease_env \<Rightarrow> ShadowState option \<Rightarrow> string \<Rightarrow> string \<Rightarrow> string \<Rightarrow> Response option \<Rightarrow> gotime
    \<Rightarrow> ShadowState option \<times> (lease_error + unit)" where
  "HandleAdmissionResponse env s lookupHash storedKeyID workspaceID response receivedAt =
     (if \<not> LocalAdmissionEnabled s then HandleResponse env s lookupHash workspaceID response receivedAt
      else handleResponse env s lookupHash storedKeyID workspaceID response receivedAt)"

section \<open>Boot authentication (auth.go)\<close>

definition authorizeDomain :: string where "authorizeDomain = ''tr-authorize-v1''"
definition issuerConfigDomain :: string where "issuerConfigDomain = ''spend-lease-issuer-config-v1''"

definition to_upper_char :: "char \<Rightarrow> char" where
  "to_upper_char c = (let n = of_char c :: nat in if 97 \<le> n \<and> n \<le> 122 then char_of (n - 32) else c)"

definition IssuerConfigCommitment :: "(string \<Rightarrow> string) \<Rightarrow> string \<Rightarrow> string" where
  "IssuerConfigCommitment sha256 config = sha256 (issuerConfigDomain @ [char_of (0::nat)] @ config)"

definition AuthorizeDigest :: "(string \<Rightarrow> string) \<Rightarrow> string \<Rightarrow> string \<Rightarrow> string \<Rightarrow> string" where
  "AuthorizeDigest sha256 method path body =
     sha256 (authorizeDomain @ map to_upper_char method @ path @ sha256 body)"

record BootAuth =
  ba_KID :: string
  ba_Sig :: string

record DigestSigner =
  ds_Kid :: string
  ds_SignDigest :: "string \<Rightarrow> string option"

definition SignAuthorize ::
  "(string \<Rightarrow> string) \<Rightarrow> DigestSigner option \<Rightarrow> string \<Rightarrow> string \<Rightarrow> string \<Rightarrow> lease_error + BootAuth" where
  "SignAuthorize sha256 signer method path body =
     (case signer of None \<Rightarrow> Inl SignerUnavailable
      | Some sg \<Rightarrow>
        if ds_Kid sg = '''' then Inl SignerUnavailable
        else (case ds_SignDigest sg (AuthorizeDigest sha256 method path body) of
            None \<Rightarrow> Inl SigningFailed
          | Some signature \<Rightarrow> Inr \<lparr>ba_KID = ds_Kid sg, ba_Sig = b64_EncodeToString signature\<rparr>))"

definition HeaderValue :: "BootAuth \<Rightarrow> string" where
  "HeaderValue auth = ''kid='' @ ba_KID auth @ '',sig='' @ ba_Sig auth"

section \<open>Well-formed states\<close>

abbreviation g_gen :: "grant \<Rightarrow> int" where
  "g_gen g \<equiv> cl_Generation (vl_Claims (g_lease g))"

abbreviation g_cap :: "grant \<Rightarrow> int" where
  "g_cap g \<equiv> cl_CapMicro (vl_Claims (g_lease g))"

text \<open>A grant never holds a negative amount nor more than its cap, and an active grant is
  never empty; its claims are \<open>int64\<close> values.\<close>

definition wf_grant :: "grant \<Rightarrow> bool" where
  "wf_grant g \<longleftrightarrow> 0 \<le> g_remaining g \<and> g_remaining g \<le> g_cap g
     \<and> (g_status g = grantActive \<longrightarrow> 0 < g_remaining g) \<and> claims_i64 (vl_Claims (g_lease g))"

definition wf_state :: "ShadowState \<Rightarrow> bool" where
  "wf_state st \<longleftrightarrow> (\<forall>k g. currentGrant st k = Some g \<longrightarrow> wf_grant g \<and>
     cl_BootKID (vl_Claims (g_lease g)) = ss_bootKID st)"

text \<open>How one grant may change while it stays in its slot.\<close>

definition spent :: "grant \<Rightarrow> int \<Rightarrow> grant \<Rightarrow> bool" where
  "spent g a g' \<longleftrightarrow> g_lease g' = g_lease g \<and> g_remaining g' = g_remaining g - a"

lemma currentGrant_put [simp]:
  "currentGrant (putGrant k g st) k' = (if k' = k then Some g else currentGrant st k')"
  by (simp add: currentGrant_def putGrant_def)

lemma currentGrant_frame [simp]:
  "currentGrant (st\<lparr>ss_inFlight := x\<rparr>) k = currentGrant st k"
  "currentGrant (st\<lparr>ss_registered := b\<rparr>) k = currentGrant st k"
  "currentGrant (st\<lparr>ss_localAdmission := b\<rparr>) k = currentGrant st k"
  "currentGrant (releaseScope st scope) k = currentGrant st k"
  "currentGrant (lookupSlot st k' c) k = currentGrant st k"
  by (auto simp: currentGrant_def releaseScope_def lookupSlot_def)

lemma bootKID_frame [simp]:
  "ss_bootKID (putGrant k g st) = ss_bootKID st"
  "ss_bootKID (releaseScope st scope) = ss_bootKID st"
  "ss_bootKID (lookupSlot st k c) = ss_bootKID st"
  by (auto simp: putGrant_def releaseScope_def lookupSlot_def)

lemma status_CAS_simps [simp]:
  "g_lease (status_CAS a b g) = g_lease g"
  "g_remaining (status_CAS a b g) = g_remaining g"
  "g_status (status_CAS a b g) = (if g_status g = a then b else g_status g)"
  by (simp_all add: status_CAS_def)

lemma wf_stateD:
  "wf_state st \<Longrightarrow> currentGrant st k = Some g \<Longrightarrow> wf_grant g"
  by (auto simp: wf_state_def)

lemma wf_grant_debit:
  assumes "wf_grant g" "Estimate (cl_Catalog (vl_Claims (g_lease g))) r = Inr (Some e)" "e \<le> g_remaining g"
  shows "0 \<le> e" "i64_sub (g_remaining g) e = g_remaining g - e"
proof -
  have c: "catalog_i64 (cl_Catalog (vl_Claims (g_lease g)))" "in_i64 (g_cap g)"
    using assms(1) by (auto simp: wf_grant_def claims_i64_def)
  show e: "0 \<le> e" using Estimate_SomeD(1) [OF c(1) assms(2)] by simp
  have "in_i64 (g_remaining g - e)"
    using assms(1,3) e c(2) by (auto simp: wf_grant_def i64_defs)
  then show "i64_sub (g_remaining g) e = g_remaining g - e" by (rule i64_sub_exact)
qed

section \<open>Effect of each operation on the grants\<close>

text \<open>What an operation may do to the slots: at most the grant of one key changes, it keeps
  its lease, and it loses exactly the reported amount or at least it.\<close>

definition slot_spends :: "ShadowState \<Rightarrow> string \<Rightarrow> int \<Rightarrow> ShadowState \<Rightarrow> bool" where
  "slot_spends st k a st' \<longleftrightarrow> ss_bootKID st' = ss_bootKID st
     \<and> (\<forall>k'. k' \<noteq> k \<longrightarrow> currentGrant st' k' = currentGrant st k')
     \<and> (case currentGrant st k of
          None \<Rightarrow> currentGrant st' k = None
        | Some g \<Rightarrow> \<exists>g'. currentGrant st' k = Some g' \<and> g_lease g' = g_lease g \<and> wf_grant g'
            \<and> g_remaining g' \<le> g_remaining g - a)"

lemma slot_spends_refl: "wf_state st \<Longrightarrow> slot_spends st k 0 st"
  by (auto simp: slot_spends_def wf_state_def split: option.splits)

lemma slot_spends_frame:
  "slot_spends st k a st' \<Longrightarrow> slot_spends st k a (releaseScope st' scope)"
  "slot_spends st k a st' \<Longrightarrow> slot_spends (st\<lparr>ss_inFlight := x\<rparr>) k a st' "
  by (auto simp: slot_spends_def split: option.splits)

lemma slot_spends_put:
  assumes "currentGrant st k = Some g" "g_lease g' = g_lease g" "wf_grant g'"
    "g_remaining g' \<le> g_remaining g - a"
  shows "slot_spends st k a (putGrant k g' st)"
  using assms by (simp add: slot_spends_def)

lemma wf_after_debit:
  assumes "wf_grant g" "e \<le> g_remaining g" "0 \<le> e"
  shows "wf_grant (if g_remaining g - e = 0 then status_CAS grantActive grantExhausted (g\<lparr>g_remaining := g_remaining g - e\<rparr>)
      else g\<lparr>g_remaining := g_remaining g - e\<rparr>)"
  using assms by (auto simp: wf_grant_def)

lemma wf_grant_status: "wf_grant g \<Longrightarrow> s \<noteq> grantActive \<Longrightarrow> wf_grant (g\<lparr>g_status := s\<rparr>)"
  by (simp add: wf_grant_def)

lemma wf_grant_CAS: "wf_grant g \<Longrightarrow> s \<noteq> grantActive \<Longrightarrow> wf_grant (status_CAS grantActive s g)"
  by (simp add: status_CAS_def wf_grant_status)

text \<open>The amount an echo of \<open>BeforeRequest\<close> says it took.\<close>

definition echoDebit :: "Echo \<Rightarrow> int" where
  "echoDebit e = (if ec_WouldAdmit e = Some True then the (ec_EnclaveEstimateMicro e) else 0)"

lemma BeforeRequest_spends:
  assumes "wf_state st" "BeforeRequest (Some st) k r now = (s', echo)"
  shows "\<exists>st'. s' = Some st' \<and> slot_spends st k (echoDebit echo) st'"
proof (cases "ss_registered st \<and> currentGrant st k \<noteq> None")
  case False
  then show ?thesis
    using assms slot_spends_refl [OF assms(1)]
    by (auto simp: BeforeRequest_def emptyEcho_def echoDebit_def split: option.splits if_splits)
next
  case True
  then obtain g0 where g0: "currentGrant st k = Some g0" and reg: "ss_registered st" by auto
  define g where "g = (if \<not> t_Before now (vl_Deadline (g_lease g0)) then status_CAS grantActive grantExpired g0 else g0)"
  have wf0: "wf_grant g0" using assms(1) g0 by (rule wf_stateD)
  then have wf: "wf_grant g" by (simp add: g_def wf_grant_CAS)
  have lease: "g_lease g = g_lease g0" "g_remaining g = g_remaining g0" by (simp_all add: g_def)
  have put: "slot_spends st k a (putGrant k g' st)"
    if "g_lease g' = g_lease g" "wf_grant g'" "g_remaining g' \<le> g_remaining g - a" for g' a
    using slot_spends_put [OF g0] that lease by simp
  note same = put [OF refl wf, of 0, simplified]
  note exh = put [of "status_CAS grantActive grantExhausted g" 0, simplified, OF wf_grant_CAS [OF wf, simplified]]
  have deb: "slot_spends st k e (putGrant k (if i64_sub (g_remaining g) e = 0
        then status_CAS grantActive grantExhausted (g\<lparr>g_remaining := i64_sub (g_remaining g) e\<rparr>)
        else g\<lparr>g_remaining := i64_sub (g_remaining g) e\<rparr>) st)"
    if e: "Estimate (cl_Catalog (vl_Claims (g_lease g))) r = Inr (Some e)" "e \<le> g_remaining g" for e
    unfolding wf_grant_debit(2) [OF wf e]
    by (rule put) (use wf_after_debit [OF wf e(2) wf_grant_debit(1) [OF wf e]] in auto)
  show ?thesis
    using assms(2) g0 reg same exh deb
    unfolding BeforeRequest_def echoDebit_def
    by (auto simp: Let_def g_def [symmetric] lease not_less split: if_splits sum.splits option.splits)
qed

text \<open>The amount an admission takes.\<close>

definition admittedAmount :: "lease_error + Admission option \<Rightarrow> int" where
  "admittedAmount r = (case r of Inr (Some ad) \<Rightarrow> ad_EstimateMicro ad | _ \<Rightarrow> 0)"

lemma admittedAmount_simps [simp]:
  "admittedAmount (Inl e) = 0" "admittedAmount (Inr None) = 0"
  "admittedAmount (Inr (Some ad)) = ad_EstimateMicro ad"
  by (simp_all add: admittedAmount_def)

text \<open>The decrement of \<open>TryAdmit\<close>: the debited state, whatever becomes of the receipt.\<close>

lemma admitDecrement_spends:
  assumes "wf_state st0" "currentGrant st0 k = Some g" "st = st0\<lparr>ss_inFlight := X\<rparr>"
    and "Estimate (cl_Catalog (vl_Claims (g_lease g))) r = Inr (Some e)"
    and "admitDecrement env st k g idem e now signer = (st', res)"
  shows "slot_spends st0 k (admittedAmount res) st'"
proof -
  have wf: "wf_grant g" using assms(1,2) by (rule wf_stateD)
  have cg: "currentGrant st k = Some g" using assms(2,3) by simp
  have lift: "slot_spends st0 k a t" if "slot_spends st k a t" for a t
    using that assms(3) by (auto simp: slot_spends_def split: option.splits)
  have same: "slot_spends st0 k 0 (releaseScope st scope)" for scope
    by (rule lift, rule slot_spends_frame) (use cg wf in \<open>auto simp: slot_spends_def\<close>)
  have exh: "slot_spends st0 k 0 (releaseScope (putGrant k (status_CAS grantActive grantExhausted g) st) scope)" for scope
    by (rule lift, rule slot_spends_frame, rule slot_spends_put [OF cg]) (simp_all add: wf wf_grant_CAS)
  show ?thesis
  proof (cases "g_status g = grantActive \<and> 0 < g_remaining g \<and> e \<le> g_remaining g")
    case False
    then show ?thesis using assms(5) same exh
      by (auto simp: admitDecrement_def Let_def admittedAmount_def not_less not_le split: if_splits)
  next
    case True
    note d = wf_grant_debit [OF wf assms(4)]
    define g' where "g' = (if g_remaining g - e = 0 then status_CAS grantActive grantExhausted (g\<lparr>g_remaining := g_remaining g - e\<rparr>)
      else g\<lparr>g_remaining := g_remaining g - e\<rparr>)"
    have "slot_spends st k a (putGrant k g' st)" if "a \<le> e" for a
      by (rule slot_spends_put [OF cg])
        (use that wf_after_debit [OF wf _ d(1)] True in \<open>auto simp: g'_def\<close>)
    then have deb: "slot_spends st0 k e (putGrant k g' st)" "slot_spends st0 k 0 (releaseScope (putGrant k g' st) scope)" for scope
      using lift slot_spends_frame(1) d(1) True by auto
    then show ?thesis using assms(5) True d(2) unfolding g'_def
      by (auto simp: admitDecrement_def Let_def admittedAmount_def split: sum.splits if_splits)
  qed
qed

lemma TryAdmit_spends:
  assumes "wf_state st" "TryAdmit env (Some st) k idem rph r now signer = (s', res)"
  shows "\<exists>st'. s' = Some st' \<and> slot_spends st k (admittedAmount res) st'"
proof -
  have id: "slot_spends st k 0 st" by (rule slot_spends_refl [OF assms(1)])
  have dec: "slot_spends st k (admittedAmount res') st'"
    if "currentGrant st k = Some g" "Estimate (cl_Catalog (vl_Claims (g_lease g))) r = Inr (Some e)"
      "admitDecrement env (st\<lparr>ss_inFlight := X\<rparr>) k g idem e now signer = (st', res')" for g e X st' res'
    using admitDecrement_spends [OF assms(1) that(1) refl that(2,3)] .
  have dec': "slot_spends st k (admittedAmount (snd (admitDecrement env (st\<lparr>ss_inFlight := X\<rparr>) k g idem e now signer)))
      (fst (admitDecrement env (st\<lparr>ss_inFlight := X\<rparr>) k g idem e now signer))"
    if "currentGrant st k = Some g" "Estimate (cl_Catalog (vl_Claims (g_lease g))) r = Inr (Some e)" for g e X
    using dec [OF that prod.collapse [symmetric]] .
  show ?thesis
    using assms(2) id dec'
    unfolding TryAdmit_def claimScope_def Let_def case_prod_unfold
    by (auto split: if_splits option.splits sum.splits bool.splits)
qed

lemma ObserveReserve_spends:
  assumes "wf_state st"
  shows "\<exists>st'. ObserveReserve (Some st) k lid gen ledger reason marked = Some st' \<and> slot_spends st k 0 st'"
proof (cases "currentGrant st k")
  case None
  then show ?thesis using slot_spends_refl [OF assms] by (simp add: ObserveReserve_def)
next
  case (Some g)
  have wf: "wf_grant g" using assms Some by (rule wf_stateD)
  have put: "slot_spends st k 0 (putGrant k g' st)"
    if "g_lease g' = g_lease g" "wf_grant g'" "g_remaining g' \<le> g_remaining g" for g'
    using slot_spends_put [OF Some] that by simp
  have "slot_spends st k 0 (putGrant k (g\<lparr>g_status := grantAdmissionDisabled\<rparr>) st)"
    "slot_spends st k 0 (putGrant k (g\<lparr>g_remaining := 0, g_status := grantExhausted\<rparr>) st)"
    using wf by (auto intro!: put simp: wf_grant_def)
  moreover have "slot_spends st k 0 (putGrant k (if g_remaining h = 0 then status_CAS grantActive grantExhausted h else h) st)"
    if "h = (if ledger' \<ge> g_remaining g then g else g\<lparr>g_remaining := ledger'\<rparr>)" "0 \<le> ledger'" for h ledger'
    by (rule put) (use that wf in \<open>auto simp: wf_grant_def\<close>)
  ultimately show ?thesis using Some slot_spends_refl [OF assms]
    by (auto simp: ObserveReserve_def Let_def split: option.splits)
qed

text \<open>A response installs a fresh grant of a strictly larger generation, or keeps the grant.\<close>

definition fresh_grant :: "ShadowState \<Rightarrow> grant \<Rightarrow> bool" where
  "fresh_grant st g \<longleftrightarrow> wf_grant g \<and> g_remaining g = g_cap g \<and> cl_BootKID (vl_Claims (g_lease g)) = ss_bootKID st"

definition slot_installs :: "ShadowState \<Rightarrow> string \<Rightarrow> ShadowState \<Rightarrow> bool" where
  "slot_installs st k st' \<longleftrightarrow> ss_bootKID st' = ss_bootKID st
     \<and> (\<forall>k'. k' \<noteq> k \<longrightarrow> currentGrant st' k' = currentGrant st k')
     \<and> (\<exists>g'. currentGrant st' k = Some g' \<and> fresh_grant st g'
          \<and> (\<forall>g. currentGrant st k = Some g \<longrightarrow> g_gen g < g_gen g'))"

lemma installLease_effect:
  assumes wf: "wf_state st" and ok: "claims_i64 (vl_Claims lease)" "0 < cl_CapMicro (vl_Claims lease)"
      "cl_BootKID (vl_Claims lease) = ss_bootKID st"
    and step: "installLease st k status lease at = (st', r)"
  shows "slot_spends st k 0 st' \<or> slot_installs st k st'"
proof -
  define fresh where "fresh = \<lparr>g_lease = lease, g_remaining = cl_CapMicro (vl_Claims lease), g_status = grantActive\<rparr>"
  have id: "slot_spends st k 0 st" by (rule slot_spends_refl [OF wf])
  have fr: "fresh_grant st fresh" using ok by (simp add: fresh_grant_def fresh_def wf_grant_def)
  then have inst: "slot_installs st k (putGrant k fresh st)"
    if "\<And>g. currentGrant st k = Some g \<Longrightarrow> g_gen g < cl_Generation (vl_Claims lease)"
    using that by (auto simp: slot_installs_def fresh_def)
  show ?thesis
  proof (cases "currentGrant st k")
    case None
    then show ?thesis using step inst id
      by (auto simp: installLease_def Let_def fresh_def [symmetric] split: if_splits)
  next
    case (Some g)
    have w: "wf_grant g" using wf Some by (rule wf_stateD)
    have put: "slot_spends st k 0 (putGrant k g' st)"
      if "g_lease g' = g_lease g" "wf_grant g'" "g_remaining g' = g_remaining g" for g'
      using slot_spends_put [OF Some] that by simp
    have alive: "slot_spends st k 0 (putGrant k (fst (grantAlive g at)) st)" "g_lease (fst (grantAlive g at)) = g_lease g"
      using w by (auto intro!: put simp: grantAlive_def wf_grant_CAS)
    have status: "slot_spends st k 0 (putGrant k (g\<lparr>g_status := x\<rparr>) st)" if "x \<noteq> grantActive" for x
      using w that by (intro put) (auto simp: wf_grant_status)
    show ?thesis
    proof (cases "status = ''active''")
      case True
      show ?thesis
        using step True Some alive inst
        by (auto simp: installLease_def Let_def fresh_def [symmetric] case_prod_unfold not_le split: if_splits bool.splits)
    next
      case False
      then show ?thesis
        using step Some id status
        by (auto simp: installLease_def Let_def split: if_splits)
    qed
  qed
qed

lemma handleResponse_effect:
  assumes "lease_laws env" "wf_state st"
    and "handleResponse env (Some st) lookupHash keyHash ws rsp at = (s', r)"
  shows "\<exists>st'. s' = Some st' \<and> (slot_spends st lookupHash 0 st' \<or> slot_installs st lookupHash st')"
proof -
  have id: "slot_spends st lookupHash 0 st" by (rule slot_spends_refl [OF assms(2)])
  have wf': "wf_state (lookupSlot st lookupHash True)"
    using assms(2) by (simp add: wf_state_def)
  have frame: "slot_spends (lookupSlot st k c) k 0 t \<Longrightarrow> slot_spends st k 0 t"
    "slot_installs (lookupSlot st k c) k t \<Longrightarrow> slot_installs st k t" for k c t
    by (auto simp: slot_spends_def slot_installs_def fresh_grant_def)
  have ver: "claims_i64 (vl_Claims lease) \<and> 0 < cl_CapMicro (vl_Claims lease)"
    if v: "VerifyForStateAt env v token at la = Inr lease" for v token la lease
  proof -
    from v have "VerifyAt env v token at = Inr lease" by (auto simp: VerifyForStateAt_def split: if_splits)
    then obtain key where "le_unmarshalClaims env x = Some (vl_Claims lease) \<Longrightarrow> claims_i64 (vl_Claims lease)"
      "validateClaims (vl_Claims lease) key at = Inr ()" "claims_i64 (vl_Claims lease)" for x
      using VerifyAt_ok assms(1) unfolding lease_laws_def by metis
    then show ?thesis using validateClaims_ok(1) by blast
  qed
  have inst: "slot_spends st lookupHash 0 (fst p) \<or> slot_installs st lookupHash (fst p)"
    if "VerifyForStateAt env v token at la = Inr lease" "cl_BootKID (vl_Claims lease) = ss_bootKID st"
      "p = installLease (lookupSlot st lookupHash True) lookupHash status lease at" for v token la status lease p
    using installLease_effect [OF wf' _ _ _ prod.collapse [symmetric], of lease lookupHash status at] ver [OF that(1)] that(2,3)
      frame by simp blast
  show ?thesis
    using assms(3) id inst [OF _ _ refl]
    unfolding handleResponse_def Let_def case_prod_unfold
    by (auto split: option.splits if_splits sum.splits)
qed

section \<open>The lease state as a budget machine\<close>

text \<open>One call of a method of \<open>ShadowState\<close>, with the debits it reports: \<open>BeforeRequest\<close> in its
  echo, \<open>TryAdmit\<close> in its admission. A budget is one generation of the lease of one key.\<close>

datatype lease_op =
    OpSetRegistered bool
  | OpSetLocalAdmission bool
  | OpBeforeRequest string EstimateRequest gotime
  | OpTryAdmit string string string EstimateRequest gotime "MessageSigner option"
  | OpRelease "Admission option"
  | OpObserveReserve string string int "int option" string bool
  | OpHandleResponse string string "Response option" gotime
  | OpHandleAdmissionResponse string string string "Response option" gotime

type_synonym budget_id = "string \<times> int"

fun exec_op :: "admission_env \<Rightarrow> lease_env \<Rightarrow> lease_op \<Rightarrow> ShadowState \<Rightarrow> ShadowState option \<times> budget_id debit list" where
  "exec_op aenv lenv (OpSetRegistered b) st = (SetRegistered (Some st) b, [])"
| "exec_op aenv lenv (OpSetLocalAdmission b) st = (SetLocalAdmission (Some st) b, [])"
| "exec_op aenv lenv (OpBeforeRequest k request now) st =
     (let (s', echo) = BeforeRequest (Some st) k request now in
      (s', case currentGrant st k of None \<Rightarrow> []
           | Some g \<Rightarrow> if ec_WouldAdmit echo = Some True then [((k, g_gen g), g_cap g, echoDebit echo)] else []))"
| "exec_op aenv lenv (OpTryAdmit k idem rph request now signer) st =
     (let (s', res) = TryAdmit aenv (Some st) k idem rph request now signer in
      (s', case res of Inr (Some ad) \<Rightarrow>
             [((k, cl_Generation (vl_Claims (ad_Lease ad))), cl_CapMicro (vl_Claims (ad_Lease ad)), ad_EstimateMicro ad)]
           | _ \<Rightarrow> []))"
| "exec_op aenv lenv (OpRelease a) st = (Some (fst (Release st a)), [])"
| "exec_op aenv lenv (OpObserveReserve k leaseID gen ledger reason marked) st =
     (ObserveReserve (Some st) k leaseID gen ledger reason marked, [])"
| "exec_op aenv lenv (OpHandleResponse k ws rsp at) st = (fst (HandleResponse lenv (Some st) k ws rsp at), [])"
| "exec_op aenv lenv (OpHandleAdmissionResponse lookup stored ws rsp at) st =
     (fst (HandleAdmissionResponse lenv (Some st) lookup stored ws rsp at), [])"

definition lease_step :: "admission_env \<Rightarrow> lease_env \<Rightarrow> ShadowState \<Rightarrow> budget_id debit list \<Rightarrow> ShadowState \<Rightarrow> bool" where
  "lease_step aenv lenv st ds st' \<longleftrightarrow> (\<exists>op. exec_op aenv lenv op st = (Some st', ds))"

definition lease_view :: "ShadowState \<Rightarrow> budget_id \<Rightarrow> (int \<times> int) option" where
  "lease_view st i = (case currentGrant st (fst i) of None \<Rightarrow> None
     | Some g \<Rightarrow> if g_gen g = snd i then Some (g_cap g, g_remaining g) else None)"

definition lease_retired :: "ShadowState \<Rightarrow> budget_id set" where
  "lease_retired st = {i. \<exists>g. currentGrant st (fst i) = Some g \<and> snd i < g_gen g}"

text \<open>The effect of any call: it spends from one slot what it reports, or installs a grant.\<close>

definition lease_effect :: "ShadowState \<Rightarrow> budget_id debit list \<Rightarrow> ShadowState \<Rightarrow> bool" where
  "lease_effect st ds st' \<longleftrightarrow>
     (\<exists>k a. slot_spends st k a st' \<and>
        (ds = [] \<and> a = 0 \<or> (\<exists>g. currentGrant st k = Some g \<and> ds = [((k, g_gen g), g_cap g, a)])))
     \<or> (\<exists>k. slot_installs st k st' \<and> ds = [])"

lemma TryAdmit_SomeD:
  assumes "TryAdmit env (Some st) k idem rph r now signer = (s', Inr (Some ad))"
  obtains g sg where "currentGrant st k = Some g" "signer = Some sg" "ms_Kid sg \<noteq> ''''"
    "ss_localAdmission st" "ss_registered st" "idem \<noteq> ''''"
    "admissible st g rph now" "g_status g = grantActive" "0 < g_remaining g"
    "Estimate (cl_Catalog (vl_Claims (g_lease g))) r = Inr (Some (ad_EstimateMicro ad))"
    "ad_EstimateMicro ad \<le> g_remaining g" "ad_Lease ad = g_lease g"
    "ad_Scope ad = admissionScope env (vl_Claims (g_lease g)) idem" "ad_release ad = Some (ad_Scope ad)"
    "ad_Scope ad \<notin> ss_inFlight st"
    "ad_RemainingAfterMicro ad = i64_sub (g_remaining g) (ad_EstimateMicro ad)"
    "SignAdmissionReceipt env signer
       (receiptFor env (vl_Claims (g_lease g)) idem (ad_EstimateMicro ad) (ad_RemainingAfterMicro ad) now) = Inr (ad_Receipt ad)"
    "s' = Some (putGrant k (if ad_RemainingAfterMicro ad = 0
        then status_CAS grantActive grantExhausted (g\<lparr>g_remaining := ad_RemainingAfterMicro ad\<rparr>)
        else g\<lparr>g_remaining := ad_RemainingAfterMicro ad\<rparr>) (st\<lparr>ss_inFlight := insert (ad_Scope ad) (ss_inFlight st)\<rparr>))"
  using assms
  by (auto simp: TryAdmit_def admitDecrement_def claimScope_def Let_def not_le not_less
      split: if_splits option.splits sum.splits bool.splits prod.splits)

lemma slot_spends_keeps:
  assumes "slot_spends st k a st'" "currentGrant st j = Some g"
  shows "\<exists>g'. currentGrant st' j = Some g' \<and> g_lease g' = g_lease g
    \<and> g_remaining g' + (if j = k then a else 0) \<le> g_remaining g"
  using assms by (cases "j = k") (auto simp: slot_spends_def)

lemma lease_effect_cases [consumes 1, case_names spends installs]:
  assumes "lease_effect st ds st'"
  obtains k a where "slot_spends st k a st'"
      "ds = [] \<and> a = 0 \<or> (\<exists>g. currentGrant st k = Some g \<and> ds = [((k, g_gen g), g_cap g, a)])"
    | k where "slot_installs st k st'" "ds = []"
  using assms unfolding lease_effect_def by blast

lemma lease_effect_id:
  assumes "wf_state st" "ss_bootKID st' = ss_bootKID st" "\<And>k. currentGrant st' k = currentGrant st k"
  shows "lease_effect st [] st'"
proof -
  have "slot_spends st [] 0 st'"
    using slot_spends_refl [OF assms(1), of "[]"] assms(2,3)
    by (cases "currentGrant st []") (simp_all add: slot_spends_def)
  then show ?thesis by (auto simp: lease_effect_def)
qed

lemma lease_effect_spend: "slot_spends st k 0 st' \<Longrightarrow> lease_effect st [] st'"
  by (auto simp: lease_effect_def)

lemma exec_effect_BeforeRequest:
  assumes "wf_state st" "exec_op aenv lenv (OpBeforeRequest k r now) st = (Some st', ds)"
  shows "lease_effect st ds st'"
proof -
  obtain s'' echo where b: "BeforeRequest (Some st) k r now = (s'', echo)" by fastforce
  obtain st'' where st: "s'' = Some st''" "slot_spends st k (echoDebit echo) st''"
    using BeforeRequest_spends [OF assms(1) b] by blast
  have "echoDebit echo = 0" if "ec_WouldAdmit echo \<noteq> Some True" using that by (simp add: echoDebit_def)
  moreover have "ec_WouldAdmit echo \<noteq> Some True" if "currentGrant st k = None"
    using that b by (auto simp: BeforeRequest_def emptyEcho_def split: if_splits)
  ultimately show ?thesis using assms(2) st b
    by (cases "currentGrant st k") (auto simp: lease_effect_def split: if_splits)
qed

lemma exec_effect_TryAdmit:
  assumes "wf_state st" "exec_op aenv lenv (OpTryAdmit k idem rph r now signer) st = (Some st', ds)"
  shows "lease_effect st ds st'"
proof -
  obtain s'' res where t: "TryAdmit aenv (Some st) k idem rph r now signer = (s'', res)" by fastforce
  obtain st'' where st: "s'' = Some st''" "slot_spends st k (admittedAmount res) st''"
    using TryAdmit_spends [OF assms(1) t] by blast
  have "\<exists>g. currentGrant st k = Some g \<and> ad_Lease ad = g_lease g" if "res = Inr (Some ad)" for ad
    using t that by (auto elim: TryAdmit_SomeD)
  then show ?thesis using assms(2) st t
    by (fastforce simp: lease_effect_def split: sum.splits option.splits)
qed

lemma HandleResponse_effect:
  assumes "lease_laws lenv" "wf_state st"
  shows "fst (handleResponse lenv (Some st) lookup stored ws rsp at) = Some st' \<Longrightarrow> lease_effect st [] st'"
    and "fst (HandleResponse lenv (Some st) lookup ws rsp at) = Some st' \<Longrightarrow> lease_effect st [] st'"
    and "fst (HandleAdmissionResponse lenv (Some st) lookup stored ws rsp at) = Some st' \<Longrightarrow> lease_effect st [] st'"
proof -
  have h: "lease_effect st [] st'" if "fst (handleResponse lenv (Some st) lookup stored ws rsp at) = Some st'" for stored
    using handleResponse_effect [OF assms prod.collapse [symmetric], of lookup stored ws rsp at] that
    by (auto simp: lease_effect_def)
  show "fst (handleResponse lenv (Some st) lookup stored ws rsp at) = Some st' \<Longrightarrow> lease_effect st [] st'"
    "fst (HandleResponse lenv (Some st) lookup ws rsp at) = Some st' \<Longrightarrow> lease_effect st [] st'"
    "fst (HandleAdmissionResponse lenv (Some st) lookup stored ws rsp at) = Some st' \<Longrightarrow> lease_effect st [] st'"
    using h by (auto simp: HandleResponse_def HandleAdmissionResponse_def split: if_splits)
qed

lemma exec_op_effect:
  assumes "lease_laws lenv" "wf_state st" "exec_op aenv lenv op st = (Some st', ds)"
  shows "lease_effect st ds st'"
proof (cases op)
  case (OpBeforeRequest k r now)
  then show ?thesis using exec_effect_BeforeRequest assms by blast
next
  case (OpTryAdmit k idem rph r now signer)
  then show ?thesis using exec_effect_TryAdmit assms by blast
next
  case (OpObserveReserve k lid gen ledger reason marked)
  then show ?thesis
    using assms(3) ObserveReserve_spends [OF assms(2), of k lid gen ledger reason marked]
    by (auto intro: lease_effect_spend)
next
  case (OpRelease a)
  then have "ds = []" "st' = fst (Release st a)" using assms(3) by auto
  then show ?thesis
    by (auto intro!: lease_effect_id [OF assms(2)] simp: Release_def releaseScope_def split: option.splits)
next
  case (OpSetRegistered b)
  then show ?thesis using assms(3) by (auto intro!: lease_effect_id [OF assms(2)] simp: SetRegistered_def)
next
  case (OpSetLocalAdmission b)
  then show ?thesis using assms(3) by (auto intro!: lease_effect_id [OF assms(2)] simp: SetLocalAdmission_def)
qed (use assms(3) HandleResponse_effect [OF assms(1,2)] in auto)

lemma lease_effect_wf:
  assumes "wf_state st" "lease_effect st ds st'"
  shows "wf_state st'"
  unfolding wf_state_def
proof (intro allI impI)
  fix k g
  assume g: "currentGrant st' k = Some g"
  have old: "wf_grant h \<and> cl_BootKID (vl_Claims (g_lease h)) = ss_bootKID st" if "currentGrant st k = Some h" for h
    using assms(1) that by (auto simp: wf_state_def)
  show "wf_grant g \<and> cl_BootKID (vl_Claims (g_lease g)) = ss_bootKID st'"
    using assms(2)
  proof (cases rule: lease_effect_cases)
    case (spends k' a)
    then show ?thesis using g old
      by (cases "k = k'"; cases "currentGrant st k'") (auto simp: slot_spends_def)
  next
    case (installs k')
    then show ?thesis using g old
      by (cases "k = k'") (auto simp: slot_installs_def fresh_grant_def)
  qed
qed

lemma lease_effect_live:
  assumes "lease_effect st ds st'" "lease_view st i = Some (c, r)"
  shows "(\<exists>r'. lease_view st' i = Some (c, r') \<and> r' + debited ds i \<le> r)
    \<or> (i \<in> lease_retired st' \<and> debited ds i \<le> 0)"
proof -
  obtain k n where i: "i = (k, n)" by (cases i)
  obtain g where g: "currentGrant st k = Some g" "g_gen g = n" "c = g_cap g" "r = g_remaining g"
    using assms(2) i by (auto simp: lease_view_def split: option.splits if_splits)
  show ?thesis using assms(1)
  proof (cases rule: lease_effect_cases)
    case (spends k' a)
    obtain g' where g': "currentGrant st' k = Some g'" "g_lease g' = g_lease g"
        "g_remaining g' + (if k = k' then a else 0) \<le> g_remaining g"
      using slot_spends_keeps [OF spends(1) g(1)] by blast
    moreover have "debited ds i \<le> (if k = k' then a else 0)"
      using spends(2) i g by auto
    ultimately show ?thesis using g i by (auto simp: lease_view_def)
  next
    case (installs k')
    then show ?thesis using g i
      by (cases "k = k'") (auto simp: slot_installs_def lease_view_def lease_retired_def)
  qed
qed

lemma lease_effect_retired:
  assumes "lease_effect st ds st'" "i \<in> lease_retired st"
  shows "i \<in> lease_retired st'"
proof -
  obtain g where g: "currentGrant st (fst i) = Some g" "snd i < g_gen g"
    using assms(2) by (auto simp: lease_retired_def)
  show ?thesis using assms(1)
  proof (cases rule: lease_effect_cases)
    case (spends k a)
    then show ?thesis using slot_spends_keeps [OF spends(1) g(1)] g(2) by (auto simp: lease_retired_def)
  next
    case (installs k)
    then show ?thesis using g by (cases "fst i = k") (auto simp: slot_installs_def lease_retired_def)
  qed
qed

interpretation lease_ledger: budget_machine
  "\<lambda>st. lease_laws lenv \<and> wf_state st" lease_view lease_retired "lease_step aenv lenv" for aenv lenv
proof unfold_locales
  fix s t :: ShadowState and ds :: "budget_id debit list" and i :: budget_id and c r a :: int
  let ?inv = "\<lambda>st. lease_laws lenv \<and> wf_state st"
  assume inv: "?inv s"
  have eff: "lease_effect s ds t" if "lease_step aenv lenv s ds t"
    using that inv exec_op_effect by (auto simp: lease_step_def)
  show "?inv t" if "lease_step aenv lenv s ds t"
    using eff [OF that] lease_effect_wf inv by blast
  show "0 \<le> r \<and> r \<le> c" if "lease_view s i = Some (c, r)"
    using that inv by (auto simp: lease_view_def wf_state_def wf_grant_def split: option.splits if_splits)
  show "(\<exists>r'. lease_view t i = Some (c, r') \<and> r' + debited ds i \<le> r) \<or> (i \<in> lease_retired t \<and> debited ds i \<le> 0)"
    if "lease_step aenv lenv s ds t" "lease_view s i = Some (c, r)"
    using lease_effect_live [OF eff [OF that(1)] that(2)] .
  show "\<exists>r. lease_view s i = Some (c, r)" if "lease_step aenv lenv s ds t" "(i, c, a) \<in> set ds"
    using eff [OF that(1)] that(2) by (cases rule: lease_effect_cases) (auto simp: lease_view_def)
  show "i \<in> lease_retired t" if "lease_step aenv lenv s ds t" "i \<in> lease_retired s"
    using lease_effect_retired [OF eff [OF that(1)] that(2)] .
  show "lease_view s i = None" if "i \<in> lease_retired s"
    using that by (auto simp: lease_retired_def lease_view_def)
qed

end
