(* ===== verification/SpendLeaseLedger.thy ===== *)
theory SpendLeaseLedger
  imports SpendLeaseState
begin

text \<open>
  The properties of the lease state: the ledger over whole histories of calls (from the
  interpretation \<open>lease_ledger\<close> of the budget contract), the exact effect of one admission,
  the exclusion of two admissions of one idempotency key, and what a response may install.
\<close>

section \<open>Initial state and concrete instances\<close>

lemma NewShadowState_wf: "wf_state (NewShadowState v kid)"
  by (simp add: wf_state_def NewShadowState_def currentGrant_def)

definition exampleAdmissionEnv :: admission_env where
  "exampleAdmissionEnv = \<lparr>ae_sha256 = rev, ae_marshalHeader = (\<lambda>a k t. a @ k @ t),
     ae_marshalClaims = (\<lambda>c. ar_LeaseID c @ ar_BootKID c)\<rparr>"

definition exampleMessageSigner :: MessageSigner where
  "exampleMessageSigner = \<lparr>ms_Kid = ''boot'', ms_SignMessage = (\<lambda>m. Some (rev m))\<rparr>"

definition exampleLease :: VerifiedLease where
  "exampleLease = \<lparr>vl_Claims = exampleClaims 1000 1060,
     vl_Deadline = leaseDeadline (exampleClaims 1000 1060) (exampleNow 1001) Skew,
     vl_AdmitUntil = leaseDeadline (exampleClaims 1000 1060) (exampleNow 1001) (- AdmissionMargin)\<rparr>"

definition exampleGrant :: grant where
  "exampleGrant = \<lparr>g_lease = exampleLease, g_remaining = 1000, g_status = grantActive\<rparr>"

definition exampleState :: ShadowState where
  "exampleState = \<lparr>ss_verifier = Some exampleVerifier, ss_bootKID = ''boot'', ss_registered = True,
     ss_localAdmission = True, ss_slots = [''lookup'' \<mapsto> Some exampleGrant], ss_inFlight = {}\<rparr>"

lemma exampleState_grant: "currentGrant exampleState k = (if k = ''lookup'' then Some exampleGrant else None)"
  by (simp add: exampleState_def currentGrant_def)

lemma exampleGrant_wf: "wf_grant exampleGrant"
  using example_claims_i64
  by (simp add: exampleGrant_def wf_grant_def exampleLease_def exampleClaims_def)

lemma exampleState_wf: "wf_state exampleState"
  using exampleGrant_wf
  by (simp add: wf_state_def exampleState_grant)
    (simp add: exampleGrant_def exampleLease_def exampleClaims_def exampleState_def)

lemma example_lease_laws: "lease_laws exampleLeaseEnv"
  using example_claims_i64 by (auto simp: lease_laws_def exampleLeaseEnv_def)

lemma example_admissible: "admissible exampleState exampleGrant (replicate 64 CHR ''a'') (exampleNow 1002)"
  by code_simp

lemma example_admit:
  "\<exists>st' ad. TryAdmit exampleAdmissionEnv (Some exampleState) ''lookup'' ''idem'' (replicate 64 CHR ''a'')
      exampleRequest (exampleNow 1002) (Some exampleMessageSigner) = (Some st', Inr (Some ad))
     \<and> ad_EstimateMicro ad = 310 \<and> ad_Lease ad = exampleLease"
proof -
  have e: "Estimate (cl_Catalog (vl_Claims (g_lease exampleGrant))) exampleRequest = Inr (Some 310)"
    using example_estimate by (simp add: exampleGrant_def exampleLease_def exampleClaims_def)
  have g: "g_status exampleGrant = grantActive" "g_remaining exampleGrant = 1000" "g_lease exampleGrant = exampleLease"
      "cl_BootKID (vl_Claims exampleLease) = ''boot''"
    by (simp_all add: exampleGrant_def exampleLease_def exampleClaims_def)
  have f: "ss_localAdmission exampleState" "ss_registered exampleState" "ss_inFlight exampleState = {}"
    by (simp_all add: exampleState_def)
  have s: "ms_Kid exampleMessageSigner = ''boot''" "ms_SignMessage exampleMessageSigner m = Some (rev m)" for m
    by (simp_all add: exampleMessageSigner_def)
  show ?thesis
    using e g f s example_admissible exampleState_grant
    by (simp add: TryAdmit_def claimScope_def admitDecrement_def SignAdmissionReceipt_def receiptFor_def Let_def)
qed

section \<open>Properties\<close>

text \<open>(C4) No generation of a lease is ever overspent. Over any history of calls of the state's
  methods, in any order and with any arguments, from a well-formed state (the new state is
  one), the amounts reported as admitted against one generation of one key's lease sum to
  at most the cap its issuer signed, what the slot still holds included, and the state
  stays well-formed.\<close>
theorem lease_ledger_safe:
  assumes "lease_laws lenv" "wf_state st0" "run_of (lease_step aenv lenv) st0 ds st"
  shows "wf_state st \<and> list_all (\<lambda>(i, c, a). debited ds i \<le> c) ds
    \<and> (\<forall>k g. currentGrant st k = Some g \<longrightarrow> debited ds (k, g_gen g) + g_remaining g \<le> g_cap g)"
proof (intro conjI allI impI)
  have inv: "lease_laws lenv \<and> wf_state st0" using assms(1,2) by simp
  show "wf_state st"
    using lease_ledger.ledgerD(1) [OF lease_ledger.ledger_run [OF assms(3) inv]] by simp
  show "list_all (\<lambda>(i, c, a). debited ds i \<le> c) ds"
    using lease_ledger.budget_safe(1) [OF assms(3) inv] by (auto simp: list_all_iff)
  show "debited ds (k, g_gen g) + g_remaining g \<le> g_cap g" if "currentGrant st k = Some g" for k g
    using lease_ledger.budget_safe(2) [OF assms(3) inv, of "(k, g_gen g)"] that
    by (simp add: lease_view_def)
qed

theorem lease_ledger_safe_witness:
  "\<exists>st ds. run_of (lease_step exampleAdmissionEnv exampleLeaseEnv) exampleState ds st
     \<and> ds = [((''lookup'', 1), 1000, 310)] \<and> wf_state st"
proof -
  let ?op = "OpTryAdmit ''lookup'' ''idem'' (replicate 64 CHR ''a'') exampleRequest (exampleNow 1002) (Some exampleMessageSigner)"
  obtain st' where "exec_op exampleAdmissionEnv exampleLeaseEnv ?op exampleState
      = (Some st', [((''lookup'', 1), 1000, 310)])"
    using example_admit by (auto simp: exampleLease_def exampleClaims_def simp del: replicate.simps)
  then have "lease_step exampleAdmissionEnv exampleLeaseEnv exampleState [((''lookup'', 1), 1000, 310)] st'"
    unfolding lease_step_def by blast
  then have run: "run_of (lease_step exampleAdmissionEnv exampleLeaseEnv) exampleState ([] @ [((''lookup'', 1), 1000, 310)]) st'"
    by (rule run_step [OF run_start])
  then show ?thesis
    using lease_ledger_safe [OF example_lease_laws exampleState_wf run] by auto
qed

text \<open>(C7) An admission is exactly one debit. When \<open>TryAdmit\<close> admits, the slot held an active
  grant for this boot that allows local admission, inside its admission window; the amount is
  the grant's own estimate, taken in full without wrap-around from what was left; the scope
  was free and is now in flight; and the receipt is the boot signer's signature over the
  claims of this lease, this estimate and this remaining balance.\<close>
theorem TryAdmit_admits:
  assumes "wf_state st"
    and "TryAdmit env (Some st) k idem rph request now signer = (s', Inr (Some ad))"
  shows "\<exists>g g' st' sg. currentGrant st k = Some g \<and> s' = Some st' \<and> currentGrant st' k = Some g' \<and> signer = Some sg
     \<and> g_status g = grantActive \<and> admissible st g rph now
     \<and> Estimate (cl_Catalog (vl_Claims (g_lease g))) request = Inr (Some (ad_EstimateMicro ad))
     \<and> 0 \<le> ad_EstimateMicro ad \<and> 0 \<le> g_remaining g'
     \<and> g_remaining g' = g_remaining g - ad_EstimateMicro ad \<and> ad_RemainingAfterMicro ad = g_remaining g'
     \<and> g_lease g' = g_lease g \<and> (g_status g' = grantActive \<longleftrightarrow> 0 < g_remaining g')
     \<and> ad_Scope ad \<notin> ss_inFlight st \<and> ss_inFlight st' = insert (ad_Scope ad) (ss_inFlight st)
     \<and> ms_Kid sg = ss_bootKID st
     \<and> SignAdmissionReceipt env signer (receiptFor env (vl_Claims (g_lease g)) idem
          (ad_EstimateMicro ad) (g_remaining g') now) = Inr (ad_Receipt ad)"
proof (rule TryAdmit_SomeD [OF assms(2)])
  fix g sg
  assume g: "currentGrant st k = Some g" and sg: "signer = Some sg"
    and adm: "admissible st g rph now" and act: "g_status g = grantActive"
    and est: "Estimate (cl_Catalog (vl_Claims (g_lease g))) request = Inr (Some (ad_EstimateMicro ad))"
    and le: "ad_EstimateMicro ad \<le> g_remaining g"
    and free: "ad_Scope ad \<notin> ss_inFlight st"
    and rem: "ad_RemainingAfterMicro ad = i64_sub (g_remaining g) (ad_EstimateMicro ad)"
    and sign: "SignAdmissionReceipt env signer (receiptFor env (vl_Claims (g_lease g)) idem
       (ad_EstimateMicro ad) (ad_RemainingAfterMicro ad) now) = Inr (ad_Receipt ad)"
    and s': "s' = Some (putGrant k (if ad_RemainingAfterMicro ad = 0
        then status_CAS grantActive grantExhausted (g\<lparr>g_remaining := ad_RemainingAfterMicro ad\<rparr>)
        else g\<lparr>g_remaining := ad_RemainingAfterMicro ad\<rparr>) (st\<lparr>ss_inFlight := insert (ad_Scope ad) (ss_inFlight st)\<rparr>))"
  have wf: "wf_grant g" using assms(1) g by (rule wf_stateD)
  note d = wf_grant_debit [OF wf est le]
  have rem': "ad_RemainingAfterMicro ad = g_remaining g - ad_EstimateMicro ad" using rem d(2) by simp
  have kid: "ms_Kid sg = ss_bootKID st"
    using sign sg adm by (auto simp: SignAdmissionReceipt_def receiptFor_def admissible_def Let_def split: if_splits)
  show ?thesis
    unfolding s'
    by (rule exI [of _ g], rule exI, rule exI, rule exI [of _ sg], intro conjI, rule g, rule refl, simp)
      (use sg act adm est d le free rem' kid sign in \<open>auto simp: putGrant_def\<close>)
qed

theorem TryAdmit_admits_witness:
  "\<exists>st' ad g'. TryAdmit exampleAdmissionEnv (Some exampleState) ''lookup'' ''idem'' (replicate 64 CHR ''a'')
      exampleRequest (exampleNow 1002) (Some exampleMessageSigner) = (Some st', Inr (Some ad))
     \<and> currentGrant st' ''lookup'' = Some g' \<and> g_remaining g' = 690"
proof -
  obtain st' ad where t: "TryAdmit exampleAdmissionEnv (Some exampleState) ''lookup'' ''idem'' (replicate 64 CHR ''a'')
      exampleRequest (exampleNow 1002) (Some exampleMessageSigner) = (Some st', Inr (Some ad))"
    and e: "ad_EstimateMicro ad = 310" using example_admit by blast
  from TryAdmit_admits [OF exampleState_wf t] obtain g g' where
    "currentGrant exampleState ''lookup'' = Some g" "currentGrant st' ''lookup'' = Some g'"
    "g_remaining g' = g_remaining g - 310" unfolding e by auto
  then show ?thesis using t by (auto simp: exampleState_grant exampleGrant_def simp del: replicate.simps)
qed

lemma releaseScope_insert: "x \<notin> ss_inFlight st \<Longrightarrow> ss_inFlight (releaseScope (st\<lparr>ss_inFlight := insert x (ss_inFlight st)\<rparr>) x) = ss_inFlight st"
  by (simp add: releaseScope_def)

lemma inFlight_put [simp]: "ss_inFlight (putGrant k g st) = ss_inFlight st"
  by (simp add: putGrant_def)

text \<open>A call of \<open>TryAdmit\<close> either stops before the scope is claimed, or is the decrement loop.\<close>

lemma TryAdmit_cases:
  assumes "TryAdmit env (Some st) k idem rph request now signer = (s', res)"
  obtains "s' = Some st" "\<And>ad. res \<noteq> Inr (Some ad)"
  | g e st' where "currentGrant st k = Some g" "admissionScope env (vl_Claims (g_lease g)) idem \<notin> ss_inFlight st"
      "admitDecrement env (st\<lparr>ss_inFlight := insert (admissionScope env (vl_Claims (g_lease g)) idem) (ss_inFlight st)\<rparr>)
         k g idem e now signer = (st', res)" "s' = Some st'"
proof (cases "s' = Some st \<and> (\<forall>ad. res \<noteq> Inr (Some ad))")
  case False
  have pre: "ss_localAdmission st" "ss_registered st" "\<not> (case signer of None \<Rightarrow> True | Some sg \<Rightarrow> ms_Kid sg = '''')" "idem \<noteq> ''''"
    using assms False by (auto simp: TryAdmit_def split: if_splits)
  obtain g where g: "currentGrant st k = Some g" using assms False pre
    by (cases "currentGrant st k") (auto simp: TryAdmit_def)
  have adm: "admissible st g rph now" "g_status g = grantActive"
    using assms False pre g by (auto simp: TryAdmit_def Let_def split: if_splits)
  obtain e where e: "Estimate (cl_Catalog (vl_Claims (g_lease g))) request = Inr (Some e)"
    using assms False pre g adm by (auto simp: TryAdmit_def Let_def split: sum.splits option.splits)
  have free: "admissionScope env (vl_Claims (g_lease g)) idem \<notin> ss_inFlight st"
    using assms False pre g adm e by (auto simp: TryAdmit_def claimScope_def Let_def)
  show thesis
    by (rule that(2) [OF g free, of e "the s'"])
      (use assms pre g adm e free in \<open>auto simp: TryAdmit_def claimScope_def Let_def case_prod_unfold\<close>)
qed (use that in auto)

text \<open>A refused admission leaves no trace in the in-flight set: whenever \<open>TryAdmit\<close> does
  not admit, by refusal or by error, the in-flight scopes are what they were, and a refusal
  without an error takes nothing from any grant.\<close>
theorem TryAdmit_refuses:
  assumes "TryAdmit env (Some st) k idem rph request now signer = (s', res)"
    and "case res of Inr (Some ad) \<Rightarrow> False | _ \<Rightarrow> True"
  shows "\<exists>st'. s' = Some st' \<and> ss_inFlight st' = ss_inFlight st
     \<and> (res = Inr None \<longrightarrow> (\<forall>k'. map_option g_remaining (currentGrant st' k') = map_option g_remaining (currentGrant st k')))"
  using assms(1)
proof (cases rule: TryAdmit_cases)
  case 1
  then show ?thesis by simp
next
  case (2 g e st')
  then show ?thesis using assms(2)
    by (auto simp: admitDecrement_def Let_def releaseScope_def split: if_splits sum.splits)
qed

theorem TryAdmit_refuses_witness:
  "\<exists>st'. TryAdmit exampleAdmissionEnv (Some exampleState) ''lookup'' '''' (replicate 64 CHR ''a'')
      exampleRequest (exampleNow 1002) (Some exampleMessageSigner) = (Some st', Inr None)
     \<and> ss_inFlight st' = ss_inFlight exampleState"
proof -
  have t: "TryAdmit exampleAdmissionEnv (Some exampleState) ''lookup'' '''' (replicate 64 CHR ''a'')
      exampleRequest (exampleNow 1002) (Some exampleMessageSigner) = (Some exampleState, Inr None)"
    by (simp add: TryAdmit_def)
  from TryAdmit_refuses [OF this] show ?thesis unfolding t by simp
qed

text \<open>One idempotency key is admitted at most once at a time: while an admission is in
  flight, no call with the same slot and the same idempotency key admits again, whatever its
  request, policy hash, time or signer; \<open>Release\<close> gives back exactly the claimed scope and
  is idempotent.\<close>
theorem TryAdmit_exclusive:
  assumes "TryAdmit env (Some st) k idem rph request now signer = (Some st', Inr (Some ad))"
  shows "(case snd (TryAdmit env (Some st') k idem rph2 request2 now2 signer2) of Inr (Some _) \<Rightarrow> False | _ \<Rightarrow> True)
     \<and> ss_inFlight (fst (Release st' (Some ad))) = ss_inFlight st
     \<and> (\<exists>ad'. snd (Release st' (Some ad)) = Some ad' \<and> (\<forall>st2. Release st2 (Some ad') = (st2, Some ad')))"
proof (rule TryAdmit_SomeD [OF assms], intro conjI)
  fix g
  assume g: "currentGrant st k = Some g" and sc: "ad_Scope ad = admissionScope env (vl_Claims (g_lease g)) idem"
    and rel: "ad_release ad = Some (ad_Scope ad)" and free: "ad_Scope ad \<notin> ss_inFlight st"
    and st': "Some st' = Some (putGrant k (if ad_RemainingAfterMicro ad = 0
        then status_CAS grantActive grantExhausted (g\<lparr>g_remaining := ad_RemainingAfterMicro ad\<rparr>)
        else g\<lparr>g_remaining := ad_RemainingAfterMicro ad\<rparr>) (st\<lparr>ss_inFlight := insert (ad_Scope ad) (ss_inFlight st)\<rparr>))"
  have infl: "ss_inFlight st' = insert (ad_Scope ad) (ss_inFlight st)" using st' by simp
  have lease: "g_lease g' = g_lease g" if "currentGrant st' k = Some g'" for g'
    using that st' by auto
  show "case snd (TryAdmit env (Some st') k idem rph2 request2 now2 signer2) of Inr (Some _) \<Rightarrow> False | _ \<Rightarrow> True"
  proof (cases "\<exists>ad2. snd (TryAdmit env (Some st') k idem rph2 request2 now2 signer2) = Inr (Some ad2)")
    case True
    then obtain ad2 s2 where "TryAdmit env (Some st') k idem rph2 request2 now2 signer2 = (s2, Inr (Some ad2))"
      by (metis prod.collapse)
    then show ?thesis using lease sc infl by (auto elim!: TryAdmit_SomeD)
  qed (auto split: sum.splits option.splits)
  show "ss_inFlight (fst (Release st' (Some ad))) = ss_inFlight st"
    using infl rel free by (simp add: Release_def releaseScope_def)
  show "\<exists>ad'. snd (Release st' (Some ad)) = Some ad' \<and> (\<forall>st2. Release st2 (Some ad') = (st2, Some ad'))"
    using rel by (simp add: Release_def)
qed

theorem TryAdmit_exclusive_witness:
  "\<exists>st' ad. TryAdmit exampleAdmissionEnv (Some exampleState) ''lookup'' ''idem'' (replicate 64 CHR ''a'')
      exampleRequest (exampleNow 1002) (Some exampleMessageSigner) = (Some st', Inr (Some ad))
     \<and> ss_inFlight (fst (Release st' (Some ad))) = {}"
proof -
  obtain st' ad where t: "TryAdmit exampleAdmissionEnv (Some exampleState) ''lookup'' ''idem'' (replicate 64 CHR ''a'')
      exampleRequest (exampleNow 1002) (Some exampleMessageSigner) = (Some st', Inr (Some ad))" using example_admit by blast
  show ?thesis
    using t TryAdmit_exclusive [OF t] by (auto simp: exampleState_def simp del: replicate.simps)
qed

lemma handleResponse_installs:
  assumes "handleResponse lenv (Some st) k stored ws (Some rsp) at = (Some st', r)"
    and "map_option g_lease (currentGrant st' j) \<noteq> map_option g_lease (currentGrant st j)"
  obtains token lease where "rsp_Token rsp = Some token" "ss_registered st"
    "VerifyForStateAt lenv (ss_verifier st) token at (ss_localAdmission st) = Inr lease"
    "cl_KeyHash (vl_Claims lease) = (if cl_Authoritative (vl_Claims lease) then stored else k)"
    "cl_BootKID (vl_Claims lease) = ss_bootKID st" "ws = '''' \<or> cl_WorkspaceID (vl_Claims lease) = ws"
    "st' = fst (installLease (lookupSlot st k True) k (rsp_LeaseStatus rsp) lease at)"
proof -
  have changed: "st' \<noteq> st" using assms(2) by auto
  obtain token where tok: "rsp_Token rsp = Some token" "token \<noteq> ''''" "ss_verifier st \<noteq> None"
    using assms(1) changed by (cases "rsp_Token rsp") (auto simp: handleResponse_def split: if_splits)
  obtain lease where l: "VerifyForStateAt lenv (ss_verifier st) token at (ss_localAdmission st) = Inr lease"
    using assms(1) changed tok
    by (cases "VerifyForStateAt lenv (ss_verifier st) token at (ss_localAdmission st)") (auto simp: handleResponse_def)
  show thesis
    by (rule that [OF tok(1) _ l])
      (use assms(1) changed tok l in \<open>simp_all add: handleResponse_def Let_def case_prod_unfold split: if_splits\<close>)
qed

lemma installLease_replaces:
  assumes "st' = fst (installLease (lookupSlot st k True) k status lease at)"
    and "map_option g_lease (currentGrant st' j) \<noteq> map_option g_lease (currentGrant st j)"
  shows "j = k \<and> status = ''active'' \<and> (\<exists>g'. currentGrant st' k = Some g'
    \<and> g_lease g' = lease \<and> g_remaining g' = g_cap g' \<and> g_status g' = grantActive
    \<and> (\<forall>g. currentGrant st k = Some g \<longrightarrow> g_gen g < g_gen g' \<and> \<not> snd (grantAlive g at)))"
proof -
  have "g_lease (fst (grantAlive g at)) = g_lease g" for g by (auto simp: grantAlive_def)
  then show ?thesis using assms
    by (auto simp: installLease_def Let_def case_prod_unfold split: option.splits if_splits bool.splits)
qed

text \<open>A response replaces a key's lease only by a verified one bound to the caller. If the
  lease of some slot differs after \<open>handleResponse\<close> (the body of \<open>HandleResponse\<close> and
  \<open>HandleAdmissionResponse\<close>), that slot is the caller's, the boot is registered, the new lease
  is one the verifier accepted from the response's token, it names the caller's key and
  workspace and this boot, it starts at its full cap, its generation is larger than that of
  the lease it replaces, and the replaced grant was no longer alive.\<close>
theorem handleResponse_replaces:
  assumes "handleResponse lenv (Some st) k stored ws (Some rsp) at = (Some st', r)"
    and "map_option g_lease (currentGrant st' j) \<noteq> map_option g_lease (currentGrant st j)"
  shows "j = k \<and> ss_registered st \<and> rsp_LeaseStatus rsp = ''active''
    \<and> (\<exists>token g'. rsp_Token rsp = Some token \<and> currentGrant st' k = Some g'
        \<and> VerifyForStateAt lenv (ss_verifier st) token at (ss_localAdmission st) = Inr (g_lease g')
        \<and> cl_KeyHash (vl_Claims (g_lease g')) = (if cl_Authoritative (vl_Claims (g_lease g')) then stored else k)
        \<and> cl_BootKID (vl_Claims (g_lease g')) = ss_bootKID st
        \<and> (ws = '''' \<or> cl_WorkspaceID (vl_Claims (g_lease g')) = ws)
        \<and> g_remaining g' = g_cap g' \<and> g_status g' = grantActive
        \<and> (\<forall>g. currentGrant st k = Some g \<longrightarrow> g_gen g < g_gen g' \<and> \<not> snd (grantAlive g at)))"
  using assms
proof (rule handleResponse_installs)
  fix token lease
  assume a: "rsp_Token rsp = Some token" "ss_registered st"
    "VerifyForStateAt lenv (ss_verifier st) token at (ss_localAdmission st) = Inr lease"
    "cl_KeyHash (vl_Claims lease) = (if cl_Authoritative (vl_Claims lease) then stored else k)"
    "cl_BootKID (vl_Claims lease) = ss_bootKID st" "ws = '''' \<or> cl_WorkspaceID (vl_Claims lease) = ws"
    and st': "st' = fst (installLease (lookupSlot st k True) k (rsp_LeaseStatus rsp) lease at)"
  note i = installLease_replaces [OF st' assms(2)]
  then obtain g' where g': "currentGrant st' k = Some g'" "g_lease g' = lease" "g_remaining g' = g_cap g'"
    "g_status g' = grantActive" "\<forall>g. currentGrant st k = Some g \<longrightarrow> g_gen g < g_gen g' \<and> \<not> snd (grantAlive g at)"
    by blast
  show ?thesis
    by (intro conjI exI [of _ token] exI [of _ g']) (use i a g' in simp_all)
qed

theorem handleResponse_replaces_witness:
  "\<exists>st' g'. handleResponse exampleLeaseEnv (Some (exampleState\<lparr>ss_slots := Map.empty\<rparr>)) ''lookup'' ''key'' ''ws''
       (Some \<lparr>rsp_Token = Some exampleToken, rsp_LeaseStatus = ''active'', rsp_RemainingMicro = None\<rparr>) (exampleNow 1001)
       = (Some st', Inr ()) \<and> currentGrant st' ''lookup'' = Some g' \<and> g_remaining g' = 1000"
proof -
  let ?st = "exampleState\<lparr>ss_slots := Map.empty\<rparr>"
  let ?rsp = "\<lparr>rsp_Token = Some exampleToken, rsp_LeaseStatus = ''active'', rsp_RemainingMicro = None\<rparr>"
  obtain lease where l: "VerifyAt exampleLeaseEnv (Some exampleVerifier) exampleToken (exampleNow 1001) = Inr lease"
      "vl_Claims lease = exampleClaims 1000 1060"
    using example_verify by blast
  have f: "ss_verifier ?st = Some exampleVerifier" "ss_localAdmission ?st" "ss_registered ?st" "ss_bootKID ?st = ''boot''"
    "currentGrant ?st k = None" for k
    by (simp_all add: exampleState_def currentGrant_def)
  have tok: "exampleToken \<noteq> ''''" by (simp add: exampleToken_def)
  have c: "cl_Authoritative (exampleClaims 1000 1060)" "cl_KeyHash (exampleClaims 1000 1060) = ''key''"
      "cl_BootKID (exampleClaims 1000 1060) = ''boot''" "cl_WorkspaceID (exampleClaims 1000 1060) = ''ws''"
      "cl_CapMicro (exampleClaims 1000 1060) = 1000"
    by (simp_all add: exampleClaims_def)
  have h: "handleResponse exampleLeaseEnv (Some ?st) ''lookup'' ''key'' ''ws'' (Some ?rsp) (exampleNow 1001)
     = (Some (putGrant ''lookup'' \<lparr>g_lease = lease, g_remaining = 1000, g_status = grantActive\<rparr> (lookupSlot ?st ''lookup'' True)), Inr ())"
    using l f tok c by (simp add: handleResponse_def VerifyForStateAt_def installLease_def Let_def)
  from handleResponse_replaces [OF this, of "''lookup''"] show ?thesis
    using h f(5) by auto
qed

text \<open>The Stage A echo is truthful and its accounting exact. For a slot with a grant,
  \<open>BeforeRequest\<close> reports that the lease would admit exactly when the boot is registered, the
  grant is active and before its deadline, local admission does not already own the grant,
  and the estimate exists and fits in what is left; it then takes exactly that estimate, and
  in every other case takes nothing.\<close>
theorem BeforeRequest_echo:
  assumes "wf_state st" "currentGrant st k = Some g" "BeforeRequest (Some st) k request now = (s', echo)"
  shows "(ec_WouldAdmit echo = Some True \<longleftrightarrow> ss_registered st \<and> g_status g = grantActive
       \<and> t_Before now (vl_Deadline (g_lease g)) \<and> \<not> (cl_Authoritative (vl_Claims (g_lease g)) \<and> ss_localAdmission st)
       \<and> (\<exists>e. Estimate (cl_Catalog (vl_Claims (g_lease g))) request = Inr (Some e) \<and> e \<le> g_remaining g))
     \<and> (\<exists>st' g'. s' = Some st' \<and> currentGrant st' k = Some g' \<and> g_lease g' = g_lease g
         \<and> g_remaining g' = g_remaining g - echoDebit echo
         \<and> (ec_WouldAdmit echo = Some True \<longrightarrow>
             Estimate (cl_Catalog (vl_Claims (g_lease g))) request = Inr (Some (echoDebit echo))))"
proof -
  have wf: "wf_grant g" using assms(1,2) by (rule wf_stateD)
  note d = wf_grant_debit(2) [OF wf]
  have pos: "g_status g = grantActive \<Longrightarrow> 0 < g_remaining g" using wf by (simp add: wf_grant_def)
  show ?thesis
  proof (cases "ss_registered st \<and> g_status g = grantActive \<and> t_Before now (vl_Deadline (g_lease g))")
    case False
    then show ?thesis using assms(2,3)
      by (auto simp: BeforeRequest_def Let_def emptyEcho_def echoDebit_def split: if_splits)
  next
    case True
    then show ?thesis
    proof (cases "\<exists>e. Estimate (cl_Catalog (vl_Claims (g_lease g))) request = Inr (Some e)")
      case False
      then show ?thesis using assms(2,3) True
        by (auto simp: BeforeRequest_def Let_def emptyEcho_def echoDebit_def split: sum.splits option.splits)
    next
      case est: True
      then show ?thesis using assms(2,3) True d pos
        by (auto simp: BeforeRequest_def Let_def emptyEcho_def echoDebit_def split: if_splits)
    qed
  qed
qed

theorem BeforeRequest_echo_witness:
  "\<exists>st' g'. fst (BeforeRequest (Some (exampleState\<lparr>ss_localAdmission := False\<rparr>)) ''lookup'' exampleRequest (exampleNow 1002))
      = Some st' \<and> currentGrant st' ''lookup'' = Some g' \<and> g_remaining g' = 690"
proof -
  let ?st = "exampleState\<lparr>ss_localAdmission := False\<rparr>"
  obtain s' echo where b: "BeforeRequest (Some ?st) ''lookup'' exampleRequest (exampleNow 1002) = (s', echo)" by fastforce
  have wf: "wf_state ?st" using exampleState_wf by (simp add: wf_state_def)
  have g: "currentGrant ?st ''lookup'' = Some exampleGrant" by (simp add: exampleState_grant)
  have e: "Estimate (cl_Catalog (vl_Claims (g_lease exampleGrant))) exampleRequest = Inr (Some 310)"
    using example_estimate by (simp add: exampleGrant_def exampleLease_def exampleClaims_def)
  have t: "t_Before (exampleNow 1002) (vl_Deadline (g_lease exampleGrant))" by code_simp
  have f: "ss_registered ?st" "g_status exampleGrant = grantActive" "g_remaining exampleGrant = 1000"
    by (simp_all add: exampleState_def exampleGrant_def)
  show ?thesis using BeforeRequest_echo [OF wf g b] b e t f by auto
qed

text \<open>Router feedback never gives money back. For a grant whose lease and generation the
  feedback names, \<open>ObserveReserve\<close> keeps the balance when it disables admission, zeroes it on
  a capacity refusal, and otherwise lowers it to the ledger's figure if that is smaller; a
  non-active grant never becomes active again; feedback about another generation changes
  nothing.\<close>
theorem ObserveReserve_lowers:
  assumes "currentGrant st k = Some g"
    and "ObserveReserve (Some st) k leaseID generation ledger reason marked = Some st'"
  shows "\<exists>g'. currentGrant st' k = Some g' \<and> g_lease g' = g_lease g
     \<and> g_remaining g' =
        (if cl_LeaseID (vl_Claims (g_lease g)) \<noteq> leaseID \<or> g_gen g \<noteq> generation
            \<or> \<not> marked \<or> reason = ''not_accepting'' \<or> reason = ''boot_not_accepted'' then g_remaining g
         else if reason = ''capacity'' then 0
         else (case ledger of None \<Rightarrow> g_remaining g
               | Some l \<Rightarrow> if l < 0 then g_remaining g else min l (g_remaining g)))
     \<and> (g_status g' = grantActive \<longrightarrow> g_status g = grantActive)
     \<and> (cl_LeaseID (vl_Claims (g_lease g)) \<noteq> leaseID \<or> g_gen g \<noteq> generation \<longrightarrow> g' = g)"
  using assms
  by (cases ledger) (auto simp: ObserveReserve_def Let_def min_def split: if_splits)

theorem ObserveReserve_lowers_witness:
  "\<exists>st' g'. ObserveReserve (Some exampleState) ''lookup'' ''00000000-0000-4000-8000-000000000000'' 1 (Some 400) ''ok'' True = Some st'
      \<and> currentGrant st' ''lookup'' = Some g' \<and> g_remaining g' = 400"
proof -
  have g: "currentGrant exampleState ''lookup'' = Some exampleGrant" by (simp add: exampleState_grant)
  have c: "cl_LeaseID (vl_Claims (g_lease exampleGrant)) = ''00000000-0000-4000-8000-000000000000''" "g_gen exampleGrant = 1"
      "g_remaining exampleGrant = 1000"
    by (simp_all add: exampleGrant_def exampleLease_def exampleClaims_def)
  obtain st' where o: "ObserveReserve (Some exampleState) ''lookup'' ''00000000-0000-4000-8000-000000000000'' 1 (Some 400) ''ok'' True = Some st'"
    using ObserveReserve_spends [OF exampleState_wf] by blast
  show ?thesis using ObserveReserve_lowers [OF g o] o c by auto
qed

end
