(* ===== verification/SpendLeaseCAS.thy ===== *)
theory SpendLeaseCAS
  imports SpendLeaseLedger
begin

text \<open>
  The lease state under concurrency (\<open>state.go\<close> again): any number of goroutines run
  \<open>BeforeRequest\<close>, \<open>TryAdmit\<close>, \<open>ObserveReserve\<close>, \<open>handleResponse\<close> and \<open>Release\<close>, and every access to
  shared memory is one step. Shared memory is the heap of allocated \<open>grant\<close> objects (their
  \<open>remaining\<close> and \<open>status\<close> atomics), the \<open>current\<close> pointer of each slot, the slot mutexes and
  the in-flight set; a goroutine is a program counter that carries its local variables.
  The atomics of Go are sequentially consistent, so interleaving is the semantics.

  A grant object stays reachable through stale \<open>current\<close> pointers after it was replaced;
  the heap therefore never forgets a cell, and the budget of a cell is found by the key
  and generation it was installed for.
\<close>

section \<open>Shared memory and program counters\<close>

record cell =
  c_key :: string
  c_grant :: grant

record admit_ctx =
  ax_idem :: string
  ax_now :: gotime
  ax_signer :: "MessageSigner option"
  ax_scope :: string

datatype pc =
    Idle
  | BLookup string EstimateRequest gotime
  | BExpire nat EstimateRequest gotime
  | BStatus nat EstimateRequest
  | BFlag nat int
  | BOwned nat int
  | BLoad nat int
  | BCas nat int int
  | Exhaust nat
  | TRegistered string string EstimateRequest admit_ctx
  | TLookup string string EstimateRequest admit_ctx
  | TFirstStatus nat EstimateRequest admit_ctx
  | TClaim nat int admit_ctx
  | TStatus nat int admit_ctx
  | TLoad nat int admit_ctx
  | TCas nat int int admit_ctx
  | TEmptied nat int int admit_ctx
  | TSign nat int int admit_ctx
  | TExhaust nat admit_ctx
  | TRelease admit_ctx
  | Admitted string admit_ctx
  | OLookup string string int "int option" string bool
  | ODecide nat "int option" string bool
  | OExhausted nat
  | OLoad nat int
  | OCas nat int int
  | OTail nat
  | HRegistered string string VerifiedLease gotime
  | HLock string string VerifiedLease gotime
  | HCurrent string string VerifiedLease gotime
  | HMark string nat grant_status
  | HStatus string nat VerifiedLease gotime
  | HRemaining string nat VerifiedLease gotime
  | HExpire string nat VerifiedLease
  | HStore string VerifiedLease
  | HUnlock string

record mem =
  m_verifier :: "Verifier option"
  m_bootKID :: string
  m_registered :: bool
  m_localAdmission :: bool
  m_heap :: "cell list"
  m_slots :: "string \<rightharpoonup> nat"
  m_locked :: "string set"
  m_inFlight :: "string set"

definition g_at :: "mem \<Rightarrow> nat \<Rightarrow> grant" where
  "g_at m a = c_grant (m_heap m ! a)"

definition upd :: "nat \<Rightarrow> (grant \<Rightarrow> grant) \<Rightarrow> mem \<Rightarrow> mem" where
  "upd a f m = m\<lparr>m_heap := (m_heap m)[a := (m_heap m ! a)\<lparr>c_grant := f (g_at m a)\<rparr>]\<rparr>"

abbreviation CAS_status :: "nat \<Rightarrow> grant_status \<Rightarrow> mem \<Rightarrow> mem" where
  "CAS_status a new m \<equiv> upd a (status_CAS grantActive new) m"

abbreviation claims_at :: "mem \<Rightarrow> nat \<Rightarrow> Claims" where
  "claims_at m a \<equiv> vl_Claims (g_lease (g_at m a))"

section \<open>One step of one goroutine\<close>

text \<open>The debit reported when \<open>remaining\<close> of the grant at \<open>a\<close> is swapped down by \<open>e\<close>.\<close>

definition debit_at :: "mem \<Rightarrow> nat \<Rightarrow> int \<Rightarrow> budget_id debit" where
  "debit_at m a e = ((c_key (m_heap m ! a), g_gen (g_at m a)), g_cap (g_at m a), e)"

inductive go_step :: "admission_env \<Rightarrow> lease_env \<Rightarrow> mem \<Rightarrow> pc \<Rightarrow> budget_id debit list \<Rightarrow> mem \<Rightarrow> pc \<Rightarrow> bool"
  for aenv :: admission_env and lenv :: lease_env where
  \<comment> \<open>BeforeRequest\<close>
  B_start: "m_registered m \<Longrightarrow> go_step aenv lenv m Idle [] m (BLookup k r now)"
| B_noLease: "m_slots m k = None \<Longrightarrow> go_step aenv lenv m (BLookup k r now) [] m Idle"
| B_lookup: "m_slots m k = Some a \<Longrightarrow> go_step aenv lenv m (BLookup k r now) [] m (BExpire a r now)"
| B_expire: "go_step aenv lenv m (BExpire a r now) []
     (if \<not> t_Before now (vl_Deadline (g_lease (g_at m a))) then CAS_status a grantExpired m else m) (BStatus a r)"
| B_status: "go_step aenv lenv m (BStatus a r) [] m
     (if g_status (g_at m a) \<noteq> grantActive then Idle
      else (case Estimate (cl_Catalog (claims_at m a)) r of Inr (Some e) \<Rightarrow> BFlag a e | _ \<Rightarrow> Idle))"
| B_flag: "go_step aenv lenv m (BFlag a e) [] m
     (if cl_Authoritative (claims_at m a) \<and> m_localAdmission m then BOwned a e else BLoad a e)"
| B_owned: "go_step aenv lenv m (BOwned a e) [] m (if g_remaining (g_at m a) \<le> 0 then Exhaust a else Idle)"
| B_load: "go_step aenv lenv m (BLoad a e) [] m
     (if g_remaining (g_at m a) \<le> 0 then Exhaust a
      else if g_remaining (g_at m a) < e then Idle
      else BCas a e (g_remaining (g_at m a)))"
| B_lost: "g_remaining (g_at m a) \<noteq> r \<Longrightarrow> go_step aenv lenv m (BCas a e r) [] m (BLoad a e)"
| B_won: "g_remaining (g_at m a) = r \<Longrightarrow>
     go_step aenv lenv m (BCas a e r) [debit_at m a e] (upd a (\<lambda>g. g\<lparr>g_remaining := i64_sub r e\<rparr>) m)
       (if i64_sub r e = 0 then Exhaust a else Idle)"
| exhaust: "go_step aenv lenv m (Exhaust a) [] (CAS_status a grantExhausted m) Idle"
  \<comment> \<open>TryAdmit\<close>
| T_start: "m_localAdmission m \<Longrightarrow> go_step aenv lenv m Idle [] m (TRegistered k rph r x)"
| T_registered: "go_step aenv lenv m (TRegistered k rph r x) [] m
     (if \<not> m_registered m \<or> (case ax_signer x of None \<Rightarrow> True | Some sg \<Rightarrow> ms_Kid sg = '''') \<or> ax_idem x = ''''
      then Idle else TLookup k rph r x)"
| T_noLease: "m_slots m k = None \<Longrightarrow> go_step aenv lenv m (TLookup k rph r x) [] m Idle"
| T_lookup: "m_slots m k = Some a \<Longrightarrow> go_step aenv lenv m (TLookup k rph r x) [] m
     (let claims = claims_at m a in
      if \<not> cl_Authoritative claims \<or> \<not> cl_LocalAdmissionAllowed claims \<or> cl_BootKID claims \<noteq> m_bootKID m
         \<or> cl_RoutingPolicyHash claims \<noteq> rph \<or> t_UnixMilli (ax_now x) < i64_mul (cl_IssuedAt claims) 1000
         \<or> \<not> t_Before (ax_now x) (vl_AdmitUntil (g_lease (g_at m a)))
      then Idle else TFirstStatus a r x)"
| T_first: "go_step aenv lenv m (TFirstStatus a r x) [] m
     (if g_status (g_at m a) \<noteq> grantActive then Idle
      else (case Estimate (cl_Catalog (claims_at m a)) r of
          Inr (Some e) \<Rightarrow> TClaim a e (x\<lparr>ax_scope := admissionScope aenv (claims_at m a) (ax_idem x)\<rparr>)
        | _ \<Rightarrow> Idle))"
| T_taken: "ax_scope x \<in> m_inFlight m \<Longrightarrow> go_step aenv lenv m (TClaim a e x) [] m Idle"
| T_claim: "ax_scope x \<notin> m_inFlight m \<Longrightarrow>
     go_step aenv lenv m (TClaim a e x) [] (m\<lparr>m_inFlight := insert (ax_scope x) (m_inFlight m)\<rparr>) (TStatus a e x)"
| T_status: "go_step aenv lenv m (TStatus a e x) [] m
     (if g_status (g_at m a) \<noteq> grantActive then TRelease x else TLoad a e x)"
| T_load: "go_step aenv lenv m (TLoad a e x) [] m
     (if g_remaining (g_at m a) \<le> 0 then TExhaust a x
      else if g_remaining (g_at m a) < e then TRelease x
      else TCas a e (g_remaining (g_at m a)) x)"
| T_lost: "g_remaining (g_at m a) \<noteq> r \<Longrightarrow> go_step aenv lenv m (TCas a e r x) [] m (TStatus a e x)"
| T_won: "g_remaining (g_at m a) = r \<Longrightarrow>
     go_step aenv lenv m (TCas a e r x) [debit_at m a e] (upd a (\<lambda>g. g\<lparr>g_remaining := i64_sub r e\<rparr>) m)
       (if i64_sub r e = 0 then TEmptied a e (i64_sub r e) x else TSign a e (i64_sub r e) x)"
| T_emptied: "go_step aenv lenv m (TEmptied a e left x) [] (CAS_status a grantExhausted m) (TSign a e left x)"
| T_sign: "go_step aenv lenv m (TSign a e left x) [] m
     (case SignAdmissionReceipt aenv (ax_signer x) (receiptFor aenv (claims_at m a) (ax_idem x) e left (ax_now x)) of
        Inl _ \<Rightarrow> TRelease x | Inr receipt \<Rightarrow> Admitted receipt x)"
| T_exhaust: "go_step aenv lenv m (TExhaust a x) [] (CAS_status a grantExhausted m) (TRelease x)"
| T_release: "go_step aenv lenv m (TRelease x) [] (m\<lparr>m_inFlight := m_inFlight m - {ax_scope x}\<rparr>) Idle"
| A_release: "go_step aenv lenv m (Admitted receipt x) [] (m\<lparr>m_inFlight := m_inFlight m - {ax_scope x}\<rparr>) Idle"
  \<comment> \<open>ObserveReserve\<close>
| O_start: "go_step aenv lenv m Idle [] m (OLookup k leaseID gen ledger reason marked)"
| O_noLease: "m_slots m k = None \<Longrightarrow> go_step aenv lenv m (OLookup k leaseID gen ledger reason marked) [] m Idle"
| O_lookup: "m_slots m k = Some a \<Longrightarrow> go_step aenv lenv m (OLookup k leaseID gen ledger reason marked) [] m
     (if cl_LeaseID (claims_at m a) \<noteq> leaseID \<or> cl_Generation (claims_at m a) \<noteq> gen then Idle
      else ODecide a ledger reason marked)"
| O_disable: "\<not> marked \<or> reason = ''not_accepting'' \<or> reason = ''boot_not_accepted'' \<Longrightarrow>
     go_step aenv lenv m (ODecide a ledger reason marked) [] (upd a (\<lambda>g. g\<lparr>g_status := grantAdmissionDisabled\<rparr>) m) Idle"
| O_capacity: "marked \<Longrightarrow> reason = ''capacity'' \<Longrightarrow>
     go_step aenv lenv m (ODecide a ledger reason marked) [] (upd a (\<lambda>g. g\<lparr>g_remaining := 0\<rparr>) m) (OExhausted a)"
| O_exhausted: "go_step aenv lenv m (OExhausted a) [] (upd a (\<lambda>g. g\<lparr>g_status := grantExhausted\<rparr>) m) Idle"
| O_ledger: "marked \<Longrightarrow> reason \<notin> {''not_accepting'', ''boot_not_accepted'', ''capacity''} \<Longrightarrow>
     go_step aenv lenv m (ODecide a ledger reason marked) [] m
       (case ledger of None \<Rightarrow> Idle | Some l \<Rightarrow> if l < 0 then Idle else OLoad a l)"
| O_load: "go_step aenv lenv m (OLoad a l) [] m
     (if l \<ge> g_remaining (g_at m a) then OTail a else OCas a l (g_remaining (g_at m a)))"
| O_lost: "g_remaining (g_at m a) \<noteq> r \<Longrightarrow> go_step aenv lenv m (OCas a l r) [] m (OLoad a l)"
| O_won: "g_remaining (g_at m a) = r \<Longrightarrow>
     go_step aenv lenv m (OCas a l r) [] (upd a (\<lambda>g. g\<lparr>g_remaining := l\<rparr>) m) (OTail a)"
| O_tail: "go_step aenv lenv m (OTail a) [] m (if g_remaining (g_at m a) = 0 then Exhaust a else Idle)"
  \<comment> \<open>handleResponse\<close>
| H_verify: "VerifyForStateAt lenv (m_verifier m) token at (m_localAdmission m) = Inr lease \<Longrightarrow>
     \<not> (cl_Authoritative (vl_Claims lease) \<and> (k = '''' \<or> stored = '''' \<or> ws = '''')) \<Longrightarrow>
     cl_KeyHash (vl_Claims lease) = (if cl_Authoritative (vl_Claims lease) then stored else k) \<Longrightarrow>
     cl_BootKID (vl_Claims lease) = m_bootKID m \<Longrightarrow> ws = '''' \<or> cl_WorkspaceID (vl_Claims lease) = ws \<Longrightarrow>
     go_step aenv lenv m Idle [] m (HRegistered k status lease at)"
| H_registered: "go_step aenv lenv m (HRegistered k status lease at) [] m
     (if \<not> m_registered m then Idle else HLock k status lease at)"
| H_lock: "k \<notin> m_locked m \<Longrightarrow>
     go_step aenv lenv m (HLock k status lease at) [] (m\<lparr>m_locked := insert k (m_locked m)\<rparr>) (HCurrent k status lease at)"
| H_empty: "m_slots m k = None \<Longrightarrow>
     go_step aenv lenv m (HCurrent k status lease at) [] m (if status = ''active'' then HStore k lease else HUnlock k)"
| H_held: "m_slots m k = Some a \<Longrightarrow>
     go_step aenv lenv m (HCurrent k status lease at) [] m
       (if status = ''terminal'' \<or> status = ''expired'' then
          (if cl_LeaseID (claims_at m a) = cl_LeaseID (vl_Claims lease)
           then HMark k a (if status = ''terminal'' then grantTerminal else grantExpired) else HUnlock k)
        else if status \<noteq> ''active'' then HUnlock k
        else HStatus k a lease at)"
| H_marked: "go_step aenv lenv m (HMark k a s) [] (upd a (\<lambda>g. g\<lparr>g_status := s\<rparr>) m) (HUnlock k)"
| H_status: "go_step aenv lenv m (HStatus k a lease at) [] m
     (if g_status (g_at m a) = grantActive then HRemaining k a lease at
      else if cl_Generation (vl_Claims lease) \<le> g_gen (g_at m a) then HUnlock k else HStore k lease)"
| H_remaining: "go_step aenv lenv m (HRemaining k a lease at) [] m
     (if g_remaining (g_at m a) \<le> 0 then
        (if cl_Generation (vl_Claims lease) \<le> g_gen (g_at m a) then HUnlock k else HStore k lease)
      else if \<not> t_Before at (vl_Deadline (g_lease (g_at m a))) then HExpire k a lease else HUnlock k)"
| H_expire: "go_step aenv lenv m (HExpire k a lease) [] (CAS_status a grantExpired m)
     (if cl_Generation (vl_Claims lease) \<le> g_gen (g_at m a) then HUnlock k else HStore k lease)"
| H_store: "go_step aenv lenv m (HStore k lease) []
     (m\<lparr>m_heap := m_heap m @ [\<lparr>c_key = k, c_grant = \<lparr>g_lease = lease, g_remaining = cl_CapMicro (vl_Claims lease),
          g_status = grantActive\<rparr>\<rparr>], m_slots := (m_slots m)(k \<mapsto> length (m_heap m))\<rparr>) (HUnlock k)"
| H_unlock: "go_step aenv lenv m (HUnlock k) [] (m\<lparr>m_locked := m_locked m - {k}\<rparr>) Idle"
  \<comment> \<open>the two flags\<close>
| S_registered: "go_step aenv lenv m Idle [] (m\<lparr>m_registered := b\<rparr>) Idle"
| S_local: "go_step aenv lenv m Idle [] (m\<lparr>m_localAdmission := b\<rparr>) Idle"

section \<open>The machine\<close>

text \<open>All goroutines share one memory; any of them may take the next step.\<close>

type_synonym machine = "mem \<times> (nat \<Rightarrow> pc)"

definition cas_step :: "admission_env \<Rightarrow> lease_env \<Rightarrow> machine \<Rightarrow> budget_id debit list \<Rightarrow> machine \<Rightarrow> bool" where
  "cas_step aenv lenv s ds s' \<longleftrightarrow>
     (\<exists>t pc'. go_step aenv lenv (fst s) (snd s t) ds (fst s') pc' \<and> snd s' = (snd s)(t := pc'))"

definition cas_init :: "Verifier option \<Rightarrow> string \<Rightarrow> machine" where
  "cas_init v kid = (\<lparr>m_verifier = v, m_bootKID = kid, m_registered = False, m_localAdmission = False,
     m_heap = [], m_slots = Map.empty, m_locked = {}, m_inFlight = {}\<rparr>, \<lambda>_. Idle)"

definition cell_id :: "cell \<Rightarrow> budget_id" where
  "cell_id c = (c_key c, g_gen (c_grant c))"

definition cas_view :: "machine \<Rightarrow> budget_id \<Rightarrow> (int \<times> int) option" where
  "cas_view s = map_of (map (\<lambda>c. (cell_id c, (g_cap (c_grant c), g_remaining (c_grant c)))) (m_heap (fst s)))"

text \<open>The slot whose mutex, and the in-flight scope which, a goroutine holds.\<close>

fun crit :: "pc \<Rightarrow> string option" where
  "crit (HCurrent k _ _ _) = Some k"
| "crit (HMark k _ _) = Some k"
| "crit (HStatus k _ _ _) = Some k"
| "crit (HRemaining k _ _ _) = Some k"
| "crit (HExpire k _ _) = Some k"
| "crit (HStore k _) = Some k"
| "crit (HUnlock k) = Some k"
| "crit _ = None"

fun scope_of :: "pc \<Rightarrow> string option" where
  "scope_of (TStatus _ _ x) = Some (ax_scope x)"
| "scope_of (TLoad _ _ x) = Some (ax_scope x)"
| "scope_of (TCas _ _ _ x) = Some (ax_scope x)"
| "scope_of (TEmptied _ _ _ x) = Some (ax_scope x)"
| "scope_of (TSign _ _ _ x) = Some (ax_scope x)"
| "scope_of (TExhaust _ x) = Some (ax_scope x)"
| "scope_of (TRelease x) = Some (ax_scope x)"
| "scope_of (Admitted _ x) = Some (ax_scope x)"
| "scope_of _ = None"

section \<open>Invariants\<close>

definition cell_ok :: "cell \<Rightarrow> bool" where
  "cell_ok c \<longleftrightarrow> 0 \<le> g_remaining (c_grant c) \<and> g_remaining (c_grant c) \<le> g_cap (c_grant c)
     \<and> claims_i64 (vl_Claims (g_lease (c_grant c)))"

text \<open>Per key, the installed generations grow and the slot points at the newest.\<close>

definition slot_ok :: "mem \<Rightarrow> string \<Rightarrow> bool" where
  "slot_ok m k \<longleftrightarrow> (case m_slots m k of
      None \<Rightarrow> k \<notin> c_key ` set (m_heap m)
    | Some a \<Rightarrow> a < length (m_heap m) \<and> c_key (m_heap m ! a) = k
        \<and> (\<forall>c \<in> set (m_heap m). c_key c = k \<longrightarrow> g_gen (c_grant c) \<le> g_gen (g_at m a)))"

definition mem_ok :: "mem \<Rightarrow> bool" where
  "mem_ok m \<longleftrightarrow> (\<forall>c \<in> set (m_heap m). cell_ok c) \<and> distinct (map cell_id (m_heap m)) \<and> (\<forall>k. slot_ok m k)"

definition lease_ok :: "VerifiedLease \<Rightarrow> bool" where
  "lease_ok l \<longleftrightarrow> claims_i64 (vl_Claims l) \<and> 0 < cl_CapMicro (vl_Claims l)"

text \<open>What a program counter's local variables say of the memory.\<close>

fun pc_ok :: "mem \<Rightarrow> pc \<Rightarrow> bool" where
  "pc_ok m (BExpire a r now) \<longleftrightarrow> a < length (m_heap m)"
| "pc_ok m (BStatus a r) \<longleftrightarrow> a < length (m_heap m)"
| "pc_ok m (BFlag a e) \<longleftrightarrow> a < length (m_heap m) \<and> 0 \<le> e"
| "pc_ok m (BOwned a e) \<longleftrightarrow> a < length (m_heap m)"
| "pc_ok m (BLoad a e) \<longleftrightarrow> a < length (m_heap m) \<and> 0 \<le> e"
| "pc_ok m (BCas a e r) \<longleftrightarrow> a < length (m_heap m) \<and> 0 \<le> e \<and> e \<le> r"
| "pc_ok m (Exhaust a) \<longleftrightarrow> a < length (m_heap m)"
| "pc_ok m (TFirstStatus a r x) \<longleftrightarrow> a < length (m_heap m)"
| "pc_ok m (TClaim a e x) \<longleftrightarrow> a < length (m_heap m) \<and> 0 \<le> e"
| "pc_ok m (TStatus a e x) \<longleftrightarrow> a < length (m_heap m) \<and> 0 \<le> e"
| "pc_ok m (TLoad a e x) \<longleftrightarrow> a < length (m_heap m) \<and> 0 \<le> e"
| "pc_ok m (TCas a e r x) \<longleftrightarrow> a < length (m_heap m) \<and> 0 \<le> e \<and> e \<le> r"
| "pc_ok m (TEmptied a e left x) \<longleftrightarrow> a < length (m_heap m)"
| "pc_ok m (TExhaust a x) \<longleftrightarrow> a < length (m_heap m)"
| "pc_ok m (ODecide a ledger reason marked) \<longleftrightarrow> a < length (m_heap m)"
| "pc_ok m (OExhausted a) \<longleftrightarrow> a < length (m_heap m)"
| "pc_ok m (OLoad a l) \<longleftrightarrow> a < length (m_heap m) \<and> 0 \<le> l"
| "pc_ok m (OCas a l r) \<longleftrightarrow> a < length (m_heap m) \<and> 0 \<le> l \<and> l < r"
| "pc_ok m (OTail a) \<longleftrightarrow> a < length (m_heap m)"
| "pc_ok m (HRegistered k status l at) \<longleftrightarrow> lease_ok l"
| "pc_ok m (HLock k status l at) \<longleftrightarrow> lease_ok l"
| "pc_ok m (HCurrent k status l at) \<longleftrightarrow> lease_ok l"
| "pc_ok m (HMark k a s) \<longleftrightarrow> a < length (m_heap m)"
| "pc_ok m (HStatus k a l at) \<longleftrightarrow> lease_ok l \<and> m_slots m k = Some a"
| "pc_ok m (HRemaining k a l at) \<longleftrightarrow> lease_ok l \<and> m_slots m k = Some a"
| "pc_ok m (HExpire k a l) \<longleftrightarrow> lease_ok l \<and> m_slots m k = Some a"
| "pc_ok m (HStore k l) \<longleftrightarrow> lease_ok l \<and>
     (\<forall>a. m_slots m k = Some a \<longrightarrow> g_gen (g_at m a) < cl_Generation (vl_Claims l))"
| "pc_ok m _ \<longleftrightarrow> True"

definition cas_inv :: "machine \<Rightarrow> bool" where
  "cas_inv s \<longleftrightarrow> mem_ok (fst s) \<and> (\<forall>t. pc_ok (fst s) (snd s t))
     \<and> (\<forall>t k. crit (snd s t) = Some k \<longrightarrow> k \<in> m_locked (fst s))
     \<and> (\<forall>t u k. crit (snd s t) = Some k \<longrightarrow> crit (snd s u) = Some k \<longrightarrow> t = u)
     \<and> (\<forall>t sc. scope_of (snd s t) = Some sc \<longrightarrow> sc \<in> m_inFlight (fst s))
     \<and> (\<forall>t u sc. scope_of (snd s t) = Some sc \<longrightarrow> scope_of (snd s u) = Some sc \<longrightarrow> t = u)"

section \<open>What one step does to the heap\<close>

inductive heap_effect :: "mem \<Rightarrow> budget_id debit list \<Rightarrow> mem \<Rightarrow> bool" for m where
  same: "m_heap m' = m_heap m \<Longrightarrow> m_slots m' = m_slots m \<Longrightarrow> heap_effect m [] m'"
| lower: "a < length (m_heap m) \<Longrightarrow> g_lease (f (g_at m a)) = g_lease (g_at m a) \<Longrightarrow> 0 \<le> g_remaining (f (g_at m a)) \<Longrightarrow>
    g_remaining (f (g_at m a)) \<le> g_remaining (g_at m a) \<Longrightarrow> heap_effect m [] (upd a f m)"
| debit: "a < length (m_heap m) \<Longrightarrow> g_lease (f (g_at m a)) = g_lease (g_at m a) \<Longrightarrow> 0 \<le> g_remaining (f (g_at m a)) \<Longrightarrow>
    g_remaining (f (g_at m a)) = g_remaining (g_at m a) - e \<Longrightarrow> 0 \<le> e \<Longrightarrow> heap_effect m [debit_at m a e] (upd a f m)"
| install: "lease_ok l \<Longrightarrow> (\<forall>a. m_slots m k = Some a \<longrightarrow> g_gen (g_at m a) < cl_Generation (vl_Claims l)) \<Longrightarrow>
    m_heap m' = m_heap m @ [\<lparr>c_key = k, c_grant = \<lparr>g_lease = l, g_remaining = cl_CapMicro (vl_Claims l), g_status = s\<rparr>\<rparr>] \<Longrightarrow>
    m_slots m' = (m_slots m)(k \<mapsto> length (m_heap m)) \<Longrightarrow> heap_effect m [] m'"

lemma upd_simps [simp]:
  "length (m_heap (upd a f m)) = length (m_heap m)"
  "m_slots (upd a f m) = m_slots m" "m_locked (upd a f m) = m_locked m" "m_inFlight (upd a f m) = m_inFlight m"
  by (simp_all add: upd_def)

lemma mem_okD:
  assumes "mem_ok m"
  shows "a < length (m_heap m) \<Longrightarrow> cell_ok (m_heap m ! a)"
    and "m_slots m k = Some a \<Longrightarrow> a < length (m_heap m) \<and> c_key (m_heap m ! a) = k"
  using assms unfolding mem_ok_def slot_ok_def by (auto dest: spec [of _ k])

lemma cell_debit:
  assumes "mem_ok m" "a < length (m_heap m)" "0 \<le> e" "e \<le> g_remaining (g_at m a)"
  shows "i64_sub (g_remaining (g_at m a)) e = g_remaining (g_at m a) - e"
proof -
  have "cell_ok (m_heap m ! a)" using mem_okD(1) [OF assms(1,2)] .
  then have "in_i64 (g_remaining (g_at m a) - e)"
    using assms(3,4) by (auto simp: cell_ok_def g_at_def claims_i64_def i64_defs)
  then show ?thesis by (rule i64_sub_exact)
qed

lemma estimate_nonneg:
  assumes "mem_ok m" "a < length (m_heap m)" "Estimate (cl_Catalog (claims_at m a)) r = Inr (Some e)"
  shows "0 \<le> e"
  using mem_okD(1) [OF assms(1,2)] Estimate_SomeD(1) [OF _ assms(3)]
  by (auto simp: cell_ok_def g_at_def claims_i64_def)

lemma lower_status:
  assumes "mem_ok m" "a < length (m_heap m)"
  shows "heap_effect m [] (CAS_status a s m)" "heap_effect m [] (upd a (\<lambda>g. g\<lparr>g_status := s\<rparr>) m)"
  using mem_okD(1) [OF assms] assms(2) by (auto intro!: lower simp: cell_ok_def g_at_def)

lemma go_step_heap:
  assumes "go_step aenv lenv m pc ds m' pc'" "mem_ok m" "pc_ok m pc"
  shows "heap_effect m ds m'"
  using assms
proof (cases rule: go_step.cases)
  case (B_won a r e)
  then show ?thesis using assms(3) cell_debit [OF assms(2)] by (auto intro!: debit)
next
  case (T_won a r e x)
  then show ?thesis using assms(3) cell_debit [OF assms(2)] by (auto intro!: debit)
next
  case (O_won a r l)
  then show ?thesis using assms(3) by (auto intro!: lower)
next
  case (O_capacity marked reason a ledger)
  then show ?thesis using assms(3) mem_okD(1) [OF assms(2), of a] by (auto intro!: lower simp: cell_ok_def g_at_def)
next
  case (H_store k lease)
  have "heap_effect m [] m'"
    by (rule heap_effect.install [of lease m k m' grantActive]) (use H_store assms(3) in auto)
  then show ?thesis using H_store by simp
qed (use assms(3) mem_okD(2) [OF assms(2)] lower_status [OF assms(2)] in \<open>auto intro: same\<close>)

lemma heap_upd: "a < length (m_heap m) \<Longrightarrow> i < length (m_heap m) \<Longrightarrow>
    m_heap (upd a f m) ! i = (if i = a then (m_heap m ! a)\<lparr>c_grant := f (g_at m a)\<rparr> else m_heap m ! i)"
  by (simp add: upd_def)

lemma g_at_upd: "a < length (m_heap m) \<Longrightarrow> i < length (m_heap m) \<Longrightarrow>
    g_at (upd a f m) i = (if i = a then f (g_at m a) else g_at m i)"
  by (simp add: g_at_def heap_upd)

text \<open>A change that keeps the leases keeps the identities and the slots' order.\<close>

lemma upd_ids:
  assumes "a < length (m_heap m)" "g_lease (f (g_at m a)) = g_lease (g_at m a)"
  shows "map cell_id (m_heap (upd a f m)) = map cell_id (m_heap m)"
    and "slot_ok m k \<Longrightarrow> slot_ok (upd a f m) k"
proof -
  show ids: "map cell_id (m_heap (upd a f m)) = map cell_id (m_heap m)"
    using assms by (auto intro!: nth_equalityI simp: heap_upd cell_id_def g_at_def)
  have gen: "g_gen (g_at (upd a f m) i) = g_gen (g_at m i)" "c_key (m_heap (upd a f m) ! i) = c_key (m_heap m ! i)"
    if "i < length (m_heap m)" for i
    using that assms by (simp_all add: g_at_upd heap_upd)
  show "slot_ok (upd a f m) k" if "slot_ok m k"
    using that gen unfolding slot_ok_def
    by (fastforce simp: all_set_conv_all_nth g_at_def in_set_conv_nth image_iff split: option.splits)
qed

lemma upd_mem_ok:
  assumes "mem_ok m" "a < length (m_heap m)" "g_lease (f (g_at m a)) = g_lease (g_at m a)"
    "0 \<le> g_remaining (f (g_at m a))" "g_remaining (f (g_at m a)) \<le> g_remaining (g_at m a)"
  shows "mem_ok (upd a f m)"
proof -
  have "cell_ok (m_heap (upd a f m) ! i)" if "i < length (m_heap m)" for i
    using mem_okD(1) [OF assms(1) that] assms(2-5) that by (auto simp: heap_upd cell_ok_def g_at_def)
  then show ?thesis
    using assms(1) upd_ids [where f = f, OF assms(2,3)] by (auto simp: mem_ok_def all_set_conv_all_nth)
qed

lemma install_mem_ok:
  assumes ok: "mem_ok m" "lease_ok l" "\<forall>a. m_slots m k = Some a \<longrightarrow> g_gen (g_at m a) < cl_Generation (vl_Claims l)"
    and m': "m_heap m' = m_heap m @ [\<lparr>c_key = k, c_grant = \<lparr>g_lease = l, g_remaining = cl_CapMicro (vl_Claims l), g_status = s\<rparr>\<rparr>]"
      "m_slots m' = (m_slots m)(k \<mapsto> length (m_heap m))"
  shows "mem_ok m'"
proof -
  have old: "g_gen (c_grant c) < cl_Generation (vl_Claims l)" if "c \<in> set (m_heap m)" "c_key c = k" for c
    using ok(1,3) that unfolding mem_ok_def slot_ok_def by (fastforce split: option.splits dest: spec [of _ k])
  then have "(k, cl_Generation (vl_Claims l)) \<notin> cell_id ` set (m_heap m)" by (fastforce simp: cell_id_def)
  then have "distinct (map cell_id (m_heap m'))" using ok(1) m'(1) by (simp add: mem_ok_def) (simp add: cell_id_def)
  moreover have "\<forall>c \<in> set (m_heap m'). cell_ok c" using ok(1,2) m'(1) by (auto simp: mem_ok_def cell_ok_def lease_ok_def)
  moreover have "slot_ok m' j" for j
  proof (cases "j = k")
    case True
    then show ?thesis using m' old by (auto simp: slot_ok_def g_at_def nth_append less_imp_le)
  next
    case False
    then show ?thesis
      using ok(1) m' by (auto simp: mem_ok_def slot_ok_def g_at_def nth_append split: option.splits dest: spec [of _ j])
  qed
  ultimately show ?thesis by (simp add: mem_ok_def)
qed

lemma heap_effect_ok: "heap_effect m ds m' \<Longrightarrow> mem_ok m \<Longrightarrow> mem_ok m'"
proof (induction rule: heap_effect.induct)
  case (same m')
  then show ?case by (simp only: mem_ok_def slot_ok_def g_at_def) simp
next
  case (lower a f)
  then show ?case by (intro upd_mem_ok) auto
next
  case (debit a f e)
  then show ?case by (intro upd_mem_ok) auto
next
  case (install l k m' s)
  show ?case by (rule install_mem_ok [OF install(5,1,2,3,4)])
qed

text \<open>The view of the cell at an address.\<close>

lemma view_cell:
  assumes "mem_ok m" "i < length (m_heap m)"
  shows "cas_view (m, p) (c_key (m_heap m ! i), g_gen (g_at m i)) = Some (g_cap (g_at m i), g_remaining (g_at m i))"
proof -
  have d: "distinct (map fst (map (\<lambda>c. (cell_id c, (g_cap (c_grant c), g_remaining (c_grant c)))) (m_heap m)))"
    using assms(1) by (simp add: mem_ok_def comp_def)
  have "cas_view (m, p) (cell_id (m_heap m ! i)) = Some (g_cap (c_grant (m_heap m ! i)), g_remaining (c_grant (m_heap m ! i)))"
    unfolding cas_view_def fst_conv
    by (rule map_of_is_SomeI [OF d]) (use imageI [OF nth_mem [OF assms(2)]] in simp)
  then show ?thesis by (simp add: cell_id_def g_at_def)
qed

lemma view_SomeD:
  assumes "cas_view (m, p) i = Some (c, r)"
  obtains a where "a < length (m_heap m)" "i = (c_key (m_heap m ! a), g_gen (g_at m a))"
    "c = g_cap (g_at m a)" "r = g_remaining (g_at m a)"
proof -
  from assms obtain x where "x \<in> set (m_heap m)" "i = cell_id x" "c = g_cap (c_grant x)" "r = g_remaining (c_grant x)"
    unfolding cas_view_def by (auto dest!: map_of_SomeD)
  then show thesis using that by (auto simp: in_set_conv_nth cell_id_def g_at_def)
qed

lemma heap_effect_live:
  assumes "heap_effect m ds m'" "mem_ok m" "cas_view (m, p) i = Some (c, r)"
  shows "\<exists>r'. cas_view (m', p') i = Some (c, r') \<and> r' + debited ds i \<le> r"
proof -
  note ok' = heap_effect_ok [OF assms(1,2)]
  obtain b where b: "b < length (m_heap m)" "i = (c_key (m_heap m ! b), g_gen (g_at m b))"
    "c = g_cap (g_at m b)" "r = g_remaining (g_at m b)" using view_SomeD [OF assms(3)] .
  have view: "cas_view (m', p') i = Some (c, g_remaining (g_at m' b))"
    if "b < length (m_heap m')" "c_key (m_heap m' ! b) = c_key (m_heap m ! b)" "g_lease (g_at m' b) = g_lease (g_at m b)"
    using view_cell [OF ok' that(1), of p'] b that by simp
  have uniq: "a = b" if "a < length (m_heap m)" "cell_id (m_heap m ! a) = cell_id (m_heap m ! b)" for a
    using that b(1) assms(2) nth_eq_iff_index_eq [of "map cell_id (m_heap m)" a b] by (simp add: mem_ok_def)
  show ?thesis using assms(1)
  proof cases
    case same
    then show ?thesis using view b by (simp add: g_at_def)
  next
    case (lower a f)
    then show ?thesis using view b by (auto simp: g_at_upd heap_upd)
  next
    case (debit a f e)
    have "debited ds i = (if a = b then e else 0)"
      using debit uniq [of a] b by (auto simp: debit_at_def cell_id_def g_at_def)
    then show ?thesis using debit view b by (auto simp: g_at_upd heap_upd)
  next
    case (install l k s)
    then show ?thesis using view b by (simp add: g_at_def nth_append)
  qed
qed

section \<open>The machine keeps its invariant\<close>

text \<open>What the other goroutines may rely on while one takes a step.\<close>

definition mem_le :: "string option \<Rightarrow> mem \<Rightarrow> mem \<Rightarrow> bool" where
  "mem_le own m m' \<longleftrightarrow> length (m_heap m) \<le> length (m_heap m')
     \<and> (\<forall>a < length (m_heap m). g_lease (g_at m' a) = g_lease (g_at m a))
     \<and> (\<forall>k. own \<noteq> Some k \<longrightarrow> m_slots m' k = m_slots m k)"

lemma pc_ok_mono:
  assumes "pc_ok m p" "mem_le own m m'" "mem_ok m" "crit p = None \<or> crit p \<noteq> own"
  shows "pc_ok m' p"
proof -
  have len: "a < length (m_heap m')" if "a < length (m_heap m)" for a
    using that assms(2) by (simp add: mem_le_def)
  have slot: "m_slots m' k = m_slots m k" if "crit p = Some k" for k
    using that assms(2,4) by (auto simp: mem_le_def)
  have gen: "g_gen (g_at m' a) = g_gen (g_at m a)" if "m_slots m k = Some a" for k a
    using mem_okD(2) [OF assms(3) that] assms(2) by (auto simp: mem_le_def)
  show ?thesis using assms(1) len slot gen by (cases p) auto
qed

lemma go_step_slots:
  assumes "go_step aenv lenv m pc ds m' pc'" "crit pc \<noteq> Some k"
  shows "m_slots m' k = m_slots m k"
  using assms by (induction rule: go_step.induct) simp_all

lemma go_step_le:
  assumes "go_step aenv lenv m pc ds m' pc'" "mem_ok m" "pc_ok m pc"
  shows "mem_le (crit pc) m m'"
proof -
  have "length (m_heap m) \<le> length (m_heap m') \<and> (\<forall>a < length (m_heap m). g_lease (g_at m' a) = g_lease (g_at m a))"
    using go_step_heap [OF assms]
    by cases (simp_all add: g_at_def heap_upd nth_append)
  then show ?thesis using go_step_slots [OF assms(1)] by (simp add: mem_le_def)
qed

lemma verified_ok:
  assumes "lease_laws env" "VerifyForStateAt env v token at la = Inr lease"
  shows "lease_ok lease"
proof -
  have "VerifyAt env v token at = Inr lease" using assms(2) by (auto simp: VerifyForStateAt_def split: if_splits)
  then obtain key where "validateClaims (vl_Claims lease) key at = Inr ()" "claims_i64 (vl_Claims lease)"
    using VerifyAt_ok assms(1) unfolding lease_laws_def by metis
  then show ?thesis using validateClaims_ok(1) by (auto simp: lease_ok_def)
qed

lemma go_step_pc:
  assumes "go_step aenv lenv m pc ds m' pc'" "mem_ok m" "pc_ok m pc" "lease_laws lenv"
  shows "pc_ok m' pc'"
  using assms(1)
proof cases
  case (B_status a r)
  then show ?thesis using assms(3) estimate_nonneg [OF assms(2)] by (auto split: sum.splits option.splits)
next
  case (T_first a r x)
  then show ?thesis using assms(3) estimate_nonneg [OF assms(2)] by (auto split: sum.splits option.splits)
next
  case (H_verify token at lease k stored ws status)
  then show ?thesis using verified_ok [OF assms(4)] by simp
qed (use assms(3) mem_okD(2) [OF assms(2)] in \<open>auto simp: not_less not_le g_at_upd Let_def split: option.splits sum.splits\<close>)

lemma go_step_crit:
  assumes "go_step aenv lenv m pc ds m' pc'"
  shows "(crit pc' = crit pc \<and> m_locked m' = m_locked m)
     \<or> (\<exists>k. crit pc = None \<and> crit pc' = Some k \<and> k \<notin> m_locked m \<and> m_locked m' = insert k (m_locked m))
     \<or> (\<exists>k. crit pc = Some k \<and> crit pc' = None \<and> m_locked m' = m_locked m - {k})"
  using assms by (induction rule: go_step.induct) (simp_all add: Let_def split: option.split sum.split)

lemma go_step_scope:
  assumes "go_step aenv lenv m pc ds m' pc'"
  shows "(scope_of pc' = scope_of pc \<and> m_inFlight m' = m_inFlight m)
     \<or> (\<exists>k. scope_of pc = None \<and> scope_of pc' = Some k \<and> k \<notin> m_inFlight m \<and> m_inFlight m' = insert k (m_inFlight m))
     \<or> (\<exists>k. scope_of pc = Some k \<and> scope_of pc' = None \<and> m_inFlight m' = m_inFlight m - {k})"
  using assms by (induction rule: go_step.induct) (simp_all add: Let_def split: option.split sum.split)

text \<open>Exclusive ownership under such a step, for mutexes and scopes alike.\<close>

lemma owner_step:
  assumes own: "\<forall>t k. f (p t) = Some k \<longrightarrow> k \<in> L" "\<forall>t u k. f (p t) = Some k \<longrightarrow> f (p u) = Some k \<longrightarrow> t = u"
    and step: "(f q = f (p t) \<and> L' = L) \<or> (\<exists>k. f (p t) = None \<and> f q = Some k \<and> k \<notin> L \<and> L' = insert k L)
      \<or> (\<exists>k. f (p t) = Some k \<and> f q = None \<and> L' = L - {k})"
  shows "\<forall>u k. f ((p(t := q)) u) = Some k \<longrightarrow> k \<in> L'"
    and "\<forall>u v k. f ((p(t := q)) u) = Some k \<longrightarrow> f ((p(t := q)) v) = Some k \<longrightarrow> u = v"
proof -
  show "\<forall>u k. f ((p(t := q)) u) = Some k \<longrightarrow> k \<in> L'" using own step by (auto split: if_splits)
  show "\<forall>u v k. f ((p(t := q)) u) = Some k \<longrightarrow> f ((p(t := q)) v) = Some k \<longrightarrow> u = v"
  proof (intro allI impI)
    fix u v k assume k: "f ((p(t := q)) u) = Some k" "f ((p(t := q)) v) = Some k"
    have "f q \<noteq> Some k" if "f (p w) = Some k" "w \<noteq> t" for w
      using that own step by (metis option.distinct(1) option.inject)
    then show "u = v" using k own(2) by (auto split: if_splits)
  qed
qed

lemma cas_inv_step:
  assumes "lease_laws lenv" "cas_inv s" "cas_step aenv lenv s ds s'"
  shows "cas_inv s'"
proof -
  obtain m p where s: "s = (m, p)" by (cases s)
  obtain t q m' where st: "go_step aenv lenv m (p t) ds m' q" "s' = (m', p(t := q))"
    using assms(3) s by (cases s') (auto simp: cas_step_def)
  have inv: "mem_ok m" "\<And>t. pc_ok m (p t)" using assms(2) s by (auto simp: cas_inv_def)
  have own: "\<forall>t k. crit (p t) = Some k \<longrightarrow> k \<in> m_locked m"
    "\<forall>t u k. crit (p t) = Some k \<longrightarrow> crit (p u) = Some k \<longrightarrow> t = u"
    "\<forall>t k. scope_of (p t) = Some k \<longrightarrow> k \<in> m_inFlight m"
    "\<forall>t u k. scope_of (p t) = Some k \<longrightarrow> scope_of (p u) = Some k \<longrightarrow> t = u"
    using assms(2) s by (simp_all add: cas_inv_def)
  have ok: "mem_ok m'" using heap_effect_ok [OF go_step_heap [OF st(1) inv] inv(1)] .
  have pcs: "pc_ok m' ((p(t := q)) u)" for u
  proof (cases "u = t")
    case True
    then show ?thesis using go_step_pc [OF st(1) inv assms(1)] by simp
  next
    case False
    then have "crit (p u) = None \<or> crit (p u) \<noteq> crit (p t)" using own(2) by (metis option.exhaust)
    then show ?thesis using pc_ok_mono [OF inv(2) go_step_le [OF st(1) inv] inv(1)] False by simp
  qed
  note locks = owner_step [where f = crit, OF own(1,2) go_step_crit [OF st(1)]]
  note scopes = owner_step [where f = scope_of, OF own(3,4) go_step_scope [OF st(1)]]
  show ?thesis
    unfolding cas_inv_def st(2) fst_conv snd_conv
    by (rule conjI [OF ok conjI [OF allI [OF pcs] conjI [OF locks(1) conjI [OF locks(2) conjI [OF scopes]]]]])
qed

interpretation cas_ledger: budget_machine
  "\<lambda>s. lease_laws lenv \<and> cas_inv s" cas_view "\<lambda>_. {}" "cas_step aenv lenv" for aenv lenv
proof unfold_locales
  fix s t :: machine and ds :: "budget_id debit list" and i :: budget_id and c r a :: int
  assume inv: "lease_laws lenv \<and> cas_inv s"
  have ok: "mem_ok (fst s)" using inv by (simp add: cas_inv_def)
  have eff: "heap_effect (fst s) ds (fst t)" if "cas_step aenv lenv s ds t"
    using that inv go_step_heap by (auto simp: cas_step_def cas_inv_def)
  show "lease_laws lenv \<and> cas_inv t" if "cas_step aenv lenv s ds t"
    using cas_inv_step that inv by blast
  show "0 \<le> r \<and> r \<le> c" if "cas_view s i = Some (c, r)"
    using that mem_okD(1) [OF ok] by (cases s) (auto elim!: view_SomeD simp: cell_ok_def g_at_def)
  show "(\<exists>r'. cas_view t i = Some (c, r') \<and> r' + debited ds i \<le> r) \<or> i \<in> {} \<and> debited ds i \<le> 0"
    if "cas_step aenv lenv s ds t" "cas_view s i = Some (c, r)"
    using heap_effect_live [OF eff [OF that(1)] ok, of "snd s" i c r "snd t"] that(2) by simp
  show "\<exists>r. cas_view s i = Some (c, r)" if "cas_step aenv lenv s ds t" "(i, c, a) \<in> set ds"
    using eff [OF that(1)] that(2) view_cell [OF ok, of _ "snd s"]
    by cases (auto simp: debit_at_def)
qed simp_all

section \<open>Properties\<close>

lemma cas_init_inv: "cas_inv (cas_init v kid)"
  by (simp add: cas_inv_def cas_init_def mem_ok_def slot_ok_def)

text \<open>Two goroutines race for one grant of 500: an admission of 310 and a Stage A request of
  310, both past their loads.\<close>

definition exampleMem :: mem where
  "exampleMem = \<lparr>m_verifier = Some exampleVerifier, m_bootKID = ''boot'', m_registered = True, m_localAdmission = True,
     m_heap = [\<lparr>c_key = ''lookup'', c_grant = \<lparr>g_lease = \<lparr>vl_Claims = exampleClaims 1000 1060,
        vl_Deadline = exampleNow 1070, vl_AdmitUntil = exampleNow 1032\<rparr>, g_remaining = 500, g_status = grantActive\<rparr>\<rparr>],
     m_slots = [''lookup'' \<mapsto> 0], m_locked = {}, m_inFlight = {''s''}\<rparr>"

definition exampleCtx :: admit_ctx where
  "exampleCtx = \<lparr>ax_idem = ''i'', ax_now = exampleNow 1002, ax_signer = None, ax_scope = ''s''\<rparr>"

definition exampleRace :: machine where
  "exampleRace = (exampleMem, (\<lambda>_. Idle)(0 := TLoad 0 310 exampleCtx, 1 := BLoad 0 310))"

lemma exampleRace_inv: "cas_inv exampleRace"
proof -
  have "mem_ok exampleMem"
    using example_claims_i64
    by (simp add: mem_ok_def cell_ok_def slot_ok_def exampleMem_def g_at_def) (simp add: exampleClaims_def)
  then show ?thesis
    by (simp add: cas_inv_def exampleRace_def) (simp add: exampleMem_def exampleCtx_def)
qed

lemma example_race_run:
  "\<exists>s. run_of (cas_step aenv lenv) exampleRace [((''lookup'', 1), 1000, 310)] s
     \<and> snd s 0 = TSign 0 310 190 exampleCtx \<and> snd s 1 = BLoad 0 310"
proof -
  let ?T = "\<lambda>a b. (\<lambda>_. Idle)(0 := a, 1 := b)"
  let ?m = "upd 0 (\<lambda>g. g\<lparr>g_remaining := i64_sub 500 310\<rparr>) exampleMem"
  have r: "g_remaining (g_at exampleMem 0) = 500" "g_remaining (g_at ?m 0) = 190"
    by (simp_all add: exampleMem_def g_at_def upd_def i64_defs i64_sub_def)
  have ld: "debit_at exampleMem 0 310 = ((''lookup'', 1), 1000, 310)"
    by (simp add: debit_at_def g_at_def exampleMem_def exampleClaims_def)
  have 1: "cas_step aenv lenv exampleRace [] (exampleMem, ?T (TCas 0 310 500 exampleCtx) (BLoad 0 310))"
    using go_step.T_load [of aenv lenv exampleMem 0 310 exampleCtx] r
    by (auto simp: cas_step_def exampleRace_def fun_eq_iff intro!: exI [of _ "0::nat"])
  have 2: "cas_step aenv lenv (exampleMem, ?T (TCas 0 310 500 exampleCtx) (BLoad 0 310)) []
      (exampleMem, ?T (TCas 0 310 500 exampleCtx) (BCas 0 310 500))"
    using go_step.B_load [of aenv lenv exampleMem 0 310] r
    by (auto simp: cas_step_def fun_eq_iff intro!: exI [of _ "1::nat"])
  have 3: "cas_step aenv lenv (exampleMem, ?T (TCas 0 310 500 exampleCtx) (BCas 0 310 500)) [((''lookup'', 1), 1000, 310)]
      (?m, ?T (TSign 0 310 190 exampleCtx) (BCas 0 310 500))"
    using go_step.T_won [of exampleMem 0 500 aenv lenv 310 exampleCtx] r ld
    by (auto simp: cas_step_def fun_eq_iff i64_sub_def i64_defs intro!: exI [of _ "0::nat"])
  have 4: "cas_step aenv lenv (?m, ?T (TSign 0 310 190 exampleCtx) (BCas 0 310 500)) []
      (?m, ?T (TSign 0 310 190 exampleCtx) (BLoad 0 310))"
    using go_step.B_lost [of ?m 0 500 aenv lenv 310] r
    by (auto simp: cas_step_def fun_eq_iff intro!: exI [of _ "1::nat"])
  have "run_of (cas_step aenv lenv) exampleRace (((([] @ []) @ []) @ [((''lookup'', 1), 1000, 310)]) @ [])
      (?m, ?T (TSign 0 310 190 exampleCtx) (BLoad 0 310))"
    by (rule run_step, rule run_step, rule run_step, rule run_step, rule run_start) (fact 1 2 3 4)+
  then show ?thesis by (intro exI [of _ "(?m, ?T (TSign 0 310 190 exampleCtx) (BLoad 0 310))"]) simp
qed

text \<open>(C1) The ledger is safe under every interleaving. However the atomic accesses of any
  number of concurrent \<open>BeforeRequest\<close>, \<open>TryAdmit\<close>, \<open>ObserveReserve\<close> and \<open>handleResponse\<close> calls are
  interleaved, goroutines holding replaced grants included, the successful swaps against one
  generation of one key's lease sum to at most its cap, what the grant still holds included.\<close>
theorem concurrent_ledger_safe:
  assumes "lease_laws lenv" "cas_inv s0" "run_of (cas_step aenv lenv) s0 ds s"
  shows "list_all (\<lambda>(i, c, a). debited ds i \<le> c) ds
    \<and> list_all (\<lambda>c. debited ds (cell_id c) + g_remaining (c_grant c) \<le> g_cap (c_grant c)) (m_heap (fst s))"
proof
  have inv: "lease_laws lenv \<and> cas_inv s0" using assms(1,2) by simp
  show "list_all (\<lambda>(i, c, a). debited ds i \<le> c) ds"
    using cas_ledger.budget_safe(1) [OF assms(3) inv] by (auto simp: list_all_iff)
  have "mem_ok (fst s)"
    using cas_ledger.ledgerD(1) [OF cas_ledger.ledger_run [OF assms(3) inv]] by (simp add: cas_inv_def)
  then show "list_all (\<lambda>c. debited ds (cell_id c) + g_remaining (c_grant c) \<le> g_cap (c_grant c)) (m_heap (fst s))"
    using cas_ledger.budget_safe(2) [OF assms(3) inv] view_cell [of "fst s" _ "snd s"]
    by (auto simp: list_all_length cell_id_def g_at_def)
qed

theorem concurrent_ledger_safe_witness:
  "\<exists>s. run_of (cas_step exampleAdmissionEnv exampleLeaseEnv) exampleRace [((''lookup'', 1), 1000, 310)] s
     \<and> list_all (\<lambda>c. 310 + g_remaining (c_grant c) \<le> 1000) (filter (\<lambda>c. cell_id c = (''lookup'', 1) \<and> g_cap (c_grant c) = 1000) (m_heap (fst s)))"
proof -
  obtain s where run: "run_of (cas_step exampleAdmissionEnv exampleLeaseEnv) exampleRace [((''lookup'', 1), 1000, 310)] s"
    using example_race_run by blast
  show ?thesis
    using concurrent_ledger_safe [OF example_lease_laws exampleRace_inv run] run
    by (intro exI [of _ s]) (auto simp: list_all_iff)
qed

text \<open>(C8) Two goroutines never hold the same in-flight scope: from the moment \<open>TryAdmit\<close> claims
  it until the scope is released, by a refusal or by the admission's \<open>Release\<close>, every other
  goroutine with the same workspace, key and idempotency key is turned away.\<close>
theorem concurrent_scope_exclusive:
  assumes "lease_laws lenv" "cas_inv s0" "run_of (cas_step aenv lenv) s0 ds s"
    and "t \<noteq> u" "scope_of (snd s t) = Some scope"
  shows "scope_of (snd s u) \<noteq> Some scope \<and> scope \<in> m_inFlight (fst s)
    \<and> (\<forall>a e x ds' m' q. snd s u = TClaim a e x \<longrightarrow> ax_scope x = scope \<longrightarrow>
         go_step aenv lenv (fst s) (snd s u) ds' m' q \<longrightarrow> q = Idle \<and> m' = fst s)"
proof -
  have inv: "cas_inv s"
    using cas_ledger.ledgerD(1) [OF cas_ledger.ledger_run [OF assms(3)]] assms(1,2) by blast
  then have own: "\<And>t sc. scope_of (snd s t) = Some sc \<Longrightarrow> sc \<in> m_inFlight (fst s)"
    "\<And>t u sc. scope_of (snd s t) = Some sc \<Longrightarrow> scope_of (snd s u) = Some sc \<Longrightarrow> t = u"
    by (auto simp: cas_inv_def)
  have "q = Idle \<and> m' = fst s" if "snd s u = TClaim a e x" "ax_scope x = scope"
      "go_step aenv lenv (fst s) (snd s u) ds' m' q" for a e x ds' m' q
    using that(3) own(1) [OF assms(5)] that(1,2) by cases auto
  then show ?thesis using own(1) [OF assms(5)] own(2) [OF assms(5)] assms(4) by blast
qed

theorem concurrent_scope_exclusive_witness:
  "\<exists>s. run_of (cas_step exampleAdmissionEnv exampleLeaseEnv) exampleRace [((''lookup'', 1), 1000, 310)] s
     \<and> scope_of (snd s 0) = Some ''s'' \<and> scope_of (snd s 1) \<noteq> Some ''s''"
proof -
  obtain s where run: "run_of (cas_step exampleAdmissionEnv exampleLeaseEnv) exampleRace [((''lookup'', 1), 1000, 310)] s"
    and pc: "snd s 0 = TSign 0 310 190 exampleCtx" using example_race_run by blast
  have sc: "scope_of (snd s 0) = Some ''s''" using pc by (simp add: exampleCtx_def)
  show ?thesis
    using concurrent_scope_exclusive [OF example_lease_laws exampleRace_inv run _ sc, of 1] run sc
    by (intro exI [of _ s]) simp
qed

end
