(* ===== verification/SpendLeaseProgress.thy ===== *)
theory SpendLeaseProgress
  imports SpendLeaseCAS
begin

text \<open>
  The compare-and-swap loops of the lease state end. \<open>BeforeRequest\<close>, \<open>TryAdmit\<close> and \<open>ObserveReserve\<close>
  (\<open>internal/spendlease/state.go\<close>) load the balance of a grant and swap it; when the swap fails they
  load again. The balance of a grant never rises, so every lost swap is paid for by money some
  other goroutine took from the same grant.
\<close>

text \<open>The grant a goroutine is swapping, and the balance it read, once it has read it.\<close>

fun retry_view :: "pc \<Rightarrow> (nat \<times> int option) option" where
  "retry_view (BLoad a e) = Some (a, None)"
| "retry_view (BCas a e r) = Some (a, Some r)"
| "retry_view (TStatus a e x) = Some (a, None)"
| "retry_view (TLoad a e x) = Some (a, None)"
| "retry_view (TCas a e r x) = Some (a, Some r)"
| "retry_view (OLoad a l) = Some (a, None)"
| "retry_view (OCas a l r) = Some (a, Some r)"
| "retry_view _ = None"

text \<open>A run in which goroutine \<open>t\<close> stays in its loop on grant \<open>a\<close>, with the number of swaps it lost.
  The others step freely.\<close>

inductive retry_run :: "admission_env \<Rightarrow> lease_env \<Rightarrow> nat \<Rightarrow> nat \<Rightarrow> machine \<Rightarrow> nat \<Rightarrow> machine \<Rightarrow> bool"
  for aenv lenv t a s0 where
  enter: "retry_view (snd s0 t) = Some (a, None) \<Longrightarrow> retry_run aenv lenv t a s0 0 s0"
| other: "retry_run aenv lenv t a s0 n (m, p) \<Longrightarrow> u \<noteq> t \<Longrightarrow> go_step aenv lenv m (p u) ds m' q \<Longrightarrow>
    retry_run aenv lenv t a s0 n (m', p(u := q))"
| again: "retry_run aenv lenv t a s0 n (m, p) \<Longrightarrow> retry_view (p t) = Some (a, None) \<Longrightarrow> go_step aenv lenv m (p t) ds m' q \<Longrightarrow>
    retry_view q = Some (a, v) \<Longrightarrow> retry_run aenv lenv t a s0 n (m', p(t := q))"
| lost: "retry_run aenv lenv t a s0 n (m, p) \<Longrightarrow> retry_view (p t) = Some (a, Some r) \<Longrightarrow> go_step aenv lenv m (p t) ds m' q \<Longrightarrow>
    retry_view q = Some (a, v) \<Longrightarrow> retry_run aenv lenv t a s0 (Suc n) (m', p(t := q))"

section \<open>The balance never rises\<close>

lemma balance_falls:
  assumes "go_step aenv lenv m pc ds m' pc'" "mem_ok m" "pc_ok m pc" "a < length (m_heap m)"
  shows "g_remaining (g_at m' a) \<le> g_remaining (g_at m a) \<and> a < length (m_heap m')"
  using go_step_heap [OF assms(1-3)] assms(4)
  by cases (auto simp: heap_upd g_at_def nth_append)

text \<open>Staying in the loop changes no memory: it reads the balance, or finds that it changed.\<close>

lemma retry_own:
  assumes "go_step aenv lenv m pc ds m' pc'" "retry_view pc = Some (a, v)" "retry_view pc' = Some (a, w)"
  shows "m' = m \<and> (case v of None \<Rightarrow> w = None \<or> w = Some (g_remaining (g_at m a))
      | Some r \<Rightarrow> w = None \<and> g_remaining (g_at m a) \<noteq> r)"
  using assms by (cases rule: go_step.cases) (auto split: if_splits option.splits)

text \<open>What the goroutine can lose: the balance it read, or the balance when it has not read it.\<close>

definition seen :: "machine \<Rightarrow> nat \<Rightarrow> nat \<Rightarrow> int" where
  "seen s t a = (case retry_view (snd s t) of Some (_, Some r) \<Rightarrow> r | _ \<Rightarrow> g_remaining (g_at (fst s) a))"

lemma retry_run_inv:
  assumes "retry_run aenv lenv t a s0 n s" "lease_laws lenv" "cas_inv s0" "a < length (m_heap (fst s0))"
  shows "cas_inv s \<and> a < length (m_heap (fst s)) \<and> (\<exists>v. retry_view (snd s t) = Some (a, v))
    \<and> g_remaining (g_at (fst s) a) \<le> seen s t a \<and> int n + seen s t a \<le> g_remaining (g_at (fst s0) a)"
  using assms
proof (induction rule: retry_run.induct)
  case enter
  then show ?case by (simp add: seen_def)
next
  case (other n m p u ds m' q)
  then have ih: "cas_inv (m, p)" "a < length (m_heap m)" "\<exists>v. retry_view (p t) = Some (a, v)"
    "g_remaining (g_at m a) \<le> seen (m, p) t a" "int n + seen (m, p) t a \<le> g_remaining (g_at (fst s0) a)" by auto
  have "cas_step aenv lenv (m, p) ds (m', p(u := q))" using other.hyps by (auto simp: cas_step_def)
  then have "cas_inv (m', p(u := q))" using cas_inv_step [OF other.prems(1) ih(1)] by blast
  moreover have "g_remaining (g_at m' a) \<le> g_remaining (g_at m a) \<and> a < length (m_heap m')"
    using balance_falls [OF other.hyps(3)] ih(1,2) by (auto simp: cas_inv_def)
  ultimately show ?case using ih(3-5) other.hyps(2) by (auto simp: seen_def split: option.splits)
next
  case (again n m p ds m' q v)
  then have ih: "cas_inv (m, p)" "a < length (m_heap m)" "int n + seen (m, p) t a \<le> g_remaining (g_at (fst s0) a)" by auto
  have "cas_step aenv lenv (m, p) ds (m', p(t := q))" using again.hyps by (auto simp: cas_step_def)
  then have "cas_inv (m', p(t := q))" using cas_inv_step [OF again.prems(1) ih(1)] by blast
  then show ?case using retry_own [OF again.hyps(3,2,4)] ih(2,3) again.hyps(2,4) by (auto simp: seen_def)
next
  case (lost n m p r ds m' q v)
  then have ih: "cas_inv (m, p)" "a < length (m_heap m)" "g_remaining (g_at m a) \<le> seen (m, p) t a"
    "int n + seen (m, p) t a \<le> g_remaining (g_at (fst s0) a)" by auto
  have "cas_step aenv lenv (m, p) ds (m', p(t := q))" using lost.hyps by (auto simp: cas_step_def)
  then have "cas_inv (m', p(t := q))" using cas_inv_step [OF lost.prems(1) ih(1)] by blast
  then show ?case using retry_own [OF lost.hyps(3,2,4)] ih(2-4) lost.hyps(2,4) by (auto simp: seen_def)
qed

text \<open>(C21) The compare-and-swap loops end. While a goroutine is in the loop of \<open>BeforeRequest\<close>, \<open>TryAdmit\<close> or
  \<open>ObserveReserve\<close> on a grant, and any others run beside it, the number of swaps it has lost is at most the
  fall of the grant's balance since it entered, so at most the cap of the lease: every lost swap means that
  another goroutine lowered the balance in between.\<close>
theorem cas_loop_ends:
  assumes "lease_laws lenv" "cas_inv s0" "a < length (m_heap (fst s0))" "retry_run aenv lenv t a s0 n s"
  shows "int n \<le> g_remaining (g_at (fst s0) a) - g_remaining (g_at (fst s) a) \<and> int n \<le> g_cap (g_at (fst s0) a)"
proof -
  note inv = retry_run_inv [OF assms(4,1-3)]
  have "cell_ok (m_heap (fst s0) ! a)" "cell_ok (m_heap (fst s) ! a)"
    using mem_okD(1) assms(2,3) inv by (auto simp: cas_inv_def)
  then show ?thesis using inv by (auto simp: cell_ok_def g_at_def)
qed

theorem cas_loop_ends_witness:
  "\<exists>s. retry_run exampleAdmissionEnv exampleLeaseEnv 1 0 exampleRace 1 s
     \<and> 1 \<le> g_remaining (g_at (fst exampleRace) 0) - g_remaining (g_at (fst s) 0)"
proof -
  let ?T = "\<lambda>a b. (\<lambda>_. Idle)(0 := a, 1 := b) :: nat \<Rightarrow> pc" and ?R = "retry_run exampleAdmissionEnv exampleLeaseEnv 1 0 exampleRace"
  let ?g = "go_step exampleAdmissionEnv exampleLeaseEnv"
  let ?m = "upd 0 (\<lambda>g. g\<lparr>g_remaining := i64_sub 500 310\<rparr>) exampleMem"
  let ?d = "[debit_at exampleMem 0 310]"
  have r: "g_remaining (g_at exampleMem 0) = 500" "g_remaining (g_at ?m 0) = 190" "i64_sub 500 310 = 190"
    by (simp_all add: exampleMem_def g_at_def upd_def i64_defs i64_sub_def)
  have "?R 0 exampleRace" by (rule retry_run.enter) (simp add: exampleRace_def)
  then have "?R 0 (exampleMem, ?T (TLoad 0 310 exampleCtx) (BLoad 0 310))" by (simp add: exampleRace_def)
  from retry_run.other [OF this, of 0 "[]" exampleMem "TCas 0 310 500 exampleCtx"]
  have "?R 0 (exampleMem, ?T (TCas 0 310 500 exampleCtx) (BLoad 0 310))"
    using go_step.T_load [of _ _ exampleMem 0 310 exampleCtx] r by (simp add: fun_upd_twist)
  from retry_run.again [OF this, of "[]" exampleMem "BCas 0 310 500" "Some 500"]
  have "?R 0 (exampleMem, ?T (TCas 0 310 500 exampleCtx) (BCas 0 310 500))"
    using go_step.B_load [of _ _ exampleMem 0 310] r by simp
  from retry_run.other [OF this, of 0 ?d ?m "TSign 0 310 190 exampleCtx"]
  have "?R 0 (?m, ?T (TSign 0 310 190 exampleCtx) (BCas 0 310 500))"
    using go_step.T_won [of exampleMem 0 500 _ _ 310 exampleCtx] r by (simp add: fun_upd_twist)
  from retry_run.lost [OF this, of 500 "[]" ?m "BLoad 0 310" None]
  have run: "?R (Suc 0) (?m, ?T (TSign 0 310 190 exampleCtx) (BLoad 0 310))"
    using go_step.B_lost [of ?m 0 500 _ _ 310] r by simp
  have "0 < length (m_heap (fst exampleRace))" by (simp add: exampleRace_def exampleMem_def)
  from cas_loop_ends [OF example_lease_laws exampleRace_inv this run] show ?thesis using run by (auto simp: exampleRace_def)
qed

end
