(* ===== verification/GoJSON.thy ===== *)
theory GoJSON
  imports GoText
begin

text \<open>
  What the components use of Go's \<open>unicode/utf8\<close>, \<open>strconv\<close> and \<open>encoding/json\<close>: runes, decimal
  numbers, JSON values and the token stream of a decoder. The lexer behind \<open>Decoder.Token\<close> is
  a parameter of its users; the values read from its tokens are modelled here and in
  theory \<open>BillingSchema\<close>.
\<close>

section \<open>Runes\<close>

definition byte :: "char \<Rightarrow> nat" where
  "byte c = of_char c"

definition cont_in :: "nat \<Rightarrow> nat \<Rightarrow> char \<Rightarrow> bool" where
  "cont_in lo hi c \<longleftrightarrow> lo \<le> byte c \<and> byte c \<le> hi"

definition tail6 :: "char \<Rightarrow> nat" where
  "tail6 c = byte c mod 64"

text \<open>\<open>utf8.DecodeRune\<close>: the rune, or none for an invalid byte, and the bytes it takes.\<close>

definition decodeRune :: "string \<Rightarrow> nat option \<times> nat" where
  "decodeRune s = (case s of
     [] \<Rightarrow> (None, 0)
   | c0 # t0 \<Rightarrow>
     (let b0 = byte c0 in
      if b0 < 128 then (Some b0, 1)
      else if b0 < 194 \<or> 244 < b0 then (None, 1)
      else (case t0 of [] \<Rightarrow> (None, 1)
        | c1 # t1 \<Rightarrow>
          (let lo = (if b0 = 224 then 160 else if b0 = 240 then 144 else 128);
               hi = (if b0 = 237 then 159 else if b0 = 244 then 143 else 191) in
           if \<not> cont_in lo hi c1 then (None, 1)
           else if b0 < 224 then (Some ((b0 mod 32) * 64 + tail6 c1), 2)
           else (case t1 of [] \<Rightarrow> (None, 1)
             | c2 # t2 \<Rightarrow>
               if \<not> cont_in 128 191 c2 then (None, 1)
               else if b0 < 240 then (Some ((b0 mod 16) * 4096 + tail6 c1 * 64 + tail6 c2), 3)
               else (case t2 of [] \<Rightarrow> (None, 1)
                 | c3 # _ \<Rightarrow>
                   if \<not> cont_in 128 191 c3 then (None, 1)
                   else (Some ((b0 mod 8) * 262144 + tail6 c1 * 4096 + tail6 c2 * 64 + tail6 c3), 4)))))))"

lemma decodeRune_size: "s \<noteq> [] \<Longrightarrow> 0 < snd (decodeRune s) \<and> snd (decodeRune s) \<le> length s"
  by (auto simp: decodeRune_def Let_def split: list.splits)

function runes :: "string \<Rightarrow> nat option list" where
  "runes s = (if s = [] then [] else fst (decodeRune s) # runes (drop (snd (decodeRune s)) s))"
  by auto
termination by (relation "measure length") (use decodeRune_size in auto)

declare runes.simps [simp del]

definition utf8_Valid :: "string \<Rightarrow> bool" where
  "utf8_Valid s \<longleftrightarrow> None \<notin> set (runes s)"

lemma runes_ascii: "\<forall>c \<in> set s. byte c < 128 \<Longrightarrow> runes s = map (\<lambda>c. Some (byte c)) s"
proof (induction s)
  case (Cons c s)
  then show ?case by (subst runes.simps) (simp add: decodeRune_def Let_def)
qed (simp add: runes.simps)

lemma utf8_Valid_ascii: "\<forall>c \<in> set s. byte c < 128 \<Longrightarrow> utf8_Valid s"
  by (auto simp: utf8_Valid_def runes_ascii)

section \<open>Decimal integers\<close>

definition digit_char :: "nat \<Rightarrow> char" where
  "digit_char d = char_of (48 + d)"

definition digit_of :: "char \<Rightarrow> nat option" where
  "digit_of c = (if 48 \<le> byte c \<and> byte c \<le> 57 then Some (byte c - 48) else None)"

fun itoa_nat :: "nat \<Rightarrow> string" where
  "itoa_nat n = (if n < 10 then [digit_char n] else itoa_nat (n div 10) @ [digit_char (n mod 10)])"

declare itoa_nat.simps [simp del]

definition itoa :: "int \<Rightarrow> string" where
  "itoa n = (if n < 0 then ''-'' @ itoa_nat (nat (- n)) else itoa_nat (nat n))"

fun atoi_digits :: "nat \<Rightarrow> string \<Rightarrow> nat option" where
  "atoi_digits acc [] = Some acc"
| "atoi_digits acc (c # cs) = (case digit_of c of None \<Rightarrow> None | Some d \<Rightarrow> atoi_digits (10 * acc + d) cs)"

text \<open>\<open>strconv.ParseInt(s, 10, 64)\<close>: an optional sign, at least one digit, within \<open>int64\<close>.\<close>

definition ParseInt :: "string \<Rightarrow> int option" where
  "ParseInt s =
     (let (neg, ds) = (case s of c # cs \<Rightarrow> if c = CHR ''-'' then (True, cs) else if c = CHR ''+'' then (False, cs) else (False, s)
                       | [] \<Rightarrow> (False, [])) in
      if ds = [] then None
      else (case atoi_digits 0 ds of None \<Rightarrow> None
        | Some n \<Rightarrow> let v = (if neg then - int n else int n) in if in_i64 v then Some v else None))"

lemma digit_of_char [simp]: "d < 10 \<Longrightarrow> digit_of (digit_char d) = Some d"
  by (simp add: digit_of_def digit_char_def byte_def)

lemma atoi_append: "atoi_digits a (xs @ ys) = Option.bind (atoi_digits a xs) (\<lambda>b. atoi_digits b ys)"
  by (induction xs arbitrary: a) (auto split: option.splits)

lemma atoi_itoa: "atoi_digits 0 (itoa_nat n) = Some n"
proof (induction n rule: itoa_nat.induct)
  case (1 n)
  show ?case
  proof (cases "n < 10")
    case True
    then show ?thesis by (subst itoa_nat.simps) simp
  next
    case False
    then show ?thesis using 1 by (subst itoa_nat.simps) (simp add: atoi_append)
  qed
qed

lemma itoa_nat_digits: "itoa_nat n \<noteq> [] \<and> (\<forall>c \<in> set (itoa_nat n). digit_of c \<noteq> None)"
proof (induction n rule: itoa_nat.induct)
  case (1 n)
  then show ?case by (subst (1 2) itoa_nat.simps) auto
qed

lemma itoa_nat_head: "\<exists>c cs. itoa_nat n = c # cs \<and> c \<noteq> CHR ''-'' \<and> c \<noteq> CHR ''+''"
proof -
  obtain c cs where c: "itoa_nat n = c # cs" using itoa_nat_digits [of n] by (cases "itoa_nat n") auto
  then have "digit_of c \<noteq> None" using itoa_nat_digits [of n] by auto
  then have "c \<noteq> CHR ''-''" "c \<noteq> CHR ''+''" by (auto simp: digit_of_def byte_def)
  then show ?thesis using c by blast
qed

lemma ParseInt_itoa [simp]: "ParseInt (itoa n) = (if in_i64 n then Some n else None)"
proof -
  obtain c cs where c: "itoa_nat (nat n) = c # cs" "c \<noteq> CHR ''-''" "c \<noteq> CHR ''+''" using itoa_nat_head by blast
  have d: "itoa_nat m \<noteq> []" for m using itoa_nat_digits by blast
  show ?thesis
  proof (cases "n < 0")
    case True
    then show ?thesis using d by (simp add: ParseInt_def itoa_def atoi_itoa)
  next
    case False
    then have "ParseInt (itoa n) = (case atoi_digits 0 (itoa_nat (nat n)) of None \<Rightarrow> None
        | Some m \<Rightarrow> if in_i64 (int m) then Some (int m) else None)"
      using c by (simp add: ParseInt_def itoa_def Let_def cong: option.case_cong)
    then show ?thesis using False by (simp add: atoi_itoa)
  qed
qed

lemma ParseInt_i64: "ParseInt s = Some i \<Longrightarrow> in_i64 i"
  by (auto simp: ParseInt_def Let_def split: option.splits if_splits list.splits prod.splits)

section \<open>JSON values and tokens\<close>

datatype json =
    JNull
  | JBool bool
  | JNum string
  | JStr string
  | JArr "json list"
  | JObj "(string \<times> json) list"

datatype token =
    TokNull | TokBool bool | TokNum string | TokStr string
  | TokLBrace | TokRBrace | TokLBrack | TokRBrack

fun tokens_of :: "json \<Rightarrow> token list"
  and tokens_members :: "(string \<times> json) list \<Rightarrow> token list"
  and tokens_elements :: "json list \<Rightarrow> token list" where
  "tokens_of JNull = [TokNull]"
| "tokens_of (JBool b) = [TokBool b]"
| "tokens_of (JNum n) = [TokNum n]"
| "tokens_of (JStr s) = [TokStr s]"
| "tokens_of (JArr xs) = TokLBrack # tokens_elements xs @ [TokRBrack]"
| "tokens_of (JObj ms) = TokLBrace # tokens_members ms @ [TokRBrace]"
| "tokens_members [] = []"
| "tokens_members ((k, v) # ms) = TokStr k # tokens_of v @ tokens_members ms"
| "tokens_elements [] = []"
| "tokens_elements (v # vs) = tokens_of v @ tokens_elements vs"

text \<open>Nesting depth, and objects without duplicate keys at any depth.\<close>

fun json_depth :: "json \<Rightarrow> nat" where
  "json_depth (JArr xs) = Suc (Max (set (0 # map json_depth xs)))"
| "json_depth (JObj ms) = Suc (Max (set (0 # map (\<lambda>m. json_depth (snd m)) ms)))"
| "json_depth _ = 0"

fun json_distinct :: "json \<Rightarrow> bool" where
  "json_distinct (JArr xs) = (\<forall>x \<in> set xs. json_distinct x)"
| "json_distinct (JObj ms) = (distinct (map fst ms) \<and> (\<forall>m \<in> set ms. json_distinct (snd m)))"
| "json_distinct _ = True"

end
