(* ===== verification/BillingSchema.thy ===== *)
theory BillingSchema
  imports GoJSON
begin

text \<open>
  The reflective wire layer of package \<open>internal/billingv1\<close> (\<open>validate.go\<close>): strict JSON
  decoding and the walk of \<open>validateValue\<close> over a struct type and its field tags. Go types are
  values of \<open>gotype\<close>, struct tags values of \<open>field_tag\<close>, reflected values \<open>goval\<close>; the schemas of
  the contract's structs are in theory \<open>BillingV1\<close>. The lexer of \<open>encoding/json\<close> is a parameter
  (\<open>billing_env\<close>), with the laws of its documentation in \<open>billing_laws\<close>.

  A decoded object is a list of members in document order; where the code ranges over a Go
  map, whose order is unspecified, the model takes that order.
\<close>

section \<open>Errors\<close>

record bill_error =
  be_Code :: string
  be_Field :: string
  be_Kind :: string

definition failure :: "string \<Rightarrow> bill_error" where
  "failure code = \<lparr>be_Code = code, be_Field = '''', be_Kind = ''''\<rparr>"

definition Error_text :: "bill_error \<Rightarrow> string" where
  "Error_text e = be_Code e @ '': '' @ be_Field e @ '' '' @ be_Kind e"

definition invalid :: "string \<Rightarrow> string \<Rightarrow> bill_error" where
  "invalid path kind = \<lparr>be_Code = ''invalid_type'', be_Field = path, be_Kind = kind\<rparr>"

text \<open>An error of \<open>decodeJSON\<close> is one of the package's own or any other error, by its text.\<close>

datatype decode_error = Wire bill_error | Plain string | OutOfFuel

section \<open>Strict decoding\<close>

definition unicodeEscape :: "string \<Rightarrow> nat option" where
  "unicodeEscape raw =
     (if length raw < 6 \<or> raw ! 0 \<noteq> CHR 0x5C \<or> raw ! 1 \<noteq> CHR ''u'' then None
      else (case map hex_val (take 4 (drop 2 raw)) of
          [Some a, Some b, Some c, Some d] \<Rightarrow> Some (((a * 16 + b) * 16 + c) * 16 + d)
        | _ \<Rightarrow> None))"

function validateStringEscapes :: "string \<Rightarrow> bill_error + unit" where
  "validateStringEscapes raw =
     (case raw of
        [] \<Rightarrow> Inr ()
      | c # rest \<Rightarrow>
        if c \<noteq> CHR 0x5C then validateStringEscapes rest
        else (case unicodeEscape raw of
            None \<Rightarrow> validateStringEscapes (drop 2 raw)
          | Some u \<Rightarrow>
            if 0xd800 \<le> u \<and> u \<le> 0xdbff then
              (case unicodeEscape (drop 6 raw) of
                 None \<Rightarrow> Inl (failure ''invalid_string'')
               | Some low \<Rightarrow>
                 if low < 0xdc00 \<or> low > 0xdfff then Inl (failure ''invalid_string'')
                 else validateStringEscapes (drop 12 raw))
            else if 0xdc00 \<le> u \<and> u \<le> 0xdfff then Inl (failure ''invalid_string'')
            else validateStringEscapes (drop 6 raw)))"
  by auto
termination by (relation "measure length") auto

declare validateStringEscapes.simps [simp del]

text \<open>A token that is not a delimiter is a value; \<open>More\<close> is false at the end of the tokens and at
  a closing delimiter.\<close>

fun scalar :: "token \<Rightarrow> json option" where
  "scalar TokNull = Some JNull"
| "scalar (TokBool b) = Some (JBool b)"
| "scalar (TokNum n) = Some (JNum n)"
| "scalar (TokStr s) = Some (JStr s)"
| "scalar _ = None"

definition More :: "token list \<Rightarrow> bool" where
  "More ts \<longleftrightarrow> ts \<noteq> [] \<and> hd ts \<noteq> TokRBrace \<and> hd ts \<noteq> TokRBrack"

text \<open>\<open>readValue\<close> on the decoder's remaining tokens. Each loop of the source (\<open>for d.More()\<close>)
  is one of the two other functions; the first argument is fuel, and
  \<open>decodeJSON\<close> supplies enough (lemma \<open>readValue_fuel\<close>).\<close>

fun readValue :: "nat \<Rightarrow> nat \<Rightarrow> token list \<Rightarrow> decode_error + json \<times> token list"
  and readMembers :: "nat \<Rightarrow> nat \<Rightarrow> (string \<times> json) list \<Rightarrow> token list \<Rightarrow> decode_error + json \<times> token list"
  and readElements :: "nat \<Rightarrow> nat \<Rightarrow> json list \<Rightarrow> token list \<Rightarrow> decode_error + json \<times> token list" where
  "readValue 0 depth ts = Inl OutOfFuel"
| "readValue (Suc f) depth ts =
     (if depth > 64 then Inl (Plain ''JSON nesting limit'')
      else if ts = [] then Inl (Plain ''token'')
      else (case scalar (hd ts) of
          Some v \<Rightarrow> Inr (v, tl ts)
        | None \<Rightarrow>
          if hd ts = TokLBrace then readMembers f depth [] (tl ts)
          else if hd ts = TokLBrack then readElements f depth [] (tl ts)
          else Inl (Plain ''unexpected delimiter'')))"
| "readMembers 0 depth acc ts = Inl OutOfFuel"
| "readMembers (Suc f) depth acc ts =
     (if More ts then
        (case scalar (hd ts) of
           Some (JStr key) \<Rightarrow>
             if key \<in> set (map fst acc) then Inl (Plain ''duplicate JSON key'')
             else (case readValue f (Suc depth) (tl ts) of
                 Inl e \<Rightarrow> Inl e
               | Inr (v, r) \<Rightarrow> readMembers f depth (acc @ [(key, v)]) r)
         | _ \<Rightarrow> Inl (Plain ''object key''))
      else if ts \<noteq> [] \<and> hd ts = TokRBrace then Inr (JObj acc, tl ts)
      else Inl (Plain ''token''))"
| "readElements 0 depth acc ts = Inl OutOfFuel"
| "readElements (Suc f) depth acc ts =
     (if More ts then
        (case readValue f (Suc depth) ts of
           Inl e \<Rightarrow> Inl e
         | Inr (v, r) \<Rightarrow> readElements f depth (acc @ [v]) r)
      else if ts \<noteq> [] \<and> hd ts = TokRBrack then Inr (JArr acc, tl ts)
      else Inl (Plain ''token''))"

text \<open>The lexer: the tokens of a text up to its end or first lexical error, and whether the end
  was clean (\<open>io.EOF\<close>). Encoding: the text of a Go value.\<close>

datatype goval =
    VInt int
  | VStr string
  | VBool bool
  | VNil
  | VPtr "goval option"
  | VSlice "goval list"
  | VStruct string "(string \<times> goval) list"

record billing_env =
  be_tokens :: "string \<Rightarrow> token list \<times> bool"
  be_Marshal :: "goval \<Rightarrow> string"
  be_sha256 :: "string \<Rightarrow> string"
  be_Encode :: "json \<Rightarrow> string"

definition decodeJSON :: "billing_env \<Rightarrow> string \<Rightarrow> decode_error + json" where
  "decodeJSON env raw =
     (if \<not> utf8_Valid raw \<or> map byte (take 3 raw) = [0xef, 0xbb, 0xbf] \<or> 0 \<in> byte ` set raw
      then Inl (Wire (failure ''invalid_encoding''))
      else (case validateStringEscapes raw of
          Inl e \<Rightarrow> Inl (Wire e)
        | Inr _ \<Rightarrow>
          (let (ts, clean) = be_tokens env raw in
           (case readValue (2 * length ts + 2) 0 ts of
              Inl e \<Rightarrow> Inl e
            | Inr (v, rest) \<Rightarrow> if rest \<noteq> [] \<or> \<not> clean then Inl (Plain ''trailing JSON'') else Inr v))))"

section \<open>The decoder's loops\<close>

text \<open>What a reader promises: it does not run out of fuel, and it consumes a token.\<close>

definition reads :: "token list \<Rightarrow> decode_error + json \<times> token list \<Rightarrow> bool" where
  "reads ts res \<longleftrightarrow> (case res of Inl e \<Rightarrow> e \<noteq> OutOfFuel | Inr (v, r) \<Rightarrow> length r < length ts)"

lemma reads_simps [simp]:
  "reads ts (Inl e) \<longleftrightarrow> e \<noteq> OutOfFuel" "reads ts (Inr (v, r)) \<longleftrightarrow> length r < length ts"
  by (simp_all add: reads_def)

lemma reads_less: "reads us res \<Longrightarrow> length us \<le> length ts \<Longrightarrow> reads ts res"
  by (auto simp: reads_def split: sum.splits)

lemma readValue_fuel:
  "2 * length ts < f \<Longrightarrow> reads ts (readValue f depth ts)"
  "2 * length ts < f \<Longrightarrow> reads ts (readMembers f depth acc ts)"
  "2 * length ts + 1 < f \<Longrightarrow> reads ts (readElements f depth xs ts)"
proof (induction f arbitrary: ts depth acc xs)
  case (Suc f)
  {
    case 1
    then have "ts \<noteq> [] \<Longrightarrow> reads ts (readMembers f depth [] (tl ts)) \<and> reads ts (readElements f depth [] (tl ts))"
      using Suc(2) [of "tl ts" depth "[]"] Suc(3) [of "tl ts" depth "[]"] reads_less [of "tl ts" _ ts] by (cases ts) auto
    then show ?case by (auto split: option.split)
  next
    case 2
    have v: "reads (tl ts) (readValue f (Suc depth) (tl ts))" if "ts \<noteq> []"
      using Suc(1) [of "tl ts"] 2 that by (cases ts) auto
    have m: "reads ts (readMembers f depth acc' r)" if "length r < length (tl ts)" for acc' r
      by (rule reads_less [of r]) (use Suc(2) [of r] 2 that in auto)
    show ?case
    proof (cases "\<exists>key. More ts \<and> scalar (hd ts) = Some (JStr key) \<and> key \<notin> set (map fst acc)")
      case True
      then have "ts \<noteq> []" by (auto simp: More_def)
      then show ?thesis using True v m by (auto split: sum.split)
    next
      case False
      then have "readMembers (Suc f) depth acc ts \<in> Inl ` {Plain ''token'', Plain ''object key'', Plain ''duplicate JSON key''}
          \<or> ts \<noteq> [] \<and> readMembers (Suc f) depth acc ts = Inr (JObj acc, tl ts)"
        by (cases "scalar (hd ts)"; cases "the (scalar (hd ts))") (simp_all del: set_map)
      then show ?thesis by auto
    qed
  next
    case 3
    have v: "reads ts (readValue f (Suc depth) ts)" using Suc(1) [of ts] 3 by auto
    have m: "reads ts (readElements f depth xs' r)" if "length r < length ts" for xs' r
      by (rule reads_less [of r]) (use Suc(3) [of r] 3 that in auto)
    show ?case using v m by (auto simp: More_def split: sum.split)
  }
qed auto

text \<open>The tokens of a value are read back as that value.\<close>

lemma depth_member: "m \<in> set ms \<Longrightarrow> json_depth (snd m) < json_depth (JObj ms)"
  by (auto simp: less_Suc_eq_le intro!: Max_ge)

lemma depth_element: "x \<in> set xs \<Longrightarrow> json_depth x < json_depth (JArr xs)"
  by (auto simp: less_Suc_eq_le intro!: Max_ge)

lemma More_tokens: "More (tokens_of v @ rest)" "0 < length (tokens_of v)"
  by (cases v; simp add: More_def)+

lemma readValue_tokens:
  "json_distinct j \<Longrightarrow> depth + json_depth j \<le> 64 \<Longrightarrow> 2 * length (tokens_of j) < f \<Longrightarrow>
     readValue f depth (tokens_of j @ rest) = Inr (j, rest)"
  "distinct (map fst (acc @ ms)) \<Longrightarrow> (\<forall>m \<in> set ms. json_distinct (snd m) \<and> Suc depth + json_depth (snd m) \<le> 64) \<Longrightarrow>
     2 * length (tokens_members ms) < f \<Longrightarrow>
     readMembers f depth acc (tokens_members ms @ TokRBrace # rest) = Inr (JObj (acc @ ms), rest)"
  "(\<forall>x \<in> set xs. json_distinct x \<and> Suc depth + json_depth x \<le> 64) \<Longrightarrow> 2 * length (tokens_elements xs) + 1 < f \<Longrightarrow>
     readElements f depth ys (tokens_elements xs @ TokRBrack # rest) = Inr (JArr (ys @ xs), rest)"
proof (induction j and ms and xs arbitrary: depth f rest and depth f rest acc and depth f rest ys
    rule: tokens_of_tokens_members_tokens_elements.induct)
  case (5 xs)
  then obtain g where f: "f = Suc g" by (cases f) auto
  have d: "\<forall>x \<in> set xs. json_distinct x \<and> Suc depth + json_depth x \<le> 64"
    using 5(2,3) depth_element [of _ xs] by fastforce
  show ?case using 5(1) [OF d, of g "[]" rest] 5(3,4) f by simp
next
  case (6 ms)
  then obtain g where f: "f = Suc g" by (cases f) auto
  have d: "\<forall>m \<in> set ms. json_distinct (snd m) \<and> Suc depth + json_depth (snd m) \<le> 64"
    using 6(2,3) depth_member [of _ ms] by fastforce
  have "distinct (map fst ([] @ ms))" using 6(2) by simp
  from 6(1) [OF this d, of g rest] show ?case using 6(3,4) f by simp
next
  case 7
  then show ?case by (cases f) (auto simp: More_def)
next
  case (8 k v ms)
  then obtain g where f: "f = Suc g" by (cases f) auto
  have v: "readValue g (Suc depth) (tokens_of v @ tokens_members ms @ TokRBrace # rest) = Inr (v, tokens_members ms @ TokRBrace # rest)"
    using 8(1) [of "Suc depth" g] 8(4,5) f by simp
  have m: "readMembers g depth (acc @ [(k, v)]) (tokens_members ms @ TokRBrace # rest) = Inr (JObj ((acc @ [(k, v)]) @ ms), rest)"
    using 8(2) [of "acc @ [(k, v)]" depth g rest] 8(3,4,5) f by simp
  show ?case using 8(3) f v m by (simp add: More_def)
next
  case 9
  then show ?case by (cases f) (auto simp: More_def)
next
  case (10 v vs)
  have f: "f = Suc (f - 1)" "2 * length (tokens_of v) < f - 1" "2 * length (tokens_elements vs) + 1 < f - 1"
    using 10(4) [simplified] More_tokens(2) [of v] by linarith+
  have v: "readValue (f - 1) (Suc depth) (tokens_of v @ tokens_elements vs @ TokRBrack # rest) = Inr (v, tokens_elements vs @ TokRBrack # rest)"
    using 10(1) [of "Suc depth" "f - 1"] 10(3) f by simp
  have e: "readElements (f - 1) depth (ys @ [v]) (tokens_elements vs @ TokRBrack # rest) = Inr (JArr ((ys @ [v]) @ vs), rest)"
    using 10(2) [of depth "f - 1"] 10(3) f by simp
  show ?case by (subst f(1)) (use v e in \<open>simp add: More_tokens\<close>)
qed (auto simp: less_iff_Suc_add)

declare readValue.simps [simp del] readMembers.simps [simp del] readElements.simps [simp del]

end
