(* ===== verification/BillingTypes.thy ===== *)
theory BillingTypes
  imports BillingSchema
begin

text \<open>
  The contract's structs (\<open>types.go\<close>, \<open>build.go\<close>) as records, their Go types with field tags,
  the semantic checks, and the reflective validation of package \<open>internal/billingv1\<close>.
  For a struct \<open>S\<close>, \<open>S_type\<close> is its type with the tags of the source, \<open>S_val\<close> its reflected
  value and \<open>S_of\<close> reads the fields of a reflected value.
\<close>

section \<open>Go types and tags\<close>

record field_tag =
  ft_literal :: "string list"
  ft_check :: string
  ft_bounds :: string
  ft_default :: "json option"

datatype gotype =
    GInt64 | GString | GBool | GAny
  | GPtr gotype
  | GSlice gotype
  | GStruct string "(string \<times> gotype \<times> field_tag) list"

definition noTag :: field_tag where
  "noTag = \<lparr>ft_literal = [], ft_check = '''', ft_bounds = '''', ft_default = None\<rparr>"

definition literalTag :: "string list \<Rightarrow> field_tag" where
  "literalTag ls = noTag\<lparr>ft_literal := ls\<rparr>"

definition checkTag :: "string \<Rightarrow> field_tag" where
  "checkTag c = noTag\<lparr>ft_check := c\<rparr>"

definition boundsTag :: "string \<Rightarrow> field_tag" where
  "boundsTag b = noTag\<lparr>ft_bounds := b\<rparr>"

definition defaultTag :: "json \<Rightarrow> field_tag" where
  "defaultTag j = noTag\<lparr>ft_default := Some j\<rparr>"

lemmas tag_defs = noTag_def literalTag_def checkTag_def boundsTag_def defaultTag_def

text \<open>Reading a reflected value.\<close>

definition fld :: "string \<Rightarrow> goval \<Rightarrow> goval" where
  "fld n v = (case v of VStruct _ fs \<Rightarrow> (case map_of fs n of Some x \<Rightarrow> x | None \<Rightarrow> VNil) | _ \<Rightarrow> VNil)"

fun asInt :: "goval \<Rightarrow> int" where
  "asInt (VInt n) = n" | "asInt _ = 0"

fun asStr :: "goval \<Rightarrow> string" where
  "asStr (VStr s) = s" | "asStr _ = ''''"

fun asBool :: "goval \<Rightarrow> bool" where
  "asBool (VBool b) = b" | "asBool _ = False"

fun asPtr :: "goval \<Rightarrow> goval option" where
  "asPtr (VPtr p) = p" | "asPtr _ = None"

fun asSlice :: "goval \<Rightarrow> goval list option" where
  "asSlice (VSlice xs) = Some xs" | "asSlice _ = None"

definition slice_val :: "('a \<Rightarrow> goval) \<Rightarrow> 'a list option \<Rightarrow> goval" where
  "slice_val f xs = (case xs of None \<Rightarrow> VNil | Some ys \<Rightarrow> VSlice (map f ys))"

section \<open>The structs\<close>

record Rates =
  rt_Input :: int
  rt_CachedInput :: int
  rt_CacheCreation :: int
  rt_Output :: int

definition Rates_type :: gotype where
  "Rates_type = GStruct ''Rates''
     [(''input_micro_per_million'', GInt64, noTag), (''cached_input_micro_per_million'', GInt64, noTag),
      (''cache_creation_micro_per_million'', GInt64, noTag), (''output_micro_per_million'', GInt64, noTag)]"

definition Rates_val :: "Rates \<Rightarrow> goval" where
  "Rates_val r = VStruct ''Rates''
     [(''input_micro_per_million'', VInt (rt_Input r)), (''cached_input_micro_per_million'', VInt (rt_CachedInput r)),
      (''cache_creation_micro_per_million'', VInt (rt_CacheCreation r)), (''output_micro_per_million'', VInt (rt_Output r))]"

definition Rates_of :: "goval \<Rightarrow> Rates" where
  "Rates_of v = \<lparr>rt_Input = asInt (fld ''input_micro_per_million'' v), rt_CachedInput = asInt (fld ''cached_input_micro_per_million'' v),
     rt_CacheCreation = asInt (fld ''cache_creation_micro_per_million'' v), rt_Output = asInt (fld ''output_micro_per_million'' v)\<rparr>"

record BillTier =
  ti_MaxPromptTokens :: "int option"
  ti_Rates :: Rates

definition Tier_type :: gotype where
  "Tier_type = GStruct ''Tier'' [(''max_prompt_tokens'', GPtr GInt64, noTag), (''rates'', Rates_type, noTag)]"

definition Tier_val :: "BillTier \<Rightarrow> goval" where
  "Tier_val t = VStruct ''Tier''
     [(''max_prompt_tokens'', VPtr (map_option VInt (ti_MaxPromptTokens t))), (''rates'', Rates_val (ti_Rates t))]"

definition Tier_of :: "goval \<Rightarrow> BillTier" where
  "Tier_of v = \<lparr>ti_MaxPromptTokens = map_option asInt (asPtr (fld ''max_prompt_tokens'' v)), ti_Rates = Rates_of (fld ''rates'' v)\<rparr>"

record BillCandidate =
  bc_EndpointID :: string
  bc_Provider :: string
  bc_ModelID :: string
  bc_UsageType :: string
  bc_PriceHistoryVersion :: int
  bc_Rates :: Rates
  bc_Tiers :: "BillTier list option"
  bc_RequestFeeMicro :: int
  bc_Rounding :: string
  bc_PromptConvention :: string
  bc_OutputConvention :: string

definition Candidate_type :: gotype where
  "Candidate_type = GStruct ''Candidate''
     [(''endpoint_id'', GString, checkTag ''identity''), (''provider'', GString, literalTag [''openai'', ''anthropic'']),
      (''model_id'', GString, checkTag ''identity''), (''usage_type'', GString, literalTag [''Credits'']),
      (''price_history_version'', GInt64, literalTag [''1'']), (''rates'', Rates_type, noTag),
      (''tiers'', GSlice Tier_type, boundsTag ''0,64''), (''request_fee_micro'', GInt64, noTag),
      (''rounding'', GString, literalTag [''half_up_per_million'']),
      (''prompt_convention'', GString, literalTag [''includes_cache'', ''excludes_cache'']),
      (''output_convention'', GString, literalTag [''includes_reasoning''])]"

definition Candidate_val :: "BillCandidate \<Rightarrow> goval" where
  "Candidate_val c = VStruct ''Candidate''
     [(''endpoint_id'', VStr (bc_EndpointID c)), (''provider'', VStr (bc_Provider c)), (''model_id'', VStr (bc_ModelID c)),
      (''usage_type'', VStr (bc_UsageType c)), (''price_history_version'', VInt (bc_PriceHistoryVersion c)),
      (''rates'', Rates_val (bc_Rates c)), (''tiers'', slice_val Tier_val (bc_Tiers c)),
      (''request_fee_micro'', VInt (bc_RequestFeeMicro c)), (''rounding'', VStr (bc_Rounding c)),
      (''prompt_convention'', VStr (bc_PromptConvention c)), (''output_convention'', VStr (bc_OutputConvention c))]"

definition Candidate_of :: "goval \<Rightarrow> BillCandidate" where
  "Candidate_of v = \<lparr>bc_EndpointID = asStr (fld ''endpoint_id'' v), bc_Provider = asStr (fld ''provider'' v),
     bc_ModelID = asStr (fld ''model_id'' v), bc_UsageType = asStr (fld ''usage_type'' v),
     bc_PriceHistoryVersion = asInt (fld ''price_history_version'' v), bc_Rates = Rates_of (fld ''rates'' v),
     bc_Tiers = map_option (map Tier_of) (asSlice (fld ''tiers'' v)), bc_RequestFeeMicro = asInt (fld ''request_fee_micro'' v),
     bc_Rounding = asStr (fld ''rounding'' v), bc_PromptConvention = asStr (fld ''prompt_convention'' v),
     bc_OutputConvention = asStr (fld ''output_convention'' v)\<rparr>"

record snapshotData =
  sd_V :: int
  sd_Kind :: string
  sd_Candidates :: "BillCandidate list option"
  sd_MinimumCharge :: string
  sd_ChargeCap :: goval
  sd_TierBasis :: string
  sd_TierBoundary :: string
  sd_TierFallback :: string

definition snapshot_type :: gotype where
  "snapshot_type = GStruct ''snapshotData''
     [(''v'', GInt64, literalTag [''1'']), (''kind'', GString, literalTag [''credits_endpoint'']),
      (''candidates'', GSlice Candidate_type, boundsTag ''1,64''),
      (''minimum_charge'', GString, literalTag [''one_micro_if_positive'']), (''charge_cap'', GAny, checkTag ''null''),
      (''tier_basis'', GString, literalTag [''total_prompt'']), (''tier_boundary'', GString, literalTag [''inclusive'']),
      (''tier_fallback'', GString, literalTag [''last_tier''])]"

definition snapshot_val :: "snapshotData \<Rightarrow> goval" where
  "snapshot_val d = VStruct ''snapshotData''
     [(''v'', VInt (sd_V d)), (''kind'', VStr (sd_Kind d)), (''candidates'', slice_val Candidate_val (sd_Candidates d)),
      (''minimum_charge'', VStr (sd_MinimumCharge d)), (''charge_cap'', sd_ChargeCap d), (''tier_basis'', VStr (sd_TierBasis d)),
      (''tier_boundary'', VStr (sd_TierBoundary d)), (''tier_fallback'', VStr (sd_TierFallback d))]"

definition snapshot_of :: "goval \<Rightarrow> snapshotData" where
  "snapshot_of v = \<lparr>sd_V = asInt (fld ''v'' v), sd_Kind = asStr (fld ''kind'' v),
     sd_Candidates = map_option (map Candidate_of) (asSlice (fld ''candidates'' v)),
     sd_MinimumCharge = asStr (fld ''minimum_charge'' v), sd_ChargeCap = fld ''charge_cap'' v,
     sd_TierBasis = asStr (fld ''tier_basis'' v), sd_TierBoundary = asStr (fld ''tier_boundary'' v),
     sd_TierFallback = asStr (fld ''tier_fallback'' v)\<rparr>"

record RawUsage =
  ru_InputTokens :: int
  ru_OutputTokens :: int
  ru_CacheReadTokens :: int
  ru_CacheCreationTokens :: int
  ru_ReasoningTokens :: int

definition RawUsage_type :: gotype where
  "RawUsage_type = GStruct ''RawUsage''
     [(''input_tokens'', GInt64, noTag), (''output_tokens'', GInt64, noTag),
      (''cache_read_tokens'', GInt64, defaultTag (JNum ''0'')), (''cache_creation_tokens'', GInt64, defaultTag (JNum ''0'')),
      (''reasoning_tokens'', GInt64, defaultTag (JNum ''0''))]"

definition RawUsage_val :: "RawUsage \<Rightarrow> goval" where
  "RawUsage_val u = VStruct ''RawUsage''
     [(''input_tokens'', VInt (ru_InputTokens u)), (''output_tokens'', VInt (ru_OutputTokens u)),
      (''cache_read_tokens'', VInt (ru_CacheReadTokens u)), (''cache_creation_tokens'', VInt (ru_CacheCreationTokens u)),
      (''reasoning_tokens'', VInt (ru_ReasoningTokens u))]"

definition RawUsage_of :: "goval \<Rightarrow> RawUsage" where
  "RawUsage_of v = \<lparr>ru_InputTokens = asInt (fld ''input_tokens'' v), ru_OutputTokens = asInt (fld ''output_tokens'' v),
     ru_CacheReadTokens = asInt (fld ''cache_read_tokens'' v), ru_CacheCreationTokens = asInt (fld ''cache_creation_tokens'' v),
     ru_ReasoningTokens = asInt (fld ''reasoning_tokens'' v)\<rparr>"

record NormalizedUsage =
  nu_UncachedInputTokens :: int
  nu_TotalPromptTokens :: int
  nu_OutputTokens :: int
  nu_CacheReadTokens :: int
  nu_CacheCreationTokens :: int
  nu_ReasoningTokens :: int

definition NormalizedUsage_type :: gotype where
  "NormalizedUsage_type = GStruct ''NormalizedUsage''
     [(''uncached_input_tokens'', GInt64, noTag), (''total_prompt_tokens'', GInt64, noTag), (''output_tokens'', GInt64, noTag),
      (''cache_read_tokens'', GInt64, noTag), (''cache_creation_tokens'', GInt64, noTag), (''reasoning_tokens'', GInt64, noTag)]"

definition NormalizedUsage_val :: "NormalizedUsage \<Rightarrow> goval" where
  "NormalizedUsage_val u = VStruct ''NormalizedUsage''
     [(''uncached_input_tokens'', VInt (nu_UncachedInputTokens u)), (''total_prompt_tokens'', VInt (nu_TotalPromptTokens u)),
      (''output_tokens'', VInt (nu_OutputTokens u)), (''cache_read_tokens'', VInt (nu_CacheReadTokens u)),
      (''cache_creation_tokens'', VInt (nu_CacheCreationTokens u)), (''reasoning_tokens'', VInt (nu_ReasoningTokens u))]"

definition NormalizedUsage_of :: "goval \<Rightarrow> NormalizedUsage" where
  "NormalizedUsage_of v = \<lparr>nu_UncachedInputTokens = asInt (fld ''uncached_input_tokens'' v),
     nu_TotalPromptTokens = asInt (fld ''total_prompt_tokens'' v), nu_OutputTokens = asInt (fld ''output_tokens'' v),
     nu_CacheReadTokens = asInt (fld ''cache_read_tokens'' v), nu_CacheCreationTokens = asInt (fld ''cache_creation_tokens'' v),
     nu_ReasoningTokens = asInt (fld ''reasoning_tokens'' v)\<rparr>"

record Evaluation =
  ev_Usage :: NormalizedUsage
  ev_ChargeMicro :: int

record Eligibility =
  el_Typed :: bool
  el_UsageType :: string
  el_Authority :: string
  el_RouteType :: string
  el_Streamed :: bool
  el_ServiceTier :: "string option"
  el_AppMarkup :: int
  el_CustomMarkup :: int
  el_ReceiptFee :: int
  el_RequestFee :: int
  el_CustomModel :: bool
  el_UserModel :: bool
  el_ToolCost :: bool
  el_SearchCost :: bool
  el_ImageCost :: bool
  el_VideoCost :: bool
  el_Partner :: bool
  el_Liberty :: bool
  el_NativeBatch :: bool
  el_Fusion :: bool
  el_Polyphemus :: bool
  el_PrivateTierBasis :: bool

definition Eligibility_type :: gotype where
  "Eligibility_type = GStruct ''Eligibility''
     [(''typed'', GBool, defaultTag (JBool True)), (''usage_type'', GString, defaultTag (JStr ''Credits'')),
      (''authority'', GString, defaultTag (JStr ''local'')), (''route_type'', GString, defaultTag (JStr ''chat.completions'')),
      (''streamed'', GBool, defaultTag (JBool False)), (''service_tier'', GPtr GString, defaultTag JNull),
      (''app_markup'', GInt64, defaultTag (JNum ''0'')), (''custom_markup'', GInt64, defaultTag (JNum ''0'')),
      (''receipt_fee'', GInt64, defaultTag (JNum ''0'')), (''request_fee'', GInt64, defaultTag (JNum ''0'')),
      (''custom_model'', GBool, defaultTag (JBool False)), (''user_model'', GBool, defaultTag (JBool False)),
      (''tool_cost'', GBool, defaultTag (JBool False)), (''search_cost'', GBool, defaultTag (JBool False)),
      (''image_cost'', GBool, defaultTag (JBool False)), (''video_cost'', GBool, defaultTag (JBool False)),
      (''partner'', GBool, defaultTag (JBool False)), (''liberty'', GBool, defaultTag (JBool False)),
      (''native_batch'', GBool, defaultTag (JBool False)), (''fusion'', GBool, defaultTag (JBool False)),
      (''polyphemus'', GBool, defaultTag (JBool False)), (''private_tier_basis'', GBool, defaultTag (JBool False))]"

definition Eligibility_val :: "Eligibility \<Rightarrow> goval" where
  "Eligibility_val e = VStruct ''Eligibility''
     [(''typed'', VBool (el_Typed e)), (''usage_type'', VStr (el_UsageType e)), (''authority'', VStr (el_Authority e)),
      (''route_type'', VStr (el_RouteType e)), (''streamed'', VBool (el_Streamed e)),
      (''service_tier'', VPtr (map_option VStr (el_ServiceTier e))), (''app_markup'', VInt (el_AppMarkup e)),
      (''custom_markup'', VInt (el_CustomMarkup e)), (''receipt_fee'', VInt (el_ReceiptFee e)),
      (''request_fee'', VInt (el_RequestFee e)), (''custom_model'', VBool (el_CustomModel e)),
      (''user_model'', VBool (el_UserModel e)), (''tool_cost'', VBool (el_ToolCost e)), (''search_cost'', VBool (el_SearchCost e)),
      (''image_cost'', VBool (el_ImageCost e)), (''video_cost'', VBool (el_VideoCost e)), (''partner'', VBool (el_Partner e)),
      (''liberty'', VBool (el_Liberty e)), (''native_batch'', VBool (el_NativeBatch e)), (''fusion'', VBool (el_Fusion e)),
      (''polyphemus'', VBool (el_Polyphemus e)), (''private_tier_basis'', VBool (el_PrivateTierBasis e))]"

definition Eligibility_of :: "goval \<Rightarrow> Eligibility" where
  "Eligibility_of v = \<lparr>el_Typed = asBool (fld ''typed'' v), el_UsageType = asStr (fld ''usage_type'' v),
     el_Authority = asStr (fld ''authority'' v), el_RouteType = asStr (fld ''route_type'' v), el_Streamed = asBool (fld ''streamed'' v),
     el_ServiceTier = map_option asStr (asPtr (fld ''service_tier'' v)), el_AppMarkup = asInt (fld ''app_markup'' v),
     el_CustomMarkup = asInt (fld ''custom_markup'' v), el_ReceiptFee = asInt (fld ''receipt_fee'' v),
     el_RequestFee = asInt (fld ''request_fee'' v), el_CustomModel = asBool (fld ''custom_model'' v),
     el_UserModel = asBool (fld ''user_model'' v), el_ToolCost = asBool (fld ''tool_cost'' v), el_SearchCost = asBool (fld ''search_cost'' v),
     el_ImageCost = asBool (fld ''image_cost'' v), el_VideoCost = asBool (fld ''video_cost'' v), el_Partner = asBool (fld ''partner'' v),
     el_Liberty = asBool (fld ''liberty'' v), el_NativeBatch = asBool (fld ''native_batch'' v), el_Fusion = asBool (fld ''fusion'' v),
     el_Polyphemus = asBool (fld ''polyphemus'' v), el_PrivateTierBasis = asBool (fld ''private_tier_basis'' v)\<rparr>"

record TerminalEnvelope =
  te_V :: int
  te_AuthorizationID :: string
  te_GenerationID :: string
  te_WorkspaceID :: string
  te_KeyID :: string
  te_InvocationNonce :: string
  te_BillingAuthority :: string
  te_JournalRegion :: string
  te_Epoch :: int
  te_SelectedEndpoint :: string
  te_SnapshotVersion :: int
  te_SnapshotHash :: string
  te_Usage :: NormalizedUsage
  te_ChargeMicro :: int
  te_TerminalKind :: string
  te_RouteType :: string
  te_Streamed :: bool

definition Envelope_type :: gotype where
  "Envelope_type = GStruct ''TerminalEnvelope''
     [(''v'', GInt64, literalTag [''1'']), (''authorization_id'', GString, checkTag ''identity''),
      (''generation_id'', GString, checkTag ''identity''), (''workspace_id'', GString, checkTag ''identity''),
      (''key_id'', GString, checkTag ''identity''), (''invocation_nonce'', GString, checkTag ''nonce''),
      (''billing_authority'', GString, literalTag [''local'']), (''journal_region'', GString, checkTag ''identity''),
      (''epoch'', GInt64, noTag), (''selected_endpoint'', GString, checkTag ''identity''),
      (''snapshot_version'', GInt64, literalTag [''1'']), (''snapshot_hash'', GString, checkTag ''digest''),
      (''usage'', NormalizedUsage_type, noTag), (''charge_micro'', GInt64, noTag),
      (''terminal_kind'', GString, literalTag [''settle'', ''refund'']),
      (''route_type'', GString, literalTag [''chat.completions'', ''responses'']), (''streamed'', GBool, noTag)]"

definition Envelope_val :: "TerminalEnvelope \<Rightarrow> goval" where
  "Envelope_val e = VStruct ''TerminalEnvelope''
     [(''v'', VInt (te_V e)), (''authorization_id'', VStr (te_AuthorizationID e)), (''generation_id'', VStr (te_GenerationID e)),
      (''workspace_id'', VStr (te_WorkspaceID e)), (''key_id'', VStr (te_KeyID e)), (''invocation_nonce'', VStr (te_InvocationNonce e)),
      (''billing_authority'', VStr (te_BillingAuthority e)), (''journal_region'', VStr (te_JournalRegion e)), (''epoch'', VInt (te_Epoch e)),
      (''selected_endpoint'', VStr (te_SelectedEndpoint e)), (''snapshot_version'', VInt (te_SnapshotVersion e)),
      (''snapshot_hash'', VStr (te_SnapshotHash e)), (''usage'', NormalizedUsage_val (te_Usage e)), (''charge_micro'', VInt (te_ChargeMicro e)),
      (''terminal_kind'', VStr (te_TerminalKind e)), (''route_type'', VStr (te_RouteType e)), (''streamed'', VBool (te_Streamed e))]"

definition Envelope_of :: "goval \<Rightarrow> TerminalEnvelope" where
  "Envelope_of v = \<lparr>te_V = asInt (fld ''v'' v), te_AuthorizationID = asStr (fld ''authorization_id'' v),
     te_GenerationID = asStr (fld ''generation_id'' v), te_WorkspaceID = asStr (fld ''workspace_id'' v), te_KeyID = asStr (fld ''key_id'' v),
     te_InvocationNonce = asStr (fld ''invocation_nonce'' v), te_BillingAuthority = asStr (fld ''billing_authority'' v),
     te_JournalRegion = asStr (fld ''journal_region'' v), te_Epoch = asInt (fld ''epoch'' v),
     te_SelectedEndpoint = asStr (fld ''selected_endpoint'' v), te_SnapshotVersion = asInt (fld ''snapshot_version'' v),
     te_SnapshotHash = asStr (fld ''snapshot_hash'' v), te_Usage = NormalizedUsage_of (fld ''usage'' v),
     te_ChargeMicro = asInt (fld ''charge_micro'' v), te_TerminalKind = asStr (fld ''terminal_kind'' v),
     te_RouteType = asStr (fld ''route_type'' v), te_Streamed = asBool (fld ''streamed'' v)\<rparr>"

record AcceptanceOutcome =
  ao_Status :: string
  ao_PayloadHash :: "string option"
  ao_SettlementStatus :: "string option"

definition Acceptance_type :: gotype where
  "Acceptance_type = GStruct ''AcceptanceOutcome''
     [(''status'', GString, literalTag [''accepted'', ''duplicate'', ''sync_required'', ''conflict'', ''invalid'']),
      (''payload_hash'', GPtr GString, (checkTag ''digest'')\<lparr>ft_default := Some JNull\<rparr>),
      (''settlement_status'', GPtr GString, (literalTag [''pending''])\<lparr>ft_default := Some JNull\<rparr>)]"

definition Acceptance_val :: "AcceptanceOutcome \<Rightarrow> goval" where
  "Acceptance_val a = VStruct ''AcceptanceOutcome''
     [(''status'', VStr (ao_Status a)), (''payload_hash'', VPtr (map_option VStr (ao_PayloadHash a))),
      (''settlement_status'', VPtr (map_option VStr (ao_SettlementStatus a)))]"

definition Acceptance_of :: "goval \<Rightarrow> AcceptanceOutcome" where
  "Acceptance_of v = \<lparr>ao_Status = asStr (fld ''status'' v), ao_PayloadHash = map_option asStr (asPtr (fld ''payload_hash'' v)),
     ao_SettlementStatus = map_option asStr (asPtr (fld ''settlement_status'' v))\<rparr>"

record EndpointTier =
  et_MaxPromptTokens :: "int option"
  et_InputMicroPerMillion :: int
  et_OutputMicroPerMillion :: int
  et_CachedInputMicroPerMillion :: "int option"

record Endpoint =
  ep_ID :: string
  ep_Provider :: string
  ep_ModelID :: string
  ep_UsageType :: string
  ep_InputMicroPerMillion :: int
  ep_OutputMicroPerMillion :: int
  ep_RequestFeeMicro :: int
  ep_Tiers :: "EndpointTier list option"

definition EndpointTier_type :: gotype where
  "EndpointTier_type = GStruct ''EndpointTier''
     [(''max_prompt_tokens'', GPtr GInt64, noTag), (''prompt_price_microdollars_per_million_tokens'', GInt64, noTag),
      (''completion_price_microdollars_per_million_tokens'', GInt64, noTag),
      (''prompt_cached_price_microdollars_per_million_tokens'', GPtr GInt64, noTag)]"

definition EndpointTier_val :: "EndpointTier \<Rightarrow> goval" where
  "EndpointTier_val t = VStruct ''EndpointTier''
     [(''max_prompt_tokens'', VPtr (map_option VInt (et_MaxPromptTokens t))),
      (''prompt_price_microdollars_per_million_tokens'', VInt (et_InputMicroPerMillion t)),
      (''completion_price_microdollars_per_million_tokens'', VInt (et_OutputMicroPerMillion t)),
      (''prompt_cached_price_microdollars_per_million_tokens'', VPtr (map_option VInt (et_CachedInputMicroPerMillion t)))]"

definition EndpointTier_of :: "goval \<Rightarrow> EndpointTier" where
  "EndpointTier_of v = \<lparr>et_MaxPromptTokens = map_option asInt (asPtr (fld ''max_prompt_tokens'' v)),
     et_InputMicroPerMillion = asInt (fld ''prompt_price_microdollars_per_million_tokens'' v),
     et_OutputMicroPerMillion = asInt (fld ''completion_price_microdollars_per_million_tokens'' v),
     et_CachedInputMicroPerMillion = map_option asInt (asPtr (fld ''prompt_cached_price_microdollars_per_million_tokens'' v))\<rparr>"

definition Endpoint_type :: gotype where
  "Endpoint_type = GStruct ''Endpoint''
     [(''id'', GString, checkTag ''identity''), (''provider'', GString, literalTag [''openai'', ''anthropic'']),
      (''model_id'', GString, checkTag ''identity''), (''usage_type'', GString, literalTag [''Credits'']),
      (''prompt_price_microdollars_per_million_tokens'', GInt64, noTag),
      (''completion_price_microdollars_per_million_tokens'', GInt64, noTag), (''request_price_microdollars'', GInt64, noTag),
      (''price_tiers'', GSlice EndpointTier_type, boundsTag ''0,64'')]"

definition Endpoint_val :: "Endpoint \<Rightarrow> goval" where
  "Endpoint_val e = VStruct ''Endpoint''
     [(''id'', VStr (ep_ID e)), (''provider'', VStr (ep_Provider e)), (''model_id'', VStr (ep_ModelID e)),
      (''usage_type'', VStr (ep_UsageType e)), (''prompt_price_microdollars_per_million_tokens'', VInt (ep_InputMicroPerMillion e)),
      (''completion_price_microdollars_per_million_tokens'', VInt (ep_OutputMicroPerMillion e)),
      (''request_price_microdollars'', VInt (ep_RequestFeeMicro e)), (''price_tiers'', slice_val EndpointTier_val (ep_Tiers e))]"

definition Endpoint_of :: "goval \<Rightarrow> Endpoint" where
  "Endpoint_of v = \<lparr>ep_ID = asStr (fld ''id'' v), ep_Provider = asStr (fld ''provider'' v), ep_ModelID = asStr (fld ''model_id'' v),
     ep_UsageType = asStr (fld ''usage_type'' v), ep_InputMicroPerMillion = asInt (fld ''prompt_price_microdollars_per_million_tokens'' v),
     ep_OutputMicroPerMillion = asInt (fld ''completion_price_microdollars_per_million_tokens'' v),
     ep_RequestFeeMicro = asInt (fld ''request_price_microdollars'' v),
     ep_Tiers = map_option (map EndpointTier_of) (asSlice (fld ''price_tiers'' v))\<rparr>"

end
