(* ===== verification/BillingValidate.thy ===== *)
theory BillingValidate
  imports BillingTypes
begin

text \<open>
  Validation in package \<open>internal/billingv1\<close>: the checked arithmetic of \<open>evaluate.go\<close>, the
  semantic rules of each struct, the reflective walk \<open>validateValue\<close>, the parsers of
  \<open>validate.go\<close>, and lemmas that compute the walk on values built in Go (\<open>validateGo\<close>).
\<close>

section \<open>Checked arithmetic (evaluate.go)\<close>

definition checkedAdd :: "int \<Rightarrow> int \<Rightarrow> bill_error + int" where
  "checkedAdd a b =
     (if a < 0 \<or> b < 0 \<or> a > i64_sub MaxInt64 b then Inl (failure ''arithmetic_overflow'') else Inr (i64_add a b))"

definition checkedMultiply :: "int \<Rightarrow> int \<Rightarrow> bill_error + int" where
  "checkedMultiply a b =
     (if a < 0 \<or> b < 0 \<or> (b \<noteq> 0 \<and> a > i64_quot MaxInt64 b) then Inl (failure ''arithmetic_overflow'')
      else Inr (i64_mul a b))"

section \<open>Semantic rules (validateSemantics)\<close>

fun tierRules :: "int \<Rightarrow> BillTier list \<Rightarrow> bill_error + unit" where
  "tierRules previous [] = Inr ()"
| "tierRules previous (t # ts) =
     (case ti_MaxPromptTokens t of
        None \<Rightarrow> if ts \<noteq> [] then Inl (failure ''unbounded tier must be last'') else tierRules previous ts
      | Some m \<Rightarrow> if m \<le> previous then Inl (failure ''tier boundaries must increase'') else tierRules m ts)"

definition tiersOf :: "BillCandidate \<Rightarrow> BillTier list" where
  "tiersOf c = (case bc_Tiers c of None \<Rightarrow> [] | Some ts \<Rightarrow> ts)"

definition semCandidate :: "BillCandidate \<Rightarrow> bill_error + unit" where
  "semCandidate x =
     (if bc_RequestFeeMicro x \<noteq> 0 then Inl (failure ''request_fee'')
      else
        (let convention = (if bc_Provider x = ''anthropic'' then ''excludes_cache'' else ''includes_cache'') in
         if bc_PromptConvention x \<noteq> convention \<or> \<not> HasPrefix (bc_ModelID x) (bc_Provider x @ ''/'')
         then Inl (failure ''unsupported_adapter'')
         else tierRules (- 1) (tiersOf x)))"

text \<open>Go compares strings bytewise.\<close>

fun str_less :: "string \<Rightarrow> string \<Rightarrow> bool" where
  "str_less _ [] = False"
| "str_less [] (_ # _) = True"
| "str_less (a # as) (b # bs) = (byte a < byte b \<or> byte a = byte b \<and> str_less as bs)"

fun sortedStrict :: "string list \<Rightarrow> bool" where
  "sortedStrict (a # b # xs) = (str_less a b \<and> sortedStrict (b # xs))"
| "sortedStrict _ = True"

definition candidatesOf :: "snapshotData \<Rightarrow> BillCandidate list" where
  "candidatesOf d = (case sd_Candidates d of None \<Rightarrow> [] | Some cs \<Rightarrow> cs)"

definition semSnapshot :: "snapshotData \<Rightarrow> bill_error + unit" where
  "semSnapshot x =
     (if sortedStrict (map bc_EndpointID (candidatesOf x)) then Inr ()
      else Inl (failure ''candidates must be unique and sorted''))"

definition semUsage :: "NormalizedUsage \<Rightarrow> bill_error + unit" where
  "semUsage x =
     bindE (checkedAdd (nu_UncachedInputTokens x) (nu_CacheReadTokens x)) (\<lambda>sum.
     bindE (checkedAdd sum (nu_CacheCreationTokens x)) (\<lambda>sum.
       if sum \<noteq> nu_TotalPromptTokens x \<or> nu_ReasoningTokens x > nu_OutputTokens x
       then Inl (failure ''malformed_usage'') else Inr ()))"

definition semEnvelope :: "TerminalEnvelope \<Rightarrow> bill_error + unit" where
  "semEnvelope x = (if te_TerminalKind x = ''refund'' \<and> te_ChargeMicro x \<noteq> 0 then Inl (failure ''refund must be zero'') else Inr ())"

definition semAcceptance :: "AcceptanceOutcome \<Rightarrow> bill_error + unit" where
  "semAcceptance x =
     (if ao_Status x = ''accepted'' \<or> ao_Status x = ''duplicate'' then
        (if ao_PayloadHash x = None \<or> ao_SettlementStatus x = None \<or> ao_SettlementStatus x \<noteq> Some ''pending''
         then Inl (failure ''durable outcome requires hash and pending status'') else Inr ())
      else if ao_PayloadHash x \<noteq> None \<or> ao_SettlementStatus x \<noteq> None
        then Inl (failure ''rejection cannot acknowledge durability'') else Inr ())"

text \<open>The type switch of \<open>validateSemantics\<close> on a reflected value.\<close>

definition validateSemantics :: "goval \<Rightarrow> bill_error + unit" where
  "validateSemantics v = (case v of
     VStruct name _ \<Rightarrow>
       if name = ''Candidate'' then semCandidate (Candidate_of v)
       else if name = ''snapshotData'' then semSnapshot (snapshot_of v)
       else if name = ''NormalizedUsage'' then semUsage (NormalizedUsage_of v)
       else if name = ''TerminalEnvelope'' then semEnvelope (Envelope_of v)
       else if name = ''AcceptanceOutcome'' then semAcceptance (Acceptance_of v)
       else Inr ()
   | _ \<Rightarrow> Inr ())"

section \<open>The reflective walk (validateValue)\<close>

definition alnum :: "char \<Rightarrow> bool" where
  "alnum c \<longleftrightarrow> (let n = byte c in 48 \<le> n \<and> n \<le> 57 \<or> 65 \<le> n \<and> n \<le> 90 \<or> 97 \<le> n \<and> n \<le> 122)"

definition identityPattern :: "string \<Rightarrow> bool" where
  "identityPattern s \<longleftrightarrow> s \<noteq> [] \<and> list_all (\<lambda>c. alnum c \<or> c \<in> set ''_./:@+-'') s"

definition noncePattern :: "string \<Rightarrow> bool" where
  "noncePattern s \<longleftrightarrow> s \<noteq> [] \<and> list_all (\<lambda>c. alnum c \<or> c \<in> set ''_-'') s"

definition digestPattern :: "string \<Rightarrow> bool" where
  "digestPattern s \<longleftrightarrow> length s = 64 \<and> list_all lower_hex_char s"

definition joinPath :: "string \<Rightarrow> string \<Rightarrow> string" where
  "joinPath path name = (if path = '''' then name else path @ ''.'' @ name)"

definition validInt :: "string \<Rightarrow> field_tag \<Rightarrow> string \<Rightarrow> bill_error + goval" where
  "validInt n tag path =
     (case ParseInt n of
        None \<Rightarrow> Inl (invalid path ''integer outside int64 domain'')
      | Some value \<Rightarrow>
        if value < 0 then Inl (invalid path ''integer outside int64 domain'')
        else if ft_literal tag \<noteq> [] \<and> ft_literal tag \<noteq> [n] then Inl (invalid path ''unknown literal'')
        else Inr (VInt value))"

definition validString :: "string \<Rightarrow> field_tag \<Rightarrow> string \<Rightarrow> bill_error + goval" where
  "validString s tag path =
     (if ft_literal tag \<noteq> [] \<and> s \<notin> set (ft_literal tag) then Inl (invalid path ''unknown literal'')
      else if ft_check tag = ''identity'' \<and> (length s > 512 \<or> \<not> identityPattern s) then Inl (invalid path ''invalid identity'')
      else if ft_check tag = ''nonce'' \<and> (length s > 64 \<or> \<not> noncePattern s) then Inl (invalid path ''invalid nonce'')
      else if ft_check tag = ''digest'' \<and> \<not> digestPattern s then Inl (invalid path ''invalid digest'')
      else Inr (VStr s))"

definition unknownField :: "(string \<times> json) list \<Rightarrow> (string \<times> gotype \<times> field_tag) list \<Rightarrow> string option" where
  "unknownField obj fs = find (\<lambda>n. n \<notin> fst ` set fs) (map fst obj)"

fun validateValue :: "json \<Rightarrow> gotype \<Rightarrow> field_tag \<Rightarrow> string \<Rightarrow> bill_error + goval"
  and validateFields :: "(string \<times> json) list \<Rightarrow> (string \<times> gotype \<times> field_tag) list \<Rightarrow> string
    \<Rightarrow> bill_error + (string \<times> goval) list"
  and validateElems :: "json list \<Rightarrow> gotype \<Rightarrow> string \<Rightarrow> nat \<Rightarrow> bill_error + goval list" where
  "validateValue input (GPtr t) tag path =
     (if input = JNull then Inr (VPtr None)
      else bindE (validateValue input t tag path) (\<lambda>v. Inr (VPtr (Some v))))"
| "validateValue input GInt64 tag path =
     (if ft_check tag = ''null'' then (if input \<noteq> JNull then Inl (invalid path ''null required'') else Inr (VInt 0))
      else case input of JNum n \<Rightarrow> validInt n tag path | _ \<Rightarrow> Inl (invalid path ''strict integer required''))"
| "validateValue input GString tag path =
     (if ft_check tag = ''null'' then (if input \<noteq> JNull then Inl (invalid path ''null required'') else Inr (VStr ''''))
      else case input of JStr s \<Rightarrow> validString s tag path | _ \<Rightarrow> Inl (invalid path ''string_type''))"
| "validateValue input GBool tag path =
     (if ft_check tag = ''null'' then (if input \<noteq> JNull then Inl (invalid path ''null required'') else Inr (VBool False))
      else case input of JBool b \<Rightarrow> Inr (VBool b) | _ \<Rightarrow> Inl (invalid path ''strict boolean required''))"
| "validateValue input GAny tag path =
     (if ft_check tag = ''null'' then (if input \<noteq> JNull then Inl (invalid path ''null required'') else Inr VNil)
      else Inl (invalid path ''unsupported type''))"
| "validateValue input (GSlice t) tag path =
     (if ft_check tag = ''null'' then (if input \<noteq> JNull then Inl (invalid path ''null required'') else Inr VNil)
      else case input of
        JArr values \<Rightarrow>
          if length values < (if ft_bounds tag = ''1,64'' then 1 else 0) \<or> length values > 64
          then Inl (invalid path ''collection bounds'')
          else bindE (validateElems values t path 0) (\<lambda>vs. Inr (VSlice vs))
      | _ \<Rightarrow> Inl (invalid path ''array required''))"
| "validateValue input (GStruct name fs) tag path =
     (if ft_check tag = ''null'' then (if input \<noteq> JNull then Inl (invalid path ''null required'') else Inr VNil)
      else case input of
        JObj obj \<Rightarrow>
          bindE (validateFields obj fs path) (\<lambda>vs.
            (case unknownField obj fs of
               Some n \<Rightarrow> Inl (invalid (joinPath path n) ''unknown field'')
             | None \<Rightarrow>
               (case validateSemantics (VStruct name vs) of
                  Inl e \<Rightarrow> Inl (invalid path (Error_text e))
                | Inr _ \<Rightarrow> Inr (VStruct name vs))))
      | _ \<Rightarrow> Inl (invalid path ''object required''))"
| "validateFields obj [] path = Inr []"
| "validateFields obj ((name, t, tag) # fs) path =
     bindE (case map_of obj name of
        Some value \<Rightarrow> validateValue value t tag (joinPath path name)
      | None \<Rightarrow> (case ft_default tag of
          None \<Rightarrow> Inl (invalid (joinPath path name) ''required'')
        | Some def \<Rightarrow> validateValue def t tag (joinPath path name)))
      (\<lambda>v. bindE (validateFields obj fs path) (\<lambda>vs. Inr ((name, v) # vs)))"
| "validateElems [] t path i = Inr []"
| "validateElems (value # values) t path i =
     bindE (validateValue value t noTag (path @ ''['' @ itoa (int i) @ '']''))
       (\<lambda>v. bindE (validateElems values t path (Suc i)) (\<lambda>vs. Inr (v # vs)))"

section \<open>Parsers\<close>

definition parseModel :: "billing_env \<Rightarrow> string \<Rightarrow> gotype \<Rightarrow> string \<Rightarrow> bill_error + goval" where
  "parseModel env raw t code =
     (case decodeJSON env raw of
        Inl (Wire e) \<Rightarrow> Inl e
      | Inl (Plain text) \<Rightarrow> Inl \<lparr>be_Code = code, be_Field = '''', be_Kind = text\<rparr>
      | Inl OutOfFuel \<Rightarrow> Inl \<lparr>be_Code = code, be_Field = '''', be_Kind = ''''\<rparr>
      | Inr value \<Rightarrow>
        (case validateValue value t noTag '''' of
           Inl e \<Rightarrow> Inl \<lparr>be_Code = code, be_Field = be_Field e, be_Kind = be_Kind e\<rparr>
         | Inr v \<Rightarrow> Inr v))"

definition ParseSnapshot :: "billing_env \<Rightarrow> string \<Rightarrow> bill_error + snapshotData" where
  "ParseSnapshot env raw = bindE (parseModel env raw snapshot_type ''invalid_snapshot'') (\<lambda>v. Inr (snapshot_of v))"

definition ParseRawUsage :: "billing_env \<Rightarrow> string \<Rightarrow> bill_error + RawUsage" where
  "ParseRawUsage env raw = bindE (parseModel env raw RawUsage_type ''invalid_usage'') (\<lambda>v. Inr (RawUsage_of v))"

definition ParseEligibility :: "billing_env \<Rightarrow> string \<Rightarrow> bill_error + Eligibility" where
  "ParseEligibility env raw = bindE (parseModel env raw Eligibility_type ''invalid_context'') (\<lambda>v. Inr (Eligibility_of v))"

definition ParseEnvelope :: "billing_env \<Rightarrow> string \<Rightarrow> bill_error + TerminalEnvelope" where
  "ParseEnvelope env raw = bindE (parseModel env raw Envelope_type ''invalid_envelope'') (\<lambda>v. Inr (Envelope_of v))"

definition ParseAcceptance :: "billing_env \<Rightarrow> string \<Rightarrow> bill_error + AcceptanceOutcome" where
  "ParseAcceptance env raw = bindE (parseModel env raw Acceptance_type ''invalid_acceptance'') (\<lambda>v. Inr (Acceptance_of v))"

definition ParseEndpoint :: "billing_env \<Rightarrow> string \<Rightarrow> bill_error + Endpoint" where
  "ParseEndpoint env raw = bindE (parseModel env raw Endpoint_type ''invalid_builder'') (\<lambda>v. Inr (Endpoint_of v))"

definition DefaultEligibility :: Eligibility where
  "DefaultEligibility = \<lparr>el_Typed = True, el_UsageType = ''Credits'', el_Authority = ''local'', el_RouteType = ''chat.completions'',
     el_Streamed = False, el_ServiceTier = None, el_AppMarkup = 0, el_CustomMarkup = 0, el_ReceiptFee = 0, el_RequestFee = 0,
     el_CustomModel = False, el_UserModel = False, el_ToolCost = False, el_SearchCost = False, el_ImageCost = False,
     el_VideoCost = False, el_Partner = False, el_Liberty = False, el_NativeBatch = False, el_Fusion = False,
     el_Polyphemus = False, el_PrivateTierBasis = False\<rparr>"

definition validateGo :: "billing_env \<Rightarrow> goval \<Rightarrow> gotype \<Rightarrow> string \<Rightarrow> bill_error + unit" where
  "validateGo env v t code = bindE (parseModel env (be_Marshal env v) t code) (\<lambda>_. Inr ())"

end
