(* ===== verification/BillingLaws.thy ===== *)
theory BillingLaws
  imports BillingValidate
begin

text \<open>
  What \<open>encoding/json\<close> promises about the text of a Go value, and what follows for the
  validation of values built in Go and for values that were parsed.
\<close>

section \<open>The JSON of a Go value\<close>

definition encodeRune :: "nat option \<Rightarrow> string" where
  "encodeRune r = (case r of
     None \<Rightarrow> map char_of [0xef, 0xbf, 0xbd::nat]
   | Some n \<Rightarrow> map char_of
       (if n < 128 then [n]
        else if n < 2048 then [192 + n div 64, 128 + n mod 64]
        else if n < 65536 then [224 + n div 4096, 128 + n div 64 mod 64, 128 + n mod 64]
        else [240 + n div 262144, 128 + n div 4096 mod 64, 128 + n div 64 mod 64, 128 + n mod 64]))"

text \<open>Strings that are not UTF-8 are marshalled with U+FFFD for each bad byte.\<close>

definition utf8_coerce :: "string \<Rightarrow> string" where
  "utf8_coerce s = concat (map encodeRune (runes s))"

lemma utf8_coerce_ascii [simp]: "\<forall>c \<in> set s. byte c < 128 \<Longrightarrow> utf8_coerce s = s"
proof -
  assume a: "\<forall>c \<in> set s. byte c < 128"
  then have "encodeRune (Some (byte c)) = [c]" if "c \<in> set s" for c
    using that by (auto simp: encodeRune_def byte_def)
  then have "concat (map (\<lambda>c. encodeRune (Some (byte c))) t) = t" if "set t \<subseteq> set s" for t
    using that by (induction t) auto
  then show ?thesis using a by (simp add: utf8_coerce_def runes_ascii comp_def)
qed

fun json_of :: "goval \<Rightarrow> json" where
  "json_of (VInt n) = JNum (itoa n)"
| "json_of (VStr s) = JStr (utf8_coerce s)"
| "json_of (VBool b) = JBool b"
| "json_of VNil = JNull"
| "json_of (VPtr None) = JNull"
| "json_of (VPtr (Some v)) = json_of v"
| "json_of (VSlice vs) = JArr (map json_of vs)"
| "json_of (VStruct n fs) = JObj (map (\<lambda>f. (fst f, json_of (snd f))) fs)"

definition clean_text :: "string \<Rightarrow> bool" where
  "clean_text raw \<longleftrightarrow> utf8_Valid raw \<and> map byte (take 3 raw) \<noteq> [0xef, 0xbb, 0xbf] \<and> 0 \<notin> byte ` set raw
     \<and> validateStringEscapes raw = Inr ()"

text \<open>\<open>json.Marshal\<close> writes valid UTF-8 without NUL bytes or surrogate escapes, and the decoder
  reads the tokens of the marshalled value from it.\<close>

definition billing_laws :: "billing_env \<Rightarrow> bool" where
  "billing_laws env \<longleftrightarrow> (\<forall>v. clean_text (be_Marshal env v)
     \<and> be_tokens env (be_Marshal env v) = (tokens_of (json_of v), True))"

lemma decodeJSON_total: "decodeJSON env raw \<noteq> Inl OutOfFuel"
proof -
  obtain ts clean where t: "be_tokens env raw = (ts, clean)" by fastforce
  have "reads ts (readValue (2 * length ts + 2) 0 ts)" by (rule readValue_fuel) simp
  then show ?thesis by (auto simp: decodeJSON_def t reads_def split: sum.splits)
qed

lemma decodeJSON_Marshal:
  assumes "billing_laws env" "json_distinct (json_of v)" "json_depth (json_of v) \<le> 64"
  shows "decodeJSON env (be_Marshal env v) = Inr (json_of v)"
proof -
  have "readValue (2 * length (tokens_of (json_of v)) + 2) 0 (tokens_of (json_of v) @ []) = Inr (json_of v, [])"
    by (rule readValue_tokens) (use assms in auto)
  then show ?thesis using assms(1) by (simp add: decodeJSON_def billing_laws_def clean_text_def)
qed

definition recode :: "string \<Rightarrow> bill_error \<Rightarrow> bill_error" where
  "recode code e = e\<lparr>be_Code := code\<rparr>"

lemma validateGo_eq:
  assumes "billing_laws env" "json_distinct (json_of v)" "json_depth (json_of v) \<le> 64"
  shows "validateGo env v t code =
    (case validateValue (json_of v) t noTag '''' of Inl e \<Rightarrow> Inl (recode code e) | Inr _ \<Rightarrow> Inr ())"
  by (simp add: validateGo_def parseModel_def decodeJSON_Marshal [OF assms] recode_def split: sum.split)

section \<open>Values that passed\<close>

text \<open>What a parsed value satisfies: its shape, non-negative \<open>int64\<close> numbers, the tag of each field
  and the semantic rules of every struct in it.\<close>

definition string_ok :: "field_tag \<Rightarrow> string \<Rightarrow> bool" where
  "string_ok tag s \<longleftrightarrow> (ft_literal tag \<noteq> [] \<longrightarrow> s \<in> set (ft_literal tag))
     \<and> (ft_check tag = ''identity'' \<longrightarrow> length s \<le> 512 \<and> identityPattern s)
     \<and> (ft_check tag = ''nonce'' \<longrightarrow> length s \<le> 64 \<and> noncePattern s)
     \<and> (ft_check tag = ''digest'' \<longrightarrow> digestPattern s)"

definition bounds_ok :: "field_tag \<Rightarrow> nat \<Rightarrow> bool" where
  "bounds_ok tag n \<longleftrightarrow> (if ft_bounds tag = ''1,64'' then 1 else 0) \<le> n \<and> n \<le> 64"

fun conforms :: "gotype \<Rightarrow> field_tag \<Rightarrow> goval \<Rightarrow> bool"
  and conforms_fields :: "(string \<times> gotype \<times> field_tag) list \<Rightarrow> (string \<times> goval) list \<Rightarrow> bool" where
  "conforms GInt64 tag v \<longleftrightarrow> (\<exists>n. v = VInt n \<and> 0 \<le> n \<and> in_i64 n \<and> (ft_literal tag = [''1''] \<longrightarrow> n = 1))"
| "conforms GString tag v \<longleftrightarrow> (\<exists>s. v = VStr s \<and> string_ok tag s)"
| "conforms GBool tag v \<longleftrightarrow> (\<exists>b. v = VBool b)"
| "conforms GAny tag v \<longleftrightarrow> v = VNil"
| "conforms (GPtr t) tag v \<longleftrightarrow> v = VPtr None \<or> (\<exists>x. v = VPtr (Some x) \<and> conforms t tag x)"
| "conforms (GSlice t) tag v \<longleftrightarrow> (\<exists>vs. v = VSlice vs \<and> bounds_ok tag (length vs) \<and> (\<forall>x \<in> set vs. conforms t noTag x))"
| "conforms (GStruct name fs) tag v \<longleftrightarrow>
     (\<exists>vs. v = VStruct name vs \<and> conforms_fields fs vs \<and> validateSemantics v = Inr ())"
| "conforms_fields [] vs \<longleftrightarrow> vs = []"
| "conforms_fields ((n, t, tag) # fs) vs \<longleftrightarrow>
     (\<exists>v vs'. vs = (n, v) # vs' \<and> conforms t tag v \<and> conforms_fields fs vs')"

text \<open>The contract's types: field names are distinct, pointers point to scalars, the \<open>null\<close> check
  is only used on the one field of type \<open>any\<close>, and the only integer literal is 1.\<close>

fun wf_type :: "gotype \<Rightarrow> field_tag \<Rightarrow> bool"
  and wf_fields :: "(string \<times> gotype \<times> field_tag) list \<Rightarrow> bool" where
  "wf_type (GPtr t) tag \<longleftrightarrow> (t = GInt64 \<or> t = GString) \<and> wf_type t tag"
| "wf_type (GSlice t) tag \<longleftrightarrow> ft_check tag \<noteq> ''null'' \<and> wf_type t noTag"
| "wf_type (GStruct n fs) tag \<longleftrightarrow> ft_check tag \<noteq> ''null'' \<and> distinct (map fst fs) \<and> wf_fields fs"
| "wf_type GAny tag \<longleftrightarrow> ft_check tag = ''null''"
| "wf_type GInt64 tag \<longleftrightarrow> ft_check tag \<noteq> ''null'' \<and> ft_literal tag \<in> {[], [''1'']}"
| "wf_type t tag \<longleftrightarrow> ft_check tag \<noteq> ''null''"
| "wf_fields [] \<longleftrightarrow> True"
| "wf_fields ((n, t, tag) # fs) \<longleftrightarrow> wf_type t tag \<and> wf_fields fs"

lemma ParseInt_1: "ParseInt ''1'' = Some 1"
  by code_simp

lemma itoa_1: "itoa 1 = ''1''"
  by code_simp

lemma validInt_ok:
  "validInt n tag path = Inr v \<Longrightarrow> \<exists>i. v = VInt i \<and> 0 \<le> i \<and> in_i64 i \<and> (ft_literal tag = [''1''] \<longrightarrow> i = 1)"
  by (auto simp: validInt_def ParseInt_1 dest: ParseInt_i64 split: option.splits if_splits)

lemma validString_eq: "string_ok tag s \<Longrightarrow> validString s tag path = Inr (VStr s)"
  by (auto simp: validString_def string_ok_def)

lemma validString_ok: "validString s tag path = Inr v \<Longrightarrow> v = VStr s \<and> string_ok tag s"
  by (auto simp: validString_def string_ok_def split: if_splits)

lemma validateValue_conforms:
  "validateValue input t tag path = Inr v \<Longrightarrow> wf_type t tag \<Longrightarrow> conforms t tag v"
  "validateFields obj fs path = Inr vs \<Longrightarrow> wf_fields fs \<Longrightarrow> conforms_fields fs vs"
  "validateElems vals t path i = Inr xs \<Longrightarrow> wf_type t noTag \<Longrightarrow>
     length xs = length vals \<and> (\<forall>x \<in> set xs. conforms t noTag x)"
proof (induction input t tag path and obj fs path and vals t path i arbitrary: v and vs and xs
    rule: validateValue_validateFields_validateElems.induct)
  case (6 input t tag path)
  then obtain vals xs where i: "input = JArr vals" "v = VSlice xs" "validateElems vals t path 0 = Inr xs"
      "bounds_ok tag (length vals)"
    by (auto simp: bounds_ok_def not_less Suc_le_eq split: if_splits json.splits)
  then have "length xs = length vals \<and> (\<forall>x \<in> set xs. conforms t noTag x)"
    using 6 by (auto simp: bounds_ok_def not_less split: if_splits)
  then show ?case using i by simp
next
  case (7 input name fs tag path)
  then show ?case by (auto split: json.splits option.splits sum.splits)
next
  case (9 obj name t tag fs path)
  then show ?case by (auto split: option.splits)
qed (auto split: if_splits json.splits dest!: validInt_ok validString_ok)

section \<open>Round trip\<close>

text \<open>No string of the value is changed by marshalling.\<close>

fun plain :: "goval \<Rightarrow> bool" where
  "plain (VStr s) \<longleftrightarrow> utf8_coerce s = s"
| "plain (VPtr p) \<longleftrightarrow> (\<forall>v. p = Some v \<longrightarrow> plain v)"
| "plain (VSlice vs) \<longleftrightarrow> (\<forall>v \<in> set vs. plain v)"
| "plain (VStruct n fs) \<longleftrightarrow> (\<forall>f \<in> set fs. plain (snd f))"
| "plain _ \<longleftrightarrow> True"

lemma conforms_names: "conforms_fields fs vs \<Longrightarrow> map fst vs = map fst fs"
  by (induction fs arbitrary: vs) auto

lemma validateFields_roundtrip:
  assumes "conforms_fields fs vs" "\<forall>(n, v) \<in> set vs. map_of obj n = Some (json_of v)"
    and "\<And>n t tag v path. (n, t, tag) \<in> set fs \<Longrightarrow> (n, v) \<in> set vs \<Longrightarrow> conforms t tag v \<Longrightarrow>
       validateValue (json_of v) t tag path = Inr v"
  shows "validateFields obj fs path = Inr vs"
  using assms
proof (induction fs arbitrary: vs)
  case (Cons f fs)
  obtain n t tag where f: "f = (n, t, tag)" by (cases f)
  obtain v vs' where vs: "vs = (n, v) # vs'" "conforms t tag v" "conforms_fields fs vs'" using Cons(2) f by auto
  have "validateFields obj fs path = Inr vs'"
  proof (rule Cons(1) [OF vs(3)])
    show "\<forall>(n, v) \<in> set vs'. map_of obj n = Some (json_of v)" using Cons(3) vs(1) by simp
    show "validateValue (json_of v) t tag path = Inr v"
      if "(n, t, tag) \<in> set fs" "(n, v) \<in> set vs'" "conforms t tag v" for n t tag v path
      using Cons(4) [of n t tag v path] that vs(1) by simp
  qed
  then show ?case using Cons(3) Cons(4) [of n t tag v] vs f by auto
qed simp

lemma validateElems_roundtrip:
  assumes "\<And>x path. x \<in> set vs \<Longrightarrow> validateValue (json_of x) t noTag path = Inr x"
  shows "validateElems (map json_of vs) t path i = Inr vs"
  using assms by (induction vs arbitrary: i) auto

lemma wf_fieldsD: "wf_fields fs \<Longrightarrow> (n, t, tag) \<in> set fs \<Longrightarrow> wf_type t tag"
  by (induction fs) auto

lemma validateValue_struct_roundtrip:
  assumes "conforms (GStruct name fs) tag (VStruct name vs)" "wf_type (GStruct name fs) tag"
    and "\<And>n t tg v path. (n, t, tg) \<in> set fs \<Longrightarrow> (n, v) \<in> set vs \<Longrightarrow> conforms t tg v \<Longrightarrow>
       validateValue (json_of v) t tg path = Inr v"
  shows "validateValue (json_of (VStruct name vs)) (GStruct name fs) tag path = Inr (VStruct name vs)"
proof -
  let ?obj = "map (\<lambda>f. (fst f, json_of (snd f))) vs"
  have c: "conforms_fields fs vs" "validateSemantics (VStruct name vs) = Inr ()" using assms(1) by auto
  have names: "map fst vs = map fst fs" using conforms_names [OF c(1)] .
  have d: "distinct (map fst vs)" using assms(2) names by simp
  have "\<forall>(n, v) \<in> set vs. map_of ?obj n = Some (json_of v)"
    using d by (force intro!: map_of_is_SomeI simp: comp_def)
  then have f: "validateFields ?obj fs path = Inr vs"
    by (rule validateFields_roundtrip [OF c(1)]) (use assms(3) in blast)
  have "unknownField ?obj fs = None"
    using arg_cong [OF names, of set] by (auto simp: unknownField_def find_None_iff)
  then show ?thesis using assms(2) f c(2) by simp
qed

lemma validateValue_roundtrip:
  "conforms t tag v \<Longrightarrow> wf_type t tag \<Longrightarrow> plain v \<Longrightarrow> validateValue (json_of v) t tag path = Inr v"
proof (induction v arbitrary: t tag path)
  case (VInt n)
  then have t: "t = GInt64" by (cases t) auto
  show ?case using VInt t by (auto simp: validInt_def itoa_1)
next
  case (VStr s)
  then have "t = GString" by (cases t) auto
  then show ?case using VStr by (auto simp: validString_eq)
next
  case (VBool b)
  then have "t = GBool" by (cases t) auto
  then show ?case using VBool by simp
next
  case VNil
  then have "t = GAny" by (cases t) auto
  then show ?case using VNil by simp
next
  case (VPtr p)
  then obtain u where t: "t = GPtr u" by (cases t) auto
  show ?case
  proof (cases p)
    case None
    then show ?thesis using t by simp
  next
    case (Some x)
    have "json_of x \<noteq> JNull" using VPtr(2,3) t Some by (cases x) auto
    then show ?thesis using VPtr Some t by auto
  qed
next
  case (VSlice vs)
  then obtain u where t: "t = GSlice u" by (cases t) auto
  have "validateElems (map json_of vs) u path 0 = Inr vs"
    by (rule validateElems_roundtrip) (use VSlice t in auto)
  then show ?case using VSlice(2,3) t by (auto simp: bounds_ok_def not_less)
next
  case (VStruct name vs)
  then obtain fs where t: "t = GStruct name fs" by (cases t) auto
  show ?case unfolding t
  proof (rule validateValue_struct_roundtrip)
    fix n u tg x p
    assume "(n, u, tg) \<in> set fs" "(n, x) \<in> set vs" "conforms u tg x"
    then show "validateValue (json_of x) u tg p = Inr x"
      using VStruct t wf_fieldsD by fastforce
  qed (use VStruct t in simp_all)
qed

end
