(* ===== verification/BillingV1.thy ===== *)
theory BillingV1
  imports BillingLaws
begin

text \<open>
  The frozen billing contract of package \<open>internal/billingv1\<close>: eligibility, evaluation and
  envelopes (\<open>evaluate.go\<close>), freezing (\<open>build.go\<close>) and canonical bytes (\<open>canonical.go\<close>).
  A \<open>Snapshot\<close> is the pointer it holds; the zero snapshot is \<open>None\<close>.
\<close>

type_synonym Snapshot = "snapshotData option"

section \<open>Eligibility and evaluation (evaluate.go)\<close>

fun firstExcluded :: "(string \<times> bool) list \<Rightarrow> bill_error + unit" where
  "firstExcluded [] = Inr ()"
| "firstExcluded ((name, excluded) # fs) = (if excluded then Inl (failure name) else firstExcluded fs)"

definition exclusions :: "Eligibility \<Rightarrow> (string \<times> bool) list" where
  "exclusions c =
     [(''app_markup'', el_AppMarkup c \<noteq> 0), (''custom_markup'', el_CustomMarkup c \<noteq> 0), (''receipt_fee'', el_ReceiptFee c \<noteq> 0),
      (''request_fee'', el_RequestFee c \<noteq> 0), (''custom_model'', el_CustomModel c), (''user_model'', el_UserModel c),
      (''tool_cost'', el_ToolCost c), (''search_cost'', el_SearchCost c), (''image_cost'', el_ImageCost c),
      (''video_cost'', el_VideoCost c), (''partner'', el_Partner c), (''liberty'', el_Liberty c), (''native_batch'', el_NativeBatch c),
      (''fusion'', el_Fusion c), (''polyphemus'', el_Polyphemus c), (''private_tier_basis'', el_PrivateTierBasis c)]"

definition RequireEligible :: "billing_env \<Rightarrow> Eligibility \<Rightarrow> bill_error + unit" where
  "RequireEligible env c =
     bindE (validateGo env (Eligibility_val c) Eligibility_type ''invalid_context'') (\<lambda>_.
       if \<not> el_Typed c then Inl (failure ''untyped'')
       else if el_UsageType c \<noteq> ''Credits'' then Inl (failure ''non_credits'')
       else if el_Authority c \<noteq> ''local'' then Inl (failure ''settlement_authority'')
       else if el_RouteType c \<noteq> ''chat.completions'' \<and> el_RouteType c \<noteq> ''responses'' then Inl (failure ''unsupported_route'')
       else if el_ServiceTier c \<noteq> None \<and> el_ServiceTier c \<noteq> Some ''default'' then Inl (failure ''service_tier'')
       else firstExcluded (exclusions c))"

definition candidate :: "Snapshot \<Rightarrow> string \<Rightarrow> bill_error + BillCandidate" where
  "candidate s endpoint =
     (case s of None \<Rightarrow> Inl (failure ''invalid_snapshot'')
      | Some d \<Rightarrow> (case find (\<lambda>c. bc_EndpointID c = endpoint) (candidatesOf d) of
          None \<Rightarrow> Inl (failure ''unsupported_endpoint'')
        | Some c \<Rightarrow> Inr c))"

fun tierRates :: "int \<Rightarrow> Rates \<Rightarrow> BillTier list \<Rightarrow> Rates" where
  "tierRates prompt fallback [] = fallback"
| "tierRates prompt fallback (t # ts) =
     (case ti_MaxPromptTokens t of
        None \<Rightarrow> ti_Rates t
      | Some m \<Rightarrow> if prompt \<le> m then ti_Rates t else tierRates prompt fallback ts)"

definition selectRates :: "BillCandidate \<Rightarrow> int \<Rightarrow> Rates" where
  "selectRates c prompt =
     (let ts = tiersOf c in if ts = [] then bc_Rates c else tierRates prompt (ti_Rates (last ts)) ts)"

fun chargeLoop :: "(int \<times> int) list \<Rightarrow> int \<Rightarrow> bool \<Rightarrow> bill_error + int \<times> bool" where
  "chargeLoop [] cost positive = Inr (cost, positive)"
| "chargeLoop ((tokens, rate) # cs) cost positive =
     bindE (checkedMultiply tokens rate) (\<lambda>product.
     bindE (checkedAdd product 500000) (\<lambda>numerator.
     bindE (checkedAdd cost (i64_quot numerator 1000000)) (\<lambda>cost.
       chargeLoop cs cost (positive \<or> (tokens > 0 \<and> rate > 0)))))"

definition components :: "NormalizedUsage \<Rightarrow> Rates \<Rightarrow> (int \<times> int) list" where
  "components u r = [(nu_UncachedInputTokens u, rt_Input r), (nu_CacheReadTokens u, rt_CachedInput r),
     (nu_CacheCreationTokens u, rt_CacheCreation r), (nu_OutputTokens u, rt_Output r)]"

definition normalize :: "BillCandidate \<Rightarrow> RawUsage \<Rightarrow> bill_error + NormalizedUsage" where
  "normalize c raw =
     bindE (checkedAdd (ru_CacheReadTokens raw) (ru_CacheCreationTokens raw)) (\<lambda>cached.
     bindE (if bc_PromptConvention c = ''includes_cache'' then
              (if cached > ru_InputTokens raw then Inl (failure ''malformed_usage'')
               else Inr (i64_sub (ru_InputTokens raw) cached, ru_InputTokens raw))
            else bindE (checkedAdd (ru_InputTokens raw) cached) (\<lambda>total. Inr (ru_InputTokens raw, total)))
       (\<lambda>(uncached, total). Inr
         \<lparr>nu_UncachedInputTokens = uncached, nu_TotalPromptTokens = total, nu_OutputTokens = ru_OutputTokens raw,
          nu_CacheReadTokens = ru_CacheReadTokens raw, nu_CacheCreationTokens = ru_CacheCreationTokens raw,
          nu_ReasoningTokens = ru_ReasoningTokens raw\<rparr>))"

definition Evaluate :: "billing_env \<Rightarrow> Snapshot \<Rightarrow> string \<Rightarrow> RawUsage \<Rightarrow> Eligibility \<Rightarrow> bill_error + Evaluation" where
  "Evaluate env s selectedEndpoint raw observed =
     bindE (RequireEligible env observed) (\<lambda>_.
     bindE (candidate s selectedEndpoint) (\<lambda>c.
     bindE (validateGo env (RawUsage_val raw) RawUsage_type ''invalid_usage'') (\<lambda>_.
     bindE (normalize c raw) (\<lambda>usage.
     bindE (validateSemantics (NormalizedUsage_val usage)) (\<lambda>_.
     bindE (chargeLoop (components usage (selectRates c (nu_TotalPromptTokens usage)))
              (bc_RequestFeeMicro c) (bc_RequestFeeMicro c > 0)) (\<lambda>(cost, positive).
       Inr \<lparr>ev_Usage = usage, ev_ChargeMicro = (if positive \<and> cost = 0 then 1 else cost)\<rparr>))))))"

section \<open>Canonical bytes (canonical.go)\<close>

definition hex4 :: "nat \<Rightarrow> string" where
  "hex4 n = map hex_digit [n div 4096 mod 16, n div 256 mod 16, n div 16 mod 16, n mod 16]"

definition asciiRune :: "nat option \<Rightarrow> string" where
  "asciiRune rune =
     (let r = (case rune of None \<Rightarrow> 0xfffd | Some n \<Rightarrow> n);
          escape = (\<lambda>n. [CHR 0x5C, CHR ''u''] @ hex4 n) in
      if r < 127 then [char_of r]
      else if r \<le> 0xffff then escape r
      else escape (0xd800 + (r - 0x10000) div 1024 mod 1024) @ escape (0xdc00 + (r - 0x10000) mod 1024))"

definition canonicalBytes :: "billing_env \<Rightarrow> goval \<Rightarrow> string \<Rightarrow> bill_error + string" where
  "canonicalBytes env v code =
     (case decodeJSON env (be_Marshal env v) of
        Inl (Wire e) \<Rightarrow> Inl e
      | Inl _ \<Rightarrow> Inl (failure code)
      | Inr obj \<Rightarrow>
        (let enc = be_Encode env obj;
             raw = (if enc \<noteq> [] \<and> last enc = char_of (10::nat) then butlast enc else enc)
         in Inr (concat (map asciiRune (runes raw)))))"

datatype canonical_arg = CSnapshot Snapshot | CModel goval gotype | COther

definition CanonicalBytes :: "billing_env \<Rightarrow> canonical_arg \<Rightarrow> bill_error + string" where
  "CanonicalBytes env value = (case value of
     CSnapshot None \<Rightarrow> Inl (failure ''invalid_snapshot'')
   | CSnapshot (Some d) \<Rightarrow> canonicalBytes env (snapshot_val d) ''invalid_type''
   | CModel v t \<Rightarrow> bindE (validateGo env v t ''invalid_type'') (\<lambda>_. canonicalBytes env v ''invalid_type'')
   | COther \<Rightarrow> Inl (failure ''invalid_type''))"

definition CanonicalHash :: "billing_env \<Rightarrow> canonical_arg \<Rightarrow> bill_error + string" where
  "CanonicalHash env value = bindE (CanonicalBytes env value) (\<lambda>raw. Inr (hex_EncodeToString (be_sha256 env raw)))"

definition Candidates :: "Snapshot \<Rightarrow> BillCandidate list" where
  "Candidates s = (case s of None \<Rightarrow> [] | Some d \<Rightarrow> candidatesOf d)"

section \<open>Terminal envelopes (evaluate.go)\<close>

definition rawOf :: "BillCandidate \<Rightarrow> NormalizedUsage \<Rightarrow> RawUsage" where
  "rawOf c u = \<lparr>ru_InputTokens = (if bc_PromptConvention c = ''includes_cache'' then nu_TotalPromptTokens u
       else nu_UncachedInputTokens u), ru_OutputTokens = nu_OutputTokens u, ru_CacheReadTokens = nu_CacheReadTokens u,
     ru_CacheCreationTokens = nu_CacheCreationTokens u, ru_ReasoningTokens = nu_ReasoningTokens u\<rparr>"

definition validateEnvelope ::
  "billing_env \<Rightarrow> Snapshot \<Rightarrow> TerminalEnvelope \<Rightarrow> (Snapshot \<Rightarrow> string \<Rightarrow> RawUsage \<Rightarrow> Eligibility \<Rightarrow> bill_error + Evaluation)
    \<Rightarrow> bill_error + unit" where
  "validateEnvelope env s e evaluate =
     bindE (validateGo env (Envelope_val e) Envelope_type ''invalid_envelope'') (\<lambda>_.
     bindE (CanonicalHash env (CSnapshot s)) (\<lambda>hash.
       if te_SnapshotHash e \<noteq> hash then Inl (failure ''snapshot_hash_mismatch'')
       else bindE (candidate s (te_SelectedEndpoint e)) (\<lambda>c.
         bindE (evaluate s (te_SelectedEndpoint e) (rawOf c (te_Usage e))
                 (DefaultEligibility\<lparr>el_RouteType := te_RouteType e, el_Streamed := te_Streamed e\<rparr>)) (\<lambda>result.
           let expected = (if te_TerminalKind e = ''refund'' then 0 else ev_ChargeMicro result) in
           if te_ChargeMicro e \<noteq> expected \<or> te_Usage e \<noteq> ev_Usage result then Inl (failure ''charge_mismatch'')
           else Inr ()))))"

definition ValidateEnvelope :: "billing_env \<Rightarrow> Snapshot \<Rightarrow> TerminalEnvelope \<Rightarrow> bill_error + unit" where
  "ValidateEnvelope env s envelope = validateEnvelope env s envelope (Evaluate env)"

section \<open>Freezing (build.go)\<close>

definition roundRatioEven :: "int \<Rightarrow> int \<Rightarrow> int \<Rightarrow> bill_error + int" where
  "roundRatioEven value numerator denominator =
     bindE (checkedMultiply (i64_quot value denominator) numerator) (\<lambda>base.
     bindE (checkedMultiply (i64_rem value denominator) numerator) (\<lambda>remainder.
     bindE (checkedAdd base (i64_quot remainder denominator)) (\<lambda>base.
       let remainder = i64_rem remainder denominator in
       if i64_mul remainder 2 > denominator \<or> (i64_mul remainder 2 = denominator \<and> i64_rem base 2 = 1)
       then checkedAdd base 1 else Inr base)))"

definition freezeRates :: "string \<Rightarrow> int \<Rightarrow> int \<Rightarrow> int option \<Rightarrow> bill_error + Rates" where
  "freezeRates provider input output cached =
     bindE (roundRatioEven input 1 (if provider = ''anthropic'' then 10 else 2)) (\<lambda>read.
     bindE (roundRatioEven input 5 4) (\<lambda>write.
       Inr \<lparr>rt_Input = input, rt_CachedInput = (case cached of None \<Rightarrow> read | Some c \<Rightarrow> c),
            rt_CacheCreation = write, rt_Output = output\<rparr>))"

definition freezeTier :: "string \<Rightarrow> EndpointTier \<Rightarrow> bill_error + BillTier" where
  "freezeTier provider t =
     bindE (freezeRates provider (et_InputMicroPerMillion t) (et_OutputMicroPerMillion t) (et_CachedInputMicroPerMillion t))
       (\<lambda>r. Inr \<lparr>ti_MaxPromptTokens = et_MaxPromptTokens t, ti_Rates = r\<rparr>)"

definition freezeEndpoint :: "billing_env \<Rightarrow> Endpoint \<Rightarrow> bill_error + BillCandidate" where
  "freezeEndpoint env e =
     bindE (validateGo env (Endpoint_val e) Endpoint_type ''invalid_builder'') (\<lambda>_.
     bindE (freezeRates (ep_Provider e) (ep_InputMicroPerMillion e) (ep_OutputMicroPerMillion e) None) (\<lambda>rates.
     bindE (mapE (freezeTier (ep_Provider e)) (case ep_Tiers e of None \<Rightarrow> [] | Some ts \<Rightarrow> ts)) (\<lambda>tiers.
       Inr \<lparr>bc_EndpointID = ep_ID e, bc_Provider = ep_Provider e, bc_ModelID = ep_ModelID e, bc_UsageType = ep_UsageType e,
         bc_PriceHistoryVersion = 1, bc_Rates = rates, bc_Tiers = Some tiers, bc_RequestFeeMicro = ep_RequestFeeMicro e,
         bc_Rounding = ''half_up_per_million'',
         bc_PromptConvention = (if ep_Provider e = ''anthropic'' then ''excludes_cache'' else ''includes_cache''),
         bc_OutputConvention = ''includes_reasoning''\<rparr>)))"

fun insertById :: "BillCandidate \<Rightarrow> BillCandidate list \<Rightarrow> BillCandidate list" where
  "insertById c [] = [c]"
| "insertById c (d # ds) = (if str_less (bc_EndpointID d) (bc_EndpointID c) then d # insertById c ds else c # d # ds)"

definition sortById :: "BillCandidate list \<Rightarrow> BillCandidate list" where
  "sortById cs = foldr insertById cs []"

definition BuildSnapshot :: "billing_env \<Rightarrow> Endpoint list \<Rightarrow> Eligibility \<Rightarrow> bill_error + snapshotData" where
  "BuildSnapshot env endpoints requested =
     bindE (RequireEligible env requested) (\<lambda>_.
     bindE (mapE (freezeEndpoint env) endpoints) (\<lambda>cs.
       ParseSnapshot env (be_Marshal env (snapshot_val
         \<lparr>sd_V = 1, sd_Kind = ''credits_endpoint'', sd_Candidates = Some (sortById cs),
          sd_MinimumCharge = ''one_micro_if_positive'', sd_ChargeCap = VNil, sd_TierBasis = ''total_prompt'',
          sd_TierBoundary = ''inclusive'', sd_TierFallback = ''last_tier''\<rparr>))))"

section \<open>Exact arithmetic\<close>

definition amount :: "int \<Rightarrow> bool" where
  "amount n \<longleftrightarrow> 0 \<le> n \<and> n \<le> MaxInt64"

abbreviation overflow :: bill_error where
  "overflow \<equiv> failure ''arithmetic_overflow''"

lemma amount_i64: "amount n \<longleftrightarrow> 0 \<le> n \<and> in_i64 n"
  by (auto simp: amount_def i64_defs)

lemma checkedAdd_eq:
  assumes "amount a" "amount b"
  shows "checkedAdd a b = (if a + b \<le> MaxInt64 then Inr (a + b) else Inl overflow)"
proof -
  have "in_i64 (MaxInt64 - b)" using assms by (auto simp: amount_def i64_defs)
  moreover have "in_i64 (a + b)" if "a + b \<le> MaxInt64" using assms that by (auto simp: amount_def i64_defs)
  ultimately show ?thesis
    using assms by (auto simp: checkedAdd_def i64_sub_exact i64_add_exact amount_def)
qed

lemma checkedMultiply_eq:
  assumes "amount a" "amount b"
  shows "checkedMultiply a b = (if a * b \<le> MaxInt64 then Inr (a * b) else Inl overflow)"
proof (cases "b = 0")
  case True
  then show ?thesis using assms by (simp add: checkedMultiply_def amount_def i64_mul_exact i64_defs)
next
  case False
  then have b: "0 < b" using assms by (auto simp: amount_def)
  have q: "i64_quot MaxInt64 b = MaxInt64 div b"
    by (rule i64_quot_nonneg) (use b in \<open>auto simp: i64_defs\<close>)
  have "a \<le> MaxInt64 div b \<longleftrightarrow> a * b \<le> MaxInt64" using b by (simp add: le_div_iff_mult_le)
  moreover have "in_i64 (a * b)" if "a * b \<le> MaxInt64"
    using assms that by (auto simp: amount_i64 i64_defs amount_def intro: order_trans [OF _ mult_nonneg_nonneg])
  ultimately show ?thesis using assms False q
    by (auto simp: checkedMultiply_def amount_def i64_mul_exact not_less)
qed

definition halfUp :: "int \<times> int \<Rightarrow> int" where
  "halfUp c = (fst c * snd c + 500000) div 1000000"

lemma halfUp_nonneg: "amount (fst c) \<Longrightarrow> amount (snd c) \<Longrightarrow> 0 \<le> halfUp c"
  by (simp add: halfUp_def amount_def pos_imp_zdiv_nonneg_iff)

lemma sum_halfUp_nonneg: "list_all (\<lambda>c. amount (fst c) \<and> amount (snd c)) cs \<Longrightarrow> 0 \<le> sum_list (map halfUp cs)"
  by (induction cs) (auto intro: add_nonneg_nonneg halfUp_nonneg)

lemma chargeLoop_eq:
  assumes "list_all (\<lambda>c. amount (fst c) \<and> amount (snd c)) cs" "amount cost"
  shows "chargeLoop cs cost positive =
    (if list_all (\<lambda>c. fst c * snd c + 500000 \<le> MaxInt64) cs \<and> cost + sum_list (map halfUp cs) \<le> MaxInt64
     then Inr (cost + sum_list (map halfUp cs), positive \<or> list_ex (\<lambda>c. 0 < fst c \<and> 0 < snd c) cs)
     else Inl overflow)"
  using assms
proof (induction cs cost positive rule: chargeLoop.induct)
  case (1 cost positive)
  then show ?case by (simp add: amount_def)
next
  case (2 tokens rate cs cost positive)
  have a: "amount tokens" "amount rate" "amount cost" "list_all (\<lambda>c. amount (fst c) \<and> amount (snd c)) cs" using 2 by auto
  have half: "amount 500000" by (simp add: amount_def i64_defs)
  note s = sum_halfUp_nonneg [OF a(4)]
  have h: "0 \<le> halfUp (tokens, rate)" using halfUp_nonneg [of "(tokens, rate)"] a by simp
  show ?case
  proof (cases "tokens * rate + 500000 \<le> MaxInt64")
    case True
    have p: "amount (tokens * rate)" "amount (tokens * rate + 500000)" using True a by (auto simp: amount_def)
    have q: "i64_quot (tokens * rate + 500000) 1000000 = halfUp (tokens, rate)"
      unfolding halfUp_def fst_conv snd_conv by (rule i64_quot_nonneg) (use p in \<open>auto simp: amount_def\<close>)
    have ah: "amount (halfUp (tokens, rate))"
      using p(2) h zdiv_mono2 [of "tokens * rate + 500000" 1 1000000] by (simp add: amount_def halfUp_def)
    have m: "checkedMultiply tokens rate = Inr (tokens * rate)"
      using checkedMultiply_eq [OF a(1,2)] p(1) by (simp add: amount_def)
    have n: "checkedAdd (tokens * rate) 500000 = Inr (tokens * rate + 500000)"
      using checkedAdd_eq [OF p(1) half] True by simp
    note c = checkedAdd_eq [OF a(3) ah]
    show ?thesis
    proof (cases "cost + halfUp (tokens, rate) \<le> MaxInt64")
      case fits: True
      then have "amount (cost + halfUp (tokens, rate))" using a h by (simp add: amount_def)
      then show ?thesis
        using 2(1) [of "tokens * rate" "tokens * rate + 500000" "cost + halfUp (tokens, rate)"] m n c q a True fits
        by (simp add: add.assoc)
    next
      case False
      then show ?thesis using m n c q s True by auto
    qed
  next
    case False
    then show ?thesis using a half
      by (cases "tokens * rate \<le> MaxInt64") (auto simp: checkedMultiply_eq checkedAdd_eq amount_def)
  qed
qed

section \<open>Parsed snapshots\<close>

definition wf_rates :: "Rates \<Rightarrow> bool" where
  "wf_rates r \<longleftrightarrow> amount (rt_Input r) \<and> amount (rt_CachedInput r) \<and> amount (rt_CacheCreation r) \<and> amount (rt_Output r)"

definition wf_candidate :: "BillCandidate \<Rightarrow> bool" where
  "wf_candidate c \<longleftrightarrow> wf_rates (bc_Rates c) \<and> list_all (\<lambda>t. wf_rates (ti_Rates t)) (tiersOf c) \<and> semCandidate c = Inr ()"

definition wf_snapshot :: "snapshotData \<Rightarrow> bool" where
  "wf_snapshot d \<longleftrightarrow> list_all wf_candidate (candidatesOf d) \<and> sortedStrict (map bc_EndpointID (candidatesOf d))"

lemma conforms_fld:
  assumes "conforms (GStruct name fs) tag v" "map_of fs n = Some (t, tg)"
  shows "conforms t tg (fld n v)"
proof -
  obtain vs where v: "v = VStruct name vs" "conforms_fields fs vs" using assms(1) by auto
  have "conforms_fields fs vs \<Longrightarrow> map_of fs n = Some (t, tg) \<Longrightarrow> \<exists>x. map_of vs n = Some x \<and> conforms t tg x"
    by (induction fs arbitrary: vs) (auto split: if_splits)
  then show ?thesis using v assms(2) by (auto simp: fld_def)
qed

lemma conforms_sem: "conforms (GStruct name fs) tag v \<Longrightarrow> (\<exists>vs. v = VStruct name vs) \<and> validateSemantics v = Inr ()"
  by auto

lemma conforms_asInt: "conforms GInt64 tag v \<Longrightarrow> amount (asInt v)"
  by (auto simp: amount_i64)

lemma conforms_asSlice: "conforms (GSlice t) tag v \<Longrightarrow> \<exists>vs. asSlice v = Some vs \<and> (\<forall>x \<in> set vs. conforms t noTag x)"
  by auto

lemma conforms_Rates:
  assumes "conforms Rates_type tag v"
  shows "wf_rates (Rates_of v)"
proof -
  note f = conforms_asInt [OF conforms_fld [OF assms [unfolded Rates_type_def]]]
  show ?thesis unfolding wf_rates_def Rates_of_def by (simp add: f)
qed

lemma conforms_Tier:
  assumes "conforms Tier_type tag v"
  shows "wf_rates (ti_Rates (Tier_of v))"
  using conforms_Rates [OF conforms_fld [OF assms [unfolded Tier_type_def], of "''rates''"]] by (simp add: Tier_of_def)

lemma conforms_Candidate:
  assumes "conforms Candidate_type tag v"
  shows "wf_candidate (Candidate_of v)"
proof -
  note a = assms [unfolded Candidate_type_def]
  have "semCandidate (Candidate_of v) = Inr ()"
    using conforms_sem [OF a] by (auto simp: validateSemantics_def)
  moreover have "wf_rates (bc_Rates (Candidate_of v))"
    using conforms_Rates [OF conforms_fld [OF a, of "''rates''"]] by (simp add: Candidate_of_def)
  moreover obtain vs where "asSlice (fld ''tiers'' v) = Some vs" "\<forall>x \<in> set vs. conforms Tier_type noTag x"
    using conforms_asSlice [OF conforms_fld [OF a, of "''tiers''"]] by auto
  ultimately show ?thesis
    using conforms_Tier by (auto simp: wf_candidate_def tiersOf_def Candidate_of_def list_all_iff)
qed

lemma snapshot_wf_type: "wf_type snapshot_type noTag"
  by (simp add: snapshot_type_def Candidate_type_def Tier_type_def Rates_type_def tag_defs)

lemma conforms_snapshot:
  assumes "conforms snapshot_type tag v"
  shows "wf_snapshot (snapshot_of v)"
proof -
  note a = assms [unfolded snapshot_type_def]
  have "semSnapshot (snapshot_of v) = Inr ()" using conforms_sem [OF a] by (auto simp: validateSemantics_def)
  moreover obtain vs where "asSlice (fld ''candidates'' v) = Some vs" "\<forall>x \<in> set vs. conforms Candidate_type noTag x"
    using conforms_asSlice [OF conforms_fld [OF a, of "''candidates''"]] by auto
  ultimately show ?thesis
    using conforms_Candidate
    by (auto simp: wf_snapshot_def candidatesOf_def snapshot_of_def list_all_iff semSnapshot_def split: if_splits)
qed

lemma parseModel_conforms:
  assumes "parseModel env raw t code = Inr v" "wf_type t noTag"
  shows "conforms t noTag v"
  using assms validateValue_conforms(1)
  by (auto simp: parseModel_def split: sum.splits decode_error.splits)

lemma ParseSnapshot_wf: "ParseSnapshot env raw = Inr d \<Longrightarrow> wf_snapshot d"
  using conforms_snapshot [OF parseModel_conforms [OF _ snapshot_wf_type]]
  by (auto simp: ParseSnapshot_def split: sum.splits)

section \<open>Validation of values built in Go\<close>

definition valid_raw :: "RawUsage \<Rightarrow> bool" where
  "valid_raw u \<longleftrightarrow> amount (ru_InputTokens u) \<and> amount (ru_OutputTokens u) \<and> amount (ru_CacheReadTokens u)
     \<and> amount (ru_CacheCreationTokens u) \<and> amount (ru_ReasoningTokens u)"

lemma validInt_itoa [simp]:
  "validInt (itoa n) noTag path = (if amount n then Inr (VInt n) else Inl (invalid path ''integer outside int64 domain''))"
  "validInt (itoa n) (defaultTag j) path = (if amount n then Inr (VInt n) else Inl (invalid path ''integer outside int64 domain''))"
  by (auto simp: validInt_def tag_defs amount_i64)

lemma validateGo_RawUsage:
  assumes "billing_laws env"
  shows "validateGo env (RawUsage_val u) RawUsage_type code = Inr () \<longleftrightarrow> valid_raw u"
proof -
  have "validateGo env (RawUsage_val u) RawUsage_type code =
      (case validateValue (json_of (RawUsage_val u)) RawUsage_type noTag '''' of Inl e \<Rightarrow> Inl (recode code e) | Inr _ \<Rightarrow> Inr ())"
    by (rule validateGo_eq [OF assms]) (simp_all add: RawUsage_val_def)
  then show ?thesis
    by (auto simp: RawUsage_val_def RawUsage_type_def valid_raw_def unknownField_def validateSemantics_def noTag_def [symmetric]
        split: sum.splits if_splits) (simp_all add: tag_defs)
qed

definition valid_ints :: "Eligibility \<Rightarrow> bool" where
  "valid_ints c \<longleftrightarrow> amount (el_AppMarkup c) \<and> amount (el_CustomMarkup c) \<and> amount (el_ReceiptFee c) \<and> amount (el_RequestFee c)"

lemma validString_default [simp]: "validString s (defaultTag j) path = Inr (VStr s)"
  by (simp add: validString_def tag_defs)

lemma defaultTag_check [simp]: "ft_check (defaultTag j) = ''''" "ft_check noTag = ''''"
  by (simp_all add: tag_defs)

lemma validateGo_Eligibility:
  assumes "billing_laws env"
  shows "validateGo env (Eligibility_val c) Eligibility_type code = Inr () \<longleftrightarrow> valid_ints c"
proof -
  have "validateGo env (Eligibility_val c) Eligibility_type code =
      (case validateValue (json_of (Eligibility_val c)) Eligibility_type noTag '''' of Inl e \<Rightarrow> Inl (recode code e) | Inr _ \<Rightarrow> Inr ())"
    by (rule validateGo_eq [OF assms]; cases "el_ServiceTier c") (simp_all add: Eligibility_val_def)
  moreover have "(\<exists>v. validateValue (json_of (Eligibility_val c)) Eligibility_type noTag '''' = Inr v) \<longleftrightarrow> valid_ints c"
    by (cases "el_ServiceTier c")
      (simp_all add: Eligibility_val_def Eligibility_type_def unknownField_def validateSemantics_def valid_ints_def)
  ultimately show ?thesis by (auto split: sum.splits)
qed

definition eligible :: "Eligibility \<Rightarrow> bool" where
  "eligible c \<longleftrightarrow> el_Typed c \<and> el_UsageType c = ''Credits'' \<and> el_Authority c = ''local''
     \<and> el_RouteType c \<in> {''chat.completions'', ''responses''} \<and> el_ServiceTier c \<in> {None, Some ''default''}
     \<and> list_all (\<lambda>f. \<not> snd f) (exclusions c)"

lemma firstExcluded_ok: "firstExcluded fs = Inr () \<longleftrightarrow> list_all (\<lambda>f. \<not> snd f) fs"
  by (induction fs rule: firstExcluded.induct) auto

lemma amount_0 [simp]: "amount 0"
  by (simp add: amount_def i64_defs)

lemma RequireEligible_iff:
  assumes "billing_laws env"
  shows "RequireEligible env c = Inr () \<longleftrightarrow> eligible c"
proof -
  have "valid_ints c" if "list_all (\<lambda>f. \<not> snd f) (exclusions c)"
    using that by (simp add: exclusions_def valid_ints_def)
  then show ?thesis
    using validateGo_Eligibility [OF assms, of c "''invalid_context''"]
    by (auto simp: RequireEligible_def eligible_def firstExcluded_ok)
qed

section \<open>Evaluation against exact arithmetic\<close>

definition exactUsage :: "BillCandidate \<Rightarrow> RawUsage \<Rightarrow> bill_error + NormalizedUsage" where
  "exactUsage c raw =
     (let cached = ru_CacheReadTokens raw + ru_CacheCreationTokens raw;
          includes = (bc_PromptConvention c = ''includes_cache'');
          uncached = (if includes then ru_InputTokens raw - cached else ru_InputTokens raw);
          prompt = (if includes then ru_InputTokens raw else ru_InputTokens raw + cached) in
      if cached > MaxInt64 \<or> prompt > MaxInt64 then Inl overflow
      else if uncached < 0 \<or> ru_ReasoningTokens raw > ru_OutputTokens raw then Inl (failure ''malformed_usage'')
      else Inr \<lparr>nu_UncachedInputTokens = uncached, nu_TotalPromptTokens = prompt, nu_OutputTokens = ru_OutputTokens raw,
          nu_CacheReadTokens = ru_CacheReadTokens raw, nu_CacheCreationTokens = ru_CacheCreationTokens raw,
          nu_ReasoningTokens = ru_ReasoningTokens raw\<rparr>)"

definition exactCharge :: "BillCandidate \<Rightarrow> NormalizedUsage \<Rightarrow> int" where
  "exactCharge c u =
     (let cs = components u (selectRates c (nu_TotalPromptTokens u)); cost = sum_list (map halfUp cs) in
      if cost = 0 \<and> list_ex (\<lambda>x. 0 < fst x \<and> 0 < snd x) cs then 1 else cost)"

definition charge_fits :: "BillCandidate \<Rightarrow> NormalizedUsage \<Rightarrow> bool" where
  "charge_fits c u \<longleftrightarrow>
     (let cs = components u (selectRates c (nu_TotalPromptTokens u)) in
      list_all (\<lambda>x. fst x * snd x + 500000 \<le> MaxInt64) cs \<and> sum_list (map halfUp cs) \<le> MaxInt64)"

lemma selectRates_wf: "wf_candidate c \<Longrightarrow> wf_rates (selectRates c prompt)"
proof -
  have "wf_rates (tierRates prompt fb ts)" if "wf_rates fb" "list_all (\<lambda>t. wf_rates (ti_Rates t)) ts" for fb ts
    using that by (induction ts) (auto split: option.splits)
  then show "wf_candidate c \<Longrightarrow> wf_rates (selectRates c prompt)"
    by (auto simp: selectRates_def Let_def wf_candidate_def list_all_iff)
qed

lemma wf_candidate_fee: "wf_candidate c \<Longrightarrow> bc_RequestFeeMicro c = 0"
  by (auto simp: wf_candidate_def semCandidate_def Let_def split: if_splits)

definition valid_usage :: "NormalizedUsage \<Rightarrow> bool" where
  "valid_usage u \<longleftrightarrow> amount (nu_UncachedInputTokens u) \<and> amount (nu_TotalPromptTokens u) \<and> amount (nu_OutputTokens u)
     \<and> amount (nu_CacheReadTokens u) \<and> amount (nu_CacheCreationTokens u) \<and> amount (nu_ReasoningTokens u)
     \<and> nu_UncachedInputTokens u + nu_CacheReadTokens u + nu_CacheCreationTokens u = nu_TotalPromptTokens u
     \<and> nu_ReasoningTokens u \<le> nu_OutputTokens u"

lemma semUsage_eq:
  assumes "amount (nu_UncachedInputTokens u)" "amount (nu_CacheReadTokens u)" "amount (nu_CacheCreationTokens u)"
    "amount (nu_TotalPromptTokens u)"
    "nu_UncachedInputTokens u + nu_CacheReadTokens u + nu_CacheCreationTokens u = nu_TotalPromptTokens u"
  shows "semUsage u = (if nu_ReasoningTokens u > nu_OutputTokens u then Inl (failure ''malformed_usage'') else Inr ())"
proof -
  have "amount (nu_UncachedInputTokens u + nu_CacheReadTokens u)" using assms by (simp add: amount_def)
  then show ?thesis using assms by (simp add: semUsage_def checkedAdd_eq) (simp add: amount_def)
qed

lemma semantics_usage: "validateSemantics (NormalizedUsage_val u) = semUsage u"
  by (cases u) (simp add: validateSemantics_def NormalizedUsage_val_def NormalizedUsage_of_def fld_def)

lemma exactUsage_valid: "valid_raw raw \<Longrightarrow> exactUsage c raw = Inr u \<Longrightarrow> valid_usage u"
  by (auto simp: exactUsage_def Let_def valid_raw_def valid_usage_def amount_def split: if_splits)

lemma normalize_exact:
  assumes "valid_raw raw"
  shows "bindE (normalize c raw) (\<lambda>u. bindE (validateSemantics (NormalizedUsage_val u)) (\<lambda>_. k u)) = bindE (exactUsage c raw) k"
proof -
  let ?c = "ru_CacheReadTokens raw + ru_CacheCreationTokens raw" and ?i = "ru_InputTokens raw"
  have a: "amount (ru_CacheReadTokens raw)" "amount (ru_CacheCreationTokens raw)" "amount ?i"
    using assms by (auto simp: valid_raw_def)
  show ?thesis
  proof (cases "?c \<le> MaxInt64")
    case False
    then show ?thesis using a by (simp add: normalize_def checkedAdd_eq exactUsage_def)
  next
    case True
    then have ac: "amount ?c" using a by (simp add: amount_def)
    have sub: "i64_sub ?i ?c = ?i - ?c" if "?c \<le> ?i"
      using that a ac by (intro i64_sub_exact) (auto simp: amount_def i64_defs)
    show ?thesis
    proof (cases "bc_PromptConvention c = ''includes_cache''")
      case inc: True
      then show ?thesis using a ac True sub
        by (auto simp: normalize_def checkedAdd_eq exactUsage_def semantics_usage not_less semUsage_eq amount_def Let_def)
    next
      case False
      then show ?thesis using a ac True
        by (auto simp: normalize_def checkedAdd_eq exactUsage_def semantics_usage semUsage_eq amount_def Let_def)
    qed
  qed
qed

lemma components_amounts:
  assumes "valid_usage u" "wf_rates r"
  shows "list_all (\<lambda>c. amount (fst c) \<and> amount (snd c)) (components u r)"
  using assms by (simp add: components_def valid_usage_def wf_rates_def)

lemma candidate_wf: "wf_snapshot d \<Longrightarrow> candidate (Some d) ep = Inr c \<Longrightarrow> wf_candidate c \<and> bc_EndpointID c = ep"
  by (auto simp: candidate_def wf_snapshot_def list_all_length find_Some_iff split: option.splits)

lemma charge_step:
  assumes "wf_candidate c" "valid_usage u"
  shows "bindE (chargeLoop (components u (selectRates c (nu_TotalPromptTokens u))) (bc_RequestFeeMicro c) (bc_RequestFeeMicro c > 0))
      (\<lambda>(cost, positive). Inr \<lparr>ev_Usage = u, ev_ChargeMicro = (if positive \<and> cost = 0 then 1 else cost)\<rparr>)
    = (if charge_fits c u then Inr \<lparr>ev_Usage = u, ev_ChargeMicro = exactCharge c u\<rparr> else Inl overflow)"
  using chargeLoop_eq [OF components_amounts [OF assms(2) selectRates_wf [OF assms(1)]] amount_0]
  by (auto simp: wf_candidate_fee [OF assms(1)] charge_fits_def exactCharge_def Let_def)

lemma bindE_ext: "(\<And>x. m = Inr x \<Longrightarrow> f x = g x) \<Longrightarrow> bindE m f = bindE m g"
  by (cases m) auto

lemma Evaluate_exact_eq:
  assumes "billing_laws env" "wf_snapshot d"
  shows "Evaluate env (Some d) ep raw observed =
     bindE (RequireEligible env observed) (\<lambda>_.
     bindE (candidate (Some d) ep) (\<lambda>c.
     bindE (validateGo env (RawUsage_val raw) RawUsage_type ''invalid_usage'') (\<lambda>_.
     bindE (exactUsage c raw) (\<lambda>u.
       if charge_fits c u then Inr \<lparr>ev_Usage = u, ev_ChargeMicro = exactCharge c u\<rparr> else Inl overflow))))"
  unfolding Evaluate_def
proof (intro bindE_ext)
  fix c x
  assume c: "candidate (Some d) ep = Inr c" and "validateGo env (RawUsage_val raw) RawUsage_type ''invalid_usage'' = Inr x"
  then have v: "valid_raw raw" using validateGo_RawUsage [OF assms(1)] by auto
  note wf = candidate_wf [OF assms(2) c, THEN conjunct1]
  let ?k = "\<lambda>u. bindE (chargeLoop (components u (selectRates c (nu_TotalPromptTokens u))) (bc_RequestFeeMicro c) (bc_RequestFeeMicro c > 0))
      (\<lambda>(cost, positive). Inr \<lparr>ev_Usage = u, ev_ChargeMicro = (if positive \<and> cost = 0 then 1 else cost)\<rparr>)"
  have "bindE (normalize c raw) (\<lambda>u. bindE (validateSemantics (NormalizedUsage_val u)) (\<lambda>_. ?k u)) = bindE (exactUsage c raw) ?k"
    by (rule normalize_exact [OF v])
  also have "\<dots> = bindE (exactUsage c raw) (\<lambda>u. if charge_fits c u then Inr \<lparr>ev_Usage = u, ev_ChargeMicro = exactCharge c u\<rparr> else Inl overflow)"
    by (rule bindE_ext) (rule charge_step [OF wf exactUsage_valid [OF v]])
  finally show "bindE (normalize c raw) (\<lambda>u. bindE (validateSemantics (NormalizedUsage_val u)) (\<lambda>_. ?k u)) =
      bindE (exactUsage c raw) (\<lambda>u. if charge_fits c u then Inr \<lparr>ev_Usage = u, ev_ChargeMicro = exactCharge c u\<rparr> else Inl overflow)" .
qed

section \<open>Envelopes\<close>

lemma rawOf_exact:
  assumes "exactUsage c raw = Inr u"
  shows "rawOf c u = raw"
  using assms by (cases raw) (auto simp: exactUsage_def rawOf_def Let_def split: if_splits)

lemma Evaluate_SomeD:
  assumes "billing_laws env" "wf_snapshot d" "Evaluate env (Some d) ep raw obs = Inr ev"
  obtains c where "eligible obs" "candidate (Some d) ep = Inr c" "valid_raw raw" "exactUsage c raw = Inr (ev_Usage ev)"
    "charge_fits c (ev_Usage ev)" "ev_ChargeMicro ev = exactCharge c (ev_Usage ev)" "wf_candidate c"
proof -
  from assms(3) [unfolded Evaluate_exact_eq [OF assms(1,2)]] obtain c u where
    "RequireEligible env obs = Inr ()" "candidate (Some d) ep = Inr c"
    "validateGo env (RawUsage_val raw) RawUsage_type ''invalid_usage'' = Inr ()" "exactUsage c raw = Inr u" "charge_fits c u"
    "ev = \<lparr>ev_Usage = u, ev_ChargeMicro = exactCharge c u\<rparr>"
    by (auto split: if_splits)
  then show thesis
    using that RequireEligible_iff [OF assms(1)] validateGo_RawUsage [OF assms(1)] candidate_wf [OF assms(2)] by auto
qed

definition observedOf :: "TerminalEnvelope \<Rightarrow> Eligibility" where
  "observedOf e = DefaultEligibility\<lparr>el_RouteType := te_RouteType e, el_Streamed := te_Streamed e\<rparr>"

lemma eligible_observed: "eligible (observedOf e) \<longleftrightarrow> te_RouteType e \<in> {''chat.completions'', ''responses''}"
  by (simp add: eligible_def observedOf_def DefaultEligibility_def exclusions_def)

lemma Evaluate_eligible:
  assumes "billing_laws env" "wf_snapshot d" "Evaluate env (Some d) ep raw obs = Inr ev" "eligible obs'"
  shows "Evaluate env (Some d) ep raw obs' = Inr ev"
proof -
  have "RequireEligible env obs = Inr ()" "RequireEligible env obs' = Inr ()"
    using assms(3,4) RequireEligible_iff [OF assms(1)]
    by (auto elim!: Evaluate_SomeD [OF assms(1,2)])
  then show ?thesis using assms(3) by (simp add: Evaluate_def)
qed

end
