(* ===== verification/BillingProps.thy ===== *)
theory BillingProps
  imports BillingV1 "HOL-Library.Countable"
begin

text \<open>
  The properties of the billing contract, with a concrete environment that satisfies the laws
  of \<open>encoding/json\<close>: a value is written as a run of one letter whose length numbers its
  token list.
\<close>

section \<open>A concrete environment\<close>

instance token :: countable by countable_datatype

definition exampleBillingEnv :: billing_env where
  "exampleBillingEnv =
     \<lparr>be_tokens = (\<lambda>s. (from_nat (length s), True)),
      be_Marshal = (\<lambda>v. replicate (to_nat (tokens_of (json_of v))) CHR ''a''),
      be_sha256 = (\<lambda>s. replicate 32 CHR ''h''), be_Encode = (\<lambda>j. ''{}'' @ [char_of (10::nat)])\<rparr>"

lemma escapes_plain: "validateStringEscapes (replicate n CHR ''a'') = Inr ()"
  by (induction n) (simp_all add: validateStringEscapes.simps [of "_ # _"] validateStringEscapes.simps [of "[]"])

lemma clean_plain: "clean_text (replicate n CHR ''a'')"
proof -
  have "utf8_Valid (replicate n CHR ''a'')" by (rule utf8_Valid_ascii) (simp add: byte_def)
  moreover have "map byte (take 3 (replicate n CHR ''a'')) \<noteq> [0xef, 0xbb, 0xbf]"
    by (cases n) (auto simp: byte_def)
  ultimately show ?thesis by (auto simp: clean_text_def escapes_plain byte_def)
qed

lemma exampleBilling_laws: "billing_laws exampleBillingEnv"
  by (simp add: billing_laws_def exampleBillingEnv_def clean_plain)

definition exampleBillCandidate :: BillCandidate where
  "exampleBillCandidate = \<lparr>bc_EndpointID = ''e1'', bc_Provider = ''openai'', bc_ModelID = ''openai/m'', bc_UsageType = ''Credits'',
     bc_PriceHistoryVersion = 1,
     bc_Rates = \<lparr>rt_Input = 3000000, rt_CachedInput = 1500000, rt_CacheCreation = 3750000, rt_Output = 15000000\<rparr>,
     bc_Tiers = Some [\<lparr>ti_MaxPromptTokens = Some 1000,
         ti_Rates = \<lparr>rt_Input = 3000000, rt_CachedInput = 1500000, rt_CacheCreation = 3750000, rt_Output = 15000000\<rparr>\<rparr>,
       \<lparr>ti_MaxPromptTokens = None,
         ti_Rates = \<lparr>rt_Input = 6000000, rt_CachedInput = 3000000, rt_CacheCreation = 7500000, rt_Output = 30000000\<rparr>\<rparr>],
     bc_RequestFeeMicro = 0, bc_Rounding = ''half_up_per_million'', bc_PromptConvention = ''includes_cache'',
     bc_OutputConvention = ''includes_reasoning''\<rparr>"

definition exampleSnapshot :: snapshotData where
  "exampleSnapshot = \<lparr>sd_V = 1, sd_Kind = ''credits_endpoint'', sd_Candidates = Some [exampleBillCandidate],
     sd_MinimumCharge = ''one_micro_if_positive'', sd_ChargeCap = VNil, sd_TierBasis = ''total_prompt'',
     sd_TierBoundary = ''inclusive'', sd_TierFallback = ''last_tier''\<rparr>"

definition exampleRaw :: RawUsage where
  "exampleRaw = \<lparr>ru_InputTokens = 2000, ru_OutputTokens = 10, ru_CacheReadTokens = 500, ru_CacheCreationTokens = 0,
     ru_ReasoningTokens = 4\<rparr>"

lemmas example_defs = exampleSnapshot_def exampleBillCandidate_def snapshot_val_def Candidate_val_def Tier_val_def Rates_val_def
  slice_val_def
lemmas type_defs = snapshot_type_def Candidate_type_def Tier_type_def Rates_type_def

lemma example_semantics: "validateSemantics (Candidate_val exampleBillCandidate) = Inr ()"
  by code_simp

lemma example_conforms_candidate: "conforms Candidate_type noTag (Candidate_val exampleBillCandidate)"
proof -
  have "conforms Tier_type noTag (Tier_val t)" if "t \<in> set (the (bc_Tiers exampleBillCandidate))" for t
    using that by (auto simp: exampleBillCandidate_def Tier_val_def Rates_val_def Tier_type_def Rates_type_def validateSemantics_def i64_defs tag_defs)
  then show ?thesis using example_semantics
    by (simp add: Candidate_val_def Candidate_type_def)
      (simp add: exampleBillCandidate_def slice_val_def Rates_val_def Rates_type_def validateSemantics_def i64_defs string_ok_def tag_defs
        bounds_ok_def identityPattern_def alnum_def byte_def)
qed

lemma example_conforms: "conforms snapshot_type noTag (snapshot_val exampleSnapshot)"
proof -
  have "validateSemantics (snapshot_val exampleSnapshot) = Inr ()" by code_simp
  then show ?thesis using example_conforms_candidate
    by (simp add: exampleSnapshot_def snapshot_val_def snapshot_type_def slice_val_def string_ok_def tag_defs bounds_ok_def i64_defs)
qed

lemma example_plain: "plain (snapshot_val exampleSnapshot)"
  by (simp add: example_defs byte_def)

lemma example_validate: "validateValue (json_of (snapshot_val exampleSnapshot)) snapshot_type noTag path = Inr (snapshot_val exampleSnapshot)"
  by (rule validateValue_roundtrip [OF example_conforms snapshot_wf_type example_plain])

lemma example_snapshot_json:
  "json_distinct (json_of (snapshot_val exampleSnapshot)) \<and> json_depth (json_of (snapshot_val exampleSnapshot)) \<le> 64"
  by (simp add: example_defs)

lemma example_snapshot_of: "snapshot_of (snapshot_val exampleSnapshot) = exampleSnapshot"
  by code_simp

lemma example_parse: "ParseSnapshot exampleBillingEnv (be_Marshal exampleBillingEnv (snapshot_val exampleSnapshot)) = Inr exampleSnapshot"
  using decodeJSON_Marshal [OF exampleBilling_laws, of "snapshot_val exampleSnapshot"] example_snapshot_json example_validate example_snapshot_of
  by (simp add: ParseSnapshot_def parseModel_def)

lemma example_usage: "exactUsage exampleBillCandidate exampleRaw = Inr
    \<lparr>nu_UncachedInputTokens = 1500, nu_TotalPromptTokens = 2000, nu_OutputTokens = 10, nu_CacheReadTokens = 500,
     nu_CacheCreationTokens = 0, nu_ReasoningTokens = 4\<rparr>"
  by code_simp

lemma example_candidate: "candidate (Some exampleSnapshot) ''e1'' = Inr exampleBillCandidate"
  by code_simp

lemma example_evaluate:
  "Evaluate exampleBillingEnv (Some exampleSnapshot) ''e1'' exampleRaw DefaultEligibility = Inr
     \<lparr>ev_Usage = \<lparr>nu_UncachedInputTokens = 1500, nu_TotalPromptTokens = 2000, nu_OutputTokens = 10, nu_CacheReadTokens = 500,
        nu_CacheCreationTokens = 0, nu_ReasoningTokens = 4\<rparr>, ev_ChargeMicro = 10800\<rparr>"
proof -
  note wf = ParseSnapshot_wf [OF example_parse]
  have "RequireEligible exampleBillingEnv DefaultEligibility = Inr ()"
    unfolding RequireEligible_iff [OF exampleBilling_laws] by code_simp
  moreover have "validateGo exampleBillingEnv (RawUsage_val exampleRaw) RawUsage_type ''invalid_usage'' = Inr ()"
    unfolding validateGo_RawUsage [OF exampleBilling_laws] by code_simp
  moreover have "charge_fits exampleBillCandidate \<lparr>nu_UncachedInputTokens = 1500, nu_TotalPromptTokens = 2000, nu_OutputTokens = 10,
      nu_CacheReadTokens = 500, nu_CacheCreationTokens = 0, nu_ReasoningTokens = 4\<rparr>" by code_simp
  moreover have "exactCharge exampleBillCandidate \<lparr>nu_UncachedInputTokens = 1500, nu_TotalPromptTokens = 2000, nu_OutputTokens = 10,
      nu_CacheReadTokens = 500, nu_CacheCreationTokens = 0, nu_ReasoningTokens = 4\<rparr> = 10800" by code_simp
  ultimately show ?thesis
    by (simp add: Evaluate_exact_eq [OF exampleBilling_laws wf] example_candidate example_usage)
qed

lemma validateGo_conforms:
  assumes "billing_laws env" "conforms t noTag v" "wf_type t noTag" "plain v" "json_distinct (json_of v)" "json_depth (json_of v) \<le> 64"
  shows "validateGo env v t code = Inr ()"
  using validateGo_eq [OF assms(1,5,6)] validateValue_roundtrip [OF assms(2-4)] by simp

definition exampleEnvelope :: TerminalEnvelope where
  "exampleEnvelope = \<lparr>te_V = 1, te_AuthorizationID = ''a1'', te_GenerationID = ''g1'', te_WorkspaceID = ''w1'', te_KeyID = ''k1'',
     te_InvocationNonce = ''n1'', te_BillingAuthority = ''local'', te_JournalRegion = ''r1'', te_Epoch = 7, te_SelectedEndpoint = ''e1'',
     te_SnapshotVersion = 1, te_SnapshotHash = hex_EncodeToString (replicate 32 CHR ''h''),
     te_Usage = \<lparr>nu_UncachedInputTokens = 1500, nu_TotalPromptTokens = 2000, nu_OutputTokens = 10, nu_CacheReadTokens = 500,
       nu_CacheCreationTokens = 0, nu_ReasoningTokens = 4\<rparr>,
     te_ChargeMicro = 10800, te_TerminalKind = ''settle'', te_RouteType = ''chat.completions'', te_Streamed = False\<rparr>"

lemma example_hash_ok: "digestPattern (hex_EncodeToString (replicate 32 CHR ''h''))"
  by (simp add: digestPattern_def hex_EncodeToString_length hex_EncodeToString_lower)

lemma hex_ascii: "\<forall>c \<in> set (hex_EncodeToString s). byte c < 128"
  using hex_EncodeToString_lower [of s] by (fastforce simp: list_all_iff lower_hex_char_def byte_def Let_def)

lemma example_envelope_conforms: "conforms Envelope_type noTag (Envelope_val exampleEnvelope)"
proof -
  have "validateSemantics (Envelope_val exampleEnvelope) = Inr ()"
    by (simp add: validateSemantics_def Envelope_val_def semEnvelope_def Envelope_of_def fld_def exampleEnvelope_def)
  moreover have "conforms NormalizedUsage_type noTag (NormalizedUsage_val (te_Usage exampleEnvelope))"
    by (simp add: NormalizedUsage_type_def NormalizedUsage_val_def semantics_usage [unfolded NormalizedUsage_val_def]
        exampleEnvelope_def i64_defs tag_defs) code_simp
  ultimately show ?thesis
    by (simp add: Envelope_val_def Envelope_type_def)
      (simp add: exampleEnvelope_def i64_defs string_ok_def tag_defs identityPattern_def noncePattern_def alnum_def byte_def example_hash_ok)
qed

lemma example_envelope_valid: "validateGo exampleBillingEnv (Envelope_val exampleEnvelope) Envelope_type ''invalid_envelope'' = Inr ()"
proof (rule validateGo_conforms [OF exampleBilling_laws example_envelope_conforms])
  show "wf_type Envelope_type noTag" by (simp add: Envelope_type_def NormalizedUsage_type_def tag_defs)
  show "plain (Envelope_val exampleEnvelope)"
    using hex_ascii by (simp add: Envelope_val_def NormalizedUsage_val_def exampleEnvelope_def byte_def)
qed (simp_all add: Envelope_val_def NormalizedUsage_val_def)

lemma example_hash: "CanonicalHash exampleBillingEnv (CSnapshot (Some exampleSnapshot)) = Inr (te_SnapshotHash exampleEnvelope)"
  using decodeJSON_Marshal [OF exampleBilling_laws, of "snapshot_val exampleSnapshot"] example_snapshot_json
  by (simp add: CanonicalHash_def CanonicalBytes_def canonicalBytes_def exampleEnvelope_def) (simp add: exampleBillingEnv_def)

lemma example_envelope_validates: "ValidateEnvelope exampleBillingEnv (Some exampleSnapshot) exampleEnvelope = Inr ()"
  using example_evaluate example_envelope_valid example_hash
  by (simp add: ValidateEnvelope_def validateEnvelope_def exampleEnvelope_def example_candidate rawOf_def exampleBillCandidate_def
      exampleRaw_def DefaultEligibility_def)

definition halfEven :: "int \<Rightarrow> int \<Rightarrow> int" where
  "halfEven n d = (let q = n div d; r = n mod d in if 2 * r > d \<or> (2 * r = d \<and> odd q) then q + 1 else q)"

lemma str_less_trans: "str_less a b \<Longrightarrow> str_less b c \<Longrightarrow> str_less a c"
proof (induction a b arbitrary: c rule: str_less.induct)
  case (3 a as b bs)
  then show ?case by (cases c) auto
qed (auto elim: str_less.elims)

lemma str_less_irrefl: "\<not> str_less a a"
  by (induction a) auto

lemma sortedStrict_distinct: "sortedStrict xs \<Longrightarrow> distinct xs"
proof (induction xs)
  case (Cons x xs)
  have "sortedStrict (x # xs) \<Longrightarrow> \<forall>y \<in> set xs. str_less x y" for x xs
    by (induction xs arbitrary: x) (auto intro: str_less_trans)
  moreover have "sortedStrict xs" using Cons(2) by (cases xs) auto
  ultimately show ?case using Cons str_less_irrefl by fastforce
qed simp

lemma hex4_ascii: "\<forall>c \<in> set (hex4 n). byte c < 127"
proof -
  have "byte (hex_digit (k mod 16)) < 127" for k
    using hex_digit_lower [of "k mod 16"] by (auto simp: lower_hex_char_def byte_def Let_def)
  then show ?thesis by (simp add: hex4_def)
qed

lemma asciiRune_ascii: "\<forall>c \<in> set (asciiRune r). byte c < 127"
  using hex4_ascii by (auto simp: asciiRune_def Let_def split: if_splits) (simp_all add: byte_def)

section \<open>Properties\<close>

text \<open>(C3) Charging is exact. On a snapshot that was parsed, \<open>Evaluate\<close> with its checked \<open>int64\<close>
  arithmetic equals the reference over unbounded integers: eligibility and endpoint errors
  first, then usage normalised by the endpoint's cache convention, then the sum of the four
  half-up components of the tier selected by the total prompt, at least one micro when any
  priced component is used. Overflow is reported exactly when a half-up numerator or the
  total does not fit, and never wraps.\<close>
theorem Evaluate_reference:
  assumes "billing_laws env" "ParseSnapshot env text = Inr d"
  shows "Evaluate env (Some d) ep raw observed =
     bindE (RequireEligible env observed) (\<lambda>_.
     bindE (candidate (Some d) ep) (\<lambda>c.
     bindE (validateGo env (RawUsage_val raw) RawUsage_type ''invalid_usage'') (\<lambda>_.
     bindE (exactUsage c raw) (\<lambda>u.
       if charge_fits c u then Inr \<lparr>ev_Usage = u, ev_ChargeMicro = exactCharge c u\<rparr> else Inl overflow))))"
  by (rule Evaluate_exact_eq [OF assms(1) ParseSnapshot_wf [OF assms(2)]])

theorem Evaluate_reference_witness:
  "\<exists>u. Evaluate exampleBillingEnv (Some exampleSnapshot) ''e1'' exampleRaw DefaultEligibility = Inr \<lparr>ev_Usage = u, ev_ChargeMicro = 10800\<rparr>
     \<and> exactCharge exampleBillCandidate u = 10800"
proof -
  have e: "RequireEligible exampleBillingEnv DefaultEligibility = Inr ()"
    unfolding RequireEligible_iff [OF exampleBilling_laws] by code_simp
  have v: "validateGo exampleBillingEnv (RawUsage_val exampleRaw) RawUsage_type ''invalid_usage'' = Inr ()"
    unfolding validateGo_RawUsage [OF exampleBilling_laws] by code_simp
  show ?thesis
    using Evaluate_reference [OF exampleBilling_laws example_parse, of "''e1''" exampleRaw DefaultEligibility] example_evaluate
    by (auto simp: e v example_candidate example_usage split: if_splits)
qed

text \<open>Only ordinary traffic is billed by this contract: \<open>RequireEligible\<close> accepts exactly the
  typed Credits context under local authority on the two chat routes, with the default
  service tier and without any markup, fee or excluded feature.\<close>
theorem RequireEligible_exact:
  assumes "billing_laws env"
  shows "RequireEligible env c = Inr () \<longleftrightarrow>
    el_Typed c \<and> el_UsageType c = ''Credits'' \<and> el_Authority c = ''local''
    \<and> (el_RouteType c = ''chat.completions'' \<or> el_RouteType c = ''responses'')
    \<and> (el_ServiceTier c = None \<or> el_ServiceTier c = Some ''default'')
    \<and> el_AppMarkup c = 0 \<and> el_CustomMarkup c = 0 \<and> el_ReceiptFee c = 0 \<and> el_RequestFee c = 0
    \<and> \<not> el_CustomModel c \<and> \<not> el_UserModel c \<and> \<not> el_ToolCost c \<and> \<not> el_SearchCost c \<and> \<not> el_ImageCost c \<and> \<not> el_VideoCost c
    \<and> \<not> el_Partner c \<and> \<not> el_Liberty c \<and> \<not> el_NativeBatch c \<and> \<not> el_Fusion c \<and> \<not> el_Polyphemus c \<and> \<not> el_PrivateTierBasis c"
  unfolding RequireEligible_iff [OF assms] eligible_def by (simp add: exclusions_def)

theorem RequireEligible_exact_witness:
  "RequireEligible exampleBillingEnv (DefaultEligibility\<lparr>el_RouteType := ''responses''\<rparr>) = Inr ()
   \<and> RequireEligible exampleBillingEnv (DefaultEligibility\<lparr>el_Fusion := True\<rparr>) \<noteq> Inr ()"
  unfolding RequireEligible_exact [OF exampleBilling_laws] by (simp add: DefaultEligibility_def)

text \<open>(C5) A terminal envelope that validates carries the exact price. Its snapshot hash is the
  canonical hash of this snapshot, its endpoint is in the snapshot, its usage satisfies the
  accounting equation, and its charge is the exact charge of that usage, or zero for a
  refund.\<close>
theorem ValidateEnvelope_sound:
  assumes "billing_laws env" "ParseSnapshot env text = Inr d" "ValidateEnvelope env (Some d) e = Inr ()"
  shows "CanonicalHash env (CSnapshot (Some d)) = Inr (te_SnapshotHash e)
    \<and> valid_usage (te_Usage e)
    \<and> (\<exists>c. candidate (Some d) (te_SelectedEndpoint e) = Inr c
        \<and> te_ChargeMicro e = (if te_TerminalKind e = ''refund'' then 0 else exactCharge c (te_Usage e)))"
proof -
  note wf = ParseSnapshot_wf [OF assms(2)]
  from assms(3) obtain c ev where v: "CanonicalHash env (CSnapshot (Some d)) = Inr (te_SnapshotHash e)"
    "candidate (Some d) (te_SelectedEndpoint e) = Inr c"
    "Evaluate env (Some d) (te_SelectedEndpoint e) (rawOf c (te_Usage e)) (observedOf e) = Inr ev"
    "te_ChargeMicro e = (if te_TerminalKind e = ''refund'' then 0 else ev_ChargeMicro ev)" "te_Usage e = ev_Usage ev"
    by (auto simp: ValidateEnvelope_def validateEnvelope_def Let_def observedOf_def split: if_splits)
  from v(3) obtain c' where c': "candidate (Some d) (te_SelectedEndpoint e) = Inr c'" "valid_raw (rawOf c (te_Usage e))"
    "exactUsage c' (rawOf c (te_Usage e)) = Inr (ev_Usage ev)" "ev_ChargeMicro ev = exactCharge c' (ev_Usage ev)"
    by (rule Evaluate_SomeD [OF assms(1) wf])
  then show ?thesis using v exactUsage_valid [OF c'(2,3)] by auto
qed

text \<open>Evaluation and envelopes agree: the terminal envelope that carries the usage and charge
  of a successful evaluation, the canonical snapshot hash and well-formed identities
  validates (a refund with charge zero).\<close>
theorem ValidateEnvelope_complete:
  assumes "billing_laws env" "ParseSnapshot env text = Inr d" "Evaluate env (Some d) ep raw obs = Inr ev"
    and "validateGo env (Envelope_val e) Envelope_type ''invalid_envelope'' = Inr ()"
    and "CanonicalHash env (CSnapshot (Some d)) = Inr (te_SnapshotHash e)" "te_SelectedEndpoint e = ep"
    and "te_Usage e = ev_Usage ev" "te_ChargeMicro e = (if te_TerminalKind e = ''refund'' then 0 else ev_ChargeMicro ev)"
    and "te_RouteType e \<in> {''chat.completions'', ''responses''}"
  shows "ValidateEnvelope env (Some d) e = Inr ()"
proof -
  note wf = ParseSnapshot_wf [OF assms(2)]
  obtain c where c: "candidate (Some d) ep = Inr c" "exactUsage c raw = Inr (ev_Usage ev)"
    by (rule Evaluate_SomeD [OF assms(1) wf assms(3)])
  have "Evaluate env (Some d) ep (rawOf c (te_Usage e)) (observedOf e) = Inr ev"
    using Evaluate_eligible [OF assms(1) wf assms(3), of "observedOf e"] rawOf_exact [OF c(2)] assms(7,9)
    by (simp add: eligible_observed)
  then show ?thesis using assms(4-8) c
    by (simp add: ValidateEnvelope_def validateEnvelope_def observedOf_def)
qed

theorem ValidateEnvelope_complete_witness:
  "ValidateEnvelope exampleBillingEnv (Some exampleSnapshot) exampleEnvelope = Inr ()"
  using ValidateEnvelope_complete [OF exampleBilling_laws example_parse example_evaluate example_envelope_valid example_hash]
  by (simp add: exampleEnvelope_def)

theorem ValidateEnvelope_sound_witness:
  "\<exists>c. candidate (Some exampleSnapshot) ''e1'' = Inr c \<and> te_ChargeMicro exampleEnvelope = exactCharge c (te_Usage exampleEnvelope)"
  using ValidateEnvelope_sound [OF exampleBilling_laws example_parse example_envelope_validates] by (simp add: exampleEnvelope_def)

text \<open>Freezing rounds half to even exactly. For every rate and the small positive ratios of
  the contract, \<open>roundRatioEven\<close> is the exact half-even rounding of the rate times the ratio, and
  it fails only when that rounded rate itself does not fit: dividing first, no intermediate
  product rejects a representable rate.\<close>
theorem roundRatioEven_exact:
  assumes "amount value" "0 < numerator" "numerator \<le> 1000" "0 < denominator" "denominator \<le> 1000"
  shows "roundRatioEven value numerator denominator =
    (let exact = halfEven (value * numerator) denominator in
     if exact \<le> MaxInt64 then Inr exact else Inl overflow)"
proof -
  define q r where "q = value div denominator" and "r = value mod denominator"
  define s m where "s = r * numerator div denominator" and "m = r * numerator mod denominator"
  have r: "0 \<le> r" "r < denominator" using assms(4) by (auto simp: r_def)
  have q: "amount q" using assms(1,4) zdiv_mono2 [of "value" 1 denominator]
    by (auto simp: q_def amount_def pos_imp_zdiv_nonneg_iff)
  have rn: "0 \<le> r * numerator" "r * numerator \<le> 1000000"
    using r assms mult_mono [of r 1000 numerator 1000] by auto
  have s: "0 \<le> s" "s \<le> 1000000" using rn assms(4) zdiv_mono2 [of "r * numerator" 1 denominator]
    by (auto simp: s_def pos_imp_zdiv_nonneg_iff)
  have m: "0 \<le> m" "m < denominator" using assms(4) by (auto simp: m_def)
  have decomp: "value * numerator = (q * numerator) * denominator + r * numerator"
    unfolding q_def r_def by (metis div_mult_mod_eq distrib_right mult.assoc mult.commute)
  have vd: "value * numerator div denominator = q * numerator + s" "value * numerator mod denominator = m"
    using assms(4) unfolding decomp s_def m_def by simp_all
  have am: "amount numerator" "amount r" "amount (r * numerator)" "amount s" "amount 1"
    using assms r rn s by (auto simp: amount_def i64_defs)
  have quots: "i64_quot value denominator = q" "i64_rem value denominator = r"
    "i64_quot (r * numerator) denominator = s" "i64_rem (r * numerator) denominator = m"
    using assms am unfolding q_def r_def s_def m_def by (auto simp: i64_quot_nonneg i64_rem_nonneg amount_def)
  have "in_i64 (m * 2)" using m assms(5) unfolding i64_defs by linarith
  then have m2: "i64_mul m 2 = 2 * m" by (simp add: i64_mul_exact)
  have qn: "0 \<le> q * numerator" using q assms by (auto simp: amount_def)
  have odd: "i64_rem b 2 = 1 \<longleftrightarrow> odd b" if "amount b" for b
    using that by (simp add: i64_rem_nonneg amount_def odd_iff_mod_2_eq_one)
  have exact: "halfEven (value * numerator) denominator =
      (if 2 * m > denominator \<or> (2 * m = denominator \<and> odd (q * numerator + s)) then q * numerator + s + 1 else q * numerator + s)"
    unfolding halfEven_def vd Let_def ..
  have rmul: "checkedMultiply r numerator = Inr (r * numerator)"
    using checkedMultiply_eq [OF am(2,1)] am(3) by (simp add: amount_def)
  show ?thesis
  proof (cases "q * numerator + s \<le> MaxInt64")
    case True
    then have a: "amount (q * numerator)" "amount (q * numerator + s)" using qn s by (auto simp: amount_def)
    have "checkedMultiply q numerator = Inr (q * numerator)" "checkedAdd (q * numerator) s = Inr (q * numerator + s)"
      using checkedMultiply_eq [OF q am(1)] checkedAdd_eq [OF a(1) am(4)] a True by (simp_all add: amount_def)
    then show ?thesis
      using True checkedAdd_eq [OF a(2) am(5)] by (simp add: roundRatioEven_def quots rmul m2 odd [OF a(2)] exact)
  next
    case False
    have "checkedMultiply q numerator = Inl overflow
        \<or> checkedMultiply q numerator = Inr (q * numerator) \<and> checkedAdd (q * numerator) s = Inl overflow"
      using checkedMultiply_eq [OF q am(1)] checkedAdd_eq [OF _ am(4), of "q * numerator"] False qn by (auto simp: amount_def)
    moreover have "\<not> halfEven (value * numerator) denominator \<le> MaxInt64" using False unfolding exact by auto
    ultimately show ?thesis by (auto simp: roundRatioEven_def quots rmul)
  qed
qed

theorem roundRatioEven_exact_witness: "roundRatioEven 10 5 4 = Inr 12 \<and> roundRatioEven 14 5 4 = Inr 18"
  using roundRatioEven_exact [of 10 5 4] roundRatioEven_exact [of 14 5 4]
  by (simp add: amount_def i64_defs halfEven_def Let_def)

text \<open>(C15) What \<open>ParseSnapshot\<close> accepts is a priceable snapshot: endpoints strictly sorted (so the
  endpoint lookup is unambiguous), every rate a non-negative \<open>int64\<close>, no request fee, the
  provider's own cache convention, and tier boundaries that increase with at most the last
  one open.\<close>
theorem ParseSnapshot_sound:
  assumes "ParseSnapshot env raw = Inr d"
  shows "sortedStrict (map bc_EndpointID (candidatesOf d)) \<and> distinct (map bc_EndpointID (candidatesOf d))
    \<and> list_all (\<lambda>c. wf_rates (bc_Rates c) \<and> list_all (\<lambda>t. wf_rates (ti_Rates t)) (tiersOf c) \<and> bc_RequestFeeMicro c = 0
        \<and> bc_PromptConvention c = (if bc_Provider c = ''anthropic'' then ''excludes_cache'' else ''includes_cache'')
        \<and> tierRules (- 1) (tiersOf c) = Inr ()) (candidatesOf d)"
proof -
  have wf: "wf_snapshot d" by (rule ParseSnapshot_wf [OF assms])
  have "tierRules (- 1) (tiersOf c) = Inr () \<and> bc_RequestFeeMicro c = 0
      \<and> bc_PromptConvention c = (if bc_Provider c = ''anthropic'' then ''excludes_cache'' else ''includes_cache'')"
    if "semCandidate c = Inr ()" for c
    using that by (auto simp: semCandidate_def Let_def split: if_splits)
  then show ?thesis
    using wf sortedStrict_distinct by (auto simp: wf_snapshot_def wf_candidate_def list_all_iff)
qed

theorem ParseSnapshot_sound_witness: "\<exists>raw d. ParseSnapshot exampleBillingEnv raw = Inr d \<and> distinct (map bc_EndpointID (candidatesOf d))"
  using ParseSnapshot_sound [OF example_parse] example_parse by blast

text \<open>Strict decoding is faithful: the text \<open>json.Marshal\<close> writes for a value decodes to that
  value's JSON, whenever its objects have distinct keys and it nests at most 64 deep, and no
  document whatever makes the decoder run out of its bound.\<close>
theorem decodeJSON_faithful:
  assumes "billing_laws env" "json_distinct (json_of v)" "json_depth (json_of v) \<le> 64"
  shows "decodeJSON env (be_Marshal env v) = Inr (json_of v) \<and> decodeJSON env raw \<noteq> Inl OutOfFuel"
  using decodeJSON_Marshal [OF assms] decodeJSON_total by blast

theorem decodeJSON_faithful_witness:
  "decodeJSON exampleBillingEnv (be_Marshal exampleBillingEnv (snapshot_val exampleSnapshot)) = Inr (json_of (snapshot_val exampleSnapshot))"
  using decodeJSON_faithful [OF exampleBilling_laws] example_snapshot_json by blast

text \<open>Canonical bytes are ASCII: whatever the value, every byte hashed is below 127.\<close>
theorem CanonicalBytes_ascii:
  assumes "CanonicalBytes env value = Inr bytes"
  shows "list_all (\<lambda>c. byte c < 127) bytes"
proof -
  have "\<exists>rs. bytes = concat (map asciiRune rs)"
    using assms
    by (auto simp: CanonicalBytes_def canonicalBytes_def Let_def split: canonical_arg.splits option.splits sum.splits decode_error.splits)
  then show ?thesis using asciiRune_ascii by (auto simp: list_all_iff)
qed

theorem CanonicalBytes_ascii_witness:
  "\<exists>b. CanonicalBytes exampleBillingEnv (CSnapshot (Some exampleSnapshot)) = Inr b \<and> list_all (\<lambda>c. byte c < 127) b"
proof -
  obtain b where b: "CanonicalBytes exampleBillingEnv (CSnapshot (Some exampleSnapshot)) = Inr b"
    using example_hash by (auto simp: CanonicalHash_def)
  show ?thesis using CanonicalBytes_ascii [OF b] b by blast
qed

end
