(* ===== verification/ControlPlane.thy ===== *)
theory ControlPlane
  imports GoText
begin

text \<open>
  Errors of calls to the control plane (package \<open>internal/trustedrouter\<close>, \<open>client.go\<close> and
  \<open>billing_backoff.go\<close>) and the two verdicts the caches of the enclave may remember. An error
  value either is a \<open>*ControlPlaneError\<close> somewhere in its chain (\<open>errors.As\<close> finds it) or is
  some other error, such as a transport failure. The observation scope of an error
  (\<open>ShadowScope\<close>) only feeds telemetry and is left out.
\<close>

record ControlPlaneError =
  ce_RateScope :: string
  ce_Path :: string
  ce_StatusCode :: int
  ce_Message :: string
  ce_Type :: string
  ce_Reason :: string
  ce_Body :: string
  ce_RetryAfter :: string

datatype call_error = ControlPlane ControlPlaneError | Transport

definition emptyControlPlaneError :: ControlPlaneError where
  "emptyControlPlaneError = \<lparr>ce_RateScope = '''', ce_Path = '''', ce_StatusCode = 0, ce_Message = '''', ce_Type = '''',
     ce_Reason = '''', ce_Body = '''', ce_RetryAfter = ''''\<rparr>"

definition IsDefinitiveInvalidCredential :: "call_error option \<Rightarrow> bool" where
  "IsDefinitiveInvalidCredential err = (case err of
     Some (ControlPlane e) \<Rightarrow>
       (if ce_StatusCode e \<noteq> 401 \<and> ce_StatusCode e \<noteq> 403 then False
        else ToLower (TrimSpace (ce_Type e)) = ''invalid_api_key'')
   | _ \<Rightarrow> False)"

definition IsInsufficientCredits :: "call_error option \<Rightarrow> bool" where
  "IsInsufficientCredits err = (case err of
     Some (ControlPlane e) \<Rightarrow> ce_Path e = ''/internal/gateway/authorize'' \<and> ce_StatusCode e = 402 \<and> ce_Type e = ''insufficient_credits''
   | _ \<Rightarrow> False)"

text \<open>The lower-case hex digest of a credential.\<close>

definition isLookupHash :: "string \<Rightarrow> bool" where
  "isLookupHash v \<longleftrightarrow> length v = 64 \<and> v = ToLower v
     \<and> (case hex_DecodeString v of None \<Rightarrow> False | Some decoded \<Rightarrow> length decoded = 32)"

lemma isLookupHash_iff: "isLookupHash v \<longleftrightarrow> length v = 64 \<and> list_all lower_hex_char v"
proof
  assume "isLookupHash v"
  then have l: "length v = 64" and t: "map to_lower_char v = v" and "hex_DecodeString v \<noteq> None"
    by (auto simp: isLookupHash_def ToLower_def split: option.splits)
  then have "\<forall>c \<in> set v. hex_val c \<noteq> None" using hex_DecodeString_chars by blast
  moreover have "\<forall>c \<in> set v. to_lower_char c = c" using t by (metis list.map_ident map_eq_conv)
  ultimately show "length v = 64 \<and> list_all lower_hex_char v" using l by (auto simp: list_all_iff lower_hex_iff)
next
  assume a: "length v = 64 \<and> list_all lower_hex_char v"
  then have "\<forall>c \<in> set v. hex_val c \<noteq> None" and t: "map to_lower_char v = v"
    by (auto simp: list_all_iff lower_hex_iff map_idI)
  moreover have "even (length v)" using a by simp
  ultimately obtain bs where bs: "hex_DecodeString v = Some bs" using hex_DecodeString_total by blast
  then have "length bs = 32" using hex_DecodeString_length [OF bs] a by simp
  then show "isLookupHash v" using a bs t by (simp add: isLookupHash_def ToLower_def)
qed

end
