(* ===== verification/SettleOutbox.thy ===== *)
theory SettleOutbox
  imports SpendLeaseState GoJSON ControlPlane
begin

text \<open>
  The durable settle outbox, writing half (package \<open>internal/settleoutbox\<close>, \<open>outbox.go\<close>): the
  object envelope and its name, encoding and decoding, the queued writer with its retry
  loop. The object store, the JSON codec, SHA-256 and the clock are parameters
  (\<open>outbox_env\<close>, \<open>outbox_world\<close>); a world is whatever they act on.
\<close>

section \<open>Objects\<close>

record FrozenTerminal =
  fz_Path :: string
  fz_Body :: string
  fz_BaseURL :: string
  fz_BootAuth :: string

record OutEntry =
  en_Terminal :: FrozenTerminal
  en_Reason :: string
  en_Attempts :: int

record OutObject =
  ob_Version :: int
  ob_Kind :: string
  ob_Path :: string
  ob_Body :: string
  ob_BodySHA256 :: string
  ob_BaseURL :: string
  ob_BootAuth :: string
  ob_BootKID :: string
  ob_AuthorizationID :: string
  ob_Reason :: string
  ob_Attempts :: int
  ob_WrittenAt :: string

datatype store_error = ErrNotFound | ErrPrecondition | OtherStoreError string

datatype outbox_error =
    NotATerminalPath | EmptyTerminalBody | SignReplayFailed | UnmarshalFailed | WrongVersion
  | DigestMismatch | NoStore | StoreFailed store_error

text \<open>The lease object of the sweeper (\<open>sweeper.go\<close>), here because its codec is part of the
  environment. Unmarshalling fills the fields it reached and says whether it succeeded.\<close>

record sweep_lease =
  sl_Owner :: string
  sl_Until :: int
  sl_Attempts :: int

record outbox_env =
  ox_sha256 :: "string \<Rightarrow> string"
  ox_marshal :: "OutObject \<Rightarrow> string"
  ox_unmarshal :: "string \<Rightarrow> OutObject option"
  ox_authField :: "string \<Rightarrow> string option"
  ox_formatTime :: "gotime \<Rightarrow> string"
  ox_marshalLease :: "sweep_lease \<Rightarrow> string"
  ox_unmarshalLease :: "string \<Rightarrow> sweep_lease \<times> bool"

definition outboxVersion :: int where "outboxVersion = 1"

definition ObjectPrefix :: string where
  "ObjectPrefix = ''trustedrouter-settle-outbox/v1/pending/''"

definition OutKind :: "string \<Rightarrow> outbox_error + string" where
  "OutKind path =
     (if path = ''/internal/gateway/settle'' then Inr ''settle''
      else if path = ''/internal/gateway/refund'' then Inr ''refund''
      else Inl NotATerminalPath)"

definition kindOf :: "string \<Rightarrow> string" where
  "kindOf path = (case OutKind path of Inl _ \<Rightarrow> '''' | Inr kind \<Rightarrow> kind)"

definition forbiddenIDChars :: string where
  "forbiddenIDChars = ''/'' @ [CHR 0x5C] @ ''?#%'' @ [CHR 0x0A, CHR 0x0D, CHR 0x09] @ '' ''"

definition ObjectName :: "outbox_env \<Rightarrow> string \<Rightarrow> string \<Rightarrow> string \<Rightarrow> string" where
  "ObjectName env kind authID body =
     (let digest = ox_sha256 env body;
          id0 = TrimSpace authID;
          id = (if id0 = '''' \<or> ContainsAny id0 forbiddenIDChars \<or> length id0 > 128 then ''unnamed'' else id0)
      in ObjectPrefix @ kind @ ''/'' @ id @ ''/'' @ hex_EncodeToString (take 16 digest) @ ''.json'')"

definition authorizationID :: "outbox_env \<Rightarrow> string \<Rightarrow> string" where
  "authorizationID env body = (case ox_authField env body of None \<Rightarrow> '''' | Some f \<Rightarrow> f)"

definition Encode :: "outbox_env \<Rightarrow> OutEntry \<Rightarrow> DigestSigner option \<Rightarrow> gotime \<Rightarrow> outbox_error + string \<times> string" where
  "Encode env entry signer now =
     (let t = en_Terminal entry in
      bindE (OutKind (fz_Path t)) (\<lambda>kind.
        if fz_Body t = '''' then Inl EmptyTerminalBody
        else
          (let object = \<lparr>ob_Version = outboxVersion, ob_Kind = kind, ob_Path = fz_Path t, ob_Body = fz_Body t,
                 ob_BodySHA256 = hex_EncodeToString (ox_sha256 env (fz_Body t)), ob_BaseURL = fz_BaseURL t,
                 ob_BootAuth = fz_BootAuth t, ob_BootKID = '''', ob_AuthorizationID = authorizationID env (fz_Body t),
                 ob_Reason = en_Reason entry, ob_Attempts = en_Attempts entry, ob_WrittenAt = ox_formatTime env now\<rparr>;
               finish = (\<lambda>ob. Inr (ObjectName env kind (ob_AuthorizationID ob) (fz_Body t), ox_marshal env ob)) in
           (case signer of
              None \<Rightarrow> finish object
            | Some sg \<Rightarrow>
              if ob_BootAuth object = '''' \<and> ds_Kid sg \<noteq> '''' then
                (case SignAuthorize (ox_sha256 env) signer ''POST'' (fz_Path t) (fz_Body t) of
                   Inl _ \<Rightarrow> Inl SignReplayFailed
                 | Inr auth \<Rightarrow> finish (object\<lparr>ob_BootAuth := HeaderValue auth, ob_BootKID := ba_KID auth\<rparr>))
              else finish object))))"

definition Decode :: "outbox_env \<Rightarrow> string \<Rightarrow> outbox_error + OutObject" where
  "Decode env data =
     (case ox_unmarshal env data of
        None \<Rightarrow> Inl UnmarshalFailed
      | Some object \<Rightarrow>
        if ob_Version object \<noteq> outboxVersion then Inl WrongVersion
        else bindE (OutKind (ob_Path object)) (\<lambda>_.
          if ob_BodySHA256 object \<noteq> hex_EncodeToString (ox_sha256 env (ob_Body object)) then Inl DigestMismatch
          else Inr object))"

definition object_Terminal :: "OutObject \<Rightarrow> FrozenTerminal" where
  "object_Terminal ob = \<lparr>fz_Path = ob_Path ob, fz_Body = ob_Body ob, fz_BaseURL = ob_BaseURL ob, fz_BootAuth = ob_BootAuth ob\<rparr>"

section \<open>The store\<close>

record StoredObject =
  so_Data :: string
  so_Generation :: int

record ObjectMeta =
  om_Name :: string
  om_Generation :: int

record 'w outbox_world =
  ow_Get :: "'w \<Rightarrow> string \<Rightarrow> 'w \<times> (store_error + StoredObject)"
  ow_Put :: "'w \<Rightarrow> string \<Rightarrow> string \<Rightarrow> int \<Rightarrow> 'w \<times> (store_error + StoredObject)"
  ow_Delete :: "'w \<Rightarrow> string \<Rightarrow> int \<Rightarrow> 'w \<times> (store_error + unit)"
  ow_List :: "'w \<Rightarrow> string \<Rightarrow> int \<Rightarrow> string \<Rightarrow> 'w \<times> (store_error + ObjectMeta list \<times> string)"
  ow_Post :: "'w \<Rightarrow> FrozenTerminal \<Rightarrow> 'w \<times> call_error option"
  ow_now :: "'w \<Rightarrow> 'w \<times> gotime"
  ow_ctxDone :: "'w \<Rightarrow> 'w \<times> bool"
  ow_objects :: "'w \<Rightarrow> (string \<rightharpoonup> string)"

section \<open>The writer\<close>

record WriteResult =
  wr_Name :: string
  wr_AlreadyDurable :: bool

record 'w Writer =
  wt_ops :: "'w outbox_world option"
  wt_signer :: "DigestSigner option"

definition writeAttempts :: nat where "writeAttempts = 3"
definition defaultQueueSize :: nat where "defaultQueueSize = 4096"

definition Write :: "outbox_env \<Rightarrow> 'w Writer option \<Rightarrow> 'w \<Rightarrow> OutEntry \<Rightarrow> 'w \<times> WriteResult \<times> outbox_error option" where
  "Write env writer w entry =
     (case Option.bind writer wt_ops of
        None \<Rightarrow> (w, \<lparr>wr_Name = '''', wr_AlreadyDurable = False\<rparr>, Some NoStore)
      | Some ops \<Rightarrow>
        (let (w1, now) = ow_now ops w in
         (case Encode env entry (Option.bind writer wt_signer) now of
            Inl e \<Rightarrow> (w1, \<lparr>wr_Name = '''', wr_AlreadyDurable = False\<rparr>, Some e)
          | Inr (name, data) \<Rightarrow>
            (case ow_Put ops w1 name data 0 of
               (w2, Inr _) \<Rightarrow> (w2, \<lparr>wr_Name = name, wr_AlreadyDurable = False\<rparr>, None)
             | (w2, Inl err) \<Rightarrow>
                 if err = ErrPrecondition then (w2, \<lparr>wr_Name = name, wr_AlreadyDurable = True\<rparr>, None)
                 else (w2, \<lparr>wr_Name = name, wr_AlreadyDurable = False\<rparr>, Some (StoreFailed err))))))"

datatype write_end = Written WriteResult | Lost | Abandoned

text \<open>The loop of \<open>writeWithRetry\<close> from a given attempt. The context is read once after a failed
  write (\<open>ctx.Err\<close>) and once by the \<open>select\<close> on the retry timer.\<close>

function writeRetry :: "outbox_env \<Rightarrow> 'w outbox_world \<Rightarrow> 'w Writer option \<Rightarrow> 'w \<Rightarrow> OutEntry \<Rightarrow> nat \<Rightarrow> 'w \<times> write_end" where
  "writeRetry env ops writer w entry attempt =
     (if attempt > writeAttempts then (w, Lost)
      else (case Write env writer w entry of
          (w1, result, None) \<Rightarrow> (w1, Written result)
        | (w1, _, Some _) \<Rightarrow>
          (let (w2, done1) = (if attempt = writeAttempts then (w1, False) else ow_ctxDone ops w1) in
           if attempt = writeAttempts \<or> done1 then (w2, Lost)
           else (let (w3, done2) = ow_ctxDone ops w2 in
                 if done2 then (w3, Abandoned)
                 else writeRetry env ops writer w3 entry (Suc attempt)))))"
  by pat_completeness auto
termination by (relation "measure (\<lambda>(env, ops, writer, w, entry, attempt). Suc writeAttempts - attempt)") auto

declare writeRetry.simps [simp del]

definition writeWithRetry :: "outbox_env \<Rightarrow> 'w outbox_world \<Rightarrow> 'w Writer option \<Rightarrow> 'w \<Rightarrow> OutEntry \<Rightarrow> 'w \<times> write_end" where
  "writeWithRetry env ops writer w entry = writeRetry env ops writer w entry 1"

section \<open>The writer's queue\<close>

text \<open>
  The queue state a writer shares between the callers of \<open>Offer\<close> and its goroutine. An \<open>Offer\<close>
  is two steps, because \<open>pending\<close> is counted before the send: \<open>offerEnter\<close> up to the send,
  \<open>offerSend\<close> from it. \<open>run\<close> receives an entry, writes it (\<open>writeWithRetry\<close>) and finishes it.
  \<open>wq_offering\<close>, \<open>wq_holding\<close> are the program counters; \<open>wq_accepted\<close>, \<open>wq_ended\<close> and
  \<open>wq_lost\<close> record the history.
\<close>

record WriterQueue =
  wq_queue :: "OutEntry list"
  wq_pending :: int
  wq_dropped :: int
  wq_running :: bool
  wq_offering :: "OutEntry list"
  wq_holding :: "OutEntry option"
  wq_accepted :: "OutEntry list"
  wq_ended :: "(OutEntry \<times> write_end) list"
  wq_lost :: "OutEntry list"

definition NewWriterQueue :: WriterQueue where
  "NewWriterQueue = \<lparr>wq_queue = [], wq_pending = 0, wq_dropped = 0, wq_running = False, wq_offering = [],
     wq_holding = None, wq_accepted = [], wq_ended = [], wq_lost = []\<rparr>"

definition offerEnter :: "WriterQueue \<Rightarrow> OutEntry \<Rightarrow> WriterQueue" where
  "offerEnter q entry = q\<lparr>wq_pending := wq_pending q + 1, wq_offering := entry # wq_offering q\<rparr>"

definition offerSend :: "WriterQueue \<Rightarrow> OutEntry \<Rightarrow> WriterQueue \<times> bool" where
  "offerSend q entry =
     (let q = q\<lparr>wq_offering := remove1 entry (wq_offering q)\<rparr> in
      if length (wq_queue q) < defaultQueueSize
      then (q\<lparr>wq_queue := wq_queue q @ [entry], wq_accepted := wq_accepted q @ [entry]\<rparr>, True)
      else (q\<lparr>wq_pending := wq_pending q - 1, wq_dropped := wq_dropped q + 1, wq_lost := wq_lost q @ [entry]\<rparr>, False))"

definition Offer :: "WriterQueue \<Rightarrow> OutEntry \<Rightarrow> WriterQueue \<times> bool" where
  "Offer q entry = offerSend (offerEnter q entry) entry"

definition Start :: "WriterQueue \<Rightarrow> WriterQueue" where
  "Start q = q\<lparr>wq_running := True\<rparr>"

definition runReceive :: "WriterQueue \<Rightarrow> WriterQueue" where
  "runReceive q =
     (if wq_running q \<and> wq_holding q = None
      then (case wq_queue q of
              entry # rest \<Rightarrow> q\<lparr>wq_queue := rest, wq_holding := Some entry\<rparr>
            | [] \<Rightarrow> q)
      else q)"

definition runFinish :: "WriterQueue \<Rightarrow> write_end \<Rightarrow> WriterQueue" where
  "runFinish q outcome = (case wq_holding q of
     None \<Rightarrow> q
   | Some entry \<Rightarrow> q\<lparr>wq_holding := None, wq_pending := wq_pending q - 1, wq_ended := wq_ended q @ [(entry, outcome)]\<rparr>)"

definition runExit :: "WriterQueue \<Rightarrow> WriterQueue" where
  "runExit q = (if wq_holding q = None then q\<lparr>wq_running := False\<rparr> else q)"

definition Pending :: "WriterQueue option \<Rightarrow> int" where
  "Pending w = (case w of None \<Rightarrow> 0 | Some q \<Rightarrow> wq_pending q)"

text \<open>\<open>Flush\<close> returns nil in a state where its waiting loop ends.\<close>

definition FlushDone :: "WriterQueue option \<Rightarrow> bool" where
  "FlushDone w = (case w of None \<Rightarrow> True | Some q \<Rightarrow> \<not> wq_pending q > 0)"

text \<open>One step of the writer: any number of \<open>Offer\<close> calls run beside the goroutine. How a held
  entry ends is left open, and so is a second \<open>Start\<close>, which \<open>startOnce\<close> rules out.\<close>

inductive writer_step :: "WriterQueue \<Rightarrow> WriterQueue \<Rightarrow> bool" where
  enter: "writer_step q (offerEnter q entry)"
| send: "entry \<in> set (wq_offering q) \<Longrightarrow> writer_step q (fst (offerSend q entry))"
| start: "writer_step q (Start q)"
| receive: "writer_step q (runReceive q)"
| finish: "writer_step q (runFinish q outcome)"
| exit: "writer_step q (runExit q)"

section \<open>What happens to an offered entry\<close>

text \<open>Every accepted entry has ended, is being written, or waits, in the order of the sends;
  \<open>pending\<close> counts the unfinished ones and the calls still in flight.\<close>

definition writer_inv :: "WriterQueue \<Rightarrow> bool" where
  "writer_inv q \<longleftrightarrow>
     wq_accepted q = map fst (wq_ended q) @ (case wq_holding q of None \<Rightarrow> [] | Some e \<Rightarrow> [e]) @ wq_queue q \<and>
     wq_pending q = int (length (wq_offering q)) + int (length (wq_queue q)) + (if wq_holding q = None then 0 else 1) \<and>
     wq_dropped q = int (length (wq_lost q)) \<and>
     length (wq_queue q) \<le> defaultQueueSize"

lemma writer_inv_new: "writer_inv NewWriterQueue"
  by (simp add: writer_inv_def NewWriterQueue_def)

lemma writer_inv_enter: "writer_inv q \<Longrightarrow> writer_inv (offerEnter q entry)"
  by (simp add: writer_inv_def offerEnter_def)

lemma writer_inv_send:
  assumes "writer_inv q" "entry \<in> set (wq_offering q)"
  shows "writer_inv (fst (offerSend q entry))"
proof -
  have "length (wq_offering q) > 0" using assms(2) by (cases "wq_offering q") auto
  then have "int (length (remove1 entry (wq_offering q))) = int (length (wq_offering q)) - 1"
    using assms(2) by (auto simp: length_remove1 of_nat_diff Suc_le_eq)
  then show ?thesis using assms(1) by (simp add: writer_inv_def offerSend_def Let_def)
qed

lemma writer_inv_run:
  "writer_inv q \<Longrightarrow> writer_inv (Start q)"
  "writer_inv q \<Longrightarrow> writer_inv (runReceive q)"
  "writer_inv q \<Longrightarrow> writer_inv (runFinish q outcome)"
  "writer_inv q \<Longrightarrow> writer_inv (runExit q)"
  by (auto simp: writer_inv_def Start_def runReceive_def runFinish_def runExit_def split: list.splits option.splits)

lemma writer_step_inv: "writer_step q q' \<Longrightarrow> writer_inv q \<Longrightarrow> writer_inv q'"
  by (induction rule: writer_step.induct) (simp_all add: writer_inv_enter writer_inv_send writer_inv_run)

lemma writer_reach_inv: "writer_step\<^sup>*\<^sup>* NewWriterQueue q \<Longrightarrow> writer_inv q"
  by (induction rule: rtranclp_induct) (simp_all add: writer_inv_new writer_step_inv)

lemma counts_zero: "int a + int b + (if P then 0 else 1) \<le> 0 \<Longrightarrow> a = 0 \<and> b = 0 \<and> P"
  by (cases P) auto

text \<open>\<open>Flush\<close> can only see a drained writer: then every accepted entry has ended.\<close>

lemma writer_inv_drained:
  assumes "writer_inv q" "FlushDone (Some q)"
  shows "map fst (wq_ended q) = wq_accepted q" "wq_offering q = []" "wq_queue q = []" "wq_holding q = None"
proof -
  have "wq_pending q \<le> 0" using assms(2) by (simp add: FlushDone_def)
  then have "int (length (wq_offering q)) + int (length (wq_queue q)) + (if wq_holding q = None then 0 else 1) \<le> 0"
    using assms(1) by (simp add: writer_inv_def)
  then have "length (wq_offering q) = 0 \<and> length (wq_queue q) = 0 \<and> wq_holding q = None"
    by (rule counts_zero)
  then show q: "wq_offering q = []" "wq_queue q = []" "wq_holding q = None" by simp_all
  then show "map fst (wq_ended q) = wq_accepted q" using assms(1) by (simp add: writer_inv_def)
qed

text \<open>(C10) In every state that any interleaving of offers with the write goroutine reaches, the
  entries accepted by \<open>Offer\<close> are, in order, those that ended, the one being written and the
  queued ones; \<open>Pending\<close> is the number of unfinished entries and calls, the queue stays within
  its bound, and when \<open>Flush\<close> finds nothing pending every accepted entry has ended.\<close>
theorem writer_conserves:
  assumes "writer_step\<^sup>*\<^sup>* NewWriterQueue q"
  shows "wq_accepted q = map fst (wq_ended q) @ (case wq_holding q of None \<Rightarrow> [] | Some e \<Rightarrow> [e]) @ wq_queue q
    \<and> Pending (Some q) = int (length (wq_offering q)) + int (length (wq_queue q)) + (if wq_holding q = None then 0 else 1)
    \<and> wq_dropped q = int (length (wq_lost q))
    \<and> length (wq_queue q) \<le> 4096
    \<and> (FlushDone (Some q) \<longrightarrow> map fst (wq_ended q) = wq_accepted q \<and> wq_offering q = [])"
  using writer_reach_inv [OF assms] writer_inv_drained [OF writer_reach_inv [OF assms]]
  by (auto simp: writer_inv_def Pending_def defaultQueueSize_def)

definition exampleEntry :: OutEntry where
  "exampleEntry = \<lparr>en_Terminal = \<lparr>fz_Path = ''/internal/gateway/settle'', fz_Body = ''{}'', fz_BaseURL = '''', fz_BootAuth = ''''\<rparr>,
     en_Reason = ''shutdown'', en_Attempts = 3\<rparr>"

definition exampleDrained :: WriterQueue where
  "exampleDrained = runFinish (runReceive (Start (fst (offerSend (offerEnter NewWriterQueue exampleEntry) exampleEntry)))) Lost"

lemma exampleStarted_reached: "writer_step\<^sup>*\<^sup>* NewWriterQueue (Start (fst (offerSend (offerEnter NewWriterQueue exampleEntry) exampleEntry)))"
proof -
  let ?a = "offerEnter NewWriterQueue exampleEntry"
  let ?b = "fst (offerSend ?a exampleEntry)"
  have 1: "writer_step\<^sup>*\<^sup>* NewWriterQueue ?a" by (rule r_into_rtranclp) (rule writer_step.enter)
  have 2: "writer_step\<^sup>*\<^sup>* NewWriterQueue ?b"
    by (rule rtranclp.rtrancl_into_rtrancl [OF 1]) (rule writer_step.send, simp add: offerEnter_def)
  show ?thesis by (rule rtranclp.rtrancl_into_rtrancl [OF 2]) (rule writer_step.start)
qed

lemma exampleDrained_reached: "writer_step\<^sup>*\<^sup>* NewWriterQueue exampleDrained"
proof -
  let ?q = "Start (fst (offerSend (offerEnter NewWriterQueue exampleEntry) exampleEntry))"
  have "writer_step\<^sup>*\<^sup>* NewWriterQueue (runReceive ?q)"
    by (rule rtranclp.rtrancl_into_rtrancl [OF exampleStarted_reached]) (rule writer_step.receive)
  then show ?thesis unfolding exampleDrained_def
    by (rule rtranclp.rtrancl_into_rtrancl) (rule writer_step.finish)
qed

theorem writer_conserves_witness:
  "wq_accepted exampleDrained = [exampleEntry] \<and> map fst (wq_ended exampleDrained) = [exampleEntry]
    \<and> Pending (Some exampleDrained) = 0"
proof -
  have "wq_accepted exampleDrained = [exampleEntry]" "wq_holding exampleDrained = None" "wq_queue exampleDrained = []"
    "wq_offering exampleDrained = []"
    by (simp_all add: exampleDrained_def offerEnter_def offerSend_def NewWriterQueue_def Start_def runReceive_def
        runFinish_def Let_def defaultQueueSize_def)
  then show ?thesis using writer_conserves [OF exampleDrained_reached] by simp
qed

section \<open>The writer drains\<close>

text \<open>The steps that remain when no call enters anew: sends of the calls in flight, and what the
  goroutine does when it can.\<close>

inductive drain_step :: "WriterQueue \<Rightarrow> WriterQueue \<Rightarrow> bool" where
  d_send: "entry \<in> set (wq_offering q) \<Longrightarrow> drain_step q (fst (offerSend q entry))"
| d_receive: "wq_running q \<Longrightarrow> wq_holding q = None \<Longrightarrow> wq_queue q \<noteq> [] \<Longrightarrow> drain_step q (runReceive q)"
| d_finish: "wq_holding q \<noteq> None \<Longrightarrow> drain_step q (runFinish q outcome)"

definition drain_work :: "WriterQueue \<Rightarrow> nat" where
  "drain_work q = 3 * length (wq_offering q) + 2 * length (wq_queue q) + (if wq_holding q = None then 0 else 1)"

lemma drain_step_less:
  assumes "drain_step q q'"
  shows "drain_work q' < drain_work q \<and> wq_running q' = wq_running q"
  using assms
proof cases
  case (d_send entry)
  have "length (remove1 entry (wq_offering q)) < length (wq_offering q)"
    using d_send(2) length_remove1 [of entry "wq_offering q"] by (cases "wq_offering q") auto
  then show ?thesis using d_send(1) by (auto simp: drain_work_def offerSend_def Let_def)
next
  case d_receive
  then show ?thesis by (cases "wq_queue q") (auto simp: drain_work_def runReceive_def)
next
  case (d_finish outcome)
  then show ?thesis by (auto simp: drain_work_def runFinish_def)
qed

lemma drain_writer: "drain_step q q' \<Longrightarrow> writer_step q q'"
  by (cases rule: drain_step.cases) (auto intro: writer_step.intros)

lemma drain_run:
  assumes "(drain_step ^^ n) q q'"
  shows "n + drain_work q' \<le> drain_work q \<and> wq_running q' = wq_running q \<and> writer_step\<^sup>*\<^sup>* q q'"
  using assms
proof (induction n arbitrary: q')
  case (Suc n)
  then obtain r where r: "(drain_step ^^ n) q r" "drain_step r q'" by auto
  then show ?case using Suc.IH [OF r(1)] drain_step_less [OF r(2)] drain_writer [OF r(2)] by (auto intro: rtranclp.rtrancl_into_rtrancl)
qed simp

text \<open>(C22) Once no call offers a new entry, the writer drains. From every state that any interleaving reaches with
  the goroutine running, every run of the remaining steps, however the calls in flight and the goroutine are
  scheduled and however each write ends, has at most three steps per call in flight, two per queued entry and one
  for the entry being written. Where no step remains, \<open>Flush\<close> returns and every accepted entry has ended.\<close>
theorem writer_drains:
  assumes "writer_step\<^sup>*\<^sup>* NewWriterQueue q" "wq_running q" "(drain_step ^^ n) q q'"
  shows "n \<le> 3 * length (wq_offering q) + 2 * length (wq_queue q) + (if wq_holding q = None then 0 else 1)
    \<and> ((\<nexists>r. drain_step q' r) \<longrightarrow> FlushDone (Some q') \<and> map fst (wq_ended q') = wq_accepted q')"
proof -
  note run = drain_run [OF assms(3)]
  have inv: "writer_inv q'" using writer_reach_inv run assms(1) by (meson rtranclp_trans)
  have "FlushDone (Some q')" if stuck: "\<nexists>r. drain_step q' r"
  proof -
    have "wq_offering q' = []" using d_send [of _ q'] stuck by (metis list.set_intros(1) neq_Nil_conv)
    moreover have "wq_holding q' = None" using d_finish [of q'] stuck by blast
    moreover from this have "wq_queue q' = []" using d_receive [of q'] stuck run assms(2) by blast
    ultimately show ?thesis using inv by (simp add: writer_inv_def FlushDone_def)
  qed
  then show ?thesis using run writer_inv_drained(1) [OF inv] by (simp add: drain_work_def)
qed

theorem writer_drains_witness:
  "(drain_step ^^ 2) (Start (fst (offerSend (offerEnter NewWriterQueue exampleEntry) exampleEntry))) exampleDrained
    \<and> FlushDone (Some exampleDrained) \<and> map fst (wq_ended exampleDrained) = [exampleEntry]"
proof -
  let ?a = "offerEnter NewWriterQueue exampleEntry"
  let ?q = "Start (fst (offerSend ?a exampleEntry))"
  note defs = offerEnter_def offerSend_def NewWriterQueue_def Start_def runReceive_def runFinish_def Let_def defaultQueueSize_def
  have "drain_step ?q (runReceive ?q)" by (rule d_receive) (simp_all add: defs)
  moreover have "drain_step (runReceive ?q) exampleDrained" unfolding exampleDrained_def by (rule d_finish) (simp add: defs)
  ultimately have two: "(drain_step ^^ 2) ?q exampleDrained" by (auto simp: numeral_2_eq_2)
  have "\<nexists>r. drain_step exampleDrained r"
    by (auto elim!: drain_step.cases simp: exampleDrained_def defs)
  moreover have "wq_accepted exampleDrained = [exampleEntry]" by (simp add: exampleDrained_def defs)
  ultimately show ?thesis using writer_drains [OF exampleStarted_reached _ two] two by (simp add: Start_def)
qed

end
