(* ===== verification/SettleSweeper.thy ===== *)
theory SettleSweeper
  imports SettleOutbox
begin

text \<open>
  The durable settle outbox, replaying half (package \<open>internal/settleoutbox\<close>, \<open>sweeper.go\<close>): the
  lease on a pending object, the replay and its classification, filing under a terminal
  prefix, the sweep of one page and of orphaned leases. Every call of the store, of the
  replayer, of the clock and of the context acts on a world, which also moves by itself:
  siblings run the same code against the same store.
\<close>

section \<open>Data\<close>

definition DonePrefix :: string where "DonePrefix = ''trustedrouter-settle-outbox/v1/done/''"
definition DeadPrefix :: string where "DeadPrefix = ''trustedrouter-settle-outbox/v1/dead/''"
definition QuarantinePrefix :: string where "QuarantinePrefix = ''trustedrouter-settle-outbox/v1/quarantine/''"
definition leasePrefix :: string where "leasePrefix = ''trustedrouter-settle-outbox/v1/lease/''"
definition BootAuthRefusedReason :: string where "BootAuthRefusedReason = ''boot_not_accepted''"
definition senderRefusedMessage :: string where "senderRefusedMessage = ''internal service token''"

datatype Outcome = OutcomeSettled | OutcomeDead | OutcomeQuarantined | OutcomeRetry | OutcomeSkipped

record Report =
  rp_Listed :: nat
  rp_Claimed :: nat
  rp_Settled :: nat
  rp_Dead :: nat
  rp_Quarantined :: nat
  rp_Retried :: nat
  rp_Skipped :: nat
  rp_OrphanLeases :: nat
  rp_SenderRefused :: bool

definition emptyReport :: Report where
  "emptyReport = \<lparr>rp_Listed = 0, rp_Claimed = 0, rp_Settled = 0, rp_Dead = 0, rp_Quarantined = 0, rp_Retried = 0,
     rp_Skipped = 0, rp_OrphanLeases = 0, rp_SenderRefused = False\<rparr>"

record Sweeper =
  sw_owner :: string
  sw_interval :: int
  sw_pageSize :: int
  sw_lease :: int
  sw_pageToken :: string
  sw_pausedUntil :: gotime

definition NewSweeper :: "string \<Rightarrow> Sweeper" where
  "NewSweeper owner = \<lparr>sw_owner = owner, sw_interval = 60 * Second, sw_pageSize = 100, sw_lease = 120 * Second,
     sw_pageToken = '''', sw_pausedUntil = t_Zero\<rparr>"

record sweep_claim =
  cl_name :: string
  cl_generation :: int
  cl_attempts :: int

record objectResult =
  or_outcome :: Outcome
  or_claimed :: bool
  or_senderRefused :: bool
  or_status :: int
  or_errorType :: string

definition result_of :: "Outcome \<Rightarrow> bool \<Rightarrow> objectResult" where
  "result_of outcome claimed = \<lparr>or_outcome = outcome, or_claimed = claimed, or_senderRefused = False, or_status = 0, or_errorType = ''''\<rparr>"

datatype sweep_error = NoStoreOrReplayer | SweepStore store_error | SweepContext | ErrSenderRefused

section \<open>Reading an object and a refusal\<close>

definition bootAuthKID :: "string \<Rightarrow> string option" where
  "bootAuthKID header = (case CutAt (CHR '','') header of
     None \<Rightarrow> None
   | Some (a, b) \<Rightarrow> (case (CutPrefix a ''kid='', CutPrefix b ''sig='') of
       (Some kid, Some sig) \<Rightarrow> if kid = '''' \<or> sig = '''' then None else Some kid
     | _ \<Rightarrow> None))"

definition unverifiedReason :: "OutObject \<Rightarrow> string" where
  "unverifiedReason object = (case bootAuthKID (ob_BootAuth object) of
     None \<Rightarrow> ''unsigned''
   | Some kid \<Rightarrow> if ob_BootKID object \<noteq> '''' \<and> ob_BootKID object \<noteq> kid then ''boot_kid_mismatch'' else '''')"

datatype refusalKind = BootAuthRefused | SenderRefused | RefusedUnknown

definition refusal_text :: "refusalKind \<Rightarrow> string" where
  "refusal_text kind = (case kind of BootAuthRefused \<Rightarrow> ''boot_auth_refused'' | SenderRefused \<Rightarrow> ''sender_refused''
     | RefusedUnknown \<Rightarrow> ''refused_unknown'')"

definition readRefusal :: "ControlPlaneError \<Rightarrow> refusalKind" where
  "readRefusal controlErr =
     (if ce_StatusCode controlErr = 401 \<and> ce_Reason controlErr = BootAuthRefusedReason then BootAuthRefused
      else if Contains (ToLower (ce_Message controlErr)) senderRefusedMessage then SenderRefused
      else RefusedUnknown)"

record replayVerdict =
  rv_outcome :: Outcome
  rv_reason :: string
  rv_status :: int
  rv_errorType :: string
  rv_senderRefused :: bool

definition classify :: "call_error option \<Rightarrow> replayVerdict" where
  "classify err = (case err of
     None \<Rightarrow> \<lparr>rv_outcome = OutcomeSettled, rv_reason = ''settled'', rv_status = 0, rv_errorType = '''', rv_senderRefused = False\<rparr>
   | Some Transport \<Rightarrow> \<lparr>rv_outcome = OutcomeRetry, rv_reason = ''transport'', rv_status = 0, rv_errorType = '''', rv_senderRefused = False\<rparr>
   | Some (ControlPlane controlErr) \<Rightarrow>
     (let status = ce_StatusCode controlErr;
          verdict = (\<lambda>outcome reason refused. \<lparr>rv_outcome = outcome, rv_reason = reason, rv_status = status,
            rv_errorType = ce_Type controlErr, rv_senderRefused = refused\<rparr>) in
      if status = 404 then verdict OutcomeDead ''unknown_authorization'' False
      else if status = 409 then verdict OutcomeDead ''retired_settlement_kind'' False
      else if status = 401 \<or> status = 403 then
        (let kind = readRefusal controlErr in
         if kind = BootAuthRefused then verdict OutcomeQuarantined (refusal_text kind) False
         else verdict OutcomeRetry (refusal_text kind) True)
      else if status = 408 \<or> status = 429 then verdict OutcomeRetry ''throttled'' False
      else if status \<ge> 400 \<and> status < 500 then verdict OutcomeDead ''rejected'' False
      else verdict OutcomeRetry ''server_error'' False))"

section \<open>Leases\<close>

function backoffLoop :: "int \<Rightarrow> int \<Rightarrow> int \<Rightarrow> int \<Rightarrow> int" where
  "backoffLoop lease attempts i delay =
     (if i < attempts \<and> delay < lease then backoffLoop lease attempts (i + 1) (i64_mul delay 2) else delay)"
  by pat_completeness auto
termination by (relation "measure (\<lambda>(lease, attempts, i, delay). nat (attempts - i))") auto

declare backoffLoop.simps [simp del]

definition backoff :: "Sweeper \<Rightarrow> int \<Rightarrow> int" where
  "backoff s attempts = min (backoffLoop (sw_lease s) attempts 1 (sw_interval s)) (sw_lease s)"

text \<open>\<open>claim\<close> up to its write: the lease object read, and the lease to write over it.\<close>

definition claimNext :: "outbox_env \<Rightarrow> Sweeper \<Rightarrow> gotime \<Rightarrow> StoredObject option \<Rightarrow> (sweep_lease \<times> int) option" where
  "claimNext env s now stored =
     (let current = (case stored of None \<Rightarrow> \<lparr>sl_Owner = '''', sl_Until = 0, sl_Attempts = 0\<rparr>
                                  | Some st \<Rightarrow> fst (ox_unmarshalLease env (so_Data st)));
          generation = (case stored of None \<Rightarrow> 0 | Some st \<Rightarrow> so_Generation st)
      in if stored \<noteq> None \<and> sl_Until current > t_UnixMilli now then None
         else Some (\<lparr>sl_Owner = sw_owner s, sl_Until = t_UnixMilli (t_Add now (sw_lease s)),
                      sl_Attempts = i64_add (sl_Attempts current) 1\<rparr>, generation))"

definition claim :: "outbox_env \<Rightarrow> 'w outbox_world \<Rightarrow> Sweeper \<Rightarrow> 'w \<Rightarrow> string \<Rightarrow> 'w \<times> (store_error + sweep_claim option)" where
  "claim env ops s w rest =
     (let name = leasePrefix @ rest;
          (w1, now) = ow_now ops w;
          (w2, got) = ow_Get ops w1 name in
      (case (case got of Inl ErrNotFound \<Rightarrow> Inr None | Inl err \<Rightarrow> Inl err | Inr stored \<Rightarrow> Inr (Some stored)) of
         Inl err \<Rightarrow> (w2, Inl err)
       | Inr stored \<Rightarrow>
         (case claimNext env s now stored of
            None \<Rightarrow> (w2, Inr None)
          | Some (nxt, generation) \<Rightarrow>
            (case ow_Put ops w2 name (ox_marshalLease env nxt) generation of
               (w3, Inl ErrPrecondition) \<Rightarrow> (w3, Inr None)
             | (w3, Inl err) \<Rightarrow> (w3, Inl err)
             | (w3, Inr updated) \<Rightarrow>
                 (w3, Inr (Some \<lparr>cl_name = name, cl_generation = so_Generation updated, cl_attempts = sl_Attempts nxt\<rparr>))))))"

definition releaseLease :: "outbox_env \<Rightarrow> 'w outbox_world \<Rightarrow> Sweeper \<Rightarrow> 'w \<Rightarrow> sweep_claim \<Rightarrow> 'w" where
  "releaseLease env ops s w held =
     (let (w1, now) = ow_now ops w;
          nxt = \<lparr>sl_Owner = '''', sl_Until = t_UnixMilli (t_Add now (backoff s (cl_attempts held))), sl_Attempts = cl_attempts held\<rparr>
      in fst (ow_Put ops w1 (cl_name held) (ox_marshalLease env nxt) (cl_generation held)))"

definition dropLease :: "'w outbox_world \<Rightarrow> 'w \<Rightarrow> sweep_claim \<Rightarrow> 'w" where
  "dropLease ops w held = fst (ow_Delete ops w (cl_name held) (cl_generation held))"

section \<open>One object\<close>

text \<open>\<open>file\<close> after the copy exists: delete the pending object, then the lease.\<close>

definition fileDelete :: "outbox_env \<Rightarrow> 'w outbox_world \<Rightarrow> Sweeper \<Rightarrow> 'w \<Rightarrow> string \<Rightarrow> StoredObject \<Rightarrow> sweep_claim \<Rightarrow> Outcome
    \<Rightarrow> 'w \<times> objectResult \<times> store_error option" where
  "fileDelete env ops s w pendingName stored held outcome =
     (case ow_Delete ops w pendingName (so_Generation stored) of
        (w1, Inl err) \<Rightarrow>
          if err \<noteq> ErrPrecondition then (releaseLease env ops s w1 held, result_of OutcomeRetry True, Some err)
          else (dropLease ops w1 held, result_of outcome True, None)
      | (w1, Inr _) \<Rightarrow> (dropLease ops w1 held, result_of outcome True, None))"

definition fileObject :: "outbox_env \<Rightarrow> 'w outbox_world \<Rightarrow> Sweeper \<Rightarrow> 'w \<Rightarrow> string \<Rightarrow> StoredObject \<Rightarrow> sweep_claim \<Rightarrow> string \<Rightarrow> Outcome
    \<Rightarrow> 'w \<times> objectResult \<times> store_error option" where
  "fileObject env ops s w pendingName stored held target outcome =
     (case ow_Put ops w target (so_Data stored) 0 of
        (w1, Inl err) \<Rightarrow>
          if err \<noteq> ErrPrecondition then (releaseLease env ops s w1 held, result_of OutcomeRetry True, Some err)
          else fileDelete env ops s w1 pendingName stored held outcome
      | (w1, Inr _) \<Rightarrow> fileDelete env ops s w1 pendingName stored held outcome)"

text \<open>\<open>sweepObject\<close> from the read of the pending object on.\<close>

definition replayObject :: "outbox_env \<Rightarrow> 'w outbox_world \<Rightarrow> Sweeper \<Rightarrow> 'w \<Rightarrow> string \<Rightarrow> string \<Rightarrow> StoredObject \<Rightarrow> sweep_claim
    \<Rightarrow> 'w \<times> objectResult \<times> store_error option" where
  "replayObject env ops s w name rest stored held =
     (case Decode env (so_Data stored) of
        Inl _ \<Rightarrow> fileObject env ops s w name stored held (QuarantinePrefix @ rest) OutcomeQuarantined
      | Inr object \<Rightarrow>
        if unverifiedReason object \<noteq> '''' then fileObject env ops s w name stored held (QuarantinePrefix @ rest) OutcomeQuarantined
        else
          (let (w1, replayErr) = ow_Post ops w (object_Terminal object);
               verdict = classify replayErr in
           (case rv_outcome verdict of
              OutcomeSettled \<Rightarrow> fileObject env ops s w1 name stored held (DonePrefix @ rest) OutcomeSettled
            | OutcomeDead \<Rightarrow> fileObject env ops s w1 name stored held (DeadPrefix @ rest) OutcomeDead
            | OutcomeQuarantined \<Rightarrow> fileObject env ops s w1 name stored held (QuarantinePrefix @ rest) OutcomeQuarantined
            | _ \<Rightarrow> (releaseLease env ops s w1 held,
                     \<lparr>or_outcome = OutcomeRetry, or_claimed = True, or_senderRefused = rv_senderRefused verdict,
                       or_status = rv_status verdict, or_errorType = rv_errorType verdict\<rparr>, None))))"

definition sweepObject :: "outbox_env \<Rightarrow> 'w outbox_world \<Rightarrow> Sweeper \<Rightarrow> 'w \<Rightarrow> ObjectMeta \<Rightarrow> 'w \<times> objectResult \<times> store_error option" where
  "sweepObject env ops s w meta =
     (let name = om_Name meta; rest = TrimPrefix name ObjectPrefix in
      if rest = '''' \<or> \<not> HasPrefix name ObjectPrefix \<or> HasSuffix rest ''/'' then (w, result_of OutcomeSkipped False, None)
      else
        (case claim env ops s w rest of
           (w1, Inl err) \<Rightarrow> (w1, result_of OutcomeSkipped False, Some err)
         | (w1, Inr None) \<Rightarrow> (w1, result_of OutcomeSkipped False, None)
         | (w1, Inr (Some held)) \<Rightarrow>
           (case ow_Get ops w1 name of
              (w2, Inl err) \<Rightarrow>
                if err = ErrNotFound then (dropLease ops w2 held, result_of OutcomeSkipped True, None)
                else (releaseLease env ops s w2 held, result_of OutcomeRetry True, Some err)
            | (w2, Inr stored) \<Rightarrow> replayObject env ops s w2 name rest stored held)))"

section \<open>One page\<close>

definition countOutcome :: "Report \<Rightarrow> Outcome \<Rightarrow> Report" where
  "countOutcome report outcome = (case outcome of
     OutcomeSettled \<Rightarrow> report\<lparr>rp_Settled := rp_Settled report + 1\<rparr>
   | OutcomeDead \<Rightarrow> report\<lparr>rp_Dead := rp_Dead report + 1\<rparr>
   | OutcomeQuarantined \<Rightarrow> report\<lparr>rp_Quarantined := rp_Quarantined report + 1\<rparr>
   | OutcomeRetry \<Rightarrow> report\<lparr>rp_Retried := rp_Retried report + 1\<rparr>
   | OutcomeSkipped \<Rightarrow> report\<lparr>rp_Skipped := rp_Skipped report + 1\<rparr>)"

text \<open>The loop over the listed objects: the sweeper (a pause may be set), the report, and the
  error it returned early with.\<close>

fun sweepPage :: "outbox_env \<Rightarrow> 'w outbox_world \<Rightarrow> Sweeper \<Rightarrow> 'w \<Rightarrow> Report \<Rightarrow> ObjectMeta list \<Rightarrow> Sweeper \<times> 'w \<times> Report \<times> sweep_error option" where
  "sweepPage env ops s w report [] = (s, w, report, None)"
| "sweepPage env ops s w report (object # objects) =
     (let (w1, cancelled) = ow_ctxDone ops w in
      if cancelled then (s, w1, report, Some SweepContext)
      else
        (let (w2, result, err) = sweepObject env ops s w1 object;
             report1 = (if or_claimed result then report\<lparr>rp_Claimed := rp_Claimed report + 1\<rparr> else report) in
         if or_senderRefused result then
           (let (w3, now) = ow_now ops w2 in
            (s\<lparr>sw_pausedUntil := t_Add now (sw_lease s)\<rparr>, w3,
             report1\<lparr>rp_Retried := rp_Retried report1 + 1, rp_SenderRefused := True\<rparr>, Some ErrSenderRefused))
         else sweepPage env ops s w2 (countOutcome report1 (or_outcome result)) objects))"

text \<open>The loop over the leases, with the number dropped.\<close>

fun leasePage :: "outbox_env \<Rightarrow> 'w outbox_world \<Rightarrow> 'w \<Rightarrow> int \<Rightarrow> nat \<Rightarrow> ObjectMeta list \<Rightarrow> 'w \<times> nat \<times> sweep_error option" where
  "leasePage env ops w now dropped [] = (w, dropped, None)"
| "leasePage env ops w now dropped (meta # metas) =
     (let (w1, cancelled) = ow_ctxDone ops w in
      if cancelled then (w1, dropped, Some SweepContext)
      else
        (let rest = TrimPrefix (om_Name meta) leasePrefix;
             (w2, got) = ow_Get ops w1 (om_Name meta) in
         (case got of
            Inl _ \<Rightarrow> leasePage env ops w2 now dropped metas
          | Inr stored \<Rightarrow>
            (let (current, ok) = ox_unmarshalLease env (so_Data stored) in
             if ok \<and> sl_Until current > now then leasePage env ops w2 now dropped metas
             else
               (let (w3, pending) = ow_Get ops w2 (ObjectPrefix @ rest) in
                if pending \<noteq> Inl ErrNotFound then leasePage env ops w3 now dropped metas
                else
                  (case ow_Delete ops w3 (om_Name meta) (so_Generation stored) of
                     (w4, Inl err) \<Rightarrow>
                       if err \<noteq> ErrPrecondition then leasePage env ops w4 now dropped metas
                       else leasePage env ops w4 now (dropped + 1) metas
                   | (w4, Inr _) \<Rightarrow> leasePage env ops w4 now (dropped + 1) metas))))))"

definition sweepLeases :: "outbox_env \<Rightarrow> 'w outbox_world \<Rightarrow> Sweeper \<Rightarrow> 'w \<Rightarrow> 'w \<times> nat \<times> sweep_error option" where
  "sweepLeases env ops s w =
     (case ow_List ops w leasePrefix (sw_pageSize s) '''' of
        (w1, Inl err) \<Rightarrow> (w1, 0, Some (SweepStore err))
      | (w1, Inr (leases, _)) \<Rightarrow>
        (let (w2, now) = ow_now ops w1 in leasePage env ops w2 (t_UnixMilli now) 0 leases))"

definition setPageToken :: "Sweeper \<Rightarrow> string \<Rightarrow> Sweeper" where
  "setPageToken s token = s\<lparr>sw_pageToken := token\<rparr>"

definition Sweep :: "outbox_env \<Rightarrow> 'w outbox_world \<Rightarrow> Sweeper \<Rightarrow> 'w \<Rightarrow> Sweeper \<times> 'w \<times> Report \<times> sweep_error option" where
  "Sweep env ops s w =
     (let (w1, now) = ow_now ops w in
      if t_Before now (sw_pausedUntil s) then (s, w1, emptyReport, None)
      else
        (case ow_List ops w1 ObjectPrefix (sw_pageSize s) (sw_pageToken s) of
           (w2, Inl err) \<Rightarrow> (setPageToken s '''', w2, emptyReport, Some (SweepStore err))
         | (w2, Inr (objects, nextPageToken)) \<Rightarrow>
           (case sweepPage env ops (setPageToken s nextPageToken) w2 (emptyReport\<lparr>rp_Listed := length objects\<rparr>) objects of
              (s1, w3, report, Some err) \<Rightarrow> (s1, w3, report, Some err)
            | (s1, w3, report, None) \<Rightarrow>
              (let (w4, orphans, err) = sweepLeases env ops s1 w3
               in (s1, w4, report\<lparr>rp_OrphanLeases := orphans\<rparr>, err)))))"

text \<open>\<open>Sweep\<close> on a sweeper pointer whose store or replayer may be nil.\<close>

definition SweepNil :: "outbox_env \<Rightarrow> 'w outbox_world option \<Rightarrow> Sweeper option \<Rightarrow> 'w \<Rightarrow> Sweeper option \<times> 'w \<times> Report \<times> sweep_error option" where
  "SweepNil env ops sweeper w = (case (ops, sweeper) of
     (Some world, Some s) \<Rightarrow> (let (s1, w1, report, err) = Sweep env world s w in (Some s1, w1, report, err))
   | _ \<Rightarrow> (sweeper, w, emptyReport, Some NoStoreOrReplayer))"

end
