(* ===== verification/SettleConserve.thy ===== *)
theory SettleConserve
  imports SettleSweeper
begin

text \<open>
  What the outbox keeps: nothing that was parked is lost, whatever siblings do and wherever a
  call fails. \<open>evolves\<close> is the relation every step of every process keeps between the
  contents of the store; locale \<open>outbox_store\<close> says what a store call returns and changes,
  with steps of siblings before and after its effect, and the operations of the writer and of
  the sweeper are shown to keep \<open>evolves\<close> in it.
\<close>

section \<open>The contents of the store\<close>

definition filed :: "(string \<rightharpoonup> string) \<Rightarrow> string \<Rightarrow> bool" where
  "filed M rest \<longleftrightarrow> DonePrefix @ rest \<in> dom M \<or> DeadPrefix @ rest \<in> dom M \<or> QuarantinePrefix @ rest \<in> dom M"

definition terminal_name :: "string \<Rightarrow> bool" where
  "terminal_name n \<longleftrightarrow> HasPrefix n DonePrefix \<or> HasPrefix n DeadPrefix \<or> HasPrefix n QuarantinePrefix"

text \<open>A terminal object is never rewritten or removed; a pending object keeps its bytes until a
  terminal copy of it exists.\<close>

definition evolves :: "(string \<rightharpoonup> string) \<Rightarrow> (string \<rightharpoonup> string) \<Rightarrow> bool" where
  "evolves M M' \<longleftrightarrow>
     (\<forall>n d. terminal_name n \<and> M n = Some d \<longrightarrow> M' n = Some d) \<and>
     (\<forall>rest d. M (ObjectPrefix @ rest) = Some d \<longrightarrow> M' (ObjectPrefix @ rest) = Some d \<or> filed M' rest)"

lemma prefixes_differ [simp]:
  "ObjectPrefix @ a \<noteq> leasePrefix @ b" "leasePrefix @ b \<noteq> ObjectPrefix @ a"
  by (simp_all add: ObjectPrefix_def leasePrefix_def)

lemma terminal_name_simps [simp]:
  "terminal_name (DonePrefix @ r)" "terminal_name (DeadPrefix @ r)" "terminal_name (QuarantinePrefix @ r)"
  "\<not> terminal_name (ObjectPrefix @ r)" "\<not> terminal_name (leasePrefix @ r)"
  by (simp_all add: terminal_name_def)
     (simp_all add: DonePrefix_def DeadPrefix_def QuarantinePrefix_def ObjectPrefix_def leasePrefix_def)

lemma terminal_not_pending: "terminal_name n \<Longrightarrow> n \<noteq> ObjectPrefix @ r"
  by auto

lemma filed_evolves: "filed M rest \<Longrightarrow> evolves M M' \<Longrightarrow> filed M' rest"
  unfolding filed_def evolves_def dom_def by (metis (mono_tags, lifting) mem_Collect_eq not_None_eq terminal_name_simps(1-3))

lemma evolves_refl: "evolves M M"
  by (simp add: evolves_def)

lemma evolves_trans: "evolves M M' \<Longrightarrow> evolves M' M'' \<Longrightarrow> evolves M M''"
  using filed_evolves [of M' _ M''] by (simp add: evolves_def) blast

lemma evolves_lease: "evolves M (M(leasePrefix @ rest := v))"
  by (auto simp: evolves_def filed_def)

lemma evolves_create: "M n = None \<Longrightarrow> evolves M (M(n \<mapsto> d))"
  by (auto simp: evolves_def)

lemma evolves_delete: "filed M rest \<Longrightarrow> evolves M (M(ObjectPrefix @ rest := None))"
  by (auto simp: evolves_def filed_def terminal_not_pending dom_def)

section \<open>Guarantees along sequences of calls\<close>

text \<open>A reflexive and transitive guarantee that single steps give is given by their sequences.\<close>

locale guarantee =
  fixes G :: "'m \<Rightarrow> 'm \<Rightarrow> bool"
  assumes refl: "G m m"
    and trans: "G m m' \<Longrightarrow> G m' m'' \<Longrightarrow> G m m''"
begin

lemma along:
  assumes "\<And>x y. step x y \<Longrightarrow> G (view x) (view y)" and "step\<^sup>*\<^sup>* x y"
  shows "G (view x) (view y)"
  using assms(2) by (induction rule: rtranclp_induct) (auto intro: refl trans assms(1))

text \<open>An effect between two steps of others.\<close>

lemma between: "G m a \<Longrightarrow> G a b \<Longrightarrow> G b m' \<Longrightarrow> G m m'"
  by (rule trans [OF trans])

end

interpretation store_content: guarantee evolves
  by unfold_locales (rule evolves_refl, rule evolves_trans)

section \<open>The store\<close>

definition put_effect :: "(string \<rightharpoonup> string) \<Rightarrow> string \<Rightarrow> string \<Rightarrow> int \<Rightarrow> store_error + StoredObject \<Rightarrow> (string \<rightharpoonup> string) \<Rightarrow> bool" where
  "put_effect M name data generation r M' \<longleftrightarrow>
     (if r = Inl ErrPrecondition then M' = M \<and> (generation = 0 \<longrightarrow> name \<in> dom M)
      else (case r of Inr _ \<Rightarrow> False | Inl _ \<Rightarrow> M' = M) \<or> M' = M(name \<mapsto> data) \<and> (generation = 0 \<longrightarrow> name \<notin> dom M))"

definition delete_effect :: "(string \<rightharpoonup> string) \<Rightarrow> string \<Rightarrow> store_error + unit \<Rightarrow> (string \<rightharpoonup> string) \<Rightarrow> bool" where
  "delete_effect M name r M' \<longleftrightarrow>
     (if r = Inl ErrPrecondition then M' = M
      else (case r of Inr _ \<Rightarrow> False | Inl _ \<Rightarrow> M' = M) \<or> M' = M(name := None))"

definition get_effect :: "(string \<rightharpoonup> string) \<Rightarrow> string \<Rightarrow> store_error + StoredObject \<Rightarrow> bool" where
  "get_effect M name r \<longleftrightarrow>
     (case r of Inr stored \<Rightarrow> M name = Some (so_Data stored) | Inl err \<Rightarrow> (err = ErrNotFound \<longrightarrow> M name = None))"

text \<open>What the operations of the store promise: an effect as above on what the siblings left,
  and then more steps of siblings; the other calls change nothing themselves.\<close>

locale outbox_store =
  fixes ops :: "'w outbox_world"
  assumes Put: "ow_Put ops w name data generation = (w', r) \<Longrightarrow>
      \<exists>M1 M2. evolves (ow_objects ops w) M1 \<and> put_effect M1 name data generation r M2 \<and> evolves M2 (ow_objects ops w')"
    and Delete: "ow_Delete ops w name generation = (w', d) \<Longrightarrow>
      \<exists>M1 M2. evolves (ow_objects ops w) M1 \<and> delete_effect M1 name d M2 \<and> evolves M2 (ow_objects ops w')"
    and Get: "ow_Get ops w name = (w', r) \<Longrightarrow>
      \<exists>M1. evolves (ow_objects ops w) M1 \<and> get_effect M1 name r \<and> evolves M1 (ow_objects ops w')"
    and List: "evolves (ow_objects ops w) (ow_objects ops (fst (ow_List ops w pre n token)))"
    and List_prefix: "ow_List ops w pre n token = (w', Inr (metas, next_token)) \<Longrightarrow> list_all (\<lambda>meta. HasPrefix (om_Name meta) pre) metas"
    and Post: "evolves (ow_objects ops w) (ow_objects ops (fst (ow_Post ops w t)))"
    and now: "evolves (ow_objects ops w) (ow_objects ops (fst (ow_now ops w)))"
    and ctxDone: "evolves (ow_objects ops w) (ow_objects ops (fst (ow_ctxDone ops w)))"
begin

abbreviation goes :: "'w \<Rightarrow> 'w \<Rightarrow> bool" where
  "goes w w' \<equiv> evolves (ow_objects ops w) (ow_objects ops w')"

lemma goes_refl: "goes w w"
  by (rule evolves_refl)

lemma goes_trans: "goes w w' \<Longrightarrow> goes w' w'' \<Longrightarrow> goes w w''"
  by (rule evolves_trans)

lemma Get_goes: "ow_Get ops w name = (w', r) \<Longrightarrow> goes w w'"
  using Get evolves_trans by blast

lemma now_goes: "ow_now ops w = (w', t) \<Longrightarrow> goes w w'"
  using now [of w] by simp

lemma Post_goes: "ow_Post ops w t = (w', e) \<Longrightarrow> goes w w'"
  using Post [of w t] by simp

lemma List_goes: "ow_List ops w pre n token = (w', r) \<Longrightarrow> goes w w'"
  using List [of w pre n token] by simp

lemma ctxDone_goes: "ow_ctxDone ops w = (w', b) \<Longrightarrow> goes w w'"
  using ctxDone [of w] by simp

text \<open>Creating an object loses nothing, and when the call says so the object is there.\<close>

lemma Put_create:
  assumes "ow_Put ops w name data 0 = (w', r)"
  shows "goes w w'"
    and "terminal_name name \<Longrightarrow> r = Inl ErrPrecondition \<or> (\<exists>st. r = Inr st) \<Longrightarrow> name \<in> dom (ow_objects ops w')"
    and "name = ObjectPrefix @ rest \<Longrightarrow> r = Inl ErrPrecondition \<or> (\<exists>st. r = Inr st) \<Longrightarrow>
      name \<in> dom (ow_objects ops w') \<or> filed (ow_objects ops w') rest"
proof -
  obtain M1 M2 where e: "evolves (ow_objects ops w) M1" "put_effect M1 name data 0 r M2" "evolves M2 (ow_objects ops w')"
    using Put [OF assms] by blast
  then have "evolves M1 M2" by (auto simp: put_effect_def domIff evolves_refl evolves_create split: if_splits sum.splits)
  then show "goes w w'" using e store_content.between by blast
  have there: "name \<in> dom M2" if "r = Inl ErrPrecondition \<or> (\<exists>st. r = Inr st)"
    using e(2) that by (auto simp: put_effect_def)
  show "name \<in> dom (ow_objects ops w')" if "terminal_name name" "r = Inl ErrPrecondition \<or> (\<exists>st. r = Inr st)"
    using there [OF that(2)] that(1) e(3) by (auto simp: evolves_def)
  show "name \<in> dom (ow_objects ops w') \<or> filed (ow_objects ops w') rest"
    if "name = ObjectPrefix @ rest" "r = Inl ErrPrecondition \<or> (\<exists>st. r = Inr st)"
    using there [OF that(2)] that(1) e(3) unfolding evolves_def dom_def by blast
qed

lemma Put_lease:
  assumes "ow_Put ops w (leasePrefix @ rest) data generation = (w', r)"
  shows "goes w w'"
proof -
  obtain M1 M2 where e: "evolves (ow_objects ops w) M1" "put_effect M1 (leasePrefix @ rest) data generation r M2"
    "evolves M2 (ow_objects ops w')"
    using Put [OF assms] by blast
  then have "evolves M1 M2" by (auto simp: put_effect_def evolves_refl evolves_lease split: if_splits sum.splits)
  then show "goes w w'" using e store_content.between by blast
qed

lemma Delete_goes:
  assumes "ow_Delete ops w name generation = (w', r)"
    and "name = leasePrefix @ rest \<or> name = ObjectPrefix @ rest \<and> filed (ow_objects ops w) rest"
  shows "goes w w'"
proof -
  obtain M1 M2 where e: "evolves (ow_objects ops w) M1" "delete_effect M1 name r M2" "evolves M2 (ow_objects ops w')"
    using Delete [OF assms(1)] by blast
  have "evolves M1 (M1(name := None))"
    using assms(2) filed_evolves [OF _ e(1)] evolves_lease [of M1 rest None] evolves_delete by blast
  then have "evolves M1 M2"
    using e(2) by (auto simp: delete_effect_def evolves_refl split: if_splits sum.splits)
  then show ?thesis using e store_content.between by blast
qed

end

section \<open>The operations keep the contents\<close>

context outbox_store
begin

lemma releaseLease_goes: "cl_name held = leasePrefix @ rest \<Longrightarrow> goes w (releaseLease env ops s w held)"
  using now_goes Put_lease goes_trans
  by (simp add: releaseLease_def case_prod_unfold Let_def) (metis prod.collapse)

lemma dropLease_goes: "cl_name held = leasePrefix @ rest \<Longrightarrow> goes w (dropLease ops w held)"
  unfolding dropLease_def using Delete_goes by (metis prod.collapse)

lemma claim_goes:
  assumes "claim env ops s w rest = (w', r)"
  shows "goes w w'" and "r = Inr (Some held) \<Longrightarrow> cl_name held = leasePrefix @ rest"
proof -
  obtain w1 now where 1: "ow_now ops w = (w1, now)" by force
  obtain w2 got where 2: "ow_Get ops w1 (leasePrefix @ rest) = (w2, got)" by force
  have g: "goes w w2" using now_goes [OF 1] Get_goes [OF 2] goes_trans by blast
  have put: "goes w w3" if "ow_Put ops w2 (leasePrefix @ rest) d g = (w3, x)" for d g w3 x
    using Put_lease [OF that] g goes_trans by blast
  show "goes w w'" and "r = Inr (Some held) \<Longrightarrow> cl_name held = leasePrefix @ rest"
    using assms g put
    by (auto simp: claim_def 1 2 Let_def split: sum.splits store_error.splits option.splits prod.splits)
qed

lemma fileDelete_goes:
  assumes "fileDelete env ops s w (ObjectPrefix @ rest) stored held outcome = (w', r, e)"
    and "cl_name held = leasePrefix @ rest" and "filed (ow_objects ops w) rest"
  shows "goes w w'"
proof -
  obtain w1 d where 1: "ow_Delete ops w (ObjectPrefix @ rest) (so_Generation stored) = (w1, d)" by force
  have "goes w w1" using Delete_goes [OF 1] assms(3) by blast
  moreover have "goes w1 w'"
    using assms(1) dropLease_goes [OF assms(2)] releaseLease_goes [OF assms(2)] 1
    by (auto simp: fileDelete_def split: sum.splits if_splits)
  ultimately show ?thesis by (rule goes_trans)
qed

lemma fileObject_goes:
  assumes "fileObject env ops s w (ObjectPrefix @ rest) stored held target outcome = (w', r, e)"
    and "cl_name held = leasePrefix @ rest" and "target \<in> {DonePrefix @ rest, DeadPrefix @ rest, QuarantinePrefix @ rest}"
  shows "goes w w'" and "or_outcome r = OutcomeRetry \<or> or_outcome r = outcome \<and> target \<in> dom (ow_objects ops w')"
    and "\<not> or_senderRefused r \<and> or_claimed r"
proof -
  obtain w1 p where 1: "ow_Put ops w target (so_Data stored) 0 = (w1, p)" by force
  have t: "terminal_name target" using assms(3) by auto
  have g1: "goes w w1" by (rule Put_create(1) [OF 1])
  show "\<not> or_senderRefused r \<and> or_claimed r"
    using assms(1) 1 by (auto simp: fileObject_def fileDelete_def result_of_def split: sum.splits if_splits prod.splits)
  have "goes w w' \<and> (or_outcome r = OutcomeRetry \<or> or_outcome r = outcome \<and> target \<in> dom (ow_objects ops w'))"
  proof (cases "p = Inl ErrPrecondition \<or> (\<exists>st. p = Inr st)")
    case False
    then have "w' = releaseLease env ops s w1 held" "r = result_of OutcomeRetry True"
      using assms(1) 1 by (auto simp: fileObject_def split: sum.splits if_splits)
    then show ?thesis using releaseLease_goes [OF assms(2)] g1 goes_trans by (auto simp: result_of_def)
  next
    case True
    have there: "target \<in> dom (ow_objects ops w1)" by (rule Put_create(2) [OF 1 t True])
    have d: "fileDelete env ops s w1 (ObjectPrefix @ rest) stored held outcome = (w', r, e)"
      using assms(1) 1 True by (auto simp: fileObject_def split: sum.splits if_splits)
    have g2: "goes w1 w'" using fileDelete_goes [OF d assms(2)] there assms(3) by (auto simp: filed_def)
    then have "target \<in> dom (ow_objects ops w')" using there t by (auto simp: evolves_def)
    moreover have "or_outcome r = OutcomeRetry \<or> or_outcome r = outcome"
      using d by (auto simp: fileDelete_def result_of_def split: sum.splits if_splits prod.splits)
    ultimately show ?thesis using g1 g2 goes_trans by blast
  qed
  then show "goes w w'" and "or_outcome r = OutcomeRetry \<or> or_outcome r = outcome \<and> target \<in> dom (ow_objects ops w')"
    by blast+
qed

text \<open>What an outcome says about the store.\<close>

abbreviation told :: "Outcome \<Rightarrow> 'w \<Rightarrow> string \<Rightarrow> bool" where
  "told outcome w rest \<equiv>
     (outcome = OutcomeSettled \<longrightarrow> DonePrefix @ rest \<in> dom (ow_objects ops w)) \<and>
     (outcome = OutcomeDead \<longrightarrow> DeadPrefix @ rest \<in> dom (ow_objects ops w)) \<and>
     (outcome = OutcomeQuarantined \<longrightarrow> QuarantinePrefix @ rest \<in> dom (ow_objects ops w))"

lemma replayObject_goes:
  assumes "replayObject env ops s w (ObjectPrefix @ rest) rest stored held = (w', r, e)"
    and "cl_name held = leasePrefix @ rest"
  shows "goes w w' \<and> told (or_outcome r) w' rest"
proof -
  have f: "goes w w' \<and> told (or_outcome r) w' rest"
    if "goes w w1" "fileObject env ops s w1 (ObjectPrefix @ rest) stored held target outcome = (w', r, e)"
      "(target, outcome) \<in> {(DonePrefix @ rest, OutcomeSettled), (DeadPrefix @ rest, OutcomeDead), (QuarantinePrefix @ rest, OutcomeQuarantined)}"
    for w1 target outcome
    using fileObject_goes [OF that(2) assms(2)] that(1,3) goes_trans [OF that(1)] by auto
  show ?thesis
  proof (cases "\<exists>object. Decode env (so_Data stored) = Inr object \<and> unverifiedReason object = ''''")
    case False
    then have "fileObject env ops s w (ObjectPrefix @ rest) stored held (QuarantinePrefix @ rest) OutcomeQuarantined = (w', r, e)"
      using assms(1) by (auto simp: replayObject_def split: sum.splits if_splits)
    then show ?thesis by (rule f [OF goes_refl]) simp
  next
    case True
    then obtain object where object: "Decode env (so_Data stored) = Inr object" "unverifiedReason object = ''''" by blast
    obtain w1 err where 1: "ow_Post ops w (object_Terminal object) = (w1, err)" by force
    have release: "goes w (releaseLease env ops s w1 held)"
      using goes_trans [OF Post_goes [OF 1] releaseLease_goes [OF assms(2)]] .
    show ?thesis
      using assms(1) release f [OF Post_goes [OF 1]]
      by (cases "rv_outcome (classify err)") (auto simp: replayObject_def object 1 Let_def)
  qed
qed

lemma sweepObject_goes:
  assumes "sweepObject env ops s w meta = (w', r, e)" "om_Name meta = ObjectPrefix @ rest"
  shows "goes w w' \<and> told (or_outcome r) w' rest"
proof -
  obtain w1 c where 1: "claim env ops s w rest = (w1, c)" by force
  note g1 = claim_goes(1) [OF 1]
  consider (skip) "w' = w" "or_outcome r = OutcomeSkipped" | (unclaimed) "w' = w1" "or_outcome r = OutcomeSkipped"
    | (held) held where "c = Inr (Some held)"
      "(case ow_Get ops w1 (ObjectPrefix @ rest) of
         (w2, Inl err) \<Rightarrow> if err = ErrNotFound then (dropLease ops w2 held, result_of OutcomeSkipped True, None)
           else (releaseLease env ops s w2 held, result_of OutcomeRetry True, Some err)
       | (w2, Inr stored) \<Rightarrow> replayObject env ops s w2 (ObjectPrefix @ rest) rest stored held) = (w', r, e)"
    using assms 1 by (auto simp: sweepObject_def Let_def result_of_def split: if_splits sum.splits option.splits)
  then show ?thesis
  proof cases
    case held
    note n = claim_goes(2) [OF 1 held(1)]
    obtain w2 got where 2: "ow_Get ops w1 (ObjectPrefix @ rest) = (w2, got)" by force
    have g2: "goes w w2" using goes_trans [OF g1 Get_goes [OF 2]] .
    show ?thesis
    proof (cases got)
      case (Inl err)
      then show ?thesis
        using held(2) 2 goes_trans [OF g2 dropLease_goes [OF n]] goes_trans [OF g2 releaseLease_goes [OF n]]
        by (auto simp: result_of_def split: if_splits)
    next
      case (Inr stored)
      then have "replayObject env ops s w2 (ObjectPrefix @ rest) rest stored held = (w', r, e)" using held(2) 2 by simp
      from replayObject_goes [OF this n] show ?thesis using goes_trans [OF g2] by blast
    qed
  qed (use g1 goes_refl in auto)
qed

text \<open>An object outside the pending prefix is not touched.\<close>

lemma sweepObject_any: "goes w (fst (sweepObject env ops s w meta))"
proof (cases "HasPrefix (om_Name meta) ObjectPrefix")
  case True
  then obtain rest where "om_Name meta = ObjectPrefix @ rest" by (auto simp: HasPrefix_iff)
  then show ?thesis using sweepObject_goes by (metis prod.collapse)
qed (simp add: sweepObject_def Let_def goes_refl)

lemma sweepPage_goes: "sweepPage env ops s w report objects = (s', w', report', e) \<Longrightarrow> goes w w'"
proof (induction objects arbitrary: w report)
  case (Cons object objects)
  obtain w1 c where 1: "ow_ctxDone ops w = (w1, c)" by force
  obtain w2 r err where 2: "sweepObject env ops s w1 object = (w2, r, err)" by (metis prod_cases3)
  obtain w3 now where 3: "ow_now ops w2 = (w3, now)" by force
  have g1: "goes w w1" by (rule ctxDone_goes [OF 1])
  have g2: "goes w w2" using goes_trans [OF g1] sweepObject_any [of w1 env s object] 2 by simp
  have g3: "goes w w3" using goes_trans [OF g2 now_goes [OF 3]] .
  show ?case using Cons.prems g1 g2 g3 Cons.IH [of w2] goes_trans [OF g2]
    by (auto simp: 1 2 3 Let_def split: if_splits)
qed (simp add: goes_refl)

lemma leasePage_goes:
  "leasePage env ops w t n metas = (w', n', e) \<Longrightarrow> list_all (\<lambda>meta. HasPrefix (om_Name meta) leasePrefix) metas \<Longrightarrow> goes w w'"
proof (induction metas arbitrary: w n)
  case (Cons meta metas)
  obtain rest where rest: "om_Name meta = leasePrefix @ rest" using Cons.prems(2) by (auto simp: HasPrefix_iff)
  obtain w1 c where 1: "ow_ctxDone ops w = (w1, c)" by force
  obtain w2 got where 2: "ow_Get ops w1 (leasePrefix @ rest) = (w2, got)" by force
  obtain w3 p where 3: "ow_Get ops w2 (ObjectPrefix @ rest) = (w3, p)" by force
  have g1: "goes w w1" by (rule ctxDone_goes [OF 1])
  have g2: "goes w w2" using goes_trans [OF g1 Get_goes [OF 2]] .
  have g3: "goes w w3" using goes_trans [OF g2 Get_goes [OF 3]] .
  have g4: "goes w w4" if "ow_Delete ops w3 (leasePrefix @ rest) g = (w4, d)" for g w4 d
    using goes_trans [OF g3 Delete_goes [OF that]] by blast
  have ih: "leasePage env ops v t m metas = (w', n', e) \<Longrightarrow> goes w v \<Longrightarrow> goes w w'" for v m
    using Cons.IH [of v m] Cons.prems(2) goes_trans by auto
  show ?case using Cons.prems(1) g1 ih [OF _ g2] ih [OF _ g3] ih [OF _ g4]
    by (auto simp: 1 2 3 rest Let_def split: if_splits sum.splits prod.splits)
qed (simp add: goes_refl)

lemma sweepLeases_goes:
  assumes "sweepLeases env ops s w = (w', n, e)"
  shows "goes w w'"
proof (cases "ow_List ops w leasePrefix (sw_pageSize s) ''''")
  case l: (Pair w1 r)
  note g1 = List_goes [OF l]
  show ?thesis
  proof (cases r)
    case (Inr page)
    obtain metas token where page: "page = (metas, token)" by force
    obtain w2 now where 2: "ow_now ops w1 = (w2, now)" by force
    have "leasePage env ops w2 (t_UnixMilli now) 0 metas = (w', n, e)"
      using assms by (simp add: sweepLeases_def l Inr page 2)
    from leasePage_goes [OF this] List_prefix [of w leasePrefix "sw_pageSize s" "''''" w1 metas token]
    show ?thesis using l Inr page goes_trans [OF goes_trans [OF g1 now_goes [OF 2]]] by simp
  qed (use assms g1 in \<open>auto simp: sweepLeases_def l\<close>)
qed

lemma Sweep_goes:
  assumes "Sweep env ops s w = (s', w', report, e)"
  shows "goes w w'"
proof -
  obtain w1 now where 1: "ow_now ops w = (w1, now)" by force
  obtain w2 r where 2: "ow_List ops w1 ObjectPrefix (sw_pageSize s) (sw_pageToken s) = (w2, r)" by force
  have g1: "goes w w1" by (rule now_goes [OF 1])
  have g2: "goes w w2" using goes_trans [OF g1 List_goes [OF 2]] .
  have p: "goes w w3" if "sweepPage env ops s1 w2 rep objects = (s2, w3, rep2, err)" for s1 s2 w3 rep rep2 err objects
    using goes_trans [OF g2 sweepPage_goes [OF that]] .
  have l: "goes w w4" if "sweepPage env ops s1 w2 rep objects = (s2, w3, rep2, err)" "sweepLeases env ops s2 w3 = (w4, n, e4)"
    for s1 s2 w3 rep rep2 err objects w4 n e4
    using goes_trans [OF p [OF that(1)] sweepLeases_goes [OF that(2)]] .
  show ?thesis using assms g1 g2 p l
    by (auto simp: Sweep_def 1 2 Let_def split: if_splits sum.splits option.splits prod.splits)
qed

text \<open>A write loses nothing, and one that reports no error left the object pending or filed.\<close>

lemma Write_goes:
  assumes "Write env writer w entry = (w', result, e)" "Option.bind writer wt_ops = Some ops"
  shows "goes w w'"
    and "e = None \<Longrightarrow> \<exists>rest. wr_Name result = ObjectPrefix @ rest
      \<and> (wr_Name result \<in> dom (ow_objects ops w') \<or> filed (ow_objects ops w') rest)"
proof -
  obtain w1 now where 1: "ow_now ops w = (w1, now)" by force
  note g1 = now_goes [OF 1]
  have "goes w w' \<and> (e = None \<longrightarrow> (\<exists>rest. wr_Name result = ObjectPrefix @ rest
      \<and> (wr_Name result \<in> dom (ow_objects ops w') \<or> filed (ow_objects ops w') rest)))"
  proof (cases "Encode env entry (Option.bind writer wt_signer) now")
    case (Inl err)
    then show ?thesis using assms g1 by (auto simp: Write_def 1)
  next
    case (Inr nd)
    obtain name data where nd: "nd = (name, data)" by force
    obtain rest where rest: "name = ObjectPrefix @ rest"
      using Inr nd by (auto simp: Encode_def ObjectName_def Let_def split: option.splits if_splits sum.splits)
    obtain w2 r where 2: "ow_Put ops w1 (ObjectPrefix @ rest) data 0 = (w2, r)" by force
    note p = Put_create [OF 2]
    show ?thesis
      using assms goes_trans [OF g1 p(1)] p(3) [OF HOL.refl] Inr nd rest
      by (auto simp: Write_def 1 2 split: sum.splits if_splits)
  qed
  then show "goes w w'" and "e = None \<Longrightarrow> \<exists>rest. wr_Name result = ObjectPrefix @ rest
      \<and> (wr_Name result \<in> dom (ow_objects ops w') \<or> filed (ow_objects ops w') rest)" by blast+
qed

lemma writeRetry_goes:
  assumes "Option.bind writer wt_ops = Some ops"
  shows "writeRetry env ops writer w entry attempt = (w', outcome) \<Longrightarrow> goes w w'
    \<and> (\<forall>result. outcome = Written result \<longrightarrow> (\<exists>rest. wr_Name result = ObjectPrefix @ rest
      \<and> (wr_Name result \<in> dom (ow_objects ops w') \<or> filed (ow_objects ops w') rest)))"
proof (induction "Suc writeAttempts - attempt" arbitrary: attempt w rule: less_induct)
  case less
  obtain w1 r e where 1: "Write env writer w entry = (w1, r, e)" by (metis prod_cases3)
  note g1 = Write_goes(1) [OF 1 assms] and d1 = Write_goes(2) [OF 1 assms]
  obtain w2 c2 where 2: "ow_ctxDone ops w1 = (w2, c2)" by force
  obtain w3 c3 where 3: "ow_ctxDone ops w2 = (w3, c3)" by force
  have g2: "goes w w2" using goes_trans [OF g1 ctxDone_goes [OF 2]] .
  have g3: "goes w w3" using goes_trans [OF g2 ctxDone_goes [OF 3]] .
  show ?case
  proof (cases "attempt \<le> writeAttempts \<and> e \<noteq> None \<and> attempt \<noteq> writeAttempts \<and> \<not> c2 \<and> \<not> c3")
    case True
    then have "writeRetry env ops writer w3 entry (Suc attempt) = (w', outcome)"
      using less.prems by (subst (asm) writeRetry.simps) (auto simp: 1 2 3)
    moreover have "Suc writeAttempts - Suc attempt < Suc writeAttempts - attempt" using True by arith
    ultimately show ?thesis using less.hyps goes_trans [OF g3] by blast
  next
    case False
    then show ?thesis
      using less.prems g1 g2 g3 d1 goes_refl
      by (subst (asm) writeRetry.simps) (auto simp: 1 2 3 split: if_splits option.splits)
  qed
qed

end

end
