(* ===== verification/SettleStore.thy ===== *)
theory SettleStore
  imports SettleConserve "HOL-Library.Countable"
begin

text \<open>
  The object store as the sweeper's comments rely on it (GCS with generation preconditions),
  as an executable reference: a list of named objects, each with the generation of its last
  write. It satisfies the contract of theory \<open>SettleConserve\<close>, and the lease of the sweeper is
  exclusive on it.
\<close>

record genWorld =
  gw_objects :: "(string \<times> StoredObject) list"
  gw_next :: int
  gw_clock :: gotime
  gw_answers :: "call_error option list"
  gw_posts :: "FrozenTerminal list"

definition gen_Get :: "genWorld \<Rightarrow> string \<Rightarrow> genWorld \<times> (store_error + StoredObject)" where
  "gen_Get w name = (w, case map_of (gw_objects w) name of None \<Rightarrow> Inl ErrNotFound | Some st \<Rightarrow> Inr st)"

definition gen_write :: "genWorld \<Rightarrow> string \<Rightarrow> string \<Rightarrow> genWorld \<times> (store_error + StoredObject)" where
  "gen_write w name data =
     (let st = \<lparr>so_Data = data, so_Generation = gw_next w\<rparr>
      in (w\<lparr>gw_objects := AList.update name st (gw_objects w), gw_next := gw_next w + 1\<rparr>, Inr st))"

definition gen_Put :: "genWorld \<Rightarrow> string \<Rightarrow> string \<Rightarrow> int \<Rightarrow> genWorld \<times> (store_error + StoredObject)" where
  "gen_Put w name data generation =
     (case map_of (gw_objects w) name of
        None \<Rightarrow> if generation = 0 then gen_write w name data else (w, Inl ErrPrecondition)
      | Some st \<Rightarrow> if generation \<noteq> 0 \<and> generation = so_Generation st then gen_write w name data else (w, Inl ErrPrecondition))"

definition gen_Delete :: "genWorld \<Rightarrow> string \<Rightarrow> int \<Rightarrow> genWorld \<times> (store_error + unit)" where
  "gen_Delete w name generation =
     (case map_of (gw_objects w) name of
        None \<Rightarrow> (w, Inl ErrNotFound)
      | Some st \<Rightarrow> if so_Generation st = generation then (w\<lparr>gw_objects := AList.delete name (gw_objects w)\<rparr>, Inr ())
                  else (w, Inl ErrPrecondition))"

definition gen_List :: "genWorld \<Rightarrow> string \<Rightarrow> int \<Rightarrow> string \<Rightarrow> genWorld \<times> (store_error + ObjectMeta list \<times> string)" where
  "gen_List w pre n token =
     (w, Inr (map (\<lambda>(name, st). \<lparr>om_Name = name, om_Generation = so_Generation st\<rparr>)
        (take (nat n) (filter (\<lambda>(name, st). HasPrefix name pre) (gw_objects w))), ''''))"

definition gen_Post :: "genWorld \<Rightarrow> FrozenTerminal \<Rightarrow> genWorld \<times> call_error option" where
  "gen_Post w t = (w\<lparr>gw_posts := gw_posts w @ [t], gw_answers := tl (gw_answers w)\<rparr>,
     (case gw_answers w of [] \<Rightarrow> None | a # _ \<Rightarrow> a))"

definition gen_objects :: "genWorld \<Rightarrow> (string \<rightharpoonup> string)" where
  "gen_objects w name = map_option so_Data (map_of (gw_objects w) name)"

definition genStore :: "genWorld outbox_world" where
  "genStore = \<lparr>ow_Get = gen_Get, ow_Put = gen_Put, ow_Delete = gen_Delete, ow_List = gen_List, ow_Post = gen_Post,
     ow_now = (\<lambda>w. (w, gw_clock w)), ow_ctxDone = (\<lambda>w. (w, False)), ow_objects = gen_objects\<rparr>"

lemmas gen_defs = genStore_def gen_Get_def gen_Put_def gen_write_def gen_Delete_def gen_List_def gen_Post_def Let_def

lemma gen_objects_update:
  "gen_objects (w\<lparr>gw_objects := AList.update name st (gw_objects w), gw_next := g\<rparr>) = (gen_objects w)(name \<mapsto> so_Data st)"
  by (rule ext) (simp add: gen_objects_def update_conv')

lemma gen_objects_delete:
  "gen_objects (w\<lparr>gw_objects := AList.delete name (gw_objects w)\<rparr>) = (gen_objects w)(name := None)"
  by (rule ext) (simp add: gen_objects_def delete_conv')

lemma gen_Put_effect:
  "gen_Put w name data generation = (w', r) \<Longrightarrow> put_effect (gen_objects w) name data generation r (gen_objects w')"
  by (auto simp: gen_Put_def gen_write_def Let_def put_effect_def gen_objects_update [simplified]
      gen_objects_def [of w] domIff split: option.splits if_splits)

lemma gen_Delete_effect:
  "gen_Delete w name generation = (w', r) \<Longrightarrow> delete_effect (gen_objects w) name r (gen_objects w')"
  by (auto simp: gen_Delete_def delete_effect_def gen_objects_delete split: option.splits if_splits)

lemma gen_Get_effect: "gen_Get w name = (w', r) \<Longrightarrow> w' = w \<and> get_effect (gen_objects w) name r"
  by (auto simp: gen_Get_def get_effect_def gen_objects_def split: option.splits)

interpretation gen: outbox_store genStore
proof unfold_locales
  fix w w' name data generation r
  assume "ow_Put genStore w name data generation = (w', r)"
  then have "put_effect (gen_objects w) name data generation r (gen_objects w')"
    by (simp add: genStore_def gen_Put_effect)
  then show "\<exists>M1 M2. evolves (ow_objects genStore w) M1 \<and> put_effect M1 name data generation r M2 \<and> evolves M2 (ow_objects genStore w')"
    using evolves_refl by (auto simp: genStore_def)
next
  fix w w' name generation d
  assume "ow_Delete genStore w name generation = (w', d)"
  then have "delete_effect (gen_objects w) name d (gen_objects w')"
    by (simp add: genStore_def gen_Delete_effect)
  then show "\<exists>M1 M2. evolves (ow_objects genStore w) M1 \<and> delete_effect M1 name d M2 \<and> evolves M2 (ow_objects genStore w')"
    using evolves_refl by (auto simp: genStore_def)
next
  fix w w' name r
  assume "ow_Get genStore w name = (w', r)"
  then show "\<exists>M1. evolves (ow_objects genStore w) M1 \<and> get_effect M1 name r \<and> evolves M1 (ow_objects genStore w')"
    using evolves_refl gen_Get_effect [of w name w' r] by (auto simp: genStore_def)
qed (auto simp: gen_defs evolves_refl list_all_iff gen_objects_def evolves_def dest!: in_set_takeD)

section \<open>Codecs\<close>

text \<open>What the outbox relies on in \<open>encoding/json\<close> and in \<open>time.Format\<close>: objects and leases with
  valid UTF-8 text and 64-bit numbers survive a round trip, and decoded or formatted text is
  valid UTF-8.\<close>

definition object_text :: "OutObject \<Rightarrow> bool" where
  "object_text ob \<longleftrightarrow> utf8_Valid (ob_Kind ob) \<and> utf8_Valid (ob_Path ob) \<and> utf8_Valid (ob_BodySHA256 ob) \<and> utf8_Valid (ob_BaseURL ob)
     \<and> utf8_Valid (ob_BootAuth ob) \<and> utf8_Valid (ob_BootKID ob) \<and> utf8_Valid (ob_AuthorizationID ob) \<and> utf8_Valid (ob_Reason ob)
     \<and> utf8_Valid (ob_WrittenAt ob) \<and> in_i64 (ob_Version ob) \<and> in_i64 (ob_Attempts ob)"

definition lease_text :: "sweep_lease \<Rightarrow> bool" where
  "lease_text l \<longleftrightarrow> utf8_Valid (sl_Owner l) \<and> in_i64 (sl_Until l) \<and> in_i64 (sl_Attempts l)"

definition outbox_codec :: "outbox_env \<Rightarrow> bool" where
  "outbox_codec env \<longleftrightarrow>
     (\<forall>ob. object_text ob \<longrightarrow> ox_unmarshal env (ox_marshal env ob) = Some ob) \<and>
     (\<forall>l. lease_text l \<longrightarrow> ox_unmarshalLease env (ox_marshalLease env l) = (l, True)) \<and>
     (\<forall>body f. ox_authField env body = Some f \<longrightarrow> utf8_Valid f) \<and>
     (\<forall>t. utf8_Valid (ox_formatTime env t))"

definition object_fields :: "OutObject \<Rightarrow> int \<times> int \<times> string list" where
  "object_fields ob = (ob_Version ob, ob_Attempts ob, [ob_Kind ob, ob_Path ob, ob_Body ob, ob_BodySHA256 ob, ob_BaseURL ob,
     ob_BootAuth ob, ob_BootKID ob, ob_AuthorizationID ob, ob_Reason ob, ob_WrittenAt ob])"

definition object_of_fields :: "int \<times> int \<times> string list \<Rightarrow> OutObject" where
  "object_of_fields f = (case f of (version, attempts, fs) \<Rightarrow>
     \<lparr>ob_Version = version, ob_Kind = fs ! 0, ob_Path = fs ! 1, ob_Body = fs ! 2, ob_BodySHA256 = fs ! 3, ob_BaseURL = fs ! 4,
      ob_BootAuth = fs ! 5, ob_BootKID = fs ! 6, ob_AuthorizationID = fs ! 7, ob_Reason = fs ! 8, ob_Attempts = attempts,
      ob_WrittenAt = fs ! 9\<rparr>)"

lemma object_of_fields [simp]: "object_of_fields (object_fields ob) = ob"
  by (simp add: object_fields_def object_of_fields_def)

text \<open>A concrete environment: an object is a run of one letter whose length numbers its fields.\<close>

definition exampleOutboxEnv :: outbox_env where
  "exampleOutboxEnv =
     \<lparr>ox_sha256 = (\<lambda>s. replicate 32 CHR ''h''),
      ox_marshal = (\<lambda>ob. replicate (to_nat (object_fields ob)) CHR ''a''),
      ox_unmarshal = (\<lambda>s. Some (object_of_fields (from_nat (length s)))),
      ox_authField = (\<lambda>body. Some ''auth-1''),
      ox_formatTime = (\<lambda>t. ''2026-10-24T12:00:00Z''),
      ox_marshalLease = (\<lambda>l. replicate (to_nat (sl_Owner l, sl_Until l, sl_Attempts l)) CHR ''a''),
      ox_unmarshalLease = (\<lambda>s. (case from_nat (length s) of (owner, until, attempts) \<Rightarrow>
        \<lparr>sl_Owner = owner, sl_Until = until, sl_Attempts = attempts\<rparr>, True))\<rparr>"

lemma exampleOutbox_codec: "outbox_codec exampleOutboxEnv"
  by (auto simp: outbox_codec_def exampleOutboxEnv_def byte_def intro!: utf8_Valid_ascii)

end
