(* ===== verification/SettleProps.thy ===== *)
theory SettleProps
  imports SettleStore
begin

text \<open>
  The properties of the durable settle outbox: nothing parked is lost, an outcome says where the
  copy is, a signed terminal is replayed unchanged, leases exclude, the report adds up.
\<close>

section \<open>Never losing a terminal\<close>

text \<open>Any call of any writer or sweeper on the store, from any of its own states.\<close>

inductive outbox_step :: "outbox_env \<Rightarrow> 'w outbox_world \<Rightarrow> 'w \<Rightarrow> 'w \<Rightarrow> bool"
  for env :: outbox_env and ops :: "'w outbox_world" where
  sweep: "Sweep env ops s w = (s', w', report, e) \<Longrightarrow> outbox_step env ops w w'"
| park: "Option.bind writer wt_ops = Some ops \<Longrightarrow> writeWithRetry env ops writer w entry = (w', outcome) \<Longrightarrow> outbox_step env ops w w'"

lemma outbox_step_evolves:
  assumes "outbox_store ops" "outbox_step env ops w w'"
  shows "evolves (ow_objects ops w) (ow_objects ops w')"
  using assms(2)
proof cases
  case (sweep s s' report e)
  then show ?thesis using outbox_store.Sweep_goes [OF assms(1)] by blast
next
  case (park writer entry outcome)
  then show ?thesis using outbox_store.writeRetry_goes [OF assms(1)] unfolding writeWithRetry_def by blast
qed

lemma outbox_steps_evolve:
  assumes "outbox_store ops" "(outbox_step env ops)\<^sup>*\<^sup>* w w'"
  shows "evolves (ow_objects ops w) (ow_objects ops w')"
  using store_content.along [of "outbox_step env ops" "ow_objects ops", OF outbox_step_evolves [OF assms(1)] assms(2)] .


definition exampleClock :: gotime where
  "exampleClock = \<lparr>t_wall = 1800000000 * Second, t_mono = Some 1000\<rparr>"

definition exampleGen :: genWorld where
  "exampleGen = \<lparr>gw_objects = [], gw_next = 1, gw_clock = exampleClock, gw_answers = [], gw_posts = []\<rparr>"

definition exampleDigestSigner :: DigestSigner where
  "exampleDigestSigner = \<lparr>ds_Kid = ''boot'', ds_SignDigest = (\<lambda>d. Some (''s'' @ d))\<rparr>"

definition exampleWriter :: "genWorld Writer" where
  "exampleWriter = \<lparr>wt_ops = Some genStore, wt_signer = Some exampleDigestSigner\<rparr>"

lemma exampleEncode:
  "\<exists>data. Encode exampleOutboxEnv exampleEntry (Some exampleDigestSigner) exampleClock
    = Inr (ObjectName exampleOutboxEnv ''settle'' ''auth-1'' ''{}'', data)"
  by (simp add: Encode_def exampleEntry_def OutKind_def SignAuthorize_def exampleDigestSigner_def Let_def authorizationID_def exampleOutboxEnv_def)

lemma exampleWritten:
  "\<exists>w1 result. writeWithRetry exampleOutboxEnv genStore (Some exampleWriter) exampleGen exampleEntry = (w1, Written result)"
  using exampleEncode
  by (auto simp: writeWithRetry_def writeRetry.simps [of _ _ _ _ _ "Suc 0"] writeAttempts_def Write_def exampleWriter_def gen_defs exampleGen_def)


section \<open>One object\<close>

text \<open>A terminal that is not verified is not posted: the run does not depend on the replayer.\<close>

lemma replayObject_unverified:
  assumes "\<And>object. Decode env (so_Data stored) = Inr object \<Longrightarrow> unverifiedReason object \<noteq> ''''"
  shows "replayObject env ops s w name rest stored held
    = fileObject env ops s w name stored held (QuarantinePrefix @ rest) OutcomeQuarantined"
  using assms by (auto simp: replayObject_def split: sum.splits)

lemma classify_outcomes:
  "rv_outcome (classify err) = OutcomeSettled \<longleftrightarrow> err = None"
  "rv_outcome (classify err) = OutcomeQuarantined \<longleftrightarrow>
     (\<exists>c. err = Some (ControlPlane c) \<and> ce_StatusCode c = 401 \<and> ce_Reason c = BootAuthRefusedReason)"
  "rv_outcome (classify err) = OutcomeDead \<longleftrightarrow>
     (\<exists>c. err = Some (ControlPlane c) \<and> 400 \<le> ce_StatusCode c \<and> ce_StatusCode c < 500 \<and> ce_StatusCode c \<notin> {401, 403, 408, 429})"
  "rv_senderRefused (classify err) \<longleftrightarrow>
     (\<exists>c. err = Some (ControlPlane c) \<and> (ce_StatusCode c = 401 \<and> ce_Reason c \<noteq> BootAuthRefusedReason \<or> ce_StatusCode c = 403))"
  "rv_outcome (classify err) \<noteq> OutcomeSkipped"
  by (auto simp: classify_def readRefusal_def Let_def split: option.splits call_error.splits)

lemma fileObject_error:
  "fileObject env ops s w name stored held target outcome = (w', r, e) \<Longrightarrow>
    \<not> or_senderRefused r \<and> (e \<noteq> None \<longrightarrow> or_outcome r = OutcomeRetry)"
  by (auto simp: fileObject_def fileDelete_def result_of_def split: sum.splits if_splits prod.splits)

lemma replayObject_error:
  assumes "replayObject env ops s w name rest stored held = (w', r, e)"
  shows "(or_senderRefused r \<longrightarrow> or_outcome r = OutcomeRetry) \<and> (e \<noteq> None \<longrightarrow> or_outcome r = OutcomeRetry)"
  using assms fileObject_error
  by (fastforce simp: replayObject_def Let_def split: sum.splits if_splits prod.splits Outcome.splits)

lemma sweepObject_error:
  assumes "sweepObject env ops s w meta = (w', r, e)"
  shows "(or_senderRefused r \<longrightarrow> or_outcome r = OutcomeRetry) \<and> (e \<noteq> None \<longrightarrow> or_outcome r \<in> {OutcomeRetry, OutcomeSkipped})"
  using assms
  by (auto simp: sweepObject_def Let_def result_of_def split: sum.splits if_splits prod.splits option.splits dest!: replayObject_error)

text \<open>What \<open>sweepObject\<close> reports is true of the store: settled, dead and quarantined mean that
  a copy of the object is under that prefix; a refused sender and an error never file the
  object. The only answers that file a terminal as settled, quarantined or dead are success, a
  refusal of its boot auth, and a final client error.\<close>
theorem sweepObject_truthful:
  assumes "outbox_store ops" "sweepObject env ops s w meta = (w', r, e)" "om_Name meta = ObjectPrefix @ rest"
  shows "(or_outcome r = OutcomeSettled \<longrightarrow> DonePrefix @ rest \<in> dom (ow_objects ops w'))
    \<and> (or_outcome r = OutcomeDead \<longrightarrow> DeadPrefix @ rest \<in> dom (ow_objects ops w'))
    \<and> (or_outcome r = OutcomeQuarantined \<longrightarrow> QuarantinePrefix @ rest \<in> dom (ow_objects ops w'))
    \<and> (or_senderRefused r \<longrightarrow> or_outcome r = OutcomeRetry)
    \<and> (e \<noteq> None \<longrightarrow> or_outcome r \<in> {OutcomeRetry, OutcomeSkipped})"
  using outbox_store.sweepObject_goes [OF assms] sweepObject_error [OF assms(2)] by blast

lemma prefix_names [simp]:
  "ObjectPrefix \<noteq> leasePrefix"
  "ObjectPrefix \<noteq> DonePrefix"
  "ObjectPrefix \<noteq> DeadPrefix"
  "ObjectPrefix \<noteq> QuarantinePrefix"
  "leasePrefix \<noteq> ObjectPrefix"
  "leasePrefix \<noteq> DonePrefix"
  "leasePrefix \<noteq> DeadPrefix"
  "leasePrefix \<noteq> QuarantinePrefix"
  "DonePrefix \<noteq> ObjectPrefix"
  "DonePrefix \<noteq> leasePrefix"
  "DonePrefix \<noteq> DeadPrefix"
  "DonePrefix \<noteq> QuarantinePrefix"
  "DeadPrefix \<noteq> ObjectPrefix"
  "DeadPrefix \<noteq> leasePrefix"
  "DeadPrefix \<noteq> DonePrefix"
  "DeadPrefix \<noteq> QuarantinePrefix"
  "QuarantinePrefix \<noteq> ObjectPrefix"
  "QuarantinePrefix \<noteq> leasePrefix"
  "QuarantinePrefix \<noteq> DonePrefix"
  "QuarantinePrefix \<noteq> DeadPrefix"
  by (simp_all add: ObjectPrefix_def leasePrefix_def DonePrefix_def DeadPrefix_def QuarantinePrefix_def)

definition examplePending :: genWorld where
  "examplePending = exampleGen\<lparr>gw_objects := [(ObjectPrefix @ ''settle/a/b.json'', \<lparr>so_Data = ''junk'', so_Generation = 7\<rparr>)], gw_next := 8\<rparr>"

definition brokenEnv :: outbox_env where
  "brokenEnv = exampleOutboxEnv\<lparr>ox_unmarshal := (\<lambda>s. None)\<rparr>"

lemmas example_run = sweepObject_def examplePending_def exampleGen_def brokenEnv_def claim_def claimNext_def gen_defs replayObject_def
  Decode_def fileObject_def fileDelete_def dropLease_def result_of_def HasPrefix_append TrimPrefix_append

theorem sweepObject_truthful_witness:
  "\<exists>w' r. sweepObject brokenEnv genStore (NewSweeper ''s'') examplePending
      \<lparr>om_Name = ObjectPrefix @ ''settle/a/b.json'', om_Generation = 7\<rparr> = (w', r, None)
    \<and> or_outcome r = OutcomeQuarantined \<and> QuarantinePrefix @ ''settle/a/b.json'' \<in> dom (gen_objects w')"
proof -
  let ?meta = "\<lparr>om_Name = ObjectPrefix @ ''settle/a/b.json'', om_Generation = 7\<rparr>"
  obtain w' r where 1: "sweepObject brokenEnv genStore (NewSweeper ''s'') examplePending ?meta = (w', r, None)"
    and 2: "or_outcome r = OutcomeQuarantined"
    by (simp add: example_run HasSuffix_def update_conv' delete_conv')
  from sweepObject_truthful [OF gen.outbox_store_axioms 1, of "''settle/a/b.json''"] show ?thesis
    using 1 2 by (auto simp: genStore_def)
qed

section \<open>Parking and replaying\<close>

lemma bootAuthKID_HeaderValue:
  assumes "CHR '','' \<notin> set (ba_KID auth)" "ba_KID auth \<noteq> ''''" "ba_Sig auth \<noteq> ''''"
  shows "bootAuthKID (HeaderValue auth) = Some (ba_KID auth)"
proof -
  have "CutAt (CHR '','') (HeaderValue auth) = Some (''kid='' @ ba_KID auth, ''sig='' @ ba_Sig auth)"
    using CutAt_append [of "CHR '',''" "''kid='' @ ba_KID auth" "''sig='' @ ba_Sig auth"] assms(1)
    by (simp add: HeaderValue_def)
  then show ?thesis using assms(2,3) by (simp add: bootAuthKID_def CutPrefix_def)
qed

lemma b64_nonempty: "s \<noteq> [] \<Longrightarrow> b64_EncodeToString s \<noteq> []"
  by (cases "map of_char s :: nat list" rule: b64_groups.cases) (auto simp: b64_EncodeToString_def)

lemma utf8_hex: "utf8_Valid (hex_EncodeToString s)"
proof (rule utf8_Valid_ascii)
  show "\<forall>c \<in> set (hex_EncodeToString s). byte c < 128"
    using hex_EncodeToString_lower [of s] by (auto simp: list_all_iff lower_hex_char_def Let_def byte_def)
qed

lemma utf8_b64_header:
  assumes "\<forall>c \<in> set kid. byte c < 128"
  shows "utf8_Valid (HeaderValue \<lparr>ba_KID = kid, ba_Sig = b64_EncodeToString s\<rparr>)"
proof (rule utf8_Valid_ascii)
  have "byte c < 128" if c: "c \<in> set (b64_EncodeToString s)" for c
    using b64_Encode_chars [OF c] by (auto simp: b64_char_def byte_def)
  then show "\<forall>c \<in> set (HeaderValue \<lparr>ba_KID = kid, ba_Sig = b64_EncodeToString s\<rparr>). byte c < 128"
    using assms by (auto simp: HeaderValue_def byte_def)
qed

text \<open>The entry holds text that JSON keeps: valid UTF-8 and a 64-bit count.\<close>

definition entry_text :: "OutEntry \<Rightarrow> bool" where
  "entry_text entry \<longleftrightarrow> utf8_Valid (fz_BaseURL (en_Terminal entry)) \<and> utf8_Valid (fz_BootAuth (en_Terminal entry))
     \<and> utf8_Valid (en_Reason entry) \<and> in_i64 (en_Attempts entry)"

text \<open>A boot key as the writer uses it: an ASCII kid without a comma, and signatures that are not
  empty.\<close>

definition plain_signer :: "DigestSigner \<Rightarrow> bool" where
  "plain_signer sg \<longleftrightarrow> ds_Kid sg \<noteq> '''' \<and> CHR '','' \<notin> set (ds_Kid sg) \<and> (\<forall>c \<in> set (ds_Kid sg). byte c < 128)
     \<and> (\<forall>d. ds_SignDigest sg d \<noteq> Some '''')"

lemma OutKind_text: "OutKind path = Inr kind \<Longrightarrow> utf8_Valid path \<and> utf8_Valid kind"
  by (auto simp: OutKind_def byte_def split: if_splits intro!: utf8_Valid_ascii)

text \<open>The object \<open>Encode\<close> marshals.\<close>

lemma Encode_object:
  assumes "Encode env entry (Some sg) now = Inr (name, data)" "plain_signer sg" "fz_BootAuth (en_Terminal entry) = ''''"
  obtains ob signature where "data = ox_marshal env ob" "ob_Version ob = outboxVersion"
    "OutKind (fz_Path (en_Terminal entry)) = Inr (ob_Kind ob)" "ob_BodySHA256 ob = hex_EncodeToString (ox_sha256 env (ob_Body ob))"
    "ob_Path ob = fz_Path (en_Terminal entry)" "ob_Body ob = fz_Body (en_Terminal entry)" "ob_BaseURL ob = fz_BaseURL (en_Terminal entry)"
    "ob_AuthorizationID ob = authorizationID env (ob_Body ob)" "ob_Reason ob = en_Reason entry" "ob_Attempts ob = en_Attempts entry"
    "ob_WrittenAt ob = ox_formatTime env now" "ob_BootKID ob = ds_Kid sg" "signature \<noteq> ''''"
    "ds_SignDigest sg (AuthorizeDigest (ox_sha256 env) ''POST'' (ob_Path ob) (ob_Body ob)) = Some signature"
    "ob_BootAuth ob = HeaderValue \<lparr>ba_KID = ds_Kid sg, ba_Sig = b64_EncodeToString signature\<rparr>"
    "name = ObjectName env (ob_Kind ob) (ob_AuthorizationID ob) (ob_Body ob)"
proof -
  let ?t = "en_Terminal entry"
  obtain kind where k: "OutKind (fz_Path ?t) = Inr kind" using assms(1) by (auto simp: Encode_def Let_def)
  obtain signature where s: "ds_SignDigest sg (AuthorizeDigest (ox_sha256 env) ''POST'' (fz_Path ?t) (fz_Body ?t)) = Some signature"
    using assms k by (auto simp: Encode_def Let_def plain_signer_def SignAuthorize_def split: if_splits option.splits sum.splits)
  have "signature \<noteq> ''''" using s assms(2) by (auto simp: plain_signer_def)
  moreover define ob where "ob = \<lparr>ob_Version = outboxVersion, ob_Kind = kind, ob_Path = fz_Path ?t, ob_Body = fz_Body ?t,
       ob_BodySHA256 = hex_EncodeToString (ox_sha256 env (fz_Body ?t)), ob_BaseURL = fz_BaseURL ?t,
       ob_BootAuth = HeaderValue \<lparr>ba_KID = ds_Kid sg, ba_Sig = b64_EncodeToString signature\<rparr>, ob_BootKID = ds_Kid sg,
       ob_AuthorizationID = authorizationID env (fz_Body ?t), ob_Reason = en_Reason entry, ob_Attempts = en_Attempts entry,
       ob_WrittenAt = ox_formatTime env now\<rparr>"
  moreover have "data = ox_marshal env ob \<and> name = ObjectName env (ob_Kind ob) (ob_AuthorizationID ob) (ob_Body ob)"
    using assms k s by (auto simp: Encode_def Let_def plain_signer_def SignAuthorize_def ob_def split: if_splits)
  ultimately show ?thesis using that [of ob signature] s k by (simp add: ob_def)
qed

text \<open>(C6) A terminal parked by a boot with a registered key is replayed as it was: the object
  decodes, the sweeper finds it verified, the terminal it posts has the parked path, body and
  authority, and its boot auth is the signature of that boot over POST, this path and this
  body.\<close>
theorem Encode_replays:
  assumes "outbox_codec env" "entry_text entry" "plain_signer sg" "fz_BootAuth (en_Terminal entry) = ''''"
    and "Encode env entry (Some sg) now = Inr (name, data)"
  shows "\<exists>ob signature. Decode env data = Inr ob \<and> unverifiedReason ob = ''''
    \<and> ds_SignDigest sg (AuthorizeDigest (ox_sha256 env) ''POST'' (fz_Path (en_Terminal entry)) (fz_Body (en_Terminal entry))) = Some signature
    \<and> object_Terminal ob = (en_Terminal entry)\<lparr>fz_BootAuth := HeaderValue \<lparr>ba_KID = ds_Kid sg, ba_Sig = b64_EncodeToString signature\<rparr>\<rparr>
    \<and> name = ObjectName env (ob_Kind ob) (ob_AuthorizationID ob) (ob_Body ob)"
proof -
  obtain ob signature where e: "data = ox_marshal env ob" "ob_Version ob = outboxVersion"
    "OutKind (fz_Path (en_Terminal entry)) = Inr (ob_Kind ob)" "ob_BodySHA256 ob = hex_EncodeToString (ox_sha256 env (ob_Body ob))"
    "ob_Path ob = fz_Path (en_Terminal entry)" "ob_Body ob = fz_Body (en_Terminal entry)" "ob_BaseURL ob = fz_BaseURL (en_Terminal entry)"
    "ob_AuthorizationID ob = authorizationID env (ob_Body ob)" "ob_Reason ob = en_Reason entry" "ob_Attempts ob = en_Attempts entry"
    "ob_WrittenAt ob = ox_formatTime env now" "ob_BootKID ob = ds_Kid sg" "signature \<noteq> ''''"
    "ds_SignDigest sg (AuthorizeDigest (ox_sha256 env) ''POST'' (ob_Path ob) (ob_Body ob)) = Some signature"
    "ob_BootAuth ob = HeaderValue \<lparr>ba_KID = ds_Kid sg, ba_Sig = b64_EncodeToString signature\<rparr>"
    "name = ObjectName env (ob_Kind ob) (ob_AuthorizationID ob) (ob_Body ob)"
    using Encode_object [OF assms(5,3,4)] .
  have "utf8_Valid (authorizationID env (ob_Body ob))"
    using assms(1) by (auto simp: outbox_codec_def authorizationID_def utf8_Valid_def runes.simps [of "[]"] split: option.splits)
  moreover have "utf8_Valid (ds_Kid sg)" "utf8_Valid (HeaderValue \<lparr>ba_KID = ds_Kid sg, ba_Sig = b64_EncodeToString signature\<rparr>)"
    using assms(3) by (simp_all add: plain_signer_def utf8_Valid_ascii utf8_b64_header)
  moreover have "utf8_Valid (ox_formatTime env now)" using assms(1) by (simp add: outbox_codec_def)
  ultimately have "object_text ob"
    using e assms(2) OutKind_text [OF e(3)] by (simp add: object_text_def entry_text_def outboxVersion_def i64_defs utf8_hex)
  then have "ox_unmarshal env data = Some ob" using assms(1) e(1) by (simp add: outbox_codec_def)
  then have "Decode env data = Inr ob" using e by (simp add: Decode_def)
  moreover have "unverifiedReason ob = ''''"
    using bootAuthKID_HeaderValue [of "\<lparr>ba_KID = ds_Kid sg, ba_Sig = b64_EncodeToString signature\<rparr>"] e assms(3) b64_nonempty
    by (simp add: unverifiedReason_def plain_signer_def)
  ultimately show ?thesis using e by (auto simp: object_Terminal_def)
qed

theorem Encode_replays_witness:
  "\<exists>name data ob. Encode exampleOutboxEnv exampleEntry (Some exampleDigestSigner) exampleClock = Inr (name, data)
    \<and> Decode exampleOutboxEnv data = Inr ob \<and> unverifiedReason ob = '''' \<and> fz_Body (object_Terminal ob) = ''{}''"
proof -
  obtain data where d: "Encode exampleOutboxEnv exampleEntry (Some exampleDigestSigner) exampleClock
    = Inr (ObjectName exampleOutboxEnv ''settle'' ''auth-1'' ''{}'', data)" using exampleEncode by blast
  have "entry_text exampleEntry"
    by (auto simp: entry_text_def exampleEntry_def i64_defs byte_def intro!: utf8_Valid_ascii)
  moreover have "plain_signer exampleDigestSigner" by (simp add: plain_signer_def exampleDigestSigner_def byte_def)
  moreover have "fz_BootAuth (en_Terminal exampleEntry) = ''''" "fz_Body (en_Terminal exampleEntry) = ''{}''" by (simp_all add: exampleEntry_def)
  ultimately show ?thesis using Encode_replays [OF exampleOutbox_codec _ _ _ d] d by auto
qed

section \<open>Leases exclude\<close>

definition gen_ok :: "genWorld \<Rightarrow> bool" where
  "gen_ok w \<longleftrightarrow> (\<forall>name st. map_of (gw_objects w) name = Some st \<longrightarrow> 0 < so_Generation st \<and> so_Generation st < gw_next w) \<and> 0 < gw_next w"

text \<open>The lease object a sweeper finds.\<close>

definition leaseAt :: "genWorld \<Rightarrow> string \<Rightarrow> StoredObject option" where
  "leaseAt w rest = map_of (gw_objects w) (leasePrefix @ rest)"

lemma claim_gen:
  "claim env genStore s w rest =
     (case claimNext env s (gw_clock w) (leaseAt w rest) of
        None \<Rightarrow> (w, Inr None)
      | Some (nxt, generation) \<Rightarrow>
        (case gen_Put w (leasePrefix @ rest) (ox_marshalLease env nxt) generation of
           (w1, Inl ErrPrecondition) \<Rightarrow> (w1, Inr None)
         | (w1, Inl err) \<Rightarrow> (w1, Inl err)
         | (w1, Inr updated) \<Rightarrow> (w1, Inr (Some \<lparr>cl_name = leasePrefix @ rest, cl_generation = so_Generation updated, cl_attempts = sl_Attempts nxt\<rparr>))))"
  by (simp add: claim_def genStore_def gen_Get_def leaseAt_def Let_def split: option.splits)

lemma claimNext_Some:
  assumes "claimNext env s now stored = Some (nxt, generation)"
  shows "generation = (case stored of None \<Rightarrow> 0 | Some st \<Rightarrow> so_Generation st)"
    and "sl_Until nxt = t_UnixMilli (t_Add now (sw_lease s))" and "utf8_Valid (sw_owner s) \<Longrightarrow> lease_text nxt"
  using assms by (auto simp: claimNext_def Let_def lease_text_def t_UnixMilli_def i64_add_def split: if_splits)

text \<open>A claim that succeeds wrote the lease at a new generation.\<close>

lemma claim_gen_success:
  assumes "claim env genStore s w rest = (w1, Inr (Some held))"
  obtains nxt generation where "claimNext env s (gw_clock w) (leaseAt w rest) = Some (nxt, generation)"
    "leaseAt w1 rest = Some \<lparr>so_Data = ox_marshalLease env nxt, so_Generation = gw_next w\<rparr>" "cl_generation held = gw_next w"
  using assms
  by (auto simp: claim_gen gen_Put_def gen_write_def Let_def leaseAt_def update_conv' split: option.splits if_splits prod.splits sum.splits store_error.splits)



section \<open>Backoff and report\<close>

text \<open>The backoff doubles with the attempts up to the lease, without overflow.\<close>

lemma backoffLoop_exact:
  assumes "0 < delay" "in_i64 (2 * lease)"
  shows "min (backoffLoop lease attempts i delay) lease = min (delay * 2 ^ nat (attempts - i)) lease"
  using assms(1)
proof (induction "nat (attempts - i)" arbitrary: i delay)
  case 0
  then show ?case by (subst backoffLoop.simps) simp
next
  case (Suc n)
  show ?case
  proof (cases "delay < lease")
    case True
    have "in_i64 (delay * 2)" using True Suc.prems assms(2) by (simp add: i64_defs)
    then have d: "i64_mul delay 2 = delay * 2" by (rule i64_mul_exact)
    have n: "nat (attempts - i) = Suc (nat (attempts - (i + 1)))" "i < attempts" using Suc.hyps(2) by simp_all
    have "backoffLoop lease attempts i delay = backoffLoop lease attempts (i + 1) (delay * 2)"
      using True n d by (subst backoffLoop.simps) auto
    then show ?thesis using Suc.hyps(1) [of "i + 1" "delay * 2"] Suc.hyps(2) Suc.prems n by (simp add: mult.assoc)
  next
    case False
    have "delay * 1 \<le> delay * 2 ^ nat (attempts - i)" using Suc.prems by (intro mult_left_mono) simp_all
    then show ?thesis using False by (subst backoffLoop.simps) simp
  qed
qed

lemma backoff_exact:
  assumes "0 < sw_interval s" "in_i64 (2 * sw_lease s)"
  shows "backoff s attempts = min (sw_interval s * 2 ^ nat (attempts - 1)) (sw_lease s)"
  using backoffLoop_exact [OF assms(1,2)] by (simp add: backoff_def)

text \<open>The objects a report accounts for.\<close>

definition handled :: "Report \<Rightarrow> nat" where
  "handled report = rp_Settled report + rp_Dead report + rp_Quarantined report + rp_Retried report + rp_Skipped report"

lemma countOutcome_handled [simp]:
  "handled (countOutcome report outcome) = Suc (handled report)"
  "rp_Claimed (countOutcome report outcome) = rp_Claimed report"
  "rp_Listed (countOutcome report outcome) = rp_Listed report"
  "rp_SenderRefused (countOutcome report outcome) = rp_SenderRefused report"
  by (cases outcome; simp add: countOutcome_def handled_def)+

lemma handled_update [simp]:
  "handled (report\<lparr>rp_Claimed := n\<rparr>) = handled report"
  "handled (report\<lparr>rp_OrphanLeases := n\<rparr>) = handled report"
  "handled (report\<lparr>rp_SenderRefused := b\<rparr>) = handled report"
  "handled (report\<lparr>rp_Listed := n\<rparr>) = handled report"
  "handled (report\<lparr>rp_Retried := Suc (rp_Retried report)\<rparr>) = Suc (handled report)"
  "handled (report\<lparr>rp_Claimed := n, rp_Retried := Suc (rp_Retried report)\<rparr>) = Suc (handled report)"
  by (simp_all add: handled_def)

lemma setPageToken_pause [simp]: "sw_pausedUntil (setPageToken s token) = sw_pausedUntil s"
  by (simp add: setPageToken_def)

lemma sweepPage_report:
  assumes "sweepPage env ops s w report objects = (s', w', report', e)"
  shows "rp_Listed report' = rp_Listed report \<and> handled report' \<le> handled report + length objects
    \<and> (e = None \<longrightarrow> handled report' = handled report + length objects)
    \<and> (rp_SenderRefused report' \<longleftrightarrow> rp_SenderRefused report \<or> e = Some ErrSenderRefused)
    \<and> rp_Claimed report' + handled report \<le> rp_Claimed report + handled report'
    \<and> (e \<noteq> Some ErrSenderRefused \<longrightarrow> s' = s)"
  using assms
proof (induction objects arbitrary: w report)
  case (Cons object objects)
  obtain w1 c where 1: "ow_ctxDone ops w = (w1, c)" by force
  obtain w2 r err where 2: "sweepObject env ops s w1 object = (w2, r, err)" by (metis prod_cases3)
  obtain w3 now where 3: "ow_now ops w2 = (w3, now)" by force
  let ?report = "if or_claimed r then report\<lparr>rp_Claimed := Suc (rp_Claimed report)\<rparr> else report"
  note ih = Cons.IH [of w2 "countOutcome ?report (or_outcome r)"]
  have "handled ?report = handled report" by simp
  then show ?case using Cons.prems ih
    by (cases "or_claimed r") (auto simp: 1 2 3 Let_def split: if_splits)
qed simp

text \<open>The report of a sweep adds up: every listed object is counted in at most one outcome, in
  exactly one when the page was not cut short, no more claims are counted than objects, and a
  refused sender is reported exactly when the sweep returns that error, which also pauses the
  sweeper for one lease.\<close>
theorem Sweep_report:
  assumes "Sweep env ops s w = (s', w', report, e)"
  shows "handled report \<le> rp_Listed report \<and> rp_Claimed report \<le> handled report
    \<and> (e = None \<longrightarrow> handled report = rp_Listed report)
    \<and> (rp_SenderRefused report \<longleftrightarrow> e = Some ErrSenderRefused)
    \<and> (e \<noteq> Some ErrSenderRefused \<longrightarrow> sw_pausedUntil s' = sw_pausedUntil s)"
proof -
  have empty: "handled emptyReport = 0" "rp_Claimed emptyReport = 0" "rp_SenderRefused emptyReport = False" "rp_Listed emptyReport = 0"
    by (simp_all add: handled_def emptyReport_def)
  have leases: "e' \<noteq> Some ErrSenderRefused" if "sweepLeases env ops s1 v = (v', n, e')" for s1 v v' n e'
  proof -
    have "leasePage env ops v t n metas = (v', n', e') \<Longrightarrow> e' \<noteq> Some ErrSenderRefused" for v t n metas n'
      by (induction metas arbitrary: v n) (auto simp: Let_def split: if_splits sum.splits prod.splits)
    then show ?thesis using that by (auto simp: sweepLeases_def split: prod.splits sum.splits)
  qed
  obtain w1 now where 1: "ow_now ops w = (w1, now)" by force
  obtain w2 r where 2: "ow_List ops w1 ObjectPrefix (sw_pageSize s) (sw_pageToken s) = (w2, r)" by force
  show ?thesis
  proof (cases r)
    case (Inr page)
    obtain objects token where p: "page = (objects, token)" by force
    obtain s3 w3 rep3 e3 where 3: "sweepPage env ops (setPageToken s token) w2 (emptyReport\<lparr>rp_Listed := length objects\<rparr>) objects = (s3, w3, rep3, e3)"
      by (metis prod_cases4)
    obtain w4 n e4 where 4: "sweepLeases env ops s3 w3 = (w4, n, e4)" by (metis prod_cases3)
    have run: "Sweep env ops s w = (if t_Before now (sw_pausedUntil s) then (s, w1, emptyReport, None)
        else (case e3 of Some err \<Rightarrow> (s3, w3, rep3, Some err) | None \<Rightarrow> (s3, w4, rep3\<lparr>rp_OrphanLeases := n\<rparr>, e4)))"
      by (simp add: Sweep_def 1 2 3 4 Inr p split: option.splits)
    show ?thesis using assms sweepPage_report [OF 3] leases [OF 4] unfolding run
      by (cases e3) (auto simp: empty split: if_splits)
  qed (use assms in \<open>auto simp: Sweep_def 1 2 empty split: if_splits\<close>)
qed

theorem Sweep_report_witness:
  "\<exists>s' w' report e. Sweep brokenEnv genStore (NewSweeper ''s'') examplePending = (s', w', report, e)
    \<and> handled report \<le> rp_Listed report \<and> (e = None \<longrightarrow> handled report = rp_Listed report)"
proof -
  obtain s' w' report e where 1: "Sweep brokenEnv genStore (NewSweeper ''s'') examplePending = (s', w', report, e)" by (metis prod_cases4)
  from Sweep_report [OF 1] show ?thesis by (intro exI conjI) (rule 1, simp_all)
qed

end
