(* ===== verification/GoList.thy ===== *)
theory GoList
  imports GoPrelude
begin

text \<open>
  Package \<open>container/list\<close> as the caches use it, and tables that pair a Go map with such a list.
  An element is a number, which stands for its pointer; a list knows the next unused one. A
  table keeps, per key, the element that holds the value of the key (\<open>map[K]*list.Element\<close>).
\<close>

section \<open>Lists of elements\<close>

record 'v golist =
  gl_items :: "(nat \<times> 'v) list"
  gl_next :: nat

definition gl_New :: "'v golist" where
  "gl_New = \<lparr>gl_items = [], gl_next = 0\<rparr>"

definition gl_Value :: "'v golist \<Rightarrow> nat \<Rightarrow> 'v option" where
  "gl_Value l element = map_of (gl_items l) element"

definition gl_set :: "'v golist \<Rightarrow> nat \<Rightarrow> 'v \<Rightarrow> 'v golist" where
  "gl_set l element v = l\<lparr>gl_items := map (\<lambda>(i, w). (i, if i = element then v else w)) (gl_items l)\<rparr>"

definition gl_PushFront :: "'v golist \<Rightarrow> 'v \<Rightarrow> 'v golist \<times> nat" where
  "gl_PushFront l v = (\<lparr>gl_items = (gl_next l, v) # gl_items l, gl_next = Suc (gl_next l)\<rparr>, gl_next l)"

fun insertAfterItem :: "nat \<Rightarrow> nat \<times> 'v \<Rightarrow> (nat \<times> 'v) list \<Rightarrow> (nat \<times> 'v) list" where
  "insertAfterItem mark e [] = []"
| "insertAfterItem mark e (x # xs) = (if fst x = mark then x # e # xs else x # insertAfterItem mark e xs)"

definition gl_InsertAfter :: "'v golist \<Rightarrow> 'v \<Rightarrow> nat \<Rightarrow> 'v golist \<times> nat" where
  "gl_InsertAfter l v mark =
     (\<lparr>gl_items = insertAfterItem mark (gl_next l, v) (gl_items l), gl_next = Suc (gl_next l)\<rparr>, gl_next l)"

definition gl_Remove :: "'v golist \<Rightarrow> nat \<Rightarrow> 'v golist" where
  "gl_Remove l element = l\<lparr>gl_items := filter (\<lambda>e. fst e \<noteq> element) (gl_items l)\<rparr>"

definition gl_MoveToFront :: "'v golist \<Rightarrow> nat \<Rightarrow> 'v golist" where
  "gl_MoveToFront l element = (case gl_Value l element of
     None \<Rightarrow> l
   | Some v \<Rightarrow> l\<lparr>gl_items := (element, v) # filter (\<lambda>e. fst e \<noteq> element) (gl_items l)\<rparr>)"

definition gl_Front :: "'v golist \<Rightarrow> nat option" where
  "gl_Front l = (case gl_items l of [] \<Rightarrow> None | e # _ \<Rightarrow> Some (fst e))"

definition gl_Back :: "'v golist \<Rightarrow> nat option" where
  "gl_Back l = (if gl_items l = [] then None else Some (fst (last (gl_items l))))"

section \<open>Maps\<close>

text \<open>A Go map as an association list with distinct keys.\<close>

definition gm_set :: "'k \<Rightarrow> 'v \<Rightarrow> ('k \<times> 'v) list \<Rightarrow> ('k \<times> 'v) list" where
  "gm_set k v m = (k, v) # filter (\<lambda>e. fst e \<noteq> k) m"

definition gm_del :: "'k \<Rightarrow> ('k \<times> 'v) list \<Rightarrow> ('k \<times> 'v) list" where
  "gm_del k m = filter (\<lambda>e. fst e \<noteq> k) m"

lemma distinct_filter_fst: "distinct (map fst m) \<Longrightarrow> distinct (map fst (filter P m))"
  by (induction m) auto

lemma gm_set_distinct [simp]: "distinct (map fst m) \<Longrightarrow> distinct (map fst (gm_set k v m))"
  by (auto simp: gm_set_def distinct_filter_fst)

lemma gm_del_distinct [simp]: "distinct (map fst m) \<Longrightarrow> distinct (map fst (gm_del k m))"
  by (simp add: gm_del_def distinct_filter_fst)

lemma map_of_filter_fst: "map_of (filter (\<lambda>e. fst e \<noteq> k) m) = (map_of m)(k := None)"
  by (induction m) auto

lemma gm_set_map_of [simp]: "map_of (gm_set k v m) = (map_of m)(k \<mapsto> v)"
  by (simp add: gm_set_def map_of_filter_fst)

lemma gm_del_map_of [simp]: "map_of (gm_del k m) = (map_of m)(k := None)"
  by (simp add: gm_del_def map_of_filter_fst)

lemma gm_set_length: "length (gm_set k v m) \<le> Suc (length m)"
  by (simp add: gm_set_def)

lemma gm_set_length_old:
  assumes "distinct (map fst m)" "map_of m k \<noteq> None"
  shows "length (gm_set k v m) = length m"
proof -
  have d: "distinct (map fst (gm_set k v m))" using assms(1) by simp
  have "fst ` set (gm_set k v m) = dom (map_of (gm_set k v m))" by (simp only: dom_map_of_conv_image_fst)
  also have "\<dots> = dom (map_of m)" using assms(2) by auto
  also have "\<dots> = fst ` set m" by (simp only: dom_map_of_conv_image_fst)
  finally show ?thesis using distinct_card [OF d] distinct_card [OF assms(1)] by simp
qed

lemma gm_del_length_le: "length (gm_del k m) \<le> length m"
  by (simp add: gm_del_def)

lemma gm_del_length_less: "map_of m k \<noteq> None \<Longrightarrow> length (gm_del k m) < length m"
  unfolding gm_del_def by (rule length_filter_less [of "(k, the (map_of m k))"]) (auto dest: map_of_SomeD)

section \<open>Tables\<close>

record ('k, 'v) table =
  tb_index :: "('k \<times> nat) list"
  tb_list :: "'v golist"

definition tb_New :: "('k, 'v) table" where
  "tb_New = \<lparr>tb_index = [], tb_list = gl_New\<rparr>"

text \<open>The index and the list hold the same elements, under the keys of their values.\<close>

definition table_ok :: "('v \<Rightarrow> 'k) \<Rightarrow> ('k, 'v) table \<Rightarrow> bool" where
  "table_ok key t \<longleftrightarrow>
     distinct (map fst (gl_items (tb_list t))) \<and> (\<forall>e \<in> set (gl_items (tb_list t)). fst e < gl_next (tb_list t)) \<and>
     distinct (map (\<lambda>e. key (snd e)) (gl_items (tb_list t))) \<and> distinct (map fst (tb_index t)) \<and>
     set (tb_index t) = (\<lambda>e. (key (snd e), fst e)) ` set (gl_items (tb_list t))"

abbreviation tb_values :: "('k, 'v) table \<Rightarrow> 'v list" where
  "tb_values t \<equiv> map snd (gl_items (tb_list t))"

text \<open>The value under a key, \<open>entries[key].Value\<close>.\<close>

definition tb_get :: "('k, 'v) table \<Rightarrow> 'k \<Rightarrow> (nat \<times> 'v) option" where
  "tb_get t k = (case map_of (tb_index t) k of
     None \<Rightarrow> None
   | Some element \<Rightarrow> map_option (\<lambda>v. (element, v)) (gl_Value (tb_list t) element))"

definition tb_remove :: "('v \<Rightarrow> 'k) \<Rightarrow> ('k, 'v) table \<Rightarrow> nat \<Rightarrow> ('k, 'v) table" where
  "tb_remove key t element = (case gl_Value (tb_list t) element of
     None \<Rightarrow> t
   | Some v \<Rightarrow> \<lparr>tb_index = gm_del (key v) (tb_index t), tb_list = gl_Remove (tb_list t) element\<rparr>)"

definition tb_pushFront :: "('k, 'v) table \<Rightarrow> 'k \<Rightarrow> 'v \<Rightarrow> ('k, 'v) table" where
  "tb_pushFront t k v = (let (l, element) = gl_PushFront (tb_list t) v in \<lparr>tb_index = gm_set k element (tb_index t), tb_list = l\<rparr>)"

definition tb_moveToFront :: "('k, 'v) table \<Rightarrow> nat \<Rightarrow> ('k, 'v) table" where
  "tb_moveToFront t element = t\<lparr>tb_list := gl_MoveToFront (tb_list t) element\<rparr>"

definition tb_set :: "('k, 'v) table \<Rightarrow> nat \<Rightarrow> 'v \<Rightarrow> ('k, 'v) table" where
  "tb_set t element v = t\<lparr>tb_list := gl_set (tb_list t) element v\<rparr>"

text \<open>The eviction loop \<open>for len(entries) >= max { remove(list.Back()) }\<close>. Every round removes an
  element, so as many rounds as there are elements are enough; \<open>remove(nil)\<close> on an empty list
  leaves the loop running, which the bound of zero rounds at a positive \<open>max\<close> excludes.\<close>

fun tb_evict :: "('v \<Rightarrow> 'k) \<Rightarrow> nat \<Rightarrow> int \<Rightarrow> ('k, 'v) table \<Rightarrow> ('k, 'v) table" where
  "tb_evict key 0 max_entries t = t"
| "tb_evict key (Suc n) max_entries t =
     (if int (length (tb_index t)) \<ge> max_entries
      then tb_evict key n max_entries (case gl_Back (tb_list t) of None \<Rightarrow> t | Some element \<Rightarrow> tb_remove key t element)
      else t)"

abbreviation tb_evictAll :: "('v \<Rightarrow> 'k) \<Rightarrow> int \<Rightarrow> ('k, 'v) table \<Rightarrow> ('k, 'v) table" where
  "tb_evictAll key max_entries t \<equiv> tb_evict key (length (tb_index t)) max_entries t"

lemma table_length: "table_ok key t \<Longrightarrow> length (tb_index t) = length (gl_items (tb_list t))"
proof -
  assume ok: "table_ok key t"
  have d1: "distinct (tb_index t)" using ok by (auto simp: table_ok_def distinct_map)
  have d2: "distinct (map (\<lambda>e. (key (snd e), fst e)) (gl_items (tb_list t)))"
    using ok by (auto simp: table_ok_def distinct_map inj_on_def)
  have "set (tb_index t) = set (map (\<lambda>e. (key (snd e), fst e)) (gl_items (tb_list t)))" using ok by (simp add: table_ok_def)
  then show ?thesis using distinct_card [OF d1] distinct_card [OF d2] by simp
qed

lemma table_New [simp]: "table_ok key tb_New"
  by (simp add: table_ok_def tb_New_def gl_New_def)

lemma gl_Value_iff:
  "distinct (map fst (gl_items l)) \<Longrightarrow> gl_Value l i = Some v \<longleftrightarrow> (i, v) \<in> set (gl_items l)"
  by (simp add: gl_Value_def)

lemma index_iff: "table_ok key t \<Longrightarrow> map_of (tb_index t) k = Some i \<longleftrightarrow> (\<exists>v. (i, v) \<in> set (gl_items (tb_list t)) \<and> key v = k)"
proof -
  assume "table_ok key t"
  then have d: "distinct (map fst (tb_index t))" and s: "set (tb_index t) = (\<lambda>e. (key (snd e), fst e)) ` set (gl_items (tb_list t))"
    by (simp_all add: table_ok_def)
  have "map_of (tb_index t) k = Some i \<longleftrightarrow> (k, i) \<in> (\<lambda>e. (key (snd e), fst e)) ` set (gl_items (tb_list t))"
    using d s by simp
  then show ?thesis by force
qed

lemma distinct_keys_same:
  "distinct (map (\<lambda>e. f (snd e)) xs) \<Longrightarrow> (i, v) \<in> set xs \<Longrightarrow> (j, w) \<in> set xs \<Longrightarrow> f v = f w \<Longrightarrow> i = j \<and> v = w"
  unfolding distinct_map inj_on_def by (metis prod.inject snd_conv)

lemma tb_get_Some: "table_ok key t \<Longrightarrow> tb_get t k = Some (i, v) \<longleftrightarrow> (i, v) \<in> set (gl_items (tb_list t)) \<and> key v = k"
proof -
  assume ok: "table_ok key t"
  then have d: "distinct (map fst (gl_items (tb_list t)))" "distinct (map (\<lambda>e. key (snd e)) (gl_items (tb_list t)))"
    by (simp_all add: table_ok_def)
  show ?thesis
  proof
    assume "tb_get t k = Some (i, v)"
    then have i: "map_of (tb_index t) k = Some i" and v: "(i, v) \<in> set (gl_items (tb_list t))"
      using gl_Value_iff [OF d(1)] by (auto simp: tb_get_def split: option.splits)
    from i obtain w where "(i, w) \<in> set (gl_items (tb_list t))" "key w = k" using index_iff [OF ok] by blast
    then show "(i, v) \<in> set (gl_items (tb_list t)) \<and> key v = k" using v eq_key_imp_eq_value [OF d(1)] by metis
  next
    assume a: "(i, v) \<in> set (gl_items (tb_list t)) \<and> key v = k"
    then have "map_of (tb_index t) k = Some i" using index_iff [OF ok] by blast
    then show "tb_get t k = Some (i, v)" using a gl_Value_iff [OF d(1)] by (simp add: tb_get_def)
  qed
qed

lemma tb_get_None: "table_ok key t \<Longrightarrow> tb_get t k = None \<longleftrightarrow> k \<notin> key ` set (tb_values t)"
  using tb_get_Some [of key t k] by (cases "tb_get t k") force+

lemma tb_get_index: "table_ok key t \<Longrightarrow> tb_get t k = None \<longleftrightarrow> map_of (tb_index t) k = None"
  using index_iff [of key t k] tb_get_Some [of key t k]
  by (cases "tb_get t k"; cases "map_of (tb_index t) k") auto

lemma tb_remove_ok: "table_ok key t \<Longrightarrow> table_ok key (tb_remove key t i)"
proof -
  assume ok: "table_ok key t"
  let ?xs = "gl_items (tb_list t)"
  have d: "distinct (map fst ?xs)" "distinct (map (\<lambda>e. key (snd e)) ?xs)"
    and s: "set (tb_index t) = (\<lambda>e. (key (snd e), fst e)) ` set ?xs" using ok by (simp_all add: table_ok_def)
  show ?thesis
  proof (cases "gl_Value (tb_list t) i")
    case (Some v)
    then have v: "(i, v) \<in> set ?xs" using gl_Value_iff [OF d(1)] by simp
    have "e \<in> set ?xs \<Longrightarrow> key (snd e) = key v \<longleftrightarrow> fst e = i" for e
      using distinct_keys_same [OF d(2), of "fst e" "snd e" i v] v eq_key_imp_eq_value [OF d(1)] by (cases e) auto
    then have "{x \<in> (\<lambda>e. (key (snd e), fst e)) ` set ?xs. fst x \<noteq> key v} = (\<lambda>e. (key (snd e), fst e)) ` {e \<in> set ?xs. fst e \<noteq> i}"
      by auto
    then show ?thesis using ok Some
      by (auto simp: table_ok_def tb_remove_def gl_Remove_def gm_del_def distinct_filter_fst distinct_map_filter)
  qed (use ok in \<open>simp add: tb_remove_def\<close>)
qed

lemma tb_remove_items: "table_ok key t \<Longrightarrow> gl_items (tb_list (tb_remove key t i)) = filter (\<lambda>e. fst e \<noteq> i) (gl_items (tb_list t))"
proof -
  assume "table_ok key t"
  then have d: "distinct (map fst (gl_items (tb_list t)))" by (simp add: table_ok_def)
  show ?thesis
  proof (cases "gl_Value (tb_list t) i")
    case None
    then have "\<forall>e \<in> set (gl_items (tb_list t)). fst e \<noteq> i" by (auto simp: gl_Value_def map_of_eq_None_iff)
    then show ?thesis using None by (simp add: tb_remove_def filter_id_conv)
  qed (simp add: tb_remove_def gl_Remove_def)
qed

lemma tb_pushFront_ok:
  assumes "table_ok key t" "tb_get t (key v) = None"
  shows "table_ok key (tb_pushFront t (key v) v)"
proof -
  have n: "map_of (tb_index t) (key v) = None" using assms(2) tb_get_index [OF assms(1)] by simp
  then have f: "filter (\<lambda>e. fst e \<noteq> key v) (tb_index t) = tb_index t"
    by (force simp: filter_id_conv map_of_eq_None_iff)
  have "key v \<notin> (\<lambda>e. key (snd e)) ` set (gl_items (tb_list t))" using assms tb_get_None [OF assms(1), of "key v"] by auto
  moreover have "key v \<notin> fst ` set (tb_index t)" using n by (simp add: map_of_eq_None_iff)
  ultimately show ?thesis using assms(1)
    by (auto simp: table_ok_def tb_pushFront_def gl_PushFront_def gm_set_def f)
qed

lemma tb_pushFront_items: "gl_items (tb_list (tb_pushFront t k v)) = (gl_next (tb_list t), v) # gl_items (tb_list t)"
  by (simp add: tb_pushFront_def gl_PushFront_def)

lemma tb_moveToFront_ok: "table_ok key t \<Longrightarrow> table_ok key (tb_moveToFront t i)"
proof -
  assume ok: "table_ok key t"
  have d: "distinct (map fst (gl_items (tb_list t)))" using ok by (simp add: table_ok_def)
  show ?thesis
  proof (cases "gl_Value (tb_list t) i")
    case (Some v)
    then have v: "(i, v) \<in> set (gl_items (tb_list t))" using gl_Value_iff [OF d] by simp
    let ?ys = "filter (\<lambda>e. fst e \<noteq> i) (gl_items (tb_list t))"
    have s: "insert (i, v) (set ?ys) = set (gl_items (tb_list t))" using v d by (auto dest: eq_key_imp_eq_value)
    have dk: "distinct (map (\<lambda>e. key (snd e)) (gl_items (tb_list t)))" using ok by (simp add: table_ok_def)
    have "key v \<notin> (\<lambda>e. key (snd e)) ` set ?ys"
    proof
      assume "key v \<in> (\<lambda>e. key (snd e)) ` set ?ys"
      then obtain j w where "(j, w) \<in> set (gl_items (tb_list t))" "j \<noteq> i" "key v = key w" by auto
      then show False using distinct_keys_same [OF dk v] by blast
    qed
    moreover have "distinct (map fst ?ys)" "distinct (map (\<lambda>e. key (snd e)) ?ys)"
      using ok by (simp_all add: table_ok_def distinct_filter_fst distinct_map_filter)
    moreover have "i \<notin> fst ` set ?ys" by auto
    moreover have "gl_items (tb_list (tb_moveToFront t i)) = (i, v) # ?ys" "gl_next (tb_list (tb_moveToFront t i)) = gl_next (tb_list t)"
      "tb_index (tb_moveToFront t i) = tb_index t"
      by (simp_all add: tb_moveToFront_def gl_MoveToFront_def Some)
    moreover have "(\<lambda>e. (key (snd e), fst e)) ` set ((i, v) # ?ys) = set (tb_index t)" "\<forall>e \<in> set ((i, v) # ?ys). fst e < gl_next (tb_list t)"
      unfolding list.set s using ok by (simp_all add: table_ok_def)
    ultimately show ?thesis using ok unfolding table_ok_def by (simp add: image_comp comp_def)
  qed (use ok in \<open>simp add: tb_moveToFront_def gl_MoveToFront_def\<close>)
qed

lemma tb_moveToFront_set:
  "table_ok key t \<Longrightarrow> set (gl_items (tb_list (tb_moveToFront t i))) = set (gl_items (tb_list t))
    \<and> length (gl_items (tb_list (tb_moveToFront t i))) = length (gl_items (tb_list t)) \<and> tb_index (tb_moveToFront t i) = tb_index t"
proof -
  assume ok: "table_ok key t"
  have i: "tb_index (tb_moveToFront t i) = tb_index t" by (simp add: tb_moveToFront_def)
  have d: "distinct (map fst (gl_items (tb_list t)))" using ok by (simp add: table_ok_def)
  have "set (gl_items (tb_list (tb_moveToFront t i))) = set (gl_items (tb_list t))"
    using gl_Value_iff [OF d, of i] d
    by (auto simp: tb_moveToFront_def gl_MoveToFront_def split: option.splits dest: eq_key_imp_eq_value)
  then show ?thesis using i table_length [OF ok] table_length [OF tb_moveToFront_ok [OF ok, of i]] by simp
qed

lemma gl_set_items: "gl_items (gl_set l i v) = map (\<lambda>(j, w). (j, if j = i then v else w)) (gl_items l)"
  by (simp add: gl_set_def)

lemma tb_set_ok:
  assumes "table_ok key t" "(i, v) \<in> set (gl_items (tb_list t))" "key v' = key v"
  shows "table_ok key (tb_set t i v')"
proof -
  let ?xs = "gl_items (tb_list t)" and ?f = "\<lambda>(j, w). (j, if j = i then v' else w)"
  have d: "distinct (map fst ?xs)" using assms(1) by (simp add: table_ok_def)
  have k: "key (snd (?f e)) = key (snd e) \<and> fst (?f e) = fst e" if "e \<in> set ?xs" for e
  proof (cases e)
    case (Pair j w)
    then show ?thesis using that assms(2,3) eq_key_imp_eq_value [OF d, of i w v] by auto
  qed
  have 1: "map fst (map ?f ?xs) = map fst ?xs" "map (\<lambda>e. key (snd e)) (map ?f ?xs) = map (\<lambda>e. key (snd e)) ?xs"
    using k by (auto simp: comp_def)
  have 2: "(\<lambda>e. (key (snd e), fst e)) ` set (map ?f ?xs) = (\<lambda>e. (key (snd e), fst e)) ` set ?xs"
    using k by (auto simp: image_image intro!: image_cong)
  have 3: "\<forall>e \<in> set (map ?f ?xs). fst e < gl_next (tb_list t)" using assms(1) by (auto simp: table_ok_def)
  have sel: "gl_items (tb_list (tb_set t i v')) = map ?f ?xs" "gl_next (tb_list (tb_set t i v')) = gl_next (tb_list t)"
    "tb_index (tb_set t i v') = tb_index t"
    by (simp_all add: tb_set_def gl_set_def)
  show ?thesis unfolding table_ok_def sel 1 2 using assms(1) 3 by (simp add: table_ok_def)
qed

text \<open>A fresh value may be inserted anywhere in the list.\<close>

lemma table_ok_insert:
  assumes ok: "table_ok key t" and get: "tb_get t (key v) = None" and split: "gl_items (tb_list t) = xs @ ys"
  shows "table_ok key \<lparr>tb_index = gm_set (key v) (gl_next (tb_list t)) (tb_index t),
    tb_list = \<lparr>gl_items = xs @ (gl_next (tb_list t), v) # ys, gl_next = Suc (gl_next (tb_list t))\<rparr>\<rparr>"
proof -
  have "table_ok key (tb_pushFront t (key v) v)" by (rule tb_pushFront_ok [OF ok get])
  then have front: "table_ok key \<lparr>tb_index = gm_set (key v) (gl_next (tb_list t)) (tb_index t),
    tb_list = \<lparr>gl_items = (gl_next (tb_list t), v) # xs @ ys, gl_next = Suc (gl_next (tb_list t))\<rparr>\<rparr>"
    by (simp add: tb_pushFront_def gl_PushFront_def split)
  have "set (xs @ e # ys) = set (e # xs @ ys)" "distinct (map f (xs @ e # ys)) \<longleftrightarrow> distinct (map f (e # xs @ ys))"
    for e :: "nat \<times> 'a" and f :: "nat \<times> 'a \<Rightarrow> 'c" by auto
  with front show ?thesis unfolding table_ok_def by auto
qed

lemma insertAfterItem_split:
  "distinct (map fst (xs @ (mark, w) # ys)) \<Longrightarrow> insertAfterItem mark e (xs @ (mark, w) # ys) = xs @ (mark, w) # e # ys"
  by (induction xs) auto

text \<open>Eviction keeps a table, only removes values, and makes room.\<close>

definition tb_dropBack :: "('v \<Rightarrow> 'k) \<Rightarrow> ('k, 'v) table \<Rightarrow> ('k, 'v) table" where
  "tb_dropBack key t = (case gl_Back (tb_list t) of None \<Rightarrow> t | Some element \<Rightarrow> tb_remove key t element)"

lemma tb_evict_simps:
  "tb_evict key (Suc n) m t = (if int (length (tb_index t)) \<ge> m then tb_evict key n m (tb_dropBack key t) else t)"
  by (simp add: tb_dropBack_def)

lemma tb_dropBack_ok: "table_ok key t \<Longrightarrow> table_ok key (tb_dropBack key t)"
  by (auto simp: tb_dropBack_def tb_remove_ok split: option.splits)

lemma filter_last_id:
  assumes "distinct (map fst xs)" "xs \<noteq> []"
  shows "filter (\<lambda>e. fst e \<noteq> fst (last xs)) xs = butlast xs"
proof -
  obtain ys e where xs: "xs = ys @ [e]" using assms(2) by (metis append_butlast_last_id)
  have "fst e \<notin> fst ` set ys" using assms(1) xs by simp
  then have "\<forall>y \<in> set ys. fst y \<noteq> fst e" by (metis imageI)
  then show ?thesis by (simp add: xs filter_id_conv)
qed

lemma tb_dropBack_items: "table_ok key t \<Longrightarrow> gl_items (tb_list (tb_dropBack key t)) = butlast (gl_items (tb_list t))"
proof -
  assume ok: "table_ok key t"
  then have d: "distinct (map fst (gl_items (tb_list t)))" by (simp add: table_ok_def)
  show ?thesis
  proof (cases "gl_items (tb_list t) = []")
    case False
    then show ?thesis using tb_remove_items [OF ok] filter_last_id [OF d False] by (simp add: tb_dropBack_def gl_Back_def)
  qed (simp add: tb_dropBack_def gl_Back_def)
qed

lemma tb_evict_spec:
  assumes "table_ok key t" "0 < m"
  shows "length (tb_index t) \<le> n \<Longrightarrow>
    table_ok key (tb_evict key n m t)
    \<and> gl_items (tb_list (tb_evict key n m t)) = take (nat (m - 1)) (gl_items (tb_list t))"
  using assms(1)
proof (induction n arbitrary: t)
  case 0
  then show ?case using table_length [OF 0(2)] by simp
next
  case (Suc n)
  note len = table_length [OF Suc.prems(2)]
  show ?case
  proof (cases "int (length (tb_index t)) \<ge> m")
    case True
    let ?t = "tb_dropBack key t"
    have ok: "table_ok key ?t" by (rule tb_dropBack_ok [OF Suc.prems(2)])
    have "length (tb_index ?t) \<le> n" using table_length [OF ok] tb_dropBack_items [OF Suc.prems(2)] len Suc.prems(1) by simp
    moreover have "nat (m - 1) < length (gl_items (tb_list t))" using True len assms(2) by simp
    ultimately show ?thesis
      using True Suc.IH [OF _ ok] tb_dropBack_items [OF Suc.prems(2)]
      by (simp add: tb_evict_simps take_butlast del: tb_evict.simps)
  next
    case False
    then show ?thesis using Suc.prems len by simp
  qed
qed

lemmas tb_evictAll_spec = tb_evict_spec [OF _ _ order_refl]

text \<open>The two moves of an LRU table: a resident value is replaced and moved to the front; a new one is
  pushed in front of what eviction leaves.\<close>

lemma tb_refresh:
  assumes ok: "table_ok key t" and get: "tb_get t k = Some (i, v)" and key: "key v' = key v"
  defines "t' \<equiv> tb_moveToFront (tb_set t i v') i"
  shows "table_ok key t'" and "length (tb_index t') = length (tb_index t)" and "tb_get t' k = Some (i, v')"
    and "set (tb_values t') \<subseteq> insert v' (set (tb_values t))"
proof -
  have m: "(i, v) \<in> set (gl_items (tb_list t))" "key v = k" using get tb_get_Some [OF ok] by auto
  have s: "table_ok key (tb_set t i v')" by (rule tb_set_ok [OF ok m(1) key])
  note f = tb_moveToFront_set [OF s, of i]
  show ok': "table_ok key t'" unfolding t'_def by (rule tb_moveToFront_ok [OF s])
  show "length (tb_index t') = length (tb_index t)" using f by (simp add: t'_def tb_set_def)
  have set: "set (gl_items (tb_list t')) = (\<lambda>(j, w). (j, if j = i then v' else w)) ` set (gl_items (tb_list t))"
    using f by (auto simp: t'_def tb_set_def gl_set_def)
  have "(i, v') \<in> set (gl_items (tb_list t'))" unfolding set using m(1) by force
  then show "tb_get t' k = Some (i, v')" using tb_get_Some [OF ok'] key m(2) by simp
  show "set (tb_values t') \<subseteq> insert v' (set (tb_values t))" by (auto simp: set split: if_splits intro: rev_image_eqI)
qed

lemma tb_insert:
  assumes ok: "table_ok key t" and get: "tb_get t (key v) = None" and pos: "0 < m"
  defines "t' \<equiv> tb_pushFront (tb_evictAll key m t) (key v) v"
  shows "table_ok key t'" and "int (length (tb_index t')) \<le> m" and "tb_values t' = v # take (nat (m - 1)) (tb_values t)"
proof -
  let ?t = "tb_evictAll key m t"
  have t: "table_ok key ?t" and i: "gl_items (tb_list ?t) = take (nat (m - 1)) (gl_items (tb_list t))"
    using tb_evictAll_spec [OF ok pos] by auto
  have "key v \<notin> key ` set (tb_values t)" using get tb_get_None [OF ok] by simp
  then have "tb_get ?t (key v) = None" unfolding tb_get_None [OF t] i by (auto dest!: in_set_takeD)
  then show p: "table_ok key t'" unfolding t'_def by (rule tb_pushFront_ok [OF t])
  show "tb_values t' = v # take (nat (m - 1)) (tb_values t)" by (simp add: t'_def tb_pushFront_items i take_map)
  have "length (tb_index t') = Suc (length (gl_items (tb_list ?t)))" using table_length [OF p] by (simp add: t'_def tb_pushFront_items)
  then show "int (length (tb_index t')) \<le> m" using pos by (auto simp: i min_def)
qed

section \<open>Bounded state\<close>

text \<open>A component whose state may not outgrow its limit, whatever sequence of calls it serves.\<close>

locale bounded_state =
  fixes step :: "'s \<Rightarrow> 's \<Rightarrow> bool" and ok :: "'s \<Rightarrow> bool" and size_of :: "'s \<Rightarrow> int" and limit :: "'s \<Rightarrow> int"
  assumes step_ok: "step s s' \<Longrightarrow> ok s \<Longrightarrow> ok s'"
    and step_limit: "step s s' \<Longrightarrow> limit s' = limit s"
    and ok_bound: "ok s \<Longrightarrow> size_of s \<le> limit s"
begin

lemma reach_ok: "step\<^sup>*\<^sup>* s s' \<Longrightarrow> ok s \<Longrightarrow> ok s' \<and> limit s' = limit s"
  by (induction rule: rtranclp_induct) (auto simp: step_ok step_limit)

lemma reach_bound: "step\<^sup>*\<^sup>* s s' \<Longrightarrow> ok s \<Longrightarrow> size_of s' \<le> limit s"
  using reach_ok ok_bound by fastforce

end

end
