(* ===== verification/AuthCache.thy ===== *)
theory AuthCache
  imports GoList ControlPlane
begin

text \<open>
  The cache of negative credential verdicts (package \<open>internal/authcache\<close>): a map of lookup hashes
  to the elements of a recency list, a time to live, and eviction of the least recently used
  verdict. The receivers are not nil: on nil, \<open>Contains\<close> and \<open>Remember\<close> are false and \<open>Len\<close> is 0.
\<close>

record auth_entry =
  ae_lookupHash :: string
  ae_expiresAt :: gotime

record AuthCache =
  ac_ttl :: int
  ac_maxEntries :: int
  ac_table :: "(string, auth_entry) table"

definition authDefaultTTL :: int where "authDefaultTTL = 45 * Second"
definition authDefaultMaxEntries :: int where "authDefaultMaxEntries = 65536"

definition auth_New :: "int \<Rightarrow> int \<Rightarrow> AuthCache" where
  "auth_New ttl maxEntries =
     \<lparr>ac_ttl = (if ttl \<le> 0 then authDefaultTTL else ttl),
      ac_maxEntries = (if maxEntries \<le> 0 then authDefaultMaxEntries else maxEntries), ac_table = tb_New\<rparr>"

definition auth_remove :: "AuthCache \<Rightarrow> nat \<Rightarrow> AuthCache" where
  "auth_remove c element = c\<lparr>ac_table := tb_remove ae_lookupHash (ac_table c) element\<rparr>"

definition auth_Contains :: "AuthCache \<Rightarrow> string \<Rightarrow> gotime \<Rightarrow> AuthCache \<times> bool" where
  "auth_Contains c lookupHash now =
     (if \<not> isLookupHash lookupHash then (c, False)
      else (case tb_get (ac_table c) lookupHash of
          None \<Rightarrow> (c, False)
        | Some (element, item) \<Rightarrow>
          if \<not> t_Before now (ae_expiresAt item) then (auth_remove c element, False)
          else (c\<lparr>ac_table := tb_moveToFront (ac_table c) element\<rparr>, True)))"

definition auth_Remember :: "AuthCache \<Rightarrow> string \<Rightarrow> call_error option \<Rightarrow> gotime \<Rightarrow> AuthCache \<times> bool" where
  "auth_Remember c lookupHash err now =
     (if \<not> isLookupHash lookupHash \<or> \<not> IsDefinitiveInvalidCredential err then (c, False)
      else (case tb_get (ac_table c) lookupHash of
          Some (element, item) \<Rightarrow>
            (c\<lparr>ac_table := tb_moveToFront (tb_set (ac_table c) element (item\<lparr>ae_expiresAt := t_Add now (ac_ttl c)\<rparr>)) element\<rparr>, True)
        | None \<Rightarrow>
            (c\<lparr>ac_table := tb_pushFront (tb_evictAll ae_lookupHash (ac_maxEntries c) (ac_table c)) lookupHash
                 \<lparr>ae_lookupHash = lookupHash, ae_expiresAt = t_Add now (ac_ttl c)\<rparr>\<rparr>, True)))"

definition auth_Len :: "AuthCache \<Rightarrow> nat" where
  "auth_Len c = length (tb_index (ac_table c))"

section \<open>Histories\<close>

datatype auth_event = AuthContains string gotime | AuthRemember string "call_error option" gotime

definition auth_exec :: "AuthCache \<Rightarrow> auth_event \<Rightarrow> AuthCache" where
  "auth_exec c e = (case e of AuthContains h now \<Rightarrow> fst (auth_Contains c h now) | AuthRemember h err now \<Rightarrow> fst (auth_Remember c h err now))"

inductive auth_step :: "AuthCache \<Rightarrow> AuthCache \<Rightarrow> bool" where
  "auth_step c (auth_exec c e)"

definition auth_ok :: "AuthCache \<Rightarrow> bool" where
  "auth_ok c \<longleftrightarrow> table_ok ae_lookupHash (ac_table c) \<and> 0 < ac_maxEntries c \<and> int (auth_Len c) \<le> ac_maxEntries c"

lemma auth_New_ok: "auth_ok (auth_New ttl maxEntries)"
  by (simp add: auth_ok_def auth_New_def auth_Len_def tb_New_def authDefaultMaxEntries_def table_ok_def gl_New_def)

text \<open>What \<open>Remember\<close> of a new hash leaves: the new verdict in front of the most recent others.\<close>

lemma auth_Remember_new:
  assumes "auth_ok c" "isLookupHash h" "IsDefinitiveInvalidCredential err" "tb_get (ac_table c) h = None"
  shows "auth_ok (fst (auth_Remember c h err now))"
    and "tb_values (ac_table (fst (auth_Remember c h err now)))
      = \<lparr>ae_lookupHash = h, ae_expiresAt = t_Add now (ac_ttl c)\<rparr> # take (nat (ac_maxEntries c - 1)) (tb_values (ac_table c))"
proof -
  let ?e = "\<lparr>ae_lookupHash = h, ae_expiresAt = t_Add now (ac_ttl c)\<rparr>"
  have "table_ok ae_lookupHash (ac_table c)" "tb_get (ac_table c) (ae_lookupHash ?e) = None" "0 < ac_maxEntries c"
    using assms by (simp_all add: auth_ok_def)
  note ins = tb_insert [OF this]
  have r: "fst (auth_Remember c h err now) = c\<lparr>ac_table := tb_pushFront (tb_evictAll ae_lookupHash (ac_maxEntries c) (ac_table c)) h ?e\<rparr>"
    using assms(2-4) by (simp add: auth_Remember_def)
  show "auth_ok (fst (auth_Remember c h err now))" using ins assms(1) by (simp add: auth_ok_def r auth_Len_def)
  show "tb_values (ac_table (fst (auth_Remember c h err now))) = ?e # take (nat (ac_maxEntries c - 1)) (tb_values (ac_table c))"
    using ins by (simp add: r)
qed

lemma auth_Remember_old:
  assumes "auth_ok c" "isLookupHash h" "IsDefinitiveInvalidCredential err" "tb_get (ac_table c) h = Some (element, item)"
  shows "auth_ok (fst (auth_Remember c h err now))"
    and "set (tb_values (ac_table (fst (auth_Remember c h err now))))
      \<subseteq> insert (item\<lparr>ae_expiresAt := t_Add now (ac_ttl c)\<rparr>) (set (tb_values (ac_table c)))"
    and "tb_get (ac_table (fst (auth_Remember c h err now))) h = Some (element, item\<lparr>ae_expiresAt := t_Add now (ac_ttl c)\<rparr>)"
proof -
  let ?v = "item\<lparr>ae_expiresAt := t_Add now (ac_ttl c)\<rparr>"
  have ok: "table_ok ae_lookupHash (ac_table c)" using assms(1) by (simp add: auth_ok_def)
  have "ae_lookupHash ?v = ae_lookupHash item" by simp
  note ref = tb_refresh [OF ok assms(4) this]
  have r: "fst (auth_Remember c h err now) = c\<lparr>ac_table := tb_moveToFront (tb_set (ac_table c) element ?v) element\<rparr>"
    using assms(2-4) by (simp add: auth_Remember_def)
  show "auth_ok (fst (auth_Remember c h err now))" using ref(1,2) assms(1) by (simp add: r auth_ok_def auth_Len_def)
  show "set (tb_values (ac_table (fst (auth_Remember c h err now)))) \<subseteq> insert ?v (set (tb_values (ac_table c)))"
    using ref(4) by (simp add: r)
  show "tb_get (ac_table (fst (auth_Remember c h err now))) h = Some (element, ?v)" using ref(3) by (simp add: r)
qed

lemma auth_Contains_ok:
  assumes "auth_ok c"
  shows "auth_ok (fst (auth_Contains c h now))"
    and "set (tb_values (ac_table (fst (auth_Contains c h now)))) \<subseteq> set (tb_values (ac_table c))"
proof -
  have ok: "table_ok ae_lookupHash (ac_table c)" using assms by (simp add: auth_ok_def)
  have r: "length (tb_index (tb_remove ae_lookupHash (ac_table c) i)) \<le> length (tb_index (ac_table c))" for i
    by (auto simp: tb_remove_def gm_del_length_le split: option.splits)
  show "auth_ok (fst (auth_Contains c h now))"
    using assms tb_remove_ok [OF ok] tb_moveToFront_ok [OF ok] tb_moveToFront_set [OF ok] r order_trans [OF of_nat_mono [OF r]]
    by (auto simp: auth_Contains_def auth_ok_def auth_Len_def auth_remove_def split: option.splits)
  show "set (tb_values (ac_table (fst (auth_Contains c h now)))) \<subseteq> set (tb_values (ac_table c))"
    using tb_remove_items [OF ok] tb_moveToFront_set [OF ok]
    by (auto simp: auth_Contains_def auth_remove_def split: option.splits)
qed

lemma auth_exec_ok: "auth_ok c \<Longrightarrow> auth_ok (auth_exec c e)"
proof (cases e)
  case (AuthContains h now)
  then show "auth_ok c \<Longrightarrow> ?thesis" using auth_Contains_ok by (simp add: auth_exec_def)
next
  case (AuthRemember h err now)
  assume ok: "auth_ok c"
  show ?thesis
  proof (cases "isLookupHash h \<and> IsDefinitiveInvalidCredential err")
    case True
    then show ?thesis
      using auth_Remember_new(1) [OF ok, of h err now] auth_Remember_old(1) [OF ok, of h err _ _ now] AuthRemember
      by (cases "tb_get (ac_table c) h") (auto simp: auth_exec_def)
  qed (use ok AuthRemember in \<open>auto simp: auth_exec_def auth_Remember_def\<close>)
qed

lemma auth_exec_conf: "ac_maxEntries (auth_exec c e) = ac_maxEntries c" "ac_ttl (auth_exec c e) = ac_ttl c"
  by (auto simp: auth_exec_def auth_Contains_def auth_Remember_def auth_remove_def split: auth_event.splits option.splits)

interpretation auth_bounded: bounded_state auth_step auth_ok "\<lambda>c. int (auth_Len c)" ac_maxEntries
proof unfold_locales
  fix s s' assume "auth_step s s'"
  then obtain e where "s' = auth_exec s e" by (cases rule: auth_step.cases) auto
  then show "auth_ok s \<Longrightarrow> auth_ok s'" and "ac_maxEntries s' = ac_maxEntries s" by (simp_all add: auth_exec_ok auth_exec_conf)
qed (simp add: auth_ok_def)

text \<open>A verdict just remembered is found until it expires.\<close>

lemma auth_fresh:
  assumes ok: "auth_ok c" and stored: "snd (auth_Remember c h err t)" and live: "t_Before now (t_Add t (ac_ttl c))"
  shows "snd (auth_Contains (fst (auth_Remember c h err t)) h now)"
proof -
  have g: "isLookupHash h" "IsDefinitiveInvalidCredential err" using stored by (auto simp: auth_Remember_def split: if_splits)
  let ?c = "fst (auth_Remember c h err t)"
  obtain i v where "tb_get (ac_table ?c) h = Some (i, v)" "ae_expiresAt v = t_Add t (ac_ttl c)"
  proof (cases "tb_get (ac_table c) h")
    case None
    note new = auth_Remember_new [OF ok g None, of t]
    let ?e = "\<lparr>ae_lookupHash = h, ae_expiresAt = t_Add t (ac_ttl c)\<rparr>"
    have "?e \<in> set (tb_values (ac_table ?c))" unfolding new(2) by simp
    then obtain i where "(i, ?e) \<in> set (gl_items (tb_list (ac_table ?c)))" by auto
    then show ?thesis using that [of i ?e] tb_get_Some [of ae_lookupHash "ac_table ?c" h i ?e] new(1) by (simp add: auth_ok_def)
  next
    case (Some ev)
    obtain i v where ev: "ev = (i, v)" by force
    show ?thesis using that auth_Remember_old(3) [OF ok g Some [unfolded ev], of t] by simp
  qed
  then show ?thesis using g(1) live by (simp add: auth_Contains_def)
qed

text \<open>Every resident verdict goes back to a \<open>Remember\<close> of a definitive refusal.\<close>

definition auth_justified :: "int \<Rightarrow> auth_event list \<Rightarrow> auth_entry \<Rightarrow> bool" where
  "auth_justified ttl evs v \<longleftrightarrow> (\<exists>err now. AuthRemember (ae_lookupHash v) err now \<in> set evs \<and> IsDefinitiveInvalidCredential err
     \<and> ae_expiresAt v = t_Add now ttl)"

lemma auth_exec_values:
  assumes "auth_ok c" "v \<in> set (tb_values (ac_table (auth_exec c e)))"
  shows "v \<in> set (tb_values (ac_table c)) \<or> auth_justified (ac_ttl c) [e] v"
proof (cases e)
  case (AuthContains h now)
  then have "v \<in> set (tb_values (ac_table (fst (auth_Contains c h now))))" using assms(2) by (simp add: auth_exec_def)
  then show ?thesis using subsetD [OF auth_Contains_ok(2) [OF assms(1)]] by blast
next
  case (AuthRemember h err now)
  show ?thesis
  proof (cases "isLookupHash h \<and> IsDefinitiveInvalidCredential err")
    case True
    show ?thesis
    proof (cases "tb_get (ac_table c) h")
      case None
      then have "v = \<lparr>ae_lookupHash = h, ae_expiresAt = t_Add now (ac_ttl c)\<rparr> \<or> v \<in> set (tb_values (ac_table c))"
        using assms(2) auth_Remember_new(2) [OF assms(1) conjunct1 [OF True] conjunct2 [OF True] None] AuthRemember
        by (auto simp: auth_exec_def take_map dest!: in_set_takeD)
      then show ?thesis using True AuthRemember by (auto simp: auth_justified_def)
    next
      case (Some ev)
      obtain element item where ev: "ev = (element, item)" by force
      have h: "ae_lookupHash item = h" using tb_get_Some [of ae_lookupHash "ac_table c" h] assms(1) Some ev by (auto simp: auth_ok_def)
      have "v = item\<lparr>ae_expiresAt := t_Add now (ac_ttl c)\<rparr> \<or> v \<in> set (tb_values (ac_table c))"
        using assms(2) auth_Remember_old(2) [OF assms(1) conjunct1 [OF True] conjunct2 [OF True] Some [unfolded ev]] AuthRemember
        by (auto simp: auth_exec_def)
      then show ?thesis using True AuthRemember h by (auto simp: auth_justified_def)
    qed
  qed (use assms(2) AuthRemember in \<open>auto simp: auth_exec_def auth_Remember_def\<close>)
qed

lemma auth_run:
  assumes "c = foldl auth_exec (auth_New ttl maxEntries) evs"
  shows "auth_ok c \<and> ac_ttl c = ac_ttl (auth_New ttl maxEntries) \<and> ac_maxEntries c = ac_maxEntries (auth_New ttl maxEntries)
    \<and> (\<forall>v \<in> set (tb_values (ac_table c)). auth_justified (ac_ttl c) evs v)"
  using assms
proof (induction evs arbitrary: c rule: rev_induct)
  case Nil
  then show ?case using auth_New_ok by (simp add: auth_New_def tb_New_def gl_New_def)
next
  case (snoc e evs)
  let ?b = "foldl auth_exec (auth_New ttl maxEntries) evs"
  note ih = snoc.IH [OF refl]
  have c: "c = auth_exec ?b e" using snoc.prems by simp
  have "auth_justified (ac_ttl c) (evs @ [e]) v" if "v \<in> set (tb_values (ac_table c))" for v
  proof -
    have "v \<in> set (tb_values (ac_table ?b)) \<or> auth_justified (ac_ttl ?b) [e] v"
      using auth_exec_values [of ?b v e] ih that c by blast
    then have "auth_justified (ac_ttl ?b) evs v \<or> auth_justified (ac_ttl ?b) [e] v" using ih by blast
    then show ?thesis unfolding c auth_exec_conf auth_justified_def by auto
  qed
  then show ?case using ih auth_exec_ok [of ?b e] auth_exec_conf [of ?b e] c by auto
qed

text \<open>(C16) The negative cache is sound, fresh and bounded. After any history of calls on a new cache it
  holds at most its maximum of verdicts; \<open>Contains\<close> answers true only for a well-formed hash
  for which an earlier \<open>Remember\<close> of a definitive invalid-credential verdict is still within its
  time to live; and a verdict just remembered is found until it expires.\<close>
theorem auth_verdicts:
  assumes "c = foldl auth_exec (auth_New ttl maxEntries) evs"
  shows "int (auth_Len c) \<le> (if maxEntries \<le> 0 then 65536 else maxEntries)
    \<and> (\<forall>h now. snd (auth_Contains c h now) \<longrightarrow> isLookupHash h \<and> (\<exists>err t. AuthRemember h err t \<in> set evs
        \<and> IsDefinitiveInvalidCredential err \<and> t_Before now (t_Add t (if ttl \<le> 0 then 45 * Second else ttl))))
    \<and> (\<forall>h err t now. snd (auth_Remember c h err t) \<and> t_Before now (t_Add t (if ttl \<le> 0 then 45 * Second else ttl))
        \<longrightarrow> snd (auth_Contains (fst (auth_Remember c h err t)) h now))"
proof -
  note run = auth_run [OF assms]
  have ttl: "ac_ttl c = (if ttl \<le> 0 then 45 * Second else ttl)" using run by (simp add: auth_New_def authDefaultTTL_def)
  have ok: "table_ok ae_lookupHash (ac_table c)" using run by (simp add: auth_ok_def)
  have "int (auth_Len c) \<le> (if maxEntries \<le> 0 then 65536 else maxEntries)"
    using run by (simp add: auth_ok_def auth_New_def authDefaultMaxEntries_def split: if_splits)
  moreover have "isLookupHash h \<and> (\<exists>err t. AuthRemember h err t \<in> set evs \<and> IsDefinitiveInvalidCredential err \<and> t_Before now (t_Add t (ac_ttl c)))"
    if hit: "snd (auth_Contains c h now)" for h now
  proof -
    obtain i v where "isLookupHash h" "tb_get (ac_table c) h = Some (i, v)" "t_Before now (ae_expiresAt v)"
      using hit by (auto simp: auth_Contains_def split: if_splits option.splits)
    moreover have "v \<in> set (tb_values (ac_table c))" "ae_lookupHash v = h" using tb_get_Some [OF ok] calculation(2) by force+
    moreover from this(1) have "auth_justified (ac_ttl c) evs v" using run by blast
    ultimately show ?thesis unfolding auth_justified_def by metis
  qed
  moreover have "snd (auth_Contains (fst (auth_Remember c h err t)) h now)"
    if "snd (auth_Remember c h err t)" "t_Before now (t_Add t (ac_ttl c))" for h err t now
    by (rule auth_fresh [OF conjunct1 [OF run] that])
  ultimately show ?thesis unfolding ttl by blast
qed

definition exampleInvalidKey :: "call_error option" where
  "exampleInvalidKey = Some (ControlPlane (emptyControlPlaneError\<lparr>ce_StatusCode := 401, ce_Type := ''invalid_api_key''\<rparr>))"

theorem auth_verdicts_witness:
  "let h = replicate 64 CHR ''a''; t = \<lparr>t_wall = 1800000000 * Second, t_mono = Some 1000\<rparr> in
   snd (auth_Contains (fst (auth_Remember (auth_New 0 1) h exampleInvalidKey t)) h (t\<lparr>t_mono := Some 2000\<rparr>))"
proof -
  let ?h = "replicate 64 CHR ''a''" and ?t = "\<lparr>t_wall = 1800000000 * Second, t_mono = Some 1000\<rparr>"
  have "isLookupHash ?h" by (simp add: isLookupHash_iff list_all_iff lower_hex_char_def)
  then have "snd (auth_Remember (auth_New 0 1) ?h exampleInvalidKey ?t)"
    by (simp add: auth_Remember_def exampleInvalidKey_def IsDefinitiveInvalidCredential_def ToLower_def TrimSpace_def is_space_def
        to_lower_char_def split: option.splits)
  moreover have "t_Before (?t\<lparr>t_mono := Some 2000\<rparr>) (t_Add ?t (45 * Second))"
    by (simp add: t_Before_def t_Add_def wall_add_def wall_packed_def Let_def i64_defs time_defs)
  ultimately show ?thesis using auth_verdicts [of "auth_New 0 1" 0 1 "[]"] by (simp add: Let_def)
qed

end
