(* ===== verification/Abuse.thy ===== *)
theory Abuse
  imports AuthCache GoJSON Complex_Main
begin

text \<open>
  The controls on failed credential probes (package \<open>internal/abuse\<close>): a token bucket per client
  address in an LRU-bounded table (\<open>limiter.go\<close>), and the protector that combines it with the
  negative verdict cache around every credential check (\<open>protector.go\<close>). The operations of
  \<open>float64\<close> are a parameter over a linearly ordered type of finite floats; \<open>float_laws\<close> states the
  facts of IEEE rounding the proofs use. Receivers are not nil (a nil limiter allows, a nil
  protector does nothing).
\<close>

section \<open>Floating point\<close>

record 'f float_ops =
  fl_of_int :: "int \<Rightarrow> 'f"
  fl_add :: "'f \<Rightarrow> 'f \<Rightarrow> 'f"
  fl_sub :: "'f \<Rightarrow> 'f \<Rightarrow> 'f"
  fl_mul :: "'f \<Rightarrow> 'f \<Rightarrow> 'f"
  fl_div :: "'f \<Rightarrow> 'f \<Rightarrow> 'f"
  fl_to_int :: "'f \<Rightarrow> int"
  fl_Ceil :: "'f \<Rightarrow> 'f"

text \<open>\<open>Duration.Seconds\<close>: whole seconds plus the fraction, in floats.\<close>

definition d_Seconds :: "'f float_ops \<Rightarrow> int \<Rightarrow> 'f" where
  "d_Seconds fl d = fl_add fl (fl_of_int fl (i64_quot d Second)) (fl_div fl (fl_of_int fl (i64_rem d Second)) (fl_of_int fl 1000000000))"

text \<open>Integers up to \<open>2^53\<close> are exact, rounding is monotone and keeps signs.\<close>

definition float_laws :: "('f :: linorder) float_ops \<Rightarrow> bool" where
  "float_laws fl \<longleftrightarrow>
     (\<forall>a b. \<bar>a\<bar> \<le> 9007199254740992 \<and> \<bar>b\<bar> \<le> 9007199254740992 \<longrightarrow> (fl_of_int fl a \<le> fl_of_int fl b \<longleftrightarrow> a \<le> b)) \<and>
     (\<forall>a b. \<bar>a\<bar> \<le> 9007199254740992 \<and> \<bar>b\<bar> \<le> 9007199254740992 \<and> \<bar>a - b\<bar> \<le> 9007199254740992 \<longrightarrow>
        fl_sub fl (fl_of_int fl a) (fl_of_int fl b) = fl_of_int fl (a - b)) \<and>
     (\<forall>x y. fl_of_int fl 0 \<le> y \<longrightarrow> x \<le> fl_add fl x y) \<and>
     (\<forall>x y. fl_of_int fl 0 \<le> y \<longrightarrow> fl_sub fl x y \<le> x) \<and>
     (\<forall>x y. fl_of_int fl 0 \<le> x \<and> fl_of_int fl 0 \<le> y \<longrightarrow> fl_of_int fl 0 \<le> fl_mul fl x y) \<and>
     (\<forall>x y. fl_of_int fl 0 \<le> x \<and> fl_of_int fl 0 \<le> y \<longrightarrow> fl_of_int fl 0 \<le> fl_div fl x y) \<and>
     (\<forall>n. 0 \<le> n \<longrightarrow> fl_of_int fl 0 \<le> fl_of_int fl n)"

section \<open>The limiter\<close>

record 'f bucket =
  bk_source :: string
  bk_tokens :: 'f
  bk_lastRefill :: gotime

record 'f Limiter =
  lm_tokensPerSecond :: 'f
  lm_burst :: 'f
  lm_maxSources :: int
  lm_table :: "(string, 'f bucket) table"

definition NewLimiter :: "('f :: linorder) float_ops \<Rightarrow> 'f \<Rightarrow> int \<Rightarrow> int \<Rightarrow> 'f Limiter" where
  "NewLimiter fl failuresPerMinute burst maxSources =
     \<lparr>lm_tokensPerSecond = fl_div fl (if failuresPerMinute \<le> fl_of_int fl 0 then fl_of_int fl 10 else failuresPerMinute) (fl_of_int fl 60),
      lm_burst = fl_of_int fl (if burst \<le> 0 then 30 else burst),
      lm_maxSources = (if maxSources \<le> 0 then 65536 else maxSources), lm_table = tb_New\<rparr>"

definition refill :: "('f :: linorder) float_ops \<Rightarrow> 'f Limiter \<Rightarrow> 'f bucket \<Rightarrow> gotime \<Rightarrow> 'f bucket" where
  "refill fl l item now =
     (if \<not> t_After now (bk_lastRefill item) then item
      else item\<lparr>bk_tokens := min (lm_burst l) (fl_add fl (bk_tokens item)
                  (fl_mul fl (d_Seconds fl (t_Sub now (bk_lastRefill item))) (lm_tokensPerSecond l))),
                bk_lastRefill := now\<rparr>)"

definition limiter_Allow :: "('f :: linorder) float_ops \<Rightarrow> 'f Limiter \<Rightarrow> string \<Rightarrow> gotime \<Rightarrow> 'f Limiter \<times> bool \<times> int" where
  "limiter_Allow fl l source now =
     (if source = '''' then (l, True, 0)
      else (case tb_get (lm_table l) source of
          None \<Rightarrow> (l, True, 0)
        | Some (element, item) \<Rightarrow>
          (let item = refill fl l item now;
               l = l\<lparr>lm_table := tb_moveToFront (tb_set (lm_table l) element item) element\<rparr> in
           if bk_tokens item \<ge> fl_of_int fl 1 then (l, True, 0)
           else (l, False, fl_to_int fl (fl_mul fl (fl_div fl (fl_sub fl (fl_of_int fl 1) (bk_tokens item)) (lm_tokensPerSecond l))
                   (fl_of_int fl Second))))))"

definition limiter_RecordFailure :: "('f :: linorder) float_ops \<Rightarrow> 'f Limiter \<Rightarrow> string \<Rightarrow> gotime \<Rightarrow> 'f Limiter" where
  "limiter_RecordFailure fl l source now =
     (if source = '''' then l
      else (case tb_get (lm_table l) source of
          Some (element, item) \<Rightarrow>
            (let item = refill fl l item now;
                 item = item\<lparr>bk_tokens := max (fl_of_int fl 0) (fl_sub fl (bk_tokens item) (fl_of_int fl 1))\<rparr>
             in l\<lparr>lm_table := tb_moveToFront (tb_set (lm_table l) element item) element\<rparr>)
        | None \<Rightarrow>
            l\<lparr>lm_table := tb_pushFront (tb_evictAll bk_source (lm_maxSources l) (lm_table l)) source
                \<lparr>bk_source = source, bk_tokens = fl_sub fl (lm_burst l) (fl_of_int fl 1), bk_lastRefill = now\<rparr>\<rparr>))"

definition limiter_Len :: "'f Limiter \<Rightarrow> nat" where
  "limiter_Len l = length (tb_index (lm_table l))"

section \<open>The protector\<close>

definition OutcomeCachedReject :: string where "OutcomeCachedReject = ''auth_cached_reject''"
definition OutcomeRateLimited :: string where "OutcomeRateLimited = ''auth_rate_limited''"

record RequestState =
  rs_outcome :: string
  rs_definitiveRejected :: bool

text \<open>What the protector reads of a context: the client address (empty when there is none) and the
  request state, when the request carries one.\<close>

record abuse_ctx =
  cx_clientIP :: string
  cx_state :: "RequestState option"

definition markOutcome :: "abuse_ctx \<Rightarrow> string \<Rightarrow> abuse_ctx" where
  "markOutcome ctx outcome = ctx\<lparr>cx_state := map_option (\<lambda>st. st\<lparr>rs_outcome := outcome\<rparr>) (cx_state ctx)\<rparr>"

definition markDefinitiveRejected :: "abuse_ctx \<Rightarrow> abuse_ctx" where
  "markDefinitiveRejected ctx = ctx\<lparr>cx_state := map_option (\<lambda>st. st\<lparr>rs_definitiveRejected := True\<rparr>) (cx_state ctx)\<rparr>"

definition priorRequestRejection :: "abuse_ctx \<Rightarrow> string \<times> bool" where
  "priorRequestRejection ctx = (case cx_state ctx of None \<Rightarrow> ('''', False) | Some st \<Rightarrow> (rs_outcome st, rs_definitiveRejected st))"

definition abuse_Outcome :: "abuse_ctx \<Rightarrow> string" where
  "abuse_Outcome ctx = (case cx_state ctx of None \<Rightarrow> '''' | Some st \<Rightarrow> rs_outcome st)"

text \<open>\<open>WithDirectClientIP\<close>: the host of the socket address, when it is an IP, in the canonical form
  \<open>net.ParseIP\<close> gives it. \<open>net.SplitHostPort\<close> and \<open>net.ParseIP\<close> are parameters.\<close>

definition WithDirectClientIP :: "(string \<Rightarrow> string option) \<Rightarrow> (string \<Rightarrow> string option) \<Rightarrow> abuse_ctx \<Rightarrow> string option \<Rightarrow> abuse_ctx" where
  "WithDirectClientIP splitHost parseIP ctx address = (case address of
     None \<Rightarrow> ctx
   | Some text \<Rightarrow>
     (case parseIP (case splitHost text of Some host \<Rightarrow> host | None \<Rightarrow> text) of
        None \<Rightarrow> ctx
      | Some ip \<Rightarrow> ctx\<lparr>cx_clientIP := ip\<rparr>))"

definition WithRequestState :: "abuse_ctx \<Rightarrow> RequestState option \<Rightarrow> abuse_ctx" where
  "WithRequestState ctx state = (case state of None \<Rightarrow> ctx | Some st \<Rightarrow> ctx\<lparr>cx_state := Some st\<rparr>)"

record 'f Protector =
  pr_cache :: AuthCache
  pr_limiter :: "'f Limiter"
  pr_cacheHits :: int
  pr_rateRejects :: int

definition NewProtector :: "('f :: linorder) float_ops \<Rightarrow> AuthCache option \<Rightarrow> 'f Limiter option \<Rightarrow> 'f Protector" where
  "NewProtector fl cache limiter =
     \<lparr>pr_cache = (case cache of None \<Rightarrow> auth_New authDefaultTTL authDefaultMaxEntries | Some c \<Rightarrow> c),
      pr_limiter = (case limiter of None \<Rightarrow> NewLimiter fl (fl_of_int fl 10) 30 65536 | Some l \<Rightarrow> l),
      pr_cacheHits = 0, pr_rateRejects = 0\<rparr>"

definition rateLimitedError :: "('f :: linorder) float_ops \<Rightarrow> int \<Rightarrow> call_error" where
  "rateLimitedError fl retryAfter =
     (let seconds = fl_to_int fl (fl_Ceil fl (d_Seconds fl retryAfter));
          seconds = (if seconds < 1 then 1 else seconds)
      in ControlPlane (emptyControlPlaneError\<lparr>ce_StatusCode := 429, ce_Type := OutcomeRateLimited,
           ce_Message := ''Too many failed authentication attempts'', ce_RetryAfter := itoa seconds\<rparr>))"

definition rejectionError :: "('f :: linorder) float_ops \<Rightarrow> string \<Rightarrow> call_error option" where
  "rejectionError fl outcome =
     (if outcome = OutcomeCachedReject then
        Some (ControlPlane (emptyControlPlaneError\<lparr>ce_StatusCode := 401, ce_Type := OutcomeCachedReject, ce_Message := ''Invalid API key''\<rparr>))
      else if outcome = OutcomeRateLimited then Some (rateLimitedError fl Second)
      else None)"

definition definitiveRejectionError :: call_error where
  "definitiveRejectionError =
     ControlPlane (emptyControlPlaneError\<lparr>ce_StatusCode := 401, ce_Type := ''invalid_api_key'', ce_Message := ''Invalid API key''\<rparr>)"

definition u64_inc :: "int \<Rightarrow> int" where
  "u64_inc n = (n + 1) mod 18446744073709551616"

definition BeforeCredentialCheck :: "('f :: linorder) float_ops \<Rightarrow> 'f Protector \<Rightarrow> abuse_ctx \<Rightarrow> string \<Rightarrow> gotime
    \<Rightarrow> 'f Protector \<times> abuse_ctx \<times> call_error option" where
  "BeforeCredentialCheck fl p ctx lookupHash now =
     (let (outcome, definitive) = priorRequestRejection ctx in
      if outcome \<noteq> '''' then (p, ctx, rejectionError fl outcome)
      else if definitive then (p, ctx, Some definitiveRejectionError)
      else
        (let source = cx_clientIP ctx;
             (limiter, allowed, retryAfter) = limiter_Allow fl (pr_limiter p) source now;
             p = p\<lparr>pr_limiter := limiter\<rparr> in
         if source \<noteq> '''' \<and> \<not> allowed then
           (p\<lparr>pr_rateRejects := u64_inc (pr_rateRejects p)\<rparr>, markOutcome ctx OutcomeRateLimited, Some (rateLimitedError fl retryAfter))
         else
           (let (cache, hit) = auth_Contains (pr_cache p) lookupHash now;
                p = p\<lparr>pr_cache := cache\<rparr> in
            if hit then
              (p\<lparr>pr_cacheHits := u64_inc (pr_cacheHits p), pr_limiter := limiter_RecordFailure fl (pr_limiter p) source now\<rparr>,
               markOutcome ctx OutcomeCachedReject, rejectionError fl OutcomeCachedReject)
            else (p, ctx, None))))"

definition AfterCredentialCheck :: "('f :: linorder) float_ops \<Rightarrow> 'f Protector \<Rightarrow> abuse_ctx \<Rightarrow> string \<Rightarrow> call_error option \<Rightarrow> gotime
    \<Rightarrow> 'f Protector \<times> abuse_ctx" where
  "AfterCredentialCheck fl p ctx lookupHash err now =
     (let (cache, stored) = auth_Remember (pr_cache p) lookupHash err now;
          p = p\<lparr>pr_cache := cache\<rparr> in
      if \<not> stored then (p, ctx)
      else (p\<lparr>pr_limiter := limiter_RecordFailure fl (pr_limiter p) (cx_clientIP ctx) now\<rparr>, markDefinitiveRejected ctx))"

record abuse_Stats =
  as_NegativeCacheHits :: int
  as_RateLimitedRejects :: int
  as_BucketOccupancy :: nat
  as_CacheOccupancy :: nat

definition abuse_stats :: "'f Protector \<Rightarrow> abuse_Stats" where
  "abuse_stats p = \<lparr>as_NegativeCacheHits = pr_cacheHits p, as_RateLimitedRejects = pr_rateRejects p,
     as_BucketOccupancy = limiter_Len (pr_limiter p), as_CacheOccupancy = auth_Len (pr_cache p)\<rparr>"

section \<open>Buckets stay in range\<close>

text \<open>Every bucket holds between no token and the burst; the table is consistent and bounded.\<close>

definition limiter_ok :: "('f :: linorder) float_ops \<Rightarrow> 'f Limiter \<Rightarrow> bool" where
  "limiter_ok fl l \<longleftrightarrow> table_ok bk_source (lm_table l) \<and> 0 < lm_maxSources l \<and> int (limiter_Len l) \<le> lm_maxSources l
     \<and> fl_of_int fl 0 \<le> lm_tokensPerSecond l \<and> fl_of_int fl 0 \<le> fl_sub fl (lm_burst l) (fl_of_int fl 1)
     \<and> (\<forall>b \<in> set (tb_values (lm_table l)). fl_of_int fl 0 \<le> bk_tokens b \<and> bk_tokens b \<le> lm_burst l)"

lemma float_lawsD:
  assumes "float_laws fl"
  shows "\<bar>a\<bar> \<le> 9007199254740992 \<Longrightarrow> \<bar>b\<bar> \<le> 9007199254740992 \<Longrightarrow> fl_of_int fl a \<le> fl_of_int fl b \<longleftrightarrow> a \<le> b"
    and "\<bar>a\<bar> \<le> 9007199254740992 \<Longrightarrow> \<bar>b\<bar> \<le> 9007199254740992 \<Longrightarrow> \<bar>a - b\<bar> \<le> 9007199254740992 \<Longrightarrow>
      fl_sub fl (fl_of_int fl a) (fl_of_int fl b) = fl_of_int fl (a - b)"
    and "fl_of_int fl 0 \<le> y \<Longrightarrow> x \<le> fl_add fl x y" and "fl_of_int fl 0 \<le> y \<Longrightarrow> fl_sub fl x y \<le> x"
    and "fl_of_int fl 0 \<le> x \<Longrightarrow> fl_of_int fl 0 \<le> y \<Longrightarrow> fl_of_int fl 0 \<le> fl_mul fl x y"
    and "fl_of_int fl 0 \<le> x \<Longrightarrow> fl_of_int fl 0 \<le> y \<Longrightarrow> fl_of_int fl 0 \<le> fl_div fl x y"
    and "0 \<le> n \<Longrightarrow> fl_of_int fl 0 \<le> fl_of_int fl n"
  using assms by (simp_all add: float_laws_def)

lemma d_Seconds_nonneg:
  assumes "float_laws fl" "0 \<le> d" "d \<le> MaxInt64"
  shows "fl_of_int fl 0 \<le> d_Seconds fl d"
proof -
  note F = float_lawsD [OF assms(1)]
  have "i64_quot d Second = d div Second" "i64_rem d Second = d mod Second"
    using assms(2,3) by (simp_all add: i64_quot_nonneg i64_rem_nonneg)
  then have "0 \<le> i64_quot d Second" "0 \<le> i64_rem d Second" using assms(2) by (simp_all add: pos_imp_zdiv_nonneg_iff)
  then have "fl_of_int fl 0 \<le> fl_of_int fl (i64_quot d Second)"
    "fl_of_int fl 0 \<le> fl_div fl (fl_of_int fl (i64_rem d Second)) (fl_of_int fl 1000000000)"
    using F(6,7) by simp_all
  then show ?thesis unfolding d_Seconds_def using F(3) order_trans by blast
qed

lemma t_Sub_after: "t_After now t \<Longrightarrow> 0 \<le> t_Sub now t \<and> t_Sub now t \<le> MaxInt64"
  by (auto simp: t_After_def t_Before_def t_Sub_def sat64_def i64_defs split: option.splits)

lemma refill_range:
  assumes "float_laws fl" "limiter_ok fl l" "fl_of_int fl 0 \<le> bk_tokens b" "bk_tokens b \<le> lm_burst l"
  shows "bk_tokens b \<le> bk_tokens (refill fl l b now)" "bk_tokens (refill fl l b now) \<le> lm_burst l"
    "bk_source (refill fl l b now) = bk_source b"
proof -
  note F = float_lawsD [OF assms(1)]
  have "t_After now (bk_lastRefill b) \<Longrightarrow>
      fl_of_int fl 0 \<le> fl_mul fl (d_Seconds fl (t_Sub now (bk_lastRefill b))) (lm_tokensPerSecond l)"
    using F(5) d_Seconds_nonneg [OF assms(1)] t_Sub_after assms(2) by (auto simp: limiter_ok_def)
  then show "bk_tokens b \<le> bk_tokens (refill fl l b now)" using assms(4) F(3) by (auto simp: refill_def)
  show "bk_tokens (refill fl l b now) \<le> lm_burst l" "bk_source (refill fl l b now) = bk_source b"
    using assms(4) by (auto simp: refill_def)
qed

text \<open>Both operations replace the bucket of the source by one in range, or add a new one.\<close>

lemma limiter_refresh:
  assumes "limiter_ok fl l" "tb_get (lm_table l) source = Some (i, b)" "bk_source b' = bk_source b"
    and "fl_of_int fl 0 \<le> bk_tokens b'" "bk_tokens b' \<le> lm_burst l"
  defines "l' \<equiv> l\<lparr>lm_table := tb_moveToFront (tb_set (lm_table l) i b') i\<rparr>"
  shows "limiter_ok fl l'" and "tb_get (lm_table l') source = Some (i, b')"
proof -
  have "table_ok bk_source (lm_table l)" using assms(1) by (simp add: limiter_ok_def)
  note ref = tb_refresh [OF this assms(2,3)]
  have lt: "lm_table l' = tb_moveToFront (tb_set (lm_table l) i b') i" by (simp add: l'_def)
  have "\<forall>b \<in> set (tb_values (lm_table l')). fl_of_int fl 0 \<le> bk_tokens b \<and> bk_tokens b \<le> lm_burst l"
    unfolding lt using ref(4) assms(1,4,5) unfolding limiter_ok_def by blast
  then show "limiter_ok fl l'" using ref(1,2) assms(1) by (simp add: l'_def limiter_ok_def limiter_Len_def)
  show "tb_get (lm_table l') source = Some (i, b')" using ref(3) by (simp add: l'_def)
qed

lemma limiter_bucket:
  assumes "limiter_ok fl l" "tb_get (lm_table l) source = Some (i, b)"
  shows "fl_of_int fl 0 \<le> bk_tokens b \<and> bk_tokens b \<le> lm_burst l"
proof -
  have "(i, b) \<in> set (gl_items (tb_list (lm_table l)))" using assms tb_get_Some by (fastforce simp: limiter_ok_def)
  then show ?thesis using assms(1) by (force simp: limiter_ok_def)
qed

lemma limiter_new:
  assumes "float_laws fl" "limiter_ok fl l" "source \<noteq> ''''" "tb_get (lm_table l) source = None"
  shows "limiter_ok fl (limiter_RecordFailure fl l source now)"
    and "\<exists>i. tb_get (lm_table (limiter_RecordFailure fl l source now)) source
      = Some (i, \<lparr>bk_source = source, bk_tokens = fl_sub fl (lm_burst l) (fl_of_int fl 1), bk_lastRefill = now\<rparr>)"
proof -
  let ?b = "\<lparr>bk_source = source, bk_tokens = fl_sub fl (lm_burst l) (fl_of_int fl 1), bk_lastRefill = now\<rparr>"
  let ?l = "limiter_RecordFailure fl l source now"
  have "table_ok bk_source (lm_table l)" "tb_get (lm_table l) (bk_source ?b) = None" "0 < lm_maxSources l"
    using assms by (simp_all add: limiter_ok_def)
  note ins = tb_insert [OF this]
  have r: "?l = l\<lparr>lm_table := tb_pushFront (tb_evictAll bk_source (lm_maxSources l) (lm_table l)) source ?b\<rparr>"
    using assms(3,4) by (simp add: limiter_RecordFailure_def)
  have "fl_of_int fl 0 \<le> fl_of_int fl 1" using float_lawsD(7) [OF assms(1)] by simp
  then have "fl_sub fl (lm_burst l) (fl_of_int fl 1) \<le> lm_burst l" using float_lawsD(4) [OF assms(1)] by blast
  then have "\<forall>b \<in> set (tb_values (lm_table ?l)). fl_of_int fl 0 \<le> bk_tokens b \<and> bk_tokens b \<le> lm_burst l"
    using ins(3) assms(2) set_take_subset [of _ "tb_values (lm_table l)"] by (auto simp: r limiter_ok_def simp del: set_map)
  then show "limiter_ok fl ?l" using ins(1,2) assms(2) by (simp add: r limiter_ok_def limiter_Len_def)
  have "?b \<in> set (tb_values (lm_table ?l))" using ins(3) by (simp add: r)
  then obtain i where "(i, ?b) \<in> set (gl_items (tb_list (lm_table ?l)))" by auto
  then have "tb_get (lm_table ?l) source = Some (i, ?b)"
    using tb_get_Some [of bk_source "lm_table ?l" source i ?b] ins(1) by (simp add: r)
  then show "\<exists>i. tb_get (lm_table ?l) source = Some (i, ?b)" by blast
qed

lemma limiter_Allow_ok:
  assumes "float_laws fl" "limiter_ok fl l"
  shows "limiter_ok fl (fst (limiter_Allow fl l source now))"
proof (cases "tb_get (lm_table l) source")
  case (Some e)
  obtain i b where e: "e = (i, b)" by force
  note b = limiter_bucket [OF assms(2) Some [unfolded e]]
  note r = refill_range [OF assms conjunct1 [OF b] conjunct2 [OF b], of now]
  have "limiter_ok fl (l\<lparr>lm_table := tb_moveToFront (tb_set (lm_table l) i (refill fl l b now)) i\<rparr>)"
    by (rule limiter_refresh(1) [OF assms(2) Some [unfolded e] r(3) order_trans [OF conjunct1 [OF b] r(1)] r(2)])
  then show ?thesis using assms(2) Some e by (simp add: limiter_Allow_def Let_def)
qed (use assms(2) in \<open>simp add: limiter_Allow_def\<close>)

lemma limiter_RecordFailure_ok:
  assumes "float_laws fl" "limiter_ok fl l"
  shows "limiter_ok fl (limiter_RecordFailure fl l source now)"
proof (cases "source = ''''")
  case False
  show ?thesis
  proof (cases "tb_get (lm_table l) source")
    case None
    then show ?thesis by (rule limiter_new(1) [OF assms False])
  next
    case (Some e)
    obtain i b where e: "e = (i, b)" by force
    let ?b = "(refill fl l b now)\<lparr>bk_tokens := max (fl_of_int fl 0) (fl_sub fl (bk_tokens (refill fl l b now)) (fl_of_int fl 1))\<rparr>"
    note b = limiter_bucket [OF assms(2) Some [unfolded e]]
    note r = refill_range [OF assms conjunct1 [OF b] conjunct2 [OF b], of now]
    have "fl_of_int fl 0 \<le> fl_of_int fl 1" using float_lawsD(7) [OF assms(1)] by simp
    then have "fl_sub fl (bk_tokens (refill fl l b now)) (fl_of_int fl 1) \<le> lm_burst l"
      using float_lawsD(4) [OF assms(1)] r(2) order_trans by blast
    then have "limiter_ok fl (l\<lparr>lm_table := tb_moveToFront (tb_set (lm_table l) i ?b) i\<rparr>)"
      using b r by (intro limiter_refresh(1) [OF assms(2) Some [unfolded e]]) auto
    then show ?thesis using Some e False by (simp add: limiter_RecordFailure_def Let_def)
  qed
qed (use assms(2) in \<open>simp add: limiter_RecordFailure_def\<close>)

inductive limiter_step :: "('f :: linorder) float_ops \<Rightarrow> 'f Limiter \<Rightarrow> 'f Limiter \<Rightarrow> bool" for fl where
  "limiter_step fl l (fst (limiter_Allow fl l source now))"
| "limiter_step fl l (limiter_RecordFailure fl l source now)"

text \<open>Over any arithmetic that keeps the laws, the limiter keeps its bounds.\<close>

locale float_arith =
  fixes fl :: "('f :: linorder) float_ops"
  assumes laws: "float_laws fl"

sublocale float_arith \<subseteq> limiter_bounded: bounded_state "limiter_step fl" "limiter_ok fl" "\<lambda>l. int (limiter_Len l)" lm_maxSources
proof unfold_locales
  fix s s' assume "limiter_step fl s s'"
  then show "limiter_ok fl s \<Longrightarrow> limiter_ok fl s'" and "lm_maxSources s' = lm_maxSources s"
    by (cases rule: limiter_step.cases;
        simp add: limiter_Allow_ok [OF laws] limiter_RecordFailure_ok [OF laws];
        simp add: limiter_Allow_def limiter_RecordFailure_def Let_def split: option.splits)+
qed (simp add: limiter_ok_def)

definition rat_ops :: "rat float_ops" where
  "rat_ops = \<lparr>fl_of_int = of_int, fl_add = (+), fl_sub = (-), fl_mul = (*), fl_div = (/), fl_to_int = floor, fl_Ceil = (\<lambda>x. of_int \<lceil>x\<rceil>)\<rparr>"

interpretation exact_arith: float_arith rat_ops
  by unfold_locales (simp add: float_laws_def rat_ops_def)

lemma NewLimiter_ok:
  assumes "float_laws fl" "burst \<le> 9007199254740992"
  shows "limiter_ok fl (NewLimiter fl failuresPerMinute burst maxSources)"
proof -
  note F = float_lawsD [OF assms(1)]
  let ?b = "if burst \<le> 0 then 30 else burst"
  have "fl_sub fl (fl_of_int fl ?b) (fl_of_int fl 1) = fl_of_int fl (?b - 1)" using F(2) [of ?b 1] assms(2) by simp
  moreover have "fl_of_int fl 0 \<le> fl_of_int fl (?b - 1)" using F(7) by simp
  moreover have "fl_of_int fl 0 \<le> (if failuresPerMinute \<le> fl_of_int fl 0 then fl_of_int fl 10 else failuresPerMinute)" using F(7) by auto
  then have "fl_of_int fl 0 \<le> lm_tokensPerSecond (NewLimiter fl failuresPerMinute burst maxSources)"
    using F(6) F(7) [of 60] by (simp add: NewLimiter_def)
  ultimately show ?thesis
    by (simp add: limiter_ok_def NewLimiter_def limiter_Len_def tb_New_def gl_New_def table_ok_def)
qed

text \<open>After \<open>n\<close> failures at one instant a fresh bucket holds the rest of the burst.\<close>

lemma failures_tokens:
  assumes laws: "float_laws fl" and ok: "limiter_ok fl l" and source: "source \<noteq> ''''" "tb_get (lm_table l) source = None"
    and burst: "lm_burst l = fl_of_int fl b" "0 < b" "b \<le> 9007199254740992"
  shows "limiter_ok fl (((\<lambda>l. limiter_RecordFailure fl l source now) ^^ Suc n) l)
    \<and> lm_burst (((\<lambda>l. limiter_RecordFailure fl l source now) ^^ Suc n) l) = lm_burst l
    \<and> (\<exists>i. tb_get (lm_table (((\<lambda>l. limiter_RecordFailure fl l source now) ^^ Suc n) l)) source
      = Some (i, \<lparr>bk_source = source, bk_tokens = fl_of_int fl (max 0 (b - int (Suc n))), bk_lastRefill = now\<rparr>))"
proof (induction n)
  case 0
  have "fl_sub fl (lm_burst l) (fl_of_int fl 1) = fl_of_int fl (b - 1)" using float_lawsD(2) [OF laws, of b 1] burst by simp
  then show ?case
    using limiter_new [OF laws ok source, of now] burst source by (simp add: limiter_RecordFailure_def)
next
  case (Suc n)
  let ?l = "((\<lambda>l. limiter_RecordFailure fl l source now) ^^ Suc n) l"
  obtain i where i: "tb_get (lm_table ?l) source
      = Some (i, \<lparr>bk_source = source, bk_tokens = fl_of_int fl (max 0 (b - int (Suc n))), bk_lastRefill = now\<rparr>)"
    and ok': "limiter_ok fl ?l" and b': "lm_burst ?l = lm_burst l"
    using Suc.IH by blast
  let ?v = "\<lparr>bk_source = source, bk_tokens = fl_of_int fl (max 0 (b - int (Suc (Suc n)))), bk_lastRefill = now\<rparr>"
  let ?m = "max 0 (b - int (Suc n))"
  have irr: "\<not> t_After now now" by (auto simp: t_After_def t_Before_def split: option.splits)
  have "fl_sub fl (fl_of_int fl ?m) (fl_of_int fl 1) = fl_of_int fl (?m - 1)" using float_lawsD(2) [OF laws, of ?m 1] burst by simp
  moreover have "max (fl_of_int fl 0) (fl_of_int fl (?m - 1)) = fl_of_int fl (max 0 (?m - 1))"
    using float_lawsD(1) [OF laws, of 0 "?m - 1"] burst by (auto simp: max_def)
  moreover have "max 0 (?m - 1) = max 0 (b - int (Suc (Suc n)))" by auto
  ultimately have r: "limiter_RecordFailure fl ?l source now = ?l\<lparr>lm_table := tb_moveToFront (tb_set (lm_table ?l) i ?v) i\<rparr>"
    using source(1) i irr by (simp add: limiter_RecordFailure_def refill_def Let_def del: funpow.simps)
  have rng: "fl_of_int fl 0 \<le> fl_of_int fl (max 0 (b - int (Suc (Suc n))))" "fl_of_int fl (max 0 (b - int (Suc (Suc n)))) \<le> lm_burst ?l"
    using float_lawsD(7) [OF laws] float_lawsD(1) [OF laws, of "max 0 (b - int (Suc (Suc n)))" b] burst b' by auto
  have "bk_source ?v = source" "fl_of_int fl 0 \<le> bk_tokens ?v" "bk_tokens ?v \<le> lm_burst ?l" using rng by (simp_all only: bucket.select_convs)
  then have fresh: "limiter_ok fl (limiter_RecordFailure fl ?l source now)" "tb_get (lm_table (limiter_RecordFailure fl ?l source now)) source = Some (i, ?v)"
    unfolding r using limiter_refresh [OF ok' i, of ?v] by (simp_all only: bucket.select_convs)
  have "((\<lambda>l. limiter_RecordFailure fl l source now) ^^ Suc (Suc n)) l = limiter_RecordFailure fl ?l source now" by simp
  moreover have "lm_burst (limiter_RecordFailure fl ?l source now) = lm_burst l" unfolding r using b' by simp
  ultimately show ?case using fresh by metis
qed

text \<open>The failed-authentication budget is exact: after \<open>n\<close> definitive failures of a fresh
  source at one instant, the limiter lets the next attempt of that source through if and only if
  \<open>n\<close> is below the burst, and a source without failures is always let through.\<close>
theorem limiter_budget:
  assumes "float_laws fl" "limiter_ok fl l" "source \<noteq> ''''" "tb_get (lm_table l) source = None"
    and "lm_burst l = fl_of_int fl b" "0 < b" "b \<le> 9007199254740992"
  shows "fst (snd (limiter_Allow fl (((\<lambda>l. limiter_RecordFailure fl l source now) ^^ n) l) source now)) \<longleftrightarrow> int n < b"
proof (cases n)
  case 0
  then show ?thesis using assms by (simp add: limiter_Allow_def)
next
  case (Suc m)
  let ?l = "((\<lambda>l. limiter_RecordFailure fl l source now) ^^ n) l"
  obtain i where i: "tb_get (lm_table ?l) source
      = Some (i, \<lparr>bk_source = source, bk_tokens = fl_of_int fl (max 0 (b - int n)), bk_lastRefill = now\<rparr>)"
    using failures_tokens [OF assms, where now = now and n = m] Suc by blast
  have "\<not> t_After now now" by (auto simp: t_After_def t_Before_def split: option.splits)
  moreover have "fl_of_int fl 1 \<le> fl_of_int fl (max 0 (b - int n)) \<longleftrightarrow> int n < b"
    using float_lawsD(1) [OF assms(1), of 1 "max 0 (b - int n)"] assms(6,7) by auto
  ultimately show ?thesis using i assms(3) by (simp add: limiter_Allow_def refill_def Let_def)
qed

theorem limiter_budget_witness:
  "\<not> fst (snd (limiter_Allow rat_ops (((\<lambda>l. limiter_RecordFailure rat_ops l ''10.0.0.1'' t_Zero) ^^ 3) (NewLimiter rat_ops 10 3 5)) ''10.0.0.1'' t_Zero))"
proof -
  let ?l = "NewLimiter rat_ops 10 3 5"
  have "limiter_ok rat_ops ?l" by (rule NewLimiter_ok [OF exact_arith.laws]) simp
  moreover have "tb_get (lm_table ?l) ''10.0.0.1'' = None" "lm_burst ?l = fl_of_int rat_ops 3"
    by (simp_all add: NewLimiter_def tb_New_def gl_New_def tb_get_def)
  ultimately show ?thesis using limiter_budget [OF exact_arith.laws, of ?l "''10.0.0.1''" 3 3 t_Zero] by simp
qed

section \<open>The protector\<close>

definition protector_ok :: "('f :: linorder) float_ops \<Rightarrow> 'f Protector \<Rightarrow> bool" where
  "protector_ok fl p \<longleftrightarrow> auth_ok (pr_cache p) \<and> limiter_ok fl (pr_limiter p)"

lemma rejectionError_known: "outcome \<in> {OutcomeCachedReject, OutcomeRateLimited} \<Longrightarrow> rejectionError fl outcome \<noteq> None"
  by (auto simp: rejectionError_def)

text \<open>A check of a hash with a live verdict is refused, whatever the request and its source.\<close>

lemma Before_refuses:
  assumes "snd (auth_Contains (pr_cache p) h now)" "abuse_Outcome ctx \<in> {'''', OutcomeCachedReject, OutcomeRateLimited}"
  shows "snd (snd (BeforeCredentialCheck fl p ctx h now)) \<noteq> None"
proof -
  have prior: "fst (priorRequestRejection ctx) = abuse_Outcome ctx"
    by (simp add: priorRequestRejection_def abuse_Outcome_def split: option.splits)
  have cached: "rejectionError fl OutcomeCachedReject \<noteq> None" by (rule rejectionError_known) simp
  show ?thesis
  proof (cases "abuse_Outcome ctx = ''''")
    case True
    then show ?thesis using assms(1) cached prior by (simp add: BeforeCredentialCheck_def Let_def case_prod_unfold)
  next
    case False
    then have "rejectionError fl (abuse_Outcome ctx) \<noteq> None" using assms(2) by (intro rejectionError_known) simp
    then show ?thesis using False prior by (simp add: BeforeCredentialCheck_def case_prod_unfold)
  qed
qed

lemma Before_ok:
  assumes "float_laws fl" "protector_ok fl p"
  shows "protector_ok fl (fst (BeforeCredentialCheck fl p ctx h now))"
proof -
  have "limiter_ok fl (fst (limiter_Allow fl (pr_limiter p) (cx_clientIP ctx) now))" (is "limiter_ok fl ?l")
    using limiter_Allow_ok [OF assms(1)] assms(2) by (simp add: protector_ok_def)
  moreover from this have "limiter_ok fl (limiter_RecordFailure fl ?l (cx_clientIP ctx) now)" by (rule limiter_RecordFailure_ok [OF assms(1)])
  moreover have "auth_ok (fst (auth_Contains (pr_cache p) h now))" using auth_Contains_ok(1) assms(2) by (simp add: protector_ok_def)
  ultimately show ?thesis using assms(2) by (auto simp: protector_ok_def BeforeCredentialCheck_def Let_def case_prod_unfold)
qed

lemma After_ok:
  assumes "float_laws fl" "protector_ok fl p"
  shows "protector_ok fl (fst (AfterCredentialCheck fl p ctx h err now))"
  using assms(2) limiter_RecordFailure_ok [OF assms(1)] auth_exec_ok [of "pr_cache p" "AuthRemember h err now"]
  by (auto simp: protector_ok_def AfterCredentialCheck_def Let_def case_prod_unfold auth_exec_def)


definition exampleProtector :: "rat Protector" where
  "exampleProtector = NewProtector rat_ops None None"


end
