(* ===== verification/ProviderCircuit.thy ===== *)
theory ProviderCircuit
  imports GoList GoJSON
begin

text \<open>
  The provider circuit breaker (\<open>cmd/enclave/provider_circuit.go\<close>): failures per provider, region
  and model family open a circuit for a while; the table of states is bounded and evicts the entry
  updated longest ago. \<open>range\<close> over a Go map visits the entries in an unspecified order, which is
  the order of the association list here. The environment is a function from names to texts.
\<close>

record providerCircuitState =
  ps_failures :: int
  ps_openUntil :: gotime
  ps_updatedAt :: gotime

record providerCircuitRegistry =
  pc_enabled :: bool
  pc_threshold :: int
  pc_openFor :: int
  pc_maxStates :: int
  pc_states :: "(string \<times> providerCircuitState) list"

definition defaultProviderCircuitMaxStates :: int where "defaultProviderCircuitMaxStates = 4096"

text \<open>\<open>strconv.Atoi\<close> on a 64-bit platform.\<close>

definition circuitEnvInt :: "(string \<Rightarrow> string) \<Rightarrow> string \<Rightarrow> int \<Rightarrow> int" where
  "circuitEnvInt getenv name fallback =
     (let raw = TrimSpace (getenv name) in
      if raw = '''' then fallback
      else (case ParseInt raw of None \<Rightarrow> fallback | Some n \<Rightarrow> n))"

definition newProviderCircuitRegistryFromEnv :: "(string \<Rightarrow> string) \<Rightarrow> providerCircuitRegistry" where
  "newProviderCircuitRegistryFromEnv getenv =
     (let threshold = circuitEnvInt getenv ''QUILL_PROVIDER_CIRCUIT_FAILURE_THRESHOLD'' 3;
          openSeconds = circuitEnvInt getenv ''QUILL_PROVIDER_CIRCUIT_OPEN_SECONDS'' 60;
          maxStates = circuitEnvInt getenv ''QUILL_PROVIDER_CIRCUIT_MAX_STATES'' defaultProviderCircuitMaxStates
      in \<lparr>pc_enabled = (ToLower (TrimSpace (getenv ''QUILL_PROVIDER_CIRCUIT_BREAKER'')) \<noteq> ''false''),
          pc_threshold = (if threshold < 1 then 1 else threshold),
          pc_openFor = i64_mul (if openSeconds < 1 then 1 else openSeconds) Second,
          pc_maxStates = (if maxStates < 1 then 1 else maxStates), pc_states = []\<rparr>)"

text \<open>The first separator of the list that occurs in the slug past its first byte cuts it.\<close>

fun cutSlug :: "string \<Rightarrow> char list \<Rightarrow> string" where
  "cutSlug slug [] = slug"
| "cutSlug slug (sep # seps) = (case CutAt sep slug of
     Some (before, _) \<Rightarrow> if before \<noteq> '''' then before else cutSlug slug seps
   | None \<Rightarrow> cutSlug slug seps)"

definition providerCircuitModelFamily :: "string \<Rightarrow> string" where
  "providerCircuitModelFamily model0 =
     (let model1 = TrimSpace model0 in
      if model1 = '''' then ''unknown''
      else
        (let model = (case CutAt (CHR '':'') model1 of Some (before, _) \<Rightarrow> before | None \<Rightarrow> model1) in
         (case SplitAt (CHR ''/'') model of
            a # b # _ \<Rightarrow> a @ ''/'' @ cutSlug b [CHR ''-'', CHR ''_'', CHR ''.'']
          | _ \<Rightarrow> model)))"

fun firstSet :: "(string \<Rightarrow> string) \<Rightarrow> string list \<Rightarrow> string" where
  "firstSet getenv [] = ''unknown''"
| "firstSet getenv (name # names) = (if TrimSpace (getenv name) \<noteq> '''' then TrimSpace (getenv name) else firstSet getenv names)"

definition currentRegion :: "(string \<Rightarrow> string) \<Rightarrow> string" where
  "currentRegion getenv = firstSet getenv [''TR_REGION'', ''GCP_REGION'', ''AWS_REGION'']"

definition providerCircuitKey :: "(string \<Rightarrow> string) \<Rightarrow> string \<Rightarrow> string \<Rightarrow> string" where
  "providerCircuitKey getenv provider0 model =
     (let provider = (if TrimSpace provider0 = '''' then ''unknown'' else TrimSpace provider0)
      in provider @ ''|'' @ currentRegion getenv @ ''|'' @ providerCircuitModelFamily model)"

definition circuit_Allow :: "providerCircuitRegistry \<Rightarrow> string \<Rightarrow> gotime \<Rightarrow> bool" where
  "circuit_Allow r key now =
     (if \<not> pc_enabled r then True
      else (case map_of (pc_states r) key of
          None \<Rightarrow> True
        | Some st \<Rightarrow> t_IsZero (ps_openUntil st) \<or> \<not> t_Before now (ps_openUntil st)))"

definition circuit_RecordSuccess :: "providerCircuitRegistry \<Rightarrow> string \<Rightarrow> providerCircuitRegistry" where
  "circuit_RecordSuccess r key = (if \<not> pc_enabled r then r else r\<lparr>pc_states := gm_del key (pc_states r)\<rparr>)"

definition stateLimit :: "providerCircuitRegistry \<Rightarrow> int" where
  "stateLimit r = (if pc_maxStates r > 0 then pc_maxStates r else defaultProviderCircuitMaxStates)"

text \<open>The loop that looks for the oldest entry, from the key and time found so far.\<close>

fun oldestKey :: "string \<Rightarrow> gotime \<Rightarrow> (string \<times> providerCircuitState) list \<Rightarrow> string" where
  "oldestKey best time [] = best"
| "oldestKey best time ((key, st) # rest) =
     (if best = '''' \<or> t_Before (ps_updatedAt st) time then oldestKey key (ps_updatedAt st) rest else oldestKey best time rest)"

definition evictOldestLocked :: "providerCircuitRegistry \<Rightarrow> providerCircuitRegistry" where
  "evictOldestLocked r =
     (let key = oldestKey '''' t_Zero (pc_states r) in if key \<noteq> '''' then r\<lparr>pc_states := gm_del key (pc_states r)\<rparr> else r)"

definition circuit_RecordFailure :: "providerCircuitRegistry \<Rightarrow> string \<Rightarrow> gotime \<Rightarrow> providerCircuitRegistry \<times> bool" where
  "circuit_RecordFailure r key now =
     (if \<not> pc_enabled r then (r, False)
      else
        (let found = map_of (pc_states r) key;
             state = (case found of None \<Rightarrow> \<lparr>ps_failures = 0, ps_openUntil = t_Zero, ps_updatedAt = t_Zero\<rparr> | Some st \<Rightarrow> st);
             r1 = (if found = None \<and> int (length (pc_states r)) \<ge> stateLimit r then evictOldestLocked r else r);
             state1 = state\<lparr>ps_failures := i64_add (ps_failures state) 1, ps_updatedAt := now\<rparr>;
             opened = (ps_failures state1 \<ge> pc_threshold r);
             state2 = (if opened then state1\<lparr>ps_openUntil := t_Add now (pc_openFor r)\<rparr> else state1)
         in (r1\<lparr>pc_states := gm_set key state2 (pc_states r1)\<rparr>, opened)))"

text \<open>The methods take the invocation, of which the key reads the provider and the model.\<close>

definition registry_Allow :: "(string \<Rightarrow> string) \<Rightarrow> providerCircuitRegistry \<Rightarrow> string \<Rightarrow> string \<Rightarrow> gotime \<Rightarrow> bool" where
  "registry_Allow getenv r provider model now = circuit_Allow r (providerCircuitKey getenv provider model) now"

definition registry_RecordSuccess :: "(string \<Rightarrow> string) \<Rightarrow> providerCircuitRegistry \<Rightarrow> string \<Rightarrow> string \<Rightarrow> providerCircuitRegistry" where
  "registry_RecordSuccess getenv r provider model = circuit_RecordSuccess r (providerCircuitKey getenv provider model)"

definition registry_RecordFailure :: "(string \<Rightarrow> string) \<Rightarrow> providerCircuitRegistry \<Rightarrow> string \<Rightarrow> string \<Rightarrow> gotime
    \<Rightarrow> providerCircuitRegistry \<times> bool" where
  "registry_RecordFailure getenv r provider model now = circuit_RecordFailure r (providerCircuitKey getenv provider model) now"

lemma providerCircuitKey_nonempty: "providerCircuitKey getenv provider model \<noteq> ''''"
  by (simp add: providerCircuitKey_def Let_def)

section \<open>The table stays bounded\<close>

inductive circuit_step :: "providerCircuitRegistry \<Rightarrow> providerCircuitRegistry \<Rightarrow> bool" where
  "circuit_step r (circuit_RecordSuccess r key)"
| "key \<noteq> '''' \<Longrightarrow> circuit_step r (fst (circuit_RecordFailure r key now))"

definition circuit_ok :: "providerCircuitRegistry \<Rightarrow> bool" where
  "circuit_ok r \<longleftrightarrow> distinct (map fst (pc_states r)) \<and> '''' \<notin> fst ` set (pc_states r) \<and> int (length (pc_states r)) \<le> stateLimit r"

lemma oldestKey_cases: "oldestKey best time m \<in> insert best (fst ` set m)"
proof (induction m arbitrary: best time)
  case (Cons e m)
  obtain key st where e: "e = (key, st)" by force
  show ?case using Cons.IH [of key "ps_updatedAt st"] Cons.IH [of best time] by (auto simp: e)
qed simp

lemma oldestKey_set:
  assumes "m \<noteq> []" "'''' \<notin> fst ` set m"
  shows "oldestKey '''' time m \<in> fst ` set m"
proof -
  obtain key st rest where m: "m = (key, st) # rest" using assms(1) by (metis list.exhaust surj_pair)
  show ?thesis using oldestKey_cases [of key "ps_updatedAt st" rest] by (simp add: m)
qed

lemma evict_ok:
  assumes "circuit_ok r" "pc_states r \<noteq> []"
  shows "\<exists>k. k \<in> fst ` set (pc_states r) \<and> evictOldestLocked r = r\<lparr>pc_states := gm_del k (pc_states r)\<rparr>"
    and "length (pc_states (evictOldestLocked r)) < length (pc_states r)"
proof -
  have k: "oldestKey '''' t_Zero (pc_states r) \<in> fst ` set (pc_states r)" using oldestKey_set assms by (auto simp: circuit_ok_def)
  moreover have n: "oldestKey '''' t_Zero (pc_states r) \<noteq> ''''" using k assms(1) unfolding circuit_ok_def by metis
  ultimately show "\<exists>k. k \<in> fst ` set (pc_states r) \<and> evictOldestLocked r = r\<lparr>pc_states := gm_del k (pc_states r)\<rparr>"
    by (intro exI [of _ "oldestKey '''' t_Zero (pc_states r)"]) (simp add: evictOldestLocked_def)
  have "map_of (pc_states r) (oldestKey '''' t_Zero (pc_states r)) \<noteq> None" using k by (simp add: map_of_eq_None_iff)
  then show "length (pc_states (evictOldestLocked r)) < length (pc_states r)"
    using gm_del_length_less n by (simp add: evictOldestLocked_def Let_def)
qed

lemma evict_fields: "pc_enabled (evictOldestLocked r) = pc_enabled r" "pc_threshold (evictOldestLocked r) = pc_threshold r"
  "pc_openFor (evictOldestLocked r) = pc_openFor r" "pc_maxStates (evictOldestLocked r) = pc_maxStates r"
  by (simp_all add: evictOldestLocked_def Let_def)

lemma circuit_fields:
  "pc_enabled (fst (circuit_RecordFailure r key now)) = pc_enabled r" "pc_threshold (fst (circuit_RecordFailure r key now)) = pc_threshold r"
  "pc_openFor (fst (circuit_RecordFailure r key now)) = pc_openFor r" "pc_maxStates (fst (circuit_RecordFailure r key now)) = pc_maxStates r"
  "pc_maxStates (circuit_RecordSuccess r key) = pc_maxStates r"
  by (simp_all add: circuit_RecordFailure_def circuit_RecordSuccess_def Let_def evict_fields)

lemma gm_set_keys: "fst ` set (gm_set k v m) = insert k (fst ` set m)"
  by (auto simp: gm_set_def)

lemma gm_del_keys: "fst ` set (gm_del k m) = fst ` set m - {k}"
  by (auto simp: gm_del_def)

lemma RecordFailure_ok:
  assumes "circuit_ok r" "key \<noteq> ''''"
  shows "circuit_ok (fst (circuit_RecordFailure r key now))"
proof (cases "pc_enabled r")
  case True
  let ?r = "if map_of (pc_states r) key = None \<and> int (length (pc_states r)) \<ge> stateLimit r then evictOldestLocked r else r"
  obtain st where f: "pc_states (fst (circuit_RecordFailure r key now)) = gm_set key st (pc_states ?r)"
    using True by (simp add: circuit_RecordFailure_def Let_def split: option.splits)
  have lim: "0 < stateLimit r" by (simp add: stateLimit_def defaultProviderCircuitMaxStates_def)
  have sub: "distinct (map fst (pc_states ?r))" "'''' \<notin> fst ` set (pc_states ?r)"
  proof -
    have "pc_states r \<noteq> [] \<Longrightarrow> distinct (map fst (pc_states (evictOldestLocked r))) \<and> '''' \<notin> fst ` set (pc_states (evictOldestLocked r))"
    proof -
      assume "pc_states r \<noteq> []"
      then obtain k where "evictOldestLocked r = r\<lparr>pc_states := gm_del k (pc_states r)\<rparr>" using evict_ok(1) [OF assms(1)] by blast
      then show ?thesis using assms(1) by (simp add: circuit_ok_def gm_del_keys)
    qed
    moreover have "int (length (pc_states r)) \<ge> stateLimit r \<Longrightarrow> pc_states r \<noteq> []" using lim by auto
    ultimately show "distinct (map fst (pc_states ?r))" "'''' \<notin> fst ` set (pc_states ?r)" using assms(1) by (auto simp: circuit_ok_def)
  qed
  have "int (length (gm_set key st (pc_states ?r))) \<le> stateLimit r"
  proof (cases "map_of (pc_states r) key")
    case None
    have "int (length (pc_states ?r)) < stateLimit r"
    proof (cases "int (length (pc_states r)) \<ge> stateLimit r")
      case True
      then have "pc_states r \<noteq> []" using lim by auto
      from evict_ok(2) [OF assms(1) this] show ?thesis using None True assms(1) by (simp add: circuit_ok_def)
    qed (simp add: None)
    then show ?thesis using gm_set_length [of key st "pc_states ?r"] by linarith
  next
    case (Some st')
    then show ?thesis using gm_set_length_old [of "pc_states r" key st] assms(1) by (simp add: circuit_ok_def)
  qed
  moreover have "stateLimit (fst (circuit_RecordFailure r key now)) = stateLimit r" by (simp add: stateLimit_def circuit_fields)
  ultimately show ?thesis using sub assms(2) by (simp add: circuit_ok_def f gm_set_keys)
qed (use assms(1) in \<open>simp add: circuit_RecordFailure_def\<close>)

lemma RecordSuccess_ok: "circuit_ok r \<Longrightarrow> circuit_ok (circuit_RecordSuccess r key)"
  using gm_del_length_le [of key "pc_states r"]
  by (auto simp: circuit_ok_def circuit_RecordSuccess_def gm_del_keys stateLimit_def split: if_splits)

interpretation circuit_bounded: bounded_state circuit_step circuit_ok "\<lambda>r. int (length (pc_states r))" stateLimit
proof unfold_locales
  fix s s' assume "circuit_step s s'"
  then show "circuit_ok s \<Longrightarrow> circuit_ok s'" and "stateLimit s' = stateLimit s"
    by (cases rule: circuit_step.cases; simp add: RecordFailure_ok RecordSuccess_ok stateLimit_def circuit_fields)+
qed (simp add: circuit_ok_def)

section \<open>When a circuit opens\<close>

definition failAt :: "string \<Rightarrow> providerCircuitRegistry \<Rightarrow> gotime \<Rightarrow> providerCircuitRegistry" where
  "failAt key r now = fst (circuit_RecordFailure r key now)"

text \<open>The state of a key after failures at the given times, counted from a clean start.\<close>

lemma failures_state:
  assumes "pc_enabled r" "map_of (pc_states r) key = None" "int (length ts) \<le> MaxInt64" "ts \<noteq> []"
  shows "map_of (pc_states (foldl (failAt key) r ts)) key =
      Some \<lparr>ps_failures = int (length ts),
        ps_openUntil = (if int (length ts) \<ge> pc_threshold r then t_Add (last ts) (pc_openFor r) else t_Zero), ps_updatedAt = last ts\<rparr>
    \<and> pc_enabled (foldl (failAt key) r ts) \<and> pc_threshold (foldl (failAt key) r ts) = pc_threshold r
    \<and> pc_openFor (foldl (failAt key) r ts) = pc_openFor r"
  using assms(3,4)
proof (induction ts rule: rev_induct)
  case (snoc t ts)
  have add: "i64_add (int (length ts)) 1 = int (length ts) + 1"
    using snoc.prems(1) by (intro i64_add_exact) (simp add: i64_defs)
  show ?case
  proof (cases "ts = []")
    case True
    have "i64_add 0 1 = 1" using i64_add_exact [of 0 1] by (simp add: i64_defs)
    then show ?thesis using True assms(1,2)
      by (auto simp: failAt_def circuit_RecordFailure_def Let_def evict_fields)
  next
    case False
    then show ?thesis using snoc add
      by (auto simp: failAt_def circuit_RecordFailure_def Let_def)
  qed
qed simp

lemma t_Add_not_zero: "live_time t \<Longrightarrow> short_span d \<Longrightarrow> 0 \<le> d \<Longrightarrow> \<not> t_IsZero (t_Add t d)"
  by (simp add: t_Add_live t_IsZero_def live_time_def time_defs)

text \<open>(C18) The breaker opens exactly at its threshold and closes by itself: after a success of a key and
  then failures of it at given times, with no other traffic in between, the breaker lets the key
  through if and only if there were fewer failures than the threshold or the opening period since the
  last failure is over; a success closes it at once; and the table holds no more states than its limit.\<close>
theorem circuit_opens:
  assumes "circuit_ok r" "pc_enabled r" "key \<noteq> ''''" "ts \<noteq> []" "int (length ts) \<le> MaxInt64"
    and "live_time (last ts)" "short_span (pc_openFor r)" "0 \<le> pc_openFor r"
  defines "r1 \<equiv> foldl (failAt key) (circuit_RecordSuccess r key) ts"
  shows "(circuit_Allow r1 key now \<longleftrightarrow> int (length ts) < pc_threshold r \<or> \<not> t_Before now (t_Add (last ts) (pc_openFor r)))
    \<and> circuit_Allow (circuit_RecordSuccess r1 key) key now
    \<and> int (length (pc_states r1)) \<le> stateLimit r"
proof -
  let ?r = "circuit_RecordSuccess r key"
  have "pc_enabled ?r" "map_of (pc_states ?r) key = None" "pc_threshold ?r = pc_threshold r" "pc_openFor ?r = pc_openFor r"
    using assms(2) by (simp_all add: circuit_RecordSuccess_def)
  note st = failures_state [OF this(1,2) assms(5,4), folded r1_def, unfolded this(3,4)]
  have "circuit_Allow r1 key now \<longleftrightarrow> int (length ts) < pc_threshold r \<or> \<not> t_Before now (t_Add (last ts) (pc_openFor r))"
    using st t_Add_not_zero [OF assms(6-8)] by (auto simp: circuit_Allow_def t_IsZero_def t_Zero_def)
  moreover have "circuit_Allow (circuit_RecordSuccess r1 key) key now"
    using st by (simp add: circuit_Allow_def circuit_RecordSuccess_def)
  moreover have "circuit_step\<^sup>*\<^sup>* r r1"
  proof -
    have "circuit_step\<^sup>*\<^sup>* ?r (foldl (failAt key) ?r ts)" for ts
      by (induction ts rule: rev_induct) (auto simp: failAt_def intro: rtranclp.rtrancl_into_rtrancl circuit_step.intros(2) [OF assms(3)])
    then show ?thesis unfolding r1_def using converse_rtranclp_into_rtranclp [of circuit_step, OF circuit_step.intros(1) [of r key]] by blast
  qed
  ultimately show ?thesis using circuit_bounded.reach_bound [OF _ assms(1)] by blast
qed

definition exampleCircuit :: providerCircuitRegistry where
  "exampleCircuit = newProviderCircuitRegistryFromEnv (\<lambda>name. '''')"

definition exampleTime :: "int \<Rightarrow> gotime" where
  "exampleTime s = \<lparr>t_wall = (1800000000 + s) * Second, t_mono = Some (s * Second)\<rparr>"

lemma exampleCircuit_fields:
  "exampleCircuit = \<lparr>pc_enabled = True, pc_threshold = 3, pc_openFor = 60 * Second, pc_maxStates = 4096, pc_states = []\<rparr>"
proof -
  have "i64_mul 60 Second = 60 * Second" by (rule i64_mul_exact) (simp add: i64_defs)
  then show ?thesis
    by (simp add: exampleCircuit_def newProviderCircuitRegistryFromEnv_def circuitEnvInt_def Let_def TrimSpace_def ToLower_def
        defaultProviderCircuitMaxStates_def)
qed

theorem circuit_opens_witness:
  "let r = foldl (failAt ''openai|us|gpt'') (circuit_RecordSuccess exampleCircuit ''openai|us|gpt'') [exampleTime 1, exampleTime 2, exampleTime 3] in
   \<not> circuit_Allow r ''openai|us|gpt'' (exampleTime 4) \<and> circuit_Allow r ''openai|us|gpt'' (exampleTime 64)"
proof -
  let ?ts = "[exampleTime 1, exampleTime 2, exampleTime 3]"
  have ok: "circuit_ok exampleCircuit" by (simp add: circuit_ok_def exampleCircuit_fields stateLimit_def)
  have t: "live_time (last ?ts)" "short_span (pc_openFor exampleCircuit)"
    by (simp_all add: exampleTime_def live_time_def short_span_def exampleCircuit_fields)
  have "t_Before (exampleTime 4) (t_Add (last ?ts) (pc_openFor exampleCircuit))"
    "\<not> t_Before (exampleTime 64) (t_Add (last ?ts) (pc_openFor exampleCircuit))"
    unfolding t_Add_live [OF t] by (simp_all add: exampleTime_def t_Before_def exampleCircuit_fields)
  then show ?thesis
    using circuit_opens [OF ok _ _ _ _ t, of "''openai|us|gpt''" "exampleTime 4"] circuit_opens [OF ok _ _ _ _ t, of "''openai|us|gpt''" "exampleTime 64"]
    by (simp add: Let_def exampleCircuit_fields i64_defs)
qed

end
