(* ===== verification/BroadcastQueue.thy ===== *)
theory BroadcastQueue
  imports GoList GoJSON
begin

text \<open>
  The memory-only queue of content exports (package \<open>internal/broadcast\<close>, \<open>queue.go\<close>), bounded in
  jobs and in bytes: a full queue drops its oldest jobs. A worker receives from the channel without
  the lock and subtracts the bytes of the job afterwards, under it. \<open>Enqueue\<close> is given as a function
  for a call that runs alone, and as steps between which workers may run. The encoding of the
  input and the delivery itself are parameters. A destination has the fields that do not
  concern the encrypted credentials of its delivery.
\<close>

record BroadcastDestination =
  bd_ID :: string
  bd_Type :: string
  bd_Endpoint :: string
  bd_Method :: string
  bd_IncludeContent :: bool

record 'i BroadcastJob =
  bj_Destinations :: "BroadcastDestination list"
  bj_GenerationID :: string
  bj_RequestID :: string
  bj_Input :: 'i
  bj_Output :: string

record 'i queuedJob =
  qj_Job :: "'i BroadcastJob"
  qj_bytes :: int

record QueueOptions =
  qo_Size :: int
  qo_Workers :: int
  qo_MaxBytes :: int
  qo_MaxJobBytes :: int

text \<open>\<open>qu_jobs\<close> is \<open>None\<close> for a nil channel. \<open>qu_held\<close> are the jobs workers have received and not yet
  accounted for, \<open>qu_lock\<close> the job of the \<open>Enqueue\<close> that holds the mutex.\<close>

record 'i Queue =
  qu_jobs :: "'i queuedJob list option"
  qu_cap :: int
  qu_workers :: int
  qu_maxBytes :: int
  qu_maxJobBytes :: int
  qu_queuedBytes :: int
  qu_held :: "'i queuedJob list"
  qu_lock :: "'i queuedJob option"

definition broadcast_envInt :: "(string \<Rightarrow> string) \<Rightarrow> string \<Rightarrow> int \<Rightarrow> int" where
  "broadcast_envInt getenv name fallback =
     (if getenv name = '''' then fallback else (case ParseInt (getenv name) of None \<Rightarrow> fallback | Some n \<Rightarrow> n))"

definition NewQueue :: "QueueOptions \<Rightarrow> 'i Queue" where
  "NewQueue options =
     (let maxBytes = (if qo_MaxBytes options \<le> 0 then 67108864 else qo_MaxBytes options);
          maxJobBytes = (if qo_MaxJobBytes options \<le> 0 then 16777216 else qo_MaxJobBytes options)
      in if qo_Size options \<le> 0
         then \<lparr>qu_jobs = None, qu_cap = 0, qu_workers = 0, qu_maxBytes = 0, qu_maxJobBytes = 0, qu_queuedBytes = 0, qu_held = [], qu_lock = None\<rparr>
         else \<lparr>qu_jobs = Some [], qu_cap = qo_Size options, qu_workers = (if qo_Workers options \<le> 0 then 2 else qo_Workers options),
               qu_maxBytes = maxBytes, qu_maxJobBytes = (if maxJobBytes > maxBytes then maxBytes else maxJobBytes), qu_queuedBytes = 0,
               qu_held = [], qu_lock = None\<rparr>)"

definition NewQueueFromEnv :: "(string \<Rightarrow> string) \<Rightarrow> 'i Queue" where
  "NewQueueFromEnv getenv = NewQueue
     \<lparr>qo_Size = broadcast_envInt getenv ''QUILL_BROADCAST_CONTENT_QUEUE_SIZE'' 256,
      qo_Workers = broadcast_envInt getenv ''QUILL_BROADCAST_CONTENT_WORKERS'' 2,
      qo_MaxBytes = broadcast_envInt getenv ''QUILL_BROADCAST_CONTENT_QUEUE_MAX_BYTES'' 67108864,
      qo_MaxJobBytes = broadcast_envInt getenv ''QUILL_BROADCAST_CONTENT_JOB_MAX_BYTES'' 16777216\<rparr>"

definition contentDestinations :: "BroadcastDestination list \<Rightarrow> BroadcastDestination list" where
  "contentDestinations destinations = filter bd_IncludeContent destinations"

text \<open>\<open>Enqueue\<close> up to the lock: the result it returns early with, or the job to queue.\<close>

definition enqueueAdmit :: "('i \<Rightarrow> string option) \<Rightarrow> 'i Queue \<Rightarrow> 'i BroadcastJob \<Rightarrow> bool + 'i queuedJob" where
  "enqueueAdmit marshal q job0 =
     (let job = job0\<lparr>bj_Destinations := contentDestinations (bj_Destinations job0)\<rparr> in
      if bj_Destinations job = [] then Inl True
      else if qu_jobs q = None then Inl False
      else (case marshal (bj_Input job) of
          None \<Rightarrow> Inl False
        | Some inputJSON \<Rightarrow>
          (let jobBytes = i64_add (int (length inputJSON)) (int (length (bj_Output job))) in
           if jobBytes > qu_maxJobBytes q then Inl False else Inr \<lparr>qj_Job = job, qj_bytes = jobBytes\<rparr>)))"

abbreviation jobs_of :: "'i Queue \<Rightarrow> 'i queuedJob list" where
  "jobs_of q \<equiv> (case qu_jobs q of None \<Rightarrow> [] | Some js \<Rightarrow> js)"

text \<open>The condition of the eviction loop.\<close>

definition mustDrop :: "'i Queue \<Rightarrow> int \<Rightarrow> bool" where
  "mustDrop q jobBytes \<longleftrightarrow> int (length (jobs_of q)) \<ge> qu_cap q \<or> i64_add (qu_queuedBytes q) jobBytes > qu_maxBytes q"

definition dropOldest :: "'i Queue \<Rightarrow> 'i Queue" where
  "dropOldest q = (case jobs_of q of
     [] \<Rightarrow> q
   | dropped # rest \<Rightarrow> q\<lparr>qu_jobs := Some rest, qu_queuedBytes := i64_sub (qu_queuedBytes q) (qj_bytes dropped)\<rparr>)"

definition sendJob :: "'i Queue \<Rightarrow> 'i queuedJob \<Rightarrow> 'i Queue \<times> bool" where
  "sendJob q queued =
     (if int (length (jobs_of q)) < qu_cap q
      then (q\<lparr>qu_jobs := Some (jobs_of q @ [queued]), qu_queuedBytes := i64_add (qu_queuedBytes q) (qj_bytes queued)\<rparr>, True)
      else (q, False))"

function enqueueLoop :: "'i Queue \<Rightarrow> 'i queuedJob \<Rightarrow> 'i Queue \<times> bool" where
  "enqueueLoop q queued =
     (if mustDrop q (qj_bytes queued)
      then (if jobs_of q = [] then (q, False) else enqueueLoop (dropOldest q) queued)
      else sendJob q queued)"
  by pat_completeness auto
termination by (relation "measure (\<lambda>(q, queued). length (jobs_of q))") (auto simp: dropOldest_def split: list.splits option.splits)

declare enqueueLoop.simps [simp del]

definition Enqueue :: "('i \<Rightarrow> string option) \<Rightarrow> 'i Queue \<Rightarrow> 'i BroadcastJob \<Rightarrow> 'i Queue \<times> bool" where
  "Enqueue marshal q job = (case enqueueAdmit marshal q job of Inl result \<Rightarrow> (q, result) | Inr queued \<Rightarrow> enqueueLoop q queued)"

section \<open>Steps\<close>

text \<open>No text in memory is longer than \<open>2^61\<close> bytes, so the size of a job does not wrap.\<close>

definition fits_memory :: "('i \<Rightarrow> string option) \<Rightarrow> 'i BroadcastJob \<Rightarrow> bool" where
  "fits_memory marshal job \<longleftrightarrow> int (length (bj_Output job)) \<le> 2305843009213693952
     \<and> (\<forall>s. marshal (bj_Input job) = Some s \<longrightarrow> int (length s) \<le> 2305843009213693952)"

inductive queue_step :: "('i \<Rightarrow> string option) \<Rightarrow> 'i Queue \<Rightarrow> 'i Queue \<Rightarrow> bool" for marshal where
  lock: "qu_lock q = None \<Longrightarrow> fits_memory marshal job \<Longrightarrow> enqueueAdmit marshal q job = Inr queued \<Longrightarrow> queue_step marshal q (q\<lparr>qu_lock := Some queued\<rparr>)"
| drop: "qu_lock q = Some queued \<Longrightarrow> mustDrop q (qj_bytes queued) \<Longrightarrow> jobs_of q \<noteq> [] \<Longrightarrow> queue_step marshal q (dropOldest q)"
| full: "qu_lock q = Some queued \<Longrightarrow> mustDrop q (qj_bytes queued) \<Longrightarrow> jobs_of q = [] \<Longrightarrow> queue_step marshal q (q\<lparr>qu_lock := None\<rparr>)"
| send: "qu_lock q = Some queued \<Longrightarrow> \<not> mustDrop q (qj_bytes queued) \<Longrightarrow> queue_step marshal q ((fst (sendJob q queued))\<lparr>qu_lock := None\<rparr>)"
| receive: "qu_jobs q = Some (queued # rest) \<Longrightarrow> queue_step marshal q (q\<lparr>qu_jobs := Some rest, qu_held := queued # qu_held q\<rparr>)"
| account: "queued \<in> set (qu_held q) \<Longrightarrow> qu_lock q = None \<Longrightarrow>
    queue_step marshal q (q\<lparr>qu_held := remove1 queued (qu_held q), qu_queuedBytes := i64_sub (qu_queuedBytes q) (qj_bytes queued)\<rparr>)"

inductive_cases queue_stepE: "queue_step marshal q q'"

abbreviation bytes_of :: "'i queuedJob list \<Rightarrow> int" where
  "bytes_of js \<equiv> sum_list (map qj_bytes js)"

text \<open>The byte count covers the queued jobs and the ones workers hold, and both bounds hold.\<close>

definition queue_ok :: "'i Queue \<Rightarrow> bool" where
  "queue_ok q \<longleftrightarrow>
     0 \<le> qu_maxJobBytes q \<and> qu_maxJobBytes q \<le> qu_maxBytes q \<and> qu_maxBytes q \<le> 4611686018427387903 \<and>
     qu_queuedBytes q = bytes_of (jobs_of q) + bytes_of (qu_held q) \<and> qu_queuedBytes q \<le> qu_maxBytes q \<and>
     int (length (jobs_of q)) \<le> qu_cap q \<and>
     (\<forall>j \<in> set (jobs_of q) \<union> set (qu_held q) \<union> set_option (qu_lock q). 0 \<le> qj_bytes j \<and> qj_bytes j \<le> qu_maxJobBytes q) \<and>
     (qu_jobs q = None \<longrightarrow> qu_lock q = None)"

lemma bytes_of_nonneg: "\<forall>j \<in> set js. 0 \<le> qj_bytes j \<Longrightarrow> 0 \<le> bytes_of js"
  by (induction js) auto

lemma bytes_of_remove1: "j \<in> set js \<Longrightarrow> bytes_of (remove1 j js) = bytes_of js - qj_bytes j"
  by (induction js) auto

lemma queue_bytes:
  assumes "queue_ok q"
  shows "0 \<le> bytes_of (jobs_of q)" "0 \<le> bytes_of (qu_held q)"
  using assms by (auto simp: queue_ok_def intro!: bytes_of_nonneg)

lemma queue_sum_exact:
  assumes "queue_ok q" "0 \<le> b" "b \<le> qu_maxJobBytes q"
  shows "i64_add (qu_queuedBytes q) b = qu_queuedBytes q + b"
  using assms queue_bytes [OF assms(1)] by (intro i64_add_exact) (auto simp: queue_ok_def i64_defs)

lemma dropOldest_ok:
  assumes "queue_ok q"
  shows "queue_ok (dropOldest q)"
proof (cases "jobs_of q")
  case (Cons d rest)
  have b: "0 \<le> qj_bytes d" "0 \<le> bytes_of rest" "0 \<le> bytes_of (qu_held q)"
    using assms Cons queue_bytes(2) [OF assms] by (auto simp: queue_ok_def intro!: bytes_of_nonneg)
  have "i64_sub (qu_queuedBytes q) (qj_bytes d) = qu_queuedBytes q - qj_bytes d"
    using assms b Cons by (intro i64_sub_exact) (auto simp: queue_ok_def i64_defs)
  then show ?thesis using assms b Cons by (auto simp: queue_ok_def dropOldest_def split: option.splits)
qed (use assms in \<open>simp add: dropOldest_def\<close>)

lemma sendJob_ok:
  assumes "queue_ok q" "\<not> mustDrop q (qj_bytes queued)" "0 \<le> qj_bytes queued" "qj_bytes queued \<le> qu_maxJobBytes q"
  shows "queue_ok (fst (sendJob q queued))" "snd (sendJob q queued)"
  using assms queue_sum_exact [OF assms(1,3,4)] by (auto simp: queue_ok_def sendJob_def mustDrop_def)

lemma enqueueAdmit_bytes:
  assumes "enqueueAdmit marshal q job = Inr queued" "fits_memory marshal job"
  shows "0 \<le> qj_bytes queued" "qj_bytes queued \<le> qu_maxJobBytes q" "qu_jobs q \<noteq> None"
proof -
  obtain s where s: "marshal (bj_Input job) = Some s" "qj_bytes queued = i64_add (int (length s)) (int (length (bj_Output job)))"
    "qj_bytes queued \<le> qu_maxJobBytes q" "qu_jobs q \<noteq> None"
    using assms(1) by (auto simp: enqueueAdmit_def Let_def split: if_splits option.splits)
  then have "i64_add (int (length s)) (int (length (bj_Output job))) = int (length s) + int (length (bj_Output job))"
    using assms(2) by (intro i64_add_exact) (auto simp: fits_memory_def i64_defs)
  then show "0 \<le> qj_bytes queued" "qj_bytes queued \<le> qu_maxJobBytes q" "qu_jobs q \<noteq> None" using s by simp_all
qed

lemma queue_step_ok:
  assumes "queue_step marshal q q'" "queue_ok q"
  shows "queue_ok q'"
  using assms(1)
proof (cases rule: queue_step.cases)
  case (lock job queued)
  then show ?thesis using assms(2) enqueueAdmit_bytes [OF lock(4,3)] by (auto simp: queue_ok_def)
next
  case (drop queued)
  then show ?thesis using dropOldest_ok [OF assms(2)] by simp
next
  case (full queued)
  then show ?thesis using assms(2) by (auto simp: queue_ok_def)
next
  case (send queued)
  then have "0 \<le> qj_bytes queued" "qj_bytes queued \<le> qu_maxJobBytes q" using assms(2) by (auto simp: queue_ok_def)
  from sendJob_ok(1) [OF assms(2) send(3) this] show ?thesis unfolding send(1) by (auto simp: queue_ok_def)
next
  case (receive queued rest)
  then show ?thesis using assms(2) by (auto simp: queue_ok_def)
next
  case (account queued)
  let ?held = "remove1 queued (qu_held q)"
  have b: "0 \<le> qj_bytes queued" "0 \<le> bytes_of (jobs_of q)" using assms(2) account queue_bytes(1) [OF assms(2)] by (auto simp: queue_ok_def)
  have r: "bytes_of ?held = bytes_of (qu_held q) - qj_bytes queued" by (rule bytes_of_remove1 [OF account(2)])
  have sub: "set ?held \<subseteq> set (qu_held q)" by (rule set_remove1_subset)
  have "0 \<le> bytes_of ?held" using assms(2) sub by (intro bytes_of_nonneg) (auto simp: queue_ok_def)
  then have "i64_sub (qu_queuedBytes q) (qj_bytes queued) = qu_queuedBytes q - qj_bytes queued"
    using assms(2) b r by (intro i64_sub_exact) (auto simp: queue_ok_def i64_defs)
  then show ?thesis using assms(2) b r sub unfolding account(1) by (auto simp: queue_ok_def)
qed

lemma queue_step_limit: "queue_step marshal q q' \<Longrightarrow> qu_maxBytes q' = qu_maxBytes q"
  by (erule queue_stepE) (auto simp: dropOldest_def sendJob_def split: list.splits)

interpretation broadcast_bounded: bounded_state "queue_step marshal" queue_ok qu_queuedBytes qu_maxBytes for marshal
proof unfold_locales
  fix s s' assume s: "queue_step marshal s s'"
  show "queue_ok s \<Longrightarrow> queue_ok s'" by (rule queue_step_ok [OF s])
  show "qu_maxBytes s' = qu_maxBytes s" by (rule queue_step_limit [OF s])
qed (simp add: queue_ok_def)

section \<open>One call\<close>

text \<open>Without jobs in the hands of workers, an admitted job always finds room: dropping makes it.\<close>

lemma enqueueLoop_room:
  assumes "queue_ok q" "qu_held q = []" "0 < qu_cap q" "qu_jobs q \<noteq> None" "0 \<le> qj_bytes queued" "qj_bytes queued \<le> qu_maxJobBytes q"
  shows "\<exists>kept dropped. jobs_of q = dropped @ kept \<and> qu_jobs (fst (enqueueLoop q queued)) = Some (kept @ [queued])
    \<and> snd (enqueueLoop q queued) \<and> queue_ok (fst (enqueueLoop q queued))"
  using assms
proof (induction q queued rule: enqueueLoop.induct)
  case (1 q queued)
  note add = queue_sum_exact [OF 1(2,6,7)]
  show ?case
  proof (cases "mustDrop q (qj_bytes queued)")
    case False
    have s: "enqueueLoop q queued = sendJob q queued" using False by (subst enqueueLoop.simps) simp
    have "int (length (jobs_of q)) < qu_cap q" using False by (simp add: mustDrop_def)
    then show ?thesis using sendJob_ok [OF 1(2) False 1(6,7)] unfolding s
      by (intro exI [of _ "jobs_of q"] exI [of _ "[]"]) (simp add: sendJob_def)
  next
    case True
    have "jobs_of q \<noteq> []"
    proof
      assume "jobs_of q = []"
      then have "qu_queuedBytes q = 0" "\<not> mustDrop q (qj_bytes queued)"
        using 1(2-4,7) add by (auto simp: queue_ok_def mustDrop_def)
      then show False using True by simp
    qed
    then obtain d rest where j: "jobs_of q = d # rest" by (cases "jobs_of q") auto
    then have q: "jobs_of (dropOldest q) = rest" "qu_held (dropOldest q) = qu_held q" "qu_cap (dropOldest q) = qu_cap q"
      "qu_jobs (dropOldest q) \<noteq> None" "qu_maxJobBytes (dropOldest q) = qu_maxJobBytes q"
      by (simp_all add: dropOldest_def)
    have e: "enqueueLoop q queued = enqueueLoop (dropOldest q) queued" using True j by (subst enqueueLoop.simps) simp
    obtain kept dropped where "rest = dropped @ kept" "qu_jobs (fst (enqueueLoop (dropOldest q) queued)) = Some (kept @ [queued])"
      "snd (enqueueLoop (dropOldest q) queued)" "queue_ok (fst (enqueueLoop (dropOldest q) queued))"
      using 1(1) [OF True] dropOldest_ok [OF 1(2)] 1(3-7) j q by auto
    then show ?thesis unfolding e j by (intro exI [of _ kept] exI [of _ "d # dropped"]) simp
  qed
qed

text \<open>(C19) The export queue keeps its budgets. Whatever the interleaving of \<open>Enqueue\<close> calls with the
  workers, the queued bytes never exceed the byte budget nor the channel its capacity, and the count
  covers exactly the queued jobs and those a worker has taken but not accounted for. A call on a queue
  with no such job accepts every job that fits, by dropping oldest jobs only: what stays is a suffix
  of the old queue followed by the new job.\<close>
theorem broadcast_budget:
  assumes "queue_ok q" "(queue_step marshal)\<^sup>*\<^sup>* q q1"
  shows "qu_queuedBytes q1 \<le> qu_maxBytes q \<and> int (length (jobs_of q1)) \<le> qu_cap q1
    \<and> qu_queuedBytes q1 = bytes_of (jobs_of q1) + bytes_of (qu_held q1)
    \<and> (\<forall>job queued. enqueueAdmit marshal q1 job = Inr queued \<and> fits_memory marshal job \<and> qu_held q1 = [] \<and> 0 < qu_cap q1 \<longrightarrow>
        (\<exists>kept dropped. jobs_of q1 = dropped @ kept \<and> qu_jobs (fst (Enqueue marshal q1 job)) = Some (kept @ [queued])
          \<and> snd (Enqueue marshal q1 job)))"
proof -
  have ok: "queue_ok q1" using broadcast_bounded.reach_ok assms by blast
  have "\<exists>kept dropped. jobs_of q1 = dropped @ kept \<and> qu_jobs (fst (Enqueue marshal q1 job)) = Some (kept @ [queued]) \<and> snd (Enqueue marshal q1 job)"
    if "enqueueAdmit marshal q1 job = Inr queued" "fits_memory marshal job" "qu_held q1 = []" "0 < qu_cap q1" for job queued
    using enqueueLoop_room [OF ok that(3,4)] enqueueAdmit_bytes [OF that(1,2)] that(1) by (fastforce simp: Enqueue_def)
  then show ?thesis using broadcast_bounded.reach_bound [OF assms(2,1)] ok by (auto simp: queue_ok_def)
qed

definition exampleOptions :: QueueOptions where
  "exampleOptions = \<lparr>qo_Size = 1, qo_Workers = 1, qo_MaxBytes = 10, qo_MaxJobBytes = 6\<rparr>"

definition exampleJob :: "unit BroadcastJob" where
  "exampleJob = \<lparr>bj_Destinations = [\<lparr>bd_ID = ''d'', bd_Type = ''webhook'', bd_Endpoint = '''', bd_Method = '''', bd_IncludeContent = True\<rparr>],
     bj_GenerationID = ''g'', bj_RequestID = ''r'', bj_Input = (), bj_Output = ''abc''\<rparr>"

theorem broadcast_budget_witness:
  "let q = NewQueue exampleOptions; q1 = fst (Enqueue (\<lambda>_. Some ''{}'') q exampleJob) in
   snd (Enqueue (\<lambda>_. Some ''{}'') q exampleJob) \<and> qu_jobs q1 = Some [\<lparr>qj_Job = exampleJob, qj_bytes = 5\<rparr>] \<and> qu_queuedBytes q1 = 5"
proof -
  let ?q = "\<lparr>qu_jobs = Some [], qu_cap = 1, qu_workers = 1, qu_maxBytes = 10, qu_maxJobBytes = 6, qu_queuedBytes = 0,
      qu_held = [], qu_lock = None\<rparr> :: unit Queue"
  have q: "NewQueue exampleOptions = ?q" by (simp add: NewQueue_def exampleOptions_def Let_def)
  have ok: "queue_ok ?q" by (simp add: queue_ok_def)
  have "i64_add 2 3 = 5" using i64_add_exact [of 2 3] by (simp add: i64_defs)
  then have a: "enqueueAdmit (\<lambda>_. Some ''{}'') ?q exampleJob = Inr \<lparr>qj_Job = exampleJob, qj_bytes = 5\<rparr>"
    by (simp add: enqueueAdmit_def exampleJob_def contentDestinations_def Let_def)
  have "i64_add 0 5 = 5" using i64_add_exact [of 0 5] by (simp add: i64_defs)
  then have "qu_queuedBytes (fst (Enqueue (\<lambda>_. Some ''{}'') ?q exampleJob)) = 5"
    by (simp add: Enqueue_def a enqueueLoop.simps [of ?q] mustDrop_def sendJob_def)
  moreover have "fits_memory (\<lambda>_. Some ''{}'') exampleJob" by (simp add: fits_memory_def exampleJob_def)
  ultimately show ?thesis
    using broadcast_budget [OF ok rtranclp.rtrancl_refl, of "\<lambda>_. Some ''{}''"] a unfolding q Let_def by fastforce
qed

end
