(* ===== verification/BillingBackoff.thy ===== *)
theory BillingBackoff
  imports GoList ControlPlane GoJSON
begin

text \<open>
  The backoff of requests refused for lack of credits (\<open>internal/trustedrouter/billing_backoff.go\<close>
  and the route, frame and header helpers of \<open>cmd/enclave/billing_backoff.go\<close>): for a short
  window an identical request on the same credential is answered from memory. Entries are kept
  in the order of their expiry, so that expiring from the front is enough, and are indexed by
  credential. A window summary is a record; receivers are not nil and \<open>ttl\<close> may be any duration.
  \<open>ForgetCredential\<close> ranges over a Go map, whose order is that of the list here. Of the request
  headers the record has those that enter the key. The index of an entry is always present, so
  the nil elements on which \<open>remove\<close> would panic do not arise (\<open>bb_ok\<close>).
\<close>

section \<open>Keys\<close>

record BillingBackoffKey =
  bk_lookupHash :: string
  bk_requestDigest :: string

text \<open>\<open>binary.BigEndian.AppendUint64\<close>.\<close>

fun be_bytes :: "nat \<Rightarrow> nat \<Rightarrow> string" where
  "be_bytes 0 n = []"
| "be_bytes (Suc k) n = be_bytes k (n div 256) @ [char_of (n mod 256)]"

definition framed :: "string \<Rightarrow> string" where
  "framed field = be_bytes 8 (length field) @ field"

definition billingBackoffFrame :: "string list \<Rightarrow> string" where
  "billingBackoffFrame parts = concat (map framed parts)"

definition NewBillingBackoffKey :: "(string \<Rightarrow> string) \<Rightarrow> string \<Rightarrow> string \<Rightarrow> string \<Rightarrow> string \<Rightarrow> string list \<Rightarrow> BillingBackoffKey" where
  "NewBillingBackoffKey sha256 lookupHash method route body headerGroups =
     \<lparr>bk_lookupHash = lookupHash, bk_requestDigest = sha256 (billingBackoffFrame ([method, route, body] @ headerGroups))\<rparr>"

record requestAttributionHeaders =
  ra_SessionID :: string
  ra_HTTPReferer :: string
  ra_App :: string
  ra_OpenRouterMetadata :: bool
  ra_AppCategories :: "string list"
  ra_InferenceReceipt :: string
  ra_Host :: string

definition FormatBool :: "bool \<Rightarrow> string" where
  "FormatBool b = (if b then ''true'' else ''false'')"

definition billingBackoffHeaderGroups :: "requestAttributionHeaders \<Rightarrow> bool \<Rightarrow> string list" where
  "billingBackoffHeaderGroups a confidential =
     [billingBackoffFrame ([ra_SessionID a, ra_HTTPReferer a, ra_App a, FormatBool (ra_OpenRouterMetadata a)] @ ra_AppCategories a),
      billingBackoffFrame [ra_InferenceReceipt a],
      billingBackoffFrame [ra_Host a, FormatBool confidential]]"

definition isDecidePath :: "string \<Rightarrow> bool" where
  "isDecidePath path \<longleftrightarrow> path \<in> {''/api/alpha/decide'', ''/api/decide'', ''/v1/decide'', ''/v1/evaluate'', ''/api/alpha/decisions'', ''/api/decisions''}"

definition billingBackoffRoute :: "string \<Rightarrow> string \<Rightarrow> bool" where
  "billingBackoffRoute method route =
     (if method \<noteq> ''POST'' then False
      else if route \<in> {''/v1/chat/completions'', ''/v1/responses'', ''/v1/messages'', ''/v1/embeddings'', ''/v1/images'', ''/v1/audio/speech'',
             ''/v1/tools/fetch''} then True
      else isDecidePath route)"

text \<open>\<open>json.Unmarshal\<close> into the one-field struct gives the raw field, empty when it is absent.\<close>

definition billingBackoffIdempotent :: "(string \<Rightarrow> string option) \<Rightarrow> string \<Rightarrow> string \<Rightarrow> bool" where
  "billingBackoffIdempotent rawField header body =
     (if header \<noteq> '''' then True
      else (case rawField body of None \<Rightarrow> True | Some raw \<Rightarrow> raw \<noteq> ''''))"

section \<open>The table\<close>

record BillingRejection =
  br_Error :: ControlPlaneError
  br_RequestID :: string

record billingEntry =
  be_key :: BillingBackoffKey
  be_credentialID :: string
  be_rejection :: BillingRejection
  be_expiresAt :: gotime
  be_suppressed :: int

record BillingBackoff =
  bb_ttl :: int
  bb_maxEntries :: int
  bb_table :: "(BillingBackoffKey, billingEntry) table"
  bb_byCredential :: "(string \<times> BillingBackoffKey list) list"

record billingSummary =
  bs_credentialID :: string
  bs_fingerprint :: string
  bs_suppressed :: int
  bs_windowMS :: int

definition NewBillingBackoff :: "int \<Rightarrow> int \<Rightarrow> BillingBackoff" where
  "NewBillingBackoff ttl maxEntries =
     \<lparr>bb_ttl = ttl, bb_maxEntries = (if maxEntries \<le> 0 then 4096 else maxEntries), bb_table = tb_New, bb_byCredential = []\<rparr>"

definition billingBackoffFromEnv :: "(string \<Rightarrow> string) \<Rightarrow> BillingBackoff" where
  "billingBackoffFromEnv getenv =
     (let raw = TrimSpace (getenv ''QUILL_BILLING_402_BACKOFF_MS'');
          ttl = (if raw = '''' then 5 * Second
                 else (case ParseInt raw of
                     Some ms \<Rightarrow> if ms \<ge> 0 \<and> ms \<le> i64_quot MaxInt64 Millisecond then i64_mul ms Millisecond else 5 * Second
                   | None \<Rightarrow> 5 * Second))
      in NewBillingBackoff ttl 4096)"

text \<open>The set of keys under a credential, with its empty set deleted from the map.\<close>

definition unindexKey :: "BillingBackoffKey \<Rightarrow> (string \<times> BillingBackoffKey list) list \<Rightarrow> (string \<times> BillingBackoffKey list) list" where
  "unindexKey key m =
     (let h = bk_lookupHash key;
          ks = filter (\<lambda>k. k \<noteq> key) (case map_of m h of None \<Rightarrow> [] | Some ks \<Rightarrow> ks)
      in if ks = [] then gm_del h m else gm_set h ks m)"

definition indexKey :: "BillingBackoffKey \<Rightarrow> (string \<times> BillingBackoffKey list) list \<Rightarrow> (string \<times> BillingBackoffKey list) list" where
  "indexKey key m =
     (let h = bk_lookupHash key; ks = (case map_of m h of None \<Rightarrow> [] | Some ks \<Rightarrow> ks)
      in gm_set h (if key \<in> set ks then ks else key # ks) m)"

definition bb_remove :: "BillingBackoff \<Rightarrow> nat \<Rightarrow> billingSummary list \<Rightarrow> BillingBackoff \<times> billingSummary list" where
  "bb_remove c element summaries = (case gl_Value (tb_list (bb_table c)) element of
     None \<Rightarrow> (c, summaries)
   | Some item \<Rightarrow>
     (c\<lparr>bb_table := tb_remove be_key (bb_table c) element, bb_byCredential := unindexKey (be_key item) (bb_byCredential c)\<rparr>,
      if be_suppressed item > 0
      then summaries @ [\<lparr>bs_credentialID = be_credentialID item, bs_fingerprint = bk_lookupHash (be_key item),
             bs_suppressed = be_suppressed item, bs_windowMS = i64_quot (bb_ttl c) Millisecond\<rparr>]
      else summaries))"

text \<open>The loops that remove from the front, over at most the elements there are.\<close>

fun expireLoop :: "nat \<Rightarrow> BillingBackoff \<Rightarrow> gotime \<Rightarrow> billingSummary list \<Rightarrow> BillingBackoff \<times> billingSummary list" where
  "expireLoop 0 c now summaries = (c, summaries)"
| "expireLoop (Suc n) c now summaries = (case gl_items (tb_list (bb_table c)) of
     [] \<Rightarrow> (c, summaries)
   | (element, item) # _ \<Rightarrow>
     if t_Before now (be_expiresAt item) then (c, summaries)
     else (let (c1, s1) = bb_remove c element summaries in expireLoop n c1 now s1))"

definition bb_expire :: "BillingBackoff \<Rightarrow> gotime \<Rightarrow> billingSummary list \<Rightarrow> BillingBackoff \<times> billingSummary list" where
  "bb_expire c now summaries = expireLoop (length (gl_items (tb_list (bb_table c)))) c now summaries"

fun makeRoom :: "nat \<Rightarrow> BillingBackoff \<Rightarrow> billingSummary list \<Rightarrow> BillingBackoff \<times> billingSummary list" where
  "makeRoom 0 c summaries = (c, summaries)"
| "makeRoom (Suc n) c summaries =
     (if int (length (tb_index (bb_table c))) \<ge> bb_maxEntries c
      then (case gl_Front (tb_list (bb_table c)) of
          None \<Rightarrow> (c, summaries)
        | Some element \<Rightarrow> (let (c1, s1) = bb_remove c element summaries in makeRoom n c1 s1))
      else (c, summaries))"

definition bb_Get :: "BillingBackoff \<Rightarrow> BillingBackoffKey \<Rightarrow> bool \<Rightarrow> gotime \<Rightarrow> BillingBackoff \<times> BillingRejection option \<times> billingSummary list" where
  "bb_Get c key idempotent now =
     (if bb_ttl c \<le> 0 then (c, None, [])
      else
        (let (c1, summaries) = bb_expire c now [] in
         if idempotent then (c1, None, summaries)
         else (case tb_get (bb_table c1) key of
             None \<Rightarrow> (c1, None, summaries)
           | Some (element, item) \<Rightarrow>
             (c1\<lparr>bb_table := tb_set (bb_table c1) element (item\<lparr>be_suppressed := (be_suppressed item + 1) mod 18446744073709551616\<rparr>)\<rparr>,
              Some (be_rejection item), summaries))))"

text \<open>The walk from the back to the last entry that does not expire after the new one.\<close>

fun lastNotAfter :: "gotime \<Rightarrow> (nat \<times> billingEntry) list \<Rightarrow> nat option" where
  "lastNotAfter exp [] = None"
| "lastNotAfter exp (e # back) = (if \<not> t_Before exp (be_expiresAt (snd e)) then Some (fst e) else lastNotAfter exp back)"

definition insertByExpiry :: "(BillingBackoffKey, billingEntry) table \<Rightarrow> billingEntry \<Rightarrow> (BillingBackoffKey, billingEntry) table" where
  "insertByExpiry t item =
     (let (l, element) = (case lastNotAfter (be_expiresAt item) (rev (gl_items (tb_list t))) of
            Some mark \<Rightarrow> gl_InsertAfter (tb_list t) item mark
          | None \<Rightarrow> gl_PushFront (tb_list t) item)
      in \<lparr>tb_index = gm_set (be_key item) element (tb_index t), tb_list = l\<rparr>)"

definition publicFields :: "ControlPlaneError \<Rightarrow> ControlPlaneError" where
  "publicFields e = emptyControlPlaneError\<lparr>ce_Path := ce_Path e, ce_StatusCode := ce_StatusCode e, ce_Type := ce_Type e,
     ce_Message := ce_Message e, ce_RetryAfter := ce_RetryAfter e\<rparr>"

definition bb_Remember :: "BillingBackoff \<Rightarrow> BillingBackoffKey \<Rightarrow> string \<Rightarrow> string \<Rightarrow> bool \<Rightarrow> call_error option \<Rightarrow> gotime
    \<Rightarrow> BillingBackoff \<times> bool \<times> billingSummary list" where
  "bb_Remember c key credentialID requestID idempotent err now =
     (if bb_ttl c \<le> 0 \<or> idempotent \<or> \<not> IsInsufficientCredits err then (c, False, [])
      else if \<not> isLookupHash (bk_lookupHash key) then (c, False, [])
      else (case err of
          Some (ControlPlane e) \<Rightarrow>
            (let (c1, s1) = bb_expire c now [] in
             if tb_get (bb_table c1) key \<noteq> None then (c1, False, s1)
             else
               (let (c2, s2) = makeRoom (length (tb_index (bb_table c1))) c1 s1;
                    item = \<lparr>be_key = key, be_credentialID = credentialID,
                      be_rejection = \<lparr>br_Error = publicFields e, br_RequestID = requestID\<rparr>,
                      be_expiresAt = t_Add now (bb_ttl c), be_suppressed = 0\<rparr>
                in (c2\<lparr>bb_table := insertByExpiry (bb_table c2) item, bb_byCredential := indexKey key (bb_byCredential c2)\<rparr>, True, s2)))
        | _ \<Rightarrow> (c, False, [])))"

definition SetCredentialID :: "BillingBackoff \<Rightarrow> BillingBackoffKey \<Rightarrow> string \<Rightarrow> string \<Rightarrow> BillingBackoff" where
  "SetCredentialID c key requestID credentialID = (case tb_get (bb_table c) key of
     None \<Rightarrow> c
   | Some (element, item) \<Rightarrow>
     if br_RequestID (be_rejection item) = requestID
     then c\<lparr>bb_table := tb_set (bb_table c) element (item\<lparr>be_credentialID := credentialID\<rparr>)\<rparr> else c)"

fun forgetKeys :: "BillingBackoff \<Rightarrow> BillingBackoffKey list \<Rightarrow> billingSummary list \<Rightarrow> BillingBackoff \<times> billingSummary list" where
  "forgetKeys c [] summaries = (c, summaries)"
| "forgetKeys c (key # keys) summaries = (case map_of (tb_index (bb_table c)) key of
     None \<Rightarrow> forgetKeys c keys summaries
   | Some element \<Rightarrow> (let (c1, s1) = bb_remove c element summaries in forgetKeys c1 keys s1))"

definition ForgetCredential :: "BillingBackoff \<Rightarrow> string \<Rightarrow> BillingBackoff \<times> billingSummary list" where
  "ForgetCredential c lookupHash = forgetKeys c (case map_of (bb_byCredential c) lookupHash of None \<Rightarrow> [] | Some ks \<Rightarrow> ks) []"

section \<open>Framing is injective\<close>

lemma be_bytes_length [simp]: "length (be_bytes k n) = k"
  by (induction k arbitrary: n) auto

lemma be_bytes_inj: "be_bytes k n = be_bytes k m \<Longrightarrow> n < 256 ^ k \<Longrightarrow> m < 256 ^ k \<Longrightarrow> n = m"
proof (induction k arbitrary: n m)
  case (Suc k)
  have "char_of (n mod 256) = (char_of (m mod 256) :: char)" "be_bytes k (n div 256) = be_bytes k (m div 256)" using Suc.prems(1) by simp_all
  moreover have "n div 256 < 256 ^ k" "m div 256 < 256 ^ k" using Suc.prems(2,3) by (simp_all add: less_mult_imp_div_less mult.commute)
  ultimately have d: "n div 256 = m div 256" and c: "char_of (n mod 256) = (char_of (m mod 256) :: char)" using Suc.IH by blast+
  from arg_cong [OF c, of "of_char :: char \<Rightarrow> nat"] have "n mod 256 = m mod 256" by (simp add: take_bit_eq_mod)
  with d show ?case by (metis div_mult_mod_eq)
qed simp

lemma billingBackoffFrame_inj:
  assumes "billingBackoffFrame fs = billingBackoffFrame gs"
    and "\<forall>f \<in> set fs \<union> set gs. length f < 256 ^ 8"
  shows "fs = gs"
  using assms
proof (induction fs arbitrary: gs)
  case Nil
  then show ?case by (cases gs) (auto simp: billingBackoffFrame_def framed_def simp del: be_bytes.simps dest: arg_cong [where f = length])
next
  case (Cons f fs)
  show ?case
  proof (cases gs)
    case Nil
    then show ?thesis using Cons.prems(1)
      by (auto simp: billingBackoffFrame_def framed_def simp del: be_bytes.simps dest: arg_cong [where f = length])
  next
    case (Cons g gs')
    have eq: "be_bytes 8 (length f) @ f @ billingBackoffFrame fs = be_bytes 8 (length g) @ g @ billingBackoffFrame gs'"
      using Cons.prems(1) Cons by (simp add: billingBackoffFrame_def framed_def)
    then have l: "be_bytes 8 (length f) = be_bytes 8 (length g)" "f @ billingBackoffFrame fs = g @ billingBackoffFrame gs'"
      using append_eq_append_conv by (metis be_bytes_length)+
    have "length f = length g" using be_bytes_inj [OF l(1)] Cons.prems(2) Cons by simp
    then have "f = g" "billingBackoffFrame fs = billingBackoffFrame gs'" using l(2) by simp_all
    then show ?thesis using Cons.IH [of gs'] Cons.prems(2) Cons by auto
  qed
qed

section \<open>The invariant\<close>

definition credKeys :: "(string \<times> BillingBackoffKey list) list \<Rightarrow> string \<Rightarrow> BillingBackoffKey set" where
  "credKeys m h = set (case map_of m h of None \<Rightarrow> [] | Some ks \<Rightarrow> ks)"

abbreviation bb_items :: "BillingBackoff \<Rightarrow> (nat \<times> billingEntry) list" where
  "bb_items c \<equiv> gl_items (tb_list (bb_table c))"

abbreviation expiry :: "nat \<times> billingEntry \<Rightarrow> int" where
  "expiry e \<equiv> mono_of (be_expiresAt (snd e))"

text \<open>The table is consistent, in the order of expiry and bounded; the credential index lists exactly
  the keys of the entries.\<close>

definition bb_ok :: "BillingBackoff \<Rightarrow> bool" where
  "bb_ok c \<longleftrightarrow> table_ok be_key (bb_table c) \<and> sorted (map expiry (bb_items c))
     \<and> (\<forall>e \<in> set (bb_items c). t_mono (be_expiresAt (snd e)) \<noteq> None)
     \<and> 0 < bb_maxEntries c \<and> int (length (bb_items c)) \<le> bb_maxEntries c
     \<and> (\<forall>h. credKeys (bb_byCredential c) h = {k \<in> (\<lambda>e. be_key (snd e)) ` set (bb_items c). bk_lookupHash k = h})"

lemma bb_ok_table: "bb_ok c \<Longrightarrow> table_ok be_key (bb_table c)"
  by (simp add: bb_ok_def)

lemma NewBillingBackoff_ok: "bb_ok (NewBillingBackoff ttl maxEntries)"
  by (simp add: bb_ok_def NewBillingBackoff_def tb_New_def gl_New_def credKeys_def table_ok_def)

lemma credKeys_unindex: "credKeys (unindexKey k m) h = (if h = bk_lookupHash k then credKeys m h - {k} else credKeys m h)"
  by (auto simp: credKeys_def unindexKey_def Let_def filter_empty_conv split: option.splits)

lemma credKeys_index: "credKeys (indexKey k m) h = (if h = bk_lookupHash k then insert k (credKeys m h) else credKeys m h)"
  by (auto simp: credKeys_def indexKey_def Let_def split: option.splits)

lemma bb_remove_fields: "bb_ttl (fst (bb_remove c i s)) = bb_ttl c" "bb_maxEntries (fst (bb_remove c i s)) = bb_maxEntries c"
  by (auto simp: bb_remove_def split: option.splits)

lemma bb_remove_items:
  assumes "bb_ok c"
  shows "bb_items (fst (bb_remove c i s)) = filter (\<lambda>e. fst e \<noteq> i) (bb_items c)"
proof -
  have t: "table_ok be_key (bb_table c)" using assms by (simp add: bb_ok_def)
  have "gl_Value (tb_list (bb_table c)) i = None \<Longrightarrow> filter (\<lambda>e. fst e \<noteq> i) (bb_items c) = bb_items c"
    by (force simp: gl_Value_def map_of_eq_None_iff filter_id_conv)
  then show ?thesis using tb_remove_items [OF t, of i] by (auto simp: bb_remove_def split: option.splits)
qed

lemma bb_remove_ok:
  assumes ok: "bb_ok c"
  shows "bb_ok (fst (bb_remove c i s))"
proof (cases "gl_Value (tb_list (bb_table c)) i")
  case (Some item)
  have t: "table_ok be_key (bb_table c)" using ok by (simp add: bb_ok_def)
  have d: "distinct (map fst (bb_items c))" "distinct (map (\<lambda>e. be_key (snd e)) (bb_items c))" using t by (simp_all add: table_ok_def)
  have m: "(i, item) \<in> set (bb_items c)" using Some gl_Value_iff [OF d(1)] by simp
  let ?c = "fst (bb_remove c i s)"
  note items = bb_remove_items [OF ok, of i s]
  have keys: "(\<lambda>e. be_key (snd e)) ` set (bb_items ?c) = (\<lambda>e. be_key (snd e)) ` set (bb_items c) - {be_key item}"
  proof -
    have "e \<in> set (bb_items c) \<Longrightarrow> be_key (snd e) = be_key item \<longleftrightarrow> fst e = i" for e
      using distinct_keys_same [OF d(2), of "fst e" "snd e" i item] m eq_key_imp_eq_value [OF d(1), of i "snd e" item] by (cases e) auto
    then show ?thesis unfolding items by auto
  qed
  have "credKeys (bb_byCredential ?c) h = {k \<in> (\<lambda>e. be_key (snd e)) ` set (bb_items ?c). bk_lookupHash k = h}" for h
  proof -
    have "credKeys (bb_byCredential ?c) h = credKeys (unindexKey (be_key item) (bb_byCredential c)) h" by (simp add: bb_remove_def Some)
    moreover have "credKeys (bb_byCredential c) h = {k \<in> (\<lambda>e. be_key (snd e)) ` set (bb_items c). bk_lookupHash k = h}" using ok by (simp add: bb_ok_def)
    ultimately show ?thesis unfolding credKeys_unindex keys by auto
  qed
  moreover have "table_ok be_key (bb_table ?c)" using tb_remove_ok [OF t] by (simp add: bb_remove_def Some)
  moreover have "int (length (filter (\<lambda>e. fst e \<noteq> i) (bb_items c))) \<le> bb_maxEntries c"
    using ok length_filter_le [of "\<lambda>e. fst e \<noteq> i" "bb_items c"] unfolding bb_ok_def by linarith
  ultimately show ?thesis using ok unfolding bb_ok_def bb_remove_fields
    by (auto simp: items sorted_filter)
qed (use ok in \<open>simp add: bb_remove_def\<close>)

lemma bb_remove_front:
  assumes "bb_ok c" "bb_items c = (i, v) # rest"
  shows "bb_items (fst (bb_remove c i s)) = rest"
proof -
  have "distinct (map fst (bb_items c))" using assms(1) by (simp add: bb_ok_def table_ok_def)
  then have "\<forall>e \<in> set rest. fst e \<noteq> i" using assms(2) by auto
  then show ?thesis using bb_remove_items [OF assms(1), of i s] assms(2) by (simp add: filter_id_conv)
qed

lemma expireLoop_spec:
  assumes "bb_ok c" "length (bb_items c) \<le> n"
  shows "bb_ok (fst (expireLoop n c now s)) \<and> bb_items (fst (expireLoop n c now s)) = dropWhile (\<lambda>e. \<not> t_Before now (be_expiresAt (snd e))) (bb_items c)
    \<and> bb_ttl (fst (expireLoop n c now s)) = bb_ttl c \<and> bb_maxEntries (fst (expireLoop n c now s)) = bb_maxEntries c"
  using assms
proof (induction n arbitrary: c s)
  case (Suc n)
  show ?case
  proof (cases "bb_items c")
    case (Cons e rest)
    obtain i v where e: "e = (i, v)" by force
    obtain c1 s1 where r: "bb_remove c i s = (c1, s1)" by force
    have f: "bb_ok c1" "bb_items c1 = rest" "bb_ttl c1 = bb_ttl c" "bb_maxEntries c1 = bb_maxEntries c"
      using bb_remove_ok [OF Suc.prems(1), of i s] bb_remove_front [OF Suc.prems(1) Cons [unfolded e], of s] bb_remove_fields [of c i s] r by simp_all
    show ?thesis using Suc.IH [OF f(1), of s1] f Suc.prems Cons e r by simp
  qed (use Suc.prems in simp)
qed simp

lemma bb_expire_spec:
  assumes "bb_ok c"
  shows "bb_ok (fst (bb_expire c now s)) \<and> bb_items (fst (bb_expire c now s)) = dropWhile (\<lambda>e. \<not> t_Before now (be_expiresAt (snd e))) (bb_items c)
    \<and> bb_ttl (fst (bb_expire c now s)) = bb_ttl c \<and> bb_maxEntries (fst (bb_expire c now s)) = bb_maxEntries c"
  unfolding bb_expire_def by (rule expireLoop_spec [OF assms order_refl])

text \<open>Because of the order, expiring from the front leaves only live entries.\<close>

lemma bb_expire_live:
  assumes "bb_ok c" "t_mono now \<noteq> None" "e \<in> set (bb_items (fst (bb_expire c now s)))"
  shows "t_Before now (be_expiresAt (snd e))"
proof -
  let ?P = "\<lambda>e. \<not> t_Before now (be_expiresAt (snd e))"
  let ?d = "dropWhile ?P (bb_items c)"
  note sp = bb_expire_spec [OF assms(1), of now s]
  have e: "e \<in> set ?d" using assms(3) sp by simp
  then obtain h tl where d: "?d = h # tl" by (cases ?d) auto
  have live: "t_Before now (be_expiresAt (snd h))" using d by (metis hd_dropWhile list.sel(1) list.simps(3))
  have "sorted (map expiry (bb_items (fst (bb_expire c now s))))" using sp unfolding bb_ok_def by blast
  then have "sorted (map expiry ?d)" using sp by metis
  then have le: "expiry h \<le> expiry e" using e d by auto
  have m: "t_mono (be_expiresAt (snd x)) \<noteq> None" if "x \<in> set ?d" for x using sp that unfolding bb_ok_def by metis
  show ?thesis using live le m [OF e] m [of h] d assms(2) by (auto simp: t_Before_def)
qed

section \<open>Every operation keeps the invariant\<close>

text \<open>Making room removes a prefix, the entries that expire first, until the new one fits.\<close>

lemma makeRoom_spec:
  assumes "bb_ok c" "length (bb_items c) \<le> n"
  shows "bb_ok (fst (makeRoom n c s)) \<and> int (length (bb_items (fst (makeRoom n c s)))) < bb_maxEntries c
    \<and> (\<exists>k. bb_items (fst (makeRoom n c s)) = drop k (bb_items c))
    \<and> bb_ttl (fst (makeRoom n c s)) = bb_ttl c \<and> bb_maxEntries (fst (makeRoom n c s)) = bb_maxEntries c"
  using assms
proof (induction n arbitrary: c s)
  case 0
  then show ?case by (auto simp: bb_ok_def intro: exI [where x = 0])
next
  case (Suc n)
  have len: "length (tb_index (bb_table c)) = length (bb_items c)" by (rule table_length [OF bb_ok_table [OF Suc.prems(1)]])
  show ?case
  proof (cases "bb_items c")
    case Nil
    then show ?thesis using Suc.prems(1) len by (auto simp: bb_ok_def gl_Front_def intro: exI [where x = 0])
  next
    case (Cons e rest)
    obtain i v where e: "e = (i, v)" by force
    obtain c1 s1 where r: "bb_remove c i s = (c1, s1)" by force
    have f: "bb_ok c1" "bb_items c1 = rest" "bb_ttl c1 = bb_ttl c" "bb_maxEntries c1 = bb_maxEntries c"
      using bb_remove_ok [OF Suc.prems(1), of i s] bb_remove_front [OF Suc.prems(1) Cons [unfolded e], of s] bb_remove_fields [of c i s] r by simp_all
    have ih: "bb_ok (fst (makeRoom n c1 s1))" "int (length (bb_items (fst (makeRoom n c1 s1)))) < bb_maxEntries c"
      "\<exists>k. bb_items (fst (makeRoom n c1 s1)) = drop k rest" "bb_ttl (fst (makeRoom n c1 s1)) = bb_ttl c"
      "bb_maxEntries (fst (makeRoom n c1 s1)) = bb_maxEntries c"
      using Suc.IH [OF f(1), of s1] f Suc.prems(2) Cons by auto
    show ?thesis
    proof (cases "int (length (bb_items c)) \<ge> bb_maxEntries c")
      case True
      have "makeRoom (Suc n) c s = makeRoom n c1 s1" using True Cons e r len by (simp add: gl_Front_def)
      moreover have "\<exists>k. bb_items (fst (makeRoom n c1 s1)) = drop k (bb_items c)" using ih(3) Cons by (metis drop_Suc_Cons)
      ultimately show ?thesis using ih by simp
    qed (use Suc.prems(1) len in \<open>auto intro: exI [where x = 0]\<close>)
  qed
qed

text \<open>The walk from the back finds where the new expiry belongs.\<close>

lemma lastNotAfter_None: "lastNotAfter exp xs = None \<Longrightarrow> e \<in> set xs \<Longrightarrow> t_Before exp (be_expiresAt (snd e))"
  by (induction xs) (auto split: if_splits)

lemma lastNotAfter_Some:
  "lastNotAfter exp xs = Some mark \<Longrightarrow> \<exists>as w bs. xs = as @ (mark, w) # bs \<and> \<not> t_Before exp (be_expiresAt w)
    \<and> (\<forall>e \<in> set as. t_Before exp (be_expiresAt (snd e)))"
proof (induction xs)
  case (Cons e xs)
  show ?case
  proof (cases "t_Before exp (be_expiresAt (snd e))")
    case True
    then obtain as w bs where "xs = as @ (mark, w) # bs" "\<not> t_Before exp (be_expiresAt w)" "\<forall>e \<in> set as. t_Before exp (be_expiresAt (snd e))"
      using Cons by auto
    with True show ?thesis by (intro exI [of _ "e # as"] exI [of _ w] exI [of _ bs]) simp
  next
    case False
    with Cons.prems show ?thesis by (intro exI [of _ "[]"] exI [of _ "snd e"] exI [of _ xs]) auto
  qed
qed simp

lemma insertByExpiry_split:
  assumes ok: "table_ok be_key t" and sorted: "sorted (map expiry (gl_items (tb_list t)))"
    and mono: "\<forall>e \<in> set (gl_items (tb_list t)). t_mono (be_expiresAt (snd e)) \<noteq> None" "t_mono (be_expiresAt item) \<noteq> None"
  shows "\<exists>xs ys. gl_items (tb_list t) = xs @ ys
    \<and> insertByExpiry t item = \<lparr>tb_index = gm_set (be_key item) (gl_next (tb_list t)) (tb_index t),
        tb_list = \<lparr>gl_items = xs @ (gl_next (tb_list t), item) # ys, gl_next = Suc (gl_next (tb_list t))\<rparr>\<rparr>
    \<and> (\<forall>e \<in> set xs. expiry e \<le> mono_of (be_expiresAt item)) \<and> (\<forall>e \<in> set ys. mono_of (be_expiresAt item) \<le> expiry e)"
proof -
  let ?items = "gl_items (tb_list t)"
  have before: "t_Before (be_expiresAt item) (be_expiresAt (snd e)) \<longleftrightarrow> mono_of (be_expiresAt item) < expiry e" if "e \<in> set ?items" for e
    using mono that by (auto simp: t_Before_def)
  show ?thesis
  proof (cases "lastNotAfter (be_expiresAt item) (rev ?items)")
    case None
    then have "\<forall>e \<in> set ?items. mono_of (be_expiresAt item) \<le> expiry e" using lastNotAfter_None [OF None] before by fastforce
    then show ?thesis using None
      by (intro exI [of _ "[]"] exI [of _ ?items]) (simp add: insertByExpiry_def gl_PushFront_def)
  next
    case (Some mark)
    obtain as w bs where r: "rev ?items = as @ (mark, w) # bs" "\<not> t_Before (be_expiresAt item) (be_expiresAt w)"
      "\<forall>e \<in> set as. t_Before (be_expiresAt item) (be_expiresAt (snd e))" using lastNotAfter_Some [OF Some] by blast
    have items: "?items = rev bs @ (mark, w) # rev as" using arg_cong [OF r(1), of rev] by simp
    have "(mark, w) \<in> set ?items" "set as \<subseteq> set ?items" using items by auto
    then have w: "mono_of (be_expiresAt w) \<le> mono_of (be_expiresAt item)" and after: "\<forall>e \<in> set as. mono_of (be_expiresAt item) < expiry e"
      using r(2,3) before [of "(mark, w)"] before by fastforce+
    have "\<forall>e \<in> set bs. expiry e \<le> mono_of (be_expiresAt w)" using sorted items by (auto simp: sorted_append)
    then have front: "\<forall>e \<in> set (rev bs @ [(mark, w)]). expiry e \<le> mono_of (be_expiresAt item)" using w by fastforce
    have d: "distinct (map fst (rev bs @ (mark, w) # rev as))" using ok items by (simp add: table_ok_def)
    have "insertByExpiry t item = \<lparr>tb_index = gm_set (be_key item) (gl_next (tb_list t)) (tb_index t),
        tb_list = \<lparr>gl_items = (rev bs @ [(mark, w)]) @ (gl_next (tb_list t), item) # rev as, gl_next = Suc (gl_next (tb_list t))\<rparr>\<rparr>"
      unfolding insertByExpiry_def Some by (simp add: gl_InsertAfter_def items insertAfterItem_split [OF d])
    with front after items show ?thesis by (intro exI [of _ "rev bs @ [(mark, w)]"] exI [of _ "rev as"]) auto
  qed
qed

lemma bb_insert_ok:
  assumes ok: "bb_ok c" and get: "tb_get (bb_table c) (be_key item) = None" and room: "int (length (bb_items c)) < bb_maxEntries c"
    and mono: "t_mono (be_expiresAt item) \<noteq> None"
  defines "c' \<equiv> c\<lparr>bb_table := insertByExpiry (bb_table c) item, bb_byCredential := indexKey (be_key item) (bb_byCredential c)\<rparr>"
  shows "bb_ok c'" "set (tb_values (bb_table c')) = insert item (set (tb_values (bb_table c)))"
proof -
  have t: "table_ok be_key (bb_table c)" "sorted (map expiry (bb_items c))" "\<forall>e \<in> set (bb_items c). t_mono (be_expiresAt (snd e)) \<noteq> None"
    using ok by (simp_all add: bb_ok_def)
  let ?n = "gl_next (tb_list (bb_table c))"
  obtain xs ys where s: "bb_items c = xs @ ys" "insertByExpiry (bb_table c) item
      = \<lparr>tb_index = gm_set (be_key item) ?n (tb_index (bb_table c)), tb_list = \<lparr>gl_items = xs @ (?n, item) # ys, gl_next = Suc ?n\<rparr>\<rparr>"
    "\<forall>e \<in> set xs. expiry e \<le> mono_of (be_expiresAt item)" "\<forall>e \<in> set ys. mono_of (be_expiresAt item) \<le> expiry e"
    using insertByExpiry_split [OF t mono] by blast
  have items: "bb_items c' = xs @ (?n, item) # ys" by (simp add: c'_def s(2))
  have "table_ok be_key (bb_table c')" using table_ok_insert [OF t(1) get s(1)] by (simp add: c'_def s(2))
  moreover have "sorted (map expiry (bb_items c'))" using t(2) s(1,3,4) by (auto simp: items sorted_append)
  moreover have "\<forall>e \<in> set (bb_items c'). t_mono (be_expiresAt (snd e)) \<noteq> None" using t(3) mono by (auto simp: items s(1))
  moreover have "int (length (bb_items c')) \<le> bb_maxEntries c'" using room by (simp add: items s(1)) (simp add: c'_def)
  moreover have "credKeys (bb_byCredential c') h = {k \<in> (\<lambda>e. be_key (snd e)) ` set (bb_items c'). bk_lookupHash k = h}" for h
  proof -
    have "credKeys (bb_byCredential c) h = {k \<in> (\<lambda>e. be_key (snd e)) ` set (bb_items c). bk_lookupHash k = h}" using ok by (simp add: bb_ok_def)
    then show ?thesis by (auto simp: c'_def s(1,2) credKeys_index)
  qed
  moreover have "0 < bb_maxEntries c'" using ok by (simp add: c'_def bb_ok_def)
  ultimately show "bb_ok c'" by (simp add: bb_ok_def)
  show "set (tb_values (bb_table c')) = insert item (set (tb_values (bb_table c)))" by (auto simp: items s(1))
qed

text \<open>What identifies an entry: counting a suppressed request or naming the credential leaves it alone.\<close>

definition entryCore :: "billingEntry \<Rightarrow> BillingBackoffKey \<times> BillingRejection \<times> gotime" where
  "entryCore v = (be_key v, be_rejection v, be_expiresAt v)"

abbreviation bb_cores :: "BillingBackoff \<Rightarrow> (BillingBackoffKey \<times> BillingRejection \<times> gotime) set" where
  "bb_cores c \<equiv> entryCore ` set (tb_values (bb_table c))"

lemma bb_set_ok:
  assumes ok: "bb_ok c" and get: "tb_get (bb_table c) k = Some (i, item)" and core: "entryCore item' = entryCore item"
  defines "c' \<equiv> c\<lparr>bb_table := tb_set (bb_table c) i item'\<rparr>"
  shows "bb_ok c'" "bb_cores c' = bb_cores c"
proof -
  have t: "table_ok be_key (bb_table c)" using ok by (simp add: bb_ok_def)
  have m: "(i, item) \<in> set (bb_items c)" using tb_get_Some [OF t] get by simp
  have d: "distinct (map fst (bb_items c))" using t by (simp add: table_ok_def)
  let ?f = "\<lambda>(j, w). (j, if j = i then item' else w)"
  have items: "bb_items c' = map ?f (bb_items c)" by (simp add: c'_def tb_set_def gl_set_items)
  have same: "entryCore (snd (?f e)) = entryCore (snd e)" if "e \<in> set (bb_items c)" for e
  proof -
    obtain j w where e: "e = (j, w)" by force
    then show ?thesis using that core eq_key_imp_eq_value [OF d m, of w] by auto
  qed
  have cores: "map (g \<circ> entryCore \<circ> snd) (bb_items c') = map (g \<circ> entryCore \<circ> snd) (bb_items c)" for g :: "_ \<Rightarrow> 'b"
    using same by (simp add: items)
  have keys: "map (\<lambda>e. be_key (snd e)) (bb_items c') = map (\<lambda>e. be_key (snd e)) (bb_items c)"
    and exps: "map (\<lambda>e. be_expiresAt (snd e)) (bb_items c') = map (\<lambda>e. be_expiresAt (snd e)) (bb_items c)"
    using cores [of fst] cores [of "snd \<circ> snd"] by (simp_all add: entryCore_def comp_def)
  have "map expiry (bb_items c') = map expiry (bb_items c)" using arg_cong [OF exps, of "map mono_of"] by (simp add: comp_def)
  moreover have "(\<forall>e \<in> set (bb_items c'). t_mono (be_expiresAt (snd e)) \<noteq> None) \<longleftrightarrow> (\<forall>e \<in> set (bb_items c). t_mono (be_expiresAt (snd e)) \<noteq> None)"
    using arg_cong [OF exps, of "\<lambda>ts. \<forall>x \<in> set ts. t_mono x \<noteq> None"] by simp
  moreover have "table_ok be_key (bb_table c')" using tb_set_ok [OF t m, of item'] core by (simp add: c'_def entryCore_def)
  moreover have "(\<lambda>e. be_key (snd e)) ` set (bb_items c') = (\<lambda>e. be_key (snd e)) ` set (bb_items c)" using arg_cong [OF keys, of set] by simp
  moreover have "length (bb_items c') = length (bb_items c)" by (simp add: items)
  moreover have "bb_maxEntries c' = bb_maxEntries c" "bb_byCredential c' = bb_byCredential c" by (simp_all add: c'_def)
  ultimately show "bb_ok c'" using ok unfolding bb_ok_def by simp
  show "bb_cores c' = bb_cores c" using arg_cong [OF cores [of id], of set] by (simp add: image_image)
qed

lemma bb_expire_cores: "bb_ok c \<Longrightarrow> bb_cores (fst (bb_expire c now s)) \<subseteq> bb_cores c"
  using bb_expire_spec [of c now s] by (auto dest!: set_dropWhileD)

text \<open>Looking up.\<close>

lemma bb_Get_spec:
  assumes ok: "bb_ok c"
  shows "bb_ok (fst (bb_Get c k idem now))" and "bb_cores (fst (bb_Get c k idem now)) \<subseteq> bb_cores c"
    and "bb_ttl (fst (bb_Get c k idem now)) = bb_ttl c" and "bb_maxEntries (fst (bb_Get c k idem now)) = bb_maxEntries c"
    and "fst (snd (bb_Get c k idem now)) = Some r \<Longrightarrow> t_mono now \<noteq> None \<Longrightarrow>
      \<not> idem \<and> (\<exists>exp. (k, r, exp) \<in> bb_cores c \<and> t_Before now exp)"
proof -
  obtain c1 s1 where e: "bb_expire c now [] = (c1, s1)" by force
  have c1: "bb_ok c1" "bb_cores c1 \<subseteq> bb_cores c" "bb_ttl c1 = bb_ttl c" "bb_maxEntries c1 = bb_maxEntries c"
    using bb_expire_spec [OF ok, of now "[]"] bb_expire_cores [OF ok, of now "[]"] e by simp_all
  have set: "bb_ok (c1\<lparr>bb_table := tb_set (bb_table c1) i (item\<lparr>be_suppressed := n\<rparr>)\<rparr>)"
      "bb_cores (c1\<lparr>bb_table := tb_set (bb_table c1) i (item\<lparr>be_suppressed := n\<rparr>)\<rparr>) = bb_cores c1"
    if "tb_get (bb_table c1) k = Some (i, item)" for i item n
    using bb_set_ok [OF c1(1) that, of "item\<lparr>be_suppressed := n\<rparr>"] by (simp_all add: entryCore_def)
  have "fst (bb_Get c k idem now) = c \<or> fst (bb_Get c k idem now) = c1 \<or> (\<exists>i item n. tb_get (bb_table c1) k = Some (i, item)
      \<and> fst (bb_Get c k idem now) = c1\<lparr>bb_table := tb_set (bb_table c1) i (item\<lparr>be_suppressed := n\<rparr>)\<rparr>)"
    by (simp add: bb_Get_def e split: option.splits) blast
  then consider "fst (bb_Get c k idem now) = c" | "fst (bb_Get c k idem now) = c1"
    | i item n where "tb_get (bb_table c1) k = Some (i, item)"
        "fst (bb_Get c k idem now) = c1\<lparr>bb_table := tb_set (bb_table c1) i (item\<lparr>be_suppressed := n\<rparr>)\<rparr>" by blast
  note shape = this
  show "bb_ok (fst (bb_Get c k idem now))" by (rule shape) (use ok c1 set(1) in simp_all)
  show "bb_ttl (fst (bb_Get c k idem now)) = bb_ttl c" by (rule shape) (use c1 in simp_all)
  show "bb_maxEntries (fst (bb_Get c k idem now)) = bb_maxEntries c" by (rule shape) (use c1 in simp_all)
  show "bb_cores (fst (bb_Get c k idem now)) \<subseteq> bb_cores c" by (rule shape) (use c1(2) set(2) in \<open>simp_all only: order_refl\<close>)
  assume hit: "fst (snd (bb_Get c k idem now)) = Some r" and now: "t_mono now \<noteq> None"
  then obtain i item where g: "\<not> idem" "tb_get (bb_table c1) k = Some (i, item)" "r = be_rejection item"
    by (auto simp: bb_Get_def e split: if_splits option.splits)
  have m: "(i, item) \<in> set (bb_items c1)" "be_key item = k" using tb_get_Some [OF bb_ok_table [OF c1(1)]] g(2) by simp_all
  have "t_Before now (be_expiresAt item)" using bb_expire_live [OF ok now, of "(i, item)" "[]"] m e by simp
  moreover have "entryCore item \<in> bb_cores c" using m(1) c1(2) by force
  ultimately show "\<not> idem \<and> (\<exists>exp. (k, r, exp) \<in> bb_cores c \<and> t_Before now exp)" using g m(2) by (auto simp: entryCore_def)
qed

text \<open>Remembering adds at most the one entry the refusal calls for.\<close>

definition remembered :: "int \<Rightarrow> BillingBackoffKey \<Rightarrow> string \<Rightarrow> bool \<Rightarrow> call_error option \<Rightarrow> gotime
    \<Rightarrow> (BillingBackoffKey \<times> BillingRejection \<times> gotime) \<Rightarrow> bool" where
  "remembered ttl k req idem err now core \<longleftrightarrow> \<not> idem \<and> IsInsufficientCredits err \<and> isLookupHash (bk_lookupHash k)
     \<and> (\<exists>e. err = Some (ControlPlane e) \<and> core = (k, \<lparr>br_Error = publicFields e, br_RequestID = req\<rparr>, t_Add now ttl))"

lemma bb_Remember_spec:
  fixes k cred req idem err
  assumes ok: "bb_ok c" and time: "t_mono (t_Add now (bb_ttl c)) \<noteq> None"
  defines "r \<equiv> bb_Remember c k cred req idem err now"
  shows "bb_ok (fst r)" and "\<And>core. core \<in> bb_cores (fst r) \<Longrightarrow> core \<in> bb_cores c \<or> remembered (bb_ttl c) k req idem err now core"
    and "bb_ttl (fst r) = bb_ttl c" and "bb_maxEntries (fst r) = bb_maxEntries c"
    and "fst (snd r) \<Longrightarrow> \<exists>core \<in> bb_cores (fst r). remembered (bb_ttl c) k req idem err now core"
proof -
  let ?item = "\<lambda>e. \<lparr>be_key = k, be_credentialID = cred, be_rejection = \<lparr>br_Error = publicFields e, br_RequestID = req\<rparr>,
    be_expiresAt = t_Add now (bb_ttl c), be_suppressed = 0\<rparr>"
  obtain c1 s1 where e: "bb_expire c now [] = (c1, s1)" by force
  obtain c2 s2 where m: "makeRoom (length (tb_index (bb_table c1))) c1 s1 = (c2, s2)" by force
  have c1: "bb_ok c1" "bb_cores c1 \<subseteq> bb_cores c" "bb_ttl c1 = bb_ttl c" "bb_maxEntries c1 = bb_maxEntries c"
    using bb_expire_spec [OF ok, of now "[]"] bb_expire_cores [OF ok, of now "[]"] e by simp_all
  have "length (bb_items c1) \<le> length (tb_index (bb_table c1))" using table_length [OF bb_ok_table [OF c1(1)]] by simp
  from makeRoom_spec [OF c1(1) this, of s1] obtain d where c2: "bb_ok c2" "int (length (bb_items c2)) < bb_maxEntries c2"
    "bb_items c2 = drop d (bb_items c1)" "bb_ttl c2 = bb_ttl c" "bb_maxEntries c2 = bb_maxEntries c" using m c1 by auto
  let ?c3 = "\<lambda>e. c2\<lparr>bb_table := insertByExpiry (bb_table c2) (?item e), bb_byCredential := indexKey k (bb_byCredential c2)\<rparr>"
  have sub: "set (tb_values (bb_table c2)) \<subseteq> set (tb_values (bb_table c1))" unfolding c2(3) by (auto dest: in_set_dropD)
  have "tb_get (bb_table c2) k = None" if "tb_get (bb_table c1) k = None"
    using that sub tb_get_None [OF bb_ok_table [OF c1(1)]] tb_get_None [OF bb_ok_table [OF c2(1)]] image_mono [OF sub, of be_key] by blast
  then have ins: "bb_ok (?c3 e)" "bb_cores (?c3 e) = insert (entryCore (?item e)) (bb_cores c2)" if "tb_get (bb_table c1) k = None" for e
    using bb_insert_ok [OF c2(1), of "?item e"] c2(2) time that by simp_all
  have "fst r = c \<and> \<not> fst (snd r) \<or> fst r = c1 \<and> \<not> fst (snd r) \<or> (\<exists>e. fst r = ?c3 e \<and> tb_get (bb_table c1) k = None \<and>
      err = Some (ControlPlane e) \<and> \<not> idem \<and> IsInsufficientCredits err \<and> isLookupHash (bk_lookupHash k))"
    by (cases "tb_get (bb_table c1) k") (simp_all add: r_def bb_Remember_def e m split: option.splits call_error.splits)
  then consider "fst r = c" "\<not> fst (snd r)" | "fst r = c1" "\<not> fst (snd r)" | e where "fst r = ?c3 e" "tb_get (bb_table c1) k = None"
      "remembered (bb_ttl c) k req idem err now (entryCore (?item e))"
    by (auto simp: remembered_def entryCore_def)
  note shape = this
  show "bb_ok (fst r)" by (rule shape) (use ok c1 ins(1) in simp_all)
  show "bb_ttl (fst r) = bb_ttl c" by (rule shape) (use c1 c2 in simp_all)
  show "bb_maxEntries (fst r) = bb_maxEntries c" by (rule shape) (use c1 c2 in simp_all)
  have "bb_cores c2 \<subseteq> bb_cores c" using sub c1(2) by blast
  then show "core \<in> bb_cores c \<or> remembered (bb_ttl c) k req idem err now core" if "core \<in> bb_cores (fst r)" for core
    by (rule_tac shape) (use that c1(2) ins(2) in \<open>auto simp only: insert_iff\<close>)
  show "\<exists>core \<in> bb_cores (fst r). remembered (bb_ttl c) k req idem err now core" if "fst (snd r)"
    by (rule shape) (use that ins(2) in \<open>auto simp only: insert_iff\<close>)
qed

text \<open>Forgetting removes exactly the entries of the credential, through the index.\<close>

lemma forgetKeys_spec:
  assumes "bb_ok c"
  shows "bb_ok (fst (forgetKeys c ks s)) \<and> bb_items (fst (forgetKeys c ks s)) = filter (\<lambda>e. be_key (snd e) \<notin> set ks) (bb_items c)
    \<and> bb_ttl (fst (forgetKeys c ks s)) = bb_ttl c \<and> bb_maxEntries (fst (forgetKeys c ks s)) = bb_maxEntries c"
  using assms
proof (induction ks arbitrary: c s)
  case (Cons k ks)
  have t: "table_ok be_key (bb_table c)" by (rule bb_ok_table [OF Cons.prems])
  show ?case
  proof (cases "map_of (tb_index (bb_table c)) k")
    case None
    have "tb_get (bb_table c) k = None" using tb_get_index [OF t] None by simp
    then have "\<forall>e \<in> set (bb_items c). be_key (snd e) \<noteq> k" unfolding tb_get_None [OF t] by auto
    then have "filter (\<lambda>e. be_key (snd e) \<notin> set (k # ks)) (bb_items c) = filter (\<lambda>e. be_key (snd e) \<notin> set ks) (bb_items c)"
      by (intro filter_cong) auto
    then show ?thesis using Cons.IH [OF Cons.prems] None by simp
  next
    case (Some i)
    obtain v where v: "(i, v) \<in> set (bb_items c)" "be_key v = k" using index_iff [OF t] Some by blast
    have d: "distinct (map fst (bb_items c))" "distinct (map (\<lambda>e. be_key (snd e)) (bb_items c))" using t by (simp_all add: table_ok_def)
    have "fst e \<noteq> i \<longleftrightarrow> be_key (snd e) \<noteq> k" if "e \<in> set (bb_items c)" for e
      using that v distinct_keys_same [OF d(2), of "fst e" "snd e" i v] eq_key_imp_eq_value [OF d(1), of i "snd e" v]
      by (metis prod.collapse)
    then have f: "filter (\<lambda>e. fst e \<noteq> i) (bb_items c) = filter (\<lambda>e. be_key (snd e) \<noteq> k) (bb_items c)" by (rule filter_cong [OF refl])
    obtain c1 s1 where r: "bb_remove c i s = (c1, s1)" by force
    have c1: "bb_ok c1" "bb_items c1 = filter (\<lambda>e. be_key (snd e) \<noteq> k) (bb_items c)" "bb_ttl c1 = bb_ttl c" "bb_maxEntries c1 = bb_maxEntries c"
      using bb_remove_ok [OF Cons.prems, of i s] bb_remove_items [OF Cons.prems, of i s] bb_remove_fields [of c i s] r f by simp_all
    have "filter (\<lambda>e. be_key (snd e) \<notin> set ks) (bb_items c1) = filter (\<lambda>e. be_key (snd e) \<notin> set (k # ks)) (bb_items c)"
      unfolding c1(2) filter_filter by (intro filter_cong) auto
    then show ?thesis using Cons.IH [OF c1(1), of s1] c1(3,4) Some r by simp
  qed
qed simp

lemma ForgetCredential_spec:
  assumes ok: "bb_ok c"
  shows "bb_ok (fst (ForgetCredential c h))" and "bb_cores (fst (ForgetCredential c h)) = {core \<in> bb_cores c. bk_lookupHash (fst core) \<noteq> h}"
    and "bb_ttl (fst (ForgetCredential c h)) = bb_ttl c" and "bb_maxEntries (fst (ForgetCredential c h)) = bb_maxEntries c"
proof -
  let ?ks = "case map_of (bb_byCredential c) h of None \<Rightarrow> [] | Some ks \<Rightarrow> ks"
  note spec = forgetKeys_spec [OF ok, of ?ks "[]", folded ForgetCredential_def]
  then show "bb_ok (fst (ForgetCredential c h))" "bb_ttl (fst (ForgetCredential c h)) = bb_ttl c"
    "bb_maxEntries (fst (ForgetCredential c h)) = bb_maxEntries c" by simp_all
  have "set ?ks = {k \<in> (\<lambda>e. be_key (snd e)) ` set (bb_items c). bk_lookupHash k = h}" using ok by (simp add: bb_ok_def credKeys_def)
  then have "be_key (snd e) \<notin> set ?ks \<longleftrightarrow> bk_lookupHash (be_key (snd e)) \<noteq> h" if "e \<in> set (bb_items c)" for e using that by auto
  then have "bb_items (fst (ForgetCredential c h)) = filter (\<lambda>e. bk_lookupHash (be_key (snd e)) \<noteq> h) (bb_items c)"
    unfolding conjunct1 [OF conjunct2 [OF spec]] by (rule filter_cong [OF refl])
  then show "bb_cores (fst (ForgetCredential c h)) = {core \<in> bb_cores c. bk_lookupHash (fst core) \<noteq> h}"
    by (force simp: entryCore_def)
qed

lemma SetCredentialID_spec:
  assumes "bb_ok c"
  shows "bb_ok (SetCredentialID c k req cred) \<and> bb_cores (SetCredentialID c k req cred) = bb_cores c
    \<and> bb_ttl (SetCredentialID c k req cred) = bb_ttl c \<and> bb_maxEntries (SetCredentialID c k req cred) = bb_maxEntries c"
proof (cases "tb_get (bb_table c) k")
  case (Some iv)
  obtain i item where g: "tb_get (bb_table c) k = Some (i, item)" using Some by (cases iv) simp
  have "entryCore (item\<lparr>be_credentialID := cred\<rparr>) = entryCore item" by (simp add: entryCore_def)
  from bb_set_ok [OF assms g this] show ?thesis using assms by (simp add: SetCredentialID_def g)
qed (use assms in \<open>simp add: SetCredentialID_def\<close>)

section \<open>Histories\<close>

datatype bb_event =
    BBGet BillingBackoffKey bool gotime
  | BBRemember BillingBackoffKey string string bool "call_error option" gotime
  | BBSetCredentialID BillingBackoffKey string string
  | BBForget string

definition bb_exec :: "BillingBackoff \<Rightarrow> bb_event \<Rightarrow> BillingBackoff" where
  "bb_exec c ev = (case ev of
     BBGet k idem now \<Rightarrow> fst (bb_Get c k idem now)
   | BBRemember k cred req idem err now \<Rightarrow> fst (bb_Remember c k cred req idem err now)
   | BBSetCredentialID k req cred \<Rightarrow> SetCredentialID c k req cred
   | BBForget h \<Rightarrow> fst (ForgetCredential c h))"

text \<open>Every clock reading is a live one.\<close>

fun bb_timed :: "bb_event \<Rightarrow> bool" where
  "bb_timed (BBRemember k cred req idem err now) = live_time now"
| "bb_timed (BBGet k idem now) = live_time now"
| "bb_timed _ = True"

inductive bb_step :: "BillingBackoff \<Rightarrow> BillingBackoff \<Rightarrow> bool" where
  "short_span (bb_ttl c) \<Longrightarrow> bb_timed ev \<Longrightarrow> bb_step c (bb_exec c ev)"

lemma t_mono_Add: "live_time now \<Longrightarrow> short_span d \<Longrightarrow> t_mono (t_Add now d) \<noteq> None"
  by (simp add: t_Add_live)

lemma bb_exec_spec:
  assumes ok: "bb_ok c" and time: "bb_timed ev" "short_span (bb_ttl c)"
  shows "bb_ok (bb_exec c ev)" "bb_ttl (bb_exec c ev) = bb_ttl c" "bb_maxEntries (bb_exec c ev) = bb_maxEntries c"
    "core \<in> bb_cores (bb_exec c ev) \<Longrightarrow> core \<in> bb_cores c \<and> ev \<noteq> BBForget (bk_lookupHash (fst core))
      \<or> (\<exists>k cred req idem err now. ev = BBRemember k cred req idem err now \<and> remembered (bb_ttl c) k req idem err now core)"
proof -
  have "bb_ok (bb_exec c ev) \<and> bb_ttl (bb_exec c ev) = bb_ttl c \<and> bb_maxEntries (bb_exec c ev) = bb_maxEntries c
    \<and> (core \<in> bb_cores (bb_exec c ev) \<longrightarrow> core \<in> bb_cores c \<and> ev \<noteq> BBForget (bk_lookupHash (fst core))
      \<or> (\<exists>k cred req idem err now. ev = BBRemember k cred req idem err now \<and> remembered (bb_ttl c) k req idem err now core))"
  proof (cases ev)
    case (BBGet k idem now)
    then show ?thesis using bb_Get_spec(1-4) [OF ok, of k idem now] unfolding BBGet bb_exec_def bb_event.case by blast
  next
    case (BBRemember k cred req idem err now)
    then have "t_mono (t_Add now (bb_ttl c)) \<noteq> None" using time t_mono_Add by simp
    from bb_Remember_spec(1-4) [OF ok this, where k = k and cred = cred and req = req and idem = idem and err = err]
    show ?thesis unfolding BBRemember bb_exec_def bb_event.case by blast
  next
    case (BBSetCredentialID k req cred)
    then show ?thesis using SetCredentialID_spec [OF ok, of k req cred] by (simp add: bb_exec_def)
  next
    case (BBForget h)
    then show ?thesis using ForgetCredential_spec [OF ok, of h] by (auto simp: bb_exec_def)
  qed
  then show "bb_ok (bb_exec c ev)" "bb_ttl (bb_exec c ev) = bb_ttl c" "bb_maxEntries (bb_exec c ev) = bb_maxEntries c"
    "core \<in> bb_cores (bb_exec c ev) \<Longrightarrow> core \<in> bb_cores c \<and> ev \<noteq> BBForget (bk_lookupHash (fst core))
      \<or> (\<exists>k cred req idem err now. ev = BBRemember k cred req idem err now \<and> remembered (bb_ttl c) k req idem err now core)"
    by blast+
qed

lemma bb_loop_fields:
  "bb_maxEntries (fst (expireLoop n c now s)) = bb_maxEntries c"
  "bb_maxEntries (fst (makeRoom n c s)) = bb_maxEntries c"
  "bb_maxEntries (fst (forgetKeys c ks s)) = bb_maxEntries c"
proof -
  show "bb_maxEntries (fst (expireLoop n c now s)) = bb_maxEntries c"
    by (induction n arbitrary: c s) (simp_all add: case_prod_beta bb_remove_fields split: list.splits)
  show "bb_maxEntries (fst (makeRoom n c s)) = bb_maxEntries c"
    by (induction n arbitrary: c s) (simp_all add: case_prod_beta bb_remove_fields split: option.splits)
  show "bb_maxEntries (fst (forgetKeys c ks s)) = bb_maxEntries c"
    by (induction ks arbitrary: c s) (simp_all add: case_prod_beta bb_remove_fields split: option.splits)
qed

lemma bb_exec_limit: "bb_maxEntries (bb_exec c ev) = bb_maxEntries c"
proof (cases ev)
  case (BBRemember k cred req idem err now)
  then show ?thesis
    by (simp add: bb_exec_def bb_Remember_def bb_expire_def case_prod_beta Let_def bb_loop_fields split: option.splits call_error.splits)
qed (simp_all add: bb_exec_def bb_Get_def SetCredentialID_def ForgetCredential_def bb_expire_def case_prod_beta bb_loop_fields split: option.splits)

interpretation backoff_bounded: bounded_state bb_step bb_ok "\<lambda>c. int (length (tb_index (bb_table c)))" bb_maxEntries
proof unfold_locales
  fix s s' assume "bb_step s s'"
  then show "bb_ok s \<Longrightarrow> bb_ok s'" by (cases rule: bb_step.cases) (simp add: bb_exec_spec)
  from \<open>bb_step s s'\<close> show "bb_maxEntries s' = bb_maxEntries s" by (cases rule: bb_step.cases) (simp add: bb_exec_limit)
qed (auto simp: bb_ok_def dest: table_length)

text \<open>A refusal that was remembered is found until its window closes.\<close>

lemma bb_Get_hit:
  assumes ok: "bb_ok c" and ttl: "0 < bb_ttl c" and core: "(k, r, exp) \<in> bb_cores c" "t_Before now exp"
  shows "fst (snd (bb_Get c k False now)) = Some r"
proof -
  obtain i item where m: "(i, item) \<in> set (bb_items c)" "entryCore item = (k, r, exp)" using core(1) by auto
  obtain c1 s1 where e: "bb_expire c now [] = (c1, s1)" by force
  have c1: "bb_ok c1" "bb_items c1 = dropWhile (\<lambda>e. \<not> t_Before now (be_expiresAt (snd e))) (bb_items c)"
    using bb_expire_spec [OF ok, of now "[]"] e by simp_all
  have "(i, item) \<notin> set (takeWhile (\<lambda>e. \<not> t_Before now (be_expiresAt (snd e))) (bb_items c))"
    using m(2) core(2) by (auto simp: entryCore_def dest: set_takeWhileD)
  then have "(i, item) \<in> set (bb_items c1)" using m(1) unfolding c1(2) by (metis Un_iff set_append takeWhile_dropWhile_id)
  then have "tb_get (bb_table c1) k = Some (i, item)" using tb_get_Some [OF bb_ok_table [OF c1(1)]] m(2) by (simp add: entryCore_def)
  then show ?thesis using ttl m(2) by (simp add: bb_Get_def e entryCore_def)
qed

text \<open>Where an entry comes from: a refusal of that key, with no later purge of its credential.\<close>

definition bb_justified :: "int \<Rightarrow> bb_event list \<Rightarrow> BillingBackoffKey \<times> BillingRejection \<times> gotime \<Rightarrow> bool" where
  "bb_justified ttl evs core \<longleftrightarrow> (\<exists>evs1 k cred req idem err t evs2. evs = evs1 @ BBRemember k cred req idem err t # evs2
     \<and> remembered ttl k req idem err t core \<and> BBForget (bk_lookupHash (fst core)) \<notin> set evs2)"

lemma bb_run:
  assumes "c = foldl bb_exec (NewBillingBackoff ttl maxEntries) evs" "\<forall>ev \<in> set evs. bb_timed ev" "short_span ttl"
  shows "bb_ok c \<and> bb_ttl c = ttl \<and> bb_maxEntries c = bb_maxEntries (NewBillingBackoff ttl maxEntries)
    \<and> (\<forall>core \<in> bb_cores c. bb_justified ttl evs core)"
  using assms
proof (induction evs arbitrary: c rule: rev_induct)
  case Nil
  then show ?case using NewBillingBackoff_ok [of ttl maxEntries] by (simp add: NewBillingBackoff_def tb_New_def gl_New_def)
next
  case (snoc ev evs)
  let ?b = "foldl bb_exec (NewBillingBackoff ttl maxEntries) evs"
  have ih: "bb_ok ?b" "bb_ttl ?b = ttl" "bb_maxEntries ?b = bb_maxEntries (NewBillingBackoff ttl maxEntries)"
    "\<forall>core \<in> bb_cores ?b. bb_justified ttl evs core" using snoc.IH [OF refl] snoc.prems by auto
  have time: "bb_timed ev" "short_span (bb_ttl ?b)" using snoc.prems ih by auto
  have c: "c = bb_exec ?b ev" using snoc.prems by simp
  note spec = bb_exec_spec [OF ih(1) time]
  have "bb_justified ttl (evs @ [ev]) core" if "core \<in> bb_cores c" for core
    using spec(4) [OF that [unfolded c]]
  proof
    assume old: "core \<in> bb_cores ?b \<and> ev \<noteq> BBForget (bk_lookupHash (fst core))"
    then have "bb_justified ttl evs core" using ih(4) by blast
    then show ?thesis using old unfolding bb_justified_def by (elim exE conjE) (fastforce simp: append_assoc)
  next
    assume "\<exists>k cred req idem err now. ev = BBRemember k cred req idem err now \<and> remembered (bb_ttl ?b) k req idem err now core"
    then show ?thesis unfolding bb_justified_def ih(2) by (metis append_Nil2 empty_iff list.set(1))
  qed
  then show ?case using spec ih c by simp
qed

text \<open>(C20) Start from an empty backoff and serve any sequence of lookups, remembered refusals, credential
  naming and purges, with live clock readings. The table never holds more than its limit. A lookup that answers
  a request from memory does so only for a request without an idempotency key, with the public fields of a 402
  insufficient-credits refusal that was remembered for exactly that key, at a time from which the window is not
  yet over, and with no purge of that credential since. And a refusal just remembered answers every identical
  request until its window closes.\<close>
theorem backoff_windows:
  assumes "c = foldl bb_exec (NewBillingBackoff ttl maxEntries) evs" "\<forall>ev \<in> set evs. bb_timed ev" "short_span ttl"
  shows "int (length (tb_index (bb_table c))) \<le> (if maxEntries \<le> 0 then 4096 else maxEntries)
    \<and> (\<forall>k idem now r. live_time now \<and> fst (snd (bb_Get c k idem now)) = Some r \<longrightarrow> \<not> idem \<and>
        (\<exists>evs1 cred e t evs2. evs = evs1 @ BBRemember k cred (br_RequestID r) False (Some (ControlPlane e)) t # evs2
          \<and> IsInsufficientCredits (Some (ControlPlane e)) \<and> br_Error r = publicFields e \<and> t_Before now (t_Add t ttl)
          \<and> BBForget (bk_lookupHash k) \<notin> set evs2))
    \<and> (\<forall>k cred req idem err t now. live_time t \<and> fst (snd (bb_Remember c k cred req idem err t)) \<and> t_Before now (t_Add t ttl)
        \<longrightarrow> fst (snd (bb_Get (fst (bb_Remember c k cred req idem err t)) k False now)) \<noteq> None)"
proof -
  note run = bb_run [OF assms]
  have ok: "bb_ok c" and ttl: "bb_ttl c = ttl" using run by simp_all
  have "int (length (tb_index (bb_table c))) \<le> (if maxEntries \<le> 0 then 4096 else maxEntries)"
    using backoff_bounded.ok_bound [OF ok] run by (simp add: NewBillingBackoff_def)
  moreover have "\<not> idem \<and> (\<exists>evs1 cred e t evs2. evs = evs1 @ BBRemember k cred (br_RequestID r) False (Some (ControlPlane e)) t # evs2
          \<and> IsInsufficientCredits (Some (ControlPlane e)) \<and> br_Error r = publicFields e \<and> t_Before now (t_Add t ttl)
          \<and> BBForget (bk_lookupHash k) \<notin> set evs2)" if "live_time now" "fst (snd (bb_Get c k idem now)) = Some r" for k idem now r
  proof -
    have "t_mono now \<noteq> None" using that(1) by (auto simp: live_time_def)
    from bb_Get_spec(5) [OF ok that(2) this] obtain exp where hit: "\<not> idem" "(k, r, exp) \<in> bb_cores c" "t_Before now exp" by blast
    then have "bb_justified ttl evs (k, r, exp)" using run by blast
    then obtain evs1 k' cred req idem' err t evs2 where j: "evs = evs1 @ BBRemember k' cred req idem' err t # evs2"
      "remembered ttl k' req idem' err t (k, r, exp)" "BBForget (bk_lookupHash k) \<notin> set evs2" unfolding bb_justified_def by auto
    from j(2) obtain e where "k' = k" "\<not> idem'" "IsInsufficientCredits (Some (ControlPlane e))" "err = Some (ControlPlane e)"
      "r = \<lparr>br_Error = publicFields e, br_RequestID = req\<rparr>" "exp = t_Add t ttl" unfolding remembered_def by auto
    then show ?thesis using hit(1,3) j(1,3)
      by (intro conjI exI [of _ evs1] exI [of _ cred] exI [of _ e] exI [of _ t] exI [of _ evs2]) simp_all
  qed
  moreover have "fst (snd (bb_Get (fst (bb_Remember c k cred req idem err t)) k False now)) \<noteq> None"
    if "live_time t" "fst (snd (bb_Remember c k cred req idem err t))" "t_Before now (t_Add t ttl)" for k cred req idem err t now
  proof -
    have time: "t_mono (t_Add t (bb_ttl c)) \<noteq> None" using t_mono_Add [OF that(1) assms(3)] ttl by simp
    note spec = bb_Remember_spec [OF ok time, where k = k and cred = cred and req = req and idem = idem and err = err]
    have pos: "0 < bb_ttl c" using that(2) by (cases "0 < bb_ttl c") (simp_all add: bb_Remember_def)
    from spec(5) [OF that(2)] obtain core where "core \<in> bb_cores (fst (bb_Remember c k cred req idem err t))"
      "remembered (bb_ttl c) k req idem err t core" by blast
    then obtain r where "(k, r, t_Add t ttl) \<in> bb_cores (fst (bb_Remember c k cred req idem err t))" unfolding remembered_def ttl by metis
    from bb_Get_hit [OF spec(1) _ this that(3)] show ?thesis using pos spec(3) by simp
  qed
  ultimately show ?thesis by blast
qed

definition exampleRefusal :: "call_error option" where
  "exampleRefusal = Some (ControlPlane (emptyControlPlaneError\<lparr>ce_Path := ''/internal/gateway/authorize'', ce_StatusCode := 402,
     ce_Type := ''insufficient_credits''\<rparr>))"

theorem backoff_windows_witness:
  "let k = \<lparr>bk_lookupHash = replicate 64 CHR ''a'', bk_requestDigest = ''d''\<rparr>;
       t = \<lparr>t_wall = 1800000000 * Second, t_mono = Some 1000\<rparr>; c = NewBillingBackoff (5 * Second) 2
   in fst (snd (bb_Get (fst (bb_Remember c k ''cred'' ''req'' False exampleRefusal t)) k False (t\<lparr>t_mono := Some 2000\<rparr>))) \<noteq> None"
proof -
  let ?k = "\<lparr>bk_lookupHash = replicate 64 CHR ''a'', bk_requestDigest = ''d''\<rparr>"
    and ?t = "\<lparr>t_wall = 1800000000 * Second, t_mono = Some 1000\<rparr>" and ?c = "NewBillingBackoff (5 * Second) 2"
  have "isLookupHash (bk_lookupHash ?k)" by (simp add: isLookupHash_iff list_all_iff lower_hex_char_def)
  then have "fst (snd (bb_Remember ?c ?k ''cred'' ''req'' False exampleRefusal ?t))"
    by (simp add: bb_Remember_def exampleRefusal_def IsInsufficientCredits_def bb_expire_def NewBillingBackoff_def tb_New_def gl_New_def tb_get_def
        time_defs)
  moreover have "live_time ?t" "short_span (5 * Second)" by (simp_all add: live_time_def short_span_def time_defs)
  moreover have "t_Before (?t\<lparr>t_mono := Some 2000\<rparr>) (t_Add ?t (5 * Second))"
    by (simp add: t_Before_def t_Add_def wall_add_def wall_packed_def Let_def i64_defs time_defs)
  ultimately show ?thesis using backoff_windows [of ?c "5 * Second" 2 "[]"] by (simp add: Let_def)
qed

section \<open>Distinct requests have distinct keys\<close>

lemma FormatBool_inj: "FormatBool a = FormatBool b \<Longrightarrow> a = b"
  by (auto simp: FormatBool_def split: if_splits)

lemma billingBackoffFrame_part: "f \<in> set fs \<Longrightarrow> length f \<le> length (billingBackoffFrame fs)"
  by (induction fs) (auto simp: billingBackoffFrame_def framed_def)

text \<open>The key of a request frames its fields by length, so two requests with equal keys have the same
  credential, method, route, body and the same values in every header that enters the key, or the pair of
  frames is an explicit SHA-256 collision. Fields are shorter than \<open>2 ^ 64\<close> bytes.\<close>
theorem backoff_key_faithful:
  assumes key: "NewBillingBackoffKey sha256 h m r b (billingBackoffHeaderGroups a conf)
      = NewBillingBackoffKey sha256 h' m' r' b' (billingBackoffHeaderGroups a' conf')"
    and len: "\<forall>f \<in> set ([m, r, b] @ billingBackoffHeaderGroups a conf) \<union> set ([m', r', b'] @ billingBackoffHeaderGroups a' conf').
      length f < 256 ^ 8"
  shows "h = h' \<and> (m = m' \<and> r = r' \<and> b = b' \<and> a = a' \<and> conf = conf'
    \<or> (let x = billingBackoffFrame ([m, r, b] @ billingBackoffHeaderGroups a conf);
           y = billingBackoffFrame ([m', r', b'] @ billingBackoffHeaderGroups a' conf')
       in x \<noteq> y \<and> sha256 x = sha256 y))"
proof -
  let ?g = "billingBackoffHeaderGroups a conf" and ?g' = "billingBackoffHeaderGroups a' conf'"
  have h: "h = h'" and d: "sha256 (billingBackoffFrame ([m, r, b] @ ?g)) = sha256 (billingBackoffFrame ([m', r', b'] @ ?g'))"
    using key by (simp_all add: NewBillingBackoffKey_def)
  have "m = m' \<and> r = r' \<and> b = b' \<and> a = a' \<and> conf = conf'" if eq: "billingBackoffFrame ([m, r, b] @ ?g) = billingBackoffFrame ([m', r', b'] @ ?g')"
  proof -
    have parts: "[m, r, b] @ ?g = [m', r', b'] @ ?g'" by (rule billingBackoffFrame_inj [OF eq len])
    have group: "fs = gs" if "billingBackoffFrame fs = billingBackoffFrame gs" "billingBackoffFrame fs \<in> set ?g" for fs gs
    proof (rule billingBackoffFrame_inj [OF that(1)])
      have "length (billingBackoffFrame fs) < 256 ^ 8" using len that(2) by auto
      then show "\<forall>f \<in> set fs \<union> set gs. length f < 256 ^ 8"
        using billingBackoffFrame_part [of _ fs] billingBackoffFrame_part [of _ gs] that(1) by fastforce
    qed
    have "[ra_SessionID a, ra_HTTPReferer a, ra_App a, FormatBool (ra_OpenRouterMetadata a)] @ ra_AppCategories a
        = [ra_SessionID a', ra_HTTPReferer a', ra_App a', FormatBool (ra_OpenRouterMetadata a')] @ ra_AppCategories a'"
      by (rule group) (use parts in \<open>simp_all add: billingBackoffHeaderGroups_def\<close>)
    moreover have "[ra_InferenceReceipt a] = [ra_InferenceReceipt a']"
      by (rule group) (use parts in \<open>simp_all add: billingBackoffHeaderGroups_def\<close>)
    moreover have "[ra_Host a, FormatBool conf] = [ra_Host a', FormatBool conf']"
      by (rule group) (use parts in \<open>simp_all add: billingBackoffHeaderGroups_def\<close>)
    ultimately have "a = a'" "conf = conf'" using FormatBool_inj by (auto intro: requestAttributionHeaders.equality)
    with parts show ?thesis by simp
  qed
  then show ?thesis using h d by (auto simp: Let_def)
qed

theorem backoff_key_faithful_witness:
  "let a = \<lparr>ra_SessionID = ''s'', ra_HTTPReferer = '''', ra_App = ''app'', ra_OpenRouterMetadata = True, ra_AppCategories = [''x'', ''y''],
         ra_InferenceReceipt = '''', ra_Host = ''h''\<rparr>
   in NewBillingBackoffKey id ''h'' ''POST'' ''/v1/responses'' ''{}'' (billingBackoffHeaderGroups a True)
     \<noteq> NewBillingBackoffKey id ''h'' ''POST'' ''/v1/responses'' ''{}'' (billingBackoffHeaderGroups (a\<lparr>ra_AppCategories := [''xy'']\<rparr>) True)"
proof -
  let ?a = "\<lparr>ra_SessionID = ''s'', ra_HTTPReferer = '''', ra_App = ''app'', ra_OpenRouterMetadata = True, ra_AppCategories = [''x'', ''y''],
         ra_InferenceReceipt = '''', ra_Host = ''h''\<rparr>"
  have "\<forall>f \<in> set ([''POST'', ''/v1/responses'', ''{}''] @ billingBackoffHeaderGroups ?a True)
      \<union> set ([''POST'', ''/v1/responses'', ''{}''] @ billingBackoffHeaderGroups (?a\<lparr>ra_AppCategories := [''xy'']\<rparr>) True). length f < 256 ^ 8"
    by (simp add: billingBackoffHeaderGroups_def billingBackoffFrame_def framed_def FormatBool_def del: be_bytes.simps)
  from backoff_key_faithful [OF _ this, of id "''h''" "''h''"] show ?thesis by (auto simp: Let_def)
qed

end
