(* ===== verification/SpecJSON.thy ===== *)
theory SpecJSON
  imports GoJSON Complex_Main
begin

text \<open>
  The JSON domain of the speculation protocol (\<open>internal/speculation/json.go\<close>): a strict reader that
  refuses with a fixed code, and the checks on its values. A refusal unwinds with \<open>panic\<close> and
  \<open>recover\<close> in the source and is an error value here. The lexer behind \<open>Decoder.Token\<close> is a
  parameter, which gives every token with the input offset after it. A Go map is an association
  list; a \<open>float64\<close> is its value. Nil maps and slices are the empty ones.
\<close>

section \<open>Values\<close>

datatype gofloat = FFinite rat | FInf bool | FNaN

datatype anyval =
    ANil
  | ABool bool
  | AStr string
  | AInt int
  | AFloat gofloat
  | ANumber string
  | AArr "anyval list"
  | AObj "(string \<times> anyval) list"
  | AOther

datatype spec_error = ProtocolError string | SpecFuel | GoPanic

abbreviation refuse :: "string \<Rightarrow> spec_error + 'a" where
  "refuse code \<equiv> Inl (ProtocolError code)"

abbreviation need :: "bool \<Rightarrow> string \<Rightarrow> spec_error + unit" where
  "need ok code \<equiv> require ok (ProtocolError code)"

record spec_env =
  se_tokens :: "string \<Rightarrow> (token \<times> nat) list \<times> bool"
  se_sha256 :: "string \<Rightarrow> string"
  se_verify :: "string \<Rightarrow> string \<Rightarrow> string \<Rightarrow> bool"
  se_float :: "gofloat \<Rightarrow> string"

text \<open>\<open>strings.Fields\<close> on the space-separated constants.\<close>

definition Fields :: "string \<Rightarrow> string list" where
  "Fields s = filter (\<lambda>f. f \<noteq> '''') (SplitAt (CHR '' '') s)"

definition spec_integer :: "anyval \<Rightarrow> spec_error + int" where
  "spec_integer v = (case v of AInt n \<Rightarrow> if n \<ge> 0 then Inr n else refuse ''integer'' | _ \<Rightarrow> refuse ''integer'')"

definition plain_char :: "char \<Rightarrow> bool" where
  "plain_char c \<longleftrightarrow> 0x20 \<le> byte c \<and> byte c \<le> 0x7e \<and> byte c \<notin> {0x5c, 0x22, 0x3c, 0x3e, 0x26}"

definition stringValue :: "anyval \<Rightarrow> spec_error + string" where
  "stringValue v = (case v of
     AStr s \<Rightarrow> if s \<noteq> '''' \<and> list_all plain_char s then Inr s else refuse ''string''
   | _ \<Rightarrow> refuse ''string'')"

definition hashValue :: "anyval \<Rightarrow> spec_error + unit" where
  "hashValue v = (case v of
     AStr s \<Rightarrow> need (length s = 64 \<and> list_all lower_hex_char s) ''hash''
   | _ \<Rightarrow> refuse ''hash'')"

abbreviation fieldOf :: "(string \<times> anyval) list \<Rightarrow> string \<Rightarrow> anyval" where
  "fieldOf m f \<equiv> (case map_of m f of None \<Rightarrow> ANil | Some v \<Rightarrow> v)"

definition spec_object :: "anyval \<Rightarrow> string \<Rightarrow> string \<Rightarrow> string \<Rightarrow> spec_error + (string \<times> anyval) list" where
  "spec_object v ss ns nested = (case v of
     AObj m \<Rightarrow>
       (let fields = Fields (ss @ '' '' @ ns @ '' '' @ nested) in
        if length m \<noteq> length fields \<or> \<not> list_all (\<lambda>f. map_of m f \<noteq> None) fields then refuse ''fields''
        else bindE (mapE (\<lambda>f. stringValue (fieldOf m f)) (Fields ss)) (\<lambda>_.
             bindE (mapE (\<lambda>f. spec_integer (fieldOf m f)) (Fields ns)) (\<lambda>_. Inr m)))
   | _ \<Rightarrow> refuse ''fields'')"

definition spec_number :: "(string \<times> anyval) list \<Rightarrow> string \<Rightarrow> spec_error + int" where
  "spec_number m k = spec_integer (fieldOf m k)"

section \<open>Reading\<close>

definition byteRule :: "string \<Rightarrow> spec_error + unit" where
  "byteRule raw = need (list_all (\<lambda>c. 0x20 \<le> byte c \<and> byte c \<le> 0x7e \<and> byte c \<noteq> 0x5c) raw) ''json''"

fun depthLoop :: "int \<Rightarrow> bool \<Rightarrow> string \<Rightarrow> bool" where
  "depthLoop depth quoted [] = True"
| "depthLoop depth quoted (b # bs) =
     (let quoted = (if b = CHR 0x22 then \<not> quoted else quoted) in
      if quoted then depthLoop depth quoted bs
      else if b = CHR ''['' \<or> b = CHR ''{'' then depth + 1 \<le> 16 \<and> depthLoop (depth + 1) quoted bs
      else if b = CHR '']'' \<or> b = CHR ''}'' then depthLoop (depth - 1) quoted bs
      else depthLoop depth quoted bs)"

definition depthCheck :: "string \<Rightarrow> spec_error + unit" where
  "depthCheck raw = need (depthLoop 0 False raw) ''json''"

text \<open>The first of the three constants that is a complete token at the start of the text.\<close>

definition constantAt :: "char option \<Rightarrow> string \<Rightarrow> string option" where
  "constantAt prev raw =
     (if prev = None \<or> the prev \<in> set '' [{:,''
      then List.find (\<lambda>s. HasPrefix raw s \<and> (drop (length s) raw = [] \<or> hd (drop (length s) raw) \<in> set '' ,]}:''))
             [''NaN'', ''Infinity'', ''-Infinity'']
      else None)"

lemma constantAt_nonempty: "constantAt prev raw = Some s \<Longrightarrow> s \<noteq> []"
  by (auto simp: constantAt_def find_Some_iff less_Suc_eq split: if_splits)

function constantsLoop :: "char option \<Rightarrow> bool \<Rightarrow> string \<Rightarrow> (nat \<times> string) list \<Rightarrow> string \<Rightarrow> string \<times> (nat \<times> string) list" where
  "constantsLoop prev quoted0 out ends raw =
     (if raw = [] then (out, ends)
      else
        (let quoted = (if hd raw = CHR 0x22 then \<not> quoted0 else quoted0) in
         (case (if quoted then None else constantAt prev raw) of
            Some s \<Rightarrow> constantsLoop (Some (last s)) quoted (out @ ''0'') (ends @ [(length out + 1, s)]) (drop (length s) raw)
          | None \<Rightarrow> constantsLoop (Some (hd raw)) quoted (out @ [hd raw]) ends (tl raw))))"
  by pat_completeness auto
termination
  by (relation "measure (\<lambda>(prev, quoted, out, ends, raw). length raw)")
    (auto split: if_splits dest: constantAt_nonempty simp: less_diff_conv)

declare constantsLoop.simps [simp del]

definition constants :: "string \<Rightarrow> string \<times> (nat \<times> string) list" where
  "constants raw = constantsLoop None False [] [] raw"

record jsonPass =
  jp_duplicates :: bool
  jp_numbers :: "string list"

definition setKey :: "string \<Rightarrow> anyval \<Rightarrow> (string \<times> anyval) list \<Rightarrow> (string \<times> anyval) list" where
  "setKey k v m = filter (\<lambda>e. fst e \<noteq> k) m @ [(k, v)]"

abbreviation moreTokens :: "(token \<times> nat) list \<Rightarrow> bool" where
  "moreTokens ts \<equiv> ts \<noteq> [] \<and> fst (hd ts) \<noteq> TokRBrace \<and> fst (hd ts) \<noteq> TokRBrack"

text \<open>\<open>jsonPass.value\<close> past the two delimiters that open a container.\<close>

definition scalarValue :: "(nat \<times> string) list \<Rightarrow> jsonPass \<Rightarrow> token \<times> nat \<Rightarrow> (token \<times> nat) list
    \<Rightarrow> spec_error + anyval \<times> jsonPass \<times> (token \<times> nat) list" where
  "scalarValue ends p t rest = (case fst t of
      TokNum n0 \<Rightarrow>
        (let n = (case map_of ends (snd t) of Some c \<Rightarrow> c | None \<Rightarrow> n0)
         in Inr (ANumber n, p\<lparr>jp_numbers := jp_numbers p @ [n]\<rparr>, rest))
    | TokStr s \<Rightarrow> Inr (AStr s, p, rest)
    | TokBool b \<Rightarrow> Inr (ABool b, p, rest)
    | TokNull \<Rightarrow> Inr (ANil, p, rest)
    | _ \<Rightarrow> refuse ''json'')"

text \<open>\<open>jsonPass.value\<close> over the remaining tokens, its two loops as functions of their own. The first
  argument is fuel; \<open>parseJSON\<close> supplies enough.\<close>

function (sequential) jsonValue :: "nat \<Rightarrow> (nat \<times> string) list \<Rightarrow> jsonPass \<Rightarrow> (token \<times> nat) list \<Rightarrow> spec_error + anyval \<times> jsonPass \<times> (token \<times> nat) list"
  and jsonMembers :: "nat \<Rightarrow> (nat \<times> string) list \<Rightarrow> (string \<times> anyval) list \<Rightarrow> jsonPass \<Rightarrow> (token \<times> nat) list
    \<Rightarrow> spec_error + anyval \<times> jsonPass \<times> (token \<times> nat) list"
  and jsonElements :: "nat \<Rightarrow> (nat \<times> string) list \<Rightarrow> anyval list \<Rightarrow> jsonPass \<Rightarrow> (token \<times> nat) list
    \<Rightarrow> spec_error + anyval \<times> jsonPass \<times> (token \<times> nat) list" where
  "jsonValue 0 ends p ts = Inl SpecFuel"
| "jsonValue (Suc f) ends p ts =
     (if ts = [] then refuse ''json''
      else if fst (hd ts) = TokLBrace then jsonMembers f ends [] p (tl ts)
      else if fst (hd ts) = TokLBrack then jsonElements f ends [] p (tl ts)
      else scalarValue ends p (hd ts) (tl ts))"
| "jsonMembers 0 ends m p ts = Inl SpecFuel"
| "jsonMembers (Suc f) ends m p ts =
     (if moreTokens ts then
        (case fst (hd ts) of
           TokStr k \<Rightarrow>
             (case jsonValue f ends p (tl ts) of
                Inl e \<Rightarrow> Inl e
              | Inr (v, p, rest) \<Rightarrow>
                  jsonMembers f ends (setKey k v m) (if k \<in> fst ` set m then p\<lparr>jp_duplicates := True\<rparr> else p) rest)
         | _ \<Rightarrow> refuse ''json'')
      else if ts \<noteq> [] \<and> fst (hd ts) = TokRBrace then Inr (AObj m, p, tl ts)
      else refuse ''json'')"
| "jsonElements 0 ends xs p ts = Inl SpecFuel"
| "jsonElements (Suc f) ends xs p ts =
     (if moreTokens ts then
        (case jsonValue f ends p ts of Inl e \<Rightarrow> Inl e | Inr (v, p, rest) \<Rightarrow> jsonElements f ends (xs @ [v]) p rest)
      else if ts \<noteq> [] \<and> fst (hd ts) = TokRBrack then Inr (AArr xs, p, tl ts)
      else refuse ''json'')"
  by pat_completeness simp_all
termination
  by (relation "measure (\<lambda>x. case x of Inl (f, _) \<Rightarrow> f | Inr (Inl (f, _)) \<Rightarrow> f | Inr (Inr (f, _)) \<Rightarrow> f)") simp_all

definition rawInteger :: "string \<Rightarrow> spec_error + int" where
  "rawInteger s =
     (let digits = TrimPrefix s ''-'' in
      if length digits \<le> 19 \<and> \<not> ContainsAny s ''.eE'' \<and> digits \<noteq> ''''
      then (case ParseInt s of Some v \<Rightarrow> if v \<ge> 0 then Inr v else refuse ''integer'' | None \<Rightarrow> refuse ''integer'')
      else refuse ''integer'')"

text \<open>\<open>normalize\<close>; the numbers passed \<open>rawInteger\<close> before.\<close>

fun jsonNormalize :: "anyval \<Rightarrow> spec_error + anyval" where
  "jsonNormalize (ANumber n) = bindE (rawInteger n) (\<lambda>i. Inr (AInt i))"
| "jsonNormalize (AObj m) = bindE (mapE (\<lambda>(k, v). bindE (jsonNormalize v) (\<lambda>w. Inr (k, w))) m) (\<lambda>m. Inr (AObj m))"
| "jsonNormalize (AArr xs) = bindE (mapE jsonNormalize xs) (\<lambda>xs. Inr (AArr xs))"
| "jsonNormalize v = Inr v"

definition parseJSON :: "spec_env \<Rightarrow> string \<Rightarrow> spec_error + anyval" where
  "parseJSON env raw =
     bindE (byteRule raw) (\<lambda>_. bindE (depthCheck raw) (\<lambda>_.
       let (replaced, cs) = constants raw; (ts, eof) = se_tokens env replaced in
       bindE (jsonValue (2 * length ts + 2) cs \<lparr>jp_duplicates = False, jp_numbers = []\<rparr> ts) (\<lambda>(v, p, rest).
         if rest \<noteq> [] \<or> \<not> eof then refuse ''json''
         else if jp_duplicates p then refuse ''duplicate_key''
         else bindE (mapE rawInteger (jp_numbers p)) (\<lambda>_. jsonNormalize v))))"

section \<open>Writing\<close>

text \<open>\<open>json.Marshal\<close>: strings with HTML escaping, keys in byte order.\<close>

definition escapeRune :: "nat option \<Rightarrow> string \<Rightarrow> string" where
  "escapeRune r bytes = (case r of
     None \<Rightarrow> [CHR 0x5c] @ ''ufffd''
   | Some n \<Rightarrow>
     if n = 0x22 \<or> n = 0x5c then CHR 0x5c # bytes
     else if n = 8 then [CHR 0x5c, CHR ''b'']
     else if n = 9 then [CHR 0x5c, CHR ''t'']
     else if n = 10 then [CHR 0x5c, CHR ''n'']
     else if n = 12 then [CHR 0x5c, CHR ''f'']
     else if n = 13 then [CHR 0x5c, CHR ''r'']
     else if n < 0x20 \<or> n \<in> {0x3c, 0x3e, 0x26} then [CHR 0x5c] @ ''u00'' @ [hex_digit (n div 16), hex_digit (n mod 16)]
     else if n = 0x2028 then [CHR 0x5c] @ ''u2028''
     else if n = 0x2029 then [CHR 0x5c] @ ''u2029''
     else bytes)"

function escapeText :: "string \<Rightarrow> string" where
  "escapeText s = (if s = [] then [] else
     escapeRune (fst (decodeRune s)) (take (snd (decodeRune s)) s) @ escapeText (drop (snd (decodeRune s)) s))"
  by auto
termination by (relation "measure length") (use decodeRune_size in auto)

declare escapeText.simps [simp del]

definition marshalText :: "string \<Rightarrow> string" where
  "marshalText s = [CHR 0x22] @ escapeText s @ [CHR 0x22]"

fun key_less :: "string \<Rightarrow> string \<Rightarrow> bool" where
  "key_less _ [] = False"
| "key_less [] (_ # _) = True"
| "key_less (a # as) (b # bs) = (byte a < byte b \<or> byte a = byte b \<and> key_less as bs)"

fun insertKey :: "string \<times> 'a \<Rightarrow> (string \<times> 'a) list \<Rightarrow> (string \<times> 'a) list" where
  "insertKey e [] = [e]"
| "insertKey e (d # ds) = (if key_less (fst d) (fst e) then d # insertKey e ds else e # d # ds)"

definition sortKeys :: "(string \<times> 'a) list \<Rightarrow> (string \<times> 'a) list" where
  "sortKeys m = foldr insertKey m []"

fun joinComma :: "string list \<Rightarrow> string" where
  "joinComma [] = []"
| "joinComma [x] = x"
| "joinComma (x # y # ys) = x @ '','' @ joinComma (y # ys)"

definition marshalMember :: "string \<times> string \<Rightarrow> string" where
  "marshalMember e = marshalText (fst e) @ '':'' @ snd e"

fun marshalAny :: "(gofloat \<Rightarrow> string) \<Rightarrow> anyval \<Rightarrow> string option" where
  "marshalAny fl ANil = Some ''null''"
| "marshalAny fl (ABool b) = Some (if b then ''true'' else ''false'')"
| "marshalAny fl (AStr s) = Some (marshalText s)"
| "marshalAny fl (AInt n) = Some (itoa n)"
| "marshalAny fl (AFloat x) = (case x of FFinite _ \<Rightarrow> Some (fl x) | _ \<Rightarrow> None)"
| "marshalAny fl (ANumber n) = Some n"
| "marshalAny fl (AArr xs) = map_option (\<lambda>ts. ''['' @ joinComma ts @ '']'') (those (map (marshalAny fl) xs))"
| "marshalAny fl (AObj m) = map_option (\<lambda>ts. ''{'' @ joinComma (map marshalMember (sortKeys ts)) @ ''}'')
     (those (map (\<lambda>(k, v). map_option (\<lambda>t. (k, t)) (marshalAny fl v)) m))"
| "marshalAny fl AOther = None"

definition spec_canonical :: "spec_env \<Rightarrow> anyval \<Rightarrow> spec_error + string" where
  "spec_canonical env v = (case marshalAny (se_float env) v of Some b \<Rightarrow> Inr b | None \<Rightarrow> refuse ''input'')"

definition checkCanonical :: "spec_env \<Rightarrow> anyval \<Rightarrow> string \<Rightarrow> spec_error + unit" where
  "checkCanonical env v raw = bindE (spec_canonical env v) (\<lambda>b. need (raw = b) ''canonical_payload'')"

text \<open>\<open>Strict\<close> decoding refuses trailing bits, which the comparison with the encoding refuses as well.\<close>

definition b64decode :: "anyval \<Rightarrow> spec_error + string" where
  "b64decode v = (case v of
     AStr s \<Rightarrow>
       if s = '''' \<or> \<not> list_all (\<lambda>c. b64_val c \<noteq> None) s then refuse ''base64''
       else (case b64_DecodeString s of
           Some b \<Rightarrow> if b64_EncodeToString b = s then Inr b else refuse ''base64''
         | None \<Rightarrow> refuse ''base64'')
   | _ \<Rightarrow> refuse ''base64'')"

section \<open>Comparing\<close>

definition equalScalar :: "anyval \<Rightarrow> anyval \<Rightarrow> bool" where
  "equalScalar a b = (case a of
     ANil \<Rightarrow> b = ANil
   | ABool x \<Rightarrow> b = ABool x
   | AStr x \<Rightarrow> b = AStr x
   | AInt x \<Rightarrow> b = AInt x
   | AFloat x \<Rightarrow> x \<noteq> FNaN \<and> b = AFloat x
   | _ \<Rightarrow> False)"

text \<open>\<open>equal\<close> on trees, whose containers are not shared. Theory \<open>SpecEqual\<close> has the walk of the source over values in
  memory, with its identity sets, and that it agrees.\<close>

lemma size_member: "(k, v) \<in> set m \<Longrightarrow> size v < size (AObj m)"
  by (induction m) auto

lemma size_element: "v \<in> set xs \<Longrightarrow> size v < size (AArr xs)"
  by (induction xs) auto

function (sequential) spec_equal :: "anyval \<Rightarrow> anyval \<Rightarrow> bool" where
  "spec_equal (AObj x) b = (case b of
     AObj y \<Rightarrow> length x = length y \<and> list_all (\<lambda>(k, v). case map_of y k of None \<Rightarrow> False | Some w \<Rightarrow> spec_equal v w) x
   | _ \<Rightarrow> False)"
| "spec_equal (AArr x) b = (case b of
     AArr y \<Rightarrow> length x = length y \<and> list_all (\<lambda>(v, w). spec_equal v w) (zip x y)
   | _ \<Rightarrow> False)"
| "spec_equal a b = equalScalar a b"
  by pat_completeness auto
termination
  by (relation "measure (size \<circ> fst)") (auto dest!: set_zip_leftD simp: size_element size_member simp del: anyval.size)

end
