(* ===== verification/SpecEqual.thy ===== *)
theory SpecEqual
  imports SpecJSON
begin

text \<open>
  The comparison of \<open>json.go\<close> as it is written: an iterative walk over Go values that live in memory, with
  an identity set for each side, so that sharing or a cycle on either side is unequal. On values
  without sharing it is \<open>spec_equal\<close>.
\<close>

section \<open>Values in memory\<close>

text \<open>A map is a pointer; a slice is a pointer to its first element and a length, so that two views of one array differ.\<close>

datatype gval = GScalar anyval | GMap nat | GSlice nat nat

record gheap =
  gh_map :: "nat \<Rightarrow> (string \<times> gval) list"
  gh_elem :: "nat \<Rightarrow> gval"

datatype identity = IdMap nat | IdArray nat nat

definition sliceOf :: "gheap \<Rightarrow> nat \<Rightarrow> nat \<Rightarrow> gval list" where
  "sliceOf h p n = map (\<lambda>i. gh_elem h (p + i)) [0..<n]"

definition visit :: "identity list \<Rightarrow> identity \<Rightarrow> identity list option" where
  "visit met i = (if i \<in> set met then None else Some (i # met))"

text \<open>The frames a map pushes, or none when a key is missing on the right.\<close>

fun mapFrames :: "(string \<times> gval) list \<Rightarrow> (string \<times> gval) list \<Rightarrow> (gval \<times> gval) list option" where
  "mapFrames [] y = Some []"
| "mapFrames ((k, a) # x) y = (case map_of y k of
     None \<Rightarrow> None
   | Some b \<Rightarrow> map_option (\<lambda>fs. (a, b) # fs) (mapFrames x y))"

text \<open>One turn of the loop on the top frame: the frames it pushes and the identities met, or none for unequal.\<close>

definition equalFrame :: "gheap \<Rightarrow> gval \<Rightarrow> gval \<Rightarrow> identity list \<Rightarrow> identity list
    \<Rightarrow> ((gval \<times> gval) list \<times> identity list \<times> identity list) option" where
  "equalFrame h a b left right = (case a of
     GMap p \<Rightarrow> (case b of
         GMap q \<Rightarrow>
           (let x = gh_map h p; y = gh_map h q in
            if length x \<noteq> length y then None
            else if x = [] then Some ([], left, right)
            else Option.bind (visit left (IdMap p)) (\<lambda>left.
                 Option.bind (visit right (IdMap q)) (\<lambda>right.
                   map_option (\<lambda>fs. (fs, left, right)) (mapFrames x y))))
       | _ \<Rightarrow> None)
   | GSlice p n \<Rightarrow> (case b of
         GSlice q m \<Rightarrow>
           if n \<noteq> m then None
           else if n = 0 then Some ([], left, right)
           else Option.bind (visit left (IdArray p n)) (\<lambda>left.
                Option.bind (visit right (IdArray q m)) (\<lambda>right.
                  Some (zip (sliceOf h p n) (sliceOf h q m), left, right)))
       | _ \<Rightarrow> None)
   | GScalar v \<Rightarrow> (case b of GScalar w \<Rightarrow> if equalScalar v w then Some ([], left, right) else None | _ \<Rightarrow> None))"

text \<open>The loop, with fuel: \<open>None\<close> when it is not enough.\<close>

fun equalLoop :: "nat \<Rightarrow> gheap \<Rightarrow> (gval \<times> gval) list \<Rightarrow> identity list \<Rightarrow> identity list \<Rightarrow> bool option" where
  "equalLoop f h [] left right = Some True"
| "equalLoop 0 h (fr # stack) left right = None"
| "equalLoop (Suc f) h ((a, b) # stack) left right = (case equalFrame h a b left right of
     None \<Rightarrow> Some False
   | Some (fs, left, right) \<Rightarrow> equalLoop f h (fs @ stack) left right)"

section \<open>Trees in memory\<close>

text \<open>A value together with the places of its containers.\<close>

datatype gtree = TScalar anyval | TMap nat "(string \<times> gtree) list" | TArr nat "gtree list"

fun erase :: "gtree \<Rightarrow> anyval" where
  "erase (TScalar v) = v"
| "erase (TMap p ms) = AObj (map (\<lambda>(k, t). (k, erase t)) ms)"
| "erase (TArr p ts) = AArr (map erase ts)"

fun idents :: "gtree \<Rightarrow> identity list" where
  "idents (TScalar v) = []"
| "idents (TMap p ms) = (if ms = [] then [] else IdMap p # concat (map (\<lambda>(k, t). idents t) ms))"
| "idents (TArr p ts) = (if ts = [] then [] else IdArray p (length ts) # concat (map idents ts))"

fun scalar :: "anyval \<Rightarrow> bool" where
  "scalar (AArr _) \<longleftrightarrow> False"
| "scalar (AObj _) \<longleftrightarrow> False"
| "scalar _ \<longleftrightarrow> True"

fun place :: "gtree \<Rightarrow> gval" where
  "place (TScalar v) = GScalar v"
| "place (TMap p _) = GMap p"
| "place (TArr p ts) = GSlice p (length ts)"

text \<open>The tree is what the memory holds; the keys of a map are distinct.\<close>

fun located :: "gheap \<Rightarrow> gtree \<Rightarrow> bool" where
  "located h (TScalar v) \<longleftrightarrow> scalar v"
| "located h (TMap p ms) \<longleftrightarrow> distinct (map fst ms) \<and> gh_map h p = map (\<lambda>(k, t). (k, place t)) ms \<and> list_all (\<lambda>(k, t). located h t) ms"
| "located h (TArr p ts) \<longleftrightarrow> sliceOf h p (length ts) = map place ts \<and> list_all (located h) ts"

fun treeSize :: "gtree \<Rightarrow> nat" where
  "treeSize (TScalar v) = 1"
| "treeSize (TMap p ms) = Suc (sum_list (map (\<lambda>(k, t). treeSize t) ms))"
| "treeSize (TArr p ts) = Suc (sum_list (map treeSize ts))"

section \<open>The walk on trees\<close>

text \<open>Frames over trees: their identities are new on each side and met only once.\<close>

abbreviation frameOf :: "gtree \<times> gtree \<Rightarrow> gval \<times> gval" where
  "frameOf f \<equiv> (place (fst f), place (snd f))"

definition unshared :: "gheap \<Rightarrow> (gtree \<times> gtree) list \<Rightarrow> identity list \<Rightarrow> identity list \<Rightarrow> bool" where
  "unshared h fs left right \<longleftrightarrow> list_all (\<lambda>f. located h (fst f) \<and> located h (snd f)) fs
     \<and> distinct (concat (map (idents \<circ> fst) fs)) \<and> set (concat (map (idents \<circ> fst) fs)) \<inter> set left = {}
     \<and> distinct (concat (map (idents \<circ> snd) fs)) \<and> set (concat (map (idents \<circ> snd) fs)) \<inter> set right = {}"

lemma mapFrames_trees:
  "mapFrames (map (\<lambda>(k, t). (k, place t)) ms) (map (\<lambda>(k, t). (k, place t)) ns) =
     (if list_all (\<lambda>(k, t). map_of ns k \<noteq> None) ms then Some (map (\<lambda>(k, s). frameOf (s, the (map_of ns k))) ms) else None)"
proof (induction ms)
  case (Cons e ms)
  obtain k s where e: "e = (k, s)" by force
  have "map_of (map (\<lambda>(k, t). (k, place t)) ns) k = map_option place (map_of ns k)" by (simp add: map_of_map)
  then show ?case using Cons by (cases "map_of ns k") (auto simp: e)
qed simp

text \<open>The identities of the members found under distinct keys are distinct.\<close>

lemma idents_member:
  assumes "map_of ns k = Some t"
  shows "set (idents t) \<subseteq> set (concat (map (\<lambda>(k, t). idents t) ns))"
  using map_of_SomeD [OF assms] by force

lemma idents_members:
  assumes "distinct (concat (map (\<lambda>(k, t). idents t) ns))" "map_of ns k = Some t"
  shows "distinct (idents t)" "map_of ns l = Some u \<Longrightarrow> k \<noteq> l \<Longrightarrow> set (idents t) \<inter> set (idents u) = {}"
  using assms
proof (induction ns)
  case (Cons e ns)
  {
    case 1
    then show ?case using Cons.IH by (auto split: if_splits prod.splits)
  next
    case 2
    obtain m w where e: "e = (m, w)" by force
    show ?case
      using 2 Cons.IH(2) idents_member [of ns k t] idents_member [of ns l u] unfolding e by (auto split: if_splits)
  }
qed simp_all

lemma idents_keys:
  assumes "distinct (concat (map (\<lambda>(k, t). idents t) ns))" "distinct (map fst ms)" "list_all (\<lambda>(k, s). map_of ns k \<noteq> None) ms"
  shows "distinct (concat (map (\<lambda>(k, s). idents (the (map_of ns k))) ms))"
    "set (concat (map (\<lambda>(k, s). idents (the (map_of ns k))) ms)) \<subseteq> set (concat (map (\<lambda>(k, t). idents t) ns))"
  using assms(2,3)
proof (induction ms)
  case (Cons e ms)
  obtain k s where e: "e = (k, s)" by force
  {
    case 1
    then obtain t where t: "map_of ns k = Some t" using e by auto
    have "set (idents t) \<inter> set (idents (the (map_of ns l))) = {}" if "(l, u) \<in> set ms" for l u
    proof -
      have "l \<noteq> k" "map_of ns l \<noteq> None" using 1 that unfolding e by (force simp: list_all_iff)+
      then show ?thesis using idents_members(2) [OF assms(1) t, of l] by auto
    qed
    then have "set (idents t) \<inter> set (concat (map (\<lambda>(k, s). idents (the (map_of ns k))) ms)) = {}" by fastforce
    then show ?case using Cons.IH(1) 1 idents_members(1) [OF assms(1) t] by (simp add: e t)
  next
    case 2
    then obtain t where t: "map_of ns k = Some t" using e by auto
    then show ?case using 2 Cons.IH(2) idents_member [OF t] by (simp add: e t)
  }
qed simp_all

lemma equalFrame_scalar:
  assumes "located h (TScalar v)" "located h t"
  shows "equalFrame h (place (TScalar v)) (place t) left right = (if spec_equal v (erase t) then Some ([], left, right) else None)"
proof -
  have "spec_equal v w = equalScalar v w" for w using assms(1) by (cases v) simp_all
  moreover have "\<not> equalScalar v (AObj x)" "\<not> equalScalar v (AArr y)" for x y by (cases v; simp add: equalScalar_def)+
  ultimately show ?thesis by (cases t) (simp_all add: equalFrame_def)
qed

lemma spec_equal_map:
  "spec_equal (erase (TMap p ms)) (erase (TMap q ns)) \<longleftrightarrow> length ms = length ns \<and> list_all (\<lambda>(k, t). map_of ns k \<noteq> None) ms
     \<and> list_all (\<lambda>(s, t). spec_equal (erase s) (erase t)) (map (\<lambda>(k, s). (s, the (map_of ns k))) ms)"
proof -
  have "map_of (map (\<lambda>(k, t). (k, erase t)) ns) k = map_option erase (map_of ns k)" for k by (simp add: map_of_map)
  then show ?thesis by (auto simp: list_all_iff split: option.splits)
qed

lemma spec_equal_arr:
  "spec_equal (erase (TArr p ss)) (erase (TArr q ts)) \<longleftrightarrow> length ss = length ts \<and> list_all (\<lambda>(s, t). spec_equal (erase s) (erase t)) (zip ss ts)"
  by (auto simp: list_all_iff zip_map1 zip_map2)

lemma concat_zip: "length xs = length ys \<Longrightarrow> concat (map (f \<circ> fst) (zip xs ys)) = concat (map f xs)"
  "length xs = length ys \<Longrightarrow> concat (map (f \<circ> snd) (zip xs ys)) = concat (map f ys)"
  by (metis map_fst_zip map_map, metis map_snd_zip map_map)

text \<open>The frames of a pair of containers, on the trees.\<close>

fun childFrames :: "gtree \<Rightarrow> gtree \<Rightarrow> (gtree \<times> gtree) list" where
  "childFrames (TMap p ms) (TMap q ns) = map (\<lambda>(k, s). (s, the (map_of ns k))) ms"
| "childFrames (TArr p ss) (TArr q ts) = zip ss ts"
| "childFrames _ _ = []"

definition frame_result :: "gheap \<Rightarrow> gtree \<Rightarrow> gtree \<Rightarrow> (gtree \<times> gtree) list
    \<Rightarrow> ((gval \<times> gval) list \<times> identity list \<times> identity list) option \<Rightarrow> bool" where
  "frame_result h s t rest res = (case res of
     None \<Rightarrow> \<not> spec_equal (erase s) (erase t)
   | Some (fs, left, right) \<Rightarrow> fs = map frameOf (childFrames s t) \<and> unshared h (childFrames s t @ rest) left right
       \<and> (spec_equal (erase s) (erase t) \<longleftrightarrow> list_all (\<lambda>(s, t). spec_equal (erase s) (erase t)) (childFrames s t))
       \<and> sum_list (map (treeSize \<circ> fst) (childFrames s t)) < treeSize s)"

lemma unshared_step:
  assumes "unshared h ((s, t) # rest) left right" "list_all (\<lambda>f. located h (fst f) \<and> located h (snd f)) cs"
    "idents s = i # ls" "concat (map (idents \<circ> fst) cs) = ls" "idents t = j # rs" "distinct (concat (map (idents \<circ> snd) cs))"
    "set (concat (map (idents \<circ> snd) cs)) \<subseteq> set rs"
  shows "unshared h (cs @ rest) (i # left) (j # right)"
proof -
  define rest_l rest_r us where "rest_l = concat (map (idents \<circ> fst) rest)" and "rest_r = concat (map (idents \<circ> snd) rest)"
    and "us = concat (map (idents \<circ> snd) cs)"
  have "list_all (\<lambda>f. located h (fst f) \<and> located h (snd f)) rest" "distinct (i # ls @ rest_l)" "set (i # ls @ rest_l) \<inter> set left = {}"
    "distinct (j # rs @ rest_r)" "set (j # rs @ rest_r) \<inter> set right = {}"
    using assms(1) unfolding unshared_def rest_l_def rest_r_def by (simp_all add: assms(3,5))
  moreover have "distinct us" "set us \<subseteq> set rs" using assms(6,7) unfolding us_def .
  ultimately have "list_all (\<lambda>f. located h (fst f) \<and> located h (snd f)) (cs @ rest)" "distinct (ls @ rest_l)" "set (ls @ rest_l) \<inter> set (i # left) = {}"
    "distinct (us @ rest_r)" "set (us @ rest_r) \<inter> set (j # right) = {}" using assms(2) by auto
  then show ?thesis unfolding unshared_def map_append concat_append assms(4) rest_l_def rest_r_def us_def by blast
qed

lemma equalFrame_map:
  assumes "unshared h ((TMap p ms, TMap q ns) # rest) left right"
  shows "frame_result h (TMap p ms) (TMap q ns) rest (equalFrame h (GMap p) (GMap q) left right)"
proof -
  have loc: "distinct (map fst ms)" "gh_map h p = map (\<lambda>(k, t). (k, place t)) ms" "list_all (\<lambda>(k, t). located h t) ms"
    "gh_map h q = map (\<lambda>(k, t). (k, place t)) ns" "list_all (\<lambda>(k, t). located h t) ns" using assms by (simp_all add: unshared_def)
  consider "length ms \<noteq> length ns" | "ms = []" "ns = []" | "length ms = length ns" "ms \<noteq> []" "ns \<noteq> []" by force
  then show ?thesis
  proof cases
    case 1
    then show ?thesis by (simp add: frame_result_def equalFrame_def loc)
  next
    case 2
    then show ?thesis using assms by (simp add: frame_result_def equalFrame_def loc unshared_def)
  next
    case 3
    have fresh: "IdMap p \<notin> set left" "IdMap q \<notin> set right" using assms 3 by (simp_all add: unshared_def)
    then have eq: "equalFrame h (GMap p) (GMap q) left right = map_option (\<lambda>fs. (fs, IdMap p # left, IdMap q # right))
        (mapFrames (map (\<lambda>(k, t). (k, place t)) ms) (map (\<lambda>(k, t). (k, place t)) ns))"
      using 3 by (simp add: equalFrame_def loc visit_def)
    show ?thesis
    proof (cases "list_all (\<lambda>(k, t). map_of ns k \<noteq> None) ms")
      case False
      then show ?thesis using spec_equal_map [of p ms q ns] by (simp add: frame_result_def eq mapFrames_trees del: erase.simps)
    next
      case True
      let ?cs = "map (\<lambda>(k, s). (s, the (map_of ns k))) ms"
      have left: "concat (map (idents \<circ> fst) ?cs) = concat (map (\<lambda>(k, t). idents t) ms)"
        and right: "concat (map (idents \<circ> snd) ?cs) = concat (map (\<lambda>(k, s). idents (the (map_of ns k))) ms)"
        by (simp_all add: comp_def case_prod_unfold)
      have dn: "distinct (concat (map (\<lambda>(k, t). idents t) ns))" using assms 3 by (simp add: unshared_def)
      note keys = idents_keys [OF dn loc(1) True]
      have "list_all (\<lambda>f. located h (fst f) \<and> located h (snd f)) ?cs"
        using loc(3,5) True map_of_SomeD unfolding list_all_iff by fastforce
      moreover have "idents (TMap p ms) = IdMap p # concat (map (\<lambda>(k, t). idents t) ms)" "idents (TMap q ns) = IdMap q # concat (map (\<lambda>(k, t). idents t) ns)"
        using 3 by simp_all
      ultimately have "unshared h (?cs @ rest) (IdMap p # left) (IdMap q # right)"
        using unshared_step [OF assms _ _ left _ keys(1) [folded right] keys(2) [folded right]] by blast
      moreover have "sum_list (map (treeSize \<circ> fst) ?cs) = sum_list (map (\<lambda>(k, t). treeSize t) ms)" by (simp add: comp_def case_prod_unfold)
      moreover have "equalFrame h (GMap p) (GMap q) left right = Some (map frameOf ?cs, IdMap p # left, IdMap q # right)"
        unfolding eq mapFrames_trees if_P [OF True] by (simp add: case_prod_unfold comp_def)
      ultimately show ?thesis using True 3(1) spec_equal_map [of p ms q ns] unfolding frame_result_def by (simp del: erase.simps)
    qed
  qed
qed

lemma equalFrame_arr:
  assumes "unshared h ((TArr p ss, TArr q ts) # rest) left right"
  shows "frame_result h (TArr p ss) (TArr q ts) rest (equalFrame h (GSlice p (length ss)) (GSlice q (length ts)) left right)"
proof -
  have loc: "sliceOf h p (length ss) = map place ss" "list_all (located h) ss" "sliceOf h q (length ts) = map place ts" "list_all (located h) ts"
    using assms by (simp_all add: unshared_def)
  consider "length ss \<noteq> length ts" | "ss = []" "ts = []" | "length ss = length ts" "ss \<noteq> []" "ts \<noteq> []" by force
  then show ?thesis
  proof cases
    case 1
    then show ?thesis by (simp add: frame_result_def equalFrame_def)
  next
    case 2
    then show ?thesis using assms by (simp add: frame_result_def equalFrame_def unshared_def)
  next
    case 3
    have fresh: "IdArray p (length ss) \<notin> set left" "IdArray q (length ts) \<notin> set right" using assms 3 by (simp_all add: unshared_def)
    then have eq: "equalFrame h (GSlice p (length ss)) (GSlice q (length ts)) left right
        = Some (zip (map place ss) (map place ts), IdArray p (length ss) # left, IdArray q (length ts) # right)"
      using 3 loc by (simp add: equalFrame_def visit_def)
    have "list_all (\<lambda>f. located h (fst f) \<and> located h (snd f)) (zip ss ts)"
      using loc(2,4) unfolding list_all_iff by (auto dest: set_zip_leftD set_zip_rightD)
    then have "unshared h (zip ss ts @ rest) (IdArray p (length ss) # left) (IdArray q (length ts) # right)"
    proof (rule unshared_step [OF assms _ _ concat_zip(1) [OF 3(1)]])
      show "idents (TArr p ss) = IdArray p (length ss) # concat (map idents ss)" "idents (TArr q ts) = IdArray q (length ts) # concat (map idents ts)"
        using 3 by simp_all
      show "distinct (concat (map (idents \<circ> snd) (zip ss ts)))" using assms 3 unfolding concat_zip(2) [OF 3(1)] by (simp add: unshared_def)
      show "set (concat (map (idents \<circ> snd) (zip ss ts))) \<subseteq> set (concat (map idents ts))" unfolding concat_zip(2) [OF 3(1)] ..
    qed
    moreover have "sum_list (map (treeSize \<circ> fst) (zip ss ts)) = sum_list (map treeSize ss)" using 3(1) by (metis map_fst_zip map_map)
    moreover have "zip (map place ss) (map place ts) = map frameOf (zip ss ts)" by (simp add: zip_map1 zip_map2 case_prod_unfold)
    ultimately show ?thesis using 3(1) spec_equal_arr [of p ss q ts] unfolding frame_result_def eq by (simp del: erase.simps)
  qed
qed

lemma equalFrame_tree:
  assumes "unshared h ((s, t) # rest) left right"
  shows "frame_result h s t rest (equalFrame h (place s) (place t) left right)"
proof (cases s)
  case (TScalar v)
  have "located h (TScalar v)" "located h t" using assms TScalar by (simp_all add: unshared_def)
  note scalar = equalFrame_scalar [OF this, of left right]
  have "unshared h rest left right" using assms by (auto simp: unshared_def)
  then show ?thesis unfolding TScalar scalar frame_result_def by simp
next
  case (TMap p ms)
  show ?thesis
  proof (cases t)
    case (TMap q ns)
    then show ?thesis using equalFrame_map assms \<open>s = TMap p ms\<close> by simp
  qed (use TMap assms in \<open>auto simp: frame_result_def equalFrame_def unshared_def elim: scalar.elims\<close>)
next
  case (TArr p ss)
  show ?thesis
  proof (cases t)
    case (TArr q ts)
    then show ?thesis using equalFrame_arr assms \<open>s = TArr p ss\<close> by simp
  qed (use TArr assms in \<open>auto simp: frame_result_def equalFrame_def unshared_def elim: scalar.elims\<close>)
qed

lemma equalLoop_trees:
  assumes "unshared h fs left right" "sum_list (map (treeSize \<circ> fst) fs) \<le> f"
  shows "equalLoop f h (map frameOf fs) left right = Some (list_all (\<lambda>(s, t). spec_equal (erase s) (erase t)) fs)"
  using assms
proof (induction f arbitrary: fs left right)
  case 0
  have pos: "treeSize s \<noteq> 0" for s by (cases s) simp_all
  have "fs = []" using 0(2) by (cases fs) (simp_all add: pos)
  then show ?case by simp
next
  case (Suc f)
  show ?case
  proof (cases fs)
    case (Cons e rest)
    obtain s t where e: "e = (s, t)" by force
    have r: "frame_result h s t rest (equalFrame h (place s) (place t) left right)" using equalFrame_tree Suc.prems(1) Cons e by simp
    show ?thesis
    proof (cases "equalFrame h (place s) (place t) left right")
      case None
      then show ?thesis using r Cons e by (simp add: frame_result_def)
    next
      case (Some res)
      obtain cs l r' where res: "res = (cs, l, r')" by (cases res)
      have c: "cs = map frameOf (childFrames s t)" "unshared h (childFrames s t @ rest) l r'"
        "spec_equal (erase s) (erase t) \<longleftrightarrow> list_all (\<lambda>(s, t). spec_equal (erase s) (erase t)) (childFrames s t)"
        "sum_list (map (treeSize \<circ> fst) (childFrames s t)) < treeSize s"
        using r Some res by (simp_all add: frame_result_def)
      have "sum_list (map (treeSize \<circ> fst) (childFrames s t @ rest)) \<le> f" using c(4) Suc.prems(2) Cons e by (simp add: comp_def)
      from Suc.IH [OF c(2) this] show ?thesis using Some res c(1,3) Cons e by simp
    qed
  qed simp
qed

text \<open>(C29) The comparison walk is structural equality. On values in memory whose containers are not shared - on either side, empty ones
  apart - the walk with its two identity sets ends, and answers exactly whether the values are equal as trees, with map
  members matched by key and no coercion between booleans, integers and floats.\<close>
theorem equal_walk_structural:
  assumes "located h s" "located h t" "distinct (idents s)" "distinct (idents t)" "treeSize s \<le> f"
  shows "equalLoop f h [(place s, place t)] [] [] = Some (spec_equal (erase s) (erase t))"
  using equalLoop_trees [of h "[(s, t)]" "[]" "[]" f] assms by (simp add: unshared_def)

definition exHeap :: gheap where
  "exHeap = \<lparr>gh_map = (\<lambda>p. if p = 1 then [(''a'', GSlice 10 2), (''b'', GScalar (AInt 1))] else if p = 2 then [(''b'', GScalar (AInt 1)), (''a'', GSlice 20 2)] else []),
     gh_elem = (\<lambda>p. if p = 10 \<or> p = 20 then GScalar (ABool True) else GScalar ANil)\<rparr>"

theorem equal_walk_structural_witness: "equalLoop 9 exHeap [(GMap 1, GMap 2)] [] [] = Some True"
proof -
  let ?s = "TMap 1 [(''a'', TArr 10 [TScalar (ABool True), TScalar ANil]), (''b'', TScalar (AInt 1))]"
  let ?t = "TMap 2 [(''b'', TScalar (AInt 1)), (''a'', TArr 20 [TScalar (ABool True), TScalar ANil])]"
  have "located exHeap ?s" "located exHeap ?t" by (simp_all add: exHeap_def sliceOf_def)
  moreover have "distinct (idents ?s)" "distinct (idents ?t)" "treeSize ?s \<le> 9" by simp_all
  ultimately have "equalLoop 9 exHeap [(place ?s, place ?t)] [] [] = Some (spec_equal (erase ?s) (erase ?t))" by (rule equal_walk_structural)
  moreover have "spec_equal (erase ?s) (erase ?t)" by (simp add: equalScalar_def)
  ultimately show ?thesis by simp
qed

end
