(* ===== verification/SpecProtocol.thy ===== *)
theory SpecProtocol
  imports SpecJSON
begin

text \<open>
  The frozen wire contract of speculation (\<open>internal/speculation\<close>: \<open>protocol.go\<close>, \<open>cost.go\<close>, \<open>verdict.go\<close>,
  \<open>shadow_refresh.go\<close>): signed grants and descriptors, acceptance, renewal, the cost ceiling and the
  classification of denials. SHA-256 and Ed25519 are parameters of the environment. Integers of
  a claims object passed the check of \<open>object\<close>, so that \<open>number\<close> reads them (\<open>numOf\<close>); they are
  non-negative \<open>int64\<close>, so the differences of timestamps do not wrap.
\<close>

section \<open>Cost\<close>

definition costStep :: "int \<Rightarrow> int \<Rightarrow> int \<Rightarrow> spec_error + int" where
  "costStep total_micro count rate =
     bindE (need (rate = 0 \<or> count \<le> i64_quot MaxInt64 rate) ''overflow'') (\<lambda>_.
       let product = i64_mul count rate;
           rounded = (if i64_rem product 1000000 \<noteq> 0 then i64_add (i64_quot product 1000000) 1 else i64_quot product 1000000)
       in bindE (need (total_micro \<le> i64_sub MaxInt64 rounded) ''overflow'') (\<lambda>_. Inr (i64_add total_micro rounded)))"

definition CostCeiling :: "anyval \<Rightarrow> anyval \<Rightarrow> anyval \<Rightarrow> anyval \<Rightarrow> anyval \<Rightarrow> spec_error + int" where
  "CostCeiling inputBound inputRate outputLimit outputRate fees =
     bindE (mapE spec_integer [inputBound, inputRate, outputLimit, outputRate, fees]) (\<lambda>n.
     bindE (costStep (n ! 4) (n ! 0) (n ! 1)) (\<lambda>t. costStep t (n ! 2) (n ! 3)))"

definition WorkspaceAllowance :: "anyval \<Rightarrow> anyval \<Rightarrow> spec_error + int" where
  "WorkspaceAllowance tierCeiling paidHeadroom =
     bindE (spec_integer tierCeiling) (\<lambda>tier. bindE (spec_integer paidHeadroom) (\<lambda>paid.
       Inr (min (i64_quot tier 100) (min (i64_quot paid 10) 1000000))))"

section \<open>Signed tokens\<close>

definition RealTyp :: string where "RealTyp = ''speculation-eligibility+jws''"
definition ShadowTyp :: string where "ShadowTyp = ''speculation-eligibility-shadow+jws''"
definition DescriptorTyp :: string where "DescriptorTyp = ''speculation-descriptor+jws''"
definition Margin :: int where "Margin = 2"

record TrustedKey =
  tk_Kid :: string
  tk_Purpose :: string
  tk_PublicKeyB64URL :: anyval
  tk_Iss :: string
  tk_Aud :: string
  tk_Environment :: string
  tk_Plane :: string

record VerifiedGrant =
  vg_compact :: string
  vg_payload :: string
  vg_shadow :: bool
  vg_startDeadline :: int

record VerifiedDescriptor =
  vd_compact :: string
  vd_payload :: string

type_synonym claims = "(string \<times> anyval) list"

definition claimsObject :: "spec_env \<Rightarrow> string \<Rightarrow> spec_error + claims" where
  "claimsObject env payload = bindE (parseJSON env payload) (\<lambda>v. case v of AObj m \<Rightarrow> Inr m | _ \<Rightarrow> refuse ''input'')"

definition spec_digest :: "spec_env \<Rightarrow> string \<Rightarrow> string" where
  "spec_digest env b = hex_EncodeToString (se_sha256 env b)"

definition verifySignature :: "spec_env \<Rightarrow> TrustedKey \<Rightarrow> string \<Rightarrow> string \<Rightarrow> spec_error + unit" where
  "verifySignature env key signature message = (case b64decode (tk_PublicKeyB64URL key) of
     Inl _ \<Rightarrow> refuse ''signature''
   | Inr public \<Rightarrow>
     bindE (need (length public = 32 \<and> length signature = 64) ''signature'') (\<lambda>_.
       need (se_verify env public message signature) ''signature''))"

definition tokenParts :: "anyval \<Rightarrow> spec_error + string \<times> string \<times> string" where
  "tokenParts token = (case token of
     AStr s \<Rightarrow>
       if length (runes s) \<le> 65536 \<and> length (filter (\<lambda>c. c = CHR ''.'') s) = 2
       then Inr (SplitAt (CHR ''.'') s ! 0, SplitAt (CHR ''.'') s ! 1, SplitAt (CHR ''.'') s ! 2)
       else refuse ''compact''
   | _ \<Rightarrow> refuse ''compact'')"

definition headerKey :: "spec_env \<Rightarrow> string \<Rightarrow> TrustedKey list \<Rightarrow> string \<Rightarrow> string \<Rightarrow> spec_error + TrustedKey" where
  "headerKey env part keys typ purpose =
     bindE (b64decode (AStr part)) (\<lambda>hb.
     bindE (parseJSON env hb) (\<lambda>v.
     bindE (spec_object v ''alg kid typ'' '''' '''') (\<lambda>h.
     bindE (spec_canonical env (AObj h)) (\<lambda>b.
     bindE (need (hb = b) ''canonical_header'') (\<lambda>_.
     bindE (need (fieldOf h ''alg'' = AStr ''EdDSA'') ''algorithm'') (\<lambda>_.
     bindE (need (fieldOf h ''typ'' = AStr typ) ''type'') (\<lambda>_.
       (case filter (\<lambda>k. AStr (tk_Kid k) = fieldOf h ''kid'') keys of
          [key] \<Rightarrow> bindE (need (tk_Purpose key = purpose) ''purpose'') (\<lambda>_. Inr key)
        | _ \<Rightarrow> refuse ''key''))))))))"

definition spec_verify :: "spec_env \<Rightarrow> anyval \<Rightarrow> TrustedKey list \<Rightarrow> string \<Rightarrow> string \<Rightarrow> spec_error + claims \<times> TrustedKey \<times> string" where
  "spec_verify env token keys typ purpose =
     bindE (tokenParts token) (\<lambda>(p0, p1, p2).
     bindE (headerKey env p0 keys typ purpose) (\<lambda>key.
     bindE (b64decode (AStr p1)) (\<lambda>payload.
     bindE (byteRule payload) (\<lambda>_.
     bindE (b64decode (AStr p2)) (\<lambda>signature.
     bindE (verifySignature env key signature (p0 @ ''.'' @ p1)) (\<lambda>_.
     bindE (parseJSON env payload) (\<lambda>v.
       (case v of AObj c \<Rightarrow> Inr (c, key, payload) | _ \<Rightarrow> refuse ''fields''))))))))"

section \<open>Grants\<close>

definition grantStrings :: string where
  "grantStrings = ''iss aud environment plane workspace_id key_id lookup_digest boot_id stable_slot_id region grant_id''"

definition grantIntegers :: string where
  "grantIntegers = ''v generation workspace_epoch key_epoch image_policy_version tier paid_headroom_micro iat exp start_before key_expires_at trust_fresh_until per_request_ceiling_micro''"

definition routeStrings :: string where
  "routeStrings = ''endpoint_id provider upstream_model region routing_policy_hash catalog_hash privacy input_bound_method''"

definition routeIntegers :: string where
  "routeIntegers = ''adapter_capability_version input_bound output_limit input_rate_micro_per_m output_rate_micro_per_m maximum_request_fees_micro price_expires_at''"

definition spec_bindings :: string where
  "spec_bindings = ''workspace_id key_id lookup_digest boot_id stable_slot_id region generation workspace_epoch key_epoch image_policy_version''"

definition historyIntegers :: string where
  "historyIntegers = ''clean_since count last_success_at sequence window_start''"

definition routeSchema :: "anyval \<Rightarrow> spec_error + claims" where
  "routeSchema v =
     bindE (spec_object v routeStrings routeIntegers ''stage_d'') (\<lambda>m.
       (case fieldOf m ''stage_d'' of ABool _ \<Rightarrow> Inr m | _ \<Rightarrow> refuse ''stage_d''))"

definition grantSchema :: "claims \<Rightarrow> spec_error + unit" where
  "grantSchema c =
     bindE (spec_object (AObj c) grantStrings grantIntegers ''history route permits'') (\<lambda>_.
     bindE (routeSchema (fieldOf c ''route'')) (\<lambda>_.
     bindE (spec_object (fieldOf c ''history'') '''' historyIntegers '''') (\<lambda>_.
       (case fieldOf c ''permits'' of
          AArr p \<Rightarrow>
            if p \<noteq> [] then bindE (mapE (\<lambda>v. spec_object v '''' ''ordinal b_micro'' '''') p) (\<lambda>_. Inr ()) else refuse ''permits''
        | _ \<Rightarrow> refuse ''permits''))))"

definition numOf :: "claims \<Rightarrow> string \<Rightarrow> int" where
  "numOf m k = (case fieldOf m k of AInt n \<Rightarrow> n | _ \<Rightarrow> 0)"

definition objOf :: "claims \<Rightarrow> string \<Rightarrow> claims" where
  "objOf m k = (case fieldOf m k of AObj x \<Rightarrow> x | _ \<Rightarrow> [])"

definition arrOf :: "claims \<Rightarrow> string \<Rightarrow> anyval list" where
  "arrOf m k = (case fieldOf m k of AArr x \<Rightarrow> x | _ \<Rightarrow> [])"

text \<open>Identity and bindings, up to the complete approved route.\<close>

definition grantIdentity :: "claims \<Rightarrow> TrustedKey \<Rightarrow> claims \<Rightarrow> spec_error + unit" where
  "grantIdentity c key context =
     bindE (need (fieldOf c ''v'' = AInt 1) ''version'') (\<lambda>_.
     bindE (need (list_all (\<lambda>(name, pinned). spec_equal (fieldOf c name) (AStr pinned))
        [(''iss'', tk_Iss key), (''aud'', tk_Aud key), (''environment'', tk_Environment key), (''plane'', tk_Plane key)]) ''identity'') (\<lambda>_.
     bindE (hashValue (fieldOf c ''lookup_digest'')) (\<lambda>_.
       need (list_all (\<lambda>f. case map_of context f of None \<Rightarrow> False | Some v \<Rightarrow> spec_equal (fieldOf c f) v) (Fields spec_bindings)) ''binding'')))"

definition grantRoute :: "claims \<Rightarrow> claims \<Rightarrow> spec_error + unit" where
  "grantRoute c context =
     (let route = objOf c ''route'' in
      bindE (hashValue (fieldOf route ''routing_policy_hash'')) (\<lambda>_.
      bindE (hashValue (fieldOf route ''catalog_hash'')) (\<lambda>_.
      bindE (need (fieldOf route ''stage_d'' = ABool True) ''stage_d'') (\<lambda>_.
      bindE (routeSchema (fieldOf context ''route'')) (\<lambda>_.
      bindE (need (spec_equal (AObj route) (fieldOf context ''route'')) ''route'') (\<lambda>_.
      bindE (need (spec_equal (fieldOf route ''region'') (fieldOf c ''region'')) ''route'') (\<lambda>_.
      bindE (need (numOf route ''input_bound'' > 0 \<and> numOf route ''input_bound'' \<le> 8192
                 \<and> numOf route ''output_limit'' > 0 \<and> numOf route ''output_limit'' \<le> 512) ''token_bound'') (\<lambda>_.
        need (numOf route ''adapter_capability_version'' > 0) ''adapter''))))))))"

definition grantHistory :: "claims \<Rightarrow> spec_error + unit" where
  "grantHistory c =
     (let history = objOf c ''history''; issued = numOf c ''iat''; window = numOf history ''window_start'';
          last = numOf history ''last_success_at''; clean = numOf history ''clean_since'' in
      bindE (need (fieldOf c ''tier'' = AInt 2 \<or> fieldOf c ''tier'' = AInt 3) ''tier'') (\<lambda>_.
      bindE (need (numOf c ''paid_headroom_micro'' \<ge> 5000000) ''paid_headroom'') (\<lambda>_.
      bindE (need (numOf history ''count'' \<ge> 20 \<and> numOf history ''sequence'' \<ge> numOf history ''count'') ''history_count'') (\<lambda>_.
        need (issued - 600 \<le> window \<and> window \<le> last \<and> last \<le> issued \<and> last \<ge> issued - 30 \<and> clean \<le> issued - 900) ''history_time''))))"

definition startDeadline :: "claims \<Rightarrow> int" where
  "startDeadline c =
     (let route = objOf c ''route'' in
      min (numOf c ''start_before'') (min (numOf c ''exp'' - Margin) (min (numOf c ''key_expires_at'' - Margin)
        (min (numOf route ''price_expires_at'' - Margin) (numOf c ''trust_fresh_until'' - Margin)))))"

definition grantWindow :: "claims \<Rightarrow> int \<Rightarrow> spec_error + unit" where
  "grantWindow c clock =
     (let issued = numOf c ''iat'' in
      bindE (need (numOf c ''exp'' - issued > 0 \<and> numOf c ''exp'' - issued \<le> 30 \<and> issued < numOf c ''start_before'') ''lifetime'') (\<lambda>_.
        need (issued \<le> clock \<and> clock < startDeadline c) ''start_window''))"

fun permitLoop :: "int \<Rightarrow> int \<Rightarrow> int list \<Rightarrow> int \<Rightarrow> anyval list \<Rightarrow> spec_error + int" where
  "permitLoop b ceil_micro seen total_micro [] = Inr total_micro"
| "permitLoop b ceil_micro seen total_micro (v # vs) =
     (let p = (case v of AObj m \<Rightarrow> m | _ \<Rightarrow> []); ordinal = numOf p ''ordinal''; amount = numOf p ''b_micro'' in
      if ordinal \<in> set seen then refuse ''ordinal''
      else if \<not> (b \<le> amount \<and> amount \<le> ceil_micro) then refuse ''permit_cost''
      else permitLoop b ceil_micro (ordinal # seen) (i64_add total_micro amount) vs)"

definition grantCost :: "claims \<Rightarrow> claims \<Rightarrow> spec_error + unit" where
  "grantCost c context =
     (let route = objOf c ''route''; ceil_micro = numOf c ''per_request_ceiling_micro'' in
      bindE (need (ceil_micro > 0 \<and> ceil_micro \<le> 10000) ''ceiling'') (\<lambda>_.
      bindE (CostCeiling (fieldOf route ''input_bound'') (fieldOf route ''input_rate_micro_per_m'') (fieldOf route ''output_limit'')
        (fieldOf route ''output_rate_micro_per_m'') (fieldOf route ''maximum_request_fees_micro'')) (\<lambda>b.
      bindE (need (b > 0 \<and> b \<le> ceil_micro) ''cost'') (\<lambda>_.
      bindE (permitLoop b ceil_micro [] 0 (arrOf c ''permits'')) (\<lambda>total_micro.
      bindE (need (map_of context ''tier_ceiling_micro'' \<noteq> None) ''tier_ceiling'') (\<lambda>_.
      bindE (WorkspaceAllowance (fieldOf context ''tier_ceiling_micro'') (fieldOf c ''paid_headroom_micro'')) (\<lambda>allowance.
        need (total_micro \<le> allowance) ''allowance'')))))))"

definition VerifyGrant :: "spec_env \<Rightarrow> anyval \<Rightarrow> TrustedKey list \<Rightarrow> claims \<Rightarrow> anyval \<Rightarrow> bool \<Rightarrow> spec_error + VerifiedGrant" where
  "VerifyGrant env token keys context now shadow =
     bindE (spec_integer now) (\<lambda>clock.
     bindE (spec_verify env token keys (if shadow then ShadowTyp else RealTyp) (if shadow then ''shadow-grant'' else ''grant'')) (\<lambda>(c, key, payload).
     bindE (grantSchema c) (\<lambda>_.
     bindE (checkCanonical env (AObj c) payload) (\<lambda>_.
     bindE (grantIdentity c key context) (\<lambda>_.
     bindE (grantRoute c context) (\<lambda>_.
     bindE (grantHistory c) (\<lambda>_.
     bindE (grantWindow c clock) (\<lambda>_.
     bindE (grantCost c context) (\<lambda>_.
       Inr \<lparr>vg_compact = (case token of AStr s \<Rightarrow> s | _ \<Rightarrow> ''''), vg_payload = payload, vg_shadow = shadow,
            vg_startDeadline = startDeadline c\<rparr>)))))))))"

definition grant_Claims :: "spec_env \<Rightarrow> VerifiedGrant \<Rightarrow> spec_error + claims" where
  "grant_Claims env g = claimsObject env (vg_payload g)"

definition descriptor_Claims :: "spec_env \<Rightarrow> VerifiedDescriptor \<Rightarrow> spec_error + claims" where
  "descriptor_Claims env d = claimsObject env (vd_payload d)"

text \<open>A refresh keeps every binding but the two health epochs, which come from the signed claims.\<close>

definition VerifyShadowRefreshGrant :: "spec_env \<Rightarrow> anyval \<Rightarrow> TrustedKey list \<Rightarrow> claims \<Rightarrow> anyval \<Rightarrow> spec_error + VerifiedGrant" where
  "VerifyShadowRefreshGrant env token keys context now =
     bindE (spec_verify env token keys ShadowTyp ''shadow-grant'') (\<lambda>(c, _, _).
       VerifyGrant env token keys
         (setKey ''key_epoch'' (fieldOf c ''key_epoch'') (setKey ''workspace_epoch'' (fieldOf c ''workspace_epoch'') context)) now True)"

section \<open>Descriptors\<close>

definition descriptorStrings :: string where
  "descriptorStrings = ''grant_id grant_sha256 execution_id invocation_nonce request_sha256 routing_policy_hash endpoint_id workspace_id key_id boot_id''"

definition descriptorIntegers :: string where
  "descriptorIntegers = ''v ordinal b_micro workspace_epoch key_epoch''"

text \<open>The loop over the permits of the grant: whether one has the ordinal and the amount.\<close>

fun permitFound :: "anyval \<Rightarrow> anyval \<Rightarrow> bool \<Rightarrow> anyval list \<Rightarrow> spec_error + bool" where
  "permitFound ordinal b found [] = Inr found"
| "permitFound ordinal b found (v # vs) = (case v of
     AObj p \<Rightarrow> permitFound ordinal b (found \<or> spec_equal (fieldOf p ''ordinal'') ordinal \<and> spec_equal (fieldOf p ''b_micro'') b) vs
   | _ \<Rightarrow> refuse ''input'')"

definition descriptorBinds :: "spec_env \<Rightarrow> claims \<Rightarrow> TrustedKey \<Rightarrow> VerifiedGrant \<Rightarrow> claims \<Rightarrow> string \<Rightarrow> anyval \<Rightarrow> anyval \<Rightarrow> spec_error + unit" where
  "descriptorBinds env c key grant g requestBytes executionID invocationNonce =
     bindE (need (spec_equal (AStr (tk_Kid key)) (fieldOf g ''boot_id'')) ''descriptor_boot'') (\<lambda>_.
     bindE (need (list_all (\<lambda>f. spec_equal (fieldOf c f) (fieldOf g f))
        (Fields ''grant_id workspace_id key_id boot_id workspace_epoch key_epoch'')) ''descriptor_binding'') (\<lambda>_.
     bindE (need (fieldOf c ''grant_sha256'' = AStr (spec_digest env (vg_compact grant))) ''grant_hash'') (\<lambda>_.
     bindE (need (fieldOf c ''request_sha256'' = AStr (spec_digest env requestBytes)) ''request_hash'') (\<lambda>_.
       need (spec_equal (fieldOf c ''execution_id'') executionID \<and> spec_equal (fieldOf c ''invocation_nonce'') invocationNonce) ''invocation''))))"

definition descriptorPermit :: "claims \<Rightarrow> claims \<Rightarrow> spec_error + unit" where
  "descriptorPermit c g = (case fieldOf g ''route'' of
     AObj route \<Rightarrow>
       bindE (need (list_all (\<lambda>f. spec_equal (fieldOf c f) (fieldOf route f)) [''endpoint_id'', ''routing_policy_hash'']) ''descriptor_route'') (\<lambda>_.
         (case fieldOf g ''permits'' of
            AArr permits \<Rightarrow>
              bindE (permitFound (fieldOf c ''ordinal'') (fieldOf c ''b_micro'') False permits) (\<lambda>found. need found ''descriptor_permit'')
          | _ \<Rightarrow> refuse ''input''))
   | _ \<Rightarrow> refuse ''input'')"

definition VerifyDescriptor :: "spec_env \<Rightarrow> anyval \<Rightarrow> TrustedKey list \<Rightarrow> VerifiedGrant \<Rightarrow> string \<Rightarrow> anyval \<Rightarrow> anyval
    \<Rightarrow> spec_error + VerifiedDescriptor" where
  "VerifyDescriptor env token keys grant requestBytes executionID invocationNonce =
     bindE (need (\<not> vg_shadow grant) ''dry_run_cannot_dispatch'') (\<lambda>_.
     bindE (spec_verify env token keys DescriptorTyp ''descriptor'') (\<lambda>(c, key, payload).
     bindE (spec_object (AObj c) descriptorStrings descriptorIntegers '''') (\<lambda>_.
     bindE (checkCanonical env (AObj c) payload) (\<lambda>_.
     bindE (need (fieldOf c ''v'' = AInt 1) ''version'') (\<lambda>_.
     bindE (mapE (\<lambda>f. hashValue (fieldOf c f)) [''grant_sha256'', ''request_sha256'', ''routing_policy_hash'']) (\<lambda>_.
     bindE (claimsObject env (vg_payload grant)) (\<lambda>g.
     bindE (descriptorBinds env c key grant g requestBytes executionID invocationNonce) (\<lambda>_.
     bindE (descriptorPermit c g) (\<lambda>_.
       Inr \<lparr>vd_compact = (case token of AStr s \<Rightarrow> s | _ \<Rightarrow> ''''), vd_payload = payload\<rparr>)))))))))"

section \<open>Acceptance, renewal and replay\<close>

definition acceptMarker :: "spec_env \<Rightarrow> claims \<Rightarrow> claims \<Rightarrow> VerifiedDescriptor \<Rightarrow> claims \<Rightarrow> spec_error + string" where
  "acceptMarker env marker d descriptor authorization =
     bindE (need (fieldOf marker ''v'' = AInt 1) ''version'') (\<lambda>_.
     bindE (hashValue (fieldOf marker ''descriptor_sha256'')) (\<lambda>_.
     bindE (hashValue (fieldOf marker ''routing_policy_hash'')) (\<lambda>_.
     bindE (need (fieldOf marker ''descriptor_sha256'' = AStr (spec_digest env (vd_compact descriptor))) ''descriptor_hash'') (\<lambda>_.
     bindE (need (list_all (\<lambda>f. spec_equal (fieldOf marker f) (fieldOf d f)) [''invocation_nonce'', ''endpoint_id'', ''routing_policy_hash''])
        ''marker_binding'') (\<lambda>_.
     bindE (need (list_all (\<lambda>f. spec_equal (fieldOf authorization f) (case map_of marker f of Some v \<Rightarrow> v | None \<Rightarrow> fieldOf d f))
        (Fields ''authorization_id invocation_nonce endpoint_id routing_policy_hash workspace_id key_id'')) ''authorization'') (\<lambda>_.
     bindE (need (fieldOf authorization ''billing_mode'' = AStr ''ordinary'' \<and> fieldOf authorization ''stage_d'' = ABool True) ''authorization'') (\<lambda>_.
       Inr ''accepted'')))))))"

definition VerifyAcceptance :: "spec_env \<Rightarrow> claims \<Rightarrow> VerifiedDescriptor \<Rightarrow> claims \<Rightarrow> spec_error + string" where
  "VerifyAcceptance env response descriptor authorization =
     bindE (need (spec_equal (fieldOf response ''authorization'') (AObj authorization)) ''authorization'') (\<lambda>_.
     bindE (claimsObject env (vd_payload descriptor)) (\<lambda>d.
     bindE (need (list_all (\<lambda>f. spec_equal (fieldOf authorization f) (fieldOf d f)) [''invocation_nonce'', ''workspace_id'', ''key_id''])
        ''authorization'') (\<lambda>_.
     bindE (stringValue (fieldOf authorization ''authorization_id'')) (\<lambda>_.
     bindE (need (fieldOf authorization ''billing_mode'' = AStr ''ordinary'') ''authorization'') (\<lambda>_.
       (case map_of response ''speculation_accepted'' of
          None \<Rightarrow> Inr ''ordinary''
        | Some v \<Rightarrow>
          bindE (spec_object v ''descriptor_sha256 invocation_nonce authorization_id endpoint_id routing_policy_hash'' ''v'' '''') (\<lambda>marker.
            acceptMarker env marker d descriptor authorization)))))))"

text \<open>The comparison of two numbers; the conjunction of the source stops at the first that fails.\<close>

fun orderedNumbers :: "claims \<Rightarrow> claims \<Rightarrow> (string \<times> (int \<Rightarrow> int \<Rightarrow> bool)) list \<Rightarrow> spec_error + bool" where
  "orderedNumbers new old [] = Inr True"
| "orderedNumbers new old ((k, cmp) # ks) =
     bindE (spec_number new k) (\<lambda>n. bindE (spec_number old k) (\<lambda>m.
       if cmp n m then orderedNumbers new old ks else Inr False))"

definition RenewalVerdict :: "spec_env \<Rightarrow> VerifiedGrant \<Rightarrow> VerifiedGrant \<Rightarrow> spec_error + string" where
  "RenewalVerdict env previous candidate =
     (if vg_compact previous = vg_compact candidate then Inr ''replay''
      else
        bindE (claimsObject env (vg_payload previous)) (\<lambda>old.
        bindE (claimsObject env (vg_payload candidate)) (\<lambda>new.
        bindE (need (vg_shadow previous = vg_shadow candidate) ''renewal'') (\<lambda>_.
        bindE (need (list_all (\<lambda>f. spec_equal (fieldOf old f) (fieldOf new f))
           (Fields ''workspace_id key_id lookup_digest boot_id stable_slot_id iss aud environment plane region'')) ''renewal'') (\<lambda>_.
        bindE (if spec_equal (fieldOf new ''grant_id'') (fieldOf old ''grant_id'') then Inr False
               else orderedNumbers new old [(''generation'', (>)), (''iat'', (\<ge>)), (''workspace_epoch'', (\<ge>)), (''key_epoch'', (\<ge>))]) (\<lambda>ok.
        bindE (need ok ''renewal'') (\<lambda>_.
          (case (fieldOf old ''history'', fieldOf new ''history'') of
             (AObj oh, AObj nh) \<Rightarrow>
               bindE (spec_number nh ''sequence'') (\<lambda>n. bindE (spec_number oh ''sequence'') (\<lambda>m.
                 bindE (need (n \<ge> m) ''renewal'') (\<lambda>_. Inr ''renewed'')))
           | _ \<Rightarrow> refuse ''input''))))))))"

definition DescriptorReplay :: "VerifiedDescriptor \<Rightarrow> VerifiedDescriptor \<Rightarrow> spec_error + string" where
  "DescriptorReplay previous candidate =
     bindE (need (vd_compact previous = vd_compact candidate) ''replay_conflict'') (\<lambda>_. Inr ''replay'')"

section \<open>Denials\<close>

definition workspaceReasons :: string where
  "workspaceReasons = ''credit_exhausted billing_denied trust_ineligible trust_demoted abuse_latched payment_failed trust_reconciliation_stale workspace_paused billing_paused''"

definition keyReasons :: string where
  "keyReasons = ''key_revoked key_disabled key_expired key_invalid key_limit_exceeded key_window_limit_exceeded key_strict_limit_exceeded key_spend_limit_imposed''"

definition spec_member :: "string \<Rightarrow> string \<Rightarrow> bool" where
  "spec_member s words \<longleftrightarrow> s \<in> set (Fields words)"

record VerdictInput =
  vi_Source :: string
  vi_Status :: anyval
  vi_Reason :: string
  vi_WorkspaceID :: string
  vi_KeyID :: string
  vi_RateScope :: string

record Verdict =
  ve_DiscardThisExecution :: bool
  ve_DurableScope :: string
  ve_LocalInfrastructureBreaker :: string
  ve_CommitRequiredWithRealRights :: bool
  ve_CommitRequiredShadowOnly :: bool
  ve_StorageFailureStatusWithRealRights :: int

definition ClassifyVerdict :: "VerdictInput \<Rightarrow> spec_error + Verdict" where
  "ClassifyVerdict i =
     bindE (need (vi_Source i = ''authenticated_router'') ''verdict_source'') (\<lambda>_.
     bindE (spec_integer (vi_Status i)) (\<lambda>status.
     bindE (need (status \<ge> 400 \<and> status \<le> 599) ''verdict_status'') (\<lambda>_.
       let scope = (if spec_member (vi_Reason i) keyReasons \<and> vi_WorkspaceID i \<noteq> '''' \<and> vi_KeyID i \<noteq> '''' then ''key''
             else if vi_WorkspaceID i \<noteq> '''' \<and> (spec_member (vi_Reason i) workspaceReasons \<or> status = 402) then ''workspace''
             else if status = 429 \<and> vi_WorkspaceID i \<noteq> ''''
             then (if vi_RateScope i = ''key'' \<and> vi_KeyID i \<noteq> '''' then ''key'' else ''workspace'')
             else ''none'');
           breaker = (if scope = ''none'' \<and> (status \<ge> 500
               \<or> spec_member (vi_Reason i) ''authorize_timeout transport_error infrastructure_error'') then ''key_boot'' else ''none'')
       in Inr \<lparr>ve_DiscardThisExecution = True, ve_DurableScope = scope, ve_LocalInfrastructureBreaker = breaker,
            ve_CommitRequiredWithRealRights = (scope \<noteq> ''none''), ve_CommitRequiredShadowOnly = False,
            ve_StorageFailureStatusWithRealRights = (if scope \<noteq> ''none'' then 503 else status)\<rparr>)))"

end
