(* ===== verification/SpecLaws.thy ===== *)
theory SpecLaws
  imports SpecProtocol
begin

text \<open>
  Lemmas on the speculation protocol: the reader never runs out of its fuel and yields no more values
  than there are tokens, the cost ceiling is exact, and what an accepted grant satisfies.
\<close>

section \<open>Refusals\<close>

text \<open>A match that refuses every other value.\<close>

lemma case_AObj_Inr [simp]: "(case v of AObj m \<Rightarrow> f m | _ \<Rightarrow> Inl e) = Inr x \<longleftrightarrow> (\<exists>m. v = AObj m \<and> f m = Inr x)"
  by (cases v) auto

lemma case_AArr_Inr [simp]: "(case v of AArr xs \<Rightarrow> f xs | _ \<Rightarrow> Inl e) = Inr x \<longleftrightarrow> (\<exists>xs. v = AArr xs \<and> f xs = Inr x)"
  by (cases v) auto

lemma case_AStr_Inr [simp]: "(case v of AStr s \<Rightarrow> f s | _ \<Rightarrow> Inl e) = Inr x \<longleftrightarrow> (\<exists>s. v = AStr s \<and> f s = Inr x)"
  by (cases v) auto

lemma case_AInt_Inr [simp]: "(case v of AInt n \<Rightarrow> f n | _ \<Rightarrow> Inl e) = Inr x \<longleftrightarrow> (\<exists>n. v = AInt n \<and> f n = Inr x)"
  by (cases v) auto

lemma case_one_Inr [simp]: "(case ks of [k] \<Rightarrow> f k | _ \<Rightarrow> Inl e) = Inr x \<longleftrightarrow> (\<exists>k. ks = [k] \<and> f k = Inr x)"
  by (auto split: list.splits)

lemma if_Inr_iff: "(if b then r else Inl e) = Inr x \<longleftrightarrow> b \<and> r = Inr x" "(if b then Inl e else r) = Inr x \<longleftrightarrow> \<not> b \<and> r = Inr x"
  by auto

section \<open>The reader\<close>

fun nodes :: "anyval \<Rightarrow> nat" where
  "nodes (AArr xs) = Suc (sum_list (map nodes xs))"
| "nodes (AObj m) = Suc (sum_list (map (\<lambda>e. nodes (snd e)) m))"
| "nodes _ = 1"

lemma nodes_pos: "1 \<le> nodes v"
  by (cases v) auto

lemma nodes_setKey: "nodes (AObj (setKey k v m)) \<le> nodes (AObj m) + nodes v"
proof -
  have "sum_list (map (\<lambda>e. nodes (snd e)) (filter (\<lambda>e. fst e \<noteq> k) m)) \<le> sum_list (map (\<lambda>e. nodes (snd e)) m)"
    by (induction m) auto
  then show ?thesis by (simp add: setKey_def)
qed

text \<open>What a reader promises: no lack of fuel, and no more values than it took tokens.\<close>

definition fed :: "nat \<Rightarrow> (token \<times> nat) list \<Rightarrow> spec_error + anyval \<times> jsonPass \<times> (token \<times> nat) list \<Rightarrow> bool" where
  "fed base ts r \<longleftrightarrow> r \<noteq> Inl SpecFuel \<and> (\<forall>v p rest. r = Inr (v, p, rest) \<longrightarrow> nodes v + length rest \<le> base + length ts)"

lemma fed_simps [simp]:
  "fed base ts (refuse code)" "fed base ts (Inr (v, p, rest)) \<longleftrightarrow> nodes v + length rest \<le> base + length ts"
  by (auto simp: fed_def)

lemma fed_mono: "fed base us r \<Longrightarrow> base + length us \<le> base' + length ts \<Longrightarrow> fed base' ts r"
  by (cases r) (auto simp: fed_def intro: order_trans [of _ "base + length us"])

lemma scalarValue_fed: "ts \<noteq> [] \<Longrightarrow> fed 0 ts (scalarValue ends p (hd ts) (tl ts))"
  by (cases ts) (auto simp: scalarValue_def Let_def split: token.splits)

lemma jsonValue_fed:
  "2 * length ts < f \<Longrightarrow> fed 0 ts (jsonValue f ends p ts)"
  "2 * length ts < f \<Longrightarrow> fed (nodes (AObj m)) ts (jsonMembers f ends m p ts)"
  "2 * length ts + 1 < f \<Longrightarrow> fed (nodes (AArr xs)) ts (jsonElements f ends xs p ts)"
proof (induction f arbitrary: ts m xs p)
  case (Suc f)
  {
    case 1
    have "fed 0 ts (jsonMembers f ends [] p (tl ts)) \<and> fed 0 ts (jsonElements f ends [] p (tl ts))" if "ts \<noteq> []"
      using Suc(2) [of "tl ts" "[]" p] Suc(3) [of "tl ts" "[]" p] 1 that by (cases ts) (auto intro: fed_mono)
    then show ?case using scalarValue_fed by simp
  next
    case 2
    show ?case
    proof (cases "moreTokens ts \<and> (\<exists>k. fst (hd ts) = TokStr k)")
      case True
      then obtain k where k: "ts \<noteq> []" "fst (hd ts) = TokStr k" "moreTokens ts" by auto
      have v: "fed 0 (tl ts) (jsonValue f ends p (tl ts))" using Suc(1) [of "tl ts"] 2 k(1) by (cases ts) auto
      have step: "fed (nodes (AObj m)) ts (jsonMembers f ends (setKey k v m) p' rest)" if r: "jsonValue f ends p (tl ts) = Inr (v, q, rest)" for v q p' rest
      proof -
        have le: "nodes v + length rest \<le> length (tl ts)" using v r by simp
        then have "2 * length rest < f" using 2 nodes_pos [of v] k(1) by (cases ts) auto
        from Suc(2) [OF this] show ?thesis
          by (rule fed_mono) (use le nodes_setKey [of k v m] k(1) in \<open>cases ts; auto\<close>)
      qed
      have "jsonValue f ends p (tl ts) \<noteq> Inl SpecFuel" using v by (simp add: fed_def)
      then show ?thesis using step k by (auto simp: fed_def split: sum.splits prod.splits)
    next
      case False
      then show ?thesis by (cases ts) (auto split: token.splits)
    qed
  next
    case 3
    have v: "fed 0 ts (jsonValue f ends p ts)" using Suc(1) [of ts] 3 by auto
    have step: "fed (nodes (AArr xs)) ts (jsonElements f ends (xs @ [v]) p' rest)" if r: "jsonValue f ends p ts = Inr (v, q, rest)" for v q p' rest
    proof -
      have le: "nodes v + length rest \<le> length ts" using v r by simp
      then have "2 * length rest + 1 < f" using 3 nodes_pos [of v] by auto
      from Suc(3) [OF this] show ?thesis by (rule fed_mono) (use le in simp)
    qed
    have "jsonValue f ends p ts \<noteq> Inl SpecFuel" using v by (simp add: fed_def)
    then show ?case using step by (cases ts) (auto simp: fed_def split: sum.splits prod.splits)
  }
qed auto

text \<open>A token takes at least a byte of the text.\<close>

definition lexer_ok :: "spec_env \<Rightarrow> bool" where
  "lexer_ok env \<longleftrightarrow> (\<forall>s. length (fst (se_tokens env s)) \<le> length s)"

lemma constantsLoop_length: "length (fst (constantsLoop prev q out ends raw)) \<le> length out + length raw"
proof (induction prev q out ends raw rule: constantsLoop.induct)
  case (1 prev q out ends raw)
  show ?case
  proof (cases "raw = []")
    case False
    define qd where "qd = (if hd raw = CHR 0x22 then \<not> q else q)"
    note unfold = constantsLoop.simps [of prev q out "ends" raw, folded qd_def]
    have raw: "0 < length raw" using False by simp
    show ?thesis
    proof (cases "if qd then None else constantAt prev raw")
      case None
      then show ?thesis using 1(1) [OF False qd_def None] False raw unfolding unfold by (simp add: Let_def)
    next
      case (Some s)
      then have "0 < length s" using constantAt_nonempty by (cases qd) auto
      then have "Suc (length raw - length s) \<le> length raw" using raw by arith
      then show ?thesis using 1(2) [OF False qd_def Some] False Some unfolding unfold by (simp add: Let_def)
    qed
  qed (simp add: constantsLoop.simps)
qed

lemma mapE_sum:
  assumes "mapE f xs = Inr ys" "\<And>x y. x \<in> set xs \<Longrightarrow> f x = Inr y \<Longrightarrow> g y = h x"
  shows "map g ys = (map h xs :: 'c list)"
  using assms by (induction xs arbitrary: ys) auto

lemma jsonNormalize_nodes: "jsonNormalize v = Inr w \<Longrightarrow> nodes w = nodes v"
proof (induction v arbitrary: w rule: jsonNormalize.induct)
  case (2 m)
  then obtain m' where m: "mapE (\<lambda>(k, v). bindE (jsonNormalize v) (\<lambda>w. Inr (k, w))) m = Inr m'" "w = AObj m'" by auto
  have "map (\<lambda>e. nodes (snd e)) m' = map (\<lambda>e. nodes (snd e)) m"
    by (rule mapE_sum [OF m(1)]) (use 2(1) in force)
  then show ?case using m(2) by simp
next
  case (3 xs)
  then obtain ys where xs: "mapE jsonNormalize xs = Inr ys" "w = AArr ys" by auto
  have "map nodes ys = map nodes xs" by (rule mapE_sum [OF xs(1)]) (use 3(1) in blast)
  then show ?case using xs(2) by simp
qed auto

lemma parseJSON_nodes:
  assumes "lexer_ok env" "parseJSON env raw = Inr v"
  shows "nodes v \<le> length raw"
proof -
  obtain replaced cs where c: "constants raw = (replaced, cs)" by force
  obtain ts eof where t: "se_tokens env replaced = (ts, eof)" by force
  obtain u p rest where u: "jsonValue (2 * length ts + 2) cs \<lparr>jp_duplicates = False, jp_numbers = []\<rparr> ts = Inr (u, p, rest)" "jsonNormalize u = Inr v"
    using assms(2) by (auto simp: parseJSON_def c t split: if_splits)
  have "fed 0 ts (jsonValue (2 * length ts + 2) cs \<lparr>jp_duplicates = False, jp_numbers = []\<rparr> ts)" by (rule jsonValue_fed) simp
  then have "nodes u \<le> length ts" using u(1) by simp
  moreover have "length ts \<le> length replaced" using assms(1) t unfolding lexer_ok_def by (metis fst_conv)
  moreover have "length replaced \<le> length raw" using constantsLoop_length [of None False "[]" "[]" raw] c by (simp add: constants_def)
  ultimately show ?thesis using jsonNormalize_nodes [OF u(2)] by simp
qed

text \<open>The fuel of \<open>parseJSON\<close> is enough for every text.\<close>

lemma rawInteger_no_fuel: "rawInteger n \<noteq> Inl SpecFuel"
  by (auto simp: rawInteger_def Let_def split: option.splits)

lemma mapE_Inl: "mapE f xs = Inl e \<Longrightarrow> \<exists>x \<in> set xs. f x = Inl e"
  by (induction xs) (auto simp: bindE_Inl_iff)

lemma jsonNormalize_no_fuel: "jsonNormalize v \<noteq> Inl SpecFuel"
proof (induction v rule: jsonNormalize.induct)
  case (1 n)
  then show ?case using rawInteger_no_fuel by (simp add: bindE_Inl_iff)
next
  case (2 m)
  then show ?case by (auto simp: bindE_Inl_iff dest!: mapE_Inl)
next
  case (3 xs)
  then show ?case by (auto simp: bindE_Inl_iff dest!: mapE_Inl)
qed auto

lemma parseJSON_total: "parseJSON env raw \<noteq> Inl SpecFuel"
proof -
  obtain replaced cs where c: "constants raw = (replaced, cs)" by force
  obtain ts eof where t: "se_tokens env replaced = (ts, eof)" by force
  have "fed 0 ts (jsonValue (2 * length ts + 2) cs \<lparr>jp_duplicates = False, jp_numbers = []\<rparr> ts)" by (rule jsonValue_fed) simp
  then have "jsonValue (2 * length ts + 2) cs \<lparr>jp_duplicates = False, jp_numbers = []\<rparr> ts \<noteq> Inl SpecFuel" by (simp add: fed_def)
  then show ?thesis using rawInteger_no_fuel jsonNormalize_no_fuel
    by (auto simp: parseJSON_def c t byteRule_def depthCheck_def bindE_Inl_iff dest!: mapE_Inl)
qed

section \<open>Cost\<close>

text \<open>The amount of \<open>count\<close> tokens at \<open>rate\<close> micro-dollars per million, rounded up.\<close>

definition ceilMicro :: "int \<Rightarrow> int \<Rightarrow> int" where
  "ceilMicro count rate = (count * rate + 999999) div 1000000"

lemma ceil_quot: "(if p mod 1000000 \<noteq> 0 then p div 1000000 + 1 else p div 1000000) = (p + 999999) div (1000000::int)"
proof -
  have p: "p = 1000000 * (p div 1000000) + p mod 1000000" "0 \<le> p mod 1000000" "p mod 1000000 < 1000000" by simp_all
  show ?thesis
  proof (cases "p mod 1000000 = 0")
    case True
    then have "(p + 999999) div 1000000 = p div 1000000" by (intro int_div_pos_eq [of _ _ _ 999999]) (use p in simp_all)
    then show ?thesis using True by simp
  next
    case False
    then have "(p + 999999) div 1000000 = p div 1000000 + 1"
      by (intro int_div_pos_eq [of _ _ _ "p mod 1000000 - 1"]) (use p in \<open>simp_all add: distrib_left\<close>)
    then show ?thesis using False by simp
  qed
qed

lemma costStep_exact:
  assumes "0 \<le> t" "t \<le> MaxInt64" "0 \<le> count" "count \<le> MaxInt64" "0 \<le> rate" "rate \<le> MaxInt64"
  shows "costStep t count rate =
    (if count * rate \<le> MaxInt64 \<and> t + ceilMicro count rate \<le> MaxInt64 then Inr (t + ceilMicro count rate) else refuse ''overflow'')"
proof -
  have guard: "rate = 0 \<or> count \<le> i64_quot MaxInt64 rate \<longleftrightarrow> count * rate \<le> MaxInt64"
  proof (cases "rate = 0")
    case False
    then have "0 < rate" using assms(5) by simp
    then have "i64_quot MaxInt64 rate = MaxInt64 div rate" by (intro i64_quot_nonneg) (simp_all add: MaxInt64_def)
    then show ?thesis using le_div_iff_mult_le [OF \<open>0 < rate\<close>] False by simp
  qed (simp add: MaxInt64_def)
  show ?thesis
  proof (cases "count * rate \<le> MaxInt64")
    case True
    let ?p = "count * rate"
    have p: "0 \<le> ?p" using assms(3,5) by simp
    then have prod: "i64_mul count rate = ?p" using True by (intro i64_mul_exact) (simp add: in_i64_nonneg)
    have q: "i64_quot ?p 1000000 = ?p div 1000000" "i64_rem ?p 1000000 = ?p mod 1000000"
      using i64_quot_nonneg [OF p True] i64_rem_nonneg [OF p] by simp_all
    have small: "0 \<le> ?p div 1000000" "?p div 1000000 \<le> 9223372036855" using p True by (simp_all add: MaxInt64_def pos_imp_zdiv_nonneg_iff)
    then have "i64_add (?p div 1000000) 1 = ?p div 1000000 + 1" by (intro i64_add_exact) (simp add: i64_defs)
    then have rounded: "(if i64_rem ?p 1000000 \<noteq> 0 then i64_add (i64_quot ?p 1000000) 1 else i64_quot ?p 1000000) = ceilMicro count rate"
      unfolding q ceilMicro_def ceil_quot [symmetric] by simp
    have c: "0 \<le> ceilMicro count rate" "ceilMicro count rate \<le> MaxInt64"
      using p small unfolding ceilMicro_def by (simp_all add: MaxInt64_def)
    have "i64_sub MaxInt64 (ceilMicro count rate) = MaxInt64 - ceilMicro count rate"
      by (rule i64_sub_exact) (use c in \<open>simp add: i64_defs\<close>)
    moreover have "t + ceilMicro count rate \<le> MaxInt64 \<Longrightarrow> i64_add t (ceilMicro count rate) = t + ceilMicro count rate"
      by (rule i64_add_exact) (use c assms(1) in \<open>simp add: in_i64_nonneg\<close>)
    ultimately show ?thesis using True guard rounded unfolding costStep_def prod Let_def by (auto simp: require_def)
  next
    case False
    then show ?thesis using guard by (simp add: costStep_def)
  qed
qed

section \<open>Permits\<close>

abbreviation permitOf :: "anyval \<Rightarrow> claims" where
  "permitOf v \<equiv> (case v of AObj m \<Rightarrow> m | _ \<Rightarrow> [])"

definition permitSum :: "anyval list \<Rightarrow> int" where
  "permitSum vs = sum_list (map (\<lambda>v. numOf (permitOf v) ''b_micro'') vs)"

lemma permitLoop_spec:
  assumes "permitLoop b c seen t vs = Inr s" "0 < b" "c \<le> 10000" "0 \<le> t" "t + 10000 * int (length vs) \<le> MaxInt64"
  shows "s = t + permitSum vs
    \<and> (\<forall>v \<in> set vs. b \<le> numOf (permitOf v) ''b_micro'' \<and> numOf (permitOf v) ''b_micro'' \<le> c \<and> numOf (permitOf v) ''ordinal'' \<notin> set seen)
    \<and> distinct (map (\<lambda>v. numOf (permitOf v) ''ordinal'') vs)"
  using assms
proof (induction vs arbitrary: seen t)
  case (Cons v vs)
  let ?a = "numOf (permitOf v) ''b_micro''" and ?o = "numOf (permitOf v) ''ordinal''"
  have step: "?o \<notin> set seen" "b \<le> ?a" "?a \<le> c" "permitLoop b c (?o # seen) (i64_add t ?a) vs = Inr s"
    using Cons.prems(1) by (simp_all add: Let_def split: if_splits)
  have "i64_add t ?a = t + ?a" by (rule i64_add_exact) (use step Cons.prems in \<open>simp add: in_i64_nonneg\<close>)
  then have "permitLoop b c (?o # seen) (t + ?a) vs = Inr s" using step(4) by simp
  from Cons.IH [OF this] show ?case using step Cons.prems by (auto simp: permitSum_def)
qed (simp add: permitSum_def)

lemma nodes_member: "(k, v) \<in> set m \<Longrightarrow> nodes v < nodes (AObj m)"
  by (induction m) (auto simp: less_Suc_eq_le)

lemma nodes_length: "length xs < nodes (AArr xs)"
proof (induction xs)
  case (Cons x xs)
  then show ?case using nodes_pos [of x] by simp
qed simp

lemma arrOf_length: "length (arrOf c k) \<le> nodes (AObj c)"
proof (cases "map_of c k")
  case (Some v)
  then have "nodes v < nodes (AObj c)" using nodes_member map_of_SomeD by fast
  moreover have "length (arrOf c k) \<le> nodes v" using Some nodes_length by (auto simp: arrOf_def split: anyval.splits intro: less_imp_le)
  ultimately show ?thesis by simp
qed (simp add: arrOf_def)

section \<open>Tokens\<close>

fun unsplit :: "char \<Rightarrow> string list \<Rightarrow> string" where
  "unsplit c [] = []"
| "unsplit c [x] = x"
| "unsplit c (x # y # ys) = x @ c # unsplit c (y # ys)"

lemma SplitAt_unsplit: "unsplit c (SplitAt c s) = s \<and> length (SplitAt c s) = Suc (length (filter (\<lambda>x. x = c) s))"
proof (induction s)
  case (Cons x s)
  obtain p ps where p: "SplitAt c s = p # ps" by (cases "SplitAt c s") auto
  show ?case
  proof (cases ps)
    case Nil
    then show ?thesis using Cons p by auto
  next
    case (Cons q qs)
    then show ?thesis using Cons.IH p by auto
  qed
qed simp

lemma SplitAt_three:
  assumes "length (filter (\<lambda>x. x = c) s) = 2"
  shows "s = SplitAt c s ! 0 @ c # SplitAt c s ! 1 @ c # SplitAt c s ! 2"
proof -
  have "length (SplitAt c s) = 3" using SplitAt_unsplit [of c s] assms by simp
  then obtain p q r where "SplitAt c s = [p, q, r]" by (auto simp: numeral_3_eq_3 length_Suc_conv)
  then show ?thesis using SplitAt_unsplit [of c s] by auto
qed

lemma b64decodeD:
  assumes "b64decode (AStr s) = Inr b"
  shows "s = b64_EncodeToString b" "length b \<le> length s" "\<forall>c \<in> set s. byte c < 128"
proof -
  have s: "b64_EncodeToString b = s" "list_all (\<lambda>c. b64_val c \<noteq> None) s"
    using assms by (auto simp: b64decode_def split: if_splits option.splits)
  then show "s = b64_EncodeToString b" by simp
  have "length bs \<le> length (b64_groups bs)" for bs by (induction bs rule: b64_groups.induct) auto
  then have "length b \<le> length (b64_EncodeToString b)" by (metis b64_EncodeToString_def length_map)
  then show "length b \<le> length s" using s by simp
  have "b64_val c \<noteq> None \<Longrightarrow> byte c < 128" for c by (auto simp: b64_val_def byte_def Let_def split: if_splits)
  then show "\<forall>c \<in> set s. byte c < 128" using s(2) by (auto simp: list_all_iff)
qed

text \<open>What a verified token is: three parts, a header naming exactly one configured key of the purpose, and a
  signature of that key over header and payload.\<close>

definition signed_under :: "spec_env \<Rightarrow> TrustedKey \<Rightarrow> string \<Rightarrow> string \<Rightarrow> bool" where
  "signed_under env key payload s \<longleftrightarrow> (\<exists>header signature public. b64decode (tk_PublicKeyB64URL key) = Inr public
     \<and> length public = 32 \<and> length signature = 64
     \<and> s = b64_EncodeToString header @ ''.'' @ b64_EncodeToString payload @ ''.'' @ b64_EncodeToString signature
     \<and> se_verify env public (b64_EncodeToString header @ ''.'' @ b64_EncodeToString payload) signature)"

lemma headerKeyD:
  assumes "headerKey env part keys typ purpose = Inr key"
  shows "\<exists>hb. b64decode (AStr part) = Inr hb" "tk_Purpose key = purpose"
    "filter (\<lambda>k. tk_Kid k = tk_Kid key) keys = [key]"
proof -
  obtain hb h where h: "b64decode (AStr part) = Inr hb" "filter (\<lambda>k. AStr (tk_Kid k) = fieldOf h ''kid'') keys = [key]" "tk_Purpose key = purpose"
    using assms by (auto simp: headerKey_def)
  show "\<exists>hb. b64decode (AStr part) = Inr hb" "tk_Purpose key = purpose" using h by blast+
  have "key \<in> set (filter (\<lambda>k. AStr (tk_Kid k) = fieldOf h ''kid'') keys)" unfolding h(2) by simp
  then have "fieldOf h ''kid'' = AStr (tk_Kid key)" by simp
  then show "filter (\<lambda>k. tk_Kid k = tk_Kid key) keys = [key]" using h(2) by simp
qed

lemma spec_verifyD:
  assumes "spec_verify env token keys typ purpose = Inr (c, key, payload)"
  obtains s where "token = AStr s" "signed_under env key payload s" "tk_Purpose key = purpose"
    "filter (\<lambda>k. tk_Kid k = tk_Kid key) keys = [key]" "parseJSON env payload = Inr (AObj c)" "length payload \<le> 65536"
proof -
  obtain p0 p1 p2 signature where t: "tokenParts token = Inr (p0, p1, p2)" "headerKey env p0 keys typ purpose = Inr key"
    "b64decode (AStr p1) = Inr payload" "b64decode (AStr p2) = Inr signature" "verifySignature env key signature (p0 @ ''.'' @ p1) = Inr ()"
    "parseJSON env payload = Inr (AObj c)"
    using assms by (auto simp: spec_verify_def)
  obtain s where s: "token = AStr s" "length (runes s) \<le> 65536" "length (filter (\<lambda>c. c = CHR ''.'') s) = 2"
    "p0 = SplitAt (CHR ''.'') s ! 0" "p1 = SplitAt (CHR ''.'') s ! 1" "p2 = SplitAt (CHR ''.'') s ! 2"
    using t(1) by (auto simp: tokenParts_def split: anyval.splits if_splits)
  have parts: "s = p0 @ ''.'' @ p1 @ ''.'' @ p2" using SplitAt_three [OF s(3)] s(4-6) by simp
  obtain header where h: "b64decode (AStr p0) = Inr header" using headerKeyD(1) [OF t(2)] by blast
  have "\<forall>c \<in> set s. byte c < 128" using b64decodeD(3) [OF h] b64decodeD(3) [OF t(3)] b64decodeD(3) [OF t(4)] by (auto simp: parts byte_def)
  then have "length s \<le> 65536" using runes_ascii s(2) by fastforce
  then have len: "length payload \<le> 65536" using b64decodeD(2) [OF t(3)] parts by simp
  have "signed_under env key payload s"
    using t(5) parts b64decodeD(1) [OF h] b64decodeD(1) [OF t(3)] b64decodeD(1) [OF t(4)]
    by (auto simp: signed_under_def verifySignature_def split: sum.splits)
  then show thesis using that s(1) headerKeyD(2,3) [OF t(2)] t(6) len by blast
qed

end
