(* ===== verification/SpecGrants.thy ===== *)
theory SpecGrants
  imports SpecLaws
begin

text \<open>
  What the wire contract of speculation promises: an accepted grant is authentic, bound to the deployment
  and live; its permits are worth no more than the workspace's allowance; a descriptor spends one of
  them on one request; renewals never go back.
\<close>

section \<open>Grants\<close>

lemma VerifyGrantD:
  assumes "VerifyGrant env token keys context now shadow = Inr g"
  obtains c key payload clock where "now = AInt clock"
    "spec_verify env token keys (if shadow then ShadowTyp else RealTyp) (if shadow then ''shadow-grant'' else ''grant'') = Inr (c, key, payload)"
    "grantSchema c = Inr ()" "checkCanonical env (AObj c) payload = Inr ()" "grantIdentity c key context = Inr ()" "grantRoute c context = Inr ()"
    "grantHistory c = Inr ()" "grantWindow c clock = Inr ()" "grantCost c context = Inr ()"
    "g = \<lparr>vg_compact = (case token of AStr s \<Rightarrow> s | _ \<Rightarrow> ''''), vg_payload = payload, vg_shadow = shadow, vg_startDeadline = startDeadline c\<rparr>"
proof -
  obtain clock c key payload where a: "spec_integer now = Inr clock"
    "spec_verify env token keys (if shadow then ShadowTyp else RealTyp) (if shadow then ''shadow-grant'' else ''grant'') = Inr (c, key, payload)"
    "grantSchema c = Inr ()" "checkCanonical env (AObj c) payload = Inr ()" "grantIdentity c key context = Inr ()" "grantRoute c context = Inr ()"
    "grantHistory c = Inr ()" "grantWindow c clock = Inr ()" "grantCost c context = Inr ()"
    "g = \<lparr>vg_compact = (case token of AStr s \<Rightarrow> s | _ \<Rightarrow> ''''), vg_payload = payload, vg_shadow = shadow, vg_startDeadline = startDeadline c\<rparr>"
    using assms unfolding VerifyGrant_def bindE_Inr_iff by (auto simp: case_prod_unfold)
  have "now = AInt clock" using a(1) by (auto simp: spec_integer_def split: anyval.splits if_splits)
  then show thesis using that a(2-) by blast
qed

lemma checkCanonicalD: "checkCanonical env v raw = Inr () \<Longrightarrow> spec_canonical env v = Inr raw"
  by (simp add: checkCanonical_def)

lemma claimsObject_iff: "claimsObject env payload = Inr c \<longleftrightarrow> parseJSON env payload = Inr (AObj c)"
  by (auto simp: claimsObject_def)

lemma grantSchema_route: "grantSchema c = Inr () \<Longrightarrow> \<exists>r. fieldOf c ''route'' = AObj r"
  by (auto simp: grantSchema_def routeSchema_def spec_object_def)

text \<open>(C23) An accepted grant is authentic, current and bound. The token carries a signature, over its own header and
  payload, of the one configured key its header names, and that key has the purpose of the kind of grant asked for; the payload
  is the canonical text of the claims; every binding and the complete route equal the trusted ones of this deployment; and the
  clock lies between the issue and a start deadline at least two seconds before the grant expires, at most 30 seconds after its issue.\<close>
theorem VerifyGrant_authentic:
  assumes "VerifyGrant env token keys context now shadow = Inr g"
  shows "\<exists>c key clock. now = AInt clock \<and> token = AStr (vg_compact g) \<and> vg_shadow g = shadow
    \<and> signed_under env key (vg_payload g) (vg_compact g) \<and> filter (\<lambda>k. tk_Kid k = tk_Kid key) keys = [key]
    \<and> tk_Purpose key = (if shadow then ''shadow-grant'' else ''grant'')
    \<and> claimsObject env (vg_payload g) = Inr c \<and> spec_canonical env (AObj c) = Inr (vg_payload g)
    \<and> list_all (\<lambda>f. \<exists>v. map_of context f = Some v \<and> spec_equal (fieldOf c f) v) (Fields spec_bindings)
    \<and> spec_equal (fieldOf c ''route'') (fieldOf context ''route'')
    \<and> numOf c ''iat'' \<le> clock \<and> clock < vg_startDeadline g \<and> vg_startDeadline g + 2 \<le> numOf c ''exp'' \<and> numOf c ''exp'' \<le> numOf c ''iat'' + 30"
proof -
  obtain c key payload clock where d: "now = AInt clock"
    "spec_verify env token keys (if shadow then ShadowTyp else RealTyp) (if shadow then ''shadow-grant'' else ''grant'') = Inr (c, key, payload)"
    "grantSchema c = Inr ()" "checkCanonical env (AObj c) payload = Inr ()" "grantIdentity c key context = Inr ()" "grantRoute c context = Inr ()"
    "grantHistory c = Inr ()" "grantWindow c clock = Inr ()" "grantCost c context = Inr ()"
    "g = \<lparr>vg_compact = (case token of AStr s \<Rightarrow> s | _ \<Rightarrow> ''''), vg_payload = payload, vg_shadow = shadow, vg_startDeadline = startDeadline c\<rparr>"
    using VerifyGrantD [OF assms] .
  obtain s where s: "token = AStr s" "signed_under env key payload s" "tk_Purpose key = (if shadow then ''shadow-grant'' else ''grant'')"
    "filter (\<lambda>k. tk_Kid k = tk_Kid key) keys = [key]" "parseJSON env payload = Inr (AObj c)" using spec_verifyD [OF d(2)] .
  have g: "vg_compact g = s" "vg_payload g = payload" "vg_shadow g = shadow" "vg_startDeadline g = startDeadline c" using d(10) s(1) by simp_all
  have "list_all (\<lambda>f. case map_of context f of None \<Rightarrow> False | Some v \<Rightarrow> spec_equal (fieldOf c f) v) (Fields spec_bindings)"
    using d(5) by (simp add: grantIdentity_def)
  then have bind: "list_all (\<lambda>f. \<exists>v. map_of context f = Some v \<and> spec_equal (fieldOf c f) v) (Fields spec_bindings)"
    by (rule list.pred_mono_strong) (simp split: option.splits)
  obtain r where r: "fieldOf c ''route'' = AObj r" using grantSchema_route [OF d(3)] by blast
  have route: "spec_equal (fieldOf c ''route'') (fieldOf context ''route'')" using d(6) r by (simp add: grantRoute_def Let_def objOf_def)
  have "numOf c ''iat'' \<le> clock" "clock < startDeadline c" "numOf c ''exp'' \<le> numOf c ''iat'' + 30"
    using d(8) by (simp_all add: grantWindow_def Let_def)
  moreover have "startDeadline c + 2 \<le> numOf c ''exp''" by (simp add: startDeadline_def Let_def Margin_def min_le_iff_disj)
  ultimately show ?thesis unfolding g claimsObject_iff using d(1) s bind route checkCanonicalD [OF d(4)]
    by (intro exI [of _ c] exI [of _ key] exI [of _ clock] conjI) (assumption | rule refl)+
qed

text \<open>The permits of an accepted grant are bounded money. The cost ceiling of the route is positive; every permit is worth at
  least that and at most ten thousand micro-dollars, no ordinal occurs twice, and together they are worth at most the
  workspace allowance, itself at most one dollar: the sum does not wrap, because a token is at most 65536 characters long.\<close>
theorem VerifyGrant_money:
  assumes "lexer_ok env" "VerifyGrant env token keys context now shadow = Inr g" "claimsObject env (vg_payload g) = Inr c"
  shows "\<exists>b w. CostCeiling (fieldOf (objOf c ''route'') ''input_bound'') (fieldOf (objOf c ''route'') ''input_rate_micro_per_m'')
        (fieldOf (objOf c ''route'') ''output_limit'') (fieldOf (objOf c ''route'') ''output_rate_micro_per_m'')
        (fieldOf (objOf c ''route'') ''maximum_request_fees_micro'') = Inr b
    \<and> WorkspaceAllowance (fieldOf context ''tier_ceiling_micro'') (fieldOf c ''paid_headroom_micro'') = Inr w
    \<and> 0 < b \<and> (\<forall>p \<in> set (arrOf c ''permits''). b \<le> numOf (permitOf p) ''b_micro'' \<and> numOf (permitOf p) ''b_micro'' \<le> 10000)
    \<and> distinct (map (\<lambda>p. numOf (permitOf p) ''ordinal'') (arrOf c ''permits''))
    \<and> permitSum (arrOf c ''permits'') \<le> w \<and> w \<le> 1000000"
proof -
  obtain c0 key payload clock where d:
    "spec_verify env token keys (if shadow then ShadowTyp else RealTyp) (if shadow then ''shadow-grant'' else ''grant'') = Inr (c0, key, payload)"
    "grantCost c0 context = Inr ()" "vg_payload g = payload" using VerifyGrantD [OF assms(2)] by (metis VerifiedGrant.select_convs(2))
  have p: "parseJSON env payload = Inr (AObj c0)" "length payload \<le> 65536" using spec_verifyD [OF d(1)] by blast+
  then have c: "c0 = c" using assms(3) d(3) by (simp add: claimsObject_iff)
  have len: "length (arrOf c ''permits'') \<le> 65536"
    using arrOf_length [of c "''permits''"] parseJSON_nodes [OF assms(1) p(1)] p(2) c by simp
  let ?r = "objOf c ''route''" and ?l = "numOf c ''per_request_ceiling_micro''"
  obtain b s w where m: "?l \<le> 10000" "0 < b" "permitLoop b ?l [] 0 (arrOf c ''permits'') = Inr s" "s \<le> w"
    "CostCeiling (fieldOf ?r ''input_bound'') (fieldOf ?r ''input_rate_micro_per_m'') (fieldOf ?r ''output_limit'')
      (fieldOf ?r ''output_rate_micro_per_m'') (fieldOf ?r ''maximum_request_fees_micro'') = Inr b"
    "WorkspaceAllowance (fieldOf context ''tier_ceiling_micro'') (fieldOf c ''paid_headroom_micro'') = Inr w"
    using d(2) unfolding c grantCost_def Let_def by auto
  have "0 + 10000 * int (length (arrOf c ''permits'')) \<le> MaxInt64" using len by (simp add: MaxInt64_def)
  note loop = permitLoop_spec [OF m(3,2,1) order_refl this]
  have "w \<le> 1000000" using m(6) by (auto simp: WorkspaceAllowance_def)
  then show ?thesis using loop m by (intro exI [of _ b] exI [of _ w]) (auto intro: order_trans)
qed

section \<open>Descriptors\<close>

lemma VerifyDescriptorD:
  assumes "VerifyDescriptor env token keys g request execution nonce = Inr d"
  obtains dc key c s where "\<not> vg_shadow g" "token = AStr s" "vd_compact d = s"
    "signed_under env key (vd_payload d) s" "tk_Purpose key = ''descriptor''" "filter (\<lambda>k. tk_Kid k = tk_Kid key) keys = [key]"
    "claimsObject env (vd_payload d) = Inr dc" "claimsObject env (vg_payload g) = Inr c"
    "descriptorBinds env dc key g c request execution nonce = Inr ()" "descriptorPermit dc c = Inr ()"
proof -
  obtain dc key payload c where a: "\<not> vg_shadow g" "spec_verify env token keys DescriptorTyp ''descriptor'' = Inr (dc, key, payload)"
    "claimsObject env (vg_payload g) = Inr c" "descriptorBinds env dc key g c request execution nonce = Inr ()" "descriptorPermit dc c = Inr ()"
    "d = \<lparr>vd_compact = (case token of AStr s \<Rightarrow> s | _ \<Rightarrow> ''''), vd_payload = payload\<rparr>"
    using assms unfolding VerifyDescriptor_def bindE_Inr_iff by (auto simp: case_prod_unfold)
  from a(2) obtain s where s: "token = AStr s" "signed_under env key payload s" "tk_Purpose key = ''descriptor''"
    "filter (\<lambda>k. tk_Kid k = tk_Kid key) keys = [key]" "parseJSON env payload = Inr (AObj dc)" by (rule spec_verifyD)
  show thesis by (rule that [of s key dc c]) (use a s in \<open>simp_all add: claimsObject_iff\<close>)
qed

lemma permitFound_member:
  assumes "permitFound ordinal b found vs = Inr True" "\<not> found"
  shows "\<exists>p. AObj p \<in> set vs \<and> spec_equal (fieldOf p ''ordinal'') ordinal \<and> spec_equal (fieldOf p ''b_micro'') b"
  using assms
proof (induction vs arbitrary: found)
  case (Cons v vs)
  then obtain p where v: "v = AObj p" "permitFound ordinal b (found \<or> spec_equal (fieldOf p ''ordinal'') ordinal \<and> spec_equal (fieldOf p ''b_micro'') b) vs = Inr True"
    by auto
  then show ?case using Cons.IH [OF v(2)] Cons.prems(2) by auto
qed simp


section \<open>Renewals\<close>

definition renewed :: "spec_env \<Rightarrow> VerifiedGrant \<Rightarrow> VerifiedGrant \<Rightarrow> bool" where
  "renewed env g h \<longleftrightarrow> RenewalVerdict env g h = Inr ''renewed''"

lemma renewedD:
  assumes "renewed env g h"
  shows "\<exists>c d m n. claimsObject env (vg_payload g) = Inr c \<and> claimsObject env (vg_payload h) = Inr d
    \<and> fieldOf c ''generation'' = AInt m \<and> fieldOf d ''generation'' = AInt n \<and> m < n \<and> numOf c ''iat'' \<le> numOf d ''iat''
    \<and> numOf c ''workspace_epoch'' \<le> numOf d ''workspace_epoch'' \<and> numOf c ''key_epoch'' \<le> numOf d ''key_epoch''"
proof -
  have "vg_compact g \<noteq> vg_compact h" using assms by (auto simp: renewed_def RenewalVerdict_def)
  then obtain c d where cd: "claimsObject env (vg_payload g) = Inr c" "claimsObject env (vg_payload h) = Inr d"
    "orderedNumbers d c [(''generation'', (>)), (''iat'', (\<ge>)), (''workspace_epoch'', (\<ge>)), (''key_epoch'', (\<ge>))] = Inr True"
    using assms by (auto simp: renewed_def RenewalVerdict_def split: if_splits)
  have num: "spec_number m k = Inr n \<longleftrightarrow> fieldOf m k = AInt n \<and> 0 \<le> n" for m k n
    by (cases "fieldOf m k") (auto simp: spec_number_def spec_integer_def)
  show ?thesis using cd by (auto simp: num numOf_def if_Inr_iff split: if_splits)
qed

text \<open>Renewals never go back. Along any chain of renewals the generation grows strictly and the issue time and both health
  epochs never fall, so no grant of the chain can be renewed by an earlier one.\<close>
theorem renewal_monotone:
  assumes "(renewed env)\<^sup>+\<^sup>+ g h"
  shows "\<exists>c d m n. claimsObject env (vg_payload g) = Inr c \<and> claimsObject env (vg_payload h) = Inr d
    \<and> fieldOf c ''generation'' = AInt m \<and> fieldOf d ''generation'' = AInt n \<and> m < n \<and> numOf c ''iat'' \<le> numOf d ''iat''
    \<and> numOf c ''workspace_epoch'' \<le> numOf d ''workspace_epoch'' \<and> numOf c ''key_epoch'' \<le> numOf d ''key_epoch''
    \<and> RenewalVerdict env h g \<noteq> Inr ''renewed''"
proof -
  have chain: "\<exists>c d m n. claimsObject env (vg_payload g) = Inr c \<and> claimsObject env (vg_payload h) = Inr d
    \<and> fieldOf c ''generation'' = AInt m \<and> fieldOf d ''generation'' = AInt n \<and> m < n \<and> numOf c ''iat'' \<le> numOf d ''iat''
    \<and> numOf c ''workspace_epoch'' \<le> numOf d ''workspace_epoch'' \<and> numOf c ''key_epoch'' \<le> numOf d ''key_epoch''"
    using assms
  proof (induction rule: tranclp_induct)
    case (step y z)
    then show ?case using renewedD [OF step(2)] by fastforce
  qed (rule renewedD)
  moreover have "\<not> renewed env h g" using chain renewedD [of env h g] by fastforce
  ultimately show ?thesis by (auto simp: renewed_def)
qed

end
