(* ===== verification/SpecRoundtrip.thy ===== *)
theory SpecRoundtrip
  imports SpecLaws
begin

text \<open>
  The canonical text of a protocol value is read back as that value, for every lexer that splits that text
  into its tokens.
\<close>

section \<open>Reading a canonical text\<close>

text \<open>The tokens of a value, and the value as the reader sees it before it normalizes numbers.\<close>

fun anyTokens :: "anyval \<Rightarrow> (token \<times> nat) list"
  and memberTokens :: "(string \<times> anyval) list \<Rightarrow> (token \<times> nat) list"
  and elementTokens :: "anyval list \<Rightarrow> (token \<times> nat) list" where
  "anyTokens ANil = [(TokNull, 0)]"
| "anyTokens (ABool b) = [(TokBool b, 0)]"
| "anyTokens (AStr s) = [(TokStr s, 0)]"
| "anyTokens (AInt n) = [(TokNum (itoa n), 0)]"
| "anyTokens (AArr xs) = (TokLBrack, 0) # elementTokens xs @ [(TokRBrack, 0)]"
| "anyTokens (AObj ms) = (TokLBrace, 0) # memberTokens ms @ [(TokRBrace, 0)]"
| "anyTokens _ = []"
| "memberTokens [] = []"
| "memberTokens ((k, v) # ms) = (TokStr k, 0) # anyTokens v @ memberTokens ms"
| "elementTokens [] = []"
| "elementTokens (v # vs) = anyTokens v @ elementTokens vs"

fun rawOf :: "anyval \<Rightarrow> anyval" where
  "rawOf (AInt n) = ANumber (itoa n)"
| "rawOf (AArr xs) = AArr (map rawOf xs)"
| "rawOf (AObj ms) = AObj (map (\<lambda>(k, v). (k, rawOf v)) ms)"
| "rawOf v = v"

fun numsOf :: "anyval \<Rightarrow> string list" where
  "numsOf (AInt n) = [itoa n]"
| "numsOf (AArr xs) = concat (map numsOf xs)"
| "numsOf (AObj ms) = concat (map (\<lambda>(k, v). numsOf v) ms)"
| "numsOf v = []"

text \<open>The values of the protocol's texts: plain strings, non-negative \<open>int64\<close>, objects with distinct plain keys in byte
  order, and at most \<open>n\<close> levels of containers.\<close>

fun wire_ok :: "nat \<Rightarrow> anyval \<Rightarrow> bool" where
  "wire_ok n (AInt i) \<longleftrightarrow> 0 \<le> i \<and> i \<le> MaxInt64"
| "wire_ok n (AStr s) \<longleftrightarrow> list_all plain_char s"
| "wire_ok n (AArr xs) \<longleftrightarrow> 0 < n \<and> list_all (wire_ok (n - 1)) xs"
| "wire_ok n (AObj ms) \<longleftrightarrow> 0 < n \<and> distinct (map fst ms) \<and> sorted_wrt (\<lambda>k l. \<not> key_less l k) (map fst ms)
     \<and> list_all (list_all plain_char) (map fst ms) \<and> list_all (\<lambda>(k, v). wire_ok (n - 1) v) ms"
| "wire_ok n (AFloat _) \<longleftrightarrow> False"
| "wire_ok n (ANumber _) \<longleftrightarrow> False"
| "wire_ok n AOther \<longleftrightarrow> False"
| "wire_ok n _ \<longleftrightarrow> True"

lemma anyTokens_more: "wire_ok n v \<Longrightarrow> moreTokens (anyTokens v @ rest)" "wire_ok n v \<Longrightarrow> 0 < length (anyTokens v)"
  by (cases v; simp)+

lemma jsonValue_reads:
  "wire_ok n v \<Longrightarrow> 2 * length (anyTokens v) < f \<Longrightarrow>
     jsonValue f [] p (anyTokens v @ rest) = Inr (rawOf v, p\<lparr>jp_numbers := jp_numbers p @ numsOf v\<rparr>, rest)"
  "distinct (map fst (acc @ ms)) \<Longrightarrow> list_all (\<lambda>(k, v). wire_ok n v) ms \<Longrightarrow> 2 * length (memberTokens ms) < f \<Longrightarrow>
     jsonMembers f [] acc p (memberTokens ms @ (TokRBrace, 0) # rest)
       = Inr (AObj (acc @ map (\<lambda>(k, v). (k, rawOf v)) ms), p\<lparr>jp_numbers := jp_numbers p @ concat (map (\<lambda>(k, v). numsOf v) ms)\<rparr>, rest)"
  "list_all (wire_ok n) xs \<Longrightarrow> 2 * length (elementTokens xs) + 1 < f \<Longrightarrow>
     jsonElements f [] ys p (elementTokens xs @ (TokRBrack, 0) # rest)
       = Inr (AArr (ys @ map rawOf xs), p\<lparr>jp_numbers := jp_numbers p @ concat (map numsOf xs)\<rparr>, rest)"
proof (induction v and ms and xs arbitrary: n p f rest and n p f rest acc and n p f rest ys rule: anyTokens_memberTokens_elementTokens.induct)
  case (5 xs)
  then obtain g where f: "f = Suc g" by (cases f) auto
  show ?case using 5(1) [of "n - 1" g "[]" p rest] 5(2,3) f by simp
next
  case (6 ms)
  then obtain g where f: "f = Suc g" by (cases f) auto
  show ?case using 6(1) [of "[]" "n - 1" g p rest] 6(2,3) f by simp
next
  case 8
  then show ?case by (cases f) auto
next
  case (9 k v ms)
  then obtain g where f: "f = Suc g" by (cases f) auto
  have v: "jsonValue g [] p (anyTokens v @ memberTokens ms @ (TokRBrace, 0) # rest)
      = Inr (rawOf v, p\<lparr>jp_numbers := jp_numbers p @ numsOf v\<rparr>, memberTokens ms @ (TokRBrace, 0) # rest)"
    using 9(1) [of n g p] 9(4,5) f by simp
  have new: "k \<notin> fst ` set acc" using 9(3) by auto
  then have set: "setKey k (rawOf v) acc = acc @ [(k, rawOf v)]" by (force simp: setKey_def filter_id_conv)
  have m: "jsonMembers g [] (acc @ [(k, rawOf v)]) (p\<lparr>jp_numbers := jp_numbers p @ numsOf v\<rparr>) (memberTokens ms @ (TokRBrace, 0) # rest)
      = Inr (AObj ((acc @ [(k, rawOf v)]) @ map (\<lambda>(k, v). (k, rawOf v)) ms),
          p\<lparr>jp_numbers := jp_numbers p @ numsOf v @ concat (map (\<lambda>(k, v). numsOf v) ms)\<rparr>, rest)"
    using 9(2) [of "acc @ [(k, rawOf v)]" n g "p\<lparr>jp_numbers := jp_numbers p @ numsOf v\<rparr>" rest] 9(3,4,5) f by simp
  show ?case using f v m set new by simp
next
  case 10
  then show ?case by (cases f) auto
next
  case (11 v vs)
  have ok: "wire_ok n v" "list_all (wire_ok n) vs" using 11(3) by simp_all
  have f: "f = Suc (f - 1)" "2 * length (anyTokens v) < f - 1" "2 * length (elementTokens vs) + 1 < f - 1"
    using 11(4) [simplified] anyTokens_more(2) [OF ok(1)] by linarith+
  have v: "jsonValue (f - 1) [] p (anyTokens v @ elementTokens vs @ (TokRBrack, 0) # rest)
      = Inr (rawOf v, p\<lparr>jp_numbers := jp_numbers p @ numsOf v\<rparr>, elementTokens vs @ (TokRBrack, 0) # rest)"
    using 11(1) [of n "f - 1" p] ok f by simp
  have e: "jsonElements (f - 1) [] (ys @ [rawOf v]) (p\<lparr>jp_numbers := jp_numbers p @ numsOf v\<rparr>) (elementTokens vs @ (TokRBrack, 0) # rest)
      = Inr (AArr ((ys @ [rawOf v]) @ map rawOf vs), p\<lparr>jp_numbers := jp_numbers p @ numsOf v @ concat (map numsOf vs)\<rparr>, rest)"
    using 11(2) [of n "f - 1" "ys @ [rawOf v]" "p\<lparr>jp_numbers := jp_numbers p @ numsOf v\<rparr>" rest] ok f by simp
  show ?case by (subst f(1)) (use v e in \<open>simp add: anyTokens_more [OF ok(1)]\<close>)
qed (auto simp: less_iff_Suc_add scalarValue_def Let_def)

lemma mapE_total: "(\<exists>ys. mapE f xs = Inr ys) \<longleftrightarrow> (\<forall>x \<in> set xs. \<exists>y. f x = Inr y)"
  by (induction xs) auto

lemma mapE_id: "(\<And>x. x \<in> set xs \<Longrightarrow> f (g x) = Inr x) \<Longrightarrow> mapE f (map g xs) = Inr xs"
  by (induction xs) auto

text \<open>Decimal digits.\<close>

lemma itoa_nat_length: "n < 10 ^ k \<Longrightarrow> 0 < k \<Longrightarrow> length (itoa_nat n) \<le> k"
proof (induction k arbitrary: n)
  case (Suc k)
  show ?case
  proof (cases "n < 10")
    case False
    then have "n div 10 < 10 ^ k" "0 < k" using Suc.prems by (auto intro: gr0I)
    then show ?thesis using Suc.IH [of "n div 10"] False by (subst itoa_nat.simps) simp
  qed (subst itoa_nat.simps, simp)
qed simp

lemma itoa_byte: "0 \<le> i \<Longrightarrow> c \<in> set (itoa i) \<Longrightarrow> 48 \<le> byte c \<and> byte c \<le> 57"
  using itoa_nat_digits [of "nat i"] by (auto simp: itoa_def digit_of_def split: if_splits)

lemma rawInteger_itoa:
  assumes "0 \<le> i" "i \<le> MaxInt64"
  shows "rawInteger (itoa i) = Inr i"
proof -
  have len: "length (itoa i) \<le> 19" using itoa_nat_length [of "nat i" 19] assms by (simp add: itoa_def MaxInt64_def)
  have d: "c \<in> set (itoa i) \<Longrightarrow> 48 \<le> byte c \<and> byte c \<le> 57" for c by (rule itoa_byte [OF assms(1)])
  obtain c cs where c: "itoa i = c # cs" using itoa_nat_digits [of "nat i"] assms(1) by (cases "itoa i") (auto simp: itoa_def)
  have "CHR ''-'' \<noteq> c" using d [of c] c by (auto simp: byte_def)
  then have trim: "TrimPrefix (itoa i) ''-'' = itoa i" by (simp add: c TrimPrefix_def CutPrefix_def)
  have "byte c \<notin> {48..57}" if "c \<in> set ''.eE''" for c using that by (auto simp: byte_def)
  then have "\<not> ContainsAny (itoa i) ''.eE''" using d unfolding ContainsAny_def list_ex_iff by fastforce
  moreover have "in_i64 i" using assms by (simp add: in_i64_nonneg)
  moreover have "itoa i \<noteq> []" by (simp add: c)
  ultimately show ?thesis using len assms(1) unfolding rawInteger_def trim Let_def by simp
qed

lemma rawOf_normalizes: "wire_ok n v \<Longrightarrow> jsonNormalize (rawOf v) = Inr v"
proof (induction n v rule: wire_ok.induct)
  case (3 n xs)
  then have "mapE jsonNormalize (map rawOf xs) = Inr xs" by (intro mapE_id) (simp add: list_all_iff)
  then show ?case by simp
next
  case (4 n ms)
  have "mapE (\<lambda>(k, v). bindE (jsonNormalize v) (\<lambda>w. Inr (k, w))) (map (\<lambda>(k, v). (k, rawOf v)) ms) = Inr ms"
    by (rule mapE_id) (use 4 in \<open>fastforce simp: list_all_iff\<close>)
  then show ?case by simp
qed (auto simp: rawInteger_itoa)

lemma numsOf_integers: "wire_ok n v \<Longrightarrow> t \<in> set (numsOf v) \<Longrightarrow> \<exists>i. rawInteger t = Inr i"
  by (induction n v rule: wire_ok.induct) (fastforce simp: list_all_iff rawInteger_itoa)+

section \<open>Scanning a canonical text\<close>

text \<open>A piece of text that both scans pass over: it leaves no quote open, holds none of the three constants,
  and nests at most \<open>n\<close> deep.\<close>

definition scan_ok :: "nat \<Rightarrow> string \<Rightarrow> bool" where
  "scan_ok n t \<longleftrightarrow>
     (\<forall>prev out cs rest. \<exists>prev'. constantsLoop prev False out cs (t @ rest) = constantsLoop prev' False (out @ t) cs rest)
   \<and> (\<forall>d rest. d + int n \<le> 16 \<longrightarrow> depthLoop d False (t @ rest) = depthLoop d False rest)"

lemma scan_ok_Nil [simp]: "scan_ok n []"
  by (auto simp: scan_ok_def)

lemma scan_ok_append [intro]:
  assumes "scan_ok n s" "scan_ok n t"
  shows "scan_ok n (s @ t)"
proof -
  have "\<exists>prev'. constantsLoop prev False out cs (s @ t @ rest) = constantsLoop prev' False (out @ s @ t) cs rest" for prev out cs rest
    using assms unfolding scan_ok_def by (metis append_assoc)
  then show ?thesis using assms by (simp add: scan_ok_def)
qed

lemma constantAt_other: "c \<notin> set ''NI-'' \<Longrightarrow> constantAt prev (c # raw) = None"
  by (auto simp: constantAt_def find_None_iff HasPrefix_iff)

lemma constants_char: "c \<notin> set ''NI-'' \<Longrightarrow> c \<noteq> CHR 0x22 \<Longrightarrow>
    constantsLoop prev False out cs (c # rest) = constantsLoop (Some c) False (out @ [c]) cs rest"
  by (subst constantsLoop.simps) (simp add: constantAt_other)

definition quiet_char :: "char \<Rightarrow> bool" where
  "quiet_char c \<longleftrightarrow> c \<notin> set ''NI-[]{}'' \<and> c \<noteq> CHR 0x22"

lemma scan_ok_Cons: "quiet_char c \<Longrightarrow> scan_ok n t \<Longrightarrow> scan_ok n (c # t)"
  using scan_ok_append [of n "[c]" t] by (auto simp: scan_ok_def quiet_char_def constants_char)

lemma scan_ok_chars: "(\<And>c. c \<in> set t \<Longrightarrow> quiet_char c) \<Longrightarrow> scan_ok n t"
  by (induction t) (auto intro: scan_ok_Cons)

lemma constants_quoted: "CHR 0x22 \<notin> set s \<Longrightarrow>
    \<exists>prev'. constantsLoop prev True out cs (s @ CHR 0x22 # rest) = constantsLoop prev' False (out @ s @ [CHR 0x22]) cs rest"
proof (induction s arbitrary: prev out)
  case Nil
  show ?case by (subst constantsLoop.simps) (auto simp: constantAt_other)
next
  case (Cons c s)
  have "constantsLoop prev True out cs ((c # s) @ CHR 0x22 # rest) = constantsLoop (Some c) True (out @ [c]) cs (s @ CHR 0x22 # rest)"
    by (subst constantsLoop.simps) (use Cons.prems in auto)
  then show ?case using Cons.IH [of "Some c" "out @ [c]"] Cons.prems by simp
qed

lemma depth_quoted: "CHR 0x22 \<notin> set s \<Longrightarrow> depthLoop d True (s @ CHR 0x22 # rest) = depthLoop d False rest"
  by (induction s) auto

lemma scan_ok_quoted:
  assumes "CHR 0x22 \<notin> set s"
  shows "scan_ok n (CHR 0x22 # s @ [CHR 0x22])"
proof -
  have open_quote: "constantsLoop prev False out cs (CHR 0x22 # u) = constantsLoop (Some (CHR 0x22)) True (out @ [CHR 0x22]) cs u" for prev out cs u
    by (subst constantsLoop.simps) simp
  then show ?thesis using constants_quoted [OF assms] depth_quoted [OF assms] by (simp add: scan_ok_def) (metis append.assoc append_Cons append_Nil)
qed

lemma scan_ok_nest:
  assumes "scan_ok n t" "(a, b) \<in> {(CHR ''['', CHR '']''), (CHR ''{'', CHR ''}'')}"
  shows "scan_ok (Suc n) (a # t @ [b])"
proof -
  have ab: "a \<notin> set ''NI-''" "a \<noteq> CHR 0x22" "b \<notin> set ''NI-''" "b \<noteq> CHR 0x22" using assms(2) by auto
  have "\<exists>prev'. constantsLoop prev False out cs ((a # t @ [b]) @ rest) = constantsLoop prev' False (out @ a # t @ [b]) cs rest" for prev out cs rest
  proof -
    obtain q where "constantsLoop (Some a) False (out @ [a]) cs (t @ b # rest) = constantsLoop q False (out @ a # t) cs (b # rest)"
      using assms(1) unfolding scan_ok_def by (metis append.assoc append_Cons append_Nil)
    then show ?thesis using constants_char [OF ab(1,2)] constants_char [OF ab(3,4)] by auto
  qed
  moreover have "depthLoop d False ((a # t @ [b]) @ rest) = depthLoop d False rest" if "d + int (Suc n) \<le> 16" for d rest
  proof -
    have "depthLoop (d + 1) False (t @ b # rest) = depthLoop (d + 1) False (b # rest)" using assms(1) that by (simp add: scan_ok_def)
    then show ?thesis using assms(2) that by auto
  qed
  ultimately show ?thesis by (simp add: scan_ok_def)
qed

section \<open>Writing\<close>

text \<open>The canonical text of a value of the protocol: no escapes, members in their order.\<close>

fun textOf :: "anyval \<Rightarrow> string" where
  "textOf ANil = ''null''"
| "textOf (ABool b) = (if b then ''true'' else ''false'')"
| "textOf (AStr s) = CHR 0x22 # s @ [CHR 0x22]"
| "textOf (AInt n) = itoa n"
| "textOf (AArr xs) = CHR ''['' # joinComma (map textOf xs) @ '']''"
| "textOf (AObj ms) = CHR ''{'' # joinComma (map (\<lambda>(k, v). CHR 0x22 # k @ [CHR 0x22, CHR '':''] @ textOf v) ms) @ ''}''"
| "textOf _ = []"

lemma escapeText_plain: "list_all plain_char s \<Longrightarrow> escapeText s = s"
proof (induction s)
  case (Cons c s)
  then have c: "0x20 \<le> byte c" "byte c \<le> 0x7e" "byte c \<notin> {0x5c, 0x22, 0x3c, 0x3e, 0x26}" by (simp_all add: plain_char_def)
  then have "decodeRune (c # s) = (Some (byte c), 1)" by (simp add: decodeRune_def)
  moreover have "escapeRune (Some (byte c)) [c] = [c]" using c by (simp add: escapeRune_def)
  ultimately show ?case using Cons by (subst escapeText.simps) simp
qed (simp add: escapeText.simps)

lemma sortKeys_sorted: "sorted_wrt (\<lambda>k l. \<not> key_less l k) (map fst m) \<Longrightarrow> sortKeys m = m"
proof (induction m)
  case (Cons e m)
  then show ?case by (cases m) (auto simp: sortKeys_def)
qed (simp add: sortKeys_def)

lemma those_map_Some: "(\<And>x. x \<in> set xs \<Longrightarrow> f x = Some (g x)) \<Longrightarrow> those (map f xs) = Some (map g xs)"
  by (induction xs) auto

lemma marshalAny_wire: "wire_ok n v \<Longrightarrow> marshalAny fl v = Some (textOf v)"
proof (induction n v rule: wire_ok.induct)
  case (3 n xs)
  then have "those (map (marshalAny fl) xs) = Some (map textOf xs)" by (intro those_map_Some) (simp add: list_all_iff)
  then show ?case by simp
next
  case (4 n ms)
  let ?ts = "map (\<lambda>(k, v). (k, textOf v)) ms"
  have "those (map (\<lambda>(k, v). map_option (\<lambda>t. (k, t)) (marshalAny fl v)) ms) = Some ?ts"
    by (rule those_map_Some) (use 4 in \<open>fastforce simp: list_all_iff\<close>)
  moreover have "sortKeys ?ts = ?ts" by (rule sortKeys_sorted) (use 4(2) in \<open>simp add: comp_def case_prod_unfold\<close>)
  moreover have "map marshalMember ?ts = map (\<lambda>(k, v). CHR 0x22 # k @ [CHR 0x22, CHR '':''] @ textOf v) ms"
    using 4(2) by (auto simp: marshalMember_def marshalText_def list_all_iff escapeText_plain)
  ultimately show ?case by (simp only: marshalAny.simps textOf.simps option.map append_Cons append_Nil)
qed (auto simp: marshalText_def escapeText_plain)

lemma canonical_wire: "wire_ok n v \<Longrightarrow> spec_canonical env v = Inr (textOf v)"
  by (simp add: spec_canonical_def marshalAny_wire)

text \<open>Every byte of the text is one the reader allows.\<close>

lemma set_joinComma: "set (joinComma ts) \<subseteq> insert (CHR '','') (\<Union> (set ` set ts))"
  by (induction ts rule: joinComma.induct) auto

lemma plain_byte: "plain_char c \<Longrightarrow> 0x20 \<le> byte c \<and> byte c \<le> 0x7e \<and> byte c \<noteq> 0x5c" "plain_char c \<Longrightarrow> c \<noteq> CHR 0x22"
  by (auto simp: plain_char_def byte_def)

lemma textOf_bytes: "wire_ok n v \<Longrightarrow> c \<in> set (textOf v) \<Longrightarrow> 0x20 \<le> byte c \<and> byte c \<le> 0x7e \<and> byte c \<noteq> 0x5c"
proof (induction n v arbitrary: c rule: wire_ok.induct)
  case (1 n i)
  then show ?case using itoa_byte [of i c] by auto
next
  case (2 n s)
  then show ?case using plain_byte by (auto simp: list_all_iff byte_def)
next
  case (3 n xs)
  then show ?case using set_joinComma [of "map textOf xs"] by (fastforce simp: list_all_iff byte_def)
next
  case (4 n ms)
  have c: "c \<in> set ''{},'' \<or> (\<exists>(k, v) \<in> set ms. c \<in> set (CHR 0x22 # k @ [CHR 0x22, CHR '':''] @ textOf v))"
    using set_joinComma [of "map (\<lambda>(k, v). CHR 0x22 # k @ [CHR 0x22, CHR '':''] @ textOf v) ms"] 4(3) by fastforce
  have "list_all plain_char k \<and> wire_ok (n - 1) v" if "(k, v) \<in> set ms" for k v using 4(2) that by (auto simp: list_all_iff)
  then have "0x20 \<le> byte c \<and> byte c \<le> 0x7e \<and> byte c \<noteq> 0x5c" if "(k, v) \<in> set ms" "c \<in> set k \<or> c \<in> set (textOf v)" for k v
    using 4(1) [OF that(1) refl] that plain_byte by (metis list_all_iff)
  moreover have "0x20 \<le> byte d \<and> byte d \<le> 0x7e \<and> byte d \<noteq> 0x5c" if "d \<in> set ''{},:'' \<or> d = CHR 0x22" for d
    using that by (auto simp: byte_def)
  ultimately show ?case using c by fastforce
qed (auto simp: byte_def split: if_splits)

lemma scan_ok_join: "(\<And>t. t \<in> set ts \<Longrightarrow> scan_ok n t) \<Longrightarrow> scan_ok n (joinComma ts)"
proof (induction ts rule: joinComma.induct)
  case (3 x y ys)
  then have "scan_ok n x" "scan_ok n (CHR '','' # joinComma (y # ys))" by (auto intro!: scan_ok_Cons simp: quiet_char_def)
  then show ?case using scan_ok_append by fastforce
qed auto

lemma scan_ok_textOf: "wire_ok n v \<Longrightarrow> scan_ok n (textOf v)"
proof (induction n v rule: wire_ok.induct)
  case (1 n i)
  have "quiet_char c" if "c \<in> set (itoa i)" for c using itoa_byte [of i c] that 1 by (auto simp: quiet_char_def byte_def)
  then show ?case by (auto intro: scan_ok_chars)
next
  case (2 n s)
  then show ?case using plain_byte(2) by (auto simp: list_all_iff intro: scan_ok_quoted)
next
  case (3 n xs)
  then have "scan_ok (n - 1) (joinComma (map textOf xs))" by (intro scan_ok_join) (auto simp: list_all_iff)
  then show ?case using scan_ok_nest [of "n - 1" _ "CHR ''[''" "CHR '']''"] 3(2) by simp
next
  case (4 n ms)
  have "scan_ok (n - 1) (CHR 0x22 # k @ [CHR 0x22, CHR '':''] @ textOf v)" if "(k, v) \<in> set ms" for k v
  proof -
    have "wire_ok (n - 1) v" "CHR 0x22 \<notin> set k" using 4(2) that plain_byte(2) by (fastforce simp: list_all_iff)+
    then have "scan_ok (n - 1) ((CHR 0x22 # k @ [CHR 0x22]) @ CHR '':'' # textOf v)"
      using 4(1) [OF that refl] by (intro scan_ok_append scan_ok_quoted scan_ok_Cons) (auto simp: quiet_char_def)
    then show ?thesis by simp
  qed
  then have "scan_ok (n - 1) (joinComma (map (\<lambda>(k, v). CHR 0x22 # k @ [CHR 0x22, CHR '':''] @ textOf v) ms))" by (intro scan_ok_join) auto
  then show ?case using scan_ok_nest [of "n - 1" _ "CHR ''{''" "CHR ''}''"] 4(2) by simp
qed (auto intro!: scan_ok_Cons simp: quiet_char_def)

section \<open>The round trip\<close>

text \<open>Without constants the reader does not look at the offsets of the tokens.\<close>

abbreviation seen :: "spec_error + anyval \<times> jsonPass \<times> (token \<times> nat) list \<Rightarrow> spec_error + anyval \<times> jsonPass \<times> token list" where
  "seen r \<equiv> map_sum id (apsnd (apsnd (map fst))) r"

lemma seen_cases: "seen r = seen s \<Longrightarrow> (\<exists>e. r = Inl e \<and> s = Inl e) \<or> (\<exists>v p rest rest'. r = Inr (v, p, rest) \<and> s = Inr (v, p, rest') \<and> map fst rest = map fst rest')"
  by (cases r; cases s) auto

lemma jsonValue_offsets:
  "map fst ts = map fst us \<Longrightarrow> seen (jsonValue f [] p ts) = seen (jsonValue f [] p us)"
  "map fst ts = map fst us \<Longrightarrow> seen (jsonMembers f [] m p ts) = seen (jsonMembers f [] m p us)"
  "map fst ts = map fst us \<Longrightarrow> seen (jsonElements f [] xs p ts) = seen (jsonElements f [] xs p us)"
proof (induction f arbitrary: ts us m xs p)
  case (Suc f)
  have more: "ts = [] \<and> us = [] \<or> (\<exists>t a b ts' us'. ts = (t, a) # ts' \<and> us = (t, b) # us' \<and> map fst ts' = map fst us')"
    if "map fst ts = map fst us" for ts us :: "(token \<times> nat) list" using that by (cases ts; cases us) auto
  {
    case 1
    from more [OF this] show ?case
    proof (elim disjE exE conjE)
      fix t a b ts' us'
      assume t: "ts = (t, a) # ts'" "us = (t, b) # us'" "map fst ts' = map fst us'"
      note sub = Suc(2) [OF t(3), of "[]" p] Suc(3) [OF t(3), of "[]" p]
      show ?thesis using sub by (cases t) (simp_all add: t scalarValue_def)
    qed simp
  next
    case 2
    from more [OF this] show ?case
    proof (elim disjE exE conjE)
      fix t a b ts' us'
      assume t: "ts = (t, a) # ts'" "us = (t, b) # us'" "map fst ts' = map fst us'"
      show ?thesis
      proof (cases "\<exists>k. t = TokStr k")
        case True
        then obtain k where k: "t = TokStr k" by blast
        let ?q = "\<lambda>p. if k \<in> fst ` set m then p\<lparr>jp_duplicates := True\<rparr> else p"
        from seen_cases [OF Suc(1) [OF t(3), of p]] show ?thesis
        proof (elim disjE exE conjE)
          fix v q rest rest'
          assume r: "jsonValue f [] p ts' = Inr (v, q, rest)" "jsonValue f [] p us' = Inr (v, q, rest')" "map fst rest = map fst rest'"
          show ?thesis using Suc(2) [OF r(3), of "setKey k v m" "?q q"] r(1,2) by (simp add: t k)
        qed (simp add: t k)
      qed (use t in \<open>cases t; auto\<close>)
    qed simp
  next
    case 3
    have "ts = [] \<longleftrightarrow> us = []" "ts \<noteq> [] \<Longrightarrow> fst (hd ts) = fst (hd us)" "map fst (tl ts) = map fst (tl us)"
      using more [OF 3] by auto
    note same = this
    from seen_cases [OF Suc(1) [OF 3, of p]] show ?case
    proof (elim disjE exE conjE)
      fix v q rest rest'
      assume r: "jsonValue f [] p ts = Inr (v, q, rest)" "jsonValue f [] p us = Inr (v, q, rest')" "map fst rest = map fst rest'"
      show ?thesis using Suc(3) [OF r(3), of "xs @ [v]" q] r(1,2) same by (cases "ts = []") simp_all
    next
      fix e
      assume "jsonValue f [] p ts = Inl e" "jsonValue f [] p us = Inl e"
      then show ?thesis using same by (cases "ts = []") simp_all
    qed
  }
qed simp_all

text \<open>What the lexer promises for a text the protocol writes: its tokens in order, and then the end of the input.\<close>

definition lexes :: "spec_env \<Rightarrow> anyval \<Rightarrow> bool" where
  "lexes env v \<longleftrightarrow> map fst (fst (se_tokens env (textOf v))) = map fst (anyTokens v) \<and> snd (se_tokens env (textOf v))"

lemma parseJSON_reads:
  assumes "wire_ok 16 v" "lexes env v"
  shows "parseJSON env (textOf v) = Inr v"
proof -
  obtain ts where t: "se_tokens env (textOf v) = (ts, True)" "map fst ts = map fst (anyTokens v)"
    using assms(2) by (cases "se_tokens env (textOf v)") (auto simp: lexes_def)
  let ?p = "\<lparr>jp_duplicates = False, jp_numbers = []\<rparr>"
  have len: "length ts = length (anyTokens v)" using arg_cong [OF t(2), of length] by simp
  have "jsonValue (2 * length ts + 2) [] ?p (anyTokens v) = Inr (rawOf v, ?p\<lparr>jp_numbers := numsOf v\<rparr>, [])"
    using jsonValue_reads(1) [OF assms(1), of "2 * length ts + 2" ?p "[]"] len by (simp del: jsonValue.simps)
  then have r: "jsonValue (2 * length ts + 2) [] ?p ts = Inr (rawOf v, ?p\<lparr>jp_numbers := numsOf v\<rparr>, [])"
    using seen_cases [OF jsonValue_offsets(1) [OF t(2), of "2 * length ts + 2" ?p]] by (auto simp del: jsonValue.simps)
  have scan: "scan_ok 16 (textOf v)" by (rule scan_ok_textOf [OF assms(1)])
  have "constants (textOf v) = (textOf v, [])"
    using scan unfolding scan_ok_def constants_def by (metis append_Nil append_Nil2 constantsLoop.simps)
  moreover have "depthLoop 0 False (textOf v)"
    using scan [unfolded scan_ok_def, THEN conjunct2, rule_format, of 0 "[]"] by simp
  moreover have "byteRule (textOf v) = Inr ()" using textOf_bytes [OF assms(1)] by (simp add: byteRule_def list_all_iff)
  moreover obtain ns where "mapE rawInteger (numsOf v) = Inr ns" using mapE_total numsOf_integers [OF assms(1)] by metis
  ultimately show ?thesis using r t(1) rawOf_normalizes [OF assms(1)] by (simp add: parseJSON_def depthCheck_def del: jsonValue.simps)
qed

text \<open>(C25) Reading undoes writing. Every value of the protocol's domain - plain strings, non-negative \<open>int64\<close> numbers, objects with
  distinct keys, at most sixteen levels deep - has a canonical text, which passes the byte and depth rules, holds none of the special
  constants, is read back as the same value, and passes the canonical check.\<close>
theorem canonical_roundtrip:
  assumes "wire_ok 16 v" "lexes env v"
  shows "\<exists>raw. spec_canonical env v = Inr raw \<and> parseJSON env raw = Inr v \<and> checkCanonical env v raw = Inr ()"
  using parseJSON_reads [OF assms] by (simp add: checkCanonical_def canonical_wire [OF assms(1)])

text \<open>The tokens of a text are no more than its bytes.\<close>

lemma joinComma_length: "sum_list (map length ts) \<le> length (joinComma ts)"
  by (induction ts rule: joinComma.induct) auto

lemma itoa_not_Nil: "itoa i \<noteq> []"
  using itoa_nat_digits by (simp add: itoa_def)

lemma anyTokens_length:
  "length (anyTokens v) \<le> length (textOf v)"
  "length (memberTokens ms) \<le> sum_list (map length (map (\<lambda>(k, v). CHR 0x22 # k @ [CHR 0x22, CHR '':''] @ textOf v) ms))"
  "length (elementTokens xs) \<le> sum_list (map length (map textOf xs))"
proof (induction v and ms and xs rule: anyTokens_memberTokens_elementTokens.induct)
  case (4 n)
  then show ?case using itoa_not_Nil [of n] by (simp add: Suc_le_eq)
next
  case (5 xs)
  then show ?case using joinComma_length [of "map textOf xs"] by simp
next
  case (6 ms)
  then show ?case using joinComma_length [of "map (\<lambda>(k, v). CHR 0x22 # k @ [CHR 0x22, CHR '':''] @ textOf v) ms"] by simp
qed auto

end
