(* ===== verification/SpecExample.thy ===== *)
theory SpecExample
  imports SpecGrants SpecRoundtrip
begin

text \<open>
  A concrete grant, descriptor and renewal of the speculation protocol: the parameters are instantiated by a
  lexer that knows the texts of these documents, a constant hash and a signature check that accepts. The
  witnesses of the protocol's properties are evaluated on them.
\<close>

section \<open>Tokens\<close>

lemma b64decode_encode:
  assumes "b \<noteq> []"
  shows "b64decode (AStr (b64_EncodeToString b)) = Inr b"
proof -
  have "b64_val c \<noteq> None" if "c \<in> set (b64_EncodeToString b)" for c using b64_Encode_chars [OF that] b64_char_facts by auto
  then show ?thesis using assms by (auto simp: b64decode_def b64_roundtrip b64_Encode_Nil_iff list_all_iff)
qed

lemma b64_groups_length: "length (b64_groups bs) \<le> 2 * length bs"
  by (induction bs rule: b64_groups.induct) auto

lemma b64_Encode_length: "length (b64_EncodeToString b) \<le> 2 * length b"
  using b64_groups_length [of "map of_char b"] by (simp add: b64_EncodeToString_def)

lemma b64_Encode_ascii: "c \<in> set (b64_EncodeToString b) \<Longrightarrow> byte c < 128"
  using b64decodeD(3) [OF b64decode_encode, of b] by (cases "b = []") (auto simp: b64_Encode_Nil_iff [THEN iffD2])

lemma tokenParts_three:
  assumes "length h + length p + length s \<le> 30000"
  shows "tokenParts (AStr (b64_EncodeToString h @ ''.'' @ b64_EncodeToString p @ ''.'' @ b64_EncodeToString s))
    = Inr (b64_EncodeToString h, b64_EncodeToString p, b64_EncodeToString s)"
proof -
  let ?t = "b64_EncodeToString h @ CHR ''.'' # b64_EncodeToString p @ CHR ''.'' # b64_EncodeToString s"
  have "\<forall>c \<in> set ?t. byte c < 128" using b64_Encode_ascii by (auto simp: byte_def)
  then have "length (runes ?t) \<le> 65536"
    using assms b64_Encode_length [of h] b64_Encode_length [of p] b64_Encode_length [of s] by (simp add: runes_ascii)
  moreover have none: "filter (\<lambda>c. c = CHR ''.'') (b64_EncodeToString x) = []" for x
    using b64_Encode_clean(1) by (auto simp: filter_empty_conv)
  moreover have "SplitAt (CHR ''.'') ?t = [b64_EncodeToString h, b64_EncodeToString p, b64_EncodeToString s]"
    by (simp add: SplitAt_append SplitAt_no_sep b64_Encode_clean(1))
  ultimately show ?thesis by (simp add: tokenParts_def)
qed

section \<open>The documents\<close>

definition exHash :: anyval where
  "exHash = AStr (concat (replicate 32 ''61''))"

definition exHeader :: "string \<Rightarrow> string \<Rightarrow> anyval" where
  "exHeader kid typ = AObj [(''alg'', AStr ''EdDSA''), (''kid'', AStr kid), (''typ'', AStr typ)]"

definition exRoute :: anyval where
  "exRoute = AObj [(''adapter_capability_version'', AInt 1), (''catalog_hash'', exHash), (''endpoint_id'', AStr ''e''), (''input_bound'', AInt 1000),
     (''input_bound_method'', AStr ''certified-fixture-bound-v1''), (''input_rate_micro_per_m'', AInt 1000000), (''maximum_request_fees_micro'', AInt 0),
     (''output_limit'', AInt 10), (''output_rate_micro_per_m'', AInt 1000000), (''price_expires_at'', AInt 2000), (''privacy'', AStr ''p''),
     (''provider'', AStr ''p''), (''region'', AStr ''r''), (''routing_policy_hash'', exHash), (''stage_d'', ABool True), (''upstream_model'', AStr ''u'')]"

definition exHistory :: anyval where
  "exHistory = AObj [(''clean_since'', AInt 100), (''count'', AInt 20), (''last_success_at'', AInt 990), (''sequence'', AInt 20), (''window_start'', AInt 900)]"

definition exGrant :: "int \<Rightarrow> string \<Rightarrow> claims" where
  "exGrant generation grant = [(''aud'', AStr ''a''), (''boot_id'', AStr ''b''), (''environment'', AStr ''e''), (''exp'', AInt 1030), (''generation'', AInt generation),
     (''grant_id'', AStr grant), (''history'', exHistory), (''iat'', AInt 1000), (''image_policy_version'', AInt 1), (''iss'', AStr ''i''), (''key_epoch'', AInt 1),
     (''key_expires_at'', AInt 2000), (''key_id'', AStr ''k''), (''lookup_digest'', exHash), (''paid_headroom_micro'', AInt 5000000),
     (''per_request_ceiling_micro'', AInt 10000), (''permits'', AArr [AObj [(''b_micro'', AInt 2000), (''ordinal'', AInt 1)]]), (''plane'', AStr ''p''),
     (''region'', AStr ''r''), (''route'', exRoute), (''stable_slot_id'', AStr ''s''), (''start_before'', AInt 1020), (''tier'', AInt 2),
     (''trust_fresh_until'', AInt 2000), (''v'', AInt 1), (''workspace_epoch'', AInt 1), (''workspace_id'', AStr ''w'')]"

definition exDescriptor :: claims where
  "exDescriptor = [(''b_micro'', AInt 2000), (''boot_id'', AStr ''b''), (''endpoint_id'', AStr ''e''), (''execution_id'', AStr ''x''), (''grant_id'', AStr ''g''),
     (''grant_sha256'', exHash), (''invocation_nonce'', AStr ''n''), (''key_epoch'', AInt 1), (''key_id'', AStr ''k''), (''ordinal'', AInt 1),
     (''request_sha256'', exHash), (''routing_policy_hash'', exHash), (''v'', AInt 1), (''workspace_epoch'', AInt 1), (''workspace_id'', AStr ''w'')]"

definition exContext :: claims where
  "exContext = (''tier_ceiling_micro'', AInt 100000000) # exGrant 1 ''g''"

text \<open>A lexer that knows the texts of some documents.\<close>

definition exEnv :: "anyval list \<Rightarrow> spec_env" where
  "exEnv docs = \<lparr>se_tokens = (\<lambda>s. case List.find (\<lambda>v. textOf v = s) docs of Some v \<Rightarrow> (anyTokens v, True) | None \<Rightarrow> ([], False)),
     se_sha256 = (\<lambda>_. replicate 32 (CHR ''a'')), se_verify = (\<lambda>_ _ _. True), se_float = (\<lambda>_. [])\<rparr>"

definition exKey :: "string \<Rightarrow> string \<Rightarrow> TrustedKey" where
  "exKey kid purpose = \<lparr>tk_Kid = kid, tk_Purpose = purpose, tk_PublicKeyB64URL = AStr (b64_EncodeToString (replicate 32 (CHR ''p''))),
     tk_Iss = ''i'', tk_Aud = ''a'', tk_Environment = ''e'', tk_Plane = ''p''\<rparr>"

definition exKeys :: "TrustedKey list" where
  "exKeys = [exKey ''k'' ''grant'', exKey ''b'' ''descriptor'']"

definition exToken :: "anyval \<Rightarrow> claims \<Rightarrow> string" where
  "exToken h c = b64_EncodeToString (textOf h) @ ''.'' @ b64_EncodeToString (textOf (AObj c)) @ ''.'' @ b64_EncodeToString (replicate 64 (CHR ''s''))"

lemma find_distinct: "distinct (map f xs) \<Longrightarrow> x \<in> set xs \<Longrightarrow> List.find (\<lambda>y. f y = f x) xs = Some x"
  by (induction xs) auto

lemma exEnv_lexer: "lexer_ok (exEnv docs)"
  using anyTokens_length(1) by (auto simp: lexer_ok_def exEnv_def find_Some_iff split: option.splits)

lemma exEnv_lexes: "distinct (map textOf docs) \<Longrightarrow> v \<in> set docs \<Longrightarrow> lexes (exEnv docs) v"
  by (simp add: lexes_def exEnv_def find_distinct)

lemma textOf_head: "\<exists>rest. textOf (AObj ((k, v) # ms)) = CHR ''{'' # CHR 0x22 # k @ CHR 0x22 # rest"
  by (cases ms) auto

lemma plain_hash: "list_all plain_char (concat (replicate n ''61''))"
  by (induction n) (simp_all add: plain_char_def byte_def)

lemma wire_hash [simp]: "wire_ok n exHash"
  by (simp add: exHash_def plain_hash)

lemma wire_grant: "wire_ok 16 (AObj (exGrant 1 ''g''))"
  by code_simp

lemma wire_descriptor: "wire_ok 16 (AObj exDescriptor)"
  by code_simp

lemma exGrant_schema: "grantSchema (exGrant 1 ''g'') = Inr ()"
  by code_simp

lemma exGrant_identity: "grantIdentity (exGrant 1 ''g'') (exKey ''k'' ''grant'') exContext = Inr ()"
  by code_simp

lemma exGrant_route: "grantRoute (exGrant 1 ''g'') exContext = Inr ()"
  by code_simp
lemma exGrant_history: "grantHistory (exGrant 1 ''g'') = Inr ()"
  by code_simp
lemma exGrant_window: "grantWindow (exGrant 1 ''g'') 1001 = Inr ()"
  by code_simp
lemma exGrant_cost: "grantCost (exGrant 1 ''g'') exContext = Inr ()"
  by code_simp

text \<open>A bound on the length of a text that does not print its numbers.\<close>

fun textBound :: "anyval \<Rightarrow> nat" where
  "textBound (AStr s) = length s + 2"
| "textBound (AInt _) = 19"
| "textBound (AArr xs) = sum_list (map (\<lambda>v. textBound v + 1) xs) + 2"
| "textBound (AObj ms) = sum_list (map (\<lambda>(k, v). length k + textBound v + 4) ms) + 2"
| "textBound _ = 5"

lemma joinComma_bound: "length (joinComma ts) \<le> sum_list (map (\<lambda>t. length t + 1) ts)"
  by (induction ts rule: joinComma.induct) auto

lemma textOf_bound: "wire_ok n v \<Longrightarrow> length (textOf v) \<le> textBound v"
proof (induction n v rule: wire_ok.induct)
  case (1 n i)
  then have "nat i < 10 ^ 19" by (simp add: MaxInt64_def nat_less_iff)
  then show ?case using itoa_nat_length [of "nat i" 19] 1 by (simp add: itoa_def)
next
  case (3 n xs)
  have "sum_list (map (\<lambda>v. length (textOf v) + 1) xs) \<le> sum_list (map (\<lambda>v. textBound v + 1) xs)"
    by (rule sum_list_mono) (use 3 in \<open>simp add: list_all_iff\<close>)
  then show ?case using joinComma_bound [of "map textOf xs"] by (simp add: comp_def)
next
  case (4 n ms)
  let ?m = "\<lambda>(k, v). CHR 0x22 # k @ [CHR 0x22, CHR '':''] @ textOf v"
  have "sum_list (map (\<lambda>e. length (?m e) + 1) ms) \<le> sum_list (map (\<lambda>(k, v). length k + textBound v + 4) ms)"
    by (rule sum_list_mono) (use 4 in \<open>fastforce simp: list_all_iff\<close>)
  moreover have "length (joinComma (map ?m ms)) \<le> sum_list (map (\<lambda>e. length (?m e) + 1) ms)"
    using joinComma_bound [of "map ?m ms"] by (simp only: map_map comp_def)
  ultimately show ?case by simp
qed auto

section \<open>Verifying the tokens\<close>

lemma exToken_verifies:
  assumes h: "h = AObj m" "wire_ok 16 h" "lexes (exEnv docs) h" "spec_object h ''alg kid typ'' [] [] = Inr m" "fieldOf m ''alg'' = AStr ''EdDSA''" "fieldOf m ''typ'' = AStr typ"
    and c: "wire_ok 16 (AObj c)" "lexes (exEnv docs) (AObj c)" "textBound h + textBound (AObj c) \<le> 20000"
    and key: "filter (\<lambda>k. AStr (tk_Kid k) = fieldOf m ''kid'') keys = [exKey kid purpose]"
  shows "spec_verify (exEnv docs) (AStr (exToken h c)) keys typ purpose = Inr (c, exKey kid purpose, textOf (AObj c))"
proof -
  let ?s = "replicate 64 (CHR ''s'')"
  have ne: "textOf h \<noteq> []" "textOf (AObj c) \<noteq> []" using h(1) by simp_all
  have parts: "tokenParts (AStr (exToken h c)) = Inr (b64_EncodeToString (textOf h), b64_EncodeToString (textOf (AObj c)), b64_EncodeToString ?s)"
    unfolding exToken_def by (rule tokenParts_three) (use c(3) textOf_bound [OF h(2)] textOf_bound [OF c(1)] in simp)
  have head: "headerKey (exEnv docs) (b64_EncodeToString (textOf h)) keys typ purpose = Inr (exKey kid purpose)"
    using h(4-6) [unfolded h(1)] key parseJSON_reads [OF h(2,3)] canonical_wire [OF h(2)] b64decode_encode [OF ne(1)]
    unfolding headerKey_def by (simp add: h(1) exKey_def del: textOf.simps)
  have "b64decode (tk_PublicKeyB64URL (exKey kid purpose)) = Inr (replicate 32 (CHR ''p''))" by (simp add: exKey_def b64decode_encode)
  then have sig: "verifySignature (exEnv docs) (exKey kid purpose) ?s msg = Inr ()" for msg by (simp add: verifySignature_def exEnv_def)
  have bytes: "byteRule (textOf (AObj c)) = Inr ()" using textOf_bytes [OF c(1)] by (simp add: byteRule_def list_all_iff del: textOf.simps)
  show ?thesis using parts head sig bytes parseJSON_reads [OF c(1,2)] b64decode_encode [OF ne(2)] b64decode_encode [of ?s]
    by (simp add: spec_verify_def del: textOf.simps)
qed

definition exGrantToken :: string where
  "exGrantToken = exToken (exHeader ''k'' RealTyp) (exGrant 1 ''g'')"

definition exVerified :: VerifiedGrant where
  "exVerified = \<lparr>vg_compact = exGrantToken, vg_payload = textOf (AObj (exGrant 1 ''g'')), vg_shadow = False, vg_startDeadline = 1020\<rparr>"

definition exGrantDocs :: "anyval list" where
  "exGrantDocs = [exHeader ''k'' RealTyp, AObj (exGrant 1 ''g'')]"

lemma exGrant_distinct: "distinct (map textOf exGrantDocs)"
proof -
  obtain r s where "textOf (exHeader ''k'' RealTyp) = CHR ''{'' # CHR 0x22 # ''alg'' @ CHR 0x22 # r" 
    "textOf (AObj (exGrant 1 ''g'')) = CHR ''{'' # CHR 0x22 # ''aud'' @ CHR 0x22 # s"
    using textOf_head unfolding exHeader_def exGrant_def by metis
  then show ?thesis by (simp add: exGrantDocs_def del: textOf.simps)
qed

lemma exGrant_accepted: "VerifyGrant (exEnv exGrantDocs) (AStr exGrantToken) exKeys exContext (AInt 1001) False = Inr exVerified"
proof -
  have "spec_verify (exEnv exGrantDocs) (AStr exGrantToken) exKeys RealTyp ''grant'' = Inr (exGrant 1 ''g'', exKey ''k'' ''grant'', textOf (AObj (exGrant 1 ''g'')))"
    unfolding exGrantToken_def
  proof (rule exToken_verifies [OF exHeader_def])
    show "wire_ok 16 (exHeader ''k'' RealTyp)" by code_simp
    show "lexes (exEnv exGrantDocs) (exHeader ''k'' RealTyp)" "lexes (exEnv exGrantDocs) (AObj (exGrant 1 ''g''))"
      by (rule exEnv_lexes [OF exGrant_distinct], simp add: exGrantDocs_def)+
    show "textBound (exHeader ''k'' RealTyp) + textBound (AObj (exGrant 1 ''g'')) \<le> 20000" by code_simp
  qed (rule wire_grant | code_simp)+
  moreover have "checkCanonical (exEnv exGrantDocs) (AObj (exGrant 1 ''g'')) (textOf (AObj (exGrant 1 ''g''))) = Inr ()"
    by (simp add: checkCanonical_def canonical_wire [OF wire_grant] del: textOf.simps)
  moreover have "startDeadline (exGrant 1 ''g'') = 1020" by code_simp
  ultimately show ?thesis using exGrant_schema exGrant_identity exGrant_route exGrant_history exGrant_window exGrant_cost
    by (simp add: VerifyGrant_def spec_integer_def exVerified_def del: textOf.simps)
qed

definition exDescriptorDocs :: "anyval list" where
  "exDescriptorDocs = [exHeader ''b'' DescriptorTyp, AObj (exGrant 1 ''g''), AObj exDescriptor]"

definition exDescriptorToken :: string where
  "exDescriptorToken = exToken (exHeader ''b'' DescriptorTyp) exDescriptor"

lemma exDescriptor_distinct: "distinct (map textOf exDescriptorDocs)"
proof -
  obtain r s t where "textOf (exHeader ''b'' DescriptorTyp) = CHR ''{'' # CHR 0x22 # ''alg'' @ CHR 0x22 # r"
    "textOf (AObj (exGrant 1 ''g'')) = CHR ''{'' # CHR 0x22 # ''aud'' @ CHR 0x22 # s"
    "textOf (AObj exDescriptor) = CHR ''{'' # CHR 0x22 # ''b_micro'' @ CHR 0x22 # t"
    using textOf_head unfolding exHeader_def exGrant_def exDescriptor_def by metis
  then show ?thesis by (simp add: exDescriptorDocs_def del: textOf.simps)
qed

lemma hex_a: "hex_EncodeToString (replicate n (CHR ''a'')) = concat (replicate n ''61'')"
proof -
  have "[hex_digit 6, hex_digit 1] = ''61''" by (simp add: hex_digit_def char_of_eq_iff take_bit_eq_mod)
  then show ?thesis by (induction n) (simp_all add: hex_EncodeToString_def)
qed

lemma exDigest: "AStr (spec_digest (exEnv docs) b) = exHash"
  by (simp add: spec_digest_def exEnv_def exHash_def hex_a)

lemma exDescriptor_accepted:
  "VerifyDescriptor (exEnv exDescriptorDocs) (AStr exDescriptorToken) exKeys exVerified ''body'' (AStr ''x'') (AStr ''n'')
     = Inr \<lparr>vd_compact = exDescriptorToken, vd_payload = textOf (AObj exDescriptor)\<rparr>"
proof -
  let ?env = "exEnv exDescriptorDocs"
  note lexes = exEnv_lexes [OF exDescriptor_distinct]
  have "spec_verify ?env (AStr exDescriptorToken) exKeys DescriptorTyp ''descriptor'' = Inr (exDescriptor, exKey ''b'' ''descriptor'', textOf (AObj exDescriptor))"
    unfolding exDescriptorToken_def
  proof (rule exToken_verifies [OF exHeader_def])
    show "wire_ok 16 (exHeader ''b'' DescriptorTyp)" by code_simp
    show "lexes ?env (exHeader ''b'' DescriptorTyp)" "lexes ?env (AObj exDescriptor)" by (rule lexes, simp add: exDescriptorDocs_def)+
    show "textBound (exHeader ''b'' DescriptorTyp) + textBound (AObj exDescriptor) \<le> 20000" by code_simp
  qed (rule wire_descriptor | code_simp)+
  moreover have "checkCanonical ?env (AObj exDescriptor) (textOf (AObj exDescriptor)) = Inr ()"
    by (simp add: checkCanonical_def canonical_wire [OF wire_descriptor] del: textOf.simps)
  moreover have "claimsObject ?env (vg_payload exVerified) = Inr (exGrant 1 ''g'')"
    using parseJSON_reads [OF wire_grant lexes] by (simp add: exVerified_def claimsObject_iff exDescriptorDocs_def del: textOf.simps)
  moreover have "descriptorBinds ?env exDescriptor (exKey ''b'' ''descriptor'') exVerified (exGrant 1 ''g'') ''body'' (AStr ''x'') (AStr ''n'') = Inr ()"
    unfolding descriptorBinds_def exDigest by code_simp
  moreover have "descriptorPermit exDescriptor (exGrant 1 ''g'') = Inr ()" by code_simp
  moreover have "spec_object (AObj exDescriptor) descriptorStrings descriptorIntegers [] = Inr exDescriptor" by code_simp
  moreover have "mapE (\<lambda>f. hashValue (fieldOf exDescriptor f)) [''grant_sha256'', ''request_sha256'', ''routing_policy_hash''] = Inr [(), (), ()]" by code_simp
  moreover have "fieldOf exDescriptor ''v'' = AInt 1" "\<not> vg_shadow exVerified" by (simp_all add: exDescriptor_def exVerified_def)
  ultimately show ?thesis unfolding VerifyDescriptor_def by (simp del: textOf.simps)
qed

text \<open>Two grants of a renewal.\<close>

definition exRenewal :: "int \<Rightarrow> string \<Rightarrow> claims" where
  "exRenewal generation grant = [(''generation'', AInt generation), (''grant_id'', AStr grant), (''history'', AObj [(''sequence'', AInt generation)]),
     (''iat'', AInt 1000), (''key_epoch'', AInt 1), (''workspace_epoch'', AInt 1)]"

definition exRenewed :: "int \<Rightarrow> string \<Rightarrow> VerifiedGrant" where
  "exRenewed generation grant = \<lparr>vg_compact = grant, vg_payload = textOf (AObj (exRenewal generation grant)), vg_shadow = False, vg_startDeadline = 1020\<rparr>"

definition exRenewalDocs :: "anyval list" where
  "exRenewalDocs = [AObj (exRenewal 1 ''g''), AObj (exRenewal 2 ''h'')]"

lemma exRenewal_renews: "renewed (exEnv exRenewalDocs) (exRenewed 1 ''g'') (exRenewed 2 ''h'')"
proof -
  have i: "itoa 1 = ''1''" "itoa 2 = ''2''" by code_simp+
  have "distinct (map textOf exRenewalDocs)" by (simp add: exRenewalDocs_def exRenewal_def i)
  note lexes = exEnv_lexes [OF this]
  have w: "wire_ok 16 (AObj (exRenewal 1 ''g''))" "wire_ok 16 (AObj (exRenewal 2 ''h''))" by code_simp+
  have "claimsObject (exEnv exRenewalDocs) (vg_payload (exRenewed 1 ''g'')) = Inr (exRenewal 1 ''g'')"
    "claimsObject (exEnv exRenewalDocs) (vg_payload (exRenewed 2 ''h'')) = Inr (exRenewal 2 ''h'')"
    using parseJSON_reads [OF w(1) lexes] parseJSON_reads [OF w(2) lexes] by (simp_all add: exRenewed_def claimsObject_iff exRenewalDocs_def del: textOf.simps)
  moreover have "list_all (\<lambda>f. spec_equal (fieldOf (exRenewal 1 ''g'') f) (fieldOf (exRenewal 2 ''h'') f))
     (Fields ''workspace_id key_id lookup_digest boot_id stable_slot_id iss aud environment plane region'')" by code_simp
  ultimately show ?thesis
    by (simp add: renewed_def RenewalVerdict_def exRenewed_def exRenewal_def equalScalar_def spec_number_def spec_integer_def del: textOf.simps)
qed

section \<open>Witnesses\<close>

theorem VerifyGrant_authentic_witness:
  "VerifyGrant (exEnv exGrantDocs) (AStr exGrantToken) exKeys exContext (AInt 1001) False = Inr exVerified
   \<and> (\<exists>c key clock. AInt 1001 = AInt clock \<and> AStr exGrantToken = AStr (vg_compact exVerified) \<and> vg_shadow exVerified = False
    \<and> signed_under (exEnv exGrantDocs) key (vg_payload exVerified) (vg_compact exVerified) \<and> filter (\<lambda>k. tk_Kid k = tk_Kid key) exKeys = [key]
    \<and> tk_Purpose key = (if False then ''shadow-grant'' else ''grant'')
    \<and> claimsObject (exEnv exGrantDocs) (vg_payload exVerified) = Inr c \<and> spec_canonical (exEnv exGrantDocs) (AObj c) = Inr (vg_payload exVerified)
    \<and> list_all (\<lambda>f. \<exists>v. map_of exContext f = Some v \<and> spec_equal (fieldOf c f) v) (Fields spec_bindings)
    \<and> spec_equal (fieldOf c ''route'') (fieldOf exContext ''route'')
    \<and> numOf c ''iat'' \<le> clock \<and> clock < vg_startDeadline exVerified \<and> vg_startDeadline exVerified + 2 \<le> numOf c ''exp'' \<and> numOf c ''exp'' \<le> numOf c ''iat'' + 30)"
  by (intro conjI exGrant_accepted VerifyGrant_authentic [OF exGrant_accepted])

lemma exVerified_claims: "claimsObject (exEnv exGrantDocs) (vg_payload exVerified) = Inr (exGrant 1 ''g'')"
  using parseJSON_reads [OF wire_grant exEnv_lexes [OF exGrant_distinct]]
  by (simp add: exVerified_def claimsObject_iff exGrantDocs_def del: textOf.simps)

theorem VerifyGrant_money_witness: "permitSum (arrOf (exGrant 1 ''g'') ''permits'') \<le> 1000000"
  using VerifyGrant_money [OF exEnv_lexer exGrant_accepted exVerified_claims] by auto


theorem renewal_monotone_witness:
  "RenewalVerdict (exEnv exRenewalDocs) (exRenewed 2 ''h'') (exRenewed 1 ''g'') \<noteq> Inr ''renewed''"
  using renewal_monotone [OF tranclp.r_into_trancl [of "renewed (exEnv exRenewalDocs)", OF exRenewal_renews]] by blast

theorem canonical_roundtrip_witness:
  "\<exists>raw. spec_canonical (exEnv exGrantDocs) (AObj (exGrant 1 ''g'')) = Inr raw
     \<and> parseJSON (exEnv exGrantDocs) raw = Inr (AObj (exGrant 1 ''g'')) \<and> checkCanonical (exEnv exGrantDocs) (AObj (exGrant 1 ''g'')) raw = Inr ()"
  by (rule canonical_roundtrip [OF wire_grant exEnv_lexes [OF exGrant_distinct]]) (simp add: exGrantDocs_def)

end
