(* ===== verification/SpecBudget.thy ===== *)
theory SpecBudget
  imports SpecRoundtrip
begin

text \<open>
  The budget of a speculative payload (\<open>internal/speculation/payload_budget.go\<close> and the reasons of
  \<open>eligibility.go\<close>): one traversal counts the bytes \<open>encoding/json\<close> would write, without writing them,
  and stops as soon as the budget is spent. A nil map or slice, which the JSON decoder never yields,
  is not a value here; an \<open>encodedBudget\<close> is its remaining bytes, returned beside the reason.
\<close>

section \<open>Reasons\<close>

datatype Reason = ReasonEligible | ReasonGrant | ReasonShadow | ReasonClock | ReasonDeadline | ReasonBinding | ReasonOwner
  | ReasonTrust | ReasonPilot | ReasonPaid | ReasonKeyEligible | ReasonPolicy | ReasonStageD | ReasonHealthMissing | ReasonHealth
  | ReasonWorkspaceLatch | ReasonKeyLatch | ReasonWorkspaceEpoch | ReasonKeyEpoch | ReasonRoute | ReasonChat | ReasonCredits
  | ReasonTier | ReasonProvenance | ReasonIdempotency | ReasonReceipts | ReasonTools | ReasonReasoning | ReasonMedia | ReasonBYOK
  | ReasonCustomModel | ReasonOrchestration | ReasonConfidential | ReasonExtraCost | ReasonResponseModel | ReasonPreferences
  | ReasonExternalPrompt | ReasonCacheWrite | ReasonAttribution | ReasonField | ReasonPayload | ReasonOutputCap
  | ReasonBoundMethod | ReasonInputBound | ReasonCost

definition MaxInputBytes :: int where
  "MaxInputBytes = 8192"

definition CheckInputLength :: "int \<Rightarrow> Reason" where
  "CheckInputLength n = (if n > MaxInputBytes then ReasonInputBound else ReasonEligible)"

section \<open>Counting\<close>

type_synonym encodedBudget = int

definition budget_spend :: "int \<Rightarrow> encodedBudget \<Rightarrow> Reason \<times> encodedBudget" where
  "budget_spend n b = (if n > b then (ReasonInputBound, b) else (ReasonEligible, b - n))"

definition runeSize :: "nat \<Rightarrow> nat \<Rightarrow> nat" where
  "runeSize r n =
     (if r \<in> {0x22, 0x5c, 10, 13, 9, 8, 12} then 2
      else if r < 0x20 \<or> r \<in> {0x3c, 0x3e, 0x26, 0x2028, 0x2029} then 6
      else n)"

lemma decodeRune_drop: "s \<noteq> [] \<Longrightarrow> (r, n) = decodeRune s \<Longrightarrow> length (drop n s) < length s"
  using decodeRune_size [of s] by (metis diff_less length_drop length_greater_0_conv snd_conv)

function budget_runes :: "string \<Rightarrow> encodedBudget \<Rightarrow> Reason \<times> encodedBudget" where
  "budget_runes s b =
     (if s = [] then (ReasonEligible, b)
      else (case decodeRune s of
          (None, n) \<Rightarrow> (ReasonPayload, b)
        | (Some r, n) \<Rightarrow>
          (case budget_spend (int (runeSize r n)) b of
             (reason, b) \<Rightarrow> if reason \<noteq> ReasonEligible then (reason, b) else budget_runes (drop n s) b)))"
  by auto
termination
  by (relation "measure (length \<circ> fst)") (simp, simp add: decodeRune_drop del: length_drop)

declare budget_runes.simps [simp del]

definition budget_text :: "string \<Rightarrow> encodedBudget \<Rightarrow> Reason \<times> encodedBudget" where
  "budget_text s b =
     (if int (length s) > b \<or> b - int (length s) < 2 then (ReasonInputBound, b)
      else budget_runes s (b - 2))"

text \<open>\<open>value\<close> past its containers, and the whole with its two loops, which stop at the first reason; the members of a
  map come in any order.\<close>

definition budget_scalar :: "anyval \<Rightarrow> encodedBudget \<Rightarrow> Reason \<times> encodedBudget" where
  "budget_scalar v b = (case v of
     AStr s \<Rightarrow> budget_text s b
   | ANil \<Rightarrow> budget_spend 4 b
   | ABool t \<Rightarrow> budget_spend (if t then 4 else 5) b
   | AInt n \<Rightarrow> budget_spend (int (length (itoa n))) b
   | AFloat x \<Rightarrow> (case x of FFinite _ \<Rightarrow> budget_spend 25 b | _ \<Rightarrow> (ReasonPayload, b))
   | _ \<Rightarrow> (ReasonPayload, b))"

function (sequential) budget_value :: "anyval \<Rightarrow> int \<Rightarrow> encodedBudget \<Rightarrow> Reason \<times> encodedBudget"
  and budget_items :: "anyval list \<Rightarrow> int \<Rightarrow> encodedBudget \<Rightarrow> Reason \<times> encodedBudget"
  and budget_members :: "(string \<times> anyval) list \<Rightarrow> int \<Rightarrow> encodedBudget \<Rightarrow> Reason \<times> encodedBudget" where
  "budget_value v depth b =
     (if depth > 64 then (ReasonInputBound, b)
      else (case v of
          AArr xs \<Rightarrow>
            if int (length xs) > b div 2 then (ReasonInputBound, b)
            else (case budget_spend (2 + max 0 (int (length xs) - 1)) b of
                (r, b) \<Rightarrow> if r \<noteq> ReasonEligible then (r, b) else budget_items xs (depth + 1) b)
        | AObj m \<Rightarrow>
            if int (length m) > b div 4 then (ReasonInputBound, b)
            else (case budget_spend (2 + max 0 (int (length m) - 1) + int (length m)) b of
                (r, b) \<Rightarrow> if r \<noteq> ReasonEligible then (r, b) else budget_members m (depth + 1) b)
        | _ \<Rightarrow> budget_scalar v b))"
| "budget_items [] depth b = (ReasonEligible, b)"
| "budget_items (v # vs) depth b =
     (case budget_value v depth b of (r, b) \<Rightarrow> if r \<noteq> ReasonEligible then (r, b) else budget_items vs depth b)"
| "budget_members [] depth b = (ReasonEligible, b)"
| "budget_members ((k, v) # ms) depth b =
     (case budget_text k b of (r, b) \<Rightarrow>
        if r \<noteq> ReasonEligible then (r, b)
        else (case budget_value v depth b of (r, b) \<Rightarrow> if r \<noteq> ReasonEligible then (r, b) else budget_members ms depth b))"
  by pat_completeness simp_all
termination
  by (relation "measure (\<lambda>x. case x of Inl (v, _) \<Rightarrow> size v | Inr (Inl (xs, _)) \<Rightarrow> size_list size xs
      | Inr (Inr (m, _)) \<Rightarrow> size_list (size_prod (\<lambda>_. 0) size) m)") simp_all

declare budget_value.simps [simp del]

fun budget_prefix :: "string list \<Rightarrow> encodedBudget \<Rightarrow> Reason \<times> encodedBudget" where
  "budget_prefix [] b = (ReasonEligible, b)"
| "budget_prefix (t # ts) b =
     (case budget_spend 29 b of (r, b) \<Rightarrow>
        if r \<noteq> ReasonEligible then (r, b)
        else (case budget_text t b of (r, b) \<Rightarrow> if r \<noteq> ReasonEligible then (r, b) else budget_prefix ts b))"

definition budget_scope :: "string \<Rightarrow> encodedBudget \<Rightarrow> Reason \<times> encodedBudget" where
  "budget_scope cacheScope b =
     (if cacheScope \<noteq> [] then
        (case budget_spend 21 b of (r, b) \<Rightarrow> if r \<noteq> ReasonEligible then (r, b) else budget_text cacheScope b)
      else (ReasonEligible, b))"

definition precheckChat :: "(string \<times> anyval) list \<Rightarrow> string list \<Rightarrow> string \<Rightarrow> int \<Rightarrow> Reason" where
  "precheckChat body system cacheScope limit =
     (case budget_scope cacheScope limit of (r, b) \<Rightarrow>
        if r \<noteq> ReasonEligible then r
        else if int (length system) > limit div 30 then ReasonInputBound
        else (case budget_prefix system b of (r, b) \<Rightarrow>
           if r \<noteq> ReasonEligible then r else fst (budget_value (AObj body) 0 b)))"

section \<open>What is counted\<close>

text \<open>A reader of a counting result: the reason is \<open>ReasonEligible\<close> exactly when \<open>n\<close> bytes fit and the
  condition holds, and then \<open>n\<close> bytes are spent.\<close>

definition counts :: "Reason \<times> encodedBudget \<Rightarrow> encodedBudget \<Rightarrow> bool \<Rightarrow> int \<Rightarrow> bool" where
  "counts res b ok n \<longleftrightarrow> (if ok \<and> n \<le> b then res = (ReasonEligible, b - n) else fst res \<noteq> ReasonEligible)"

lemma counts_spend: "counts (budget_spend n b) b True n"
  by (simp add: counts_def budget_spend_def)

lemma counts_then:
  assumes "counts res b ok n" "\<And>b. 0 \<le> b \<Longrightarrow> counts (f b) b ok' m" "0 \<le> m"
  shows "counts (case res of (r, b) \<Rightarrow> if r \<noteq> ReasonEligible then (r, b) else f b) b (ok \<and> ok') (n + m)"
proof (cases "ok \<and> n \<le> b")
  case True
  then have "res = (ReasonEligible, b - n)" using assms(1) by (simp add: counts_def)
  then show ?thesis using assms(2) [of "b - n"] True by (auto simp: counts_def)
next
  case False
  then have "fst res \<noteq> ReasonEligible" using assms(1) unfolding counts_def by metis
  then show ?thesis using False assms(3) by (auto simp: counts_def split: prod.splits)
qed

lemma runes_Cons: "s \<noteq> [] \<Longrightarrow> runes s = fst (decodeRune s) # runes (drop (snd (decodeRune s)) s)"
  by (subst runes.simps) simp

lemma escapeText_Cons: "s \<noteq> [] \<Longrightarrow>
    escapeText s = escapeRune (fst (decodeRune s)) (take (snd (decodeRune s)) s) @ escapeText (drop (snd (decodeRune s)) s)"
  by (subst escapeText.simps) simp

text \<open>A rune below 128 is one byte.\<close>

lemma decodeRune_ascii:
  assumes "decodeRune s = (Some r, n)" "r < 128"
  shows "n = 1"
proof -
  have sub: "b mod k = b - k * q" if "k * q \<le> b" "b < k * Suc q" for b k q :: nat
    using that by (metis add_diff_cancel_left' diff_less_mono div_nat_eqI minus_mult_div_eq_mod)
  have m: "194 \<le> b \<Longrightarrow> b < 224 \<Longrightarrow> 2 \<le> b mod (32::nat)" "224 < b \<Longrightarrow> b < 240 \<Longrightarrow> 1 \<le> b mod (16::nat)"
    "240 < b \<Longrightarrow> b \<le> 244 \<Longrightarrow> 1 \<le> b mod (8::nat)" "160 \<le> b \<Longrightarrow> b \<le> 191 \<Longrightarrow> 32 \<le> b mod (64::nat)"
    "144 \<le> b \<Longrightarrow> b \<le> 191 \<Longrightarrow> 16 \<le> b mod (64::nat)" for b
    using sub [of 32 6 b] sub [of 16 14 b] sub [of 8 30 b] sub [of 64 2 b] by simp_all
  have m0: "byte c mod 32 * 64 + t < 128 \<Longrightarrow> 194 \<le> byte c \<Longrightarrow> byte c < 224 \<Longrightarrow> False" for c t using m(1) [of "byte c"] by linarith
  have m1: "byte c mod 16 * 4096 + t + u < 128 \<Longrightarrow> 224 \<le> byte c \<Longrightarrow> byte c < 240 \<Longrightarrow> byte c = 224" for c t u
    using m(2) [of "byte c"] by linarith
  have m2: "byte c mod 8 * 262144 + t + u + w < 128 \<Longrightarrow> 240 \<le> byte c \<Longrightarrow> byte c \<le> 244 \<Longrightarrow> byte c = 240" for c t u w
    using m(3) [of "byte c"] by linarith
  have m3: "tail6 c * 64 + t < 128 \<Longrightarrow> 160 \<le> byte c \<Longrightarrow> byte c \<le> 191 \<Longrightarrow> False" for c t using m(4) [of "byte c"] unfolding tail6_def by linarith
  have m4: "tail6 c * 4096 + t + u < 128 \<Longrightarrow> 144 \<le> byte c \<Longrightarrow> byte c \<le> 191 \<Longrightarrow> False" for c t u using m(5) [of "byte c"] unfolding tail6_def by linarith
  show ?thesis using assms
    by (auto simp: decodeRune_def Let_def cont_in_def not_less split: list.splits if_splits dest: m0 m1 m2 m3 m4)
qed

lemma runeSize_escape:
  assumes "decodeRune s = (Some r, n)" "s \<noteq> []"
  shows "length (escapeRune (Some r) (take n s)) = runeSize r n"
proof -
  have "length (take n s) = n" using decodeRune_size [OF assms(2)] assms(1) by simp
  then show ?thesis using decodeRune_ascii [OF assms(1)] by (auto simp: escapeRune_def runeSize_def)
qed

lemma counts_runes: "0 \<le> b \<Longrightarrow> counts (budget_runes s b) b (utf8_Valid s) (int (length (escapeText s)))"
proof (induction s b rule: budget_runes.induct)
  case (1 s b)
  show ?case
  proof (cases "s = []")
    case True
    then show ?thesis using 1(2) by (simp add: budget_runes.simps counts_def utf8_Valid_def runes.simps escapeText.simps)
  next
    case False
    obtain r n where d: "decodeRune s = (r, n)" by force
    show ?thesis
    proof (cases r)
      case None
      then show ?thesis using d False by (simp add: budget_runes.simps counts_def utf8_Valid_def runes_Cons)
    next
      case (Some c)
      have len: "length (escapeText s) = runeSize c n + length (escapeText (drop n s))"
        using runeSize_escape [of s c n] d Some False by (simp add: escapeText_Cons)
      have ok: "utf8_Valid s = utf8_Valid (drop n s)" using d Some False by (simp add: utf8_Valid_def runes_Cons)
      show ?thesis
      proof (cases "int (runeSize c n) \<le> b")
        case True
        then have "counts (budget_runes (drop n s) (b - int (runeSize c n))) (b - int (runeSize c n)) (utf8_Valid (drop n s)) (int (length (escapeText (drop n s))))"
          using 1(1) [OF False d [symmetric] Some, of ReasonEligible] by (simp add: budget_spend_def)
        then show ?thesis using d Some False True len ok by (simp add: budget_runes.simps budget_spend_def counts_def algebra_simps)
      next
        case False
        then show ?thesis using d Some \<open>s \<noteq> []\<close> len by (simp add: budget_runes.simps budget_spend_def counts_def)
      qed
    qed
  qed
qed

lemma decodeRune_size_le: "decodeRune s = (r, n) \<Longrightarrow> n \<le> 4"
  by (auto simp: decodeRune_def Let_def split: list.splits if_splits)

lemma length_escapeText: "utf8_Valid s \<Longrightarrow> length s \<le> length (escapeText s)"
proof (induction s rule: escapeText.induct)
  case (1 s)
  show ?case
  proof (cases "s = []")
    case False
    obtain r n where d: "decodeRune s = (r, n)" by force
    obtain c where r: "r = Some c" "utf8_Valid (drop n s)" using 1(2) d False by (cases r) (auto simp: utf8_Valid_def runes_Cons)
    have n: "0 < n" "n \<le> length s" using decodeRune_size [OF False] d by simp_all
    have "n \<le> runeSize c n" using decodeRune_ascii [of s c n] decodeRune_size_le [of s r n] d r(1) by (auto simp: runeSize_def)
    moreover have "length s - n \<le> length (escapeText (drop n s))" using 1(1) [OF False] d r(2) by simp
    ultimately show ?thesis using runeSize_escape [of s c n] d r(1) False n by (simp add: escapeText_Cons)
  qed simp
qed

lemma counts_text: "counts (budget_text s b) b (utf8_Valid s) (int (length (marshalText s)))"
proof (cases "int (length s) > b \<or> b - int (length s) < 2")
  case True
  then show ?thesis using length_escapeText [of s] by (auto simp: budget_text_def counts_def marshalText_def)
next
  case False
  then show ?thesis using counts_runes [of "b - 2" s] by (auto simp: budget_text_def counts_def marshalText_def algebra_simps)
qed

text \<open>The bytes of a value, with 25 for every float, and what the traversal refuses for its content.\<close>

fun encodedSize :: "anyval \<Rightarrow> int" where
  "encodedSize ANil = 4"
| "encodedSize (ABool t) = (if t then 4 else 5)"
| "encodedSize (AStr s) = int (length (marshalText s))"
| "encodedSize (AInt n) = int (length (itoa n))"
| "encodedSize (AFloat _) = 25"
| "encodedSize (AArr xs) = 2 + max 0 (int (length xs) - 1) + sum_list (map encodedSize xs)"
| "encodedSize (AObj m) = 2 + max 0 (int (length m) - 1) + int (length m) + sum_list (map (\<lambda>(k, v). int (length (marshalText k)) + encodedSize v) m)"
| "encodedSize _ = 1"

fun encodable :: "int \<Rightarrow> anyval \<Rightarrow> bool" where
  "encodable d (AStr s) \<longleftrightarrow> d \<le> 64 \<and> utf8_Valid s"
| "encodable d (AFloat x) \<longleftrightarrow> d \<le> 64 \<and> (case x of FFinite _ \<Rightarrow> True | _ \<Rightarrow> False)"
| "encodable d (AArr xs) \<longleftrightarrow> d \<le> 64 \<and> list_all (encodable (d + 1)) xs"
| "encodable d (AObj m) \<longleftrightarrow> d \<le> 64 \<and> list_all (\<lambda>(k, v). utf8_Valid k \<and> encodable (d + 1) v) m"
| "encodable d (ANumber _) \<longleftrightarrow> False"
| "encodable d AOther \<longleftrightarrow> False"
| "encodable d _ \<longleftrightarrow> d \<le> 64"

lemma marshalText_pos: "2 \<le> int (length (marshalText s))"
  by (simp add: marshalText_def)

lemma itoa_pos: "1 \<le> int (length (itoa n))"
  using itoa_nat_digits [of "nat n"] itoa_nat_digits [of "nat (- n)"] by (auto simp: itoa_def Suc_le_eq simp flip: of_nat_Suc)

lemma sum_list_ge: "(\<And>x. x \<in> set xs \<Longrightarrow> c \<le> f x) \<Longrightarrow> c * int (length xs) \<le> sum_list (map f xs)"
  by (induction xs) (auto simp: algebra_simps intro: add_mono)

lemma encodedSize_pos: "1 \<le> encodedSize v"
proof (induction v rule: encodedSize.induct)
  case (6 xs)
  then have "0 \<le> sum_list (map encodedSize xs)" by (intro sum_list_nonneg) force
  then show ?case by simp
next
  case (7 m)
  have "0 \<le> sum_list (map (\<lambda>(k, v). int (length (marshalText k)) + encodedSize v) m)"
    by (rule sum_list_nonneg) (use 7 in force)
  then show ?case by simp
next
  case (3 s)
  then show ?case using marshalText_pos [of s] by simp
qed (use itoa_pos in auto)

lemma items_size: "int (length xs) \<le> sum_list (map encodedSize xs)"
  using sum_list_ge [of xs 1 encodedSize] encodedSize_pos by simp

lemma members_size: "3 * int (length m) \<le> sum_list (map (\<lambda>(k, v). int (length (marshalText k)) + encodedSize v) m)"
proof (rule sum_list_ge)
  fix e assume "e \<in> set m"
  show "3 \<le> (case e of (k, v) \<Rightarrow> int (length (marshalText k)) + encodedSize v)"
    using marshalText_pos [of "fst e"] encodedSize_pos [of "snd e"] by (auto simp: case_prod_unfold)
qed

lemma counts_early:
  assumes "b < n" "fst res \<noteq> ReasonEligible"
  shows "counts res b ok n"
  using assms by (simp add: counts_def)

lemma counts_value:
  "0 \<le> b \<Longrightarrow> counts (budget_value v d b) b (encodable d v) (encodedSize v)"
  "0 \<le> b \<Longrightarrow> counts (budget_members m d b) b (list_all (\<lambda>(k, v). utf8_Valid k \<and> encodable d v) m)
     (sum_list (map (\<lambda>(k, v). int (length (marshalText k)) + encodedSize v) m))"
  "0 \<le> b \<Longrightarrow> counts (budget_items xs d b) b (list_all (encodable d) xs) (sum_list (map encodedSize xs))"
proof (induction v and m and xs arbitrary: d b and d b and d b rule: anyTokens_memberTokens_elementTokens.induct)
  case (5 xs)
  let ?n = "2 + max 0 (int (length xs) - 1)"
  show ?case
  proof (cases "d > 64")
    case False
    show ?thesis
    proof (cases "int (length xs) > b div 2")
      case True
      then show ?thesis using items_size [of xs] False by (intro counts_early) (auto simp: budget_value.simps)
    next
      case fits: False
      have "counts (case budget_spend ?n b of (r, b) \<Rightarrow> if r \<noteq> ReasonEligible then (r, b) else budget_items xs (d + 1) b) b
          (True \<and> list_all (encodable (d + 1)) xs) (?n + sum_list (map encodedSize xs))"
        by (intro counts_then counts_spend 5(1)) (use items_size [of xs] in simp_all)
      then show ?thesis using False fits by (simp add: budget_value.simps)
    qed
  qed (simp add: budget_value.simps counts_def)
next
  case (6 m)
  let ?n = "2 + max 0 (int (length m) - 1) + int (length m)"
  show ?case
  proof (cases "d > 64")
    case False
    show ?thesis
    proof (cases "int (length m) > b div 4")
      case True
      then show ?thesis using members_size [of m] False by (intro counts_early) (auto simp: budget_value.simps)
    next
      case fits: False
      have "counts (case budget_spend ?n b of (r, b) \<Rightarrow> if r \<noteq> ReasonEligible then (r, b) else budget_members m (d + 1) b) b
          (True \<and> list_all (\<lambda>(k, v). utf8_Valid k \<and> encodable (d + 1) v) m)
          (?n + sum_list (map (\<lambda>(k, v). int (length (marshalText k)) + encodedSize v) m))"
        by (intro counts_then counts_spend 6(1)) (use members_size [of m] in simp_all)
      then show ?thesis using False fits by (simp add: budget_value.simps)
    qed
  qed (simp add: budget_value.simps counts_def)
next
  case (9 k v ms)
  have "counts (case budget_text k b of (r, b) \<Rightarrow> if r \<noteq> ReasonEligible then (r, b)
      else (case budget_value v d b of (r, b) \<Rightarrow> if r \<noteq> ReasonEligible then (r, b) else budget_members ms d b)) b
      (utf8_Valid k \<and> encodable d v \<and> list_all (\<lambda>(k, v). utf8_Valid k \<and> encodable d v) ms)
      (int (length (marshalText k)) + (encodedSize v + sum_list (map (\<lambda>(k, v). int (length (marshalText k)) + encodedSize v) ms)))"
    by (intro counts_then counts_text 9) (use members_size [of ms] encodedSize_pos [of v] in simp_all)
  then show ?case by (simp add: add.assoc)
next
  case (11 v vs)
  have "counts (case budget_value v d b of (r, b) \<Rightarrow> if r \<noteq> ReasonEligible then (r, b) else budget_items vs d b) b
      (encodable d v \<and> list_all (encodable d) vs) (encodedSize v + sum_list (map encodedSize vs))"
    by (intro counts_then 11) (use items_size [of vs] 11(3) in simp_all)
  then show ?case by simp
qed (use counts_text in \<open>auto simp: budget_value.simps budget_scalar_def counts_def budget_spend_def split: gofloat.splits\<close>)

section \<open>The count is the length of the encoding\<close>

fun float_free :: "anyval \<Rightarrow> bool" where
  "float_free (AFloat _) \<longleftrightarrow> False"
| "float_free (AArr xs) \<longleftrightarrow> list_all float_free xs"
| "float_free (AObj m) \<longleftrightarrow> list_all (\<lambda>(k, v). float_free v) m"
| "float_free _ \<longleftrightarrow> True"

text \<open>What \<open>encoding/json\<close> promises for a finite float: no more than 25 bytes.\<close>

definition float_short :: "(gofloat \<Rightarrow> string) \<Rightarrow> bool" where
  "float_short fl \<longleftrightarrow> (\<forall>q. length (fl (FFinite q)) \<le> 25)"

lemma joinComma_exact: "int (length (joinComma ts)) = sum_list (map (\<lambda>t. int (length t)) ts) + max 0 (int (length ts) - 1)"
  by (induction ts rule: joinComma.induct) auto

lemma sum_insertKey: "sum_list (map f (insertKey e m)) = f e + sum_list (map f m)" for f :: "_ \<Rightarrow> int"
  by (induction m) (simp_all add: add.left_commute)

lemma sum_sortKeys: "sum_list (map f (sortKeys m)) = sum_list (map f m)" for f :: "_ \<Rightarrow> int"
  by (induction m) (simp_all add: sortKeys_def sum_insertKey)

lemma length_insertKey: "length (insertKey e m) = Suc (length m)"
  by (induction m) simp_all

lemma length_sortKeys: "length (sortKeys m) = length m"
  by (induction m) (simp_all add: sortKeys_def length_insertKey)

text \<open>The encoding of a value, its length and the bytes counted for it.\<close>

definition sized :: "(gofloat \<Rightarrow> string) \<Rightarrow> anyval \<Rightarrow> string \<Rightarrow> bool" where
  "sized fl v t \<longleftrightarrow> marshalAny fl v = Some t \<and> int (length t) \<le> encodedSize v \<and> (float_free v \<longrightarrow> int (length t) = encodedSize v)"

lemma sized_items:
  assumes "\<And>v. v \<in> set xs \<Longrightarrow> \<exists>t. sized fl v t"
  shows "\<exists>ts. those (map (marshalAny fl) xs) = Some ts \<and> length ts = length xs
    \<and> sum_list (map (\<lambda>t. int (length t)) ts) \<le> sum_list (map encodedSize xs)
    \<and> (list_all float_free xs \<longrightarrow> sum_list (map (\<lambda>t. int (length t)) ts) = sum_list (map encodedSize xs))"
  using assms
proof (induction xs)
  case (Cons v xs)
  then obtain t ts where "sized fl v t" "those (map (marshalAny fl) xs) = Some ts" "length ts = length xs"
    "sum_list (map (\<lambda>t. int (length t)) ts) \<le> sum_list (map encodedSize xs)"
    "list_all float_free xs \<longrightarrow> sum_list (map (\<lambda>t. int (length t)) ts) = sum_list (map encodedSize xs)" by force
  then show ?case by (intro exI [of _ "t # ts"]) (auto simp: sized_def)
qed simp

lemma sized_members:
  assumes "\<And>k v. (k, v) \<in> set m \<Longrightarrow> \<exists>t. sized fl v t"
  shows "\<exists>ts. those (map (\<lambda>(k, v). map_option (\<lambda>t. (k, t)) (marshalAny fl v)) m) = Some ts \<and> length ts = length m
    \<and> sum_list (map (\<lambda>e. int (length (marshalMember e))) ts) \<le> sum_list (map (\<lambda>(k, v). int (length (marshalText k)) + encodedSize v) m) + int (length m)
    \<and> (list_all (\<lambda>(k, v). float_free v) m \<longrightarrow> sum_list (map (\<lambda>e. int (length (marshalMember e))) ts)
         = sum_list (map (\<lambda>(k, v). int (length (marshalText k)) + encodedSize v) m) + int (length m))"
  using assms
proof (induction m)
  case (Cons e m)
  obtain k v where e: "e = (k, v)" by force
  obtain t where t: "sized fl v t" using Cons.prems [of k v] e by auto
  obtain ts where ts: "those (map (\<lambda>(k, v). map_option (\<lambda>t. (k, t)) (marshalAny fl v)) m) = Some ts" "length ts = length m"
    "sum_list (map (\<lambda>e. int (length (marshalMember e))) ts) \<le> sum_list (map (\<lambda>(k, v). int (length (marshalText k)) + encodedSize v) m) + int (length m)"
    "list_all (\<lambda>(k, v). float_free v) m \<longrightarrow> sum_list (map (\<lambda>e. int (length (marshalMember e))) ts)
       = sum_list (map (\<lambda>(k, v). int (length (marshalText k)) + encodedSize v) m) + int (length m)"
    using Cons by force
  show ?case using t ts by (intro exI [of _ "(k, t) # ts"]) (auto simp: sized_def e marshalMember_def)
qed simp

lemma encodable_sized: "float_short fl \<Longrightarrow> encodable d v \<Longrightarrow> \<exists>t. sized fl v t"
proof (induction d v rule: encodable.induct)
  case (2 d x)
  then show ?case by (auto simp: sized_def [abs_def] float_short_def split: gofloat.splits)
next
  case (3 d xs)
  obtain ts where "those (map (marshalAny fl) xs) = Some ts" "length ts = length xs"
    "sum_list (map (\<lambda>t. int (length t)) ts) \<le> sum_list (map encodedSize xs)"
    "list_all float_free xs \<longrightarrow> sum_list (map (\<lambda>t. int (length t)) ts) = sum_list (map encodedSize xs)"
    using sized_items [of xs fl] 3 by (auto simp: list_all_iff)
  then show ?case by (intro exI [of _ "''['' @ joinComma ts @ '']''"]) (auto simp: sized_def joinComma_exact)
next
  case (4 d m)
  have "\<exists>t. sized fl v t" if "(k, v) \<in> set m" for k v using 4 that by (auto simp: list_all_iff)
  then obtain ts where ts:
    "those (map (\<lambda>(k, v). map_option (\<lambda>t. (k, t)) (marshalAny fl v)) m) = Some ts" "length ts = length m"
    "sum_list (map (\<lambda>e. int (length (marshalMember e))) ts) \<le> sum_list (map (\<lambda>(k, v). int (length (marshalText k)) + encodedSize v) m) + int (length m)"
    "list_all (\<lambda>(k, v). float_free v) m \<longrightarrow> sum_list (map (\<lambda>e. int (length (marshalMember e))) ts)
       = sum_list (map (\<lambda>(k, v). int (length (marshalText k)) + encodedSize v) m) + int (length m)"
    using sized_members [of m fl] by blast
  have len: "length (sortKeys ts) = length m" using ts(2) by (simp add: length_sortKeys)
  have "int (length (joinComma (map marshalMember (sortKeys ts)))) = sum_list (map (\<lambda>e. int (length (marshalMember e))) ts) + max 0 (int (length m) - 1)"
    unfolding joinComma_exact using sum_sortKeys [of "\<lambda>e. int (length (marshalMember e))" ts] len by (simp add: comp_def)
  then show ?case using ts(1,3,4) by (intro exI [of _ "''{'' @ joinComma (map marshalMember (sortKeys ts)) @ ''}''"]) (auto simp: sized_def)
qed (auto simp: sized_def [abs_def])

section \<open>The whole precheck\<close>

text \<open>The bytes of the messages the certificate adds, and of the cache scope.\<close>

definition additionSize :: "string list \<Rightarrow> string \<Rightarrow> int" where
  "additionSize system cacheScope = (if cacheScope \<noteq> [] then 21 + int (length (marshalText cacheScope)) else 0)
     + sum_list (map (\<lambda>t. 29 + int (length (marshalText t))) system)"

lemma system_size: "0 \<le> sum_list (map (\<lambda>t. 29 + int (length (marshalText t))) system)"
  by (rule sum_list_nonneg) auto

lemma counts_prefix: "0 \<le> b \<Longrightarrow> counts (budget_prefix system b) b (list_all utf8_Valid system) (sum_list (map (\<lambda>t. 29 + int (length (marshalText t))) system))"
proof (induction system arbitrary: b)
  case (Cons t ts)
  have "counts (budget_prefix (t # ts) b) b (True \<and> utf8_Valid t \<and> list_all utf8_Valid ts)
      (29 + (int (length (marshalText t)) + sum_list (map (\<lambda>t. 29 + int (length (marshalText t))) ts)))"
    unfolding budget_prefix.simps by (intro counts_then counts_spend counts_text Cons.IH) (use system_size [of ts] in simp_all)
  then show ?case by (simp add: algebra_simps)
qed (simp add: counts_def)

lemma counts_scope: "0 \<le> b \<Longrightarrow> counts (budget_scope cacheScope b) b (cacheScope = [] \<or> utf8_Valid cacheScope)
    (if cacheScope \<noteq> [] then 21 + int (length (marshalText cacheScope)) else 0)"
proof (cases "cacheScope = []")
  case False
  have "counts (case budget_spend 21 b of (r, b) \<Rightarrow> if r \<noteq> ReasonEligible then (r, b) else budget_text cacheScope b) b
      (True \<and> utf8_Valid cacheScope) (21 + int (length (marshalText cacheScope)))"
    by (intro counts_then counts_spend counts_text) simp
  then show ?thesis using False by (simp add: budget_scope_def)
qed (simp add: budget_scope_def counts_def)

lemma counts_cases:
  assumes "counts res b ok n"
  obtains "ok" "n \<le> b" "res = (ReasonEligible, b - n)" | "\<not> (ok \<and> n \<le> b)" "fst res \<noteq> ReasonEligible"
  using assms by (auto simp: counts_def split: if_splits)

definition additions_valid :: "string list \<Rightarrow> string \<Rightarrow> bool" where
  "additions_valid system cacheScope \<longleftrightarrow> (cacheScope = [] \<or> utf8_Valid cacheScope) \<and> list_all utf8_Valid system"

lemma precheckChat_iff:
  assumes "0 \<le> limit"
  shows "precheckChat body system cacheScope limit = ReasonEligible \<longleftrightarrow>
    additions_valid system cacheScope \<and> encodable 0 (AObj body) \<and> additionSize system cacheScope + encodedSize (AObj body) \<le> limit"
proof -
  let ?n = "if cacheScope \<noteq> [] then 21 + int (length (marshalText cacheScope)) else 0"
  let ?p = "sum_list (map (\<lambda>t. 29 + int (length (marshalText t))) system)"
  note size = encodedSize_pos [of "AObj body"] system_size [of system]
  have p: "30 * int (length system) \<le> ?p"
  proof (rule sum_list_ge)
    show "30 \<le> 29 + int (length (marshalText t))" for t using marshalText_pos [of t] by linarith
  qed
  have n: "0 \<le> ?n" by simp
  show ?thesis
  proof (cases rule: counts_cases [OF counts_scope [OF assms, of cacheScope]])
    case scope: 1
    let ?b = "limit - ?n"
    have b: "0 \<le> ?b" using scope(2) by simp
    show ?thesis
    proof (cases "int (length system) > limit div 30")
      case True
      then have "limit < ?p" using p by linarith
      then show ?thesis using True scope(3) size n by (simp add: precheckChat_def additionSize_def del: encodedSize.simps)
    next
      case few: False
      show ?thesis
      proof (cases rule: counts_cases [OF counts_prefix [OF b, of system]])
        case prefix: 1
        have b2: "0 \<le> ?b - ?p" using prefix(2) by simp
        show ?thesis
          by (cases rule: counts_cases [OF counts_value(1) [OF b2, of "AObj body" 0]])
            (use scope prefix few in \<open>auto simp: precheckChat_def additionSize_def additions_valid_def simp del: encodedSize.simps encodable.simps\<close>)
      next
        case 2
        then show ?thesis using scope few size by (auto simp: precheckChat_def additionSize_def additions_valid_def simp del: encodedSize.simps split: prod.splits)
      qed
    qed
  next
    case 2
    then show ?thesis using size by (auto simp: precheckChat_def additionSize_def additions_valid_def simp del: encodedSize.simps split: prod.splits)
  qed
qed

text \<open>(C28) The budget is exact. A chat body is accepted exactly when it and the strings the certificate adds are encodable (valid UTF-8, finite
  floats, at most 64 levels) and the bytes counted for all of them fit the limit; what \<open>encoding/json\<close> then writes for the body is
  never longer than what was counted, and just as long when the body has no floats.\<close>
theorem budget_exact:
  assumes "0 \<le> limit"
  shows "(precheckChat body system cacheScope limit = ReasonEligible \<longleftrightarrow>
      additions_valid system cacheScope \<and> encodable 0 (AObj body) \<and> additionSize system cacheScope + encodedSize (AObj body) \<le> limit)
    \<and> (precheckChat body system cacheScope limit = ReasonEligible \<and> float_short fl \<longrightarrow>
      (\<exists>t. marshalAny fl (AObj body) = Some t \<and> additionSize system cacheScope + int (length t) \<le> limit
        \<and> (float_free (AObj body) \<longrightarrow> int (length t) = encodedSize (AObj body))))"
proof -
  note iff = precheckChat_iff [OF assms, of body system cacheScope]
  have "\<exists>t. marshalAny fl (AObj body) = Some t \<and> additionSize system cacheScope + int (length t) \<le> limit
      \<and> (float_free (AObj body) \<longrightarrow> int (length t) = encodedSize (AObj body))"
    if a: "precheckChat body system cacheScope limit = ReasonEligible" "float_short fl"
  proof -
    have e: "encodable 0 (AObj body)" "additionSize system cacheScope + encodedSize (AObj body) \<le> limit" using a(1) iff by blast+
    obtain t where "sized fl (AObj body) t" using encodable_sized [OF a(2) e(1)] by blast
    then show ?thesis using e(2) unfolding sized_def by (intro exI [of _ t]) auto
  qed
  then show ?thesis using iff by blast
qed

lemma utf8_Valid_plain: "list_all plain_char s \<Longrightarrow> utf8_Valid s"
  by (rule utf8_Valid_ascii) (auto simp: list_all_iff plain_char_def)

lemma marshalText_plain: "list_all plain_char s \<Longrightarrow> length (marshalText s) = length s + 2"
  by (simp add: marshalText_def escapeText_plain)

theorem budget_exact_witness:
  "precheckChat [(''a'', AStr ''bc'')] [''s''] ''c'' 100 = ReasonEligible
   \<and> (\<exists>t. marshalAny (\<lambda>_. []) (AObj [(''a'', AStr ''bc'')]) = Some t \<and> additionSize [''s''] ''c'' + int (length t) \<le> 100)"
proof -
  have plain: "list_all plain_char ''a''" "list_all plain_char ''bc''" "list_all plain_char ''s''" "list_all plain_char ''c''"
    by (simp_all add: plain_char_def byte_def)
  have "additions_valid [''s''] ''c'' \<and> encodable 0 (AObj [(''a'', AStr ''bc'')])
      \<and> additionSize [''s''] ''c'' + encodedSize (AObj [(''a'', AStr ''bc'')]) \<le> 100"
    using plain by (simp add: additions_valid_def additionSize_def utf8_Valid_plain marshalText_plain)
  moreover have "float_short (\<lambda>_. [])" by (simp add: float_short_def)
  moreover have "(0::int) \<le> 100" by simp
  ultimately show ?thesis using budget_exact [of 100 "[(''a'', AStr ''bc'')]" "[''s'']" "''c''" "\<lambda>_. []"] by blast
qed

end
