(* ===== verification/SpecEligibility.thy ===== *)
theory SpecEligibility
  imports SpecBudget SpecGrants
begin

text \<open>
  Whether a request may be sent speculatively (\<open>internal/speculation\<close>: \<open>deadline.go\<close>, \<open>health.go\<close>, \<open>eligibility.go\<close>,
  \<open>payload.go\<close>). A panic that no caller recovers is an error value: \<open>GoPanic\<close> for a failed type assertion, the
  refusal of \<open>number\<close> and \<open>stringValue\<close> otherwise. What \<open>serializeChat\<close> does after its checks - parsing the encoded
  body again, the chat adapter and the provider's preparation - belongs to other packages and is the
  parameter \<open>chat_tail\<close>. The fields of a map are visited in any order.
\<close>

section \<open>Receipt of a grant\<close>

text \<open>\<open>Monotonic\<close> is a duration on the monotonic clock of the boot, in nanoseconds.\<close>

type_synonym Monotonic = int

record ReceivedGrant =
  rg_grant :: VerifiedGrant
  rg_received :: Monotonic
  rg_deadline :: Monotonic

definition zeroGrant :: ReceivedGrant where
  "zeroGrant = \<lparr>rg_grant = \<lparr>vg_compact = [], vg_payload = [], vg_shadow = False, vg_startDeadline = 0\<rparr>, rg_received = 0, rg_deadline = 0\<rparr>"

definition ReceiveGrant :: "spec_env \<Rightarrow> VerifiedGrant \<Rightarrow> gotime \<Rightarrow> Monotonic \<Rightarrow> int \<Rightarrow> spec_error + ReceivedGrant \<times> Reason" where
  "ReceiveGrant env g wall received uncertainty =
     (case grant_Claims env g of
        Inl _ \<Rightarrow> Inr (zeroGrant, ReasonGrant)
      | Inr c \<Rightarrow>
        if vg_compact g = [] then Inr (zeroGrant, ReasonGrant)
        else if uncertainty < 0 \<or> received < 0 then Inr (zeroGrant, ReasonClock)
        else bindE (spec_number c ''iat'') (\<lambda>iat.
          if t_Before wall (t_Unix iat 0) then Inr (zeroGrant, ReasonClock)
          else
            (let remaining = t_Sub (t_Unix (vg_startDeadline g) 0) (t_Add wall uncertainty) in
             if remaining \<le> 0 then Inr (zeroGrant, ReasonDeadline)
             else
               (let deadline = i64_add received remaining in
                if deadline < received then Inr (zeroGrant, ReasonClock)
                else Inr (\<lparr>rg_grant = g, rg_received = received, rg_deadline = deadline\<rparr>, ReasonEligible)))))"

definition grant_live :: "ReceivedGrant \<Rightarrow> Monotonic \<Rightarrow> bool" where
  "grant_live g now \<longleftrightarrow> vg_compact (rg_grant g) \<noteq> [] \<and> now \<ge> rg_received g \<and> now < rg_deadline g"

section \<open>Health\<close>

record ScopeHealth =
  sh_Known :: bool
  sh_Healthy :: bool
  sh_Latched :: bool
  sh_Epoch :: int

record LocalHealth =
  lh_WorkspaceID :: string
  lh_KeyID :: string
  lh_Provider :: string
  lh_Workspace :: ScopeHealth
  lh_Key :: ScopeHealth
  lh_ProviderKnown :: bool
  lh_ProviderHealthy :: bool
  lh_InfrastructureHealthy :: bool

text \<open>The type assertion on the route: it panics on any other value.\<close>

definition assertObject :: "anyval \<Rightarrow> spec_error + claims" where
  "assertObject v = (case v of AObj m \<Rightarrow> Inr m | _ \<Rightarrow> Inl GoPanic)"

definition healthReason :: "claims \<Rightarrow> LocalHealth \<Rightarrow> spec_error + Reason" where
  "healthReason c h =
     (if \<not> sh_Known (lh_Workspace h) \<or> \<not> sh_Known (lh_Key h) \<or> \<not> lh_ProviderKnown h
        \<or> AStr (lh_WorkspaceID h) \<noteq> fieldOf c ''workspace_id'' \<or> AStr (lh_KeyID h) \<noteq> fieldOf c ''key_id'' then Inr ReasonHealthMissing
      else bindE (assertObject (fieldOf c ''route'')) (\<lambda>route.
        if AStr (lh_Provider h) \<noteq> fieldOf route ''provider'' then Inr ReasonHealthMissing
        else if sh_Latched (lh_Workspace h) then Inr ReasonWorkspaceLatch
        else if sh_Latched (lh_Key h) then Inr ReasonKeyLatch
        else if \<not> sh_Healthy (lh_Workspace h) \<or> \<not> sh_Healthy (lh_Key h) \<or> \<not> lh_ProviderHealthy h \<or> \<not> lh_InfrastructureHealthy h
        then Inr ReasonHealth
        else bindE (spec_number c ''workspace_epoch'') (\<lambda>we.
          if sh_Epoch (lh_Workspace h) \<noteq> we then Inr ReasonWorkspaceEpoch
          else bindE (spec_number c ''key_epoch'') (\<lambda>ke.
            if sh_Epoch (lh_Key h) \<noteq> ke then Inr ReasonKeyEpoch else Inr ReasonEligible))))"

section \<open>Requests\<close>

record CallerIdempotency =
  ci_captured :: bool
  ci_header :: bool
  ci_body :: bool

definition CaptureCallerIdempotency :: "bool \<Rightarrow> claims \<Rightarrow> CallerIdempotency" where
  "CaptureCallerIdempotency headerPresent originalBody =
     \<lparr>ci_captured = True, ci_header = headerPresent, ci_body = (map_of originalBody ''idempotency_key'' \<noteq> None)\<rparr>"

record ParsedRequest =
  pr_Body :: claims
  pr_RouteType :: string
  pr_CallerIdempotency :: CallerIdempotency
  pr_InferenceReceipts :: bool
  pr_BYOK :: bool
  pr_CustomModel :: bool
  pr_Orchestration :: bool
  pr_ConfidentialOnly :: bool
  pr_ExtraReservationCost :: int
  pr_ResponseModel :: string

record AdapterCertificate =
  ac_Route :: claims
  ac_BoundAlgorithm :: string
  ac_FramingKnown :: bool
  ac_FramingTokens :: int
  ac_SystemPrefix :: "string list"
  ac_ProviderCacheScope :: string
  ac_HardOutputCap :: bool
  ac_SingleAttempt :: bool
  ac_NoHiddenTools :: bool
  ac_NoHiddenReasoning :: bool
  ac_VendorPricesBounded :: bool

record LocalContext =
  lc_Bindings :: claims
  lc_Certificates :: "AdapterCertificate list"
  lc_RequestPolicyHash :: string
  lc_OwnerBootID :: string
  lc_OwnerBootCount :: int
  lc_PilotAllowed :: bool
  lc_PaidProvenance :: bool
  lc_KeyEligible :: bool
  lc_BootVerified :: bool
  lc_PolicyFresh :: bool
  lc_StageDEnabled :: bool

definition hasAny :: "claims \<Rightarrow> string \<Rightarrow> bool" where
  "hasAny b words \<longleftrightarrow> list_ex (\<lambda>k. map_of b k \<noteq> None) (Fields words)"

text \<open>\<open>strings.EqualFold(strings.TrimSpace(usage), "credits")\<close> on the runes: Unicode white space at both ends, and the
  one rune outside ASCII that folds to a letter of the word.\<close>

definition unicode_space :: "nat option \<Rightarrow> bool" where
  "unicode_space r = (case r of None \<Rightarrow> False
     | Some n \<Rightarrow> n \<in> {9, 10, 11, 12, 13, 32, 0x85, 0xa0, 0x1680, 0x2028, 0x2029, 0x202f, 0x205f, 0x3000} \<or> (0x2000 \<le> n \<and> n \<le> 0x200a))"

definition foldsTo :: "nat option \<Rightarrow> char \<Rightarrow> bool" where
  "foldsTo r c = (case r of None \<Rightarrow> False | Some n \<Rightarrow> n = byte c \<or> n + 32 = byte c \<or> c = CHR ''s'' \<and> n = 0x17f)"

definition creditsUsage :: "string \<Rightarrow> bool" where
  "creditsUsage usage \<longleftrightarrow>
     (let rs = rev (dropWhile unicode_space (rev (dropWhile unicode_space (runes usage)))) in
      length rs = 7 \<and> list_all (\<lambda>(r, c). foldsTo r c) (zip rs ''credits''))"

definition providerReason :: "claims \<Rightarrow> Reason" where
  "providerReason b = (case fieldOf b ''provider'' of
     AObj p \<Rightarrow>
       if \<not> creditsUsage (case fieldOf p ''usage'' of AStr s \<Rightarrow> s | _ \<Rightarrow> []) then ReasonCredits
       else if \<not> list_all (\<lambda>e. spec_member (fst e) ''usage order only ignore allow_fallbacks require_parameters data_collection'') p
       then ReasonPreferences
       else ReasonEligible
   | _ \<Rightarrow> ReasonCredits)"

definition requestReason :: "ParsedRequest \<Rightarrow> Reason" where
  "requestReason req =
     (let b = pr_Body req; ci = pr_CallerIdempotency req in
      if pr_RouteType req \<noteq> ''chat.completions'' \<or> fieldOf b ''stream'' \<noteq> ABool True then ReasonChat
      else if \<not> ci_captured ci then ReasonProvenance
      else if ci_header ci \<or> ci_body ci \<or> map_of b ''idempotency_key'' \<noteq> None then ReasonIdempotency
      else if pr_InferenceReceipts req \<or> hasAny b ''inference_receipt inference_receipts'' then ReasonReceipts
      else if hasAny b ''tools tool_choice functions function_call plugins max_tool_calls web_search_options parallel_tool_calls'' then ReasonTools
      else if hasAny b ''reasoning reasoning_effort thinking'' then ReasonReasoning
      else if hasAny b ''audio modalities image video'' then ReasonMedia
      else if pr_BYOK req then ReasonBYOK
      else if pr_CustomModel req then ReasonCustomModel
      else if pr_Orchestration req \<or> hasAny b ''models fusion decide advisor subagent batch depth'' then ReasonOrchestration
      else if pr_ConfidentialOnly req then ReasonConfidential
      else if pr_ExtraReservationCost req \<noteq> 0 then ReasonExtraCost
      else if pr_ResponseModel req \<noteq> [] then ReasonResponseModel
      else if hasAny b ''prompt_url external_prompt'' then ReasonExternalPrompt
      else if hasAny b ''prompt_cache_key prompt_cache_options'' then ReasonCacheWrite
      else if hasAny b ''user session_id trace metadata tags app http_referer app_categories request_fingerprint'' then ReasonAttribution
      else if map_of b ''service_tier'' \<noteq> None \<and> fieldOf b ''service_tier'' \<noteq> AStr [] \<and> fieldOf b ''service_tier'' \<noteq> AStr ''default'' then ReasonTier
      else providerReason b)"

section \<open>Payloads\<close>

definition ConservativeUTF8Bytes :: string where
  "ConservativeUTF8Bytes = ''conservative-utf8-bytes-v1''"

record PreparedPayload =
  pp_Bytes :: string
  pp_SHA256 :: string
  pp_InputBound :: int
  pp_BMicro :: int

definition zeroPayload :: PreparedPayload where
  "zeroPayload = \<lparr>pp_Bytes = [], pp_SHA256 = [], pp_InputBound = 0, pp_BMicro = 0\<rparr>"

definition explicitCap :: "anyval \<Rightarrow> int option" where
  "explicitCap v = (case v of AInt n \<Rightarrow> if n > 0 \<and> n \<le> 512 then Some n else None | _ \<Rightarrow> None)"

definition chatFields :: "string list" where
  "chatFields = [''provider'', ''model'', ''stream'', ''service_tier'', ''temperature'', ''top_p'', ''stop'', ''seed'', ''frequency_penalty'',
     ''presence_penalty'', ''logit_bias'', ''logprobs'', ''top_logprobs'', ''stream_options'', ''messages'', ''max_tokens'']"

definition messageReason :: "anyval \<Rightarrow> Reason" where
  "messageReason v = (case v of
     AObj msg \<Rightarrow>
       if hasAny msg ''tool_calls tool_call_id function_call'' \<or> fieldOf msg ''role'' = AStr ''tool'' \<or> fieldOf msg ''role'' = AStr ''function''
       then ReasonTools
       else if hasAny msg ''reasoning reasoning_content'' then ReasonReasoning
       else (case fieldOf msg ''content'' of
           AStr _ \<Rightarrow>
             (case fieldOf msg ''role'' of
                AStr role \<Rightarrow>
                  if \<not> spec_member role ''system user assistant developer'' then ReasonPayload
                  else if length msg \<noteq> 2 then ReasonField
                  else ReasonEligible
              | _ \<Rightarrow> ReasonPayload)
         | _ \<Rightarrow> ReasonMedia)
   | _ \<Rightarrow> ReasonPayload)"

fun messagesReason :: "anyval list \<Rightarrow> Reason" where
  "messagesReason [] = ReasonEligible"
| "messagesReason (v # vs) = (if messageReason v \<noteq> ReasonEligible then messageReason v else messagesReason vs)"

type_synonym chat_tail = "string \<Rightarrow> string list \<Rightarrow> string \<Rightarrow> string \<Rightarrow> string \<Rightarrow> string option"

definition serializeChat :: "spec_env \<Rightarrow> chat_tail \<Rightarrow> claims \<Rightarrow> string list \<Rightarrow> string \<Rightarrow> string \<Rightarrow> string \<times> Reason" where
  "serializeChat env tail body system provider cacheScope =
     (if \<not> list_all (\<lambda>e. fst e \<in> set chatFields) body then ([], ReasonField)
      else (case fieldOf body ''model'' of
          AStr model \<Rightarrow>
            if model = [] \<or> HasPrefix model ''trustedrouter/'' then ([], ReasonCustomModel)
            else (case fieldOf body ''messages'' of
                AArr messages \<Rightarrow>
                  if messages = [] then ([], ReasonPayload)
                  else if messagesReason messages \<noteq> ReasonEligible then ([], messagesReason messages)
                  else (case marshalAny (se_float env) (AObj body) of
                      None \<Rightarrow> ([], ReasonPayload)
                    | Some encoded \<Rightarrow>
                      (case tail encoded system model provider cacheScope of
                         None \<Rightarrow> ([], ReasonPayload)
                       | Some bytes \<Rightarrow> (bytes, ReasonEligible)))
              | _ \<Rightarrow> ([], ReasonPayload))
        | _ \<Rightarrow> ([], ReasonCustomModel)))"

definition supportedBoundMethod :: "anyval \<Rightarrow> bool" where
  "supportedBoundMethod v \<longleftrightarrow> v = AStr ConservativeUTF8Bytes \<or> v = AStr ''certified-fixture-bound-v1''"

text \<open>\<open>PreparePayload\<close> in three parts: the certificate, the price of the serialized bytes, and the whole.\<close>

definition certificateReason :: "claims \<Rightarrow> AdapterCertificate list \<Rightarrow> claims \<Rightarrow> Reason" where
  "certificateReason route certificates body = (case certificates of
     [cert] \<Rightarrow>
       if \<not> spec_equal (AObj (ac_Route cert)) (AObj route) \<or> fieldOf body ''model'' \<noteq> fieldOf route ''upstream_model'' then ReasonRoute
       else if \<not> ac_HardOutputCap cert \<or> \<not> ac_SingleAttempt cert \<or> \<not> ac_NoHiddenTools cert \<or> \<not> ac_NoHiddenReasoning cert
           \<or> \<not> ac_VendorPricesBounded cert then ReasonRoute
       else if ac_BoundAlgorithm cert \<noteq> ConservativeUTF8Bytes \<or> \<not> supportedBoundMethod (fieldOf route ''input_bound_method'')
           \<or> \<not> ac_FramingKnown cert \<or> ac_FramingTokens cert < 0 then ReasonBoundMethod
       else ReasonEligible
   | _ \<Rightarrow> ReasonRoute)"

definition pricePayload :: "spec_env \<Rightarrow> claims \<Rightarrow> claims \<Rightarrow> int \<Rightarrow> int \<Rightarrow> string \<Rightarrow> spec_error + PreparedPayload \<times> Reason" where
  "pricePayload env c route framing out_cap wire =
     (if framing > MaxInputBytes \<or> int (length wire) > MaxInputBytes - framing then Inr (zeroPayload, ReasonInputBound)
      else
        (let bound = int (length wire) + framing in
         bindE (spec_number route ''input_bound'') (\<lambda>limit.
           if bound > limit then Inr (zeroPayload, ReasonInputBound)
           else (case CostCeiling (AInt bound) (fieldOf route ''input_rate_micro_per_m'') (AInt out_cap)
               (fieldOf route ''output_rate_micro_per_m'') (fieldOf route ''maximum_request_fees_micro'') of
               Inl _ \<Rightarrow> Inr (zeroPayload, ReasonCost)
             | Inr b \<Rightarrow>
               if b \<le> 0 then Inr (zeroPayload, ReasonCost)
               else bindE (spec_number c ''per_request_ceiling_micro'') (\<lambda>ceil_micro.
                 if b > ceil_micro \<or> b > 10000 then Inr (zeroPayload, ReasonCost)
                 else Inr (\<lparr>pp_Bytes = wire, pp_SHA256 = spec_digest env wire, pp_InputBound = bound, pp_BMicro = b\<rparr>, ReasonEligible))))))"

definition PreparePayload :: "spec_env \<Rightarrow> chat_tail \<Rightarrow> VerifiedGrant \<Rightarrow> AdapterCertificate list \<Rightarrow> ParsedRequest
    \<Rightarrow> spec_error + PreparedPayload \<times> Reason" where
  "PreparePayload env tail g certificates req =
     (case grant_Claims env g of
        Inl _ \<Rightarrow> Inr (zeroPayload, ReasonGrant)
      | Inr c \<Rightarrow>
        bindE (assertObject (fieldOf c ''route'')) (\<lambda>route.
          if certificateReason route certificates (pr_Body req) \<noteq> ReasonEligible
          then Inr (zeroPayload, certificateReason route certificates (pr_Body req))
          else
            (let cert = hd certificates in
             bindE (spec_number route ''input_bound'') (\<lambda>input_bound.
             let budget = min MaxInputBytes input_bound - ac_FramingTokens cert in
             if budget < 0 then Inr (zeroPayload, ReasonInputBound)
             else if precheckChat (pr_Body req) (ac_SystemPrefix cert) (ac_ProviderCacheScope cert) budget \<noteq> ReasonEligible
             then Inr (zeroPayload, precheckChat (pr_Body req) (ac_SystemPrefix cert) (ac_ProviderCacheScope cert) budget)
             else if requestReason req \<noteq> ReasonEligible then Inr (zeroPayload, requestReason req)
             else if fieldOf route ''provider'' = AStr ''privatemode'' \<or> fieldOf route ''provider'' = AStr ''hixtube''
             then Inr (zeroPayload, ReasonRoute)
             else (case explicitCap (fieldOf (pr_Body req) ''max_tokens'') of
                 None \<Rightarrow> Inr (zeroPayload, ReasonOutputCap)
               | Some out_cap \<Rightarrow>
                 bindE (spec_number route ''output_limit'') (\<lambda>output_limit.
                   if out_cap > output_limit then Inr (zeroPayload, ReasonOutputCap)
                   else bindE (stringValue (fieldOf route ''provider'')) (\<lambda>provider.
                     case serializeChat env tail (pr_Body req) (ac_SystemPrefix cert) provider (ac_ProviderCacheScope cert) of
                       (wire, r) \<Rightarrow>
                         if r \<noteq> ReasonEligible then Inr (zeroPayload, r)
                         else pricePayload env c route (ac_FramingTokens cert) out_cap wire)))))))"

section \<open>Eligibility\<close>

record Decision =
  de_Eligible :: bool
  de_Reason :: Reason

record EligibilitySnapshot =
  es_Dispatch :: Decision
  es_Shadow :: Decision
  es_ShadowDispatchAllowed :: bool

text \<open>The local facts, between the health of the scopes and the payload.\<close>

definition localReason :: "claims \<Rightarrow> LocalContext \<Rightarrow> spec_error + Reason" where
  "localReason c l =
     (if \<not> list_all (\<lambda>f. spec_equal (fieldOf c f) (fieldOf (lc_Bindings l) f)) (Fields spec_bindings) then Inr ReasonBinding
      else if \<not> spec_equal (fieldOf c ''route'') (fieldOf (lc_Bindings l) ''route'') then Inr ReasonBinding
      else if lc_OwnerBootCount l \<noteq> 1 \<or> AStr (lc_OwnerBootID l) \<noteq> fieldOf c ''boot_id'' then Inr ReasonOwner
      else if \<not> lc_PilotAllowed l then Inr ReasonPilot
      else if \<not> lc_PaidProvenance l then Inr ReasonPaid
      else if \<not> lc_KeyEligible l then Inr ReasonKeyEligible
      else if \<not> lc_BootVerified l then Inr ReasonTrust
      else if \<not> lc_PolicyFresh l then Inr ReasonPolicy
      else bindE (assertObject (fieldOf c ''route'')) (\<lambda>route.
        if AStr (lc_RequestPolicyHash l) \<noteq> fieldOf route ''routing_policy_hash'' then Inr ReasonPolicy
        else if \<not> lc_StageDEnabled l then Inr ReasonStageD
        else Inr ReasonEligible))"

definition eligibilityReason :: "spec_env \<Rightarrow> chat_tail \<Rightarrow> ReceivedGrant \<Rightarrow> LocalContext \<Rightarrow> ParsedRequest \<Rightarrow> LocalHealth \<Rightarrow> Monotonic
    \<Rightarrow> spec_error + Reason" where
  "eligibilityReason env tail g l req health now =
     (case grant_Claims env (rg_grant g) of
        Inl _ \<Rightarrow> Inr ReasonGrant
      | Inr c \<Rightarrow>
        if \<not> grant_live g now then Inr ReasonDeadline
        else bindE (healthReason c health) (\<lambda>r.
          if r \<noteq> ReasonEligible then Inr r
          else bindE (localReason c l) (\<lambda>r.
            if r \<noteq> ReasonEligible then Inr r
            else bindE (PreparePayload env tail (rg_grant g) (lc_Certificates l) req) (\<lambda>(_, r). Inr r))))"

definition EvaluateEligibility :: "spec_env \<Rightarrow> chat_tail \<Rightarrow> ReceivedGrant \<Rightarrow> LocalContext \<Rightarrow> ParsedRequest \<Rightarrow> LocalHealth \<Rightarrow> Monotonic
    \<Rightarrow> spec_error + EligibilitySnapshot" where
  "EvaluateEligibility env tail g l req health now =
     bindE (eligibilityReason env tail g l req health now) (\<lambda>r.
       let shadow = \<lparr>de_Eligible = (r = ReasonEligible), de_Reason = r\<rparr>;
           r' = (if r = ReasonEligible \<and> vg_shadow (rg_grant g) then ReasonShadow else r)
       in Inr \<lparr>es_Dispatch = \<lparr>de_Eligible = (r' = ReasonEligible), de_Reason = r'\<rparr>, es_Shadow = shadow, es_ShadowDispatchAllowed = False\<rparr>)"

end
