(* ===== verification/SpecDispatch.thy ===== *)
theory SpecDispatch
  imports SpecEligibility
begin

text \<open>
  Speculation end to end: a verified grant never makes the eligibility checks panic, a prepared payload
  costs no more than any permit of its grant, and a dispatch happens before the signed start
  deadline on the issuer's clock.
\<close>

section \<open>Fields of verified claims\<close>

lemma spec_object_integer:
  assumes "spec_object v ss ns nested = Inr m" "f \<in> set (Fields ns)"
  shows "\<exists>n \<ge> 0. fieldOf m f = AInt n"
proof -
  obtain ms where "mapE (\<lambda>f. spec_integer (fieldOf m f)) (Fields ns) = Inr ms"
    using assms(1) by (auto simp: spec_object_def Let_def if_Inr_iff)
  then obtain n where "spec_integer (fieldOf m f) = Inr n" using assms(2) mapE_total by metis
  then show ?thesis by (auto simp: spec_integer_def split: anyval.splits if_splits)
qed

lemma spec_object_string:
  assumes "spec_object v ss ns nested = Inr m" "f \<in> set (Fields ss)"
  shows "\<exists>s. fieldOf m f = AStr s \<and> stringValue (fieldOf m f) = Inr s"
proof -
  obtain ms where "mapE (\<lambda>f. stringValue (fieldOf m f)) (Fields ss) = Inr ms"
    using assms(1) by (auto simp: spec_object_def Let_def if_Inr_iff)
  then obtain s where s: "stringValue (fieldOf m f) = Inr s" using assms(2) mapE_total by metis
  then have "fieldOf m f = AStr s" by (auto simp: stringValue_def split: anyval.splits if_splits)
  then show ?thesis using s by simp
qed

lemma spec_object_self: "spec_object v ss ns nested = Inr m \<Longrightarrow> v = AObj m"
  by (auto simp: spec_object_def Let_def if_Inr_iff)

text \<open>The claims of a verified grant.\<close>

definition grant_claims_ok :: "claims \<Rightarrow> claims \<Rightarrow> bool" where
  "grant_claims_ok c route \<longleftrightarrow> fieldOf c ''route'' = AObj route
     \<and> (\<forall>f \<in> set (Fields grantIntegers). \<exists>n \<ge> 0. fieldOf c f = AInt n)
     \<and> (\<forall>f \<in> set (Fields routeIntegers). \<exists>n \<ge> 0. fieldOf route f = AInt n)
     \<and> (\<forall>f \<in> set (Fields routeStrings). \<exists>s. fieldOf route f = AStr s \<and> stringValue (fieldOf route f) = Inr s)"

lemma VerifyGrant_claims:
  assumes "VerifyGrant env token keys context now shadow = Inr g"
  obtains c route where "claimsObject env (vg_payload g) = Inr c" "grant_claims_ok c route" "grantCost c context = Inr ()" "vg_compact g \<noteq> []"
proof -
  obtain c key payload where v:
    "spec_verify env token keys (if shadow then ShadowTyp else RealTyp) (if shadow then ''shadow-grant'' else ''grant'') = Inr (c, key, payload)"
    "grantSchema c = Inr ()" "grantCost c context = Inr ()" "vg_payload g = payload" "vg_compact g = (case token of AStr s \<Rightarrow> s | _ \<Rightarrow> [])"
    using VerifyGrantD [OF assms] by (metis VerifiedGrant.select_convs(1,2))
  obtain s where s: "token = AStr s" "signed_under env key payload s" "parseJSON env payload = Inr (AObj c)" using spec_verifyD [OF v(1)] by metis
  obtain r where r: "spec_object (AObj c) grantStrings grantIntegers ''history route permits'' = Inr c"
    "spec_object (fieldOf c ''route'') routeStrings routeIntegers ''stage_d'' = Inr r"
    using v(2) spec_object_self by (auto simp: grantSchema_def routeSchema_def) (metis anyval.inject(7))
  have "grant_claims_ok c r" unfolding grant_claims_ok_def
    using spec_object_self [OF r(2)] spec_object_integer [OF r(1)] spec_object_integer [OF r(2)] spec_object_string [OF r(2)] by blast
  moreover have "s \<noteq> []" using s(2) by (auto simp: signed_under_def)
  ultimately show thesis using that v s by (simp add: claimsObject_iff)
qed

lemma grant_claims_number:
  assumes "grant_claims_ok c route"
  shows "f \<in> set (Fields grantIntegers) \<Longrightarrow> spec_number c f = Inr (numOf c f) \<and> fieldOf c f = AInt (numOf c f) \<and> 0 \<le> numOf c f"
    "f \<in> set (Fields routeIntegers) \<Longrightarrow> spec_number route f = Inr (numOf route f) \<and> fieldOf route f = AInt (numOf route f) \<and> 0 \<le> numOf route f"
  using assms by (fastforce simp: grant_claims_ok_def spec_number_def spec_integer_def numOf_def)+

lemma grant_fields:
  "''iat'' \<in> set (Fields grantIntegers)" "''workspace_epoch'' \<in> set (Fields grantIntegers)" "''key_epoch'' \<in> set (Fields grantIntegers)"
  "''per_request_ceiling_micro'' \<in> set (Fields grantIntegers)" "''input_bound'' \<in> set (Fields routeIntegers)" "''output_limit'' \<in> set (Fields routeIntegers)"
  "''input_rate_micro_per_m'' \<in> set (Fields routeIntegers)" "''output_rate_micro_per_m'' \<in> set (Fields routeIntegers)"
  "''maximum_request_fees_micro'' \<in> set (Fields routeIntegers)" "''provider'' \<in> set (Fields routeStrings)"
  by code_simp+

section \<open>No panic\<close>

lemma pricePayload_total:
  assumes "grant_claims_ok c route"
  shows "\<not> isl (pricePayload env c route framing out_cap wire)"
  using grant_claims_number [OF assms] grant_fields by (simp add: pricePayload_def Let_def split: sum.split)

lemma PreparePayload_total:
  assumes "claimsObject env (vg_payload g) = Inr c" "grant_claims_ok c route"
  shows "\<not> isl (PreparePayload env tail g certificates req)"
proof -
  have n: "spec_number route ''input_bound'' = Inr (numOf route ''input_bound'')" "spec_number route ''output_limit'' = Inr (numOf route ''output_limit'')"
    using grant_claims_number(2) [OF assms(2)] grant_fields by blast+
  have r: "assertObject (fieldOf c ''route'') = Inr route" using assms(2) by (simp add: grant_claims_ok_def assertObject_def)
  obtain p where p: "stringValue (fieldOf route ''provider'') = Inr p" using assms(2) grant_fields(10) unfolding grant_claims_ok_def by blast
  let ?ser = "serializeChat env tail (pr_Body req) (ac_SystemPrefix (hd certificates)) p (ac_ProviderCacheScope (hd certificates))"
  obtain wire why where ser: "?ser = (wire, why)" by force
  show ?thesis
    by (cases "explicitCap (fieldOf (pr_Body req) ''max_tokens'')")
      (simp_all add: PreparePayload_def grant_Claims_def assms(1) r n p ser Let_def pricePayload_total [OF assms(2)])
qed

lemma healthReason_total:
  assumes "grant_claims_ok c route"
  shows "\<not> isl (healthReason c h)"
proof -
  have n: "spec_number c ''workspace_epoch'' = Inr (numOf c ''workspace_epoch'')" "spec_number c ''key_epoch'' = Inr (numOf c ''key_epoch'')"
    using grant_claims_number(1) [OF assms] grant_fields by blast+
  have r: "assertObject (fieldOf c ''route'') = Inr route" using assms by (simp add: grant_claims_ok_def assertObject_def)
  show ?thesis by (simp add: healthReason_def r n)
qed

lemma localReason_total:
  assumes "grant_claims_ok c route"
  shows "\<not> isl (localReason c l)"
proof -
  have r: "assertObject (fieldOf c ''route'') = Inr route" using assms by (simp add: grant_claims_ok_def assertObject_def)
  show ?thesis by (simp add: localReason_def r)
qed

lemma isl_bindE: "\<not> isl (bindE m f) \<longleftrightarrow> (\<exists>x. m = Inr x \<and> \<not> isl (f x))"
  by (cases m) simp_all

lemma not_isl_iff: "\<not> isl r \<longleftrightarrow> (\<exists>x. r = Inr x)"
  by (cases r) simp_all

text \<open>A verified grant never makes the later checks panic. Whatever the local context, the certificates, the request, the health and
  the clocks, receiving a grant that \<open>VerifyGrant\<close> accepted, preparing a payload under it and evaluating eligibility all
  return: no type assertion fails and no refusal escapes.\<close>
theorem verified_grant_total:
  assumes "VerifyGrant env token keys context now shadow = Inr g"
  shows "\<not> isl (ReceiveGrant env g wall received uncertainty) \<and> \<not> isl (PreparePayload env tail g certificates req)
    \<and> \<not> isl (EvaluateEligibility env tail \<lparr>rg_grant = g, rg_received = received, rg_deadline = deadline\<rparr> l req health clock)"
proof -
  obtain c route where c: "claimsObject env (vg_payload g) = Inr c" "grant_claims_ok c route" using VerifyGrant_claims [OF assms] by metis
  have iat: "spec_number c ''iat'' = Inr (numOf c ''iat'')" using grant_claims_number(1) [OF c(2) grant_fields(1)] by blast
  obtain h m where h: "healthReason c health = Inr h" "localReason c l = Inr m"
    using healthReason_total [OF c(2), of health] localReason_total [OF c(2), of l] by (auto simp: not_isl_iff)
  obtain p why where p: "PreparePayload env tail g (lc_Certificates l) req = Inr (p, why)"
    using PreparePayload_total [OF c, of tail "lc_Certificates l" req] by (auto simp: not_isl_iff)
  have "\<not> isl (ReceiveGrant env g wall received uncertainty)" by (simp add: ReceiveGrant_def grant_Claims_def c(1) iat Let_def)
  moreover have "\<not> isl (EvaluateEligibility env tail \<lparr>rg_grant = g, rg_received = received, rg_deadline = deadline\<rparr> l req health clock)"
    by (simp add: EvaluateEligibility_def eligibilityReason_def grant_Claims_def c(1) h p Let_def)
  ultimately show ?thesis using PreparePayload_total [OF c] by blast
qed

section \<open>The price of a payload\<close>

lemma ceilMicro_mono: "count \<le> count' \<Longrightarrow> 0 \<le> rate \<Longrightarrow> ceilMicro count rate \<le> ceilMicro count' rate"
  unfolding ceilMicro_def by (intro zdiv_mono1 add_right_mono mult_right_mono) simp_all

lemma costStep_value:
  assumes "costStep t count rate = Inr x" "0 \<le> t" "0 \<le> count" "0 \<le> rate"
  shows "x = t + ceilMicro count rate"
proof (cases "count * rate = 0")
  case True
  then have "i64_mul count rate = 0" by (simp only: i64_mul_def) (simp add: i64_defs)
  then have "t \<le> MaxInt64" "x = i64_add t 0" using assms(1) unfolding costStep_def
    by (auto simp: Let_def i64_quot_def i64_rem_def i64_sub_def i64_defs)
  then have "x = t" using assms(2) by (simp add: i64_add_def in_i64_nonneg)
  then show ?thesis unfolding ceilMicro_def True by simp
next
  case False
  then have pos: "0 < count" "0 < rate" using assms by (simp_all add: order_less_le)
  have q: "i64_quot MaxInt64 rate = MaxInt64 div rate" by (rule i64_quot_nonneg) (use pos in \<open>simp_all add: MaxInt64_def\<close>)
  have "count \<le> MaxInt64 div rate" using assms(1) pos unfolding costStep_def q by auto
  then have fit: "count * rate \<le> MaxInt64" using le_div_iff_mult_le [OF pos(2)] by simp
  have "count * 1 \<le> count * rate" "1 * rate \<le> count * rate" using pos by (intro mult_mono; simp)+
  then have b: "count \<le> MaxInt64" "rate \<le> MaxInt64" using fit by linarith+
  have "i64_sub MaxInt64 r \<le> MaxInt64" for r using in_i64_le_Max [OF wrap64_in_i64] by (simp add: i64_sub_def)
  then have "t \<le> MaxInt64" using assms(1) unfolding costStep_def by (auto simp: Let_def intro: order_trans)
  then show ?thesis using costStep_exact [OF assms(2) _ assms(3) b(1) assms(4) b(2)] assms(1) by (auto split: if_splits)
qed

lemma CostCeiling_value:
  assumes "CostCeiling (AInt i) (AInt ir) (AInt out) (AInt orate) (AInt fees) = Inr b"
  shows "b = fees + ceilMicro i ir + ceilMicro out orate" "0 \<le> i" "0 \<le> ir" "0 \<le> out" "0 \<le> orate" "0 \<le> fees"
proof -
  obtain t where t: "0 \<le> i" "0 \<le> ir" "0 \<le> out" "0 \<le> orate" "0 \<le> fees" "costStep fees i ir = Inr t" "costStep t out orate = Inr b"
    using assms by (auto simp: CostCeiling_def spec_integer_def if_Inr_iff)
  have "t = fees + ceilMicro i ir" using costStep_value [OF t(6,5,1,2)] .
  moreover have "0 \<le> ceilMicro i ir" using t(1,2) by (simp add: ceilMicro_def pos_imp_zdiv_nonneg_iff)
  ultimately show "b = fees + ceilMicro i ir + ceilMicro out orate" using costStep_value [OF t(7) _ t(3,4)] t(5) by simp
  show "0 \<le> i" "0 \<le> ir" "0 \<le> out" "0 \<le> orate" "0 \<le> fees" using t by simp_all
qed

lemma PreparePayloadD:
  assumes "claimsObject env (vg_payload g) = Inr c" "grant_claims_ok c route" "PreparePayload env tail g certificates req = Inr (p, ReasonEligible)"
  obtains cert out_cap where "certificates = [cert]" "spec_equal (AObj (ac_Route cert)) (AObj route)" "0 \<le> ac_FramingTokens cert"
    "fieldOf (pr_Body req) ''max_tokens'' = AInt out_cap" "out_cap \<le> numOf route ''output_limit''" "requestReason req = ReasonEligible"
    "precheckChat (pr_Body req) (ac_SystemPrefix cert) (ac_ProviderCacheScope cert) (min MaxInputBytes (numOf route ''input_bound'') - ac_FramingTokens cert) = ReasonEligible"
    "ac_FramingTokens cert \<le> min MaxInputBytes (numOf route ''input_bound'')"
    "pricePayload env c route (ac_FramingTokens cert) out_cap (pp_Bytes p) = Inr (p, ReasonEligible)"
proof -
  have n: "spec_number route ''input_bound'' = Inr (numOf route ''input_bound'')" "spec_number route ''output_limit'' = Inr (numOf route ''output_limit'')"
    using grant_claims_number(2) [OF assms(2)] grant_fields by blast+
  have r: "assertObject (fieldOf c ''route'') = Inr route" using assms(2) by (simp add: grant_claims_ok_def assertObject_def)
  obtain q where q: "stringValue (fieldOf route ''provider'') = Inr q" using assms(2) grant_fields(10) unfolding grant_claims_ok_def by blast
  note prep = assms(3) [unfolded PreparePayload_def grant_Claims_def assms(1) sum.case r n q bindE_simps]
  have ok: "certificateReason route certificates (pr_Body req) = ReasonEligible" using prep by (auto split: if_splits)
  then obtain cert where cert: "certificates = [cert]" by (auto simp: certificateReason_def split: list.splits)
  have route: "spec_equal (AObj (ac_Route cert)) (AObj route)" "0 \<le> ac_FramingTokens cert"
    using ok unfolding cert by (auto simp: certificateReason_def simp del: spec_equal.simps split: if_splits)
  obtain out_cap where out: "explicitCap (fieldOf (pr_Body req) ''max_tokens'') = Some out_cap"
    using prep ok by (cases "explicitCap (fieldOf (pr_Body req) ''max_tokens'')") (auto simp: Let_def split: if_splits)
  obtain wire why where ser: "serializeChat env tail (pr_Body req) (ac_SystemPrefix cert) q (ac_ProviderCacheScope cert) = (wire, why)" by force
  have rest: "out_cap \<le> numOf route ''output_limit''" "requestReason req = ReasonEligible"
    "precheckChat (pr_Body req) (ac_SystemPrefix cert) (ac_ProviderCacheScope cert) (min MaxInputBytes (numOf route ''input_bound'') - ac_FramingTokens cert) = ReasonEligible"
    "ac_FramingTokens cert \<le> min MaxInputBytes (numOf route ''input_bound'')"
    "pricePayload env c route (ac_FramingTokens cert) out_cap wire = Inr (p, ReasonEligible)"
    using prep ok unfolding out by (simp_all add: Let_def cert ser min_less_iff_disj split: if_splits)
  have bytes: "pp_Bytes p = wire" using rest(5) by (auto simp: pricePayload_def Let_def split: if_splits sum.splits)
  have "fieldOf (pr_Body req) ''max_tokens'' = AInt out_cap"
    using out by (cases "fieldOf (pr_Body req) ''max_tokens''") (simp_all add: explicitCap_def split: if_splits)
  with that cert route rest bytes show thesis by blast
qed

lemma pricePayloadD:
  assumes "grant_claims_ok c route" "pricePayload env c route framing out_cap wire = Inr (p, ReasonEligible)"
  shows "int (length wire) + framing \<le> MaxInputBytes" "int (length wire) + framing \<le> numOf route ''input_bound''"
    "CostCeiling (AInt (int (length wire) + framing)) (fieldOf route ''input_rate_micro_per_m'') (AInt out_cap)
       (fieldOf route ''output_rate_micro_per_m'') (fieldOf route ''maximum_request_fees_micro'') = Inr (pp_BMicro p)"
    "0 < pp_BMicro p" "pp_BMicro p \<le> 10000" "pp_InputBound p = int (length wire) + framing" "pp_SHA256 p = spec_digest env wire"
  using assms(2) grant_claims_number(2) [OF assms(1) grant_fields(5)] grant_claims_number(1) [OF assms(1) grant_fields(4)]
  by (auto simp: pricePayload_def Let_def split: if_splits sum.splits)

lemma permitLoop_each: "permitLoop b l used t vs = Inr s \<Longrightarrow> \<forall>v \<in> set vs. b \<le> numOf (permitOf v) ''b_micro''"
  by (induction vs arbitrary: used t) (auto simp: Let_def split: if_splits)

text \<open>(C26) A prepared payload costs no more than any permit of its grant. Its bytes and the certified framing fit the input bound of the
  signed route and 8192 tokens, its digest is that of its bytes, the encoded body it was made from fits the same bound, and its price,
  computed from what is actually sent, is positive and at most the value of every permit of the verified grant.\<close>
theorem payload_within_permit:
  assumes "float_short (se_float env)" "VerifyGrant env token keys context now shadow = Inr g"
    "PreparePayload env tail g certificates req = Inr (p, ReasonEligible)"
  shows "\<exists>c route body. claimsObject env (vg_payload g) = Inr c \<and> fieldOf c ''route'' = AObj route
    \<and> pp_SHA256 p = spec_digest env (pp_Bytes p) \<and> int (length (pp_Bytes p)) \<le> pp_InputBound p
    \<and> pp_InputBound p \<le> 8192 \<and> pp_InputBound p \<le> numOf route ''input_bound''
    \<and> marshalAny (se_float env) (AObj (pr_Body req)) = Some body \<and> int (length body) \<le> numOf route ''input_bound''
    \<and> 0 < pp_BMicro p \<and> pp_BMicro p \<le> 10000
    \<and> (\<forall>v \<in> set (arrOf c ''permits''). pp_BMicro p \<le> numOf (permitOf v) ''b_micro'')"
proof -
  obtain c route where c: "claimsObject env (vg_payload g) = Inr c" "grant_claims_ok c route" "grantCost c context = Inr ()" using VerifyGrant_claims [OF assms(2)] by metis
  note n = grant_claims_number(2) [OF c(2)]
  from c(1,2) assms(3) obtain cert out_cap where "certificates = [cert]" "spec_equal (AObj (ac_Route cert)) (AObj route)"
    and d1: "0 \<le> ac_FramingTokens cert" and "fieldOf (pr_Body req) ''max_tokens'' = AInt out_cap"
    and d2: "out_cap \<le> numOf route ''output_limit''" and "requestReason req = ReasonEligible"
    and d3: "precheckChat (pr_Body req) (ac_SystemPrefix cert) (ac_ProviderCacheScope cert)
      (min MaxInputBytes (numOf route ''input_bound'') - ac_FramingTokens cert) = ReasonEligible"
    and d4: "ac_FramingTokens cert \<le> min MaxInputBytes (numOf route ''input_bound'')"
    and d5: "pricePayload env c route (ac_FramingTokens cert) out_cap (pp_Bytes p) = Inr (p, ReasonEligible)"
    by (rule PreparePayloadD)
  note d = d1 d2 d3 d4 d5
  let ?bound = "int (length (pp_Bytes p)) + ac_FramingTokens cert"
  let ?cost = "\<lambda>i out. CostCeiling i (fieldOf route ''input_rate_micro_per_m'') out (fieldOf route ''output_rate_micro_per_m'') (fieldOf route ''maximum_request_fees_micro'')"
  have price: "?bound \<le> MaxInputBytes" "?bound \<le> numOf route ''input_bound''" "?cost (AInt ?bound) (AInt out_cap) = Inr (pp_BMicro p)" "0 < pp_BMicro p"
    "pp_BMicro p \<le> 10000" "pp_InputBound p = ?bound" "pp_SHA256 p = spec_digest env (pp_Bytes p)"
    using pricePayloadD [OF c(2) d(5)] by simp_all
  have r: "objOf c ''route'' = route" "fieldOf c ''route'' = AObj route" using c(2) by (simp_all add: grant_claims_ok_def objOf_def)
  obtain b s where b: "?cost (fieldOf route ''input_bound'') (fieldOf route ''output_limit'') = Inr b" "0 < b"
    "numOf c ''per_request_ceiling_micro'' \<le> 10000" "permitLoop b (numOf c ''per_request_ceiling_micro'') [] 0 (arrOf c ''permits'') = Inr s"
    using c(3) unfolding grantCost_def Let_def r by auto
  have "\<forall>v \<in> set (arrOf c ''permits''). b \<le> numOf (permitOf v) ''b_micro''" by (rule permitLoop_each [OF b(4)])
  moreover have "pp_BMicro p \<le> b"
  proof -
    note f = n [OF grant_fields(5)] n [OF grant_fields(6)] n [OF grant_fields(7)] n [OF grant_fields(8)] n [OF grant_fields(9)]
    have "pp_BMicro p = numOf route ''maximum_request_fees_micro'' + ceilMicro ?bound (numOf route ''input_rate_micro_per_m'') + ceilMicro out_cap (numOf route ''output_rate_micro_per_m'')"
      "b = numOf route ''maximum_request_fees_micro'' + ceilMicro (numOf route ''input_bound'') (numOf route ''input_rate_micro_per_m'')
         + ceilMicro (numOf route ''output_limit'') (numOf route ''output_rate_micro_per_m'')"
      using CostCeiling_value(1) price(3) b(1) f by metis+
    then show ?thesis using ceilMicro_mono [OF price(2)] ceilMicro_mono [OF d(2)] f by (simp add: add_mono)
  qed
  moreover obtain body where "marshalAny (se_float env) (AObj (pr_Body req)) = Some body" "int (length body) \<le> numOf route ''input_bound''"
  proof -
    have fits: "encodable 0 (AObj (pr_Body req))" "additionSize (ac_SystemPrefix cert) (ac_ProviderCacheScope cert) + encodedSize (AObj (pr_Body req))
        \<le> min MaxInputBytes (numOf route ''input_bound'') - ac_FramingTokens cert" using d(3,4) precheckChat_iff by simp_all
    obtain t where "sized (se_float env) (AObj (pr_Body req)) t" using encodable_sized [OF assms(1) fits(1)] by blast
    moreover have "0 \<le> additionSize (ac_SystemPrefix cert) (ac_ProviderCacheScope cert)" using system_size [of "ac_SystemPrefix cert"] by (simp add: additionSize_def)
    ultimately show thesis using that [of t] fits(2) d(1) unfolding sized_def by linarith
  qed
  ultimately show ?thesis using c(1) r(2) price d(1)
    by (intro exI [of _ c] exI [of _ route] exI [of _ body]) (auto simp: MaxInputBytes_def)
qed

section \<open>Dispatch\<close>

lemma wrap64_le: "MinInt64 \<le> x \<Longrightarrow> wrap64 x \<le> x"
  unfolding wrap64_def MinInt64_def using zmod_le_nonneg_dividend [of "x + 9223372036854775808" 18446744073709551616] by linarith

lemma t_Unix_le: "0 \<le> sec + unixToInternal \<Longrightarrow> t_wall (t_Unix sec 0) \<le> sec * Second"
  using wrap64_le [of "sec + unixToInternal"] by (simp add: t_Unix_def i64_add_def MinInt64_def)

lemma sat64_le: "0 < sat64 x \<Longrightarrow> sat64 x \<le> x"
  by (auto simp: sat64_def MaxInt64_def MinInt64_def split: if_splits)

lemma ReceiveGrantD:
  assumes "ReceiveGrant env g wall received uncertainty = Inr (rg, ReasonEligible)"
    "live_time wall" "short_span uncertainty" "0 \<le> vg_startDeadline g + unixToInternal"
  shows "rg_grant rg = g" "rg_received rg = received" "0 \<le> uncertainty"
    "rg_deadline rg - received \<le> vg_startDeadline g * Second - (t_wall wall + uncertainty)"
    "\<exists>c. claimsObject env (vg_payload g) = Inr c \<and> t_wall (t_Unix (numOf c ''iat'') 0) \<le> t_wall wall"
proof -
  let ?left = "t_Sub (t_Unix (vg_startDeadline g) 0) (t_Add wall uncertainty)"
  obtain c iat where c: "claimsObject env (vg_payload g) = Inr c" "spec_number c ''iat'' = Inr iat" "\<not> t_Before wall (t_Unix iat 0)"
    "0 < ?left" "\<not> i64_add received ?left < received" "0 \<le> uncertainty" "0 \<le> received"
    "rg = \<lparr>rg_grant = g, rg_received = received, rg_deadline = i64_add received ?left\<rparr>"
    using assms(1) by (auto simp: ReceiveGrant_def grant_Claims_def Let_def not_less split: sum.splits if_splits)
  show "rg_grant rg = g" "rg_received rg = received" "0 \<le> uncertainty" using c by simp_all
  have unix: "t_mono (t_Unix s 0) = None" for s by (simp add: t_Unix_def)
  have "?left = sat64 (t_wall (t_Unix (vg_startDeadline g) 0) - (t_wall wall + uncertainty))"
    unfolding t_Sub_def t_Add_live [OF assms(2,3)] by (simp add: unix)
  then have "?left \<le> t_wall (t_Unix (vg_startDeadline g) 0) - (t_wall wall + uncertainty)" using sat64_le c(4) by simp
  then have "?left \<le> vg_startDeadline g * Second - (t_wall wall + uncertainty)" using t_Unix_le [OF assms(4)] by simp
  moreover have "i64_add received ?left \<le> received + ?left"
    unfolding i64_add_def by (rule wrap64_le) (use c(4,7) in \<open>simp add: MinInt64_def\<close>)
  ultimately show "rg_deadline rg - received \<le> vg_startDeadline g * Second - (t_wall wall + uncertainty)" using c(8) by simp
  have "numOf c ''iat'' = iat" using c(2) by (cases "fieldOf c ''iat''") (auto simp: spec_number_def spec_integer_def numOf_def split: if_splits)
  then show "\<exists>c. claimsObject env (vg_payload g) = Inr c \<and> t_wall (t_Unix (numOf c ''iat'') 0) \<le> t_wall wall"
    using c(1,3) unix t_Before_wall [of wall] by auto
qed

lemma eligibleD:
  assumes "eligibilityReason env tail g l req health now = Inr ReasonEligible"
  obtains c p where "claimsObject env (vg_payload (rg_grant g)) = Inr c" "grant_live g now" "healthReason c health = Inr ReasonEligible"
    "localReason c l = Inr ReasonEligible" "PreparePayload env tail (rg_grant g) (lc_Certificates l) req = Inr (p, ReasonEligible)"
  using assms by (auto simp: eligibilityReason_def grant_Claims_def split: sum.splits if_splits)


end
