(* ===== verification/SpecDispatchExample.thy ===== *)
theory SpecDispatchExample
  imports SpecExample SpecDispatch
begin

text \<open>A request, a certificate and a local context that make the example grant dispatch.\<close>

definition exBody :: claims where
  "exBody = [(''max_tokens'', AInt 5), (''messages'', AArr [AObj [(''content'', AStr ''h''), (''role'', AStr ''user'')]]), (''model'', AStr ''u''),
     (''provider'', AObj [(''usage'', AStr ''Credits'')]), (''stream'', ABool True)]"

definition exRequest :: ParsedRequest where
  "exRequest = \<lparr>pr_Body = exBody, pr_RouteType = ''chat.completions'', pr_CallerIdempotency = CaptureCallerIdempotency False exBody,
     pr_InferenceReceipts = False, pr_BYOK = False, pr_CustomModel = False, pr_Orchestration = False, pr_ConfidentialOnly = False,
     pr_ExtraReservationCost = 0, pr_ResponseModel = []\<rparr>"

definition exRouteClaims :: claims where
  "exRouteClaims = (case exRoute of AObj m \<Rightarrow> m | _ \<Rightarrow> [])"

definition exCertificate :: AdapterCertificate where
  "exCertificate = \<lparr>ac_Route = exRouteClaims, ac_BoundAlgorithm = ConservativeUTF8Bytes, ac_FramingKnown = True, ac_FramingTokens = 3,
     ac_SystemPrefix = [''s''], ac_ProviderCacheScope = ''c'', ac_HardOutputCap = True, ac_SingleAttempt = True, ac_NoHiddenTools = True,
     ac_NoHiddenReasoning = True, ac_VendorPricesBounded = True\<rparr>"

definition exTail :: chat_tail where
  "exTail = (\<lambda>_ _ _ _ _. Some ''wire'')"

definition exPayload :: PreparedPayload where
  "exPayload = \<lparr>pp_Bytes = ''wire'', pp_SHA256 = spec_digest (exEnv exGrantDocs) ''wire'', pp_InputBound = 7, pp_BMicro = 12\<rparr>"

lemma exRouteClaims: "fieldOf (exGrant 1 ''g'') ''route'' = AObj exRouteClaims"
  by (simp add: exGrant_def exRouteClaims_def exRoute_def)

lemma exPrice: "CostCeiling (AInt 7) (fieldOf exRouteClaims ''input_rate_micro_per_m'') (AInt 5)
    (fieldOf exRouteClaims ''output_rate_micro_per_m'') (fieldOf exRouteClaims ''maximum_request_fees_micro'') = Inr 12"
  by code_simp

lemma exRoute_numbers: "spec_number exRouteClaims ''input_bound'' = Inr 1000" "spec_number exRouteClaims ''output_limit'' = Inr 10"
  "stringValue (fieldOf exRouteClaims ''provider'') = Inr ''p''" "spec_number (exGrant 1 ''g'') ''per_request_ceiling_micro'' = Inr 10000"
  "\<not> (fieldOf exRouteClaims ''provider'' = AStr ''privatemode'' \<or> fieldOf exRouteClaims ''provider'' = AStr ''hixtube'')"
  by code_simp+

lemma exPrecheck: "precheckChat exBody [''s''] ''c'' 997 = ReasonEligible"
proof -
  have len: "length (marshalText ''max_tokens'') = 12" "length (marshalText ''messages'') = 10" "length (marshalText ''content'') = 9" "length (marshalText ''h'') = 3"
    "length (marshalText ''role'') = 6" "length (marshalText ''user'') = 6" "length (marshalText ''model'') = 7" "length (marshalText ''u'') = 3"
    "length (marshalText ''provider'') = 10" "length (marshalText ''usage'') = 7" "length (marshalText ''Credits'') = 9" "length (marshalText ''stream'') = 8"
    "length (marshalText ''s'') = 3" "length (marshalText ''c'') = 3"
    by (subst marshalText_plain; simp add: plain_char_def byte_def)+
  have "encodable 0 (AObj exBody)" "additions_valid [''s''] ''c''"
    by (simp_all add: exBody_def additions_valid_def) (intro conjI utf8_Valid_plain; simp add: plain_char_def byte_def)+
  moreover have "itoa 5 = ''5''" by code_simp
  then have "additionSize [''s''] ''c'' + encodedSize (AObj exBody) \<le> 997" by (simp add: additionSize_def exBody_def len)
  ultimately show ?thesis using precheckChat_iff [of 997 exBody "[''s'']" "''c''"] by simp
qed

lemma exCertified: "certificateReason exRouteClaims [exCertificate] exBody = ReasonEligible"
  by code_simp

lemma exProvider: "providerReason exBody = ReasonEligible"
proof -
  have "creditsUsage ''Credits''"
    by (simp add: creditsUsage_def runes_ascii byte_def unicode_space_def foldsTo_def)
  moreover have "spec_member ''usage'' ''usage order only ignore allow_fallbacks require_parameters data_collection''" by code_simp
  ultimately show ?thesis by (simp add: providerReason_def exBody_def)
qed

lemma exRequested: "requestReason exRequest = ReasonEligible"
proof -
  have "\<not> hasAny exBody ''inference_receipt inference_receipts''"
    "\<not> hasAny exBody ''tools tool_choice functions function_call plugins max_tool_calls web_search_options parallel_tool_calls''"
    "\<not> hasAny exBody ''reasoning reasoning_effort thinking''" "\<not> hasAny exBody ''audio modalities image video''"
    "\<not> hasAny exBody ''models fusion decide advisor subagent batch depth''" "\<not> hasAny exBody ''prompt_url external_prompt''"
    "\<not> hasAny exBody ''prompt_cache_key prompt_cache_options''"
    "\<not> hasAny exBody ''user session_id trace metadata tags app http_referer app_categories request_fingerprint''"
    by code_simp+
  moreover have "fieldOf exBody ''stream'' = ABool True" "map_of exBody ''idempotency_key'' = None" "map_of exBody ''service_tier'' = None"
    by (simp_all add: exBody_def)
  ultimately show ?thesis using exProvider by (simp add: requestReason_def exRequest_def CaptureCallerIdempotency_def)
qed

lemma exSerialized: "serializeChat (exEnv docs) exTail exBody [''s''] ''p'' ''c'' = (''wire'', ReasonEligible)"
proof -
  have "\<exists>t. marshalAny (se_float (exEnv docs)) (AObj exBody) = Some t" by (simp add: exBody_def)
  moreover have "list_all (\<lambda>e. fst e \<in> set chatFields) exBody" "messagesReason [AObj [(''content'', AStr ''h''), (''role'', AStr ''user'')]] = ReasonEligible"
    by code_simp+
  ultimately show ?thesis by (auto simp: serializeChat_def exBody_def exTail_def)
qed

lemma exPrepared: "PreparePayload (exEnv exGrantDocs) exTail exVerified [exCertificate] exRequest = Inr (exPayload, ReasonEligible)"
proof -
  have body: "pr_Body exRequest = exBody" "ac_SystemPrefix exCertificate = [''s'']" "ac_ProviderCacheScope exCertificate = ''c''" "ac_FramingTokens exCertificate = 3"
    by (simp_all add: exRequest_def exCertificate_def)
  have "explicitCap (fieldOf exBody ''max_tokens'') = Some 5" by code_simp
  moreover have "pricePayload (exEnv exGrantDocs) (exGrant 1 ''g'') exRouteClaims 3 5 ''wire'' = Inr (exPayload, ReasonEligible)"
    by (simp add: pricePayload_def MaxInputBytes_def exPrice exRoute_numbers exPayload_def)
  ultimately show ?thesis using exVerified_claims exPrecheck exCertified exRequested exRoute_numbers exSerialized [of exGrantDocs]
    unfolding PreparePayload_def grant_Claims_def body exVerified_claims sum.case exRouteClaims assertObject_def anyval.case
    by (simp add: body MaxInputBytes_def)
qed

section \<open>Witnesses\<close>

theorem payload_within_permit_witness: "pp_BMicro exPayload \<le> 10000 \<and> int (length (pp_Bytes exPayload)) \<le> pp_InputBound exPayload"
proof -
  have "float_short (se_float (exEnv exGrantDocs))" by (simp add: float_short_def exEnv_def)
  from payload_within_permit [OF this exGrant_accepted exPrepared] show ?thesis by blast
qed

theorem verified_grant_total_witness:
  "\<not> isl (PreparePayload (exEnv exGrantDocs) exTail exVerified [] exRequest)"
  using verified_grant_total [OF exGrant_accepted] by blast

definition exLocal :: LocalContext where
  "exLocal = \<lparr>lc_Bindings = exContext, lc_Certificates = [exCertificate], lc_RequestPolicyHash = concat (replicate 32 ''61''), lc_OwnerBootID = ''b'',
     lc_OwnerBootCount = 1, lc_PilotAllowed = True, lc_PaidProvenance = True, lc_KeyEligible = True, lc_BootVerified = True,
     lc_PolicyFresh = True, lc_StageDEnabled = True\<rparr>"

definition exHealth :: LocalHealth where
  "exHealth = (let s = \<lparr>sh_Known = True, sh_Healthy = True, sh_Latched = False, sh_Epoch = 1\<rparr> in
     \<lparr>lh_WorkspaceID = ''w'', lh_KeyID = ''k'', lh_Provider = ''p'', lh_Workspace = s, lh_Key = s, lh_ProviderKnown = True, lh_ProviderHealthy = True,
      lh_InfrastructureHealthy = True\<rparr>)"

definition exWall :: gotime where
  "exWall = \<lparr>t_wall = 1001 * Second, t_mono = Some 0\<rparr>"

definition exReceived :: ReceivedGrant where
  "exReceived = \<lparr>rg_grant = exVerified, rg_received = 500, rg_deadline = 500 + 18 * Second\<rparr>"

lemma exReceive: "ReceiveGrant (exEnv exGrantDocs) exVerified exWall 500 Second = Inr (exReceived, ReasonEligible)"
proof -
  have c: "spec_number (exGrant 1 ''g'') ''iat'' = Inr 1000" by code_simp
  have v: "vg_compact exVerified \<noteq> []" "vg_startDeadline exVerified = 1020" by (simp_all add: exVerified_def exGrantToken_def exToken_def)
  have live: "live_time exWall" "short_span Second" by (simp_all add: live_time_def exWall_def short_span_def)
  have u: "t_Unix 1000 0 = \<lparr>t_wall = 1000 * Second, t_mono = None\<rparr>" "t_Unix 1020 0 = \<lparr>t_wall = 1020 * Second, t_mono = None\<rparr>"
    by (simp_all add: t_Unix_def i64_add_def time_defs i64_defs)
  show ?thesis unfolding ReceiveGrant_def grant_Claims_def exVerified_claims sum.case c bindE_simps v(2) t_Add_live [OF live] u
    using v(1) by (simp add: t_Before_def t_Sub_def exWall_def exReceived_def sat64_def i64_add_def i64_defs)
qed

definition exSnapshot :: EligibilitySnapshot where
  "exSnapshot = (let d = \<lparr>de_Eligible = True, de_Reason = ReasonEligible\<rparr> in \<lparr>es_Dispatch = d, es_Shadow = d, es_ShadowDispatchAllowed = False\<rparr>)"

lemma exEligible: "EvaluateEligibility (exEnv exGrantDocs) exTail exReceived exLocal exRequest exHealth 600 = Inr exSnapshot"
proof -
  have "healthReason (exGrant 1 ''g'') exHealth = Inr ReasonEligible" by code_simp
  moreover have "localReason (exGrant 1 ''g'') exLocal = Inr ReasonEligible" by code_simp
  moreover have "grant_live exReceived 600" by (simp add: grant_live_def exReceived_def exVerified_def exGrantToken_def exToken_def)
  moreover have "rg_grant exReceived = exVerified" "lc_Certificates exLocal = [exCertificate]" "\<not> vg_shadow exVerified"
    by (simp_all add: exReceived_def exLocal_def exVerified_def)
  ultimately show ?thesis
    by (simp add: EvaluateEligibility_def eligibilityReason_def grant_Claims_def exVerified_claims exPrepared exSnapshot_def Let_def)
qed


end
