(* ===== verification/GoUnmarshal.thy ===== *)
theory GoUnmarshal
  imports GoJSON
begin

text \<open>
  What the control-plane client uses of \<open>json.Unmarshal\<close> into a struct: members are taken in order,
  a member goes to the field of its exact name or else to one whose name it folds to, a later
  member overwrites an earlier one, an unknown member is skipped and \<open>null\<close> leaves a value as it
  was (a pointer becomes nil). A value of the wrong type makes the call fail; every caller discards
  the struct then, so a failure is \<open>None\<close>. The text has been read as a \<open>json\<close> value before.
\<close>

type_synonym 's decoder = "'s \<Rightarrow> json \<Rightarrow> 's option"

text \<open>\<open>foldName\<close> of \<open>encoding/json\<close>: of the runes outside ASCII only the Kelvin sign and the long s fold
  to a letter of a field name.\<close>

function foldName :: "string \<Rightarrow> string" where
  "foldName s = (if s = [] then []
     else if take 3 s = [CHR 0xe2, CHR 0x84, CHR 0xaa] then CHR ''k'' # foldName (drop 3 s)
     else if take 2 s = [CHR 0xc5, CHR 0xbf] then CHR ''s'' # foldName (drop 2 s)
     else to_lower_char (hd s) # foldName (tl s))"
  by auto
termination by (relation "measure length") auto

declare foldName.simps [simp del]

definition fieldNamed :: "(string \<times> 'f) list \<Rightarrow> string \<Rightarrow> 'f option" where
  "fieldNamed fs key = (case map_of fs key of
     Some f \<Rightarrow> Some f
   | None \<Rightarrow> map_option snd (find (\<lambda>e. foldName (fst e) = foldName key) fs))"

fun uMembers :: "(string \<times> 's decoder) list \<Rightarrow> 's \<Rightarrow> (string \<times> json) list \<Rightarrow> 's option" where
  "uMembers fs s [] = Some s"
| "uMembers fs s ((k, v) # ms) = (case fieldNamed fs k of
     None \<Rightarrow> uMembers fs s ms
   | Some f \<Rightarrow> (case f s v of None \<Rightarrow> None | Some s' \<Rightarrow> uMembers fs s' ms))"

definition uStruct :: "(string \<times> 's decoder) list \<Rightarrow> 's decoder" where
  "uStruct fs s j = (case j of JNull \<Rightarrow> Some s | JObj ms \<Rightarrow> uMembers fs s ms | _ \<Rightarrow> None)"

definition uString :: "((string \<Rightarrow> string) \<Rightarrow> 's \<Rightarrow> 's) \<Rightarrow> 's decoder" where
  "uString upd s j = (case j of JStr t \<Rightarrow> Some (upd (\<lambda>_. t) s) | JNull \<Rightarrow> Some s | _ \<Rightarrow> None)"

definition uInt :: "((int \<Rightarrow> int) \<Rightarrow> 's \<Rightarrow> 's) \<Rightarrow> 's decoder" where
  "uInt upd s j = (case j of JNum t \<Rightarrow> map_option (\<lambda>n. upd (\<lambda>_. n) s) (ParseInt t) | JNull \<Rightarrow> Some s | _ \<Rightarrow> None)"

definition uBool :: "((bool \<Rightarrow> bool) \<Rightarrow> 's \<Rightarrow> 's) \<Rightarrow> 's decoder" where
  "uBool upd s j = (case j of JBool b \<Rightarrow> Some (upd (\<lambda>_. b) s) | JNull \<Rightarrow> Some s | _ \<Rightarrow> None)"

text \<open>A pointer field, filled through the decoder of what it points to.\<close>

definition uPtr :: "('s \<Rightarrow> 'a option) \<Rightarrow> (('a option \<Rightarrow> 'a option) \<Rightarrow> 's \<Rightarrow> 's) \<Rightarrow> 'a \<Rightarrow> 'a decoder \<Rightarrow> 's decoder" where
  "uPtr get upd zero dec s j = (case j of
     JNull \<Rightarrow> Some (upd (\<lambda>_. None) s)
   | _ \<Rightarrow> map_option (\<lambda>a. upd (\<lambda>_. Some a) s) (dec (case get s of None \<Rightarrow> zero | Some a \<Rightarrow> a) j))"

text \<open>A struct field, filled in place.\<close>

definition uNested :: "('s \<Rightarrow> 'a) \<Rightarrow> (('a \<Rightarrow> 'a) \<Rightarrow> 's \<Rightarrow> 's) \<Rightarrow> 'a decoder \<Rightarrow> 's decoder" where
  "uNested get upd dec s j = map_option (\<lambda>a. upd (\<lambda>_. a) s) (dec (get s) j)"

text \<open>A field of type \<open>json.RawMessage\<close>: any value, \<open>null\<close> included. An absent one is \<open>None\<close>.\<close>

definition uRaw :: "((json option \<Rightarrow> json option) \<Rightarrow> 's \<Rightarrow> 's) \<Rightarrow> 's decoder" where
  "uRaw upd s j = Some (upd (\<lambda>_. Some j) s)"

definition scalarString :: "string decoder" where
  "scalarString = uString (\<lambda>f. f)"

definition scalarInt :: "int decoder" where
  "scalarInt = uInt (\<lambda>f. f)"

lemmas unmarshal_defs = uStruct_def uString_def uInt_def uBool_def uPtr_def uNested_def uRaw_def
  scalarString_def scalarInt_def

text \<open>Members with no field of their name do not matter.\<close>

lemma uMembers_skip: "fieldNamed fs k = None \<Longrightarrow> uMembers fs s (ms @ (k, v) # ns) = uMembers fs s (ms @ ns)"
  by (induction ms arbitrary: s) (auto split: option.splits)

lemma uMembers_append: "uMembers fs s (ms @ ns) = Option.bind (uMembers fs s ms) (\<lambda>s'. uMembers fs s' ns)"
  by (induction ms arbitrary: s) (auto split: option.splits)

lemma fieldNamed_exact [simp]: "map_of fs k = Some f \<Longrightarrow> fieldNamed fs k = Some f"
  by (simp add: fieldNamed_def)

end
