(* ===== verification/ControlClient.thy ===== *)
theory ControlClient
  imports ControlPlane GoUnmarshal
begin

text \<open>
  Calls of the enclave to the control plane (package \<open>internal/trustedrouter\<close>: \<open>endpoints.go\<close>,
  \<open>authorization_retry.go\<close>, \<open>settlement_retry.go\<close> and the transport half of \<open>client.go\<close>). Billing authorities are
  ordered, and a request moves to the next one only when the dialer failed, so that no two
  of them can have received it; a retry stays with the authority that was selected and repeats the bytes it was given.

  The network, the timer, the caller's context and the random source are functions of the
  number of interactions so far (\<open>net_env\<close>); a call returns the state of the network with the history of
  everything it handed to \<open>http.Client.Do\<close> and what came of it. A context with a deadline shows in
  the errors these functions give. \<open>json.Unmarshal\<close>'s syntax check and \<open>url.Parse\<close> are parameters. Receivers are not
  nil. Logging and the timing of shadow attempts are left out.
\<close>

section \<open>Errors\<close>

text \<open>The errors of an unwrapping chain that the code asks for.\<close>

datatype sentinel =
    Canceled | DeadlineExceeded | ECONNRESET | EPIPE | IoEOF | ErrUnexpectedEOF | DialFailure

datatype go_error = ControlErr ControlPlaneError | ChainErr string "sentinel list"

fun errors_Is :: "go_error \<Rightarrow> sentinel \<Rightarrow> bool" where
  "errors_Is (ChainErr _ chain) s = (s \<in> set chain)"
| "errors_Is (ControlErr _) s = False"

fun errors_AsControl :: "go_error \<Rightarrow> ControlPlaneError option" where
  "errors_AsControl (ControlErr e) = Some e"
| "errors_AsControl (ChainErr _ _) = None"

fun wrapError :: "string \<Rightarrow> go_error \<Rightarrow> go_error" where
  "wrapError msg (ChainErr m chain) = ChainErr (msg @ m) chain"
| "wrapError msg (ControlErr e) = ControlErr e"

definition errorf :: "string \<Rightarrow> go_error" where
  "errorf msg = ChainErr msg []"

text \<open>The wrapped dialer tags its errors.\<close>

fun markDialFailures :: "go_error \<Rightarrow> go_error" where
  "markDialFailures (ChainErr m chain) = ChainErr (''dial: '' @ m) (DialFailure # chain)"
| "markDialFailures (ControlErr e) = ControlErr e"

definition isDialFailure :: "go_error option \<Rightarrow> bool" where
  "isDialFailure err = (case err of
     None \<Rightarrow> False
   | Some e \<Rightarrow> if errors_Is e Canceled \<or> errors_Is e DeadlineExceeded then False else errors_Is e DialFailure)"

section \<open>Requests, replies and the network\<close>

record http_request =
  hq_URL :: string
  hq_Header :: "(string \<times> string) list"
  hq_Body :: string

record http_response =
  hr_StatusCode :: int
  hr_RetryAfter :: string
  hr_Data :: string
  hr_Fail :: "go_error option"

record net_env =
  ne_NewRequest :: "string \<Rightarrow> go_error option"
  ne_Do :: "nat \<Rightarrow> http_request \<Rightarrow> go_error + http_response"
  ne_ctxErr :: "nat \<Rightarrow> go_error option"
  ne_timer :: "nat \<Rightarrow> int \<Rightarrow> go_error option"
  ne_rand :: "nat \<Rightarrow> int \<Rightarrow> int option"
  ne_json :: "string \<Rightarrow> json option"

record net_state =
  ns_now :: nat
  ns_sent :: "(http_request \<times> (go_error + http_response)) list"

definition tick :: "net_state \<Rightarrow> net_state" where
  "tick w = w\<lparr>ns_now := Suc (ns_now w)\<rparr>"

definition httpc_Do :: "net_env \<Rightarrow> http_request \<Rightarrow> net_state \<Rightarrow> (go_error + http_response) \<times> net_state" where
  "httpc_Do env req w = (let out = ne_Do env (ns_now w) req in (out, tick (w\<lparr>ns_sent := ns_sent w @ [(req, out)]\<rparr>)))"

text \<open>The values a context carries for the client.\<close>

record call_context =
  cx_asyncMode :: string
  cx_shadowHeader :: string
  cx_videoProviders :: "string list option"

record Client =
  cl_baseURLs :: "string list"
  cl_configurationError :: "go_error option"
  cl_internalToken :: string
  cl_asyncShadow :: bool

definition header_Set :: "string \<Rightarrow> string \<Rightarrow> (string \<times> string) list \<Rightarrow> (string \<times> string) list" where
  "header_Set k v h = filter (\<lambda>e. fst e \<noteq> k) h @ [(k, v)]"

definition header_Del :: "string \<Rightarrow> (string \<times> string) list \<Rightarrow> (string \<times> string) list" where
  "header_Del k h = filter (\<lambda>e. fst e \<noteq> k) h"

definition authorizePath :: string where
  "authorizePath = ''/internal/gateway/authorize''"

definition settlePath :: string where
  "settlePath = ''/internal/gateway/settle''"

definition refundPath :: string where
  "refundPath = ''/internal/gateway/refund''"

fun joinList :: "string list \<Rightarrow> string" where
  "joinList [] = []"
| "joinList [x] = x"
| "joinList (x # y # ys) = x @ '','' @ joinList (y # ys)"

definition requestHeaders :: "Client \<Rightarrow> call_context \<Rightarrow> string \<Rightarrow> string \<Rightarrow> (string \<times> string) list" where
  "requestHeaders c cx path bootAuthHeader =
     (let h0 = header_Set ''x-trustedrouter-internal-token'' (cl_internalToken c) (header_Set ''Content-Type'' ''application/json'' []);
          h1 = (if cl_asyncShadow c \<and> path = authorizePath then header_Set ''X-TR-Settlement-Shadow-Policy'' ''shadow-v2'' h0 else h0);
          h2 = (if cx_asyncMode cx \<in> {''async-v1'', ''sync''} \<and> path \<in> {authorizePath, settlePath}
                then header_Set ''X-TR-Settlement-Mode'' (cx_asyncMode cx) h1 else h1);
          h3 = (if cx_shadowHeader cx \<noteq> [] \<and> path \<in> {settlePath, refundPath}
                then header_Set ''X-TR-Settlement-Shadow'' (cx_shadowHeader cx) (header_Del ''X-TR-Settlement-Mode'' h2) else h2);
          h4 = (if bootAuthHeader \<noteq> [] then header_Set ''X-TR-Boot-Auth'' bootAuthHeader h3 else h3)
      in if path = authorizePath
         then (case cx_videoProviders cx of Some allowed \<Rightarrow> header_Set ''X-Quill-Video-Allowed-Providers'' (joinList allowed) h4 | None \<Rightarrow> h4)
         else h4)"

section \<open>Selecting an authority\<close>

fun tryEndpoints :: "net_env \<Rightarrow> Client \<Rightarrow> call_context \<Rightarrow> string \<Rightarrow> string \<Rightarrow> int \<Rightarrow> string \<Rightarrow> int \<Rightarrow> string list \<Rightarrow> net_state
    \<Rightarrow> (go_error + http_response) \<times> int \<times> net_state" where
  "tryEndpoints env c cx path body pinned boot i [] w =
     (Inl (errorf (''trustedrouter: post '' @ path @ '': no endpoint dialable'')), -1, w)"
| "tryEndpoints env c cx path body pinned boot i (base # rest) w =
     (case ne_NewRequest env (base @ path) of
        Some e \<Rightarrow> (Inl e, -1, w)
      | None \<Rightarrow>
        (case httpc_Do env \<lparr>hq_URL = base @ path, hq_Header = requestHeaders c cx path boot, hq_Body = body\<rparr> w of
           (Inr resp, w') \<Rightarrow> (Inr resp, i, w')
         | (Inl e, w') \<Rightarrow>
             if pinned \<ge> 0 \<or> \<not> isDialFailure (Some e) \<or> rest = []
             then (Inl (wrapError (''trustedrouter: post '' @ path @ '': '') e), i, w')
             else tryEndpoints env c cx path body pinned boot (i + 1) rest w'))"

definition postToControlPlaneWithBootAuth ::
  "net_env \<Rightarrow> Client \<Rightarrow> call_context \<Rightarrow> string \<Rightarrow> string \<Rightarrow> int \<Rightarrow> string \<Rightarrow> net_state \<Rightarrow> (go_error + http_response) \<times> int \<times> net_state" where
  "postToControlPlaneWithBootAuth env c cx path body pinned boot w =
     (case cl_configurationError c of
        Some e \<Rightarrow> (Inl e, -1, w)
      | None \<Rightarrow>
        if cl_baseURLs c = [] then (Inl (errorf ''trustedrouter: no control-plane endpoint configured''), -1, w)
        else if pinned \<ge> 0 then
          (if pinned \<ge> int (length (cl_baseURLs c))
           then (Inl (errorf (''trustedrouter: invalid control-plane endpoint index '' @ itoa pinned)), -1, w)
           else tryEndpoints env c cx path body pinned boot pinned [cl_baseURLs c ! nat pinned] w)
        else tryEndpoints env c cx path body pinned boot 0 (cl_baseURLs c) w)"

section \<open>Replies\<close>

text \<open>\<open>io.ReadAll(io.LimitReader(body, n))\<close>: a failure of the stream shows only when it comes before the limit.\<close>

definition readLimited :: "nat \<Rightarrow> http_response \<Rightarrow> go_error + string" where
  "readLimited n r = (if n \<le> length (hr_Data r) then Inr (take n (hr_Data r))
     else case hr_Fail r of Some e \<Rightarrow> Inl e | None \<Rightarrow> Inr (hr_Data r))"

definition sanitizeRetryAfter :: "string \<Rightarrow> string" where
  "sanitizeRetryAfter v0 = (let v = TrimSpace v0 in
     if v = [] then [] else if list_all (\<lambda>c. digit_of c \<noteq> None) v then v else [])"

record error_envelope =
  ee_Message :: string
  ee_Type :: string
  ee_Reason :: string

definition errorEnvelope :: "error_envelope decoder" where
  "errorEnvelope = uStruct [(''error'', uStruct
     [(''message'', uString ee_Message_update), (''type'', uString ee_Type_update), (''reason'', uString ee_Reason_update)])]"

definition controlError :: "net_env \<Rightarrow> string \<Rightarrow> http_response \<Rightarrow> string \<Rightarrow> ControlPlaneError" where
  "controlError env path resp errBody =
     (let e = emptyControlPlaneError\<lparr>ce_Path := path, ce_StatusCode := hr_StatusCode resp, ce_Body := errBody,
               ce_RetryAfter := sanitizeRetryAfter (hr_RetryAfter resp)\<rparr>
      in case Option.bind (ne_json env errBody) (errorEnvelope \<lparr>ee_Message = [], ee_Type = [], ee_Reason = []\<rparr>) of
           None \<Rightarrow> e
         | Some v \<Rightarrow> e\<lparr>ce_Message := TrimSpace (ee_Message v), ce_Type := TrimSpace (ee_Type v), ce_Reason := TrimSpace (ee_Reason v)\<rparr>)"

definition postJSONBytesWithBootAuthAtEndpoint ::
  "net_env \<Rightarrow> Client \<Rightarrow> call_context \<Rightarrow> string \<Rightarrow> string \<Rightarrow> (http_response \<Rightarrow> go_error + 'a) \<Rightarrow> int \<Rightarrow> string \<Rightarrow> net_state
    \<Rightarrow> int \<times> (go_error + 'a) \<times> net_state" where
  "postJSONBytesWithBootAuthAtEndpoint env c cx path body out pinned boot w =
     (case postToControlPlaneWithBootAuth env c cx path body pinned boot w of
        (Inl e, sel, w') \<Rightarrow> (sel, Inl e, w')
      | (Inr resp, sel, w') \<Rightarrow>
          if hr_StatusCode resp \<ge> 400 then
            (case readLimited 4096 resp of
               Inl e \<Rightarrow> (sel, Inl (wrapError (''trustedrouter: read '' @ path @ '' error body: '') e), w')
             | Inr errBody \<Rightarrow> (sel, Inl (ControlErr (controlError env path resp errBody)), w'))
          else (sel, out resp, w'))"


section \<open>Retrying\<close>

record retryPolicy =
  rp_attempts :: int
  rp_baseDelay :: int
  rp_maxDelay :: int
  rp_totalBudget :: int
  rp_retryable :: "(go_error \<Rightarrow> bool) option"

definition defaultAuthorizeRetryPolicy :: retryPolicy where
  "defaultAuthorizeRetryPolicy = \<lparr>rp_attempts = 3, rp_baseDelay = 500000000, rp_maxDelay = 4000000000,
     rp_totalBudget = 28000000000, rp_retryable = None\<rparr>"

definition normalizeRetryPolicy :: "retryPolicy \<Rightarrow> retryPolicy" where
  "normalizeRetryPolicy p =
     (let p = (if rp_attempts p < 1 then p\<lparr>rp_attempts := 1\<rparr> else p);
          p = p\<lparr>rp_baseDelay := max (rp_baseDelay p) 0\<rparr>;
          p = p\<lparr>rp_maxDelay := max (rp_maxDelay p) 0\<rparr>
      in if rp_maxDelay p > 0 then p\<lparr>rp_baseDelay := min (rp_baseDelay p) (rp_maxDelay p)\<rparr> else p)"

definition retryableStatus :: "int \<Rightarrow> bool" where
  "retryableStatus status \<longleftrightarrow> status \<in> {500, 502, 503, 504}"

definition retryableAuthorizationError :: "go_error \<Rightarrow> bool" where
  "retryableAuthorizationError err =
     (if errors_Is err Canceled \<or> errors_Is err DeadlineExceeded then False
      else case errors_AsControl err of None \<Rightarrow> False | Some e \<Rightarrow> retryableStatus (ce_StatusCode e))"

definition retryableSettlementError :: "go_error \<Rightarrow> bool" where
  "retryableSettlementError err =
     (if errors_Is err Canceled \<or> errors_Is err DeadlineExceeded then False
      else case errors_AsControl err of
        Some e \<Rightarrow> retryableStatus (ce_StatusCode e)
      | None \<Rightarrow> errors_Is err ECONNRESET \<or> errors_Is err EPIPE \<or> errors_Is err IoEOF \<or> errors_Is err ErrUnexpectedEOF)"

text \<open>\<open>strconv.ParseInt(s, 10, 32)\<close>.\<close>

definition ParseInt32 :: "string \<Rightarrow> int option" where
  "ParseInt32 s = (case ParseInt s of None \<Rightarrow> None | Some v \<Rightarrow> if - (2 ^ 31) \<le> v \<and> v < 2 ^ 31 then Some v else None)"

definition retryAfterDuration :: "go_error \<Rightarrow> int" where
  "retryAfterDuration err = (case errors_AsControl err of
     None \<Rightarrow> 0
   | Some e \<Rightarrow> if ce_RetryAfter e = [] then 0
       else case ParseInt32 (ce_RetryAfter e) of None \<Rightarrow> 0 | Some seconds \<Rightarrow> if seconds \<le> 0 then 0 else i64_mul seconds 1000000000)"

text \<open>The loop that doubles the upper end of a delay, until it passes half of the maximum.\<close>

fun doubleCeiling :: "nat \<Rightarrow> int \<Rightarrow> int \<Rightarrow> int" where
  "doubleCeiling 0 maxDelay upper = upper"
| "doubleCeiling (Suc n) maxDelay upper =
     (if upper < maxDelay then if upper > i64_quot maxDelay 2 then maxDelay else doubleCeiling n maxDelay (i64_mul upper 2) else upper)"

definition fullJitter :: "net_env \<Rightarrow> int \<Rightarrow> net_state \<Rightarrow> int \<times> net_state" where
  "fullJitter env upper w =
     (if upper \<le> 0 then (0, w)
      else case ne_rand env (ns_now w) (i64_add upper 1) of
        None \<Rightarrow> (i64_quot upper 2, tick w)
      | Some r \<Rightarrow> (r, tick w))"

definition authorizationRetryDelay :: "net_env \<Rightarrow> int \<Rightarrow> retryPolicy \<Rightarrow> int \<Rightarrow> net_state \<Rightarrow> int \<times> net_state" where
  "authorizationRetryDelay env failedAttempt policy retryAfter w =
     (let failed = max failedAttempt 1 in
      if rp_maxDelay policy \<le> 0 then (0, w)
      else
        (let lower = min retryAfter (rp_maxDelay policy);
             upper = min (doubleCeiling (nat (failed - 1)) (rp_maxDelay policy) (max (rp_baseDelay policy) lower)) (rp_maxDelay policy)
         in if upper \<le> lower then (lower, w)
            else (case fullJitter env (i64_sub upper lower) w of (j, w') \<Rightarrow> (i64_add lower j, w'))))"

definition sleepContext :: "net_env \<Rightarrow> int \<Rightarrow> net_state \<Rightarrow> go_error option \<times> net_state" where
  "sleepContext env delay w = (if delay \<le> 0 then (None, w) else (ne_timer env (ns_now w) delay, tick w))"

definition ctxErr :: "net_env \<Rightarrow> net_state \<Rightarrow> go_error option" where
  "ctxErr env w = ne_ctxErr env (ns_now w)"

text \<open>One pass per remaining attempt.\<close>

fun retryLoop :: "net_env \<Rightarrow> Client \<Rightarrow> call_context \<Rightarrow> string \<Rightarrow> string \<Rightarrow> (http_response \<Rightarrow> go_error + 'a) \<Rightarrow> retryPolicy \<Rightarrow> (go_error \<Rightarrow> bool)
    \<Rightarrow> string \<Rightarrow> nat \<Rightarrow> int \<Rightarrow> int \<Rightarrow> go_error option \<Rightarrow> net_state \<Rightarrow> int \<times> (go_error + 'a) \<times> net_state" where
  "retryLoop env c cx path body out policy shouldRetry boot 0 attempt pinned lastErr w =
     (pinned, Inl (errorf ''trustedrouter: retry loop exhausted''), w)"
| "retryLoop env c cx path body out policy shouldRetry boot (Suc n) attempt pinned lastErr w =
     (case postJSONBytesWithBootAuthAtEndpoint env c cx path body out pinned boot w of (sel, res, w1) \<Rightarrow>
      let pinned' = (if sel \<ge> 0 then sel else pinned) in
      case res of
        Inr a \<Rightarrow> (pinned', Inr a, w1)
      | Inl err \<Rightarrow>
        (case (if errors_Is err DeadlineExceeded \<and> ctxErr env w1 = None then lastErr else None) of
           Some e \<Rightarrow> (pinned', Inl e, w1)
         | None \<Rightarrow>
           if attempt = rp_attempts policy \<or> \<not> shouldRetry err then (pinned', Inl err, w1)
           else
             (case authorizationRetryDelay env attempt policy (retryAfterDuration err) w1 of (delay, w2) \<Rightarrow>
              case sleepContext env delay w2 of
                (Some _, w3) \<Rightarrow> (pinned', Inl (case ctxErr env w3 of Some e \<Rightarrow> e | None \<Rightarrow> err), w3)
              | (None, w3) \<Rightarrow> retryLoop env c cx path body out policy shouldRetry boot n (attempt + 1) pinned' (Some err) w3)))"

definition postJSONBytesWithRetryFromEndpoint ::
  "net_env \<Rightarrow> Client \<Rightarrow> call_context \<Rightarrow> string \<Rightarrow> string \<Rightarrow> (http_response \<Rightarrow> go_error + 'a) \<Rightarrow> retryPolicy \<Rightarrow> int \<Rightarrow> string \<Rightarrow> net_state
    \<Rightarrow> int \<times> (go_error + 'a) \<times> net_state" where
  "postJSONBytesWithRetryFromEndpoint env c cx path body out policy0 pinned boot w =
     (let policy = normalizeRetryPolicy policy0;
          shouldRetry = (case rp_retryable policy of Some f \<Rightarrow> f | None \<Rightarrow> retryableAuthorizationError)
      in retryLoop env c cx path body out policy shouldRetry boot (nat (rp_attempts policy)) 1 pinned None w)"

section \<open>Settlements and refunds\<close>

text \<open>The authority state of an authorization.\<close>

record authority_pin =
  ap_ControlPlaneEndpoint :: int
  ap_ControlPlaneEndpointSet :: bool

definition pinControlPlaneEndpoint :: "int \<Rightarrow> authority_pin \<Rightarrow> authority_pin" where
  "pinControlPlaneEndpoint endpoint a = (if endpoint < 0 then a
     else a\<lparr>ap_ControlPlaneEndpoint := endpoint, ap_ControlPlaneEndpointSet := True\<rparr>)"

definition pinnedControlPlaneEndpoint :: "authority_pin \<Rightarrow> int" where
  "pinnedControlPlaneEndpoint a = (if ap_ControlPlaneEndpointSet a then ap_ControlPlaneEndpoint a else -1)"

definition settlementEndpoint :: "Client \<Rightarrow> authority_pin \<Rightarrow> int" where
  "settlementEndpoint c a = (let endpoint = pinnedControlPlaneEndpoint a in
     if endpoint < 0 \<and> length (cl_baseURLs c) = 1 then 0 else endpoint)"

definition settlementPolicy :: retryPolicy where
  "settlementPolicy = \<lparr>rp_attempts = 3, rp_baseDelay = 250000000, rp_maxDelay = 1000000000,
     rp_totalBudget = 28000000000, rp_retryable = Some retryableSettlementError\<rparr>"

definition postSettlement :: "net_env \<Rightarrow> Client \<Rightarrow> call_context \<Rightarrow> int \<Rightarrow> string \<Rightarrow> string \<Rightarrow> string \<Rightarrow> (http_response \<Rightarrow> go_error + 'a) \<Rightarrow> net_state
    \<Rightarrow> (go_error + 'a) \<times> net_state" where
  "postSettlement env c cx endpoint authorizationID body bootAuth out w =
     snd (if endpoint < 0 \<or> TrimSpace authorizationID = []
          then postJSONBytesWithBootAuthAtEndpoint env c cx settlePath body out endpoint bootAuth w
          else postJSONBytesWithRetryFromEndpoint env c cx settlePath body out settlementPolicy endpoint bootAuth w)"

text \<open>A refund keeps the values of its context and drops its cancellation, so its only deadline is its own.\<close>

definition postRefund :: "net_env \<Rightarrow> Client \<Rightarrow> call_context \<Rightarrow> int \<Rightarrow> string \<Rightarrow> string \<Rightarrow> (http_response \<Rightarrow> go_error + 'a) \<Rightarrow> net_state
    \<Rightarrow> (go_error + 'a) \<times> net_state" where
  "postRefund env c cx endpoint body bootAuth out w =
     snd (postJSONBytesWithBootAuthAtEndpoint env c cx refundPath body out endpoint bootAuth w)"

end
