(* ===== verification/ControlBodies.thy ===== *)
theory ControlBodies
  imports ControlClient SpecJSON "HOL-Library.Sublist"
begin

text \<open>
  The bytes of settlements and refunds (\<open>buildSettleBody\<close> and \<open>buildRefundBody\<close> of
  \<open>internal/trustedrouter/client.go\<close>) and the client context they carry
  (\<open>internal/types/client_context.go\<close>). A body is a Go map that \<open>json.Marshal\<close> writes with its keys in
  order (\<open>marshalAny\<close>); its keys are distinct, so it is the list of its entries here. The text of a float is
  a parameter.
\<close>

section \<open>Client context\<close>

record ClientContext =
  cc_V :: int
  cc_Source :: string
  cc_SDK :: string
  cc_SDKVersion :: string
  cc_Lang :: string
  cc_Runtime :: string
  cc_OS :: string
  cc_Arch :: string
  cc_TimeoutMS :: int
  cc_Attempt :: "int option"
  cc_PrevOutcome :: string
  cc_PrevErrorClass :: string
  cc_PrevHost :: string
  cc_PrevElapsedMS :: "int option"
  cc_SinceFirstMS :: "int option"
  cc_Stream :: "bool option"
  cc_FailoverUsed :: "bool option"

definition is_digit :: "char \<Rightarrow> bool" where
  "is_digit c \<longleftrightarrow> digit_of c \<noteq> None"

definition is_lower :: "char \<Rightarrow> bool" where
  "is_lower c \<longleftrightarrow> 97 \<le> byte c \<and> byte c \<le> 122"

definition is_alnum :: "char \<Rightarrow> bool" where
  "is_alnum c \<longleftrightarrow> is_digit c \<or> is_lower c \<or> 65 \<le> byte c \<and> byte c \<le> 90"

definition digits14 :: "string \<Rightarrow> bool" where
  "digits14 s \<longleftrightarrow> 1 \<le> length s \<and> length s \<le> 4 \<and> list_all is_digit s"

text \<open>\<open>clientSDKVersionPattern\<close>: three groups of one to four digits, and a suffix after a sign.\<close>

definition sdkVersionMatch :: "string \<Rightarrow> bool" where
  "sdkVersionMatch s = (case CutAt (CHR ''.'') s of
     None \<Rightarrow> False
   | Some (a, r1) \<Rightarrow> (case CutAt (CHR ''.'') r1 of
       None \<Rightarrow> False
     | Some (b, r2) \<Rightarrow>
         (let p = takeWhile is_digit r2; suffix = dropWhile is_digit r2 in
          digits14 a \<and> digits14 b \<and> digits14 p
          \<and> (case suffix of [] \<Rightarrow> True
             | c # t \<Rightarrow> (c = CHR ''-'' \<or> c = CHR ''+'') \<and> length t \<le> 20 \<and> list_all (\<lambda>x. is_alnum x \<or> x = CHR ''.'') t))))"

definition runtimeMatch :: "string \<Rightarrow> bool" where
  "runtimeMatch s = (case CutAt (CHR ''/'') s of
     None \<Rightarrow> False
   | Some (a, r) \<Rightarrow> 1 \<le> length a \<and> length a \<le> 10 \<and> list_all is_lower a \<and> 1 \<le> length r \<and> length r \<le> 24
       \<and> list_all (\<lambda>x. is_alnum x \<or> x = CHR ''.'' \<or> x = CHR ''+'' \<or> x = CHR ''-'') r)"

definition hasFields :: "ClientContext \<Rightarrow> bool" where
  "hasFields c \<longleftrightarrow> cc_Source c \<noteq> [] \<or> cc_SDK c \<noteq> [] \<or> cc_SDKVersion c \<noteq> [] \<or> cc_Lang c \<noteq> [] \<or> cc_Runtime c \<noteq> []
     \<or> cc_OS c \<noteq> [] \<or> cc_Arch c \<noteq> [] \<or> cc_TimeoutMS c \<noteq> 0 \<or> cc_Attempt c \<noteq> None \<or> cc_PrevOutcome c \<noteq> []
     \<or> cc_PrevErrorClass c \<noteq> [] \<or> cc_PrevHost c \<noteq> [] \<or> cc_PrevElapsedMS c \<noteq> None \<or> cc_SinceFirstMS c \<noteq> None
     \<or> cc_Stream c \<noteq> None \<or> cc_FailoverUsed c \<noteq> None"

definition absentOr :: "string \<Rightarrow> string list \<Rightarrow> bool" where
  "absentOr v allowed \<longleftrightarrow> v = [] \<or> v \<in> set allowed"

definition withinOr :: "int option \<Rightarrow> int \<Rightarrow> bool" where
  "withinOr v most = (case v of None \<Rightarrow> True | Some n \<Rightarrow> 0 \<le> n \<and> n \<le> most)"

text \<open>The checks in the order of the source, with the field each one reports.\<close>

definition contextChecks :: "ClientContext \<Rightarrow> (string \<times> bool) list" where
  "contextChecks c =
     [(''v'', cc_V c \<noteq> 0 \<or> hasFields c \<longrightarrow> cc_V c = 1),
      (''source'', absentOr (cc_Source c) [''tr'', ''stainless'', ''none'']),
      (''sdk'', absentOr (cc_SDK c) [''tr-py'', ''tr-js'', ''tr-go'', ''tr-rust'', ''tr-java'', ''tr-swift'',
        ''openai-python'', ''openai-js'', ''openai-go'', ''openai-java'', ''openai-other'',
        ''anthropic-python'', ''anthropic-js'', ''anthropic-go'', ''anthropic-java'', ''anthropic-other'', ''other'']),
      (''sdk_version'', cc_SDKVersion c = [] \<or> length (cc_SDKVersion c) \<le> 32 \<and> sdkVersionMatch (cc_SDKVersion c)),
      (''lang'', absentOr (cc_Lang c) [''python'', ''js'', ''go'', ''rust'', ''java'', ''swift'', ''kotlin'', ''ruby'', ''csharp'', ''php'', ''dart'', ''other'']),
      (''runtime'', cc_Runtime c = [] \<or> runtimeMatch (cc_Runtime c)),
      (''os'', absentOr (cc_OS c) [''linux'', ''macos'', ''windows'', ''ios'', ''android'', ''freebsd'', ''other'']),
      (''arch'', absentOr (cc_Arch c) [''x64'', ''x32'', ''arm'', ''arm64'', ''wasm'', ''other'']),
      (''timeout_ms'', 0 \<le> cc_TimeoutMS c \<and> cc_TimeoutMS c \<le> 3600000),
      (''attempt'', withinOr (cc_Attempt c) 99),
      (''prev_outcome'', absentOr (cc_PrevOutcome c) [''none'', ''http_error'', ''transport_error'', ''timeout'', ''stream_broken'']),
      (''prev_error_class'', absentOr (cc_PrevErrorClass c) [''none'', ''dns'', ''tls'', ''connect_refused'', ''connect_timeout'', ''connect_error'',
        ''read_timeout'', ''write_timeout'', ''pool_timeout'', ''protocol_error'', ''reset'', ''io_error'', ''proxy_error'', ''stream_stalled'', ''unknown'']),
      (''prev_host'', absentOr (cc_PrevHost c) [''none'', ''apex'', ''ally'', ''uptime'', ''us_central1'', ''us_east4'', ''europe_west4'', ''control'', ''custom'']),
      (''prev_elapsed_ms'', withinOr (cc_PrevElapsedMS c) 3600000),
      (''since_first_ms'', withinOr (cc_SinceFirstMS c) 3600000)]"

definition ClientContext_Validate :: "ClientContext \<Rightarrow> string option" where
  "ClientContext_Validate c = map_option fst (find (\<lambda>e. \<not> snd e) (contextChecks c))"

definition strEntry :: "string \<Rightarrow> string \<Rightarrow> (string \<times> anyval) list" where
  "strEntry k v = (if v = [] then [] else [(k, AStr v)])"

definition optEntry :: "('a \<Rightarrow> anyval) \<Rightarrow> string \<Rightarrow> 'a option \<Rightarrow> (string \<times> anyval) list" where
  "optEntry f k v = (case v of None \<Rightarrow> [] | Some a \<Rightarrow> [(k, f a)])"

definition posEntry :: "string \<Rightarrow> int \<Rightarrow> (string \<times> anyval) list" where
  "posEntry k n = (if n > 0 then [(k, AInt n)] else [])"

definition ClientContext_AsBody :: "ClientContext \<Rightarrow> (string \<times> anyval) list" where
  "ClientContext_AsBody c =
     (if cc_V c \<noteq> 0 then [(''v'', AInt (cc_V c))] else []) @ strEntry ''source'' (cc_Source c) @ strEntry ''sdk'' (cc_SDK c)
     @ strEntry ''sdk_version'' (cc_SDKVersion c) @ strEntry ''lang'' (cc_Lang c) @ strEntry ''runtime'' (cc_Runtime c)
     @ strEntry ''os'' (cc_OS c) @ strEntry ''arch'' (cc_Arch c)
     @ (if cc_TimeoutMS c \<noteq> 0 then [(''timeout_ms'', AInt (cc_TimeoutMS c))] else [])
     @ optEntry AInt ''attempt'' (cc_Attempt c) @ strEntry ''prev_outcome'' (cc_PrevOutcome c)
     @ strEntry ''prev_error_class'' (cc_PrevErrorClass c) @ strEntry ''prev_host'' (cc_PrevHost c)
     @ optEntry AInt ''prev_elapsed_ms'' (cc_PrevElapsedMS c) @ optEntry AInt ''since_first_ms'' (cc_SinceFirstMS c)
     @ optEntry ABool ''stream'' (cc_Stream c) @ optEntry ABool ''failover_used'' (cc_FailoverUsed c)"


section \<open>Settlements and refunds\<close>

text \<open>Of an authorization the record has what these bodies, the pinned authority and async settlement
  read; of the usage everything a settlement sends.\<close>

record Authorization = authority_pin +
  au_AuthorizationID :: string
  au_Model :: string
  au_EndpointID :: string
  au_RouteType :: string
  au_cacheAffinityKey :: string
  au_cacheAffinityExplicit :: bool
  au_SettlementStatusURL :: string

record Usage =
  us_RequestID :: string
  us_InputTokens :: int
  us_OutputTokens :: int
  us_ElapsedSeconds :: gofloat
  us_FirstTokenSeconds :: gofloat
  us_UsageEstimated :: bool
  us_ReasoningTokens :: int
  us_PriceTierInputTokens :: int
  us_FinishReason :: string
  us_Streamed :: bool
  us_RouteType :: string
  us_SelectedModel :: string
  us_SelectedEndpoint :: string
  us_RouteFallbacks :: int
  us_RouteFailures :: "string list option"
  us_User :: string
  us_SessionID :: string
  us_Trace :: "(string \<times> anyval) list option"
  us_Metadata :: "(string \<times> anyval) list option"
  us_App :: string
  us_HTTPReferer :: string
  us_AppCategories :: "string list"
  us_CacheReadInputTokens :: int
  us_CacheCreationInputTokens :: int
  us_AdditionalCostMicrodollars :: int
  us_ServiceTier :: string
  us_VideoInputMode :: string
  us_VideoDurationSeconds :: int
  us_VideoResolution :: string
  us_VideoAspectRatio :: string
  us_VideoGenerateAudio :: bool

record RefundAttribution =
  ra_User :: string
  ra_Session :: string
  ra_Trace :: "(string \<times> anyval) list option"

text \<open>What a context carries for the bodies.\<close>

record body_context =
  bx_requestLogID :: string
  bx_clientContext :: "ClientContext option"

definition requestLogIDFromContext :: "body_context \<Rightarrow> string" where
  "requestLogIDFromContext bx = (let v = bx_requestLogID bx in
     if HasPrefix v ''rlog_'' \<and> length v = 37 \<and> list_all lower_hex_char (drop 5 v) then v else [])"

definition clientEntry :: "body_context \<Rightarrow> (string \<times> anyval) list" where
  "clientEntry bx = (case bx_clientContext bx of
     None \<Rightarrow> []
   | Some c \<Rightarrow> if ClientContext_Validate c = None then [(''client'', AObj (ClientContext_AsBody c))] else [])"

text \<open>Comparison of floats; \<open>FInf True\<close> is the positive infinity.\<close>

fun float_gt :: "gofloat \<Rightarrow> gofloat \<Rightarrow> bool" where
  "float_gt (FFinite a) (FFinite b) = (a > b)"
| "float_gt (FInf s) (FFinite _) = s"
| "float_gt (FFinite _) (FInf s) = (\<not> s)"
| "float_gt (FInf s) (FInf t) = (s \<and> \<not> t)"
| "float_gt FNaN _ = False"
| "float_gt _ FNaN = False"

definition maxFloat :: "gofloat \<Rightarrow> gofloat \<Rightarrow> gofloat" where
  "maxFloat a b = (if float_gt a b then a else b)"

text \<open>The \<open>float64\<close> nearest to 0.001.\<close>

definition milli :: gofloat where
  "milli = FFinite (1152921504606847 / 1152921504606846976)"

definition settleBody :: "body_context \<Rightarrow> Authorization \<Rightarrow> Usage \<Rightarrow> (string \<times> anyval) list" where
  "settleBody bx auth u =
     (let finishReason = (if us_FinishReason u = [] then ''stop'' else us_FinishReason u);
          selectedModel = (if TrimSpace (us_SelectedModel u) = [] then au_Model auth else TrimSpace (us_SelectedModel u));
          selectedEndpoint = (if TrimSpace (us_SelectedEndpoint u) = [] then au_EndpointID auth else TrimSpace (us_SelectedEndpoint u));
          app = (if us_App u = [] \<or> foldName (us_App u) = foldName ''TrustedRouter Synthetic'' then ''attested-gateway'' else us_App u)
      in [(''authorization_id'', AStr (au_AuthorizationID auth)), (''actual_input_tokens'', AInt (us_InputTokens u)),
          (''actual_output_tokens'', AInt (us_OutputTokens u)), (''request_id'', AStr (us_RequestID u)),
          (''finish_reason'', AStr finishReason), (''status'', AStr ''success''), (''streamed'', ABool (us_Streamed u)),
          (''usage_estimated'', ABool (us_UsageEstimated u)), (''elapsed_seconds'', AFloat (us_ElapsedSeconds u)),
          (''selected_model'', AStr selectedModel), (''selected_endpoint'', AStr selectedEndpoint), (''app'', AStr app)]
         @ strEntry ''gateway_request_id'' (requestLogIDFromContext bx)
         @ (if au_cacheAffinityKey auth \<noteq> [] then [(''cache_affinity_key'', AStr (au_cacheAffinityKey auth)),
              (''cache_affinity_explicit'', ABool (au_cacheAffinityExplicit auth))] else [])
         @ clientEntry bx
         @ posEntry ''additional_cost_microdollars'' (us_AdditionalCostMicrodollars u)
         @ (if us_RouteFallbacks u > 0 then [(''route_fallbacks'', AInt (us_RouteFallbacks u)),
              (''route_failures'', case us_RouteFailures u of None \<Rightarrow> ANil | Some fs \<Rightarrow> AArr (map AStr (take 8 fs)))] else [])
         @ strEntry ''route_type'' (us_RouteType u)
         @ (if us_RouteType u = ''videos'' then [(''video_input_mode'', AStr (us_VideoInputMode u)), (''video_duration_seconds'', AInt (us_VideoDurationSeconds u)),
              (''video_resolution'', AStr (us_VideoResolution u)), (''video_aspect_ratio'', AStr (us_VideoAspectRatio u)),
              (''video_generate_audio'', ABool (us_VideoGenerateAudio u))] else [])
         @ strEntry ''user'' (us_User u) @ strEntry ''session_id'' (us_SessionID u)
         @ optEntry AObj ''trace'' (us_Trace u) @ optEntry AObj ''metadata'' (us_Metadata u)
         @ strEntry ''http_referer'' (us_HTTPReferer u)
         @ (if us_AppCategories u \<noteq> [] then [(''app_categories'', AArr (map AStr (us_AppCategories u)))] else [])
         @ (if float_gt (us_FirstTokenSeconds u) (FFinite 0) then [(''first_token_seconds'', AFloat (us_FirstTokenSeconds u))] else [])
         @ posEntry ''reasoning_tokens'' (us_ReasoningTokens u) @ posEntry ''price_tier_input_tokens'' (us_PriceTierInputTokens u)
         @ posEntry ''cache_read_input_tokens'' (us_CacheReadInputTokens u) @ posEntry ''cache_creation_input_tokens'' (us_CacheCreationInputTokens u)
         @ strEntry ''service_tier'' (us_ServiceTier u))"

definition marshalBody :: "(gofloat \<Rightarrow> string) \<Rightarrow> (string \<times> anyval) list \<Rightarrow> go_error + string" where
  "marshalBody fl m = (case marshalAny fl (AObj m) of Some b \<Rightarrow> Inr b | None \<Rightarrow> Inl (errorf ''json: unsupported value''))"

definition buildSettleBody :: "(gofloat \<Rightarrow> string) \<Rightarrow> body_context \<Rightarrow> Authorization \<Rightarrow> Usage \<Rightarrow> go_error + string" where
  "buildSettleBody fl bx auth u = marshalBody fl (settleBody bx auth u)"

definition refundBody :: "body_context \<Rightarrow> Authorization \<Rightarrow> int \<Rightarrow> string \<Rightarrow> gofloat \<Rightarrow> (string \<times> anyval) list option \<Rightarrow> RefundAttribution \<Rightarrow> (string \<times> anyval) list" where
  "refundBody bx auth status0 errorType0 elapsed metadata attribution =
     (let status = (if status0 < 100 then 502 else status0);
          errorType = (if errorType0 = [] then ''provider_error'' else errorType0)
      in [(''authorization_id'', AStr (au_AuthorizationID auth)), (''error_status'', AInt status), (''error_type'', AStr errorType),
          (''elapsed_seconds'', AFloat (maxFloat elapsed milli)), (''streamed'', ABool True), (''selected_model'', AStr (au_Model auth)),
          (''selected_endpoint'', AStr (au_EndpointID auth)), (''app'', AStr ''attested-gateway'')]
         @ strEntry ''gateway_request_id'' (requestLogIDFromContext bx) @ clientEntry bx
         @ strEntry ''route_type'' (au_RouteType auth) @ optEntry AObj ''metadata'' metadata
         @ strEntry ''user'' (ra_User attribution) @ strEntry ''session_id'' (ra_Session attribution)
         @ optEntry AObj ''trace'' (ra_Trace attribution))"

definition buildRefundBody :: "(gofloat \<Rightarrow> string) \<Rightarrow> body_context \<Rightarrow> Authorization \<Rightarrow> int \<Rightarrow> string \<Rightarrow> gofloat \<Rightarrow> (string \<times> anyval) list option \<Rightarrow> RefundAttribution
    \<Rightarrow> go_error + string" where
  "buildRefundBody fl bx auth status errorType elapsed metadata attribution =
     marshalBody fl (refundBody bx auth status errorType elapsed metadata attribution)"

section \<open>Keys\<close>

text \<open>The keys of a settlement are part of a fixed list without repetitions.\<close>

definition settleKeys :: "string list" where
  "settleKeys = [''authorization_id'', ''actual_input_tokens'', ''actual_output_tokens'', ''request_id'', ''finish_reason'', ''status'', ''streamed'',
     ''usage_estimated'', ''elapsed_seconds'', ''selected_model'', ''selected_endpoint'', ''app''] @ [''gateway_request_id''] @
     [''cache_affinity_key'', ''cache_affinity_explicit''] @ [''client''] @ [''additional_cost_microdollars''] @ [''route_fallbacks'', ''route_failures''] @
     [''route_type''] @ [''video_input_mode'', ''video_duration_seconds'', ''video_resolution'', ''video_aspect_ratio'', ''video_generate_audio''] @
     [''user''] @ [''session_id''] @ [''trace''] @ [''metadata''] @ [''http_referer''] @ [''app_categories''] @ [''first_token_seconds''] @
     [''reasoning_tokens''] @ [''price_tier_input_tokens''] @ [''cache_read_input_tokens''] @ [''cache_creation_input_tokens''] @ [''service_tier'']"

lemma settleKeys_distinct: "distinct settleKeys"
  by (simp add: settleKeys_def)

lemma distinct_subseq: "subseq xs ys \<Longrightarrow> distinct ys \<Longrightarrow> distinct xs"
  by (induction rule: list_emb.induct) (auto dest: list_emb_set)

lemma entry_keys [simp]:
  "subseq (map fst (strEntry k v)) [k]" "subseq (map fst (optEntry f k w)) [k]" "subseq (map fst (posEntry k n)) [k]"
  "subseq (map fst (clientEntry bx)) [''client'']"
  "subseq (map fst (if b then es else [])) (map fst es)"
  by (simp_all add: strEntry_def optEntry_def posEntry_def clientEntry_def split: option.split)

lemma settleBody_keys: "subseq (map fst (settleBody bx auth u)) settleKeys"
  unfolding settleBody_def settleKeys_def Let_def map_append
  by (intro list_emb_append_mono entry_keys entry_keys(5) [THEN subseq_order.order_trans]) simp_all

lemma settleBody_distinct: "distinct (map fst (settleBody bx auth u))"
  using settleBody_keys settleKeys_distinct by (rule distinct_subseq)

end
