(* ===== verification/ControlLaws.thy ===== *)
theory ControlLaws
  imports ControlClient
begin

text \<open>
  What the client promises about its calls to the control plane: of all requests a call hands to the
  network, those that may have reached a server went to one authority; every one of them carries
  the bytes and headers fixed before the first attempt; there are at most as many as attempts; delays stay
  within the policy; and a run of retryable failures ends in the success that follows it.
\<close>

section \<open>The history of a call\<close>

definition requestTo :: "Client \<Rightarrow> call_context \<Rightarrow> string \<Rightarrow> string \<Rightarrow> string \<Rightarrow> string \<Rightarrow> http_request" where
  "requestTo c cx path body boot base = \<lparr>hq_URL = base @ path, hq_Header = requestHeaders c cx path boot, hq_Body = body\<rparr>"

text \<open>Unless the dialer failed, a server may have processed the request.\<close>

definition mayHaveReached :: "go_error + http_response \<Rightarrow> bool" where
  "mayHaveReached outcome = (case outcome of Inr _ \<Rightarrow> True | Inl e \<Rightarrow> \<not> isDialFailure (Some e))"

text \<open>All requests are the given one, at configured authorities, and those that may have
  reached a server went to the selected one.\<close>

definition oneAuthority :: "string list \<Rightarrow> (string \<Rightarrow> http_request) \<Rightarrow> int \<Rightarrow> (http_request \<times> (go_error + http_response)) list \<Rightarrow> bool" where
  "oneAuthority bases mk sel es \<longleftrightarrow> (\<forall>(q, outcome) \<in> set es.
     (\<exists>base \<in> set bases. q = mk base) \<and>
     (mayHaveReached outcome \<longrightarrow> 0 \<le> sel \<and> sel < int (length bases) \<and> q = mk (bases ! nat sel)))"

lemma oneAuthority_simps [simp]:
  "oneAuthority bases mk sel []"
  "oneAuthority bases mk sel (es @ fs) \<longleftrightarrow> oneAuthority bases mk sel es \<and> oneAuthority bases mk sel fs"
  by (auto simp: oneAuthority_def)

lemma httpc_Do_log:
  "httpc_Do env req w = (out, w') \<Longrightarrow> ns_sent w' = ns_sent w @ [(req, out)]"
  by (auto simp: httpc_Do_def tick_def Let_def)

lemma tick_sent [simp]: "ns_sent (tick w) = ns_sent w"
  by (simp add: tick_def)

text \<open>Trying the authorities in order: all but the last request are failures of the dialer.\<close>

lemma tryEndpoints_log:
  assumes "tryEndpoints env c cx path body pinned boot i bases w = (r, sel, w')"
  shows "\<exists>es. ns_sent w' = ns_sent w @ es \<and> length es \<le> length bases
     \<and> (\<forall>(q, outcome) \<in> set es. (\<exists>base \<in> set bases. q = requestTo c cx path body boot base)
          \<and> (mayHaveReached outcome \<longrightarrow> (\<exists>k < length bases. sel = i + int k \<and> q = requestTo c cx path body boot (bases ! k))))
     \<and> (sel = -1 \<or> (\<exists>k < length bases. sel = i + int k))"
  using assms
proof (induction bases arbitrary: i w)
  case Nil
  then show ?case by simp
next
  case (Cons base rest)
  show ?case
  proof (cases "ne_NewRequest env (base @ path)")
    case (Some e)
    then show ?thesis using Cons.prems by auto
  next
    case None
    obtain out w1 where d: "httpc_Do env (requestTo c cx path body boot base) w = (out, w1)" by fastforce
    let ?e = "(requestTo c cx path body boot base, out)"
    note s = httpc_Do_log [OF d]
    show ?thesis
    proof (cases "\<exists>e. out = Inl e \<and> \<not> pinned \<ge> 0 \<and> isDialFailure (Some e) \<and> rest \<noteq> []")
      case True
      then have out: "\<not> mayHaveReached out" by (auto simp: mayHaveReached_def)
      from True have "tryEndpoints env c cx path body pinned boot (i + 1) rest w1 = (r, sel, w')"
        using Cons.prems None d by (auto simp: requestTo_def)
      from Cons.IH [OF this] obtain es where es: "ns_sent w' = ns_sent w1 @ es" "length es \<le> length rest"
        "\<forall>(q, outcome) \<in> set es. (\<exists>base \<in> set rest. q = requestTo c cx path body boot base)
          \<and> (mayHaveReached outcome \<longrightarrow> (\<exists>k < length rest. sel = (i + 1) + int k \<and> q = requestTo c cx path body boot (rest ! k)))"
        "sel = -1 \<or> (\<exists>k < length rest. sel = (i + 1) + int k)" by blast
      have up: "\<exists>k' < length (base # rest). (i + 1) + int k = i + int k' \<and> (base # rest) ! k' = rest ! k" if "k < length rest" for k
        using that by (intro exI [of _ "Suc k"]) simp
      have "\<forall>(q, outcome) \<in> set (?e # es). (\<exists>b \<in> set (base # rest). q = requestTo c cx path body boot b)
          \<and> (mayHaveReached outcome \<longrightarrow> (\<exists>k < length (base # rest). sel = i + int k \<and> q = requestTo c cx path body boot ((base # rest) ! k)))"
        using es(3) out up by (fastforce simp del: length_Cons)
      moreover have "sel = -1 \<or> (\<exists>k < length (base # rest). sel = i + int k)" using es(4) up by metis
      ultimately show ?thesis using es(1, 2) s by (intro exI [of _ "?e # es"]) simp
    next
      case False
      then have "sel = i \<and> w' = w1"
        using Cons.prems None d by (auto simp: requestTo_def split: sum.splits if_splits)
      then show ?thesis using s by (intro exI [of _ "[?e]"]) auto
    qed
  qed
qed


text \<open>One attempt.\<close>

lemma post_log:
  assumes "postJSONBytesWithBootAuthAtEndpoint env c cx path body out pinned boot w = (sel, res, w')"
  shows "\<exists>es. ns_sent w' = ns_sent w @ es \<and> oneAuthority (cl_baseURLs c) (requestTo c cx path body boot) sel es
     \<and> length es \<le> length (cl_baseURLs c) \<and> (sel \<ge> 0 \<longrightarrow> pinned \<ge> 0 \<longrightarrow> sel = pinned)
     \<and> (pinned \<ge> 0 \<longrightarrow> length es \<le> 1 \<and> oneAuthority (cl_baseURLs c) (requestTo c cx path body boot) pinned es
          \<and> (\<forall>x \<in> set es. fst x = requestTo c cx path body boot (cl_baseURLs c ! nat pinned)))"
proof -
  let ?P = "postToControlPlaneWithBootAuth env c cx path body pinned boot w"
  obtain r where r: "?P = (r, sel, w')"
    using assms by (cases ?P) (auto simp: postJSONBytesWithBootAuthAtEndpoint_def split: sum.splits if_splits)
  consider (none) "sel = -1" "w' = w"
    | (pin) "0 \<le> pinned" "pinned < int (length (cl_baseURLs c))" "tryEndpoints env c cx path body pinned boot pinned [cl_baseURLs c ! nat pinned] w = (r, sel, w')"
    | (free) "pinned < 0" "tryEndpoints env c cx path body pinned boot 0 (cl_baseURLs c) w = (r, sel, w')"
    using r by (auto simp: postToControlPlaneWithBootAuth_def split: option.splits if_splits)
  then show ?thesis
  proof cases
    case none
    then show ?thesis by auto
  next
    case pin
    have "cl_baseURLs c \<noteq> []" "cl_baseURLs c ! nat pinned \<in> set (cl_baseURLs c)" using pin by auto
    then show ?thesis using tryEndpoints_log [OF pin(3)] pin(1, 2)
      by (fastforce simp: oneAuthority_def Suc_le_eq)
  next
    case free
    then show ?thesis using tryEndpoints_log [OF free(2)] by (fastforce simp: oneAuthority_def)
  qed
qed

lemma fullJitter_sent: "fullJitter env hi w = (j, w') \<Longrightarrow> ns_sent w' = ns_sent w"
  by (auto simp: fullJitter_def split: if_splits option.splits)

lemma authorizationRetryDelay_sent:
  "authorizationRetryDelay env n p r w = (d, w') \<Longrightarrow> ns_sent w' = ns_sent w"
  unfolding authorizationRetryDelay_def Let_def
  by (auto dest: fullJitter_sent simp del: min_less_iff_conj split: if_split_asm prod.split_asm)

lemma sleepContext_sent: "sleepContext env d w = (e, w') \<Longrightarrow> ns_sent w' = ns_sent w"
  by (auto simp: sleepContext_def split: if_splits)

text \<open>One pass of the loop: it ends there, or goes on with the pinned authority after sending nothing more.\<close>

lemma retryLoop_step:
  assumes "retryLoop env c cx path body out policy retry boot (Suc n) attempt pinned lastErr w = (fin, res, w')"
  obtains sel r w1 where "postJSONBytesWithBootAuthAtEndpoint env c cx path body out pinned boot w = (sel, r, w1)"
    "fin = (if sel \<ge> 0 then sel else pinned)" "ns_sent w' = ns_sent w1"
  | sel err w1 w2 where "postJSONBytesWithBootAuthAtEndpoint env c cx path body out pinned boot w = (sel, Inl err, w1)"
    "attempt \<noteq> rp_attempts policy" "retry err" "ns_sent w2 = ns_sent w1"
    "retryLoop env c cx path body out policy retry boot n (attempt + 1) (if sel \<ge> 0 then sel else pinned) (Some err) w2 = (fin, res, w')"
proof -
  obtain sel r w1 where p: "postJSONBytesWithBootAuthAtEndpoint env c cx path body out pinned boot w = (sel, r, w1)"
    by (cases "postJSONBytesWithBootAuthAtEndpoint env c cx path body out pinned boot w") auto
  show thesis
  proof (cases r)
    case (Inr a)
    then show thesis using assms p that(1) by (auto simp: Let_def)
  next
    case (Inl err)
    let ?stop = "if errors_Is err DeadlineExceeded \<and> ctxErr env w1 = None then lastErr else None"
    show thesis
    proof (cases "?stop \<noteq> None \<or> attempt = rp_attempts policy \<or> \<not> retry err")
      case True
      then show thesis using assms p Inl that(1) by (auto simp: Let_def split: if_splits option.splits)
    next
      case False
      obtain d w2 where d: "authorizationRetryDelay env attempt policy (retryAfterDuration err) w1 = (d, w2)" by fastforce
      obtain z w3 where z: "sleepContext env d w2 = (z, w3)" by fastforce
      have s: "ns_sent w3 = ns_sent w1" using authorizationRetryDelay_sent [OF d] sleepContext_sent [OF z] by simp
      from False have "?stop = None" "attempt \<noteq> rp_attempts policy" "retry err" by blast+
      then show thesis using assms p Inl d z s that by (cases z) (simp_all add: Let_def)
    qed
  qed
qed

lemma oneAuthority_dialOnly: "oneAuthority bases mk sel es \<Longrightarrow> sel < 0 \<Longrightarrow> oneAuthority bases mk sel' es"
  by (auto simp: oneAuthority_def)

lemma retryLoop_log:
  assumes "retryLoop env c cx path body out policy retry boot n attempt pinned lastErr w = (fin, res, w')"
  shows "\<exists>es. ns_sent w' = ns_sent w @ es \<and> oneAuthority (cl_baseURLs c) (requestTo c cx path body boot) fin es
     \<and> length es \<le> n * length (cl_baseURLs c)
     \<and> (pinned \<ge> 0 \<longrightarrow> fin = pinned \<and> length es \<le> n \<and> (\<forall>x \<in> set es. fst x = requestTo c cx path body boot (cl_baseURLs c ! nat pinned)))"
  using assms
proof (induction n arbitrary: attempt pinned lastErr w)
  case 0
  then show ?case by auto
next
  case (Suc n)
  let ?mk = "requestTo c cx path body boot"
  from Suc.prems show ?case
  proof (cases rule: retryLoop_step)
    case (1 sel r w1)
    from post_log [OF 1(1)] obtain es where es: "ns_sent w1 = ns_sent w @ es" "oneAuthority (cl_baseURLs c) ?mk sel es"
      "length es \<le> length (cl_baseURLs c)" "sel \<ge> 0 \<Longrightarrow> pinned \<ge> 0 \<Longrightarrow> sel = pinned"
      "pinned \<ge> 0 \<Longrightarrow> length es \<le> 1 \<and> (\<forall>x \<in> set es. fst x = ?mk (cl_baseURLs c ! nat pinned))" by blast
    have "oneAuthority (cl_baseURLs c) ?mk fin es"
      using es(2) 1(2) oneAuthority_dialOnly [OF es(2)] by (cases "sel \<ge> 0") auto
    then show ?thesis using es 1(2, 3) by (intro exI [of _ es]) auto
  next
    case (2 sel err w1 w2)
    from post_log [OF 2(1)] obtain es where es: "ns_sent w1 = ns_sent w @ es" "oneAuthority (cl_baseURLs c) ?mk sel es"
      "length es \<le> length (cl_baseURLs c)" "sel \<ge> 0 \<Longrightarrow> pinned \<ge> 0 \<Longrightarrow> sel = pinned"
      "pinned \<ge> 0 \<Longrightarrow> length es \<le> 1 \<and> (\<forall>x \<in> set es. fst x = ?mk (cl_baseURLs c ! nat pinned))" by blast
    from Suc.IH [OF 2(5)] obtain fs where fs: "ns_sent w' = ns_sent w2 @ fs" "oneAuthority (cl_baseURLs c) ?mk fin fs"
      "length fs \<le> n * length (cl_baseURLs c)"
      "(if sel \<ge> 0 then sel else pinned) \<ge> 0 \<Longrightarrow> fin = (if sel \<ge> 0 then sel else pinned) \<and> length fs \<le> n
         \<and> (\<forall>x \<in> set fs. fst x = ?mk (cl_baseURLs c ! nat (if sel \<ge> 0 then sel else pinned)))" by blast
    have "oneAuthority (cl_baseURLs c) ?mk fin es"
      using es(2) fs(4) oneAuthority_dialOnly [OF es(2)] by (cases "sel \<ge> 0") auto
    moreover have "pinned \<ge> 0 \<longrightarrow> fin = pinned \<and> length (es @ fs) \<le> Suc n \<and> (\<forall>x \<in> set (es @ fs). fst x = ?mk (cl_baseURLs c ! nat pinned))"
      using es(4, 5) fs(4) by (cases "sel \<ge> 0") auto
    ultimately show ?thesis using es(1, 3) fs(1, 2, 3) 2(4) by (intro exI [of _ "es @ fs"]) simp
  qed
qed


section \<open>Delays\<close>

text \<open>\<open>crypto/rand.Int\<close> draws below its bound.\<close>

definition rand_ok :: "net_env \<Rightarrow> bool" where
  "rand_ok env \<longleftrightarrow> (\<forall>n m r. ne_rand env n m = Some r \<longrightarrow> 0 \<le> r \<and> r < m)"

lemma i64_double: "0 \<le> u \<Longrightarrow> u \<le> i64_quot m 2 \<Longrightarrow> 0 \<le> m \<Longrightarrow> m \<le> MaxInt64 \<Longrightarrow> i64_mul u 2 = 2 * u \<and> 2 * u \<le> m"
  by (simp add: i64_quot_nonneg i64_mul_exact in_i64_nonneg)

lemma doubleCeiling_spec:
  assumes "0 \<le> u" "0 \<le> m" "m \<le> MaxInt64"
  shows "min (doubleCeiling n m u) m = min (u * 2 ^ n) m"
  using assms(1)
proof (induction n arbitrary: u)
  case 0
  then show ?case by simp
next
  case (Suc n)
  consider "u \<ge> m" | "u < m" "u > i64_quot m 2" | "u < m" "u \<le> i64_quot m 2" by linarith
  then show ?case
  proof cases
    case 1
    have "u * 1 \<le> u * 2 ^ Suc n" using Suc.prems by (intro mult_left_mono one_le_power) auto
    then show ?thesis using 1 by simp
  next
    case 2
    then have "m \<le> 2 * u" using assms by (simp add: i64_quot_nonneg)
    moreover have "2 * u * 1 \<le> 2 * u * 2 ^ n" using Suc.prems by (intro mult_left_mono) auto
    ultimately have "m \<le> u * 2 ^ Suc n" by simp
    then show ?thesis using 2 by (simp add: min_def)
  next
    case 3
    have d: "i64_mul u 2 = 2 * u" using i64_double [OF Suc.prems 3(2)] assms by simp
    then show ?thesis using Suc.IH [of "2 * u"] Suc.prems 3 by (simp add: mult.assoc mult.left_commute)
  qed
qed

lemma fullJitter_bounds:
  assumes "rand_ok env" "0 \<le> u" "u < MaxInt64" "fullJitter env u w = (j, w')"
  shows "0 \<le> j \<and> j \<le> u"
proof (cases "u = 0")
  case True
  then show ?thesis using assms(4) by (simp add: fullJitter_def)
next
  case False
  have a: "i64_add u 1 = u + 1" using assms(2, 3) by (simp add: i64_add_exact in_i64_nonneg)
  have q: "i64_quot u 2 = u div 2" using assms(2, 3) by (simp add: i64_quot_nonneg)
  show ?thesis
  proof (cases "ne_rand env (ns_now w) (u + 1)")
    case None
    then have "j = u div 2" using assms(2, 4) False a q by (simp add: fullJitter_def)
    then show ?thesis using assms(2) by simp
  next
    case (Some r)
    then have "j = r" using assms(2, 4) False a by (simp add: fullJitter_def)
    moreover have "0 \<le> r \<and> r < u + 1" using assms(1) Some unfolding rand_ok_def by blast
    ultimately show ?thesis by simp
  qed
qed

lemma retryDelay_spec:
  assumes "rand_ok env" "0 \<le> rp_baseDelay p" "0 < rp_maxDelay p" "rp_maxDelay p < MaxInt64" "0 \<le> retryAfter"
    "authorizationRetryDelay env failed p retryAfter w = (d, w')"
  shows "min retryAfter (rp_maxDelay p) \<le> d"
    "d \<le> min (max (rp_baseDelay p) retryAfter * 2 ^ nat (failed - 1)) (rp_maxDelay p)"
proof -
  let ?m = "rp_maxDelay p" and ?n = "nat (max failed 1 - 1)"
  let ?lo = "min retryAfter ?m"
  let ?up = "min (doubleCeiling ?n ?m (max (rp_baseDelay p) ?lo)) ?m"
  have up: "?up = min (max (rp_baseDelay p) ?lo * 2 ^ ?n) ?m"
    using assms by (intro doubleCeiling_spec) auto
  have n: "?n = nat (failed - 1)" by (auto simp: max_def)
  have "max (rp_baseDelay p) ?lo * 2 ^ ?n \<le> max (rp_baseDelay p) retryAfter * 2 ^ ?n" by (intro mult_right_mono) auto
  then have le: "?up \<le> min (max (rp_baseDelay p) retryAfter * 2 ^ nat (failed - 1)) ?m"
    using up unfolding n by linarith
  have "max (rp_baseDelay p) ?lo * 1 \<le> max (rp_baseDelay p) ?lo * 2 ^ ?n" using assms by (intro mult_left_mono) auto
  then have lo: "?lo \<le> ?up" using up by auto
  have ne: "(?m \<le> 0) = False" using assms(3) by simp
  have eq: "authorizationRetryDelay env failed p retryAfter w =
      (if ?up \<le> ?lo then (?lo, w) else (case fullJitter env (i64_sub ?up ?lo) w of (j, w') \<Rightarrow> (i64_add ?lo j, w')))"
    unfolding authorizationRetryDelay_def Let_def ne if_False by (rule refl)
  have "?lo \<le> d \<and> d \<le> ?up"
  proof (cases "?up \<le> ?lo")
    case True
    then have "d = ?lo" using assms(6) unfolding eq if_P [OF True] by blast
    then show ?thesis using True lo by simp
  next
    case False
    have in64: "0 \<le> ?lo" "?up < MaxInt64" using assms by auto
    then have s: "i64_sub ?up ?lo = ?up - ?lo" using lo by (intro i64_sub_exact in_i64_nonneg) linarith+
    obtain j w1 where j: "fullJitter env (?up - ?lo) w = (j, w1)" by fastforce
    then have jb: "0 \<le> j \<and> j \<le> ?up - ?lo"
      using fullJitter_bounds [OF assms(1) _ _ j] lo in64 by linarith
    then have "i64_add ?lo j = ?lo + j" using in64 lo by (intro i64_add_exact in_i64_nonneg) linarith+
    then have "d = ?lo + j" using assms(6) unfolding eq if_not_P [OF False] s j by (metis case_prod_conv prod.inject)
    then show ?thesis using jb by linarith
  qed
  then show "?lo \<le> d" "d \<le> min (max (rp_baseDelay p) retryAfter * 2 ^ nat (failed - 1)) ?m" using le by linarith+
qed


section \<open>Persistence\<close>

text \<open>No deadline passes: neither the network nor a reply reports one, and sleeps are not interrupted.\<close>

definition undisturbed :: "net_env \<Rightarrow> (http_response \<Rightarrow> go_error + 'a) \<Rightarrow> bool" where
  "undisturbed env out \<longleftrightarrow>
     (\<forall>n q e. ne_Do env n q = Inl e \<longrightarrow> \<not> errors_Is e DeadlineExceeded)
   \<and> (\<forall>n q r e. ne_Do env n q = Inr r \<longrightarrow> hr_Fail r = Some e \<or> out r = Inl e \<longrightarrow> \<not> errors_Is e DeadlineExceeded)
   \<and> (\<forall>n d. ne_timer env n d = None)"

lemma wrapError_Is [simp]: "errors_Is (wrapError m e) s = errors_Is e s"
  by (cases e) auto

lemma httpc_Do_outcome: "httpc_Do env req w = (out, w') \<Longrightarrow> out = ne_Do env (ns_now w) req"
  by (auto simp: httpc_Do_def Let_def)

text \<open>At a configured authority an attempt sends one request.\<close>

lemma post_pinned_sends:
  assumes "cl_configurationError c = None" "0 \<le> pinned" "pinned < int (length (cl_baseURLs c))"
    "\<forall>base \<in> set (cl_baseURLs c). ne_NewRequest env (base @ path) = None"
    "postJSONBytesWithBootAuthAtEndpoint env c cx path body out pinned boot w = (sel, r, w')"
  shows "length (ns_sent w') = Suc (length (ns_sent w))" "sel = pinned"
    "undisturbed env out \<Longrightarrow> r = Inl e \<Longrightarrow> \<not> errors_Is e DeadlineExceeded"
proof -
  have "cl_baseURLs c \<noteq> []" "ne_NewRequest env (cl_baseURLs c ! nat pinned @ path) = None" using assms by auto
  moreover obtain o1 w1 where d: "httpc_Do env (requestTo c cx path body boot (cl_baseURLs c ! nat pinned)) w = (o1, w1)" by fastforce
  ultimately have p: "postToControlPlaneWithBootAuth env c cx path body pinned boot w =
      ((case o1 of Inr resp \<Rightarrow> Inr resp | Inl e \<Rightarrow> Inl (wrapError (''trustedrouter: post '' @ path @ '': '') e)), pinned, w1)"
    using assms(1-3) by (cases o1) (simp_all add: postToControlPlaneWithBootAuth_def requestTo_def)
  then have w: "w' = w1" and "sel = pinned"
    using assms(5) by (auto simp: postJSONBytesWithBootAuthAtEndpoint_def split: sum.splits if_splits)
  then show "sel = pinned" "length (ns_sent w') = Suc (length (ns_sent w))" using httpc_Do_log [OF d] by auto
  assume u: "undisturbed env out" and r: "r = Inl e"
  show "\<not> errors_Is e DeadlineExceeded"
  proof (cases o1)
    case (Inl e1)
    then have "ne_Do env (ns_now w) (requestTo c cx path body boot (cl_baseURLs c ! nat pinned)) = Inl e1"
      using httpc_Do_outcome [OF d] by simp
    then have "\<not> errors_Is e1 DeadlineExceeded" using u unfolding undisturbed_def by blast
    then show ?thesis using p assms(5) r Inl by (auto simp: postJSONBytesWithBootAuthAtEndpoint_def)
  next
    case (Inr resp)
    then have "ne_Do env (ns_now w) (requestTo c cx path body boot (cl_baseURLs c ! nat pinned)) = Inr resp"
      using httpc_Do_outcome [OF d] by simp
    then have "hr_Fail resp = Some x \<or> out resp = Inl x \<Longrightarrow> \<not> errors_Is x DeadlineExceeded" for x
      using u unfolding undisturbed_def by blast
    then show ?thesis using p assms(5) r Inr
      by (auto simp: postJSONBytesWithBootAuthAtEndpoint_def readLimited_def split: if_splits option.splits sum.splits)
  qed
qed

lemma retryLoop_persists:
  assumes "cl_configurationError c = None" "0 \<le> pinned" "pinned < int (length (cl_baseURLs c))"
    "\<forall>base \<in> set (cl_baseURLs c). ne_NewRequest env (base @ path) = None" "undisturbed env out"
    "retryLoop env c cx path body out policy retry boot n attempt pinned lastErr w = (fin, Inl e, w')"
    "rp_attempts policy = attempt + int n - 1" "retry e" "n > 0"
  shows "length (ns_sent w') = length (ns_sent w) + n"
  using assms(6, 7, 9)
proof (induction n arbitrary: attempt lastErr w)
  case 0
  then show ?case by simp
next
  case (Suc n)
  obtain sel r w1 where p: "postJSONBytesWithBootAuthAtEndpoint env c cx path body out pinned boot w = (sel, r, w1)"
    by (cases "postJSONBytesWithBootAuthAtEndpoint env c cx path body out pinned boot w") auto
  note one = post_pinned_sends [OF assms(1-4) p]
  from Suc.prems(1) p obtain err where r: "r = Inl err" by (cases r) (auto simp: Let_def)
  have dl: "\<not> errors_Is err DeadlineExceeded" using one(3) [OF assms(5) r] .
  show ?case
  proof (cases "attempt = rp_attempts policy \<or> \<not> retry err")
    case True
    then have "e = err \<and> w' = w1" using Suc.prems(1) p r dl by (auto simp: Let_def)
    then have "n = 0" using True assms(8) Suc.prems(2) by simp
    then show ?thesis using one(1) \<open>e = err \<and> w' = w1\<close> by simp
  next
    case False
    obtain d w2 where d: "authorizationRetryDelay env attempt policy (retryAfterDuration err) w1 = (d, w2)" by fastforce
    obtain z w3 where z: "sleepContext env d w2 = (z, w3)" by fastforce
    have "z = None" using z assms(5) by (auto simp: sleepContext_def undisturbed_def split: if_splits)
    then have l: "retryLoop env c cx path body out policy retry boot n (attempt + 1) pinned (Some err) w3 = (fin, Inl e, w')"
      using Suc.prems(1) p r dl False d z one(2) assms(2) by (simp add: Let_def)
    have "n > 0" using False Suc.prems(2) by (cases n) auto
    then have "length (ns_sent w') = length (ns_sent w3) + n" using Suc.IH [OF l] Suc.prems(2) by simp
    then show ?thesis using one(1) authorizationRetryDelay_sent [OF d] sleepContext_sent [OF z] by simp
  qed
qed


section \<open>Properties\<close>

lemma normalize_attempts [simp]: "rp_attempts (normalizeRetryPolicy p) = max (rp_attempts p) 1"
  by (simp add: normalizeRetryPolicy_def Let_def)

lemma normalize_retryable [simp]: "rp_retryable (normalizeRetryPolicy p) = rp_retryable p"
  by (simp add: normalizeRetryPolicy_def Let_def)

lemma normalize_delays:
  "0 \<le> rp_baseDelay (normalizeRetryPolicy p)" "rp_maxDelay (normalizeRetryPolicy p) = max (rp_maxDelay p) 0"
  by (auto simp: normalizeRetryPolicy_def Let_def)


text \<open>Delays. After the k-th failed attempt of a call the client waits at least what the control plane asked for,
  up to the maximum of the policy, and at most the base delay (or the wait asked for) doubled k - 1 times,
  never more than the maximum.\<close>
theorem retry_delay_bounds:
  assumes "rand_ok env" "0 < rp_maxDelay p" "rp_maxDelay p < MaxInt64"
    "authorizationRetryDelay env k (normalizeRetryPolicy p) (retryAfterDuration err) w = (d, w')"
  shows "min (retryAfterDuration err) (rp_maxDelay p) \<le> d
     \<and> d \<le> min (max (rp_baseDelay p) (retryAfterDuration err) * 2 ^ nat (k - 1)) (rp_maxDelay p)"
proof -
  have ra: "0 \<le> retryAfterDuration err"
    by (auto simp: retryAfterDuration_def ParseInt32_def i64_mul_exact i64_defs split: option.splits if_splits)
  have m: "rp_maxDelay (normalizeRetryPolicy p) = rp_maxDelay p" using assms(2) by (simp add: normalize_delays)
  have "max (rp_baseDelay (normalizeRetryPolicy p)) (retryAfterDuration err) \<le> max (rp_baseDelay p) (retryAfterDuration err)"
    using ra by (auto simp: normalizeRetryPolicy_def Let_def)
  then have "max (rp_baseDelay (normalizeRetryPolicy p)) (retryAfterDuration err) * 2 ^ nat (k - 1)
      \<le> max (rp_baseDelay p) (retryAfterDuration err) * 2 ^ nat (k - 1)" by (rule mult_right_mono) simp
  then show ?thesis
    using retryDelay_spec [OF assms(1) normalize_delays(1) _ _ ra assms(4)] assms(2, 3) m by linarith
qed

text \<open>Persistence. When no deadline passes, a call pinned to a configured authority reports a retryable
  error only after it used every attempt of its policy.\<close>
theorem retry_persists:
  assumes "cl_configurationError c = None" "0 \<le> pinned" "pinned < int (length (cl_baseURLs c))"
    "\<forall>base \<in> set (cl_baseURLs c). ne_NewRequest env (base @ path) = None" "undisturbed env out"
    "postJSONBytesWithRetryFromEndpoint env c cx path body out policy pinned boot w = (sel, Inl e, w')"
    "(case rp_retryable policy of Some f \<Rightarrow> f | None \<Rightarrow> retryableAuthorizationError) e"
  shows "length (ns_sent w') = length (ns_sent w) + nat (max (rp_attempts policy) 1)"
  using retryLoop_persists [OF assms(1-5), of cx body "normalizeRetryPolicy policy"
      "case rp_retryable policy of Some f \<Rightarrow> f | None \<Rightarrow> retryableAuthorizationError" boot "nat (max (rp_attempts policy) 1)" 1 None w sel e w'] assms(6, 7)
  by (simp add: postJSONBytesWithRetryFromEndpoint_def Let_def)

section \<open>An example\<close>

text \<open>Two authorities; the first cannot be dialled. The second answers 503 twice and then succeeds, or never does.\<close>

definition exClient :: Client where
  "exClient = \<lparr>cl_baseURLs = [''https://a'', ''https://b''], cl_configurationError = None, cl_internalToken = ''t'', cl_asyncShadow = False\<rparr>"

definition exContext :: call_context where
  "exContext = \<lparr>cx_asyncMode = [], cx_shadowHeader = [], cx_videoProviders = None\<rparr>"

definition exNet :: "nat \<Rightarrow> net_env" where
  "exNet good = \<lparr>ne_NewRequest = (\<lambda>_. None),
     ne_Do = (\<lambda>n q. if hq_URL q = ''https://a'' @ settlePath then Inl (ChainErr ''refused'' [DialFailure])
               else if n < good then Inr \<lparr>hr_StatusCode = 503, hr_RetryAfter = [], hr_Data = [], hr_Fail = None\<rparr>
               else Inr \<lparr>hr_StatusCode = 200, hr_RetryAfter = [], hr_Data = ''ok'', hr_Fail = None\<rparr>),
     ne_ctxErr = (\<lambda>_. None), ne_timer = (\<lambda>_ _. None), ne_rand = (\<lambda>_ m. if 0 < m then Some 0 else None), ne_json = (\<lambda>_. None)\<rparr>"

definition exOut :: "http_response \<Rightarrow> go_error + string" where
  "exOut r = Inr (hr_Data r)"

definition exStart :: net_state where
  "exStart = \<lparr>ns_now = 0, ns_sent = []\<rparr>"

definition exRun :: "nat \<Rightarrow> int \<Rightarrow> int \<times> (go_error + string) \<times> net_state" where
  "exRun good pinned = postJSONBytesWithRetryFromEndpoint (exNet good) exClient exContext settlePath ''b'' exOut
     (settlementPolicy\<lparr>rp_maxDelay := 0\<rparr>) pinned [] exStart"


lemma exRun_facts:
  "fst (exRun 3 (-1)) = 1" "fst (snd (exRun 3 (-1))) = Inr ''ok''" "length (ns_sent (snd (snd (exRun 3 (-1))))) = 4"
  "case fst (snd (exRun 9 1)) of Inl e \<Rightarrow> retryableSettlementError e | Inr _ \<Rightarrow> False"
  by code_simp+


definition exError :: go_error where
  "exError = ControlErr (emptyControlPlaneError\<lparr>ce_StatusCode := 503, ce_RetryAfter := ''1''\<rparr>)"

lemma exNet_rand: "rand_ok (exNet good)"
  by (simp add: rand_ok_def exNet_def)

theorem retry_delay_bounds_witness:
  "retryAfterDuration exError = 1000000000
   \<and> fst (authorizationRetryDelay (exNet 0) 2 (normalizeRetryPolicy defaultAuthorizeRetryPolicy) (retryAfterDuration exError) exStart)
       \<in> {1000000000 .. 2000000000}"
proof -
  obtain d w' where d: "authorizationRetryDelay (exNet 0) 2 (normalizeRetryPolicy defaultAuthorizeRetryPolicy) (retryAfterDuration exError) exStart = (d, w')"
    by fastforce
  have r: "retryAfterDuration exError = 1000000000" by code_simp
  have "1000000000 \<le> d \<and> d \<le> 2000000000"
    using retry_delay_bounds [OF exNet_rand _ _ d] r by (simp add: defaultAuthorizeRetryPolicy_def MaxInt64_def)
  then show ?thesis using d r by simp
qed

theorem retry_persists_witness:
  "\<exists>e. fst (snd (exRun 9 1)) = Inl e \<and> retryableSettlementError e \<and> length (ns_sent (snd (snd (exRun 9 1)))) = 3"
proof -
  obtain e where e: "fst (snd (exRun 9 1)) = Inl e" "retryableSettlementError e" using exRun_facts(4) by (auto split: sum.splits)
  then obtain sel w' where r: "exRun 9 1 = (sel, Inl e, w')" by (metis prod.collapse)
  have "undisturbed (exNet 9) exOut" by (auto simp: undisturbed_def exNet_def exOut_def split: if_splits)
  then have "length (ns_sent w') = 3"
    using retry_persists [OF _ _ _ _ _ r [unfolded exRun_def]] e(2)
    by (simp add: exClient_def exNet_def exStart_def settlementPolicy_def)
  then show ?thesis using r e by simp
qed

end
