(* ===== verification/ControlFreeze.thy ===== *)
theory ControlFreeze
  imports ControlBodies ControlLaws SettleOutbox "HOL-Library.Multiset"
begin

text \<open>
  Which authorities a client may have (\<open>endpoints.go\<close>), and settlements and refunds frozen for a
  later replay (\<open>frozen_terminal.go\<close>, and \<open>Settle\<close> and \<open>refundDetailed\<close> of \<open>client.go\<close> without async or shadow settlement).
  URL and IP address parsing are parameters; the text of an error leaves out the quoting of its arguments. The properties: only reviewed authorities are ever configured, and
  replaying a frozen settlement is the same call as the settlement it stands for.
\<close>

section \<open>Configured authorities\<close>

record parsed_url =
  pu_Scheme :: string
  pu_Host :: string
  pu_User :: bool
  pu_RawQuery :: string
  pu_Fragment :: string
  pu_EscapedPath :: string
  pu_Hostname :: string
  pu_Port :: string

record url_env =
  ue_ParseRequestURI :: "string \<Rightarrow> parsed_url option"
  ue_Loopback :: "string \<Rightarrow> bool"

definition TrimRightChar :: "char \<Rightarrow> string \<Rightarrow> string" where
  "TrimRightChar c s = rev (dropWhile (\<lambda>x. x = c) (rev s))"

definition observerOnlyControlPlaneHost :: "string \<Rightarrow> bool" where
  "observerOnlyControlPlaneHost host \<longleftrightarrow>
     host \<in> {''aws.trustedrouter.com'', ''azure.trustedrouter.com'', ''status.trustedrouter.com''}
     \<or> HasSuffix host ''.trustedrouter.com'' \<and> (HasPrefix host ''aws-'' \<or> HasPrefix host ''azure-'' \<or> HasPrefix host ''status-'')"

definition configurationError :: "string \<Rightarrow> string \<Rightarrow> go_error" where
  "configurationError endpoint reason = errorf (''trustedrouter: invalid control-plane endpoint '' @ endpoint @ '': '' @ reason)"

definition validateControlPlaneEndpoint :: "url_env \<Rightarrow> string \<Rightarrow> go_error + string" where
  "validateControlPlaneEndpoint env raw =
     (case ue_ParseRequestURI env raw of
        None \<Rightarrow> Inl (configurationError raw ''must be an absolute URL'')
      | Some p \<Rightarrow>
        if pu_Scheme p = [] \<or> pu_Host p = [] then Inl (configurationError raw ''must be an absolute URL'')
        else if pu_User p \<or> pu_RawQuery p \<noteq> [] \<or> pu_Fragment p \<noteq> []
        then Inl (configurationError raw ''userinfo, query strings, and fragments are forbidden'')
        else if pu_EscapedPath p \<noteq> [] \<and> pu_EscapedPath p \<noteq> ''/''
        then Inl (configurationError raw ''the billing-authority URL must not contain a path (including /v1)'')
        else
          (let host = ToLower (TrimRightChar (CHR ''.'') (pu_Hostname p)) in
           if host = [] then Inl (configurationError raw ''hostname is required'')
           else if host = ''trustedrouter.com'' then
             (if pu_Scheme p \<noteq> ''https'' \<or> (pu_Port p \<noteq> [] \<and> pu_Port p \<noteq> ''443'')
              then Inl (configurationError raw ''the canonical billing authority requires HTTPS on port 443'')
              else Inr ''https://trustedrouter.com'')
           else if ue_Loopback env host \<and> (pu_Scheme p = ''http'' \<or> pu_Scheme p = ''https'')
           then Inr (TrimRightChar (CHR ''/'') raw)
           else if observerOnlyControlPlaneHost host then Inl (configurationError raw ''the host is an observer-only service'')
           else Inl (configurationError raw ''the host is not a reviewed billing authority'')))"

fun endpointsLoop :: "url_env \<Rightarrow> string list \<Rightarrow> string list \<Rightarrow> go_error + string list" where
  "endpointsLoop env out [] = Inr out"
| "endpointsLoop env out (part # parts) =
     (let endpoint = TrimRightChar (CHR ''/'') (TrimSpace part) in
      if endpoint = [] then endpointsLoop env out parts
      else case validateControlPlaneEndpoint env endpoint of
          Inl e \<Rightarrow> Inl e
        | Inr normalized \<Rightarrow> if normalized \<in> set out then endpointsLoop env out parts else endpointsLoop env (out @ [normalized]) parts)"

definition parseControlPlaneEndpoints :: "url_env \<Rightarrow> string \<Rightarrow> go_error + string list" where
  "parseControlPlaneEndpoints env configured = endpointsLoop env [] (SplitAt (CHR '','') configured)"

definition newClient :: "url_env \<Rightarrow> bool \<Rightarrow> string \<Rightarrow> string \<Rightarrow> Client" where
  "newClient env asyncShadow baseURL internalToken = (case parseControlPlaneEndpoints env baseURL of
     Inl e \<Rightarrow> \<lparr>cl_baseURLs = [], cl_configurationError = Some e, cl_internalToken = internalToken, cl_asyncShadow = asyncShadow\<rparr>
   | Inr urls \<Rightarrow> \<lparr>cl_baseURLs = urls, cl_configurationError = None, cl_internalToken = internalToken, cl_asyncShadow = asyncShadow\<rparr>)"

definition client_Enabled :: "Client \<Rightarrow> bool" where
  "client_Enabled c \<longleftrightarrow> cl_configurationError c \<noteq> None \<or> (cl_baseURLs c \<noteq> [] \<and> cl_internalToken c \<noteq> [])"

definition ProductionConfigurationError :: "Client \<Rightarrow> go_error option" where
  "ProductionConfigurationError c = (case cl_configurationError c of
     Some e \<Rightarrow> Some e
   | None \<Rightarrow> if cl_baseURLs c = [] then Some (errorf ''trustedrouter: control-plane endpoint is required'')
       else if TrimSpace (cl_internalToken c) = [] then Some (errorf ''trustedrouter: internal gateway token is required'') else None)"

section \<open>Settling and freezing\<close>

text \<open>The decoder of the reply is that of the settle result; the caller's target type decides it.\<close>

record 'a settle_env =
  st_net :: net_env
  st_float :: "gofloat \<Rightarrow> string"
  st_decode :: "http_response \<Rightarrow> go_error + 'a"

text \<open>\<open>Settle\<close> on an authorization with neither async nor shadow state.\<close>

definition legacySettle :: "'a settle_env \<Rightarrow> Client \<Rightarrow> call_context \<Rightarrow> body_context \<Rightarrow> Authorization \<Rightarrow> Usage \<Rightarrow> net_state \<Rightarrow> (go_error + 'a) \<times> net_state" where
  "legacySettle env c cx bx auth u w = (case buildSettleBody (st_float env) bx auth u of
     Inl e \<Rightarrow> (Inl e, w)
   | Inr body \<Rightarrow> postSettlement (st_net env) c cx (settlementEndpoint c (authority_pin.truncate auth)) (au_AuthorizationID auth) body [] (st_decode env) w)"

definition refundDetailed :: "'a settle_env \<Rightarrow> Client \<Rightarrow> call_context \<Rightarrow> body_context \<Rightarrow> Authorization \<Rightarrow> int \<Rightarrow> string \<Rightarrow> gofloat
    \<Rightarrow> (string \<times> anyval) list option \<Rightarrow> RefundAttribution \<Rightarrow> net_state \<Rightarrow> (go_error + 'a) \<times> net_state" where
  "refundDetailed env c cx bx auth status errorType elapsed metadata attribution w =
     (case buildRefundBody (st_float env) bx auth status errorType elapsed metadata attribution of
        Inl e \<Rightarrow> (Inl e, w)
      | Inr body \<Rightarrow> postRefund (st_net env) c cx (pinnedControlPlaneEndpoint (authority_pin.truncate auth)) body [] (st_decode env) w)"

definition frozenAuthority :: "Client \<Rightarrow> int \<Rightarrow> go_error + string" where
  "frozenAuthority c endpoint =
     (if endpoint < 0 then Inr []
      else if endpoint < int (length (cl_baseURLs c)) then Inr (cl_baseURLs c ! nat endpoint)
      else if cl_configurationError c \<noteq> None \<or> cl_baseURLs c = [] then Inr []
      else Inl (errorf (''trustedrouter: invalid control-plane endpoint index '' @ itoa endpoint)))"

fun indexFrom :: "int \<Rightarrow> string \<Rightarrow> string list \<Rightarrow> int option" where
  "indexFrom i x [] = None"
| "indexFrom i x (y # ys) = (if y = x then Some i else indexFrom (i + 1) x ys)"

definition frozenEndpoint :: "Client \<Rightarrow> string \<Rightarrow> go_error + int" where
  "frozenEndpoint c baseURL =
     (if baseURL = [] then Inr (-1)
      else case indexFrom 0 baseURL (cl_baseURLs c) of
          Some i \<Rightarrow> Inr i
        | None \<Rightarrow> Inl (errorf (''trustedrouter: frozen terminal authority '' @ baseURL @ '' is not configured'')))"

definition FreezeSettle :: "(gofloat \<Rightarrow> string) \<Rightarrow> Client \<Rightarrow> body_context \<Rightarrow> Authorization \<Rightarrow> Usage \<Rightarrow> go_error + FrozenTerminal" where
  "FreezeSettle fl c bx auth u =
     bindE (frozenAuthority c (settlementEndpoint c (authority_pin.truncate auth))) (\<lambda>baseURL.
     bindE (buildSettleBody fl bx auth u) (\<lambda>body.
       Inr \<lparr>fz_Path = settlePath, fz_Body = body, fz_BaseURL = baseURL, fz_BootAuth = []\<rparr>))"

definition FreezeRefund :: "(gofloat \<Rightarrow> string) \<Rightarrow> Client \<Rightarrow> body_context \<Rightarrow> Authorization \<Rightarrow> int \<Rightarrow> string \<Rightarrow> gofloat \<Rightarrow> (string \<times> anyval) list option
    \<Rightarrow> go_error + FrozenTerminal" where
  "FreezeRefund fl c bx auth status errorType elapsed metadata =
     bindE (frozenAuthority c (pinnedControlPlaneEndpoint (authority_pin.truncate auth))) (\<lambda>baseURL.
     bindE (buildRefundBody fl bx auth status errorType elapsed metadata \<lparr>ra_User = [], ra_Session = [], ra_Trace = None\<rparr>) (\<lambda>body.
       Inr \<lparr>fz_Path = refundPath, fz_Body = body, fz_BaseURL = baseURL, fz_BootAuth = []\<rparr>))"

definition frozenAuthorizationID :: "net_env \<Rightarrow> string \<Rightarrow> string" where
  "frozenAuthorizationID env body =
     (case Option.bind (ne_json env body) (uStruct [(''authorization_id'', uString (\<lambda>f. f))] []) of None \<Rightarrow> [] | Some v \<Rightarrow> v)"

definition PostFrozenTerminal :: "'a settle_env \<Rightarrow> Client \<Rightarrow> call_context \<Rightarrow> FrozenTerminal \<Rightarrow> net_state \<Rightarrow> (go_error + 'a) \<times> net_state" where
  "PostFrozenTerminal env c cx0 t w = (case cl_configurationError c of
     Some e \<Rightarrow> (Inl e, w)
   | None \<Rightarrow> (case frozenEndpoint c (fz_BaseURL t) of
       Inl e \<Rightarrow> (Inl e, w)
     | Inr endpoint \<Rightarrow>
       (let cx = cx0\<lparr>cx_asyncMode := [], cx_shadowHeader := []\<rparr> in
        if fz_Path t = settlePath
        then postSettlement (st_net env) c cx endpoint (frozenAuthorizationID (st_net env) (fz_Body t)) (fz_Body t) (fz_BootAuth t) (st_decode env) w
        else if fz_Path t = refundPath
        then postRefund (st_net env) c cx endpoint (fz_Body t) (fz_BootAuth t) (st_decode env) w
        else (Inl (errorf (''trustedrouter: frozen terminal path '' @ fz_Path t @ '' is not a settle or refund'')), w))))"


section \<open>Only reviewed authorities\<close>

lemma TrimRight_idem: "TrimRightChar c (TrimRightChar c s) = TrimRightChar c s"
  by (simp add: TrimRightChar_def dropWhile_eq_self_iff)

text \<open>What validation lets through.\<close>

definition reviewed :: "url_env \<Rightarrow> string \<Rightarrow> bool" where
  "reviewed env url \<longleftrightarrow> url = ''https://trustedrouter.com'' \<or>
     (\<exists>p. ue_ParseRequestURI env url = Some p \<and> ue_Loopback env (ToLower (TrimRightChar (CHR ''.'') (pu_Hostname p)))
        \<and> pu_Scheme p \<in> {''http'', ''https''} \<and> \<not> pu_User p \<and> pu_RawQuery p = [] \<and> pu_Fragment p = [])"

lemma validate_reviewed:
  assumes "validateControlPlaneEndpoint env raw = Inr url" "TrimRightChar (CHR ''/'') raw = raw" "raw \<noteq> []"
  shows "reviewed env url \<and> url \<noteq> []"
  using assms by (auto simp: validateControlPlaneEndpoint_def reviewed_def Let_def split: option.splits if_splits)

lemma endpointsLoop_reviewed:
  assumes "endpointsLoop env out parts = Inr urls" "distinct out" "\<forall>u \<in> set out. reviewed env u \<and> u \<noteq> []"
  shows "distinct urls \<and> (\<forall>u \<in> set urls. reviewed env u \<and> u \<noteq> [])"
  using assms
proof (induction env out parts rule: endpointsLoop.induct)
  case (1 env out)
  then show ?case by simp
next
  case (2 env out part parts)
  let ?e = "TrimRightChar (CHR ''/'') (TrimSpace part)"
  show ?case
  proof (cases "?e = []")
    case True
    then have "endpointsLoop env out parts = Inr urls" using 2(4) by (simp add: Let_def)
    then show ?thesis using 2(1) [OF refl True _ 2(5, 6)] by blast
  next
    case False
    with 2(4) obtain n where n: "validateControlPlaneEndpoint env ?e = Inr n"
      by (cases "validateControlPlaneEndpoint env ?e") (simp_all add: Let_def)
    note new = validate_reviewed [OF n TrimRight_idem False]
    have step: "endpointsLoop env out (part # parts) = (if n \<in> set out then endpointsLoop env out parts else endpointsLoop env (out @ [n]) parts)"
      using False n by (simp add: Let_def)
    show ?thesis
    proof (cases "n \<in> set out")
      case True
      show ?thesis using 2(2) [OF refl False n True _ 2(5, 6)] 2(4) True unfolding step by simp
    next
      case seenFalse: False
      have "distinct (out @ [n])" "\<forall>u \<in> set (out @ [n]). reviewed env u \<and> u \<noteq> []" using 2(5, 6) new seenFalse by auto
      then show ?thesis using 2(3) [OF refl False n seenFalse] 2(4) seenFalse unfolding step by simp
    qed
  qed
qed

text \<open>(C32) A client never has an authority that was not reviewed: whatever the configured value, the
  endpoints of a client are distinct, not empty, and each is the canonical authority or a loopback address
  without user, query or fragment; with a rejected value it has none, and every request fails with the configuration error
  before anything is sent.\<close>
theorem newClient_reviewed:
  "distinct (cl_baseURLs (newClient env shadow configured token))
   \<and> (\<forall>u \<in> set (cl_baseURLs (newClient env shadow configured token)). u \<noteq> [] \<and> reviewed env u)
   \<and> (\<forall>e. parseControlPlaneEndpoints env configured = Inl e \<longrightarrow>
        postToControlPlaneWithBootAuth net (newClient env shadow configured token) cx path body pinned boot w = (Inl e, -1, w))"
proof (cases "parseControlPlaneEndpoints env configured")
  case (Inl e)
  then show ?thesis by (simp add: newClient_def postToControlPlaneWithBootAuth_def)
next
  case (Inr urls)
  then have "distinct urls \<and> (\<forall>u \<in> set urls. reviewed env u \<and> u \<noteq> [])"
    using endpointsLoop_reviewed [of env "[]"] by (simp add: parseControlPlaneEndpoints_def)
  then show ?thesis using Inr by (simp add: newClient_def)
qed

definition exURL :: url_env where
  "exURL = \<lparr>ue_ParseRequestURI = (\<lambda>s. Some \<lparr>pu_Scheme = ''https'', pu_Host = drop 8 s, pu_User = False, pu_RawQuery = [], pu_Fragment = [],
     pu_EscapedPath = [], pu_Hostname = drop 8 s, pu_Port = []\<rparr>), ue_Loopback = (\<lambda>h. h = ''127.0.0.1'')\<rparr>"

theorem newClient_reviewed_witness:
  "cl_baseURLs (newClient exURL False ''https://trustedrouter.com/, https://127.0.0.1'' ''t'') = [''https://trustedrouter.com'', ''https://127.0.0.1'']
   \<and> distinct (cl_baseURLs (newClient exURL False ''https://trustedrouter.com/, https://127.0.0.1'' ''t''))
   \<and> postToControlPlaneWithBootAuth (exNet 0) (newClient exURL False ''https://aws.trustedrouter.com'' ''t'') exContext settlePath [] 0 [] exStart
       = (Inl (configurationError ''https://aws.trustedrouter.com'' ''the host is an observer-only service''), -1, exStart)"
proof -
  have bad: "parseControlPlaneEndpoints exURL ''https://aws.trustedrouter.com'' =
      Inl (configurationError ''https://aws.trustedrouter.com'' ''the host is an observer-only service'')" by code_simp
  have good: "cl_baseURLs (newClient exURL False ''https://trustedrouter.com/, https://127.0.0.1'' ''t'') = [''https://trustedrouter.com'', ''https://127.0.0.1'']"
    by code_simp
  show ?thesis
    using good newClient_reviewed [of exURL False "''https://trustedrouter.com/, https://127.0.0.1''" "''t''", THEN conjunct1]
      newClient_reviewed [of exURL False "''https://aws.trustedrouter.com''" "''t''" "exNet 0" exContext settlePath "[]" 0 "[]" exStart,
        THEN conjunct2, THEN conjunct2, rule_format, OF bad] by (intro conjI)
qed


section \<open>Replaying a frozen settlement\<close>

text \<open>An authority below zero means any, whichever number it is.\<close>

lemma tryEndpoints_unpinned:
  "pinned < 0 \<Longrightarrow> tryEndpoints env c cx path body pinned boot i bases w = tryEndpoints env c cx path body (-1) boot i bases w"
  by (induction bases arbitrary: i w) (simp_all split: option.split sum.split prod.split)

lemma postTo_unpinned:
  "pinned < 0 \<Longrightarrow> postToControlPlaneWithBootAuth env c cx path body pinned boot w = postToControlPlaneWithBootAuth env c cx path body (-1) boot w"
  using tryEndpoints_unpinned [of pinned env c cx path body boot 0 "cl_baseURLs c" w]
  by (cases "cl_configurationError c") (simp_all add: postToControlPlaneWithBootAuth_def)

lemma post_unpinned:
  "pinned < 0 \<Longrightarrow> postJSONBytesWithBootAuthAtEndpoint env c cx path body out pinned boot w
     = postJSONBytesWithBootAuthAtEndpoint env c cx path body out (-1) boot w"
  unfolding postJSONBytesWithBootAuthAtEndpoint_def by (simp only: postTo_unpinned [of pinned])

lemma postSettlement_unpinned:
  "e < 0 \<Longrightarrow> postSettlement env c cx e i body boot out w = postSettlement env c cx (-1) j body boot out w"
  by (simp add: postSettlement_def post_unpinned [of e])

text \<open>The authority a terminal names is found again.\<close>

lemma indexFrom_nth:
  assumes "distinct xs" "k < length xs"
  shows "indexFrom i (xs ! k) xs = Some (i + int k)"
  using assms
proof (induction xs arbitrary: i k)
  case Nil
  then show ?case by simp
next
  case (Cons x xs)
  show ?case
  proof (cases k)
    case 0
    then show ?thesis by simp
  next
    case (Suc l)
    then have "xs ! l \<in> set xs" using Cons.prems by simp
    then have "x \<noteq> xs ! l" using Cons.prems by auto
    then show ?thesis using Suc Cons by simp
  qed
qed

lemma frozen_authority_roundtrip:
  assumes "distinct (cl_baseURLs c)" "[] \<notin> set (cl_baseURLs c)" "cl_baseURLs c \<noteq> []" "cl_configurationError c = None"
    "frozenAuthority c endpoint = Inr baseURL"
  shows "frozenEndpoint c baseURL = Inr (if endpoint < 0 then -1 else endpoint)"
proof (cases "endpoint < 0")
  case True
  then show ?thesis using assms(5) by (auto simp: frozenAuthority_def frozenEndpoint_def)
next
  case False
  then have k: "nat endpoint < length (cl_baseURLs c)" "baseURL = cl_baseURLs c ! nat endpoint"
    using assms(3-5) by (auto simp: frozenAuthority_def split: if_splits)
  then have "baseURL \<noteq> []" using assms(2) nth_mem by metis
  then show ?thesis using indexFrom_nth [OF assms(1) k(1), of 0] k(2) False by (simp add: frozenEndpoint_def)
qed

text \<open>What the JSON reader promises for a body this client wrote: its keys in the order they were
  written, and its strings.\<close>

definition reads_back :: "net_env \<Rightarrow> string \<Rightarrow> (string \<times> anyval) list \<Rightarrow> bool" where
  "reads_back env body m \<longleftrightarrow> (case ne_json env body of
     Some (JObj ms) \<Rightarrow> map fst ms = map fst (sortKeys m) \<and> list_all (\<lambda>(k, v). case v of AStr s \<Rightarrow> (k, JStr s) \<in> set ms | _ \<Rightarrow> True) m
   | _ \<Rightarrow> False)"

lemma mset_insertKey: "mset (insertKey e m) = add_mset e (mset m)"
  by (induction m) auto

lemma mset_sortKeys: "mset (sortKeys m) = mset m"
  by (induction m) (auto simp: sortKeys_def mset_insertKey)

lemma sortKeys_keys: "mset (map fst (sortKeys m)) = mset (map fst m)"
  by (metis mset_map mset_sortKeys)

text \<open>A decoder of one string field reads the member of that name, when no other name folds to it.\<close>

lemma uMembers_one:
  assumes "distinct (map fst ms)" "(k, JStr s) \<in> set ms" "\<forall>x \<in> set (map fst ms). x \<noteq> k \<longrightarrow> foldName k \<noteq> foldName x"
  shows "uMembers [(k, uString (\<lambda>f. f))] z ms = Some s"
proof -
  obtain xs ys where ms: "ms = xs @ (k, JStr s) # ys" using assms(2) split_list by fastforce
  have skip: "fieldNamed [(k, uString (\<lambda>f. f))] (fst x) = None" if "x \<in> set (xs @ ys)" for x
  proof -
    have "fst x \<noteq> k" using that assms(1) unfolding ms by auto
    moreover have "fst x \<in> set (map fst ms)" using that unfolding ms by auto
    ultimately have "foldName k \<noteq> foldName (fst x)" using assms(3) by blast
    then show ?thesis using \<open>fst x \<noteq> k\<close> by (simp add: fieldNamed_def)
  qed
  have only: "uMembers [(k, uString (\<lambda>f. f))] v zs = Some v" if "set zs \<subseteq> set (xs @ ys)" for v zs
    using that
  proof (induction zs arbitrary: v)
    case (Cons x zs)
    then show ?case using skip [of x] by (cases x) simp
  qed simp
  show ?thesis unfolding ms by (simp add: uMembers_append only uString_def)
qed

lemma settleKeys_fold: "\<forall>x \<in> set settleKeys. x \<noteq> ''authorization_id'' \<longrightarrow> foldName ''authorization_id'' \<noteq> foldName x"
  by code_simp

lemma frozenAuthorizationID_settle:
  assumes "reads_back env body (settleBody bx auth u)"
  shows "frozenAuthorizationID env body = au_AuthorizationID auth"
proof -
  let ?m = "settleBody bx auth u"
  obtain ms where ms: "ne_json env body = Some (JObj ms)" "map fst ms = map fst (sortKeys ?m)"
    "list_all (\<lambda>(k, v). case v of AStr s \<Rightarrow> (k, JStr s) \<in> set ms | _ \<Rightarrow> True) ?m"
    using assms by (auto simp: reads_back_def split: option.splits json.splits)
  have keys: "mset (map fst ms) = mset (map fst ?m)" using ms(2) sortKeys_keys by metis
  then have d: "distinct (map fst ms)" using settleBody_distinct by (metis mset_eq_imp_distinct_iff)
  have "set (map fst ms) \<subseteq> set settleKeys"
    using mset_eq_setD [OF keys] list_emb_set [OF settleBody_keys [of bx auth u]] by auto
  then have f: "\<forall>x \<in> set (map fst ms). x \<noteq> ''authorization_id'' \<longrightarrow> foldName ''authorization_id'' \<noteq> foldName x"
    using settleKeys_fold by blast
  have "(''authorization_id'', AStr (au_AuthorizationID auth)) \<in> set ?m" by (simp add: settleBody_def Let_def)
  then have "(''authorization_id'', JStr (au_AuthorizationID auth)) \<in> set ms" using ms(3) by (fastforce simp: list_all_iff)
  from uMembers_one [OF d this f] show ?thesis using ms(1) by (simp add: frozenAuthorizationID_def uStruct_def)
qed

text \<open>(C31) A replay is the original call. On a client with distinct authorities, posting the frozen form of a settlement
  sends the same requests and has the same result, in every network, as the settlement would have had at
  that moment: the same bytes, at the same authority, with the same retries.\<close>
theorem frozen_settle_replays:
  assumes "distinct (cl_baseURLs c)" "[] \<notin> set (cl_baseURLs c)" "cl_baseURLs c \<noteq> []" "cl_configurationError c = None"
    "FreezeSettle (st_float env) c bx auth u = Inr t" "reads_back (st_net env) (fz_Body t) (settleBody bx auth u)"
    "cx_asyncMode cx = []" "cx_shadowHeader cx = []"
  shows "PostFrozenTerminal env c cx t w = legacySettle env c cx bx auth u w"
proof -
  let ?e = "settlementEndpoint c (authority_pin.truncate auth)"
  obtain baseURL body where b: "frozenAuthority c ?e = Inr baseURL" "buildSettleBody (st_float env) bx auth u = Inr body"
    and t: "t = \<lparr>fz_Path = settlePath, fz_Body = body, fz_BaseURL = baseURL, fz_BootAuth = []\<rparr>"
    using assms(5) by (auto simp: FreezeSettle_def bindE_def split: sum.splits)
  have cx: "cx\<lparr>cx_asyncMode := [], cx_shadowHeader := []\<rparr> = cx" using assms(7, 8) by (cases cx) simp
  have i: "frozenAuthorizationID (st_net env) body = au_AuthorizationID auth"
    using frozenAuthorizationID_settle [OF assms(6)] t by simp
  have "PostFrozenTerminal env c cx t w =
      postSettlement (st_net env) c cx (if ?e < 0 then -1 else ?e) (au_AuthorizationID auth) body [] (st_decode env) w"
    using frozen_authority_roundtrip [OF assms(1-4) b(1)] assms(4) t cx i by (simp add: PostFrozenTerminal_def Let_def)
  also have "\<dots> = legacySettle env c cx bx auth u w"
    using b(2) postSettlement_unpinned [of ?e "st_net env" c cx "au_AuthorizationID auth" body "[]" "st_decode env" w "au_AuthorizationID auth"]
    by (simp add: legacySettle_def)
  finally show ?thesis .
qed


lemma reads_back_wire:
  "ne_json env body = Some (JObj (map (\<lambda>e. (fst e, case snd e of AStr s \<Rightarrow> JStr s | _ \<Rightarrow> JNull)) (sortKeys m))) \<Longrightarrow> reads_back env body m"
  using mset_eq_setD [OF mset_sortKeys [of m]]
  by (force simp: reads_back_def list_all_iff comp_def split: anyval.splits)

lemma those_Some: "(\<forall>x \<in> set xs. x \<noteq> None) \<Longrightarrow> \<exists>ys. those xs = Some ys"
  by (induction xs) auto

lemma marshalAny_object: "\<forall>e \<in> set m. marshalAny fl (snd e) \<noteq> None \<Longrightarrow> \<exists>b. marshalAny fl (AObj m) = Some b"
proof -
  assume "\<forall>e \<in> set m. marshalAny fl (snd e) \<noteq> None"
  then have "\<exists>ys. those (map (\<lambda>(k, v). map_option (\<lambda>t. (k, t)) (marshalAny fl v)) m) = Some ys"
    by (intro those_Some) fastforce
  then show ?thesis by auto
qed

text \<open>A settlement on the second of two authorities.\<close>

definition exAuth :: Authorization where
  "exAuth = \<lparr>ap_ControlPlaneEndpoint = 1, ap_ControlPlaneEndpointSet = True, au_AuthorizationID = ''auth1'', au_Model = ''m'', au_EndpointID = ''e'',
     au_RouteType = ''chat.completions'', au_cacheAffinityKey = [], au_cacheAffinityExplicit = False, au_SettlementStatusURL = []\<rparr>"

definition exUsage :: Usage where
  "exUsage = \<lparr>us_RequestID = ''r'', us_InputTokens = 3, us_OutputTokens = 2, us_ElapsedSeconds = FFinite 1, us_FirstTokenSeconds = FFinite 0,
     us_UsageEstimated = False, us_ReasoningTokens = 0, us_PriceTierInputTokens = 0, us_FinishReason = [], us_Streamed = True, us_RouteType = ''chat.completions'',
     us_SelectedModel = [], us_SelectedEndpoint = [], us_RouteFallbacks = 1, us_RouteFailures = None, us_User = ''u'', us_SessionID = [], us_Trace = None,
     us_Metadata = None, us_App = ''trustedrouter synthetic'', us_HTTPReferer = [], us_AppCategories = [], us_CacheReadInputTokens = 1, us_CacheCreationInputTokens = 0,
     us_AdditionalCostMicrodollars = 0, us_ServiceTier = [], us_VideoInputMode = [], us_VideoDurationSeconds = 0, us_VideoResolution = [], us_VideoAspectRatio = [],
     us_VideoGenerateAudio = False\<rparr>"

definition exBodyContext :: body_context where
  "exBodyContext = \<lparr>bx_requestLogID = ''bad'', bx_clientContext = None\<rparr>"

definition exSettleEnv :: "string settle_env" where
  "exSettleEnv = \<lparr>st_net = (exNet 2)\<lparr>ne_json := (\<lambda>_. Some (JObj (map (\<lambda>e. (fst e, case snd e of AStr s \<Rightarrow> JStr s | _ \<Rightarrow> JNull))
       (sortKeys (settleBody exBodyContext exAuth exUsage)))))\<rparr>, st_float = (\<lambda>_. ''1''), st_decode = exOut\<rparr>"

definition exFrozen :: FrozenTerminal where
  "exFrozen = (case FreezeSettle (st_float exSettleEnv) exClient exBodyContext exAuth exUsage of Inr t \<Rightarrow> t
     | Inl _ \<Rightarrow> \<lparr>fz_Path = [], fz_Body = [], fz_BaseURL = [], fz_BootAuth = []\<rparr>)"

lemma exBody_encodes: "\<exists>b. buildSettleBody fl exBodyContext exAuth exUsage = Inr b"
proof -
  have "\<forall>e \<in> set (settleBody exBodyContext exAuth exUsage). marshalAny fl (snd e) \<noteq> None"
    by (auto simp: settleBody_def Let_def strEntry_def posEntry_def optEntry_def clientEntry_def exUsage_def exAuth_def exBodyContext_def)
  then show ?thesis using marshalAny_object [of _ fl] by (fastforce simp: buildSettleBody_def marshalBody_def)
qed

lemma exFrozen_facts:
  "FreezeSettle (st_float exSettleEnv) exClient exBodyContext exAuth exUsage = Inr exFrozen"
  "fz_BaseURL exFrozen = ''https://b''"
  "reads_back (st_net exSettleEnv) body (settleBody exBodyContext exAuth exUsage)"
proof -
  have e: "settlementEndpoint exClient (authority_pin.truncate exAuth) = 1"
    by (simp add: settlementEndpoint_def pinnedControlPlaneEndpoint_def exAuth_def authority_pin.defs exClient_def)
  obtain b where "buildSettleBody (st_float exSettleEnv) exBodyContext exAuth exUsage = Inr b" using exBody_encodes by blast
  then have "FreezeSettle (st_float exSettleEnv) exClient exBodyContext exAuth exUsage =
      Inr \<lparr>fz_Path = settlePath, fz_Body = b, fz_BaseURL = ''https://b'', fz_BootAuth = []\<rparr>"
    using e by (simp add: FreezeSettle_def frozenAuthority_def exClient_def)
  then show "FreezeSettle (st_float exSettleEnv) exClient exBodyContext exAuth exUsage = Inr exFrozen" "fz_BaseURL exFrozen = ''https://b''"
    by (simp_all add: exFrozen_def)
  show "reads_back (st_net exSettleEnv) body (settleBody exBodyContext exAuth exUsage)"
    by (rule reads_back_wire) (simp add: exSettleEnv_def)
qed

theorem frozen_settle_replays_witness:
  "fz_BaseURL exFrozen = ''https://b''
   \<and> PostFrozenTerminal exSettleEnv exClient exContext exFrozen exStart = legacySettle exSettleEnv exClient exContext exBodyContext exAuth exUsage exStart"
  using exFrozen_facts(2) frozen_settle_replays [OF _ _ _ _ exFrozen_facts(1, 3), of exContext exStart]
  by (simp add: exClient_def exContext_def)

end
