(* ===== verification/AsyncSettle.thy ===== *)
theory AsyncSettle
  imports ControlFreeze BillingV1
begin

text \<open>
  Asynchronous settlement (\<open>internal/trustedrouter/async_settlement.go\<close>, \<open>settlement_cost.go\<close>): a negotiated authorization is settled by
  one frozen body, first asynchronously, then through the synchronous recovery of the same body, and only
  a hard failure of both permits the legacy settlement. The state of one authorization is guarded by a mutex
  that a call holds throughout, so calls follow each other. Negotiation itself (\<open>bindAsyncAuthorization\<close>)
  is not modelled: its result is the initial state. The clock, \<open>json.Marshal\<close> of the request
  and the parsing of floats are parameters; \<open>ne_ctxErr\<close> is the error of the budgeted context. Logging is left out.
\<close>

section \<open>Results\<close>

record PendingSettlement =
  ps_wireComplete :: bool
  ps_V :: int
  ps_SettlementID :: string
  ps_SettlementStatus :: string
  ps_CostMicrodollars :: int
  ps_StatusURL :: string
  ps_PollAfterMS :: int

record SettleResult =
  sr_TrustedRouterSettlement :: "PendingSettlement option"
  sr_CostMicrodollarsKnown :: bool
  sr_GenerationID :: string
  sr_CostMicrodollars :: int
  sr_Cost :: gofloat
  sr_InputTokens :: int
  sr_OutputTokens :: int
  sr_ReasoningTokens :: int
  sr_CacheReadInputTokens :: int
  sr_UsageType :: string
  sr_Model :: string
  sr_Provider :: string
  sr_Region :: string
  sr_Settled :: bool
  sr_AlreadySettled :: bool
  sr_FinalizationOutcome :: string
  sr_Disposition :: string

definition zeroResult :: SettleResult where
  "zeroResult = \<lparr>sr_TrustedRouterSettlement = None, sr_CostMicrodollarsKnown = False, sr_GenerationID = [], sr_CostMicrodollars = 0,
     sr_Cost = FFinite 0, sr_InputTokens = 0, sr_OutputTokens = 0, sr_ReasoningTokens = 0, sr_CacheReadInputTokens = 0, sr_UsageType = [],
     sr_Model = [], sr_Provider = [], sr_Region = [], sr_Settled = False, sr_AlreadySettled = False, sr_FinalizationOutcome = [], sr_Disposition = []\<rparr>"

definition HasCost :: "SettleResult \<Rightarrow> bool" where
  "HasCost r \<longleftrightarrow> sr_CostMicrodollarsKnown r \<or> sr_CostMicrodollars r \<noteq> 0"

text \<open>The custom decoders keep an explicit zero apart from an absent amount.\<close>

record result_wire =
  rw_plain :: SettleResult
  rw_Cost :: "int option"

definition uFloat :: "(string \<Rightarrow> gofloat option) \<Rightarrow> ((gofloat \<Rightarrow> gofloat) \<Rightarrow> 's \<Rightarrow> 's) \<Rightarrow> 's decoder" where
  "uFloat pf upd s j = (case j of JNum t \<Rightarrow> map_option (\<lambda>x. upd (\<lambda>_. x) s) (pf t) | JNull \<Rightarrow> Some s | _ \<Rightarrow> None)"

abbreviation inPlain :: "((('a \<Rightarrow> 'a) \<Rightarrow> SettleResult \<Rightarrow> SettleResult)) \<Rightarrow> ('a \<Rightarrow> 'a) \<Rightarrow> result_wire \<Rightarrow> result_wire" where
  "inPlain upd f \<equiv> rw_plain_update (upd f)"

definition resultFields :: "(string \<Rightarrow> gofloat option) \<Rightarrow> (string \<times> result_wire decoder) list" where
  "resultFields pf =
     [(''generation_id'', uString (inPlain sr_GenerationID_update)), (''cost'', uFloat pf (inPlain sr_Cost_update)),
      (''input_tokens'', uInt (inPlain sr_InputTokens_update)), (''output_tokens'', uInt (inPlain sr_OutputTokens_update)),
      (''reasoning_tokens'', uInt (inPlain sr_ReasoningTokens_update)), (''cache_read_input_tokens'', uInt (inPlain sr_CacheReadInputTokens_update)),
      (''usage_type'', uString (inPlain sr_UsageType_update)), (''model'', uString (inPlain sr_Model_update)), (''provider'', uString (inPlain sr_Provider_update)),
      (''region'', uString (inPlain sr_Region_update)), (''settled'', uBool (inPlain sr_Settled_update)), (''already_settled'', uBool (inPlain sr_AlreadySettled_update)),
      (''finalization_outcome'', uString (inPlain sr_FinalizationOutcome_update)), (''disposition'', uString (inPlain sr_Disposition_update)),
      (''cost_microdollars'', uPtr rw_Cost rw_Cost_update 0 scalarInt)]"

definition SettleResult_UnmarshalJSON :: "(string \<Rightarrow> gofloat option) \<Rightarrow> SettleResult decoder" where
  "SettleResult_UnmarshalJSON pf old j =
     (case uStruct (resultFields pf) \<lparr>rw_plain = zeroResult, rw_Cost = None\<rparr> j of
        None \<Rightarrow> None
      | Some d \<Rightarrow> Some (case rw_Cost d of
          None \<Rightarrow> rw_plain d
        | Some cost \<Rightarrow> (rw_plain d)\<lparr>sr_CostMicrodollars := cost, sr_CostMicrodollarsKnown := True\<rparr>))"

record pending_wire =
  pw_plain :: PendingSettlement
  pw_Cost :: "int option"
  pw_Poll :: "int option"

definition zeroPending :: PendingSettlement where
  "zeroPending = \<lparr>ps_wireComplete = False, ps_V = 0, ps_SettlementID = [], ps_SettlementStatus = [], ps_CostMicrodollars = 0, ps_StatusURL = [], ps_PollAfterMS = 0\<rparr>"

definition PendingSettlement_UnmarshalJSON :: "PendingSettlement decoder" where
  "PendingSettlement_UnmarshalJSON old j =
     (case uStruct [(''v'', uInt (\<lambda>f. pw_plain_update (ps_V_update f))), (''settlement_id'', uString (\<lambda>f. pw_plain_update (ps_SettlementID_update f))),
          (''settlement_status'', uString (\<lambda>f. pw_plain_update (ps_SettlementStatus_update f))), (''status_url'', uString (\<lambda>f. pw_plain_update (ps_StatusURL_update f))),
          (''cost_microdollars'', uPtr pw_Cost pw_Cost_update 0 scalarInt), (''poll_after_ms'', uPtr pw_Poll pw_Poll_update 0 scalarInt)]
        \<lparr>pw_plain = zeroPending, pw_Cost = None, pw_Poll = None\<rparr> j of
        None \<Rightarrow> None
      | Some w \<Rightarrow> Some (case (pw_Cost w, pw_Poll w) of
          (Some cost, Some poll) \<Rightarrow> (pw_plain w)\<lparr>ps_CostMicrodollars := cost, ps_PollAfterMS := poll, ps_wireComplete := True\<rparr>
        | _ \<Rightarrow> pw_plain w))"

section \<open>Replies\<close>

record async_reply =
  ar_Acceptance :: AcceptanceOutcome
  ar_Pending :: "PendingSettlement option"
  ar_Reason :: string
  ar_Expected :: "int option"
  ar_Claimed :: "int option"

definition zeroAcceptance :: AcceptanceOutcome where
  "zeroAcceptance = \<lparr>ao_Status = [], ao_PayloadHash = None, ao_SettlementStatus = None\<rparr>"

definition acceptanceDecoder :: "AcceptanceOutcome decoder" where
  "acceptanceDecoder = uStruct [(''status'', uString ao_Status_update), (''payload_hash'', uPtr ao_PayloadHash ao_PayloadHash_update [] scalarString),
     (''settlement_status'', uPtr ao_SettlementStatus ao_SettlementStatus_update [] scalarString)]"

definition asyncReply :: "async_reply decoder" where
  "asyncReply = uStruct
     [(''data'', uStruct [(''acceptance'', uNested ar_Acceptance ar_Acceptance_update acceptanceDecoder),
        (''trusted_router_settlement'', uPtr ar_Pending ar_Pending_update zeroPending PendingSettlement_UnmarshalJSON), (''reason'', uString ar_Reason_update)]),
      (''error'', uStruct [(''expected_cost_microdollars'', uPtr ar_Expected ar_Expected_update 0 scalarInt),
        (''claimed_cost_microdollars'', uPtr ar_Claimed ar_Claimed_update 0 scalarInt)])]"

record final_wire =
  fw_V :: int
  fw_ID :: string
  fw_Status :: string
  fw_Cost :: "int option"
  fw_URL :: string

record final_data =
  fd_Acceptance :: "json option"
  fd_Final :: "final_wire option"

definition finalDecoder :: "final_data decoder" where
  "finalDecoder = uStruct [(''data'', uStruct
     [(''acceptance'', uRaw fd_Acceptance_update),
      (''trusted_router_settlement'', uPtr fd_Final fd_Final_update \<lparr>fw_V = 0, fw_ID = [], fw_Status = [], fw_Cost = None, fw_URL = []\<rparr>
         (uStruct [(''v'', uInt fw_V_update), (''settlement_id'', uString fw_ID_update), (''settlement_status'', uString fw_Status_update),
            (''cost_microdollars'', uPtr fw_Cost fw_Cost_update 0 scalarInt), (''status_url'', uString fw_URL_update)]))])]"


record async_env =
  ae_net :: net_env
  ae_billing :: billing_env
  ae_ParseFloat :: "string \<Rightarrow> gofloat option"

definition invalidFinalization :: "final_wire \<Rightarrow> AcceptanceOutcome \<Rightarrow> string \<Rightarrow> Authorization \<Rightarrow> bool" where
  "invalidFinalization f a hash auth \<longleftrightarrow> fw_V f \<noteq> 1 \<or> fw_ID f \<noteq> au_AuthorizationID auth @ ''.settle'' \<or> fw_URL f \<noteq> au_SettlementStatusURL auth
     \<or> fw_Cost f = None \<or> (fw_Status f \<noteq> ''settled'' \<and> fw_Status f \<noteq> ''refunded'') \<or> ao_Status a \<noteq> ''duplicate''
     \<or> ao_PayloadHash a \<noteq> Some hash \<or> ao_SettlementStatus a \<noteq> Some (fw_Status f)"

definition decodeFinalSettlement :: "async_env \<Rightarrow> string \<Rightarrow> string \<Rightarrow> Authorization \<Rightarrow> go_error + SettleResult" where
  "decodeFinalSettlement env data hash auth =
     (case Option.bind (ne_json (ae_net env) data) (uStruct [(''data'', SettleResult_UnmarshalJSON (ae_ParseFloat env))] zeroResult) of
        None \<Rightarrow> Inl (errorf ''snapshot sync invalid result'')
      | Some standard \<Rightarrow>
        (case Option.bind (ne_json (ae_net env) data) (finalDecoder \<lparr>fd_Acceptance = None, fd_Final = None\<rparr>) of
           None \<Rightarrow> Inl (errorf ''snapshot sync invalid result'')
         | Some final \<Rightarrow>
           if fd_Acceptance final \<noteq> None \<and> fd_Final final = None then Inl (errorf ''snapshot sync missing finalization'')
           else
             bindE (case fd_Final final of
                 None \<Rightarrow> Inr standard
               | Some f \<Rightarrow>
                 (case Option.bind (fd_Acceptance final) (acceptanceDecoder zeroAcceptance) of
                    None \<Rightarrow> Inl (errorf ''snapshot sync invalid acceptance'')
                  | Some a \<Rightarrow>
                    if invalidFinalization f a hash auth then Inl (errorf ''snapshot sync invalid finalization'')
                    else Inr (zeroResult\<lparr>sr_Settled := fw_Status f = ''settled'', sr_AlreadySettled := True, sr_FinalizationOutcome := fw_Status f,
                           sr_CostMicrodollars := the (fw_Cost f), sr_CostMicrodollarsKnown := True\<rparr>)))
               (\<lambda>result. if (\<not> sr_Settled result \<and> \<not> sr_AlreadySettled result) \<or> \<not> HasCost result
                         then Inl (errorf ''snapshot sync incomplete result'') else Inr result)))"

text \<open>The reply of the asynchronous attempt: a result, whether to try again, and a reason.\<close>

definition acceptedPending :: "int \<Rightarrow> AcceptanceOutcome \<Rightarrow> PendingSettlement option \<Rightarrow> string \<Rightarrow> Authorization \<Rightarrow> bool" where
  "acceptedPending status a p hash auth \<longleftrightarrow> status = 202 \<and> ao_Status a \<in> {''accepted'', ''duplicate''} \<and> ao_PayloadHash a = Some hash
     \<and> ao_SettlementStatus a = Some ''pending''
     \<and> (case p of None \<Rightarrow> False | Some p \<Rightarrow> ps_wireComplete p \<and> ps_V p = 1 \<and> ps_SettlementStatus p = ''pending''
          \<and> ps_SettlementID p = au_AuthorizationID auth @ ''.settle'' \<and> ps_StatusURL p = au_SettlementStatusURL auth \<and> ps_PollAfterMS p \<ge> 0)"

definition asyncVerdict :: "async_env \<Rightarrow> string \<Rightarrow> int \<Rightarrow> Authorization \<Rightarrow> http_response \<Rightarrow> SettleResult option \<times> bool \<times> string" where
  "asyncVerdict env hash charge auth resp =
     (case readLimited 65537 resp of
        Inl _ \<Rightarrow> (None, True, ''unknown'')
      | Inr data \<Rightarrow>
        if length data > 65536 then (None, True, ''unknown'')
        else (case Option.bind (ne_json (ae_net env) data)
                (asyncReply \<lparr>ar_Acceptance = zeroAcceptance, ar_Pending = None, ar_Reason = [], ar_Expected = None, ar_Claimed = None\<rparr>) of
          None \<Rightarrow> (None, True, ''unknown'')
        | Some reply \<Rightarrow>
          (let a = ar_Acceptance reply; p = ar_Pending reply in
           if hr_StatusCode resp = 409
           then (if ar_Expected reply \<noteq> None \<and> ar_Claimed reply \<noteq> None then (None, False, ''amount_mismatch'') else (None, False, ''conflict''))
           else if hr_StatusCode resp = 200 \<and> ao_Status a = ''duplicate''
           then (case decodeFinalSettlement env data hash auth of Inr r \<Rightarrow> (Some r, False, []) | Inl _ \<Rightarrow> (None, True, ''unknown''))
           else if hr_StatusCode resp = 200 \<and> ao_Status a = ''sync_required'' then (None, False, ''sync_required'')
           else if acceptedPending (hr_StatusCode resp) a p hash auth
           then (if ps_CostMicrodollars (the p) \<noteq> charge then (None, False, ''amount_mismatch'')
                 else (Some (zeroResult\<lparr>sr_TrustedRouterSettlement := p, sr_CostMicrodollars := ps_CostMicrodollars (the p),
                         sr_CostMicrodollarsKnown := True\<rparr>), False, []))
           else (None, True, ''unknown''))))"

definition asyncSettlementAttempt :: "async_env \<Rightarrow> Client \<Rightarrow> call_context \<Rightarrow> int \<Rightarrow> string \<Rightarrow> string \<Rightarrow> int \<Rightarrow> Authorization \<Rightarrow> net_state
    \<Rightarrow> (SettleResult option \<times> bool \<times> string) \<times> net_state" where
  "asyncSettlementAttempt env c cx endpoint raw hash charge auth w =
     (case postToControlPlaneWithBootAuth (ae_net env) c cx settlePath raw endpoint [] w of
        (Inl _, _, w') \<Rightarrow> ((None, True, ''network''), w')
      | (Inr resp, _, w') \<Rightarrow> (asyncVerdict env hash charge auth resp, w'))"

text \<open>The recovery: a result or error, and whether the failure is hard.\<close>

definition syncVerdict :: "async_env \<Rightarrow> string \<Rightarrow> Authorization \<Rightarrow> http_response \<Rightarrow> (go_error + SettleResult) \<times> bool" where
  "syncVerdict env hash auth resp =
     (if hr_StatusCode resp \<ge> 500 then (Inl (errorf ''server_error''), True)
      else case readLimited 65537 resp of
          Inl _ \<Rightarrow> (Inl (errorf ''network''), True)
        | Inr data \<Rightarrow>
          if hr_StatusCode resp \<noteq> 200 \<or> length data > 65536 then (Inl (errorf ''snapshot sync rejected''), False)
          else (decodeFinalSettlement env data hash auth, False))"

definition snapshotSyncAttempt :: "async_env \<Rightarrow> Client \<Rightarrow> call_context \<Rightarrow> int \<Rightarrow> string \<Rightarrow> string \<Rightarrow> Authorization \<Rightarrow> net_state
    \<Rightarrow> ((go_error + SettleResult) \<times> bool) \<times> net_state" where
  "snapshotSyncAttempt env c cx endpoint raw hash auth w =
     (case postToControlPlaneWithBootAuth (ae_net env) c cx settlePath raw endpoint [] w of
        (Inl _, _, w') \<Rightarrow> ((Inl (errorf ''network''), ctxErr (ae_net env) w' = None), w')
      | (Inr resp, _, w') \<Rightarrow> (syncVerdict env hash auth resp, w'))"

definition asyncPolicy :: retryPolicy where
  "asyncPolicy = normalizeRetryPolicy \<lparr>rp_attempts = 3, rp_baseDelay = 250000000, rp_maxDelay = 1000000000, rp_totalBudget = 0, rp_retryable = None\<rparr>"

fun asyncLoop :: "async_env \<Rightarrow> Client \<Rightarrow> call_context \<Rightarrow> int \<Rightarrow> string \<Rightarrow> string \<Rightarrow> int \<Rightarrow> Authorization \<Rightarrow> nat \<Rightarrow> int \<Rightarrow> string \<Rightarrow> net_state
    \<Rightarrow> SettleResult option \<times> string \<times> net_state" where
  "asyncLoop env c cx endpoint raw hash charge auth 0 attempt reason w = (None, reason, w)"
| "asyncLoop env c cx endpoint raw hash charge auth (Suc n) attempt reason w =
     (case asyncSettlementAttempt env c cx endpoint raw hash charge auth w of ((result, retry, why), w1) \<Rightarrow>
      case result of
        Some r \<Rightarrow> (Some r, why, w1)
      | None \<Rightarrow>
        if \<not> retry \<or> attempt = rp_attempts asyncPolicy \<or> ctxErr (ae_net env) w1 \<noteq> None then (None, why, w1)
        else (case authorizationRetryDelay (ae_net env) attempt asyncPolicy 0 w1 of (delay, w2) \<Rightarrow>
          case sleepContext (ae_net env) delay w2 of
            (Some _, w3) \<Rightarrow> (None, why, w3)
          | (None, w3) \<Rightarrow> asyncLoop env c cx endpoint raw hash charge auth n (attempt + 1) why w3))"

fun syncLoop :: "async_env \<Rightarrow> Client \<Rightarrow> call_context \<Rightarrow> int \<Rightarrow> string \<Rightarrow> string \<Rightarrow> Authorization \<Rightarrow> nat \<Rightarrow> int \<Rightarrow> net_state
    \<Rightarrow> ((go_error + SettleResult) \<times> bool) \<times> net_state" where
  "syncLoop env c cx endpoint raw hash auth 0 attempt w = ((Inl (errorf ''snapshot sync retry exhausted''), False), w)"
| "syncLoop env c cx endpoint raw hash auth (Suc n) attempt w =
     (case ctxErr (ae_net env) w of
        Some e \<Rightarrow> ((Inl e, False), w)
      | None \<Rightarrow>
        (case snapshotSyncAttempt env c cx endpoint raw hash auth w of ((res, hard), w1) \<Rightarrow>
         if \<not> hard \<or> attempt = rp_attempts asyncPolicy then ((res, hard), w1)
         else (case authorizationRetryDelay (ae_net env) attempt asyncPolicy 0 w1 of (delay, w2) \<Rightarrow>
           case sleepContext (ae_net env) delay w2 of
             (Some e, w3) \<Rightarrow> ((Inl e, False), w3)
           | (None, w3) \<Rightarrow> syncLoop env c cx endpoint raw hash auth n (attempt + 1) w3)))"

definition snapshotSyncSettlement :: "async_env \<Rightarrow> Client \<Rightarrow> call_context \<Rightarrow> int \<Rightarrow> string \<Rightarrow> string \<Rightarrow> Authorization \<Rightarrow> net_state
    \<Rightarrow> ((go_error + SettleResult) \<times> bool) \<times> net_state" where
  "snapshotSyncSettlement env c cx endpoint raw hash auth w =
     syncLoop env c (cx\<lparr>cx_asyncMode := ''sync''\<rparr>) endpoint raw hash auth (nat (rp_attempts asyncPolicy)) 1 w"


section \<open>The state of an authorization\<close>

record asyncAuthorization =
  aa_attempted :: bool
  aa_accepted :: "SettleResult option"
  aa_frozen :: string
  aa_hash :: string
  aa_charge :: int
  aa_legacy :: bool
  aa_ineligible :: bool
  aa_snapshot :: Snapshot
  aa_raw :: string
  aa_ticket :: string
  aa_terminal :: TerminalEnvelope
  aa_expires :: int
  aa_requested :: Eligibility

record asyncSettlementRequest =
  as_Snapshot :: string
  as_Ticket :: string
  as_Raw :: RawUsage
  as_Observed :: Eligibility
  as_Terminal :: TerminalEnvelope

record AsyncClient = Client +
  ac_asyncNegotiate :: bool

definition asyncCohort :: "string \<Rightarrow> bool" where
  "asyncCohort route \<longleftrightarrow> route = ''chat.completions'' \<or> route = ''responses''"

definition AsyncSettlementNegotiated :: "AsyncClient \<Rightarrow> asyncAuthorization option \<Rightarrow> bool" where
  "AsyncSettlementNegotiated c a \<longleftrightarrow> \<not> cl_asyncShadow c \<and> ac_asyncNegotiate c \<and> a \<noteq> None"

definition buildAsyncSettlement :: "billing_env \<Rightarrow> asyncAuthorization \<Rightarrow> Usage \<Rightarrow> bill_error + asyncSettlementRequest" where
  "buildAsyncSettlement env a u =
     (if us_UsageEstimated u \<or> us_RouteType u \<noteq> te_RouteType (aa_terminal a) \<or> us_Streamed u \<noteq> te_Streamed (aa_terminal a)
         \<or> us_SelectedEndpoint u = [] \<or> us_FinishReason u = ''heartbeat_lost'' \<or> us_FinishReason u = ''cap_reached''
      then Inl (failure ''incomplete_or_mismatched_usage'')
      else
        (let requested = aa_requested a;
             observed = requested\<lparr>el_RouteType := us_RouteType u, el_Streamed := us_Streamed u,
               el_ToolCost := el_ToolCost requested \<or> us_AdditionalCostMicrodollars u \<noteq> 0,
               el_PrivateTierBasis := us_PriceTierInputTokens u \<noteq> 0\<rparr>;
             observed = (if us_ServiceTier u \<noteq> [] then observed\<lparr>el_ServiceTier := Some (us_ServiceTier u)\<rparr> else observed);
             raw = \<lparr>ru_InputTokens = us_InputTokens u, ru_OutputTokens = us_OutputTokens u, ru_CacheReadTokens = us_CacheReadInputTokens u,
                    ru_CacheCreationTokens = us_CacheCreationInputTokens u, ru_ReasoningTokens = us_ReasoningTokens u\<rparr>
         in bindE (Evaluate env (aa_snapshot a) (us_SelectedEndpoint u) raw observed) (\<lambda>evaluation.
              let terminal = (aa_terminal a)\<lparr>te_SelectedEndpoint := us_SelectedEndpoint u, te_Usage := ev_Usage evaluation, te_ChargeMicro := ev_ChargeMicro evaluation\<rparr>
              in bindE (ValidateEnvelope env (aa_snapshot a) terminal) (\<lambda>_.
                 Inr \<lparr>as_Snapshot = aa_raw a, as_Ticket = aa_ticket a, as_Raw = raw, as_Observed = observed, as_Terminal = terminal\<rparr>))))"

text \<open>What a call of \<open>tryAsyncSettlement\<close> returns: neither means that the legacy path is permitted.\<close>

datatype async_outcome = AsyncResult SettleResult | AsyncError go_error | LegacyPermitted

record async_full_env = async_env +
  ae_MarshalRequest :: "asyncSettlementRequest \<Rightarrow> go_error + string"

text \<open>The first attempt freezes the body.\<close>

datatype freeze_outcome = Frozen | Ineligible | FreezeFailed go_error

definition freezeRequest :: "async_full_env \<Rightarrow> asyncAuthorization \<Rightarrow> Usage \<Rightarrow> asyncAuthorization \<times> freeze_outcome" where
  "freezeRequest env a u =
     (case buildAsyncSettlement (ae_billing env) a u of
        Inl _ \<Rightarrow> (a\<lparr>aa_ineligible := True\<rparr>, Ineligible)
      | Inr body \<Rightarrow>
        (case ae_MarshalRequest env body of
           Inl e \<Rightarrow> (a\<lparr>aa_frozen := []\<rparr>, FreezeFailed e)
         | Inr frozen \<Rightarrow>
           (case CanonicalHash (ae_billing env) (CModel (Envelope_val (as_Terminal body)) Envelope_type) of
              Inl e \<Rightarrow> (a\<lparr>aa_frozen := frozen, aa_hash := []\<rparr>, FreezeFailed (errorf ''canonical hash''))
            | Inr hash \<Rightarrow> (a\<lparr>aa_frozen := frozen, aa_hash := hash, aa_charge := te_ChargeMicro (as_Terminal body), aa_attempted := True\<rparr>, Frozen))))"

definition asyncTicketMargin :: int where
  "asyncTicketMargin = 30 * Second"

definition recoverSettlement :: "async_full_env \<Rightarrow> Client \<Rightarrow> call_context \<Rightarrow> int \<Rightarrow> asyncAuthorization \<Rightarrow> Authorization \<Rightarrow> net_state
    \<Rightarrow> async_outcome \<times> asyncAuthorization \<times> net_state" where
  "recoverSettlement env c cx endpoint a auth w =
     (case snapshotSyncSettlement (async_env.truncate env) c cx endpoint (aa_frozen a) (aa_hash a) auth w of ((res, hard), w') \<Rightarrow>
      if hard then (LegacyPermitted, a\<lparr>aa_legacy := True\<rparr>, w')
      else case res of
          Inr r \<Rightarrow> (AsyncResult r, a\<lparr>aa_accepted := Some r\<rparr>, w')
        | Inl e \<Rightarrow> (AsyncError e, a, w'))"

definition sendFrozen :: "async_full_env \<Rightarrow> Client \<Rightarrow> call_context \<Rightarrow> bool \<Rightarrow> gotime \<Rightarrow> asyncAuthorization \<Rightarrow> Authorization \<Rightarrow> net_state
    \<Rightarrow> async_outcome \<times> asyncAuthorization \<times> net_state" where
  "sendFrozen env c cx first now a auth w =
     (let endpoint = pinnedControlPlaneEndpoint (authority_pin.truncate auth) in
      if endpoint < 0 then (AsyncError (errorf ''async settlement: unpinned authority''), a, w)
      else
        (let cx' = cx\<lparr>cx_asyncMode := ''async-v1''\<rparr> in
         if first \<and> t_Sub (t_Unix (aa_expires a) 0) now \<ge> asyncTicketMargin
         then (case asyncLoop (async_env.truncate env) c cx' endpoint (aa_frozen a) (aa_hash a) (aa_charge a) auth (nat (rp_attempts asyncPolicy)) 1
                      ''ticket_expiry_margin'' w of
                 (Some r, _, w') \<Rightarrow> (AsyncResult r, a\<lparr>aa_accepted := Some r\<rparr>, w')
               | (None, _, w') \<Rightarrow> recoverSettlement env c cx' endpoint a auth w')
         else recoverSettlement env c cx' endpoint a auth w))"

definition tryAsyncSettlement :: "async_full_env \<Rightarrow> AsyncClient \<Rightarrow> call_context \<Rightarrow> asyncAuthorization option \<Rightarrow> Authorization \<Rightarrow> Usage \<Rightarrow> gotime \<Rightarrow> net_state
    \<Rightarrow> async_outcome \<times> asyncAuthorization option \<times> net_state" where
  "tryAsyncSettlement env c cx async auth u now w =
     (if \<not> AsyncSettlementNegotiated c async then (LegacyPermitted, async, w)
      else
        (let a = the async in
         if aa_ineligible a then (LegacyPermitted, Some a, w)
         else case aa_accepted a of
             Some r \<Rightarrow> (AsyncResult r, Some a, w)
           | None \<Rightarrow>
             if aa_legacy a then (LegacyPermitted, Some a, w)
             else if aa_attempted a
             then (case sendFrozen env (Client.truncate c) cx False now a auth w of (r, a', w') \<Rightarrow> (r, Some a', w'))
             else (case freezeRequest env a u of
                 (a1, Ineligible) \<Rightarrow> (LegacyPermitted, Some a1, w)
               | (a1, FreezeFailed e) \<Rightarrow> (AsyncError e, Some a1, w)
               | (a1, Frozen) \<Rightarrow>
                   (case sendFrozen env (Client.truncate c) cx True now a1 auth w of (r, a', w') \<Rightarrow> (r, Some a', w')))))"

text \<open>\<open>Settle\<close> of \<open>client.go\<close>; the legacy settlement goes out without the mode header, under the caller's context.\<close>

definition asyncSettle :: "async_full_env \<Rightarrow> (gofloat \<Rightarrow> string) \<Rightarrow> (http_response \<Rightarrow> go_error + SettleResult) \<Rightarrow> AsyncClient \<Rightarrow> call_context \<Rightarrow> body_context
    \<Rightarrow> asyncAuthorization option \<Rightarrow> Authorization \<Rightarrow> Usage \<Rightarrow> gotime \<Rightarrow> net_state \<Rightarrow> (go_error + SettleResult) \<times> asyncAuthorization option \<times> net_state" where
  "asyncSettle env fl dec c cx bx async auth u now w =
     (case tryAsyncSettlement env c cx async auth u now w of
        (AsyncResult r, async', w') \<Rightarrow> (Inr r, async', w')
      | (AsyncError e, async', w') \<Rightarrow> (Inl e, async', w')
      | (LegacyPermitted, async', w') \<Rightarrow>
          (case legacySettle \<lparr>st_net = ae_net env, st_float = fl, st_decode = dec\<rparr> (Client.truncate c) cx bx auth u w' of (r, w'') \<Rightarrow> (r, async', w'')))"

end
