(* ===== verification/AsyncLaws.thy ===== *)
theory AsyncLaws
  imports AsyncSettle
begin

text \<open>
  What asynchronous settlement promises over any number of calls for one authorization. The abstract machine
  \<open>settle_step\<close> has four phases and knows nothing of the network; every call of the code is one of its
  steps (\<open>tryAsync_refines\<close>), so that an authorization is never both accepted and handed to the legacy path. Everything
  that is sent is the one frozen body, at the one authority that holds the reservation.
\<close>

section \<open>The abstract machine\<close>

datatype phase = Fresh | Submitted | Accepted SettleResult | LegacyPath

inductive settle_step :: "phase \<Rightarrow> async_outcome \<Rightarrow> phase \<Rightarrow> bool" where
  refuse_fresh: "settle_step Fresh (AsyncError e) Fresh"
| send_error: "p \<in> {Fresh, Submitted} \<Longrightarrow> settle_step p (AsyncError e) Submitted"
| send_accept: "p \<in> {Fresh, Submitted} \<Longrightarrow> settle_step p (AsyncResult r) (Accepted r)"
| give_up: "p \<in> {Fresh, Submitted} \<Longrightarrow> settle_step p LegacyPermitted LegacyPath"
| stay_accepted: "settle_step (Accepted r) (AsyncResult r) (Accepted r)"
| stay_legacy: "settle_step LegacyPath LegacyPermitted LegacyPath"

inductive settle_trace :: "phase \<Rightarrow> async_outcome list \<Rightarrow> phase \<Rightarrow> bool" where
  trace_nil: "settle_trace p [] p"
| trace_cons: "settle_step p out q \<Longrightarrow> settle_trace q outs r \<Longrightarrow> settle_trace p (out # outs) r"

inductive_cases from_accepted: "settle_step (Accepted r) out q"
inductive_cases from_legacy: "settle_step LegacyPath out q"
inductive_cases to_result: "settle_step p (AsyncResult r) q"
inductive_cases to_legacy: "settle_step p LegacyPermitted q"
inductive_cases trace_consE: "settle_trace p (out # outs) q"

lemma trace_accepted: "settle_trace p outs q \<Longrightarrow> p = Accepted r \<Longrightarrow> set outs \<subseteq> {AsyncResult r} \<and> q = Accepted r"
  by (induction rule: settle_trace.induct) (auto elim: from_accepted)

lemma trace_legacy: "settle_trace p outs q \<Longrightarrow> p = LegacyPath \<Longrightarrow> set outs \<subseteq> {LegacyPermitted} \<and> q = LegacyPath"
  by (induction rule: settle_trace.induct) (auto elim: from_legacy)

lemma trace_exclusive:
  "settle_trace p outs q \<Longrightarrow> AsyncResult r \<in> set outs \<Longrightarrow> LegacyPermitted \<notin> set outs \<and> q = Accepted r"
proof (induction rule: settle_trace.induct)
  case (trace_nil p)
  then show ?case by simp
next
  case (trace_cons p out q outs r')
  show ?case
  proof (cases "out = AsyncResult r")
    case True
    then have "q = Accepted r" using trace_cons(1) by (auto elim: to_result)
    then show ?thesis using trace_accepted [OF trace_cons(2)] True by auto
  next
    case False
    then have r: "AsyncResult r \<in> set outs" using trace_cons.prems by simp
    have "out \<noteq> LegacyPermitted"
    proof
      assume "out = LegacyPermitted"
      then have "q = LegacyPath" using trace_cons(1) by (auto elim: to_legacy)
      then show False using trace_legacy [OF trace_cons(2)] r by auto
    qed
    then show ?thesis using trace_cons(3) [OF r] by auto
  qed
qed

section \<open>Refinement\<close>

definition phaseOf :: "asyncAuthorization \<Rightarrow> phase" where
  "phaseOf a = (if aa_ineligible a then LegacyPath
     else case aa_accepted a of
       Some r \<Rightarrow> Accepted r
     | None \<Rightarrow> if aa_legacy a then LegacyPath else if aa_attempted a then Submitted else Fresh)"

lemma recover_phase:
  assumes "recoverSettlement env c cx endpoint a auth w = (out, a', w')"
    "\<not> aa_ineligible a" "aa_accepted a = None" "\<not> aa_legacy a" "aa_attempted a" "p \<in> {Fresh, Submitted}"
  shows "settle_step p out (phaseOf a')"
    "aa_frozen a' = aa_frozen a \<and> aa_hash a' = aa_hash a \<and> aa_charge a' = aa_charge a \<and> aa_attempted a'"
  using assms by (auto simp: recoverSettlement_def phaseOf_def settle_step.simps split: prod.splits if_splits sum.splits)

lemma send_phase:
  assumes "sendFrozen env c cx first now a auth w = (out, a', w')"
    "\<not> aa_ineligible a" "aa_accepted a = None" "\<not> aa_legacy a" "aa_attempted a" "p \<in> {Fresh, Submitted}"
  shows "settle_step p out (phaseOf a')"
    "aa_frozen a' = aa_frozen a \<and> aa_hash a' = aa_hash a \<and> aa_charge a' = aa_charge a \<and> aa_attempted a'"
proof -
  consider (unpinned) "out = AsyncError (errorf ''async settlement: unpinned authority'')" "a' = a"
    | (result) r where "out = AsyncResult r" "a' = a\<lparr>aa_accepted := Some r\<rparr>"
    | (recover) cx' e w1 where "recoverSettlement env c cx' e a auth w1 = (out, a', w')"
    using assms(1) by (auto simp: sendFrozen_def Let_def split: if_splits prod.splits option.splits)
  then show "settle_step p out (phaseOf a')"
    "aa_frozen a' = aa_frozen a \<and> aa_hash a' = aa_hash a \<and> aa_charge a' = aa_charge a \<and> aa_attempted a'"
    by (cases; use assms recover_phase [OF _ assms(2-6)] in \<open>auto simp: phaseOf_def settle_step.simps\<close>)+
qed

text \<open>What negotiation fixed.\<close>

definition terms_of :: "asyncAuthorization \<Rightarrow> Snapshot \<times> string \<times> string \<times> TerminalEnvelope \<times> Eligibility" where
  "terms_of a = (aa_snapshot a, aa_raw a, aa_ticket a, aa_terminal a, aa_requested a)"

text \<open>A freeze leaves everything but the frozen fields alone.\<close>

lemma freeze_cases:
  assumes "freezeRequest env a u = (a1, f)"
  obtains "f = Ineligible" "a1 = a\<lparr>aa_ineligible := True\<rparr>"
  | e where "f = FreezeFailed e" "aa_ineligible a1 = aa_ineligible a" "aa_accepted a1 = aa_accepted a" "aa_legacy a1 = aa_legacy a" "aa_attempted a1 = aa_attempted a"
    "terms_of a1 = terms_of a"
  | body raw hash where "f = Frozen" "buildAsyncSettlement (ae_billing env) a u = Inr body" "ae_MarshalRequest env body = Inr raw"
    "a1 = a\<lparr>aa_frozen := raw, aa_hash := hash, aa_charge := te_ChargeMicro (as_Terminal body), aa_attempted := True\<rparr>"
  using assms by (auto simp: freezeRequest_def terms_of_def split: sum.splits)

text \<open>The cases of a call.\<close>

lemma tryAsync_cases:
  assumes "tryAsyncSettlement env c cx (Some a) auth u now w = (out, async', w')" "AsyncSettlementNegotiated c (Some a)"
  obtains (accepted) r where "phaseOf a = Accepted r" "out = AsyncResult r" "async' = Some a" "w' = w"
  | (legacy) "phaseOf a = LegacyPath" "out = LegacyPermitted" "async' = Some a" "w' = w"
  | (again) a' where "phaseOf a = Submitted" "sendFrozen env (Client.truncate c) cx False now a auth w = (out, a', w')" "async' = Some a'"
  | (frozen) a1 a' where "phaseOf a = Fresh" "freezeRequest env a u = (a1, Frozen)"
      "sendFrozen env (Client.truncate c) cx True now a1 auth w = (out, a', w')" "async' = Some a'"
  | (ineligible) "phaseOf a = Fresh" "out = LegacyPermitted" "async' = Some (a\<lparr>aa_ineligible := True\<rparr>)" "w' = w"
  | (failed) e a1 where "phaseOf a = Fresh" "out = AsyncError e" "async' = Some a1" "phaseOf a1 = Fresh" "terms_of a1 = terms_of a" "w' = w"
proof -
  consider "aa_ineligible a" | "\<not> aa_ineligible a" "aa_accepted a \<noteq> None" | "\<not> aa_ineligible a" "aa_accepted a = None" "aa_legacy a"
    | "\<not> aa_ineligible a" "aa_accepted a = None" "\<not> aa_legacy a" "aa_attempted a"
    | "\<not> aa_ineligible a" "aa_accepted a = None" "\<not> aa_legacy a" "\<not> aa_attempted a" by blast
  then show thesis
  proof cases
    case 5
    obtain a1 f where f: "freezeRequest env a u = (a1, f)" by fastforce
    then show thesis
    proof (cases rule: freeze_cases)
      case 1
      then show thesis using 5 f assms ineligible by (simp add: tryAsyncSettlement_def phaseOf_def)
    next
      case (2 e)
      then have "out = AsyncError e" "async' = Some a1" "w' = w" using 5 f assms by (auto simp: tryAsyncSettlement_def)
      moreover have "phaseOf a = Fresh" "phaseOf a1 = Fresh" using 5 2 by (simp_all add: phaseOf_def)
      ultimately show thesis using failed 2 by blast
    next
      case (3 body raw hash)
      obtain a' where "sendFrozen env (Client.truncate c) cx True now a1 auth w = (out, a', w')" "async' = Some a'"
        using 5 f 3(1) assms by (auto simp: tryAsyncSettlement_def split: prod.splits)
      then show thesis using 5 f 3(1) frozen by (simp add: phaseOf_def)
    qed
  next
    case 4
    obtain a' where "sendFrozen env (Client.truncate c) cx False now a auth w = (out, a', w')" "async' = Some a'"
      using 4 assms by (auto simp: tryAsyncSettlement_def split: prod.splits)
    then show thesis using 4 again by (simp add: phaseOf_def)
  qed (use assms that in \<open>auto simp: tryAsyncSettlement_def phaseOf_def\<close>)
qed

lemma phaseOf_Fresh: "phaseOf a = Fresh \<longleftrightarrow> \<not> aa_ineligible a \<and> aa_accepted a = None \<and> \<not> aa_legacy a \<and> \<not> aa_attempted a"
  by (auto simp: phaseOf_def split: option.splits)

lemma phaseOf_Submitted: "phaseOf a = Submitted \<longleftrightarrow> \<not> aa_ineligible a \<and> aa_accepted a = None \<and> \<not> aa_legacy a \<and> aa_attempted a"
  by (auto simp: phaseOf_def split: option.splits)

lemma frozen_pending: "freezeRequest env a u = (a1, Frozen) \<Longrightarrow> phaseOf a = Fresh \<Longrightarrow> phaseOf a1 = Submitted"
  by (erule freeze_cases) (auto simp: phaseOf_Fresh phaseOf_Submitted)

lemma tryAsync_step:
  assumes "tryAsyncSettlement env c cx (Some a) auth u now w = (out, async', w')" "AsyncSettlementNegotiated c (Some a)"
  obtains a' where "async' = Some a'" "settle_step (phaseOf a) out (phaseOf a')"
  using assms
proof (cases rule: tryAsync_cases)
  case (frozen a1 a')
  have "phaseOf a1 = Submitted" using frozen_pending [OF frozen(2, 1)] .
  then show ?thesis using that [OF frozen(4)] send_phase(1) [OF frozen(3), of Fresh] frozen(1) by (auto simp: phaseOf_Submitted)
next
  case (again a')
  have "settle_step Submitted out (phaseOf a')"
    using again(1) send_phase(1) [OF again(2), of Submitted] by (simp add: phaseOf_Submitted)
  then show ?thesis using that [OF again(3)] again(1) by simp
next
  case ineligible
  then show ?thesis using that by (simp add: phaseOf_def settle_step.simps)
next
  case (failed e a1)
  then show ?thesis using that by (simp add: settle_step.simps)
qed (use that in \<open>auto simp: settle_step.simps\<close>)


section \<open>What is sent\<close>

lemma postTo_pinned_log:
  assumes "postToControlPlaneWithBootAuth env c cx path body pinned boot w = (r, sel, w')" "0 \<le> pinned"
  shows "\<exists>es. ns_sent w' = ns_sent w @ es \<and> length es \<le> 1 \<and> (\<forall>x \<in> set es. fst x = requestTo c cx path body boot (cl_baseURLs c ! nat pinned))"
proof -
  obtain sel' res w'' where p: "postJSONBytesWithBootAuthAtEndpoint env c cx path body (\<lambda>_. Inr ()) pinned boot w = (sel', res, w'')"
    by (metis prod_cases3)
  then have "w'' = w'"
    using assms(1) by (auto simp: postJSONBytesWithBootAuthAtEndpoint_def split: sum.splits if_splits)
  with post_log [OF p] assms(2) show ?thesis by blast
qed

text \<open>Requests for one body at one authority.\<close>

definition addressed :: "Client \<Rightarrow> Authorization \<Rightarrow> string \<Rightarrow> (http_request \<times> (go_error + http_response)) list \<Rightarrow> bool" where
  "addressed c auth body es \<longleftrightarrow> (\<forall>x \<in> set es. hq_Body (fst x) = body
     \<and> hq_URL (fst x) = cl_baseURLs c ! nat (pinnedControlPlaneEndpoint (authority_pin.truncate auth)) @ settlePath)"

lemma addressed_append [simp]: "addressed c auth body (es @ fs) \<longleftrightarrow> addressed c auth body es \<and> addressed c auth body fs"
  by (auto simp: addressed_def)

lemma addressed_Nil [simp]: "addressed c auth body []"
  by (simp add: addressed_def)

lemma attempt_addressed:
  assumes "postToControlPlaneWithBootAuth env c cx settlePath raw endpoint [] w = (r, sel, w')"
    "endpoint = pinnedControlPlaneEndpoint (authority_pin.truncate auth)" "0 \<le> endpoint"
  shows "\<exists>es. ns_sent w' = ns_sent w @ es \<and> length es \<le> 1 \<and> addressed c auth raw es"
  using postTo_pinned_log [OF assms(1, 3)] assms(2) by (fastforce simp: addressed_def requestTo_def)

lemma asyncLoop_log:
  assumes "asyncLoop env c cx endpoint raw hash charge auth n attempt reason w = (res, why, w')"
    "endpoint = pinnedControlPlaneEndpoint (authority_pin.truncate auth)" "0 \<le> endpoint"
  shows "\<exists>es. ns_sent w' = ns_sent w @ es \<and> length es \<le> n \<and> addressed c auth raw es"
  using assms(1)
proof (induction n arbitrary: attempt reason w)
  case 0
  then show ?case by auto
next
  case (Suc n)
  obtain r0 sel w1 where p: "postToControlPlaneWithBootAuth (ae_net env) c cx settlePath raw endpoint [] w = (r0, sel, w1)"
    by (metis prod_cases3)
  obtain res1 retry why1 where a: "asyncSettlementAttempt env c cx endpoint raw hash charge auth w = ((res1, retry, why1), w1)"
    using p by (cases r0) (auto simp: asyncSettlementAttempt_def intro: prod_cases3)
  from attempt_addressed [OF p assms(2, 3)] obtain es where es: "ns_sent w1 = ns_sent w @ es" "length es \<le> 1" "addressed c auth raw es" by blast
  obtain d w2 where d: "authorizationRetryDelay (ae_net env) attempt asyncPolicy 0 w1 = (d, w2)" by fastforce
  obtain z w3 where z: "sleepContext (ae_net env) d w2 = (z, w3)" by fastforce
  have s: "ns_sent w3 = ns_sent w1" using authorizationRetryDelay_sent [OF d] sleepContext_sent [OF z] by simp
  consider (stop) "ns_sent w' = ns_sent w1" | (go) "asyncLoop env c cx endpoint raw hash charge auth n (attempt + 1) why1 w3 = (res, why, w')"
    using Suc.prems a d z s by (auto split: option.splits if_splits)
  then show ?case
  proof cases
    case stop
    then show ?thesis using es by (intro exI [of _ es]) auto
  next
    case go
    from Suc.IH [OF go] obtain fs where "ns_sent w' = ns_sent w3 @ fs" "length fs \<le> n" "addressed c auth raw fs" by blast
    then show ?thesis using es s by (intro exI [of _ "es @ fs"]) auto
  qed
qed

lemma syncLoop_log:
  assumes "syncLoop env c cx endpoint raw hash auth n attempt w = (res, w')"
    "endpoint = pinnedControlPlaneEndpoint (authority_pin.truncate auth)" "0 \<le> endpoint"
  shows "\<exists>es. ns_sent w' = ns_sent w @ es \<and> length es \<le> n \<and> addressed c auth raw es"
  using assms(1)
proof (induction n arbitrary: attempt w)
  case 0
  then show ?case by auto
next
  case (Suc n)
  obtain r0 sel w1 where p: "postToControlPlaneWithBootAuth (ae_net env) c cx settlePath raw endpoint [] w = (r0, sel, w1)"
    by (metis prod_cases3)
  obtain v hard where a: "snapshotSyncAttempt env c cx endpoint raw hash auth w = ((v, hard), w1)"
    using p by (cases r0) (auto simp: snapshotSyncAttempt_def intro: prod.exhaust)
  from attempt_addressed [OF p assms(2, 3)] obtain es where es: "ns_sent w1 = ns_sent w @ es" "length es \<le> 1" "addressed c auth raw es" by blast
  obtain d w2 where d: "authorizationRetryDelay (ae_net env) attempt asyncPolicy 0 w1 = (d, w2)" by fastforce
  obtain z w3 where z: "sleepContext (ae_net env) d w2 = (z, w3)" by fastforce
  have s: "ns_sent w3 = ns_sent w1" using authorizationRetryDelay_sent [OF d] sleepContext_sent [OF z] by simp
  consider (early) "w' = w" | (stop) "ns_sent w' = ns_sent w1" | (go) "syncLoop env c cx endpoint raw hash auth n (attempt + 1) w3 = (res, w')"
    using Suc.prems a d z s by (auto split: option.splits if_splits)
  then show ?case
  proof cases
    case early
    then show ?thesis by auto
  next
    case stop
    then show ?thesis using es by (intro exI [of _ es]) auto
  next
    case go
    from Suc.IH [OF go] obtain fs where "ns_sent w' = ns_sent w3 @ fs" "length fs \<le> n" "addressed c auth raw fs" by blast
    then show ?thesis using es s by (intro exI [of _ "es @ fs"]) auto
  qed
qed


lemma send_log:
  assumes "sendFrozen env c cx first now a auth w = (out, a', w')"
  shows "\<exists>es. ns_sent w' = ns_sent w @ es \<and> length es \<le> 6 \<and> addressed c auth (aa_frozen a) es"
proof -
  let ?e = "pinnedControlPlaneEndpoint (authority_pin.truncate auth)" and ?env = "async_env.truncate env"
  have three: "nat (rp_attempts asyncPolicy) = 3" by (simp add: asyncPolicy_def)
  show ?thesis
  proof (cases "?e < 0")
    case True
    then show ?thesis using assms by (auto simp: sendFrozen_def Let_def)
  next
    case False
    have rec: "\<exists>es. ns_sent w' = ns_sent w1 @ es \<and> length es \<le> 3 \<and> addressed c auth (aa_frozen a) es"
      if r: "recoverSettlement env c cx' ?e a auth w1 = (out, a', w')" for cx' w1
    proof -
      obtain v hard w2 where s: "snapshotSyncSettlement ?env c cx' ?e (aa_frozen a) (aa_hash a) auth w1 = ((v, hard), w2)"
        by (metis prod.exhaust)
      then have "w' = w2" using r by (auto simp: recoverSettlement_def split: if_splits sum.splits)
      then show ?thesis using syncLoop_log [OF s [unfolded snapshotSyncSettlement_def three] refl] False by auto
    qed
    let ?cx = "cx\<lparr>cx_asyncMode := ''async-v1''\<rparr>"
    obtain res why w1 where l: "asyncLoop ?env c ?cx ?e (aa_frozen a) (aa_hash a) (aa_charge a) auth (nat (rp_attempts asyncPolicy)) 1 ''ticket_expiry_margin'' w = (res, why, w1)"
      by (metis prod_cases3)
    from asyncLoop_log [OF l refl] False obtain es where es: "ns_sent w1 = ns_sent w @ es" "length es \<le> 3" "addressed c auth (aa_frozen a) es"
      using three by auto
    consider (direct) "recoverSettlement env c ?cx ?e a auth w = (out, a', w')" | (settled) "w' = w1" | (then_rec) "recoverSettlement env c ?cx ?e a auth w1 = (out, a', w')"
      using assms False l by (auto simp: sendFrozen_def Let_def split: if_splits option.splits)
    then show ?thesis
    proof cases
      case direct
      then show ?thesis using rec by fastforce
    next
      case settled
      then show ?thesis using es by auto
    next
      case then_rec
      from rec [OF this] obtain fs where "ns_sent w' = ns_sent w1 @ fs" "length fs \<le> 3" "addressed c auth (aa_frozen a) fs" by blast
      then show ?thesis using es by (intro exI [of _ "es @ fs"]) auto
    qed
  qed
qed

section \<open>What is accepted\<close>

text \<open>A result that may be reported: its amount is known; a pending one names this authorization and
  the locally computed charge, and a final one says so.\<close>

definition faithfulResult :: "int \<Rightarrow> Authorization \<Rightarrow> SettleResult \<Rightarrow> bool" where
  "faithfulResult charge auth r \<longleftrightarrow> HasCost r \<and> (case sr_TrustedRouterSettlement r of
     None \<Rightarrow> sr_Settled r \<or> sr_AlreadySettled r
   | Some p \<Rightarrow> sr_CostMicrodollars r = charge \<and> ps_CostMicrodollars p = charge \<and> ps_SettlementID p = au_AuthorizationID auth @ ''.settle''
       \<and> ps_StatusURL p = au_SettlementStatusURL auth \<and> ps_SettlementStatus p = ''pending'')"

lemma uString_keeps: "uString (inPlain upd) d v = Some d' \<Longrightarrow> (\<And>g x. sr_TrustedRouterSettlement (upd g x) = sr_TrustedRouterSettlement x)
   \<Longrightarrow> sr_TrustedRouterSettlement (rw_plain d') = sr_TrustedRouterSettlement (rw_plain d)"
  by (cases v) (auto simp: uString_def)

lemma uInt_keeps: "uInt (inPlain upd) d v = Some d' \<Longrightarrow> (\<And>g x. sr_TrustedRouterSettlement (upd g x) = sr_TrustedRouterSettlement x)
   \<Longrightarrow> sr_TrustedRouterSettlement (rw_plain d') = sr_TrustedRouterSettlement (rw_plain d)"
  by (cases v) (auto simp: uInt_def)

lemma uBool_keeps: "uBool (inPlain upd) d v = Some d' \<Longrightarrow> (\<And>g x. sr_TrustedRouterSettlement (upd g x) = sr_TrustedRouterSettlement x)
   \<Longrightarrow> sr_TrustedRouterSettlement (rw_plain d') = sr_TrustedRouterSettlement (rw_plain d)"
  by (cases v) (auto simp: uBool_def)

lemma uFloat_keeps: "uFloat pf (inPlain upd) d v = Some d' \<Longrightarrow> (\<And>g x. sr_TrustedRouterSettlement (upd g x) = sr_TrustedRouterSettlement x)
   \<Longrightarrow> sr_TrustedRouterSettlement (rw_plain d') = sr_TrustedRouterSettlement (rw_plain d)"
  by (cases v) (auto simp: uFloat_def)

lemma uCost_keeps: "uPtr rw_Cost rw_Cost_update 0 scalarInt d v = Some d' \<Longrightarrow> rw_plain d' = rw_plain d"
  by (cases v) (auto simp: uPtr_def split: option.splits)

lemma fieldNamed_in:
  assumes "fieldNamed fs k = Some f"
  shows "f \<in> snd ` set fs"
proof (cases "map_of fs k")
  case None
  then obtain e where e: "find (\<lambda>e. foldName (fst e) = foldName k) fs = Some e" "f = snd e" using assms by (auto simp: fieldNamed_def)
  then have "e \<in> set fs" by (auto simp: find_Some_iff)
  then show ?thesis using e by blast
next
  case (Some g)
  then have "(k, f) \<in> set fs" using assms map_of_SomeD [of fs k] by (simp add: fieldNamed_def)
  then show ?thesis by force
qed

lemma resultFields_keep:
  assumes "f \<in> snd ` set (resultFields pf)" "f d v = Some d'"
  shows "sr_TrustedRouterSettlement (rw_plain d') = sr_TrustedRouterSettlement (rw_plain d)"
  using assms unfolding resultFields_def
  by (auto dest!: uString_keeps uInt_keeps uBool_keeps uFloat_keeps uCost_keeps)

lemma uMembers_invariant:
  assumes "uMembers fs s ms = Some s'" "\<And>f d v d'. f \<in> snd ` set fs \<Longrightarrow> f d v = Some d' \<Longrightarrow> g d' = g d"
  shows "g s' = g s"
  using assms(1)
proof (induction ms arbitrary: s)
  case (Cons m ms)
  obtain k v where m: "m = (k, v)" by fastforce
  show ?case
  proof (cases "fieldNamed fs k")
    case None
    then show ?thesis using Cons m by simp
  next
    case (Some f)
    then obtain d where d: "f s v = Some d" "uMembers fs d ms = Some s'" using Cons.prems m by (auto split: option.splits)
    then show ?thesis using Cons.IH [OF d(2)] assms(2) [OF fieldNamed_in [OF Some] d(1)] by simp
  qed
qed simp

text \<open>The wire never sets the pending extension.\<close>

lemma SettleResult_no_pending: "SettleResult_UnmarshalJSON pf old j = Some r \<Longrightarrow> sr_TrustedRouterSettlement r = None"
proof -
  assume a: "SettleResult_UnmarshalJSON pf old j = Some r"
  then obtain d where d: "uStruct (resultFields pf) \<lparr>rw_plain = zeroResult, rw_Cost = None\<rparr> j = Some d"
    and r: "sr_TrustedRouterSettlement r = sr_TrustedRouterSettlement (rw_plain d)"
    by (auto simp: SettleResult_UnmarshalJSON_def split: option.splits)
  have "sr_TrustedRouterSettlement (rw_plain d) = sr_TrustedRouterSettlement (rw_plain \<lparr>rw_plain = zeroResult, rw_Cost = None\<rparr>)"
  proof (cases j)
    case (JObj ms)
    then have "uMembers (resultFields pf) \<lparr>rw_plain = zeroResult, rw_Cost = None\<rparr> ms = Some d" using d by (simp add: uStruct_def)
    from uMembers_invariant [OF this, of "\<lambda>d. sr_TrustedRouterSettlement (rw_plain d)"] show ?thesis using resultFields_keep by blast
  qed (use d in \<open>auto simp: uStruct_def\<close>)
  then show ?thesis using r by (simp add: zeroResult_def)
qed


lemma standard_no_pending:
  assumes "uStruct [(''data'', SettleResult_UnmarshalJSON pf)] zeroResult j = Some r"
  shows "sr_TrustedRouterSettlement r = None"
proof (cases j)
  case (JObj ms)
  then have m: "uMembers [(''data'', SettleResult_UnmarshalJSON pf)] zeroResult ms = Some r" using assms by (simp add: uStruct_def)
  have "uMembers [(''data'', SettleResult_UnmarshalJSON pf)] s ms = Some r \<Longrightarrow> sr_TrustedRouterSettlement s = None \<Longrightarrow> ?thesis" for s
    by (induction ms arbitrary: s) (auto split: option.splits dest!: fieldNamed_in SettleResult_no_pending)
  then show ?thesis using m by (simp add: zeroResult_def)
qed (use assms in \<open>auto simp: uStruct_def zeroResult_def\<close>)

lemma decodeFinal_faithful:
  assumes "decodeFinalSettlement env data hash auth = Inr r"
  shows "faithfulResult charge auth r"
proof -
  obtain standard final where s: "Option.bind (ne_json (ae_net env) data) (uStruct [(''data'', SettleResult_UnmarshalJSON (ae_ParseFloat env))] zeroResult) = Some standard"
    and c: "(sr_Settled r \<or> sr_AlreadySettled r) \<and> HasCost r" and r: "r = standard \<or> sr_TrustedRouterSettlement r = None"
    using assms by (auto simp: decodeFinalSettlement_def bindE_def zeroResult_def split: option.splits if_splits sum.splits)
  then have "sr_TrustedRouterSettlement standard = None" using standard_no_pending by (auto split: option.splits simp: bind_eq_Some_conv)
  then show ?thesis using c r by (auto simp: faithfulResult_def)
qed

lemma asyncVerdict_faithful:
  assumes "asyncVerdict env hash charge auth resp = (Some r, retry, why)"
  shows "faithfulResult charge auth r"
proof -
  consider (final) d where "decodeFinalSettlement env d hash auth = Inr r"
    | (pending) a p where "acceptedPending (hr_StatusCode resp) a p hash auth" "ps_CostMicrodollars (the p) = charge"
        "r = zeroResult\<lparr>sr_TrustedRouterSettlement := p, sr_CostMicrodollars := ps_CostMicrodollars (the p), sr_CostMicrodollarsKnown := True\<rparr>"
    using assms by (auto simp: asyncVerdict_def Let_def split: sum.splits option.splits if_splits)
  then show ?thesis
  proof cases
    case final
    then show ?thesis by (rule decodeFinal_faithful)
  next
    case pending
    then show ?thesis by (auto simp: acceptedPending_def faithfulResult_def HasCost_def split: option.splits)
  qed
qed

lemma asyncLoop_faithful:
  "asyncLoop env c cx endpoint raw hash charge auth n attempt reason w = (Some r, why, w') \<Longrightarrow> faithfulResult charge auth r"
proof (induction n arbitrary: attempt reason w)
  case (Suc n)
  obtain res retry why1 w1 where a: "asyncSettlementAttempt env c cx endpoint raw hash charge auth w = ((res, retry, why1), w1)"
    by (metis prod.exhaust)
  show ?case
  proof (cases res)
    case None
    then show ?thesis using Suc a by (auto split: if_splits prod.splits option.splits)
  next
    case (Some r')
    then have "r' = r" using Suc.prems a by simp
    then show ?thesis using a Some asyncVerdict_faithful by (fastforce simp: asyncSettlementAttempt_def split: sum.splits prod.splits)
  qed
qed simp

lemma syncVerdict_faithful: "syncVerdict env hash auth resp = (Inr r, hard) \<Longrightarrow> faithfulResult charge auth r"
  using decodeFinal_faithful by (auto simp: syncVerdict_def split: if_splits sum.splits)

lemma syncLoop_faithful:
  "syncLoop env c cx endpoint raw hash auth n attempt w = ((Inr r, hard), w') \<Longrightarrow> faithfulResult charge auth r"
proof (induction n arbitrary: attempt w)
  case (Suc n)
  obtain v hard1 w1 where a: "snapshotSyncAttempt env c cx endpoint raw hash auth w = ((v, hard1), w1)" by (metis prod.exhaust)
  show ?case
  proof (cases "\<not> hard1 \<or> attempt = rp_attempts asyncPolicy")
    case True
    then have "v = Inr r" using Suc.prems a by (auto split: option.splits)
    then show ?thesis using a syncVerdict_faithful by (fastforce simp: snapshotSyncAttempt_def split: sum.splits prod.splits)
  next
    case False
    then show ?thesis using Suc a by (auto split: option.splits prod.splits)
  qed
qed simp

lemma recover_accepts:
  assumes "recoverSettlement env c cx endpoint a auth w = (out, a', w')" "aa_accepted a = None" "aa_accepted a' = Some r"
  shows "faithfulResult charge auth r"
  using assms syncLoop_faithful
  by (auto simp: recoverSettlement_def snapshotSyncSettlement_def split: prod.splits if_splits sum.splits)

lemma send_accepts:
  assumes "sendFrozen env c cx first now a auth w = (out, a', w')" "aa_accepted a = None" "aa_accepted a' = Some r"
  shows "faithfulResult (aa_charge a) auth r"
  using assms asyncLoop_faithful recover_accepts
  by (auto simp: sendFrozen_def Let_def split: if_splits prod.splits option.splits)


section \<open>Histories of calls\<close>

type_synonym settle_call = "call_context \<times> Usage \<times> gotime"

fun asyncRun :: "async_full_env \<Rightarrow> AsyncClient \<Rightarrow> Authorization \<Rightarrow> settle_call list \<Rightarrow> asyncAuthorization option \<Rightarrow> net_state
    \<Rightarrow> async_outcome list \<times> asyncAuthorization option \<times> net_state" where
  "asyncRun env c auth [] async w = ([], async, w)"
| "asyncRun env c auth ((cx, u, now) # calls) async w =
     (case tryAsyncSettlement env c cx async auth u now w of (out, async', w') \<Rightarrow>
      case asyncRun env c auth calls async' w' of (outs, async'', w'') \<Rightarrow> (out # outs, async'', w''))"

lemma negotiated_any: "AsyncSettlementNegotiated c (Some a) \<longleftrightarrow> AsyncSettlementNegotiated c (Some b)"
  by (simp add: AsyncSettlementNegotiated_def)

lemma asyncRun_trace:
  assumes "asyncRun env c auth calls (Some a) w = (outs, async', w')" "AsyncSettlementNegotiated c (Some a)"
  shows "\<exists>a'. async' = Some a' \<and> settle_trace (phaseOf a) outs (phaseOf a')"
  using assms
proof (induction calls arbitrary: a w outs)
  case Nil
  then show ?case by (auto intro: trace_nil)
next
  case (Cons call calls)
  obtain cx u now where call: "call = (cx, u, now)" by (metis prod_cases3)
  obtain out async1 w1 where t: "tryAsyncSettlement env c cx (Some a) auth u now w = (out, async1, w1)" by (metis prod_cases3)
  from t Cons.prems(2) obtain a1 where a1: "async1 = Some a1" "settle_step (phaseOf a) out (phaseOf a1)" by (rule tryAsync_step)
  obtain outs1 where r: "asyncRun env c auth calls (Some a1) w1 = (outs1, async', w')" "outs = out # outs1"
    using Cons.prems(1) call t a1(1) by (auto split: prod.splits)
  from Cons.IH [OF r(1)] Cons.prems(2) negotiated_any obtain a' where "async' = Some a'" "settle_trace (phaseOf a1) outs1 (phaseOf a')" by blast
  then show ?case using a1(2) r(2) by (auto intro: trace_cons)
qed


lemma build_terms: "terms_of a = terms_of b \<Longrightarrow> buildAsyncSettlement env a u = buildAsyncSettlement env b u"
  by (simp add: terms_of_def buildAsyncSettlement_def)

definition async_inv :: "async_full_env \<Rightarrow> AsyncClient \<Rightarrow> Authorization \<Rightarrow> asyncAuthorization \<Rightarrow> Usage set \<Rightarrow> asyncAuthorization
    \<Rightarrow> (http_request \<times> (go_error + http_response)) list \<Rightarrow> bool" where
  "async_inv env c auth a0 U a es \<longleftrightarrow> terms_of a = terms_of a0
     \<and> (if aa_attempted a
        then (\<exists>u \<in> U. \<exists>body. buildAsyncSettlement (ae_billing env) a0 u = Inr body \<and> ae_MarshalRequest env body = Inr (aa_frozen a)
               \<and> aa_charge a = te_ChargeMicro (as_Terminal body)) \<and> addressed (Client.truncate c) auth (aa_frozen a) es
        else es = [])
     \<and> (case aa_accepted a of None \<Rightarrow> True | Some r \<Rightarrow> aa_attempted a \<and> faithfulResult (aa_charge a) auth r)"

lemma send_frame:
  assumes "sendFrozen env c cx first now a auth w = (out, a', w')"
  shows "terms_of a' = terms_of a"
  using assms
  by (auto simp: sendFrozen_def recoverSettlement_def terms_of_def Let_def split: if_splits prod.splits option.splits sum.splits)

lemma send_inv:
  assumes "async_inv env c auth a0 U a es" "phaseOf a = Submitted" "sendFrozen env (Client.truncate c) cx first now a auth w = (out, a', w')"
  shows "\<exists>fs. ns_sent w' = ns_sent w @ fs \<and> async_inv env c auth a0 U a' (es @ fs)"
proof -
  from send_log [OF assms(3)] obtain fs where fs: "ns_sent w' = ns_sent w @ fs" "addressed (Client.truncate c) auth (aa_frozen a) fs" by blast
  have p: "\<not> aa_ineligible a" "aa_accepted a = None" "\<not> aa_legacy a" "aa_attempted a" using assms(2) by (auto simp: phaseOf_Submitted)
  note k = send_phase(2) [OF assms(3) p, of Submitted, simplified]
  have f: "faithfulResult (aa_charge a') auth r" if "aa_accepted a' = Some r" for r
    using send_accepts [OF assms(3) p(2) that] k by simp
  have "async_inv env c auth a0 U a' (es @ fs)"
    using assms(1) fs(2) k f send_frame [OF assms(3)] p(4) by (simp add: async_inv_def split: option.split)
  then show ?thesis using fs(1) by blast
qed

lemma tryAsync_inv:
  assumes "async_inv env c auth a0 U a es" "u \<in> U" "AsyncSettlementNegotiated c (Some a)"
    "tryAsyncSettlement env c cx (Some a) auth u now w = (out, Some a', w')"
  shows "\<exists>fs. ns_sent w' = ns_sent w @ fs \<and> async_inv env c auth a0 U a' (es @ fs)"
  using assms(4, 3)
proof (cases rule: tryAsync_cases)
  case (again b)
  then show ?thesis using send_inv [OF assms(1) again(1, 2)] by simp
next
  case (frozen a1 b)
  have b: "b = a'" using frozen(4) by simp
  from frozen(2) obtain body raw hash where f: "buildAsyncSettlement (ae_billing env) a u = Inr body" "ae_MarshalRequest env body = Inr raw"
    "a1 = a\<lparr>aa_frozen := raw, aa_hash := hash, aa_charge := te_ChargeMicro (as_Terminal body), aa_attempted := True\<rparr>"
    by (rule freeze_cases) auto
  have t: "terms_of a = terms_of a0" "es = []" "aa_accepted a = None" using assms(1) frozen(1) by (auto simp: async_inv_def phaseOf_Fresh split: if_splits)
  have "buildAsyncSettlement (ae_billing env) a0 u = Inr body" using build_terms [OF t(1)] f(1) by simp
  then have "async_inv env c auth a0 U a1 es" using t f(2, 3) assms(2) by (auto simp: async_inv_def terms_of_def)
  then show ?thesis using send_inv [OF _ frozen_pending [OF frozen(2, 1)] frozen(3)] b by blast
next
  case ineligible
  then show ?thesis using assms(1) by (auto simp: async_inv_def terms_of_def phaseOf_Fresh)
next
  case (failed e a1)
  then show ?thesis using assms(1) by (auto simp: async_inv_def phaseOf_Fresh split: if_splits)
qed (use assms(1) in auto)

lemma asyncRun_inv:
  assumes "asyncRun env c auth calls (Some a) w = (outs, Some a', w')" "AsyncSettlementNegotiated c (Some a)"
    "async_inv env c auth a0 U a es" "(\<lambda>(cx, u, now). u) ` set calls \<subseteq> U"
  shows "\<exists>fs. ns_sent w' = ns_sent w @ fs \<and> async_inv env c auth a0 U a' (es @ fs)"
  using assms
proof (induction calls arbitrary: a w outs es)
  case Nil
  then show ?case by auto
next
  case (Cons call calls)
  obtain cx u now where call: "call = (cx, u, now)" by (metis prod_cases3)
  obtain out async1 w1 where t: "tryAsyncSettlement env c cx (Some a) auth u now w = (out, async1, w1)" by (metis prod_cases3)
  from t Cons.prems(2) obtain a1 where a1: "async1 = Some a1" by (rule tryAsync_step)
  obtain outs1 where r: "asyncRun env c auth calls (Some a1) w1 = (outs1, Some a', w')"
    using Cons.prems(1) call t a1 by (auto split: prod.splits)
  from tryAsync_inv [OF Cons.prems(3) _ Cons.prems(2) t [unfolded a1]] Cons.prems(4) call
  obtain fs where fs: "ns_sent w1 = ns_sent w @ fs" "async_inv env c auth a0 U a1 (es @ fs)" by auto
  from Cons.IH [OF r _ fs(2)] Cons.prems(2, 4) negotiated_any obtain gs where
    "ns_sent w' = ns_sent w1 @ gs" "async_inv env c auth a0 U a' ((es @ fs) @ gs)" by (metis (no_types, lifting) image_insert insert_subset list.simps(15))
  then show ?case using fs(1) by (intro exI [of _ "fs @ gs"]) simp
qed

end
