(* ===== verification/AsyncProps.thy ===== *)
theory AsyncProps
  imports AsyncLaws BillingProps
begin

text \<open>
  The properties of asynchronous settlement: it refines the machine of four phases, and whatever the network
  answers, what is sent and reported is the exact price of one usage.
\<close>

lemma build_exact:
  assumes "billing_laws env" "ParseSnapshot env raw = Inr d" "aa_snapshot a = Some d" "buildAsyncSettlement env a u = Inr body"
  shows "\<exists>c. candidate (Some d) (us_SelectedEndpoint u) = Inr c \<and> te_ChargeMicro (as_Terminal body) = exactCharge c (te_Usage (as_Terminal body))"
proof -
  obtain r o1 ev where e: "Evaluate env (Some d) (us_SelectedEndpoint u) r o1 = Inr ev"
    and t: "te_ChargeMicro (as_Terminal body) = ev_ChargeMicro ev" "te_Usage (as_Terminal body) = ev_Usage ev"
    using assms(3, 4) by (auto simp: buildAsyncSettlement_def Let_def bindE_def split: if_splits sum.splits)
  from e have "\<exists>c. candidate (Some d) (us_SelectedEndpoint u) = Inr c \<and> ev_ChargeMicro ev = exactCharge c (ev_Usage ev)"
    unfolding Evaluate_exact_eq [OF assms(1) ParseSnapshot_wf [OF assms(2)]]
    by (auto simp: bindE_def split: sum.splits if_splits)
  then show ?thesis using t by simp
qed

text \<open>(C34) Asynchronous settlement refines its abstract machine. Every history of calls for a negotiated authorization is a
  trace of the machine of four phases, from the phase of its first state to that of its last; hence once one
  call reports a result no call ever permits the legacy settlement, every call that reports a result
  reports the same one, and that result is remembered.\<close>
theorem async_refines:
  assumes "asyncRun env c auth calls (Some a) w = (outs, async', w')" "AsyncSettlementNegotiated c (Some a)"
  shows "\<exists>a'. async' = Some a' \<and> settle_trace (phaseOf a) outs (phaseOf a')
     \<and> (\<forall>r. AsyncResult r \<in> set outs \<longrightarrow> LegacyPermitted \<notin> set outs \<and> phaseOf a' = Accepted r)"
  using asyncRun_trace [OF assms] trace_exclusive by blast

text \<open>(C33) One body, exactly priced. From a freshly negotiated authorization, whatever the network answers to whatever
  calls: everything sent is one body at the authority that holds the reservation, the body is the request built from the usage of one of the
  calls, its charge is the exact price of that usage, and every reported result has a known amount that, while
  it is pending, is that charge.\<close>
theorem async_one_body:
  assumes "billing_laws (ae_billing env)" "ParseSnapshot (ae_billing env) raw = Inr d" "aa_snapshot a = Some d" "phaseOf a = Fresh"
    "AsyncSettlementNegotiated c (Some a)" "asyncRun env c auth calls (Some a) w = (outs, async', w')"
  shows "\<exists>es. ns_sent w' = ns_sent w @ es \<and>
     (es = [] \<and> (\<forall>r. AsyncResult r \<notin> set outs) \<or>
      (\<exists>u body bytes ca. u \<in> (\<lambda>(cx, u, now). u) ` set calls \<and> buildAsyncSettlement (ae_billing env) a u = Inr body
         \<and> ae_MarshalRequest env body = Inr bytes
         \<and> candidate (Some d) (us_SelectedEndpoint u) = Inr ca
         \<and> te_ChargeMicro (as_Terminal body) = exactCharge ca (te_Usage (as_Terminal body))
         \<and> addressed (Client.truncate c) auth bytes es
         \<and> (\<forall>r. AsyncResult r \<in> set outs \<longrightarrow> faithfulResult (te_ChargeMicro (as_Terminal body)) auth r)))"
proof -
  let ?U = "(\<lambda>(cx, u, now). u) ` set calls"
  from asyncRun_trace [OF assms(6, 5)] obtain a' where a': "async' = Some a'" "settle_trace (phaseOf a) outs (phaseOf a')" by blast
  have "async_inv env c auth a ?U a []" using assms(4) by (simp add: async_inv_def phaseOf_Fresh)
  from asyncRun_inv [OF assms(6) [unfolded a'(1)] assms(5) this] obtain es where es: "ns_sent w' = ns_sent w @ es" "async_inv env c auth a ?U a' es" by auto
  have acc: "aa_accepted a' = Some r" if "AsyncResult r \<in> set outs" for r
    using trace_exclusive [OF a'(2) that] by (auto simp: phaseOf_def split: if_splits option.splits)
  show ?thesis
  proof (cases "aa_attempted a'")
    case False
    then have "es = []" "aa_accepted a' = None" using es(2) by (auto simp: async_inv_def split: option.splits)
    then show ?thesis using es(1) acc by auto
  next
    case True
    then obtain u body where b: "u \<in> ?U" "buildAsyncSettlement (ae_billing env) a u = Inr body" "ae_MarshalRequest env body = Inr (aa_frozen a')"
      "aa_charge a' = te_ChargeMicro (as_Terminal body)" "addressed (Client.truncate c) auth (aa_frozen a') es"
      using es(2) unfolding async_inv_def by (metis (no_types, lifting))
    from build_exact [OF assms(1-3) b(2)] obtain ca where ca: "candidate (Some d) (us_SelectedEndpoint u) = Inr ca"
      "te_ChargeMicro (as_Terminal body) = exactCharge ca (te_Usage (as_Terminal body))" by blast
    have "\<forall>r. AsyncResult r \<in> set outs \<longrightarrow> faithfulResult (te_ChargeMicro (as_Terminal body)) auth r"
      using acc es(2) b(4) by (auto simp: async_inv_def)
    then show ?thesis using es(1) b ca by blast
  qed
qed


section \<open>An example\<close>

text \<open>An authorization pinned to the second authority, which accepts the settlement as pending.\<close>

definition exBytes :: string where
  "exBytes = ''frozen''"

definition exSnapshotHash :: string where
  "exSnapshotHash = hex_EncodeToString (replicate 32 CHR ''h'')"

definition exReply :: json where
  "exReply = JObj [(''data'', JObj
     [(''acceptance'', JObj [(''status'', JStr ''accepted''), (''payload_hash'', JStr exSnapshotHash), (''settlement_status'', JStr ''pending'')]),
      (''trusted_router_settlement'', JObj [(''v'', JNum ''1''), (''settlement_id'', JStr ''auth1.settle''), (''settlement_status'', JStr ''pending''),
         (''cost_microdollars'', JNum ''10800''), (''status_url'', JStr []), (''poll_after_ms'', JNum ''5'')])])]"

definition exAsyncNet :: net_env where
  "exAsyncNet = (exNet 0)\<lparr>ne_Do := (\<lambda>_ _. Inr \<lparr>hr_StatusCode = 202, hr_RetryAfter = [], hr_Data = ''x'', hr_Fail = None\<rparr>), ne_json := (\<lambda>_. Some exReply)\<rparr>"

definition exAsyncEnv :: "billing_env \<Rightarrow> async_full_env" where
  "exAsyncEnv b = \<lparr>ae_net = exAsyncNet, ae_billing = b, ae_ParseFloat = (\<lambda>_. None), ae_MarshalRequest = (\<lambda>_. Inr exBytes)\<rparr>"

definition exAsync :: asyncAuthorization where
  "exAsync = \<lparr>aa_attempted = False, aa_accepted = None, aa_frozen = [], aa_hash = [], aa_charge = 0, aa_legacy = False, aa_ineligible = False,
     aa_snapshot = Some exampleSnapshot, aa_raw = ''{}'', aa_ticket = ''t'', aa_terminal = exampleEnvelope, aa_expires = 1000, aa_requested = DefaultEligibility\<rparr>"

definition exAsyncUsage :: Usage where
  "exAsyncUsage = exUsage\<lparr>us_SelectedEndpoint := ''e1'', us_Streamed := False, us_InputTokens := 2000, us_OutputTokens := 10, us_CacheReadInputTokens := 500,
     us_ReasoningTokens := 4\<rparr>"

definition exAsyncClient :: AsyncClient where
  "exAsyncClient = \<lparr>cl_baseURLs = [''https://a'', ''https://b''], cl_configurationError = None, cl_internalToken = ''t'', cl_asyncShadow = False, ac_asyncNegotiate = True\<rparr>"

definition exFrozenAsync :: asyncAuthorization where
  "exFrozenAsync = exAsync\<lparr>aa_frozen := exBytes, aa_hash := exSnapshotHash, aa_charge := 10800, aa_attempted := True\<rparr>"

definition exPending :: SettleResult where
  "exPending = zeroResult\<lparr>sr_TrustedRouterSettlement := Some \<lparr>ps_wireComplete = True, ps_V = 1, ps_SettlementID = ''auth1.settle'', ps_SettlementStatus = ''pending'',
     ps_CostMicrodollars = 10800, ps_StatusURL = [], ps_PollAfterMS = 5\<rparr>, sr_CostMicrodollars := 10800, sr_CostMicrodollarsKnown := True\<rparr>"

lemma exBuild:
  "buildAsyncSettlement exampleBillingEnv exAsync exAsyncUsage = Inr \<lparr>as_Snapshot = ''{}'', as_Ticket = ''t'', as_Raw = exampleRaw,
     as_Observed = DefaultEligibility, as_Terminal = exampleEnvelope\<rparr>"
proof -
  have o: "DefaultEligibility\<lparr>el_RouteType := ''chat.completions'', el_Streamed := False, el_PrivateTierBasis := False\<rparr> = DefaultEligibility"
    "DefaultEligibility\<lparr>el_RouteType := ''chat.completions'', el_Streamed := False, el_ToolCost := False, el_PrivateTierBasis := False\<rparr> = DefaultEligibility"
    by (simp_all add: DefaultEligibility_def)
  have r: "\<lparr>ru_InputTokens = 2000, ru_OutputTokens = 10, ru_CacheReadTokens = 500, ru_CacheCreationTokens = 0, ru_ReasoningTokens = 4\<rparr> = exampleRaw"
    by (simp add: exampleRaw_def)
  have t: "exampleEnvelope\<lparr>te_SelectedEndpoint := ''e1'', te_Usage := \<lparr>nu_UncachedInputTokens = 1500, nu_TotalPromptTokens = 2000, nu_OutputTokens = 10, nu_CacheReadTokens = 500,
        nu_CacheCreationTokens = 0, nu_ReasoningTokens = 4\<rparr>, te_ChargeMicro := 10800\<rparr> = exampleEnvelope"
    by (simp add: exampleEnvelope_def)
  have e: "te_RouteType exampleEnvelope = ''chat.completions''" "te_Streamed exampleEnvelope = False" "el_ToolCost DefaultEligibility = False"
    by (simp_all add: exampleEnvelope_def DefaultEligibility_def)
  show ?thesis
    by (simp add: buildAsyncSettlement_def exAsync_def exAsyncUsage_def exUsage_def Let_def e o r example_evaluate t example_envelope_validates)
qed

lemma exEnvelopeHash: "CanonicalHash exampleBillingEnv (CModel (Envelope_val exampleEnvelope) Envelope_type) = Inr exSnapshotHash"
proof -
  have "validateGo exampleBillingEnv (Envelope_val exampleEnvelope) Envelope_type ''invalid_type'' = Inr ()"
  proof (rule validateGo_conforms [OF exampleBilling_laws example_envelope_conforms])
    show "wf_type Envelope_type noTag" by (simp add: Envelope_type_def NormalizedUsage_type_def tag_defs)
    show "plain (Envelope_val exampleEnvelope)"
      using hex_ascii by (simp add: Envelope_val_def NormalizedUsage_val_def exampleEnvelope_def byte_def)
  qed (simp_all add: Envelope_val_def NormalizedUsage_val_def)
  moreover have "decodeJSON exampleBillingEnv (be_Marshal exampleBillingEnv (Envelope_val exampleEnvelope)) = Inr (json_of (Envelope_val exampleEnvelope))"
    by (rule decodeJSON_Marshal [OF exampleBilling_laws]) (simp_all add: Envelope_val_def NormalizedUsage_val_def)
  ultimately show ?thesis
    by (simp add: CanonicalHash_def CanonicalBytes_def canonicalBytes_def exSnapshotHash_def) (simp add: exampleBillingEnv_def)
qed

lemma exFreeze: "freezeRequest (exAsyncEnv exampleBillingEnv) exAsync exAsyncUsage = (exFrozenAsync, Frozen)"
proof -
  have "te_ChargeMicro exampleEnvelope = 10800" by (simp add: exampleEnvelope_def)
  then show ?thesis by (simp add: freezeRequest_def exBuild exEnvelopeHash exAsyncEnv_def exFrozenAsync_def)
qed

definition exPendingReply :: async_reply where
  "exPendingReply = \<lparr>ar_Acceptance = \<lparr>ao_Status = ''accepted'', ao_PayloadHash = Some exSnapshotHash, ao_SettlementStatus = Some ''pending''\<rparr>,
     ar_Pending = sr_TrustedRouterSettlement exPending, ar_Reason = [], ar_Expected = None, ar_Claimed = None\<rparr>"

lemma exNumbers: "ParseInt ''1'' = Some 1" "ParseInt ''5'' = Some 5" "ParseInt ''10800'' = Some 10800"
  by (simp_all add: ParseInt_def digit_of_def byte_def i64_defs)

lemma exPendingDecode:
  "PendingSettlement_UnmarshalJSON z (JObj [(''v'', JNum ''1''), (''settlement_id'', JStr ''auth1.settle''), (''settlement_status'', JStr ''pending''),
     (''cost_microdollars'', JNum ''10800''), (''status_url'', JStr []), (''poll_after_ms'', JNum ''5'')]) = sr_TrustedRouterSettlement exPending"
  by (simp add: PendingSettlement_UnmarshalJSON_def unmarshal_defs zeroPending_def exPending_def exNumbers)

lemma exDecode:
  "asyncReply \<lparr>ar_Acceptance = zeroAcceptance, ar_Pending = None, ar_Reason = [], ar_Expected = None, ar_Claimed = None\<rparr> exReply = Some exPendingReply"
proof -
  obtain p where p: "sr_TrustedRouterSettlement exPending = Some p" by (simp add: exPending_def)
  show ?thesis using exPendingDecode
    by (simp add: asyncReply_def exReply_def uStruct_def uNested_def acceptanceDecoder_def uString_def uPtr_def scalarString_def zeroAcceptance_def
        exPendingReply_def p)
qed

lemma exVerdict:
  assumes "ne_json (ae_net env) = (\<lambda>_. Some exReply)"
  shows "asyncVerdict env exSnapshotHash 10800 exAuth \<lparr>hr_StatusCode = 202, hr_RetryAfter = [], hr_Data = ''x'', hr_Fail = None\<rparr> = (Some exPending, False, [])"
  using assms
  by (simp add: asyncVerdict_def readLimited_def exDecode exPendingReply_def acceptedPending_def exPending_def zeroResult_def exAuth_def)

lemma exSend: "fst (sendFrozen (exAsyncEnv b) (Client.truncate exAsyncClient) exContext True (t_Unix 0 0) exFrozenAsync exAuth exStart) = AsyncResult exPending"
proof -
  have margin: "t_Sub (t_Unix 1000 0) (t_Unix 0 0) \<ge> asyncTicketMargin" by code_simp
  have p: "pinnedControlPlaneEndpoint (authority_pin.truncate exAuth) = 1"
    by (simp add: pinnedControlPlaneEndpoint_def exAuth_def authority_pin.defs)
  have n: "nat (rp_attempts asyncPolicy) = Suc 2" by (simp add: asyncPolicy_def)
  have "fst (asyncSettlementAttempt (async_env.truncate (exAsyncEnv b)) (Client.truncate exAsyncClient) cx 1 exBytes exSnapshotHash 10800 exAuth exStart)
      = (Some exPending, False, [])" for cx
    by (simp add: asyncSettlementAttempt_def postToControlPlaneWithBootAuth_def exAsyncClient_def Client.defs exAsyncEnv_def async_env.defs
        exAsyncNet_def exNet_def httpc_Do_def Let_def exVerdict)
  then obtain w1 where "asyncSettlementAttempt (async_env.truncate (exAsyncEnv b)) (Client.truncate exAsyncClient) (exContext\<lparr>cx_asyncMode := ''async-v1''\<rparr>) 1 exBytes
      exSnapshotHash 10800 exAuth exStart = ((Some exPending, False, []), w1)" by (metis prod.collapse)
  then have "asyncLoop (async_env.truncate (exAsyncEnv b)) (Client.truncate exAsyncClient) (exContext\<lparr>cx_asyncMode := ''async-v1''\<rparr>) 1 exBytes
      exSnapshotHash 10800 exAuth (Suc 2) 1 ''ticket_expiry_margin'' exStart = (Some exPending, [], w1)" by (subst asyncLoop.simps) simp
  then show ?thesis using margin p unfolding sendFrozen_def n by (simp add: Let_def exFrozenAsync_def exAsync_def)
qed


definition exCalls :: "settle_call list" where
  "exCalls = [(exContext, exAsyncUsage, t_Unix 0 0)]"

lemma exNegotiated: "AsyncSettlementNegotiated exAsyncClient (Some a)"
  by (simp add: AsyncSettlementNegotiated_def exAsyncClient_def)

lemma exRunResult: "fst (asyncRun (exAsyncEnv exampleBillingEnv) exAsyncClient exAuth exCalls (Some exAsync) exStart) = [AsyncResult exPending]"
proof -
  obtain a' w' where s: "sendFrozen (exAsyncEnv exampleBillingEnv) (Client.truncate exAsyncClient) exContext True (t_Unix 0 0) exFrozenAsync exAuth exStart = (AsyncResult exPending, a', w')"
    using exSend [of exampleBillingEnv] by (metis prod.collapse)
  have "\<not> aa_ineligible exAsync" "aa_accepted exAsync = None" "\<not> aa_legacy exAsync" "\<not> aa_attempted exAsync" by (simp_all add: exAsync_def)
  then show ?thesis using s exNegotiated exFreeze by (simp add: exCalls_def tryAsyncSettlement_def)
qed

theorem async_refines_witness:
  "\<exists>a' w'. asyncRun (exAsyncEnv exampleBillingEnv) exAsyncClient exAuth exCalls (Some exAsync) exStart = ([AsyncResult exPending], Some a', w')
     \<and> phaseOf exAsync = Fresh \<and> phaseOf a' = Accepted exPending"
proof -
  obtain async' w' where r: "asyncRun (exAsyncEnv exampleBillingEnv) exAsyncClient exAuth exCalls (Some exAsync) exStart = ([AsyncResult exPending], async', w')"
    using exRunResult by (metis prod.collapse)
  from async_refines [OF r exNegotiated] obtain a' where "async' = Some a'" "phaseOf a' = Accepted exPending" by auto
  then show ?thesis using r by (auto simp: phaseOf_Fresh exAsync_def)
qed

theorem async_one_body_witness:
  "\<exists>es. ns_sent (snd (snd (asyncRun (exAsyncEnv exampleBillingEnv) exAsyncClient exAuth exCalls (Some exAsync) exStart))) = es
     \<and> addressed (Client.truncate exAsyncClient) exAuth exBytes es \<and> faithfulResult 10800 exAuth exPending"
proof -
  obtain async' w' where r: "asyncRun (exAsyncEnv exampleBillingEnv) exAsyncClient exAuth exCalls (Some exAsync) exStart = ([AsyncResult exPending], async', w')"
    using exRunResult by (metis prod.collapse)
  have b: "ae_billing (exAsyncEnv exampleBillingEnv) = exampleBillingEnv" "ae_MarshalRequest (exAsyncEnv exampleBillingEnv) body = Inr exBytes" for body
    by (simp_all add: exAsyncEnv_def)
  have c: "te_ChargeMicro exampleEnvelope = 10800" by (simp add: exampleEnvelope_def)
  have "phaseOf exAsync = Fresh" "aa_snapshot exAsync = Some exampleSnapshot" by (simp_all add: phaseOf_Fresh exAsync_def)
  from async_one_body [of "exAsyncEnv exampleBillingEnv", unfolded b, OF exampleBilling_laws example_parse this(2, 1) exNegotiated r]
  show ?thesis using r by (auto simp: exCalls_def exBuild exStart_def c)
qed

end
