(* ===== verification/CandidateCost.thy ===== *)
theory CandidateCost
  imports AsyncSettle
begin

text \<open>
  What a request costs at the prices the control plane froze for it (\<open>internal/trustedrouter/candidate_cost.go\<close>,
  the prices of \<open>stage_d.go\<close>, and \<open>cmd/enclave/usage_cost.go\<close> and \<open>estimated_billing.go\<close>). Three programs price the same
  usage: \<open>CostMicrodollars\<close> with big integers for what clients are told, \<open>stageDUsageMicro\<close> with \<open>int64\<close> for the
  cap of a stream, and \<open>Evaluate\<close> of theory \<open>BillingV1\<close> for what is charged. This theory holds the first two, the decoder of a
  price and the callers of \<open>CostMicrodollars\<close>; theory \<open>CandidateProps\<close> relates the three. Logging is left out.
\<close>

section \<open>Prices\<close>

record PriceRates =
  prate_Input :: int
  prate_Output :: int
  prate_CachedInput :: int
  prate_CacheCreation :: int

record PriceTier =
  ptier_MaxPromptTokens :: "int option"
  ptier_Rates :: PriceRates

record CandidatePrice =
  cand_incompleteSnapshot :: bool
  cand_EndpointID :: string
  cand_PriceHistoryVersion :: int
  cand_Rates :: PriceRates
  cand_Tiers :: "PriceTier list"
  cand_RequestFeeMicro :: int
  cand_Rounding :: string

definition zeroRates :: PriceRates where
  "zeroRates = \<lparr>prate_Input = 0, prate_Output = 0, prate_CachedInput = 0, prate_CacheCreation = 0\<rparr>"

definition zeroPrice :: CandidatePrice where
  "zeroPrice = \<lparr>cand_incompleteSnapshot = False, cand_EndpointID = [], cand_PriceHistoryVersion = 0, cand_Rates = zeroRates, cand_Tiers = [],
     cand_RequestFeeMicro = 0, cand_Rounding = []\<rparr>"

definition contains :: "PriceTier \<Rightarrow> int \<Rightarrow> bool" where
  "contains t prompt = (case ptier_MaxPromptTokens t of None \<Rightarrow> True | Some m \<Rightarrow> prompt \<le> m)"

definition RatesForPrompt :: "CandidatePrice \<Rightarrow> int \<Rightarrow> PriceRates" where
  "RatesForPrompt p promptTokens =
     (case find (\<lambda>t. contains t promptTokens) (cand_Tiers p) of Some t \<Rightarrow> ptier_Rates t | None \<Rightarrow> cand_Rates p)"

definition priceFor :: "CandidatePrice list \<Rightarrow> string \<Rightarrow> CandidatePrice \<times> bool" where
  "priceFor prices endpointID =
     (case find (\<lambda>p. cand_EndpointID p = endpointID) prices of Some p \<Rightarrow> (p, True) | None \<Rightarrow> (zeroPrice, False))"

section \<open>The reported cost\<close>

text \<open>\<open>big.Int.Quo\<close> truncates towards zero.\<close>

definition big_Quo :: "int \<Rightarrow> int \<Rightarrow> int" where
  "big_Quo a b = sgn a * sgn b * (\<bar>a\<bar> div \<bar>b\<bar>)"

fun lastTierRates :: "int \<Rightarrow> PriceRates \<Rightarrow> PriceTier list \<Rightarrow> PriceRates" where
  "lastTierRates prompt rates [] = rates"
| "lastTierRates prompt rates (t # ts) = (if contains t prompt then ptier_Rates t else lastTierRates prompt (ptier_Rates t) ts)"

definition tierPrompt :: "int \<Rightarrow> int \<Rightarrow> int \<Rightarrow> int \<Rightarrow> int" where
  "tierPrompt input cached creation tierInput =
     (let prompt = input + cached + creation in if tierInput > 0 \<and> prompt \<ge> tierInput then tierInput else prompt)"

fun costLoop :: "(int \<times> int) list \<Rightarrow> int \<Rightarrow> bool \<Rightarrow> (int \<times> bool) option" where
  "costLoop [] cost positive = Some (cost, positive)"
| "costLoop ((tokens, rate) # cs) cost positive =
     (if rate < 0 then None
      else costLoop cs (cost + big_Quo (tokens * rate + 500000) 1000000) (positive \<or> (tokens > 0 \<and> rate > 0)))"

text \<open>The second result of the source, false, is \<open>None\<close>.\<close>

definition CostMicrodollars :: "CandidatePrice \<Rightarrow> int \<Rightarrow> int \<Rightarrow> int \<Rightarrow> int \<Rightarrow> int \<Rightarrow> int option" where
  "CostMicrodollars p input output cached creation tierInput =
     (if cand_incompleteSnapshot p \<or> cand_Rounding p \<noteq> ''half_up_per_million'' \<or> cand_PriceHistoryVersion p \<noteq> 1 \<or> cand_RequestFeeMicro p < 0 then None
      else if list_ex (\<lambda>count. count < 0) [input, output, cached, creation] then None
      else
        (let rates = lastTierRates (tierPrompt input cached creation tierInput) (cand_Rates p) (cand_Tiers p) in
         case costLoop [(input, prate_Input rates), (output, prate_Output rates), (cached, prate_CachedInput rates), (creation, prate_CacheCreation rates)]
                (cand_RequestFeeMicro p) (cand_RequestFeeMicro p > 0) of
           None \<Rightarrow> None
         | Some (cost, positive) \<Rightarrow>
             (let cost = (if positive \<and> cost = 0 then 1 else cost) in if in_i64 cost then Some cost else None)))"

section \<open>Decoding a price\<close>

text \<open>Unmarshalling into a slice reuses the elements of its backing array, also those beyond its length.\<close>

record 'a go_slice =
  gs_back :: "'a list"
  gs_len :: nat

fun uElems :: "'a decoder \<Rightarrow> 'a \<Rightarrow> 'a list \<Rightarrow> json list \<Rightarrow> 'a list option" where
  "uElems dec zero back [] = Some []"
| "uElems dec zero back (j # js) =
     (case dec (case back of [] \<Rightarrow> zero | b # _ \<Rightarrow> b) j of
        None \<Rightarrow> None
      | Some a \<Rightarrow> map_option (\<lambda>as. a # as) (uElems dec zero (tl back) js))"

definition uSlice :: "('s \<Rightarrow> 'a go_slice) \<Rightarrow> (('a go_slice \<Rightarrow> 'a go_slice) \<Rightarrow> 's \<Rightarrow> 's) \<Rightarrow> 'a \<Rightarrow> 'a decoder \<Rightarrow> 's decoder" where
  "uSlice get upd zero dec s j = (case j of
     JNull \<Rightarrow> Some (upd (\<lambda>_. \<lparr>gs_back = [], gs_len = 0\<rparr>) s)
   | JArr js \<Rightarrow> (case uElems dec zero (gs_back (get s)) js of
       None \<Rightarrow> None
     | Some as \<Rightarrow> Some (upd (\<lambda>_. if as = [] then \<lparr>gs_back = [], gs_len = 0\<rparr>
                                   else \<lparr>gs_back = as @ drop (length as) (gs_back (get s)), gs_len = length as\<rparr>) s))
   | _ \<Rightarrow> None)"

definition ratesDecoder :: "PriceRates decoder" where
  "ratesDecoder = uStruct [(''input_micro_per_million'', uInt prate_Input_update), (''output_micro_per_million'', uInt prate_Output_update),
     (''cached_input_micro_per_million'', uInt prate_CachedInput_update), (''cache_creation_micro_per_million'', uInt prate_CacheCreation_update)]"

definition zeroTier :: PriceTier where
  "zeroTier = \<lparr>ptier_MaxPromptTokens = None, ptier_Rates = zeroRates\<rparr>"

definition tierDecoder :: "PriceTier decoder" where
  "tierDecoder = uStruct [(''max_prompt_tokens'', uPtr ptier_MaxPromptTokens ptier_MaxPromptTokens_update 0 scalarInt),
     (''rates'', uNested ptier_Rates ptier_Rates_update ratesDecoder)]"

record price_wire =
  pwire_price :: CandidatePrice
  pwire_tiers :: "PriceTier go_slice"

definition priceDecoder :: "price_wire decoder" where
  "priceDecoder = uStruct
     [(''endpoint_id'', uString (\<lambda>f. pwire_price_update (cand_EndpointID_update f))),
      (''price_history_version'', uInt (\<lambda>f. pwire_price_update (cand_PriceHistoryVersion_update f))),
      (''rates'', uNested (\<lambda>w. cand_Rates (pwire_price w)) (\<lambda>f. pwire_price_update (cand_Rates_update f)) ratesDecoder),
      (''tiers'', uSlice pwire_tiers pwire_tiers_update zeroTier tierDecoder),
      (''request_fee_micro'', uInt (\<lambda>f. pwire_price_update (cand_RequestFeeMicro_update f))),
      (''rounding'', uString (\<lambda>f. pwire_price_update (cand_Rounding_update f)))]"

text \<open>A map takes the last member of a name; an absent one is the zero value.\<close>

definition memberOf :: "json \<Rightarrow> string \<Rightarrow> json option" where
  "memberOf j k = (case j of JObj ms \<Rightarrow> map_of (rev ms) k | _ \<Rightarrow> None)"

definition isInt :: "json option \<Rightarrow> bool" where
  "isInt j = (case j of Some (JNum t) \<Rightarrow> ParseInt t \<noteq> None | _ \<Rightarrow> False)"

definition completeRates :: "json option \<Rightarrow> bool" where
  "completeRates raw = (case raw of
     Some (JObj ms) \<Rightarrow> list_all (\<lambda>(k, v). v = JNull \<or> isInt (Some v)) ms
       \<and> list_all (\<lambda>k. isInt (memberOf (JObj ms) k))
           [''input_micro_per_million'', ''output_micro_per_million'', ''cached_input_micro_per_million'', ''cache_creation_micro_per_million'']
   | _ \<Rightarrow> False)"

definition elementsOf :: "json option \<Rightarrow> json list" where
  "elementsOf j = (case j of Some (JArr js) \<Rightarrow> js | _ \<Rightarrow> [])"

definition CandidatePrice_UnmarshalJSON :: "CandidatePrice decoder" where
  "CandidatePrice_UnmarshalJSON old j =
     (case priceDecoder \<lparr>pwire_price = zeroPrice, pwire_tiers = \<lparr>gs_back = [], gs_len = 0\<rparr>\<rparr> j of
        None \<Rightarrow> None
      | Some w \<Rightarrow> Some ((pwire_price w)
          \<lparr>cand_Tiers := take (gs_len (pwire_tiers w)) (gs_back (pwire_tiers w)),
           cand_incompleteSnapshot := \<not> isInt (memberOf j ''request_fee_micro'') \<or> \<not> completeRates (memberOf j ''rates'')
             \<or> list_ex (\<lambda>t. \<not> completeRates (memberOf t ''rates'')) (elementsOf (memberOf j ''tiers''))\<rparr>))"

section \<open>What the client is told\<close>

text \<open>Of an authorization, what the reporting of costs and the buffering of estimates read.\<close>

record RouteCandidate =
  rcand_EndpointID :: string
  rcand_Model :: string
  rcand_Provider :: string
  rcand_UsageType :: string

record PricedAuthorization = Authorization +
  pau_Provider :: string
  pau_UsageType :: string
  pau_RouteCandidates :: "RouteCandidate list"
  pau_StageDEligible :: bool
  pau_CandidateCostReporting :: bool
  pau_CandidatePrices :: "CandidatePrice list"
  pau_CapMicro :: int
  pau_EstimatedCostMicrodollars :: int
  pau_ReceiptFeeBasisPoints :: int
  pau_CustomModel :: bool

definition HasCostPtr :: "SettleResult option \<Rightarrow> bool" where
  "HasCostPtr r = (case r of None \<Rightarrow> False | Some s \<Rightarrow> HasCost s)"

definition rejectedForGood :: "go_error option \<Rightarrow> bool" where
  "rejectedForGood settleErr = (case Option.bind settleErr errors_AsControl of
     None \<Rightarrow> False
   | Some e \<Rightarrow> ce_StatusCode e \<ge> 400 \<and> ce_StatusCode e < 500 \<and> ce_StatusCode e \<noteq> 408 \<and> ce_StatusCode e \<noteq> 429)"

definition servedBy :: "PricedAuthorization \<Rightarrow> string \<Rightarrow> string \<times> string \<times> string" where
  "servedBy auth endpoint = (case find (\<lambda>c. rcand_EndpointID c = endpoint) (pau_RouteCandidates auth) of
     Some c \<Rightarrow> (rcand_Provider c, rcand_Model c, rcand_UsageType c)
   | None \<Rightarrow> if endpoint = au_EndpointID auth then (pau_Provider auth, au_Model auth, pau_UsageType auth) else ([], [], []))"

definition candidateSettlement :: "SettleResult option \<Rightarrow> PricedAuthorization option \<Rightarrow> Usage \<Rightarrow> go_error option \<Rightarrow> SettleResult option" where
  "candidateSettlement settlement authp u settleErr =
     (if rejectedForGood settleErr then settlement
      else case authp of None \<Rightarrow> settlement
      | Some auth \<Rightarrow>
      if \<not> pau_StageDEligible auth \<or> \<not> pau_CandidateCostReporting auth then settlement
      else if (case settlement of None \<Rightarrow> False | Some s \<Rightarrow> sr_Disposition s = ''intent_durable'') then settlement
      else if (case settlement of None \<Rightarrow> False | Some s \<Rightarrow> sr_AlreadySettled s \<or> sr_Settled s
             \<or> (sr_Disposition s \<noteq> [] \<and> sr_Disposition s \<noteq> ''intent_durable'')
             \<or> (sr_FinalizationOutcome s \<noteq> [] \<and> sr_FinalizationOutcome s \<noteq> ''pending'')) then settlement
      else if us_FinishReason u = ''heartbeat_lost'' \<or> us_AdditionalCostMicrodollars u \<noteq> 0 then settlement
      else if us_RouteType u \<notin> {''chat.completions'', ''responses'', ''messages''} then settlement
      else if us_SelectedEndpoint u = [] then settlement
      else case servedBy auth (us_SelectedEndpoint u) of (provider, model, usageType) \<Rightarrow>
        if provider = [] \<or> model \<noteq> us_SelectedModel u \<or> foldName usageType \<noteq> foldName ''Credits'' then settlement
        else if us_InputTokens u < 0 then settlement
        else
          (let price = fst (priceFor (pau_CandidatePrices auth) (us_SelectedEndpoint u));
               input = us_InputTokens u;
               input = (if provider = ''anthropic'' then input
                        else (let i = i64_sub input (min input (us_CacheReadInputTokens u)) in i64_sub i (min i (us_CacheCreationInputTokens u))));
               tierInput = (if provider = ''sakana'' \<and> model = ''sakana-ai/fugu-ultra-v1.1'' then us_PriceTierInputTokens u else 0)
           in case CostMicrodollars price input (us_OutputTokens u) (us_CacheReadInputTokens u) (us_CacheCreationInputTokens u) tierInput of
                None \<Rightarrow> settlement
              | Some cost \<Rightarrow> Some ((case settlement of None \<Rightarrow> zeroResult | Some s \<Rightarrow> s)\<lparr>sr_CostMicrodollars := cost, sr_CostMicrodollarsKnown := True\<rparr>)))"

definition reportedSettlement :: "SettleResult option \<Rightarrow> PricedAuthorization option \<Rightarrow> Usage \<Rightarrow> go_error option \<Rightarrow> SettleResult option" where
  "reportedSettlement settlement auth u settleErr =
     (if HasCostPtr settlement then settlement else candidateSettlement settlement auth u settleErr)"

definition costForRetry :: "SettleResult option \<Rightarrow> int option" where
  "costForRetry r = (if HasCostPtr r then map_option sr_CostMicrodollars r else None)"

section \<open>Buffered estimates\<close>

text \<open>The search starts with \<open>0 < base\<close> and \<open>limit\<close> an \<open>int\<close>, so that no operation of it wraps; see \<open>largest_range\<close>.\<close>

function largestBufferedCount :: "int \<Rightarrow> int \<Rightarrow> (int \<Rightarrow> bool) \<Rightarrow> int" where
  "largestBufferedCount base limit fits =
     (if base < limit
      then (let mid = base + (limit - base) div 2 + 1 in
            if fits mid then largestBufferedCount mid limit fits else largestBufferedCount base (mid - 1) fits)
      else base)"
  by auto
termination by (relation "measure (\<lambda>(base, limit, fits). nat (limit - base))") auto

declare largestBufferedCount.simps [simp del]

record StreamUsage =
  su_InputTokens :: int
  su_OutputTokens :: int
  su_ReasoningTokens :: int
  su_PriceTierInputTokens :: int
  su_CacheReadInputTokens :: int
  su_CacheCreationInputTokens :: int
  su_InputExcludesCache :: bool

record StreamResult =
  sres_Text :: string
  sres_FinishReason :: string
  sres_Usage :: "StreamUsage option"

text \<open>\<open>InputOnlyModel\<close> of package \<open>llm\<close>, with the keys of its table of paths.\<close>

definition InputOnlyModel :: "string \<Rightarrow> bool" where
  "InputOnlyModel model =
     (if model = ''neurometric/structured-decisions'' \<or> model = ''cloudflare/clairic'' then True
      else if \<not> HasPrefix model ''scaledown/'' then False
      else drop 10 model \<in> {''compress'', ''summarize'', ''extract'', ''classify''})"

definition realOrEstimatedTokens :: "StreamUsage option \<Rightarrow> int \<Rightarrow> int \<Rightarrow> string list \<Rightarrow> int \<times> int \<times> bool" where
  "realOrEstimatedTokens usage estimatedInput estimatedOutput models =
     (case usage of
        None \<Rightarrow> (estimatedInput, estimatedOutput, True)
      | Some u \<Rightarrow>
        if (case models of [m] \<Rightarrow> InputOnlyModel m | _ \<Rightarrow> False) \<and> su_InputTokens u > 0 \<and> su_OutputTokens u = 0 then (su_InputTokens u, 0, False)
        else if su_OutputTokens u \<le> 0 then (estimatedInput, estimatedOutput, True)
        else
          (let hasCacheTokens = su_CacheReadInputTokens u > 0 \<or> su_CacheCreationInputTokens u > 0 in
           if su_InputTokens u \<le> 0 \<and> \<not> (su_InputExcludesCache u \<and> hasCacheTokens) then (estimatedInput, su_OutputTokens u, True)
           else (su_InputTokens u, su_OutputTokens u, False)))"

definition abliterateEstimatedRoute :: "PricedAuthorization option \<Rightarrow> string \<Rightarrow> string \<Rightarrow> bool" where
  "abliterateEstimatedRoute authp endpoint model = (case authp of
     None \<Rightarrow> False
   | Some auth \<Rightarrow>
     if endpoint = [] then False
     else if model \<notin> {''abliterate/abliterate-0.3-fast'', ''abliterate/abliterate-0.3-balanced'', ''abliterate/abliterate-0.3-clever'', ''abliterate/abliterated-research-0.1''} then False
     else (case find (\<lambda>c. rcand_EndpointID c = endpoint) (pau_RouteCandidates auth) of
         Some c \<Rightarrow> rcand_Model c = model \<and> rcand_Provider c = ''abliterate'' \<and> rcand_UsageType c = ''Credits''
       | None \<Rightarrow> au_EndpointID auth = endpoint \<and> au_Model auth = model \<and> pau_Provider auth = ''abliterate'' \<and> pau_UsageType auth = ''Credits''))"

definition unmetered :: "StreamUsage option \<Rightarrow> bool" where
  "unmetered usage = (case usage of None \<Rightarrow> True | Some u \<Rightarrow> su_InputTokens u = 0 \<and> su_OutputTokens u = 0 \<and> su_ReasoningTokens u = 0
     \<and> su_CacheReadInputTokens u = 0 \<and> su_CacheCreationInputTokens u = 0)"

definition bufferCap :: "PricedAuthorization \<Rightarrow> int" where
  "bufferCap auth =
     (let cap = pau_EstimatedCostMicrodollars auth in
      if pau_CapMicro auth > 0 \<and> (cap \<le> 0 \<or> pau_CapMicro auth < cap) then pau_CapMicro auth else cap)"

definition bufferFits :: "CandidatePrice \<Rightarrow> int \<Rightarrow> int \<Rightarrow> int \<Rightarrow> bool" where
  "bufferFits price cap input output = (case CostMicrodollars price input output 0 0 input of None \<Rightarrow> False | Some cost \<Rightarrow> cost \<le> cap)"

text \<open>The request is nil, or its \<open>MaxTokens\<close>.\<close>

definition bufferedMissingUsage :: "StreamResult \<Rightarrow> int \<Rightarrow> int \<Rightarrow> string \<Rightarrow> int option option \<Rightarrow> PricedAuthorization option \<Rightarrow> string \<Rightarrow> int \<times> int" where
  "bufferedMissingUsage result input output model req authp endpoint =
     (case (abliterateEstimatedRoute authp endpoint model, authp, req) of
        (True, Some auth, Some maxTokens) \<Rightarrow>
          if \<not> pau_CandidateCostReporting auth \<or> input \<le> 0 \<or> output \<le> 0
             \<or> input > MaxInt64 div 2 \<or> output > MaxInt64 div 2 \<or> input > MaxInt64 div 2 - output then (input, output)
          else if \<not> unmetered (sres_Usage result) then (input, output)
          else if TrimSpace (sres_Text result) = [] then (input, output)
          else if sres_FinishReason result \<notin> {''stop'', ''end_turn'', ''length'', ''max_tokens''} then (input, output)
          else
            (let cap = bufferCap auth; (price, ok) = priceFor (pau_CandidatePrices auth) endpoint in
             if \<not> ok \<or> cap \<le> 0 \<or> pau_ReceiptFeeBasisPoints auth \<noteq> 0 \<or> pau_CustomModel auth then (input, output)
             else if \<not> bufferFits price cap input output then (input, output)
             else
               (let maxOutput = (case maxTokens of Some m \<Rightarrow> if m > 0 then m else 512 | None \<Rightarrow> 512);
                    input' = largestBufferedCount input (i64_mul input 2) (\<lambda>n. bufferFits price cap n output);
                    output' = largestBufferedCount output (min (i64_mul output 2) maxOutput) (\<lambda>n. bufferFits price cap input' n)
                in (input', output')))
      | _ \<Rightarrow> (input, output))"

definition tokensForSettlement :: "StreamResult \<Rightarrow> int \<Rightarrow> int \<Rightarrow> string \<Rightarrow> int option option \<Rightarrow> PricedAuthorization option \<Rightarrow> string
    \<Rightarrow> int \<times> int \<times> bool" where
  "tokensForSettlement result estimatedInput estimatedOutput model req auth endpoint =
     (case realOrEstimatedTokens (sres_Usage result) estimatedInput estimatedOutput [model] of (input, output, estimated) \<Rightarrow>
      case bufferedMissingUsage result input output model req auth endpoint of (input', output') \<Rightarrow> (input', output', estimated))"

section \<open>The running cost of a stream\<close>

definition halfUpPerMillion :: "int \<Rightarrow> int \<Rightarrow> int" where
  "halfUpPerMillion tokens rate =
     (if tokens \<le> 0 \<or> rate \<le> 0 then 0 else i64_quot (i64_add (i64_mul tokens rate) 500000) 1000000)"

definition stageDUsageMicro :: "CandidatePrice \<Rightarrow> PriceRates \<Rightarrow> int \<Rightarrow> int \<Rightarrow> int \<Rightarrow> int \<Rightarrow> int" where
  "stageDUsageMicro price rates input output cached cacheCreation =
     (let uncached = max (i64_sub (i64_sub input cached) cacheCreation) 0;
          total = i64_add (i64_add (i64_add (i64_add (cand_RequestFeeMicro price)
              (halfUpPerMillion uncached (prate_Input rates)))
              (halfUpPerMillion output (prate_Output rates)))
              (halfUpPerMillion cached (prate_CachedInput rates)))
              (halfUpPerMillion cacheCreation (prate_CacheCreation rates));
          positive = (uncached > 0 \<and> prate_Input rates > 0) \<or> (output > 0 \<and> prate_Output rates > 0)
            \<or> (cached > 0 \<and> prate_CachedInput rates > 0) \<or> (cacheCreation > 0 \<and> prate_CacheCreation rates > 0)
      in if total = 0 \<and> positive then 1 else total)"

end
