(* ===== verification/StageD.thy ===== *)
theory StageD
  imports CandidateCost
begin

text \<open>
  Streams under a cap (\<open>cmd/enclave/stage_d.go\<close>, the heartbeat call of \<open>internal/trustedrouter/stage_d.go\<close>, and
  \<open>SemanticSlices\<close> with the slice hooks of \<open>internal/adapter/adapter.go\<close>). Output becomes visible to the client in slices. Before each, the controller
  reports the metered usage to the control plane when that is due, and refuses the slice when it would pass the cap;
  a ticker reports while nothing is written. The mutex of the controller makes every operation one step.

  The network is that of theory \<open>ControlClient\<close>; the clock is a function of the number of readings so far. A world also
  keeps the history of heartbeat calls with their outcomes. The first JSON value of a reply body is a
  parameter, as is the signer of the boot. \<open>cancel\<close> and \<open>closeProvider\<close> are given, and their calls are counted.
  \<open>terminalUsage\<close>, \<open>Disposition\<close> and logging are not modelled.
\<close>

section \<open>Slices\<close>

definition RuneStart :: "char \<Rightarrow> bool" where
  "RuneStart c \<longleftrightarrow> byte c < 128 \<or> 192 \<le> byte c"

fun backOff :: "string \<Rightarrow> nat \<Rightarrow> nat" where
  "backOff text 0 = 0"
| "backOff text (Suc n) = (if Suc n < length text \<and> \<not> RuneStart (text ! Suc n) then backOff text n else Suc n)"

definition sliceEnd :: "string \<Rightarrow> nat" where
  "sliceEnd text = (let e = backOff text (min (length text) 256) in if e = 0 then snd (decodeRune text) else e)"

lemma backOff_le: "backOff s n \<le> n"
  by (induction n) auto

lemma sliceEnd_bounds: "s \<noteq> [] \<Longrightarrow> 0 < sliceEnd s \<and> sliceEnd s \<le> length s"
  using decodeRune_size [of s] backOff_le [of s "min (length s) 256"] by (auto simp: sliceEnd_def Let_def)

function SemanticSlices :: "string \<Rightarrow> string list" where
  "SemanticSlices text = (if text = [] then [] else take (sliceEnd text) text # SemanticSlices (drop (sliceEnd text) text))"
  by auto
termination by (relation "measure length") (use sliceEnd_bounds in auto)

declare SemanticSlices.simps [simp del]

section \<open>Heartbeats\<close>

record HeartbeatUsage =
  hu_InputTokens :: int
  hu_OutputTokens :: int
  hu_CacheReadInputTokens :: int
  hu_CacheCreationInputTokens :: int
  hu_PriceTierInputTokens :: int
  hu_ReasoningTokens :: int

record HeartbeatRequest =
  hb_AuthorizationID :: string
  hb_Seq :: int
  hb_StartedAtMS :: int
  hb_SelectedEndpointID :: string
  hb_Usage :: HeartbeatUsage
  hb_ElapsedMS :: int
  hb_Stream :: bool

record HeartbeatResponse =
  hbr_Accepted :: bool
  hbr_Seq :: int
  hbr_ExpiresAtMS :: int
  hbr_CapMicro :: int
  hbr_RunningMicro :: int

datatype heartbeat_error = HeartbeatRejected string ControlPlaneError | HeartbeatUnsigned lease_error | HeartbeatFailed go_error

definition HeartbeatPath :: string where
  "HeartbeatPath = ''/internal/gateway/heartbeat''"

definition heartbeatRejectionReasons :: "string list" where
  "heartbeatRejectionReasons = [''unknown_authorization'', ''already_terminal'', ''out_of_cohort'', ''boot_not_accepted'', ''stale_seq'',
     ''endpoint_mismatch'', ''usage_regression'', ''usage_exceeds_cap'']"

definition marshalObject :: "(string \<times> string) list \<Rightarrow> string" where
  "marshalObject ms = ''{'' @ joinComma (map marshalMember ms) @ ''}''"

definition marshalHeartbeat :: "HeartbeatRequest \<Rightarrow> string" where
  "marshalHeartbeat r = marshalObject
     [(''authorization_id'', marshalText (hb_AuthorizationID r)), (''seq'', itoa (hb_Seq r)), (''started_at_ms'', itoa (hb_StartedAtMS r)),
      (''selected_endpoint_id'', marshalText (hb_SelectedEndpointID r)),
      (''usage'', let u = hb_Usage r in marshalObject
         [(''input_tokens'', itoa (hu_InputTokens u)), (''output_tokens'', itoa (hu_OutputTokens u)),
          (''cache_read_input_tokens'', itoa (hu_CacheReadInputTokens u)), (''cache_creation_input_tokens'', itoa (hu_CacheCreationInputTokens u)),
          (''price_tier_input_tokens'', itoa (hu_PriceTierInputTokens u)), (''reasoning_tokens'', itoa (hu_ReasoningTokens u))]),
      (''elapsed_ms'', itoa (hb_ElapsedMS r)), (''stream'', if hb_Stream r then ''true'' else ''false'')]"

definition responseDecoder :: "HeartbeatResponse decoder" where
  "responseDecoder = uStruct [(''accepted'', uBool hbr_Accepted_update), (''seq'', uInt hbr_Seq_update), (''expires_at_ms'', uInt hbr_ExpiresAtMS_update),
     (''cap_micro'', uInt hbr_CapMicro_update), (''running_micro'', uInt hbr_RunningMicro_update)]"

definition zeroResponse :: HeartbeatResponse where
  "zeroResponse = \<lparr>hbr_Accepted = False, hbr_Seq = 0, hbr_ExpiresAtMS = 0, hbr_CapMicro = 0, hbr_RunningMicro = 0\<rparr>"

record stage_env =
  sd_net :: net_env
  sd_client :: Client
  sd_context :: call_context
  sd_authorizeRetry :: retryPolicy
  sd_signer :: "DigestSigner option"
  sd_sha256 :: "string \<Rightarrow> string"
  sd_decodeValue :: "http_response \<Rightarrow> go_error + json"
  sd_now :: "nat \<Rightarrow> gotime"
  sd_auth :: PricedAuthorization

definition heartbeatReply :: "stage_env \<Rightarrow> http_response \<Rightarrow> go_error + HeartbeatResponse" where
  "heartbeatReply env resp = bindE (sd_decodeValue env resp) (\<lambda>j.
     case responseDecoder zeroResponse j of Some r \<Rightarrow> Inr r | None \<Rightarrow> Inl (errorf ''json: cannot unmarshal''))"

definition heartbeatRefusal :: "go_error \<Rightarrow> heartbeat_error" where
  "heartbeatRefusal e = (case errors_AsControl e of
     Some ce \<Rightarrow> if ce_Type ce = ''heartbeat_rejected'' \<and> ce_Reason ce \<in> set heartbeatRejectionReasons then HeartbeatRejected (ce_Reason ce) ce else HeartbeatFailed e
   | None \<Rightarrow> HeartbeatFailed e)"

definition heartbeatBytes :: "stage_env \<Rightarrow> string \<Rightarrow> net_state \<Rightarrow> (heartbeat_error + HeartbeatResponse) \<times> net_state" where
  "heartbeatBytes env body w =
     (if sd_signer env = None then (Inl (HeartbeatFailed (errorf ''trustedrouter: heartbeat boot signer is unavailable'')), w)
      else case SignAuthorize (sd_sha256 env) (sd_signer env) ''POST'' HeartbeatPath body of
          Inl e \<Rightarrow> (Inl (HeartbeatUnsigned e), w)
        | Inr bootAuth \<Rightarrow>
            (case postJSONBytesWithRetryFromEndpoint (sd_net env) (sd_client env) (sd_context env) HeartbeatPath body (heartbeatReply env) (sd_authorizeRetry env)
                    (pinnedControlPlaneEndpoint (authority_pin.truncate (sd_auth env))) (HeaderValue bootAuth) w of
               (_, Inl e, w') \<Rightarrow> (Inl (heartbeatRefusal e), w')
             | (_, Inr r, w') \<Rightarrow> (Inr r, w')))"

definition Heartbeat :: "stage_env \<Rightarrow> HeartbeatRequest \<Rightarrow> net_state \<Rightarrow> (heartbeat_error + HeartbeatResponse) \<times> net_state" where
  "Heartbeat env request w =
     (let authID = au_AuthorizationID (sd_auth env);
          request' = (if hb_AuthorizationID request = [] then request\<lparr>hb_AuthorizationID := authID\<rparr> else request) in
      if hb_AuthorizationID request \<noteq> [] \<and> hb_AuthorizationID request \<noteq> authID
      then (Inl (HeartbeatFailed (errorf ''trustedrouter: heartbeat authorization mismatch'')), w)
      else heartbeatBytes env (marshalHeartbeat request' @ [CHR 0x0a]) w)"

section \<open>The meter\<close>

record StreamDelta =
  dl_Type :: string
  dl_Index :: int
  dl_Text :: string
  dl_Signature :: string

record stageDMeter =
  mt_promptTokens :: int
  mt_semanticBytes :: int
  mt_reasoningBytes :: int
  mt_toolArgBytes :: int
  mt_cacheReadTokens :: int
  mt_cacheCreationTokens :: int
  mt_priceTierInputTokens :: int

definition meter_admit :: "StreamDelta \<Rightarrow> stageDMeter \<Rightarrow> stageDMeter" where
  "meter_admit delta m =
     (let size = int (length (dl_Text delta)); m1 = m\<lparr>mt_semanticBytes := i64_add (mt_semanticBytes m) size\<rparr> in
      if dl_Type delta = ''thinking_delta'' then m1\<lparr>mt_reasoningBytes := i64_add (mt_reasoningBytes m1) size\<rparr>
      else if dl_Type delta = ''input_json_delta'' then m1\<lparr>mt_toolArgBytes := i64_add (mt_toolArgBytes m1) size\<rparr>
      else m1)"

definition meter_outputTokens :: "stageDMeter \<Rightarrow> int" where
  "meter_outputTokens m = i64_quot (mt_semanticBytes m) 4"

definition meter_reasoningTokens :: "stageDMeter \<Rightarrow> int" where
  "meter_reasoningTokens m = i64_quot (mt_reasoningBytes m) 4"

definition heartbeatUsage :: "stageDMeter \<Rightarrow> HeartbeatUsage" where
  "heartbeatUsage m = \<lparr>hu_InputTokens = mt_promptTokens m, hu_OutputTokens = meter_outputTokens m, hu_CacheReadInputTokens = mt_cacheReadTokens m,
     hu_CacheCreationInputTokens = mt_cacheCreationTokens m, hu_PriceTierInputTokens = mt_priceTierInputTokens m, hu_ReasoningTokens = meter_reasoningTokens m\<rparr>"

section \<open>The controller\<close>

record stageDConfig =
  cf_usageHeartbeat :: bool
  cf_terminateAtCap :: bool
  cf_heartbeatBudget :: int
  cf_settleBeforeTerminal :: int

definition stageDHeartbeatInterval :: int where
  "stageDHeartbeatInterval = 10 * Second"

definition stageDHeartbeatOutputTokenDelta :: int where
  "stageDHeartbeatOutputTokenDelta = 256"

definition stageDStreamEligible :: "stageDConfig \<Rightarrow> PricedAuthorization option \<Rightarrow> bool option \<Rightarrow> string \<Rightarrow> bool" where
  "stageDStreamEligible config auth reqStream routeType =
     (case (auth, reqStream) of
        (Some a, Some stream) \<Rightarrow>
          if \<not> cf_usageHeartbeat config \<or> \<not> pau_StageDEligible a \<or> \<not> stream then False
          else routeType = ''chat.completions'' \<or> routeType = ''responses''
      | _ \<Rightarrow> False)"

record stageDController =
  ct_config :: stageDConfig
  ct_started :: gotime
  ct_endpointID :: string
  ct_meter :: stageDMeter
  ct_seq :: int
  ct_lastAccepted :: gotime
  ct_lastOutput :: int
  ct_capMicro :: int
  ct_price :: CandidatePrice
  ct_hasPrice :: bool
  ct_heartbeatLostReason :: string
  ct_heartbeatLost :: bool
  ct_sliceInFlight :: bool
  ct_ticking :: bool
  ct_closes :: nat

record ControlledTermination =
  tm_FinishReason :: string
  tm_TRFinishReason :: string

record stage_world =
  sw_net :: net_state
  sw_reads :: nat
  sw_calls :: "(HeartbeatRequest \<times> (heartbeat_error + HeartbeatResponse)) list"

definition time_Now :: "stage_env \<Rightarrow> stage_world \<Rightarrow> gotime \<times> stage_world" where
  "time_Now env w = (sd_now env (sw_reads w), w\<lparr>sw_reads := Suc (sw_reads w)\<rparr>)"

definition zeroTime :: gotime where
  "zeroTime = \<lparr>t_wall = - 62135596800 * Second, t_mono = None\<rparr>"

definition newStageDController :: "stage_env \<Rightarrow> stageDConfig \<Rightarrow> gotime \<Rightarrow> string \<Rightarrow> int \<Rightarrow> stageDController" where
  "newStageDController env config started endpointID promptTokens =
     (let (price, ok) = priceFor (pau_CandidatePrices (sd_auth env)) endpointID in
      \<lparr>ct_config = config, ct_started = started, ct_endpointID = endpointID,
       ct_meter = \<lparr>mt_promptTokens = promptTokens, mt_semanticBytes = 0, mt_reasoningBytes = 0, mt_toolArgBytes = 0, mt_cacheReadTokens = 0,
         mt_cacheCreationTokens = 0, mt_priceTierInputTokens = 0\<rparr>,
       ct_seq = 0, ct_lastAccepted = zeroTime, ct_lastOutput = 0, ct_capMicro = pau_CapMicro (sd_auth env), ct_price = price, ct_hasPrice = ok,
       ct_heartbeatLostReason = [], ct_heartbeatLost = False, ct_sliceInFlight = False, ct_ticking = False, ct_closes = 0\<rparr>)"

definition heartbeatFor :: "stage_env \<Rightarrow> stageDController \<Rightarrow> int \<Rightarrow> gotime \<Rightarrow> HeartbeatRequest" where
  "heartbeatFor env c seq now = \<lparr>hb_AuthorizationID = au_AuthorizationID (sd_auth env), hb_Seq = seq, hb_StartedAtMS = t_UnixMilli (ct_started c),
     hb_SelectedEndpointID = ct_endpointID c, hb_Usage = heartbeatUsage (ct_meter c),
     hb_ElapsedMS = max (i64_quot (t_Sub now (ct_started c)) Millisecond) 0, hb_Stream = True\<rparr>"

definition acknowledged :: "int \<Rightarrow> heartbeat_error + HeartbeatResponse \<Rightarrow> bool" where
  "acknowledged seq out = (case out of Inl _ \<Rightarrow> False | Inr r \<Rightarrow> hbr_Accepted r \<and> hbr_Seq r = seq)"

text \<open>The first result is the error.\<close>

definition sendHeartbeatLocked :: "stage_env \<Rightarrow> int \<Rightarrow> stageDController \<Rightarrow> stage_world \<Rightarrow> heartbeat_error option \<times> stageDController \<times> stage_world" where
  "sendHeartbeatLocked env seq c w =
     (case time_Now env w of (now, w1) \<Rightarrow>
      let request = heartbeatFor env c seq now in
      case Heartbeat env request (sw_net w1) of (out, net) \<Rightarrow>
      let w2 = w1\<lparr>sw_net := net, sw_calls := sw_calls w1 @ [(request, out)]\<rparr> in
      case out of
        Inl e \<Rightarrow> (Some e, (case e of HeartbeatRejected reason _ \<Rightarrow> c\<lparr>ct_heartbeatLostReason := reason\<rparr> | _ \<Rightarrow> c), w2)
      | Inr r \<Rightarrow>
          if \<not> acknowledged seq out then (Some (HeartbeatFailed (errorf ''stage_d: invalid heartbeat acknowledgement'')), c, w2)
          else (case time_Now env w2 of (now, w3) \<Rightarrow>
            (None, c\<lparr>ct_seq := seq, ct_lastAccepted := now, ct_lastOutput := meter_outputTokens (ct_meter c),
                     ct_capMicro := (if hbr_CapMicro r > 0 \<and> ct_capMicro c \<le> 0 then hbr_CapMicro r else ct_capMicro c)\<rparr>, w3)))"

definition markHeartbeatLostLocked :: "stageDController \<Rightarrow> stageDController" where
  "markHeartbeatLostLocked c = (if ct_heartbeatLost c then c else c\<lparr>ct_heartbeatLost := True, ct_closes := Suc (ct_closes c)\<rparr>)"

definition heartbeatLostTermination :: ControlledTermination where
  "heartbeatLostTermination = \<lparr>tm_FinishReason = ''stop'', tm_TRFinishReason = ''heartbeat_lost''\<rparr>"

definition capTermination :: ControlledTermination where
  "capTermination = \<lparr>tm_FinishReason = ''length'', tm_TRFinishReason = ''cap_reached''\<rparr>"

text \<open>A heartbeat that is due; whether one failed.\<close>

definition beat :: "stage_env \<Rightarrow> bool \<Rightarrow> stageDController \<Rightarrow> stage_world \<Rightarrow> bool \<times> stageDController \<times> stage_world" where
  "beat env due c w =
     (if \<not> due then (False, c, w)
      else case sendHeartbeatLocked env (i64_add (ct_seq c) 1) c w of
          (None, c', w') \<Rightarrow> (False, c', w')
        | (Some _, c', w') \<Rightarrow> (True, markHeartbeatLostLocked c', w'))"

definition preHeader :: "stage_env \<Rightarrow> stageDController \<Rightarrow> stage_world \<Rightarrow> heartbeat_error option \<times> stageDController \<times> stage_world" where
  "preHeader env c w =
     (case sendHeartbeatLocked env 1 c w of
        (Some e, c', w') \<Rightarrow> (Some e, c', w')
      | (None, c', w') \<Rightarrow>
          if cf_terminateAtCap (ct_config c') \<and> (\<not> ct_hasPrice c' \<or> ct_capMicro c' \<le> 0 \<or> cand_Rounding (ct_price c') \<noteq> ''half_up_per_million'')
          then (Some (HeartbeatFailed (errorf (''stage_d: cap enforcement pricing unavailable for endpoint '' @ ct_endpointID c'))), c', w')
          else (None, c'\<lparr>ct_ticking := True\<rparr>, w'))"

text \<open>One firing of the ticker (\<open>startCadenceLocked\<close>).\<close>

definition cadenceTick :: "stage_env \<Rightarrow> stageDController \<Rightarrow> stage_world \<Rightarrow> stageDController \<times> stage_world" where
  "cadenceTick env c w =
     (if ct_heartbeatLost c \<or> ct_sliceInFlight c then (c, w)
      else case time_Now env w of (now, w1) \<Rightarrow> snd (beat env (t_Sub now (ct_lastAccepted c) \<ge> stageDHeartbeatInterval) c w1))"

definition stopCadence :: "stageDController \<Rightarrow> stageDController" where
  "stopCadence c = c\<lparr>ct_ticking := False\<rparr>"

definition capTierPrompt :: "stageDMeter \<Rightarrow> int" where
  "capTierPrompt m = (if mt_priceTierInputTokens m > 0 then mt_priceTierInputTokens m else mt_promptTokens m)"

definition meterMicro :: "CandidatePrice \<Rightarrow> stageDMeter \<Rightarrow> int" where
  "meterMicro p m = stageDUsageMicro p (RatesForPrompt p (capTierPrompt m)) (mt_promptTokens m) (meter_outputTokens m) (mt_cacheReadTokens m) (mt_cacheCreationTokens m)"

definition wouldExceedCapLocked :: "stageDController \<Rightarrow> string \<Rightarrow> bool" where
  "wouldExceedCapLocked c text =
     (if ct_capMicro c \<le> 0 \<or> \<not> ct_hasPrice c then False
      else meterMicro (ct_price c) ((ct_meter c)\<lparr>mt_semanticBytes := i64_add (mt_semanticBytes (ct_meter c)) (int (length text))\<rparr>) > ct_capMicro c)"

definition beforeSlice :: "stage_env \<Rightarrow> StreamDelta \<Rightarrow> stageDController \<Rightarrow> stage_world \<Rightarrow> ControlledTermination option \<times> stageDController \<times> stage_world" where
  "beforeSlice env delta c w =
     (case time_Now env w of (now, w1) \<Rightarrow>
      if ct_heartbeatLost c then (Some heartbeatLostTermination, c, w1)
      else case beat env (t_Sub now (ct_lastAccepted c) \<ge> stageDHeartbeatInterval
                  \<or> i64_sub (meter_outputTokens (ct_meter c)) (ct_lastOutput c) \<ge> stageDHeartbeatOutputTokenDelta) c w1 of
          (True, c', w') \<Rightarrow> (Some heartbeatLostTermination, c', w')
        | (False, c', w') \<Rightarrow>
            if cf_terminateAtCap (ct_config c') \<and> wouldExceedCapLocked c' (dl_Text delta)
            then (Some capTermination, c'\<lparr>ct_closes := Suc (ct_closes c')\<rparr>, w')
            else (None, c'\<lparr>ct_sliceInFlight := True\<rparr>, w'))"

definition stage_termination :: "stageDController \<Rightarrow> ControlledTermination option" where
  "stage_termination c = (if \<not> ct_heartbeatLost c then None else Some heartbeatLostTermination)"

text \<open>The clock is read only when the heartbeat is not lost.\<close>

definition afterSlice :: "stage_env \<Rightarrow> StreamDelta \<Rightarrow> stageDController \<Rightarrow> stage_world \<Rightarrow> ControlledTermination option \<times> stageDController \<times> stage_world" where
  "afterSlice env delta c0 w =
     (let c = c0\<lparr>ct_sliceInFlight := False, ct_meter := meter_admit delta (ct_meter c0)\<rparr> in
      if ct_heartbeatLost c then (None, c, w)
      else case time_Now env w of (now, w1) \<Rightarrow>
        case beat env (t_Sub now (ct_lastAccepted c) \<ge> stageDHeartbeatInterval
                  \<or> i64_sub (meter_outputTokens (ct_meter c)) (ct_lastOutput c) \<ge> stageDHeartbeatOutputTokenDelta) c w1 of
          (True, c', w') \<Rightarrow> (Some heartbeatLostTermination, c', w')
        | (False, c', w') \<Rightarrow> (None, c', w'))"

definition observeUsage :: "StreamUsage option \<Rightarrow> stageDController \<Rightarrow> stageDController" where
  "observeUsage usage c = (case usage of
     None \<Rightarrow> c
   | Some u \<Rightarrow>
     (let m = ct_meter c;
          m1 = (if su_InputTokens u > 0 \<or> su_CacheReadInputTokens u > 0 \<or> su_CacheCreationInputTokens u > 0 then
            (let providerPromptTokens = (if su_InputExcludesCache u
                   then i64_add (su_InputTokens u) (i64_add (su_CacheReadInputTokens u) (su_CacheCreationInputTokens u)) else su_InputTokens u) in
             m\<lparr>mt_promptTokens := max (mt_promptTokens m) providerPromptTokens, mt_cacheReadTokens := max (mt_cacheReadTokens m) (su_CacheReadInputTokens u),
               mt_cacheCreationTokens := max (mt_cacheCreationTokens m) (su_CacheCreationInputTokens u)\<rparr>) else m);
          m2 = (if su_PriceTierInputTokens u > 0 then m1\<lparr>mt_priceTierInputTokens := max (mt_priceTierInputTokens m1) (su_PriceTierInputTokens u)\<rparr> else m1)
      in c\<lparr>ct_meter := m2\<rparr>))"

section \<open>Streams\<close>

text \<open>What a stream does with its controller (\<open>emitSemantic\<close>, and the loop around it): slices in turn, each admitted, written and then metered;
  usage is observed between slices; the ticker fires at any time until it is stopped.\<close>

datatype stage_phase = Idle | Writing StreamDelta | Stopped ControlledTermination | WriteFailed

record stage_stream =
  st_ctl :: stageDController
  st_world :: stage_world
  st_phase :: stage_phase
  st_visible :: "StreamDelta list"

inductive stage_step :: "stage_env \<Rightarrow> stage_stream \<Rightarrow> stage_stream \<Rightarrow> bool" for env where
  admit: "st_phase s = Idle \<Longrightarrow> beforeSlice env d (st_ctl s) (st_world s) = (None, c, w)
    \<Longrightarrow> stage_step env s (s\<lparr>st_ctl := c, st_world := w, st_phase := Writing d\<rparr>)"
| refuse: "st_phase s = Idle \<Longrightarrow> beforeSlice env d (st_ctl s) (st_world s) = (Some t, c, w)
    \<Longrightarrow> stage_step env s (s\<lparr>st_ctl := c, st_world := w, st_phase := Stopped t\<rparr>)"
| written: "st_phase s = Writing d \<Longrightarrow> afterSlice env d (st_ctl s) (st_world s) = (None, c, w)
    \<Longrightarrow> stage_step env s (s\<lparr>st_ctl := c, st_world := w, st_phase := Idle, st_visible := st_visible s @ [d]\<rparr>)"
| written_stop: "st_phase s = Writing d \<Longrightarrow> afterSlice env d (st_ctl s) (st_world s) = (Some t, c, w)
    \<Longrightarrow> stage_step env s (s\<lparr>st_ctl := c, st_world := w, st_phase := Stopped t, st_visible := st_visible s @ [d]\<rparr>)"
| write_error: "st_phase s = Writing d \<Longrightarrow> stage_step env s (s\<lparr>st_phase := WriteFailed\<rparr>)"
| observe: "st_phase s = Idle \<Longrightarrow> stage_step env s (s\<lparr>st_ctl := observeUsage u (st_ctl s)\<rparr>)"
| terminated: "st_phase s = Idle \<Longrightarrow> stage_termination (st_ctl s) = Some t \<Longrightarrow> stage_step env s (s\<lparr>st_phase := Stopped t\<rparr>)"
| tick: "ct_ticking (st_ctl s) \<Longrightarrow> cadenceTick env (st_ctl s) (st_world s) = (c, w) \<Longrightarrow> stage_step env s (s\<lparr>st_ctl := c, st_world := w\<rparr>)"
| stop: "stage_step env s (s\<lparr>st_ctl := stopCadence (st_ctl s)\<rparr>)"

inductive stage_reach :: "stage_env \<Rightarrow> stageDController \<Rightarrow> stage_world \<Rightarrow> stage_stream \<Rightarrow> bool" for env c0 w0 where
  start: "preHeader env c0 w0 = (None, c, w) \<Longrightarrow> stage_reach env c0 w0 \<lparr>st_ctl = c, st_world = w, st_phase = Idle, st_visible = []\<rparr>"
| run: "stage_reach env c0 w0 s \<Longrightarrow> stage_step env s s' \<Longrightarrow> stage_reach env c0 w0 s'"

end
