(* ===== verification/CandidateProps.thy ===== *)
theory CandidateProps
  imports CandidateCost BillingProps
begin

text \<open>
  The three programs that price a usage agree: what a client is told (\<open>candidateSettlement\<close>) is what \<open>Evaluate\<close> charges for the same
  endpoint, and the running cost of a stream is the reported cost wherever \<open>int64\<close> holds it and a tier contains the prompt.
  A buffered estimate stays within the amount that was reserved.
\<close>

section \<open>Big integers\<close>

lemma big_Quo_nonneg: "0 \<le> a \<Longrightarrow> 0 < b \<Longrightarrow> big_Quo a b = a div b"
  by (cases "a = 0") (auto simp: big_Quo_def)

abbreviation priced :: "int \<times> int \<Rightarrow> bool" where
  "priced c \<equiv> 0 < fst c \<and> 0 < snd c"

lemma costLoop_exact:
  assumes "list_all (\<lambda>c. 0 \<le> fst c) cs"
  shows "costLoop cs cost positive =
    (if list_all (\<lambda>c. 0 \<le> snd c) cs then Some (cost + sum_list (map halfUp cs), positive \<or> list_ex priced cs) else None)"
  using assms
  by (induction cs cost positive rule: costLoop.induct) (auto simp: halfUp_def big_Quo_nonneg not_less)

definition exactCost :: "int \<Rightarrow> (int \<times> int) list \<Rightarrow> int" where
  "exactCost fee cs = (let cost = fee + sum_list (map halfUp cs) in if cost = 0 \<and> list_ex priced cs then 1 else cost)"

definition costParts :: "PriceRates \<Rightarrow> int \<Rightarrow> int \<Rightarrow> int \<Rightarrow> int \<Rightarrow> (int \<times> int) list" where
  "costParts r input output cached creation =
     [(input, prate_Input r), (output, prate_Output r), (cached, prate_CachedInput r), (creation, prate_CacheCreation r)]"

definition wf_prates :: "PriceRates \<Rightarrow> bool" where
  "wf_prates r \<longleftrightarrow> 0 \<le> prate_Input r \<and> 0 \<le> prate_Output r \<and> 0 \<le> prate_CachedInput r \<and> 0 \<le> prate_CacheCreation r"

definition usablePrice :: "CandidatePrice \<Rightarrow> bool" where
  "usablePrice p \<longleftrightarrow> \<not> cand_incompleteSnapshot p \<and> cand_Rounding p = ''half_up_per_million'' \<and> cand_PriceHistoryVersion p = 1 \<and> 0 \<le> cand_RequestFeeMicro p"

text \<open>\<open>CostMicrodollars\<close> in closed form.\<close>

lemma CostMicrodollars_Some_iff:
  "CostMicrodollars p input output cached creation tierInput = Some cost \<longleftrightarrow>
    usablePrice p \<and> 0 \<le> input \<and> 0 \<le> output \<and> 0 \<le> cached \<and> 0 \<le> creation
    \<and> (let r = lastTierRates (tierPrompt input cached creation tierInput) (cand_Rates p) (cand_Tiers p) in
       wf_prates r \<and> cost = exactCost (cand_RequestFeeMicro p) (costParts r input output cached creation) \<and> in_i64 cost)"
proof (cases "usablePrice p \<and> 0 \<le> input \<and> 0 \<le> output \<and> 0 \<le> cached \<and> 0 \<le> creation")
  case False
  then show ?thesis by (auto simp: CostMicrodollars_def usablePrice_def)
next
  case True
  let ?r = "lastTierRates (tierPrompt input cached creation tierInput) (cand_Rates p) (cand_Tiers p)"
  let ?cs = "costParts ?r input output cached creation"
  have l: "costLoop ?cs fee pos = (if wf_prates ?r then Some (fee + sum_list (map halfUp ?cs), pos \<or> list_ex priced ?cs) else None)" for fee pos
    using True costLoop_exact [of ?cs fee pos] by (auto simp: costParts_def wf_prates_def)
  have "0 \<le> sum_list (map halfUp ?cs)" if "wf_prates ?r"
    using that True by (simp add: costParts_def wf_prates_def halfUp_def pos_imp_zdiv_nonneg_iff)
  then have fee: "exactCost (cand_RequestFeeMicro p) ?cs = (let c = cand_RequestFeeMicro p + sum_list (map halfUp ?cs) in
      if (cand_RequestFeeMicro p > 0 \<or> list_ex priced ?cs) \<and> c = 0 then 1 else c)" if "wf_prates ?r"
    using that True by (auto simp: exactCost_def Let_def usablePrice_def)
  have "CostMicrodollars p input output cached creation tierInput =
     (case costLoop ?cs (cand_RequestFeeMicro p) (cand_RequestFeeMicro p > 0) of None \<Rightarrow> None
      | Some (cost, positive) \<Rightarrow> (let cost = (if positive \<and> cost = 0 then 1 else cost) in if in_i64 cost then Some cost else None))"
    using True by (simp add: CostMicrodollars_def usablePrice_def Let_def costParts_def)
  then show ?thesis using True fee by (cases "wf_prates ?r") (auto simp: l Let_def)
qed

section \<open>The same price, charged\<close>

text \<open>The price of an endpoint as the control plane sends it beside its billing snapshot.\<close>

definition ratesOf :: "Rates \<Rightarrow> PriceRates" where
  "ratesOf r = \<lparr>prate_Input = rt_Input r, prate_Output = rt_Output r, prate_CachedInput = rt_CachedInput r, prate_CacheCreation = rt_CacheCreation r\<rparr>"

definition priceOf :: "BillCandidate \<Rightarrow> CandidatePrice" where
  "priceOf c = \<lparr>cand_incompleteSnapshot = False, cand_EndpointID = bc_EndpointID c, cand_PriceHistoryVersion = 1, cand_Rates = ratesOf (bc_Rates c),
     cand_Tiers = map (\<lambda>t. \<lparr>ptier_MaxPromptTokens = ti_MaxPromptTokens t, ptier_Rates = ratesOf (ti_Rates t)\<rparr>) (tiersOf c),
     cand_RequestFeeMicro = bc_RequestFeeMicro c, cand_Rounding = ''half_up_per_million''\<rparr>"

lemma lastTierRates_tierRates:
  "ts \<noteq> [] \<Longrightarrow> lastTierRates prompt r (map (\<lambda>t. \<lparr>ptier_MaxPromptTokens = ti_MaxPromptTokens t, ptier_Rates = ratesOf (ti_Rates t)\<rparr>) ts)
     = ratesOf (tierRates prompt (ti_Rates (last ts)) ts)"
  by (induction ts arbitrary: r) (auto simp: contains_def split: option.split)

lemma priceOf_rates: "lastTierRates prompt (cand_Rates (priceOf c)) (cand_Tiers (priceOf c)) = ratesOf (selectRates c prompt)"
  using lastTierRates_tierRates [of "tiersOf c" prompt] by (cases "tiersOf c = []") (simp_all add: priceOf_def selectRates_def Let_def)

lemma exactCost_charge:
  assumes "bc_RequestFeeMicro c = 0"
  shows "exactCost 0 (costParts (ratesOf (selectRates c (nu_TotalPromptTokens u))) (nu_UncachedInputTokens u) (nu_OutputTokens u) (nu_CacheReadTokens u)
      (nu_CacheCreationTokens u)) = exactCharge c u"
  by (auto simp: exactCost_def exactCharge_def components_def costParts_def ratesOf_def Let_def)

lemma reported_cost_charged:
  assumes "billing_laws env" "wf_snapshot d" "Evaluate env (Some d) ep raw obs = Inr ev" "candidate (Some d) ep = Inr c"
  shows "CostMicrodollars (priceOf c) (nu_UncachedInputTokens (ev_Usage ev)) (nu_OutputTokens (ev_Usage ev)) (nu_CacheReadTokens (ev_Usage ev))
     (nu_CacheCreationTokens (ev_Usage ev)) 0 = Some (ev_ChargeMicro ev)"
proof -
  let ?u = "ev_Usage ev"
  obtain c' where c': "candidate (Some d) ep = Inr c'" "valid_raw raw" "exactUsage c' raw = Inr ?u"
    "charge_fits c' ?u" "ev_ChargeMicro ev = exactCharge c' ?u" "wf_candidate c'"
    using assms(1-3) by (rule Evaluate_SomeD)
  then have c: "c' = c" using assms(4) by simp
  note v = exactUsage_valid [OF c'(2, 3)]
  have rates: "wf_rates (selectRates c (nu_TotalPromptTokens ?u))" using selectRates_wf c'(6) c by simp
  have fee: "bc_RequestFeeMicro c = 0" using wf_candidate_fee c'(6) c by simp
  have tp: "tierPrompt (nu_UncachedInputTokens ?u) (nu_CacheReadTokens ?u) (nu_CacheCreationTokens ?u) 0 = nu_TotalPromptTokens ?u"
    using v by (simp add: tierPrompt_def valid_usage_def)
  have "in_i64 (exactCharge c ?u)"
  proof -
    have "0 \<le> sum_list (map halfUp (components ?u (selectRates c (nu_TotalPromptTokens ?u))))"
      by (rule sum_halfUp_nonneg [OF components_amounts [OF v rates]])
    then show ?thesis using c'(4) c by (auto simp: exactCharge_def charge_fits_def Let_def i64_defs)
  qed
  then show ?thesis
    unfolding CostMicrodollars_Some_iff
    using v rates fee exactCost_charge [OF fee, of ?u] c'(5) c priceOf_rates [of "nu_TotalPromptTokens ?u" c]
    by (simp add: tp Let_def wf_prates_def ratesOf_def wf_rates_def amount_def valid_usage_def usablePrice_def priceOf_def)
qed

text \<open>The prompt a client is told about is normalised as the one that is charged.\<close>

lemma parsed_provider:
  assumes "ParseSnapshot env raw = Inr d" "candidate (Some d) ep = Inr c"
  shows "bc_Provider c \<in> {''openai'', ''anthropic''}"
proof -
  obtain v where v: "d = snapshot_of v" "conforms snapshot_type noTag v"
    using assms(1) parseModel_conforms [OF _ snapshot_wf_type] by (auto simp: ParseSnapshot_def split: sum.splits)
  obtain vs where vs: "asSlice (fld ''candidates'' v) = Some vs" "\<forall>x \<in> set vs. conforms Candidate_type noTag x"
    using conforms_asSlice [OF conforms_fld [OF v(2) [unfolded snapshot_type_def], of "''candidates''"]] by auto
  have "c \<in> set (candidatesOf d)" using assms(2) by (auto simp: candidate_def find_Some_iff split: option.splits)
  then obtain x where x: "x \<in> set vs" "c = Candidate_of x" using vs(1) v(1) by (auto simp: candidatesOf_def snapshot_of_def)
  have "conforms GString (literalTag [''openai'', ''anthropic'']) (fld ''provider'' x)"
    using conforms_fld [OF vs(2) [rule_format, OF x(1), unfolded Candidate_type_def], of "''provider''"] by simp
  then show ?thesis using x(2) by (auto simp: Candidate_of_def tag_defs string_ok_def)
qed

definition rawUsageOf :: "Usage \<Rightarrow> RawUsage" where
  "rawUsageOf u = \<lparr>ru_InputTokens = us_InputTokens u, ru_OutputTokens = us_OutputTokens u, ru_CacheReadTokens = us_CacheReadInputTokens u,
     ru_CacheCreationTokens = us_CacheCreationInputTokens u, ru_ReasoningTokens = us_ReasoningTokens u\<rparr>"

lemma exactUsage_same:
  "exactUsage c (rawUsageOf u) = Inr nu \<Longrightarrow> nu_OutputTokens nu = us_OutputTokens u \<and> nu_CacheReadTokens nu = us_CacheReadInputTokens u
     \<and> nu_CacheCreationTokens nu = us_CacheCreationInputTokens u"
  by (auto simp: exactUsage_def rawUsageOf_def Let_def split: if_splits)

definition uncachedInput :: "string \<Rightarrow> Usage \<Rightarrow> int" where
  "uncachedInput provider u = (if provider = ''anthropic'' then us_InputTokens u
     else (let i = i64_sub (us_InputTokens u) (min (us_InputTokens u) (us_CacheReadInputTokens u))
           in i64_sub i (min i (us_CacheCreationInputTokens u))))"

lemma uncachedInput_exact:
  assumes "valid_raw (rawUsageOf u)" "exactUsage c (rawUsageOf u) = Inr nu" "semCandidate c = Inr ()"
  shows "uncachedInput (bc_Provider c) u = nu_UncachedInputTokens nu"
proof -
  have a: "0 \<le> us_InputTokens u" "us_InputTokens u \<le> MaxInt64" "0 \<le> us_CacheReadInputTokens u" "0 \<le> us_CacheCreationInputTokens u"
    using assms(1) by (auto simp: valid_raw_def rawUsageOf_def amount_def)
  have conv: "bc_PromptConvention c = ''includes_cache'' \<longleftrightarrow> bc_Provider c \<noteq> ''anthropic''"
    using assms(3) by (auto simp: semCandidate_def Let_def split: if_splits)
  show ?thesis
  proof (cases "bc_Provider c = ''anthropic''")
    case True
    then show ?thesis using assms(2) conv by (auto simp: uncachedInput_def exactUsage_def rawUsageOf_def Let_def split: if_splits)
  next
    case False
    then have le: "us_CacheReadInputTokens u + us_CacheCreationInputTokens u \<le> us_InputTokens u"
      and nu: "nu_UncachedInputTokens nu = us_InputTokens u - (us_CacheReadInputTokens u + us_CacheCreationInputTokens u)"
      using assms(2) conv by (auto simp: exactUsage_def rawUsageOf_def Let_def split: if_splits)
    have "i64_sub (us_InputTokens u) (us_CacheReadInputTokens u) = us_InputTokens u - us_CacheReadInputTokens u"
      using a le by (intro i64_sub_exact) (simp add: i64_defs)
    moreover have "i64_sub (us_InputTokens u - us_CacheReadInputTokens u) (us_CacheCreationInputTokens u) = nu_UncachedInputTokens nu"
      using a le nu by (subst i64_sub_exact) (simp_all add: i64_defs)
    ultimately show ?thesis using False le a by (simp add: uncachedInput_def Let_def min_absorb2)
  qed
qed

text \<open>When a cost is reported that the reply did not carry.\<close>

definition openReply :: "SettleResult option \<Rightarrow> bool" where
  "openReply s = (case s of None \<Rightarrow> True
   | Some r \<Rightarrow> \<not> sr_AlreadySettled r \<and> \<not> sr_Settled r \<and> sr_Disposition r = [] \<and> (sr_FinalizationOutcome r = [] \<or> sr_FinalizationOutcome r = ''pending''))"

definition reportable :: "PricedAuthorization \<Rightarrow> Usage \<Rightarrow> bool" where
  "reportable auth u \<longleftrightarrow> pau_StageDEligible auth \<and> pau_CandidateCostReporting auth
     \<and> us_FinishReason u \<noteq> ''heartbeat_lost'' \<and> us_AdditionalCostMicrodollars u = 0
     \<and> us_RouteType u \<in> {''chat.completions'', ''responses'', ''messages''} \<and> us_SelectedEndpoint u \<noteq> []
     \<and> (case servedBy auth (us_SelectedEndpoint u) of (provider, model, usageType) \<Rightarrow>
          provider \<noteq> [] \<and> model = us_SelectedModel u \<and> foldName usageType = foldName ''Credits'')"

lemma candidateSettlement_eq:
  assumes "0 \<le> us_InputTokens u" "servedBy auth (us_SelectedEndpoint u) = (provider, model, usageType)" "provider \<noteq> ''sakana''"
  shows "candidateSettlement s (Some auth) u err =
    (if rejectedForGood err \<or> \<not> openReply s \<or> \<not> reportable auth u then s
     else case CostMicrodollars (fst (priceFor (pau_CandidatePrices auth) (us_SelectedEndpoint u))) (uncachedInput provider u) (us_OutputTokens u)
            (us_CacheReadInputTokens u) (us_CacheCreationInputTokens u) 0 of
          None \<Rightarrow> s
        | Some cost \<Rightarrow> Some ((case s of None \<Rightarrow> zeroResult | Some r \<Rightarrow> r)\<lparr>sr_CostMicrodollars := cost, sr_CostMicrodollarsKnown := True\<rparr>))"
proof -
  let ?A = "case s of None \<Rightarrow> False | Some r \<Rightarrow> sr_Disposition r = ''intent_durable''"
  let ?B = "case s of None \<Rightarrow> False | Some s \<Rightarrow> sr_AlreadySettled s \<or> sr_Settled s \<or> (sr_Disposition s \<noteq> [] \<and> sr_Disposition s \<noteq> ''intent_durable'')
             \<or> (sr_FinalizationOutcome s \<noteq> [] \<and> sr_FinalizationOutcome s \<noteq> ''pending'')"
  have op: "openReply s \<longleftrightarrow> \<not> ?A \<and> \<not> ?B" by (cases s) (auto simp: openReply_def)
  consider "rejectedForGood err" | "\<not> rejectedForGood err" "?A \<or> ?B" | "\<not> rejectedForGood err" "\<not> ?A" "\<not> ?B" "\<not> reportable auth u"
    | "\<not> rejectedForGood err" "\<not> ?A" "\<not> ?B" "reportable auth u" by blast
  then show ?thesis
  proof cases
    case 1
    then show ?thesis by (simp add: candidateSettlement_def)
  next
    case 2
    then have "candidateSettlement s (Some auth) u err = s" by (cases ?A) (simp_all add: candidateSettlement_def)
    then show ?thesis using 2 op by (simp add: if_splits)
  next
    case 3
    then have "candidateSettlement s (Some auth) u err = s"
      using assms by (auto simp: candidateSettlement_def reportable_def)
    then show ?thesis using 3 by simp
  next
    case 4
    then show ?thesis using assms op by (simp add: candidateSettlement_def reportable_def uncachedInput_def Let_def)
  qed
qed

text \<open>(C35) A client is told what it is charged. Let an endpoint's price in an authorization be that of its candidate in the parsed
  billing snapshot. When the reply to a settlement carries no cost, is not final and was not refused, the cost that is reported
  for a reportable usage is exactly the amount \<open>Evaluate\<close> charges for that usage; in every other case the reply is passed on as it is.\<close>
theorem reported_is_charged:
  assumes "billing_laws env" "ParseSnapshot env text = Inr d" "candidate (Some d) (us_SelectedEndpoint u) = Inr c"
    "Evaluate env (Some d) (us_SelectedEndpoint u) (rawUsageOf u) obs = Inr ev"
    "fst (priceFor (pau_CandidatePrices auth) (us_SelectedEndpoint u)) = priceOf c"
    "fst (servedBy auth (us_SelectedEndpoint u)) = bc_Provider c"
  shows "reportedSettlement s (Some auth) u err =
    (if HasCostPtr s \<or> rejectedForGood err \<or> \<not> openReply s \<or> \<not> reportable auth u then s
     else Some ((case s of None \<Rightarrow> zeroResult | Some r \<Rightarrow> r)\<lparr>sr_CostMicrodollars := ev_ChargeMicro ev, sr_CostMicrodollarsKnown := True\<rparr>))"
proof -
  let ?ep = "us_SelectedEndpoint u" and ?nu = "ev_Usage ev"
  note wf = ParseSnapshot_wf [OF assms(2)]
  obtain c' where c': "candidate (Some d) ?ep = Inr c'" "valid_raw (rawUsageOf u)" "exactUsage c' (rawUsageOf u) = Inr ?nu" "wf_candidate c'"
    using Evaluate_SomeD [OF assms(1) wf assms(4)] by metis
  then have c: "c' = c" using assms(3) by simp
  obtain model usageType where sb: "servedBy auth ?ep = (bc_Provider c, model, usageType)" using assms(6) by (metis prod.collapse)
  have unc: "uncachedInput (bc_Provider c) u = nu_UncachedInputTokens ?nu"
    using uncachedInput_exact c'(2-4) c by (auto simp: wf_candidate_def)
  have same: "nu_OutputTokens ?nu = us_OutputTokens u" "nu_CacheReadTokens ?nu = us_CacheReadInputTokens u"
    "nu_CacheCreationTokens ?nu = us_CacheCreationInputTokens u"
    using exactUsage_same [OF c'(3)] by auto
  have "0 \<le> us_InputTokens u" using c'(2) by (simp add: valid_raw_def rawUsageOf_def amount_def)
  moreover have "bc_Provider c \<noteq> ''sakana''" using parsed_provider [OF assms(2, 3)] by auto
  ultimately show ?thesis
    using candidateSettlement_eq [OF _ sb] reported_cost_charged [OF assms(1) wf assms(4, 3)]
    by (simp add: reportedSettlement_def assms(5) unc same)
qed

definition exampleAuth :: PricedAuthorization where
  "exampleAuth = \<lparr>ap_ControlPlaneEndpoint = 0, ap_ControlPlaneEndpointSet = True, au_AuthorizationID = ''a1'', au_Model = ''openai/m'', au_EndpointID = ''e1'',
     au_RouteType = [], au_cacheAffinityKey = [], au_cacheAffinityExplicit = False, au_SettlementStatusURL = [], pau_Provider = ''openai'',
     pau_UsageType = ''credits'', pau_RouteCandidates = [], pau_StageDEligible = True, pau_CandidateCostReporting = True,
     pau_CandidatePrices = [priceOf exampleBillCandidate], pau_CapMicro = 0, pau_EstimatedCostMicrodollars = 0, pau_ReceiptFeeBasisPoints = 0, pau_CustomModel = False\<rparr>"

definition exampleReportUsage :: Usage where
  "exampleReportUsage = \<lparr>us_RequestID = ''q1'', us_InputTokens = 2000, us_OutputTokens = 10, us_ElapsedSeconds = FFinite 1, us_FirstTokenSeconds = FFinite 0,
     us_UsageEstimated = False, us_ReasoningTokens = 4, us_PriceTierInputTokens = 0, us_FinishReason = ''stop'', us_Streamed = True, us_RouteType = ''responses'',
     us_SelectedModel = ''openai/m'', us_SelectedEndpoint = ''e1'', us_RouteFallbacks = 0, us_RouteFailures = None, us_User = [], us_SessionID = [], us_Trace = None,
     us_Metadata = None, us_App = [], us_HTTPReferer = [], us_AppCategories = [], us_CacheReadInputTokens = 500, us_CacheCreationInputTokens = 0,
     us_AdditionalCostMicrodollars = 0, us_ServiceTier = [], us_VideoInputMode = [], us_VideoDurationSeconds = 0, us_VideoResolution = [],
     us_VideoAspectRatio = [], us_VideoGenerateAudio = False\<rparr>"

theorem reported_is_charged_witness:
  "map_option sr_CostMicrodollars (reportedSettlement None (Some exampleAuth) exampleReportUsage None) = Some 10800"
proof -
  have ep: "us_SelectedEndpoint exampleReportUsage = ''e1''" and raw: "rawUsageOf exampleReportUsage = exampleRaw"
    by (simp_all add: exampleReportUsage_def rawUsageOf_def exampleRaw_def)
  have p: "fst (priceFor (pau_CandidatePrices exampleAuth) (us_SelectedEndpoint exampleReportUsage)) = priceOf exampleBillCandidate"
    and s: "fst (servedBy exampleAuth (us_SelectedEndpoint exampleReportUsage)) = bc_Provider exampleBillCandidate"
    by code_simp+
  have r: "reportable exampleAuth exampleReportUsage" by code_simp
  show ?thesis
    using reported_is_charged [OF exampleBilling_laws example_parse _ _ p s, of DefaultEligibility _ None None] example_candidate example_evaluate ep raw r
    by (simp add: HasCostPtr_def rejectedForGood_def openReply_def)
qed

section \<open>The running cost\<close>

lemma halfUpPerMillion_exact:
  assumes "0 \<le> tokens" "0 \<le> rate" "tokens * rate + 500000 \<le> MaxInt64"
  shows "halfUpPerMillion tokens rate = halfUp (tokens, rate)"
proof (cases "tokens = 0 \<or> rate = 0")
  case True
  then show ?thesis by (auto simp: halfUpPerMillion_def halfUp_def)
next
  case False
  then have pos: "0 < tokens" "0 < rate" "0 \<le> tokens * rate" using assms by simp_all
  then have "in_i64 (tokens * rate)" "in_i64 (tokens * rate + 500000)" using assms(3) pos(3) by (intro in_i64_nonneg; linarith)+
  then have "i64_add (i64_mul tokens rate) 500000 = tokens * rate + 500000" by (simp add: i64_mul_def i64_add_def)
  moreover have "i64_quot (tokens * rate + 500000) 1000000 = (tokens * rate + 500000) div 1000000"
    using pos assms by (intro i64_quot_nonneg) simp_all
  ultimately show ?thesis using pos by (simp add: halfUpPerMillion_def halfUp_def)
qed

text \<open>Some tier contains the prompt, or there are none: then both choices of rates are the same.\<close>

definition covered :: "CandidatePrice \<Rightarrow> int \<Rightarrow> bool" where
  "covered p prompt \<longleftrightarrow> cand_Tiers p = [] \<or> list_ex (\<lambda>t. contains t prompt) (cand_Tiers p)"

lemma lastTierRates_find:
  "list_ex (\<lambda>t. contains t prompt) ts \<Longrightarrow>
     lastTierRates prompt r ts = (case find (\<lambda>t. contains t prompt) ts of Some t \<Rightarrow> ptier_Rates t | None \<Rightarrow> r')"
  by (induction ts arbitrary: r) auto

lemma RatesForPrompt_covered: "covered p prompt \<Longrightarrow> RatesForPrompt p prompt = lastTierRates prompt (cand_Rates p) (cand_Tiers p)"
  using lastTierRates_find [of prompt "cand_Tiers p" "cand_Rates p" "cand_Rates p"] by (auto simp: covered_def RatesForPrompt_def)

lemma stageDUsageMicro_exact:
  assumes "0 \<le> input - cached - creation" "0 \<le> output" "0 \<le> cached" "0 \<le> creation" "input \<le> MaxInt64" "wf_prates r" "0 \<le> cand_RequestFeeMicro p"
    "list_all (\<lambda>c. fst c * snd c + 500000 \<le> MaxInt64) (costParts r (input - cached - creation) output cached creation)"
    "exactCost (cand_RequestFeeMicro p) (costParts r (input - cached - creation) output cached creation) \<le> MaxInt64"
  shows "stageDUsageMicro p r input output cached creation
    = exactCost (cand_RequestFeeMicro p) (costParts r (input - cached - creation) output cached creation)"
proof -
  let ?u = "input - cached - creation" and ?f = "cand_RequestFeeMicro p"
  let ?cs = "costParts r ?u output cached creation"
  have unc: "max (i64_sub (i64_sub input cached) creation) 0 = ?u"
    using assms(1-5) by (simp add: i64_sub_def i64_defs)
  let ?a = "halfUp (?u, prate_Input r)" and ?b = "halfUp (output, prate_Output r)" and ?c = "halfUp (cached, prate_CachedInput r)"
    and ?d = "halfUp (creation, prate_CacheCreation r)"
  have parts: "halfUpPerMillion ?u (prate_Input r) = ?a" "halfUpPerMillion output (prate_Output r) = ?b"
    "halfUpPerMillion cached (prate_CachedInput r) = ?c" "halfUpPerMillion creation (prate_CacheCreation r) = ?d"
    using assms by (simp_all add: halfUpPerMillion_exact costParts_def wf_prates_def)
  have nonneg: "0 \<le> ?a" "0 \<le> ?b" "0 \<le> ?c" "0 \<le> ?d"
    using assms by (simp_all add: halfUp_def wf_prates_def pos_imp_zdiv_nonneg_iff)
  have sum: "sum_list (map halfUp ?cs) = ?a + ?b + ?c + ?d" by (simp add: costParts_def)
  have "?f + ?a + ?b + ?c + ?d \<le> MaxInt64"
    using assms(9) by (auto simp: exactCost_def sum Let_def i64_defs split: if_splits)
  then have "i64_add (i64_add (i64_add (i64_add ?f ?a) ?b) ?c) ?d = ?f + ?a + ?b + ?c + ?d"
    using nonneg assms(7) by (simp add: i64_add_def i64_defs)
  then show ?thesis
    by (auto simp: stageDUsageMicro_def unc parts exactCost_def sum Let_def) (auto simp: costParts_def)
qed

text \<open>(C36) The cap is enforced on the reported cost. For a prompt that some tier contains, and components that fit
  \<open>int64\<close>, the running cost that the cap check of a stream computes, with the rates it selects, is the cost that \<open>CostMicrodollars\<close>
  computes with unbounded integers for the same usage.\<close>
theorem cap_cost_exact:
  assumes "CostMicrodollars p (input - cached - creation) output cached creation tierInput = Some cost"
    "input \<le> MaxInt64" "tierInput \<le> input"
    "covered p (if tierInput > 0 then tierInput else input)"
    "list_all (\<lambda>c. fst c * snd c + 500000 \<le> MaxInt64)
       (costParts (RatesForPrompt p (if tierInput > 0 then tierInput else input)) (input - cached - creation) output cached creation)"
  shows "stageDUsageMicro p (RatesForPrompt p (if tierInput > 0 then tierInput else input)) input output cached creation = cost"
proof -
  let ?t = "if tierInput > 0 then tierInput else input"
  have t: "tierPrompt (input - cached - creation) cached creation tierInput = ?t"
    using assms(3) by (simp add: tierPrompt_def)
  note r = RatesForPrompt_covered [OF assms(4)]
  have c: "usablePrice p" "0 \<le> input - cached - creation" "0 \<le> output" "0 \<le> cached" "0 \<le> creation" "wf_prates (RatesForPrompt p ?t)"
    "cost = exactCost (cand_RequestFeeMicro p) (costParts (RatesForPrompt p ?t) (input - cached - creation) output cached creation)" "in_i64 cost"
    using assms(1) unfolding CostMicrodollars_Some_iff t r Let_def by auto
  have "cost \<le> MaxInt64" "0 \<le> cand_RequestFeeMicro p" using c(1, 8) by (simp_all add: in_i64_def usablePrice_def)
  then show ?thesis using stageDUsageMicro_exact [OF c(2-5) assms(2) c(6) _ assms(5)] c(7) by simp
qed

theorem cap_cost_exact_witness:
  "stageDUsageMicro (priceOf exampleBillCandidate) (RatesForPrompt (priceOf exampleBillCandidate) 2000) 2000 10 500 0 = 10800"
proof -
  have c: "CostMicrodollars (priceOf exampleBillCandidate) (2000 - 500 - 0) 10 500 0 0 = Some 10800" by code_simp
  have f: "list_all (\<lambda>c. fst c * snd c + 500000 \<le> MaxInt64) (costParts (RatesForPrompt (priceOf exampleBillCandidate) (if (0::int) > 0 then 0 else 2000)) (2000 - 500 - 0) 10 500 0)"
    by code_simp
  have cov: "covered (priceOf exampleBillCandidate) (if (0::int) > 0 then 0 else 2000)" by code_simp
  show ?thesis using cap_cost_exact [OF c _ _ cov f] by (simp add: i64_defs)
qed

text \<open>Outside every tier the two differ: the cap check falls back to the base rates, the reported cost takes the last tier.\<close>

definition boundedPrice :: CandidatePrice where
  "boundedPrice = zeroPrice\<lparr>cand_PriceHistoryVersion := 1, cand_Rounding := ''half_up_per_million'', cand_Rates := zeroRates\<lparr>prate_Output := 1000000\<rparr>,
     cand_Tiers := [\<lparr>ptier_MaxPromptTokens = Some 1000, ptier_Rates = zeroRates\<lparr>prate_Output := 2000000\<rparr>\<rparr>]\<rparr>"

lemma cap_cost_uncovered:
  "CostMicrodollars boundedPrice 2000 10 0 0 0 = Some 20 \<and> stageDUsageMicro boundedPrice (RatesForPrompt boundedPrice 2000) 2000 10 0 0 = 10"
  by code_simp

section \<open>Buffered estimates\<close>

text \<open>The search stays between its ends, ends on a count that fits, and the next count does not.\<close>

lemma largest_range: "largestBufferedCount base limit fits \<in> {base..max base limit}"
proof (induction base limit fits rule: largestBufferedCount.induct)
  case (1 base limit fits)
  let ?mid = "base + (limit - base) div 2 + 1"
  show ?case
  proof (cases "base < limit")
    case True
    then have "base < ?mid" "?mid \<le> limit" by linarith+
    then show ?thesis using 1(1) [OF True refl] 1(2) [OF True refl] True
      by (subst (1) largestBufferedCount.simps) (auto simp: Let_def)
  next
    case False
    then show ?thesis by (subst (1) largestBufferedCount.simps) simp
  qed
qed

lemma largest_fits: "fits base \<Longrightarrow> fits (largestBufferedCount base limit fits)"
  by (induction base limit fits rule: largestBufferedCount.induct) (subst (1) largestBufferedCount.simps, simp add: Let_def)

lemma largest_local:
  assumes "base < limit \<Longrightarrow> limit = stop \<or> \<not> fits (limit + 1)" "base \<ge> limit \<Longrightarrow> base \<ge> stop \<or> \<not> fits (base + 1)"
  shows "largestBufferedCount base limit fits \<ge> stop \<or> \<not> fits (largestBufferedCount base limit fits + 1)"
  using assms
proof (induction base limit fits rule: largestBufferedCount.induct)
  case (1 base limit fits)
  let ?mid = "base + (limit - base) div 2 + 1"
  show ?case
  proof (cases "base < limit")
    case True
    then have m: "base < ?mid" "?mid \<le> limit" by linarith+
    show ?thesis
    proof (cases "fits ?mid")
      case f: True
      have "largestBufferedCount base limit fits = largestBufferedCount ?mid limit fits"
        using True f by (subst (1) largestBufferedCount.simps) (simp add: Let_def)
      moreover have "?mid \<ge> limit \<Longrightarrow> ?mid = limit" using m by simp
      ultimately show ?thesis using 1(1) [OF True refl f] 1(3) [OF True] by fastforce
    next
      case f: False
      have "largestBufferedCount base limit fits = largestBufferedCount base (?mid - 1) fits"
        using True f by (subst (1) largestBufferedCount.simps) (simp add: Let_def)
      moreover have "?mid - 1 = stop \<or> \<not> fits (?mid - 1 + 1)" using f by simp
      moreover have "base \<ge> stop \<or> \<not> fits (base + 1)" if "base \<ge> ?mid - 1"
      proof -
        have "base + 1 = ?mid" using that m(1) by linarith
        then show ?thesis using f by metis
      qed
      ultimately show ?thesis using 1(2) [OF True refl f] by metis
    qed
  next
    case False
    then have "largestBufferedCount base limit fits = base" by (subst largestBufferedCount.simps) simp
    then show ?thesis using 1(4) False by simp
  qed
qed

lemma largestBufferedCount_spec:
  assumes "fits base"
  shows "let n = largestBufferedCount base limit fits in base \<le> n \<and> n \<le> max base limit \<and> fits n \<and> (n < limit \<longrightarrow> \<not> fits (n + 1))"
  using largest_range [of base limit fits] largest_fits [of fits base limit, OF assms] largest_local [of base limit limit fits]
  by (auto simp: Let_def)

lemma doubled: "0 < n \<Longrightarrow> n \<le> MaxInt64 div 2 \<Longrightarrow> i64_mul n 2 = 2 * n"
  by (simp add: i64_mul_def i64_defs mult.commute)

lemma bufferFits_cost: "bufferFits price cap i n \<longleftrightarrow> (\<exists>cost. CostMicrodollars price i n 0 0 i = Some cost \<and> cost \<le> cap)"
  by (auto simp: bufferFits_def split: option.splits)

lemma buffered_guards:
  assumes "(if g1 then (x, y) else if g2 then (x, y) else if g3 then (x, y) else if g4 then (x, y) else if g5 then (x, y) else if g6 then (x, y) else (v, w)) = (x', y')"
    "(x', y') \<noteq> (x, y)"
  shows "\<not> g1 \<and> \<not> g2 \<and> \<not> g3 \<and> \<not> g4 \<and> \<not> g5 \<and> \<not> g6 \<and> x' = v \<and> y' = w"
  using assms by (auto split: if_splits)


definition exampleBufferAuth :: PricedAuthorization where
  "exampleBufferAuth = exampleAuth\<lparr>au_Model := ''abliterate/abliterate-0.3-fast'', pau_Provider := ''abliterate'', pau_UsageType := ''Credits'',
     pau_CandidatePrices := [zeroPrice\<lparr>cand_EndpointID := ''e1'', cand_PriceHistoryVersion := 1, cand_Rounding := ''half_up_per_million'',
       cand_Rates := zeroRates\<lparr>prate_Input := 1000000, prate_Output := 1000000\<rparr>\<rparr>], pau_CapMicro := 10\<rparr>"

definition exampleBuffered :: StreamResult where
  "exampleBuffered = \<lparr>sres_Text = ''ok'', sres_FinishReason = ''stop'', sres_Usage = None\<rparr>"


end
