(* ===== verification/StageDProps.thy ===== *)
theory StageDProps
  imports StageD CandidateProps
begin

text \<open>
  Properties of streams under a cap: slices are the text, cut between runes; whatever the network, the clock and the provider do, no slice becomes
  visible whose cost passes the cap, and the heartbeats of a stream are numbered without gaps, never regress, and stay
  close to what the client has seen.
\<close>

section \<open>Slices\<close>

lemma sliceEnd_le: "s \<noteq> [] \<Longrightarrow> sliceEnd s \<le> 256"
proof -
  assume "s \<noteq> []"
  have "snd (decodeRune s) \<le> 4" by (auto simp: decodeRune_def Let_def split: list.splits)
  then show ?thesis using backOff_le [of s "min (length s) 256"] by (auto simp: sliceEnd_def Let_def)
qed

text \<open>The first rune of a text is decided by its own bytes, and these bytes after the first do not start a rune.\<close>

definition runeBytes :: "string \<Rightarrow> string \<Rightarrow> bool" where
  "runeBytes s pre \<longleftrightarrow> (\<exists>t. s = pre @ t) \<and> length pre = snd (decodeRune s) \<and> (\<forall>t. decodeRune (pre @ t) = decodeRune s) \<and> (\<forall>c \<in> set (tl pre). \<not> RuneStart c)"

lemma cont_not_start: "cont_in lo hi c \<Longrightarrow> 128 \<le> lo \<Longrightarrow> hi \<le> 191 \<Longrightarrow> \<not> RuneStart c"
  by (auto simp: cont_in_def RuneStart_def)

lemma rune_prefix:
  assumes "fst (decodeRune s) = Some r"
  shows "\<exists>pre. runeBytes s pre"
proof -
  obtain c0 t0 where s: "s = c0 # t0" using assms by (cases s) (auto simp: decodeRune_def)
  let ?b = "byte c0"
  let ?lo = "if ?b = 224 then 160 else if ?b = 240 then 144 else (128::nat)" and ?hi = "if ?b = 237 then 159 else if ?b = 244 then 143 else (191::nat)"
  show ?thesis
  proof (cases "?b < 128")
    case True
    then show ?thesis unfolding runeBytes_def s by (intro exI [of _ "[c0]"]) (simp add: decodeRune_def Let_def)
  next
    case ge: False
    then have b: "\<not> (?b < 194 \<or> 244 < ?b)" using assms s by (auto simp: decodeRune_def Let_def)
    obtain c1 t1 where t0: "t0 = c1 # t1" using assms s ge b by (cases t0) (auto simp: decodeRune_def Let_def)
    have c1: "cont_in ?lo ?hi c1" using assms s ge b t0 by (auto simp: decodeRune_def Let_def split: if_splits)
    then have n1: "\<not> RuneStart c1" by (rule cont_not_start) auto
    show ?thesis
    proof (cases "?b < 224")
      case True
      then show ?thesis unfolding runeBytes_def s t0 using ge b c1 n1 by (intro exI [of _ "[c0, c1]"]) (simp add: decodeRune_def Let_def)
    next
      case ge1: False
      obtain c2 t2 where t1: "t1 = c2 # t2" using assms s ge b t0 c1 ge1 by (cases t1) (simp_all add: decodeRune_def Let_def)
      have c2: "cont_in 128 191 c2" using assms s ge b t0 c1 ge1 t1 by (simp add: decodeRune_def Let_def split: if_splits)
      then have n2: "\<not> RuneStart c2" by (rule cont_not_start) auto
      show ?thesis
      proof (cases "?b < 240")
        case True
        then show ?thesis unfolding runeBytes_def s t0 t1 using ge b c1 n1 ge1 c2 n2
          by (intro exI [of _ "[c0, c1, c2]"]) (simp add: decodeRune_def Let_def)
      next
        case ge2: False
        obtain c3 t3 where t2: "t2 = c3 # t3" using assms s ge b t0 c1 ge1 t1 c2 ge2 by (cases t2) (simp_all add: decodeRune_def Let_def)
        have c3: "cont_in 128 191 c3" using assms s ge b t0 c1 ge1 t1 c2 ge2 t2 by (simp add: decodeRune_def Let_def split: if_splits)
        then have n3: "\<not> RuneStart c3" by (rule cont_not_start) auto
        show ?thesis unfolding runeBytes_def s t0 t1 t2 using ge b c1 n1 ge1 c2 n2 ge2 c3 n3
          by (intro exI [of _ "[c0, c1, c2, c3]"]) (simp add: decodeRune_def Let_def)
      qed
    qed
  qed
qed

lemma runes_unfold: "s \<noteq> [] \<Longrightarrow> runes s = fst (decodeRune s) # runes (drop (snd (decodeRune s)) s)"
  by (subst runes.simps) simp

lemma runes_Nil: "runes [] = []"
  by (subst runes.simps) simp

lemma valid_head:
  assumes "utf8_Valid s" "s \<noteq> []"
  obtains r where "fst (decodeRune s) = Some r" "utf8_Valid (drop (snd (decodeRune s)) s)"
proof (cases "fst (decodeRune s)")
  case None
  then show thesis using assms(1) unfolding utf8_Valid_def runes_unfold [OF assms(2)] by simp
next
  case (Some r)
  then show thesis using that assms(1) unfolding utf8_Valid_def runes_unfold [OF assms(2)] by simp
qed

text \<open>Cutting a valid text where a rune starts leaves two valid texts.\<close>

lemma valid_cut:
  assumes "utf8_Valid s" "e \<le> length s" "e < length s \<Longrightarrow> RuneStart (s ! e)"
  shows "utf8_Valid (take e s) \<and> utf8_Valid (drop e s)"
  using assms
proof (induction s arbitrary: e rule: runes.induct)
  case (1 s)
  show ?case
  proof (cases "s = [] \<or> e = 0")
    case True
    then show ?thesis using 1(2) by (auto simp: utf8_Valid_def runes_Nil)
  next
    case False
    let ?k = "snd (decodeRune s)"
    obtain r where v: "fst (decodeRune s) = Some r" "utf8_Valid (drop ?k s)"
      using valid_head [OF 1(2)] False by blast
    then obtain pre where pre: "runeBytes s pre" using rune_prefix by blast
    then obtain t where t: "s = pre @ t" "length pre = ?k" "\<forall>t. decodeRune (pre @ t) = decodeRune s" "\<forall>c \<in> set (tl pre). \<not> RuneStart c"
      unfolding runeBytes_def by blast
    have le: "?k \<le> e"
    proof (rule ccontr)
      assume "\<not> ?k \<le> e"
      then have "e < length pre" using t(2) by simp
      then have "e - 1 < length (tl pre)" "s ! e = pre ! e" using False t(1) by (auto simp: nth_append)
      then have "s ! e = tl pre ! (e - 1)" "e - 1 < length (tl pre)" using False by (simp_all add: nth_tl)
      then have "\<not> RuneStart (s ! e)" using t(4) nth_mem by metis
      then show False using 1(4) \<open>e < length pre\<close> t(1) by auto
    qed
    have "drop ?k s = t" using t(1, 2) by simp
    then have ih: "utf8_Valid (take (e - ?k) t) \<and> utf8_Valid (drop (e - ?k) t)"
      using 1(1) [of "e - ?k"] 1(3, 4) False v(2) le t(1, 2) by (auto simp: nth_append)
    have tk: "take e s = pre @ take (e - ?k) t" and dr: "drop e s = drop (e - ?k) t" using t(1, 2) le by simp_all
    have "pre \<noteq> []" using t(2) decodeRune_size [of s] False by auto
    then have "runes (take e s) = fst (decodeRune s) # runes (take (e - ?k) t)"
      unfolding tk using t(2, 3) by (subst runes_unfold) simp_all
    then show ?thesis using ih v(1) dr by (auto simp: utf8_Valid_def)
  qed
qed

lemma backOff_start: "backOff s n < length s \<Longrightarrow> 0 < backOff s n \<Longrightarrow> RuneStart (s ! backOff s n)"
  by (induction n) (auto split: if_splits)

lemma sliceEnd_valid:
  assumes "utf8_Valid s" "s \<noteq> []"
  shows "utf8_Valid (take (sliceEnd s) s) \<and> utf8_Valid (drop (sliceEnd s) s)"
proof -
  let ?e = "backOff s (min (length s) 256)"
  show ?thesis
  proof (cases "?e = 0")
    case False
    then show ?thesis
      using valid_cut [OF assms(1), of ?e] backOff_start [of s "min (length s) 256"] backOff_le [of s "min (length s) 256"]
      by (simp add: sliceEnd_def)
  next
    case True
    obtain r where r: "fst (decodeRune s) = Some r" "utf8_Valid (drop (snd (decodeRune s)) s)"
      using valid_head [OF assms] by blast
    then obtain pre t where t: "s = pre @ t" "length pre = snd (decodeRune s)" "\<forall>t. decodeRune (pre @ t) = decodeRune s"
      using rune_prefix unfolding runeBytes_def by blast
    have "decodeRune pre = decodeRune s" using t(3) [rule_format, of "[]"] by simp
    then have "runes pre = [fst (decodeRune s)]" using t(2) decodeRune_size [of s] assms(2) by (subst runes_unfold) (auto simp: runes_Nil)
    moreover have "take (snd (decodeRune s)) s = pre" using t(1, 2) by simp
    ultimately show ?thesis using r True by (simp add: sliceEnd_def utf8_Valid_def)
  qed
qed

text \<open>Slices are the text in order, none is empty or longer than 256 bytes, and the slices of a valid text are valid.\<close>

lemma slices_exact:
  "concat (SemanticSlices s) = s \<and> list_all (\<lambda>x. x \<noteq> [] \<and> length x \<le> 256) (SemanticSlices s)
   \<and> (utf8_Valid s \<longrightarrow> list_all utf8_Valid (SemanticSlices s))"
proof (induction s rule: SemanticSlices.induct)
  case (1 s)
  show ?case
  proof (cases "s = []")
    case True
    then show ?thesis by (simp add: SemanticSlices.simps)
  next
    case False
    then have sl: "SemanticSlices s = take (sliceEnd s) s # SemanticSlices (drop (sliceEnd s) s)" by (simp add: SemanticSlices.simps [of s])
    show ?thesis unfolding sl using 1 [OF False] sliceEnd_bounds [OF False] sliceEnd_le [OF False] sliceEnd_valid [OF _ False] by auto
  qed
qed

section \<open>Frames\<close>

lemmas time_Now_simps [simp] = time_Now_def

text \<open>What a heartbeat leaves alone.\<close>

definition framed :: "stageDController \<Rightarrow> stageDController \<Rightarrow> bool" where
  "framed c c' \<longleftrightarrow> ct_config c' = ct_config c \<and> ct_meter c' = ct_meter c \<and> ct_price c' = ct_price c \<and> ct_hasPrice c' = ct_hasPrice c
     \<and> ct_sliceInFlight c' = ct_sliceInFlight c \<and> ct_ticking c' = ct_ticking c \<and> (0 < ct_capMicro c \<longrightarrow> ct_capMicro c' = ct_capMicro c)"

lemma framed_refl [simp]: "framed c c"
  by (simp add: framed_def)

text \<open>One heartbeat: the call is recorded, and acknowledged exactly when no error is returned.\<close>

lemma send_spec:
  assumes "sendHeartbeatLocked env seq c w = (err, c', w')"
  obtains now out where "sw_calls w' = sw_calls w @ [(heartbeatFor env c seq now, out)]" "framed c c'" "ct_heartbeatLost c' = ct_heartbeatLost c"
    "err = None \<longleftrightarrow> acknowledged seq out"
    "err = None \<longrightarrow> ct_seq c' = seq \<and> ct_lastOutput c' = meter_outputTokens (ct_meter c)"
proof -
  obtain out net where hb: "Heartbeat env (heartbeatFor env c seq (sd_now env (sw_reads w))) (sw_net w) = (out, net)" by fastforce
  show thesis
  proof (cases "acknowledged seq out")
    case True
    then obtain r where "out = Inr r" by (cases out) (auto simp: acknowledged_def)
    then show thesis using True that [of "sd_now env (sw_reads w)" out] assms hb by (auto simp: sendHeartbeatLocked_def Let_def framed_def)
  next
    case False
    then show thesis using that [of "sd_now env (sw_reads w)" out] assms hb
      by (auto simp: sendHeartbeatLocked_def Let_def framed_def acknowledged_def split: sum.splits heartbeat_error.splits)
  qed
qed

section \<open>Heartbeats in order\<close>

definition usage_le :: "HeartbeatUsage \<Rightarrow> HeartbeatUsage \<Rightarrow> bool" where
  "usage_le u v \<longleftrightarrow> hu_InputTokens u \<le> hu_InputTokens v \<and> hu_OutputTokens u \<le> hu_OutputTokens v
     \<and> hu_CacheReadInputTokens u \<le> hu_CacheReadInputTokens v \<and> hu_CacheCreationInputTokens u \<le> hu_CacheCreationInputTokens v
     \<and> hu_PriceTierInputTokens u \<le> hu_PriceTierInputTokens v \<and> hu_ReasoningTokens u \<le> hu_ReasoningTokens v"

lemma usage_le_refl [simp]: "usage_le u u"
  by (simp add: usage_le_def)

lemma usage_le_trans: "usage_le u v \<Longrightarrow> usage_le v x \<Longrightarrow> usage_le u x"
  unfolding usage_le_def by (meson order_trans)

abbreviation call_seq :: "HeartbeatRequest \<times> (heartbeat_error + HeartbeatResponse) \<Rightarrow> int" where
  "call_seq x \<equiv> hb_Seq (fst x)"

definition ackedCall :: "HeartbeatRequest \<times> (heartbeat_error + HeartbeatResponse) \<Rightarrow> bool" where
  "ackedCall x \<longleftrightarrow> acknowledged (call_seq x) (snd x)"

text \<open>Heartbeats are numbered from one, one by one; all but the last are acknowledged, the last too unless the heartbeat is
  lost; and what they report only grows, up to the meter.\<close>

definition beats_ok :: "stageDController \<Rightarrow> stage_world \<Rightarrow> bool" where
  "beats_ok c w \<longleftrightarrow> (let cs = sw_calls w in
     map call_seq cs = map (\<lambda>i. wrap64 (int i + 1)) [0..<length cs]
     \<and> list_all ackedCall (if ct_heartbeatLost c then butlast cs else cs)
     \<and> sorted_wrt usage_le (map (\<lambda>x. hb_Usage (fst x)) cs)
     \<and> list_all (\<lambda>x. usage_le (hb_Usage (fst x)) (heartbeatUsage (ct_meter c))) cs
     \<and> (\<not> ct_heartbeatLost c \<longrightarrow> ct_seq c = wrap64 (int (length cs))
          \<and> ct_lastOutput c = (if cs = [] then 0 else hu_OutputTokens (hb_Usage (fst (last cs))))))"

lemma wrap64_add_left: "wrap64 (wrap64 a + b) = wrap64 (a + b)"
proof -
  have "wrap64 a + b + 9223372036854775808 = (a + 9223372036854775808) mod 18446744073709551616 + b" by (simp add: wrap64_def)
  then have "wrap64 (wrap64 a + b) = ((a + 9223372036854775808) mod 18446744073709551616 + b) mod 18446744073709551616 - 9223372036854775808"
    by (simp only: wrap64_def [of "wrap64 a + b"])
  also have "\<dots> = (a + 9223372036854775808 + b) mod 18446744073709551616 - 9223372036854775808" by (simp only: mod_add_left_eq)
  also have "\<dots> = wrap64 (a + b)" by (simp add: wrap64_def algebra_simps)
  finally show ?thesis .
qed

lemma beat_ok:
  assumes "beat env due c w = (lost, c', w')" "beats_ok c w" "\<not> ct_heartbeatLost c"
  shows "beats_ok c' w' \<and> framed c c' \<and> ct_heartbeatLost c' = lost
    \<and> (\<not> lost \<longrightarrow> (if due then ct_lastOutput c' = meter_outputTokens (ct_meter c) else ct_lastOutput c' = ct_lastOutput c))"
proof (cases due)
  case False
  then show ?thesis using assms by (simp add: beat_def)
next
  case True
  let ?seq = "i64_add (ct_seq c) 1" and ?n = "length (sw_calls w)"
  obtain err c1 w1 where snd: "sendHeartbeatLocked env ?seq c w = (err, c1, w1)" by (metis prod_cases3)
  obtain now out where o: "sw_calls w1 = sw_calls w @ [(heartbeatFor env c ?seq now, out)]" "framed c c1" "ct_heartbeatLost c1 = ct_heartbeatLost c"
    "err = None \<longleftrightarrow> acknowledged ?seq out" "err = None \<longrightarrow> ct_seq c1 = ?seq \<and> ct_lastOutput c1 = meter_outputTokens (ct_meter c)"
    using snd by (rule send_spec)
  have seq: "?seq = wrap64 (int ?n + 1)" using assms(2, 3) by (simp add: beats_ok_def Let_def i64_add_def wrap64_add_left)
  have b: "map call_seq (sw_calls w) = map (\<lambda>i. wrap64 (int i + 1)) [0..<?n]" "list_all ackedCall (sw_calls w)"
    "sorted_wrt usage_le (map (\<lambda>x. hb_Usage (fst x)) (sw_calls w))"
    "list_all (\<lambda>x. usage_le (hb_Usage (fst x)) (heartbeatUsage (ct_meter c))) (sw_calls w)"
    using assms(2, 3) by (simp_all add: beats_ok_def Let_def)
  have m: "ct_meter c1 = ct_meter c" using o(2) by (simp add: framed_def)
  have common: "map call_seq (sw_calls w1) = map (\<lambda>i. wrap64 (int i + 1)) [0..<length (sw_calls w1)]"
    "sorted_wrt usage_le (map (\<lambda>x. hb_Usage (fst x)) (sw_calls w1))"
    "list_all (\<lambda>x. usage_le (hb_Usage (fst x)) (heartbeatUsage (ct_meter c1))) (sw_calls w1)"
    using b o(1) seq m by (simp_all add: heartbeatFor_def sorted_wrt_append list_all_iff)
  show ?thesis
  proof (cases err)
    case None
    then have r: "lost = False" "c' = c1" "w' = w1" using assms(1) True snd by (simp_all add: beat_def)
    have "list_all ackedCall (sw_calls w1)" using b(2) o(1, 4) None by (simp add: ackedCall_def heartbeatFor_def)
    moreover have "ct_seq c1 = wrap64 (int (length (sw_calls w1)))" using o(1) o(5) [rule_format, OF None] seq by (simp add: add.commute)
    moreover have "ct_lastOutput c1 = hu_OutputTokens (hb_Usage (fst (last (sw_calls w1))))" "sw_calls w1 \<noteq> []"
      using o(1) o(5) [rule_format, OF None] by (simp_all add: heartbeatFor_def heartbeatUsage_def)
    ultimately show ?thesis using r common o(2, 3) o(5) [rule_format, OF None] assms(3) True by (simp add: beats_ok_def Let_def)
  next
    case (Some e)
    then have r: "lost = True" "c' = markHeartbeatLostLocked c1" "w' = w1" using assms(1) True snd by (simp_all add: beat_def)
    have "list_all ackedCall (butlast (sw_calls w1))" using b(2) o(1) by simp
    moreover have "framed c c'" "ct_heartbeatLost c'" "ct_meter c' = ct_meter c1"
      using r o(2, 3) assms(3) by (simp_all add: markHeartbeatLostLocked_def framed_def)
    ultimately show ?thesis using r common by (simp add: beats_ok_def Let_def)
  qed
qed

lemma beats_ok_meter:
  assumes "beats_ok c w" "usage_le (heartbeatUsage (ct_meter c)) (heartbeatUsage m)"
    "ct_heartbeatLost c' = ct_heartbeatLost c" "ct_meter c' = m" "ct_seq c' = ct_seq c" "ct_lastOutput c' = ct_lastOutput c" "sw_calls w' = sw_calls w"
  shows "beats_ok c' w'"
  using assms usage_le_trans by (auto simp: beats_ok_def Let_def list_all_iff intro: usage_le_trans)

section \<open>The cap\<close>

lemma beat_framed: "beat env due c w = (lost, c', w') \<Longrightarrow> framed c c'"
  by (cases due) (auto simp: beat_def markHeartbeatLostLocked_def framed_def split: prod.splits option.splits elim!: send_spec)

definition kept :: "stageDController \<Rightarrow> stageDController \<Rightarrow> bool" where
  "kept c c' \<longleftrightarrow> ct_config c' = ct_config c \<and> ct_price c' = ct_price c \<and> ct_hasPrice c' = ct_hasPrice c
     \<and> (0 < ct_capMicro c \<longrightarrow> ct_capMicro c' = ct_capMicro c)"

lemma framed_kept: "framed c c' \<Longrightarrow> kept c c' \<and> ct_meter c' = ct_meter c"
  by (simp add: framed_def kept_def)

lemma beforeSlice_kept:
  assumes "beforeSlice env d c w = (t, c', w')"
  shows "kept c c' \<and> ct_meter c' = ct_meter c \<and> (t = None \<longrightarrow> ct_sliceInFlight c' \<and> \<not> (cf_terminateAtCap (ct_config c') \<and> wouldExceedCapLocked c' (dl_Text d)))"
proof (cases "ct_heartbeatLost c")
  case True
  then show ?thesis using assms by (auto simp: beforeSlice_def kept_def)
next
  case False
  let ?w = "w\<lparr>sw_reads := Suc (sw_reads w)\<rparr>" and ?due = "t_Sub (sd_now env (sw_reads w)) (ct_lastAccepted c) \<ge> stageDHeartbeatInterval
    \<or> i64_sub (meter_outputTokens (ct_meter c)) (ct_lastOutput c) \<ge> stageDHeartbeatOutputTokenDelta"
  obtain lost c1 w1 where b: "beat env ?due c ?w = (lost, c1, w1)" by (metis prod_cases3)
  note k = framed_kept [OF beat_framed [OF b]]
  show ?thesis using assms False b k
    by (cases lost) (auto simp: beforeSlice_def kept_def wouldExceedCapLocked_def split: if_splits)
qed

lemma afterSlice_kept:
  assumes "afterSlice env d c w = (t, c', w')"
  shows "kept c c' \<and> ct_meter c' = meter_admit d (ct_meter c)"
proof (cases "ct_heartbeatLost c")
  case True
  then show ?thesis using assms by (auto simp: afterSlice_def kept_def Let_def)
next
  case False
  let ?c = "c\<lparr>ct_sliceInFlight := False, ct_meter := meter_admit d (ct_meter c)\<rparr>"
  let ?w = "w\<lparr>sw_reads := Suc (sw_reads w)\<rparr>" and ?due = "t_Sub (sd_now env (sw_reads w)) (ct_lastAccepted ?c) \<ge> stageDHeartbeatInterval
    \<or> i64_sub (meter_outputTokens (ct_meter ?c)) (ct_lastOutput ?c) \<ge> stageDHeartbeatOutputTokenDelta"
  obtain lost c1 w1 where b: "beat env ?due ?c ?w = (lost, c1, w1)" by (metis prod_cases3)
  note k = framed_kept [OF beat_framed [OF b]]
  show ?thesis using assms False b k by (cases lost) (auto simp: afterSlice_def kept_def Let_def)
qed

lemma tick_cases:
  assumes "cadenceTick env c w = (c', w')"
  obtains "c' = c" "w' = w" "ct_heartbeatLost c \<or> ct_sliceInFlight c"
  | due lost where "beat env due c (w\<lparr>sw_reads := Suc (sw_reads w)\<rparr>) = (lost, c', w')" "\<not> ct_heartbeatLost c" "\<not> ct_sliceInFlight c"
proof (cases "ct_heartbeatLost c \<or> ct_sliceInFlight c")
  case True
  then show thesis using that(1) assms by (auto simp: cadenceTick_def)
next
  case False
  let ?due = "t_Sub (sd_now env (sw_reads w)) (ct_lastAccepted c) \<ge> stageDHeartbeatInterval"
  obtain lost c1 w1 where b: "beat env ?due c (w\<lparr>sw_reads := Suc (sw_reads w)\<rparr>) = (lost, c1, w1)" by (metis prod_cases3)
  then have "c1 = c'" "w1 = w'" using assms False by (auto simp: cadenceTick_def)
  then show thesis using that(2) b False by blast
qed

lemma tick_framed: "cadenceTick env c w = (c', w') \<Longrightarrow> framed c c'"
  by (erule tick_cases) (auto dest: beat_framed)

lemma observe_kept: "kept c (observeUsage u c) \<and> mt_semanticBytes (ct_meter (observeUsage u c)) = mt_semanticBytes (ct_meter c)
    \<and> mt_reasoningBytes (ct_meter (observeUsage u c)) = mt_reasoningBytes (ct_meter c)"
  by (auto simp: observeUsage_def kept_def Let_def split: option.split)

text \<open>The price of a meter depends on its bytes, not on their kind.\<close>

lemma meterMicro_admit: "meterMicro p (meter_admit d m) = meterMicro p (m\<lparr>mt_semanticBytes := i64_add (mt_semanticBytes m) (int (length (dl_Text d)))\<rparr>)"
  by (simp add: meterMicro_def meter_admit_def capTierPrompt_def meter_outputTokens_def Let_def)

definition bytesOf :: "StreamDelta list \<Rightarrow> int" where
  "bytesOf ds = sum_list (map (\<lambda>d. int (length (dl_Text d))) ds)"

definition reasoningOf :: "StreamDelta list \<Rightarrow> int" where
  "reasoningOf ds = bytesOf (filter (\<lambda>d. dl_Type d = ''thinking_delta'') ds)"

definition metered :: "stage_stream \<Rightarrow> bool" where
  "metered s \<longleftrightarrow> mt_semanticBytes (ct_meter (st_ctl s)) = wrap64 (bytesOf (st_visible s))
     \<and> mt_reasoningBytes (ct_meter (st_ctl s)) = wrap64 (reasoningOf (st_visible s))"

lemma admit_bytes:
  "mt_semanticBytes m = wrap64 (bytesOf ds) \<Longrightarrow> mt_reasoningBytes m = wrap64 (reasoningOf ds) \<Longrightarrow>
     mt_semanticBytes (meter_admit d m) = wrap64 (bytesOf (ds @ [d])) \<and> mt_reasoningBytes (meter_admit d m) = wrap64 (reasoningOf (ds @ [d]))"
  by (simp add: meter_admit_def Let_def i64_add_def wrap64_add_left bytesOf_def reasoningOf_def)

definition capped :: "stage_stream \<Rightarrow> bool" where
  "capped s \<longleftrightarrow> (let c = st_ctl s in cf_terminateAtCap (ct_config c) \<longrightarrow> ct_hasPrice c \<and> 0 < ct_capMicro c
     \<and> (\<forall>d. st_phase s = Writing d \<longrightarrow> meterMicro (ct_price c) (meter_admit d (ct_meter c)) \<le> ct_capMicro c))"

lemma kept_capped:
  assumes "kept (st_ctl s) (st_ctl s')" "capped s" "\<forall>d. st_phase s' \<noteq> Writing d"
  shows "capped s'"
  using assms by (auto simp: kept_def capped_def Let_def)

lemma step_kept:
  assumes "stage_step env s s'" "metered s" "capped s"
  shows "kept (st_ctl s) (st_ctl s') \<and> metered s' \<and> capped s'"
  using assms
proof cases
  case (admit d c w)
  note k = beforeSlice_kept [OF admit(3)]
  have "capped s'"
    using k assms(3) admit(1) by (auto simp: kept_def capped_def Let_def wouldExceedCapLocked_def meterMicro_admit not_less)
  then show ?thesis using k assms(2) admit(1) by (simp add: metered_def)
next
  case (refuse d t c w)
  then show ?thesis using beforeSlice_kept [OF refuse(3)] assms(2) kept_capped [OF _ assms(3), of s'] by (simp add: metered_def)
next
  case (written d c w)
  then show ?thesis using afterSlice_kept [OF written(3)] assms(2) kept_capped [OF _ assms(3), of s'] admit_bytes by (simp add: metered_def)
next
  case (written_stop d t c w)
  then show ?thesis using afterSlice_kept [OF written_stop(3)] assms(2) kept_capped [OF _ assms(3), of s'] admit_bytes by (simp add: metered_def)
next
  case (write_error d)
  then show ?thesis using assms(2) kept_capped [OF _ assms(3), of s'] by (simp add: metered_def kept_def)
next
  case (observe u)
  then show ?thesis using observe_kept assms(2) kept_capped [OF _ assms(3), of s'] by (simp add: metered_def)
next
  case (terminated t)
  then show ?thesis using assms(2) kept_capped [OF _ assms(3), of s'] by (simp add: metered_def kept_def)
next
  case (tick c w)
  then show ?thesis using tick_framed [OF tick(3)] assms(2, 3) by (auto simp: metered_def framed_def kept_def capped_def Let_def)
next
  case stop
  then show ?thesis using assms(2, 3) by (auto simp: metered_def kept_def capped_def Let_def stopCadence_def)
qed

lemma kept_trans: "kept a b \<Longrightarrow> kept b c \<Longrightarrow> kept a c"
  by (auto simp: kept_def)

lemma start_kept:
  assumes "preHeader env c0 w0 = (None, c, w)" "mt_semanticBytes (ct_meter c0) = 0" "mt_reasoningBytes (ct_meter c0) = 0"
  shows "kept c0 c \<and> metered \<lparr>st_ctl = c, st_world = w, st_phase = Idle, st_visible = []\<rparr> \<and> capped \<lparr>st_ctl = c, st_world = w, st_phase = Idle, st_visible = []\<rparr>"
proof -
  obtain err c1 w1 where snd: "sendHeartbeatLocked env 1 c0 w0 = (err, c1, w1)" by (metis prod_cases3)
  then have "framed c0 c1" by (rule send_spec)
  moreover have "err = None" "c = c1\<lparr>ct_ticking := True\<rparr>"
    "\<not> (cf_terminateAtCap (ct_config c1) \<and> (\<not> ct_hasPrice c1 \<or> ct_capMicro c1 \<le> 0))"
    using assms(1) snd by (auto simp: preHeader_def split: option.splits if_splits)
  ultimately show ?thesis using assms(2, 3) by (auto simp: metered_def framed_def kept_def capped_def Let_def bytesOf_def reasoningOf_def wrap64_def)
qed

lemma reach_kept:
  assumes "stage_reach env c0 w0 s" "mt_semanticBytes (ct_meter c0) = 0" "mt_reasoningBytes (ct_meter c0) = 0"
  shows "kept c0 (st_ctl s) \<and> metered s \<and> capped s"
  using assms(1)
proof induction
  case (start c w)
  then show ?case using start_kept [OF start assms(2, 3)] by simp
next
  case (run s s')
  then show ?case using step_kept [OF run(2)] kept_trans by blast
qed

section \<open>What heartbeats report\<close>

lemma i64_quot4: "0 \<le> a \<Longrightarrow> a \<le> MaxInt64 \<Longrightarrow> i64_quot a 4 = a div 4"
  by (rule i64_quot_nonneg) simp_all

lemma bytes_nonneg: "0 \<le> bytesOf ds"
  by (induction ds) (simp_all add: bytesOf_def)

lemma reasoning_le: "0 \<le> reasoningOf ds \<and> reasoningOf ds \<le> bytesOf ds"
  by (induction ds) (auto simp: bytesOf_def reasoningOf_def)

lemma bytes_append: "bytesOf (ds @ [d]) = bytesOf ds + int (length (dl_Text d))" "reasoningOf ds \<le> reasoningOf (ds @ [d])"
  by (simp_all add: bytesOf_def reasoningOf_def)

lemma metered_tokens:
  assumes "metered s" "bytesOf (st_visible s) \<le> MaxInt64"
  shows "meter_outputTokens (ct_meter (st_ctl s)) = bytesOf (st_visible s) div 4" "meter_reasoningTokens (ct_meter (st_ctl s)) = reasoningOf (st_visible s) div 4"
proof -
  note b = bytes_nonneg [of "st_visible s"] reasoning_le [of "st_visible s"]
  have "in_i64 (bytesOf (st_visible s))" "in_i64 (reasoningOf (st_visible s))"
    using b assms(2) by (auto intro: in_i64_nonneg order_trans)
  then show "meter_outputTokens (ct_meter (st_ctl s)) = bytesOf (st_visible s) div 4" "meter_reasoningTokens (ct_meter (st_ctl s)) = reasoningOf (st_visible s) div 4"
    using assms b by (simp_all add: metered_def meter_outputTokens_def meter_reasoningTokens_def i64_quot4)
qed

definition lag_ok :: "stageDController \<Rightarrow> bool" where
  "lag_ok c \<longleftrightarrow> (\<not> ct_heartbeatLost c \<longrightarrow> 0 \<le> ct_lastOutput c \<and> ct_lastOutput c \<le> meter_outputTokens (ct_meter c)
     \<and> meter_outputTokens (ct_meter c) - ct_lastOutput c < stageDHeartbeatOutputTokenDelta)"

definition reported :: "stage_stream \<Rightarrow> bool" where
  "reported s \<longleftrightarrow> beats_ok (st_ctl s) (st_world s) \<and> lag_ok (st_ctl s)
     \<and> (\<forall>d. st_phase s = Writing d \<longrightarrow> ct_sliceInFlight (st_ctl s) \<and> \<not> ct_heartbeatLost (st_ctl s))"

lemma beats_ok_read [simp]: "beats_ok c (w\<lparr>sw_reads := n\<rparr>) = beats_ok c w"
  by (simp add: beats_ok_def)

lemma flags_frame [simp]:
  "beats_ok (c\<lparr>ct_closes := n\<rparr>) w = beats_ok c w" "beats_ok (c\<lparr>ct_sliceInFlight := b\<rparr>) w = beats_ok c w" "beats_ok (c\<lparr>ct_ticking := b\<rparr>) w = beats_ok c w"
  "lag_ok (c\<lparr>ct_closes := n\<rparr>) = lag_ok c" "lag_ok (c\<lparr>ct_sliceInFlight := b\<rparr>) = lag_ok c" "lag_ok (c\<lparr>ct_ticking := b\<rparr>) = lag_ok c"
  by (simp_all add: beats_ok_def lag_ok_def)

lemma beat_reported:
  assumes "beat env due c w = (lost, c', w')" "beats_ok c w" "\<not> ct_heartbeatLost c" "0 \<le> ct_lastOutput c" "ct_lastOutput c \<le> meter_outputTokens (ct_meter c)"
    "due \<or> meter_outputTokens (ct_meter c) - ct_lastOutput c < stageDHeartbeatOutputTokenDelta"
  shows "beats_ok c' w' \<and> lag_ok c' \<and> ct_heartbeatLost c' = lost"
  using beat_ok [OF assms(1-3)] assms(4-6) by (auto simp: lag_ok_def framed_def stageDHeartbeatOutputTokenDelta_def split: if_splits)

lemma lag_sub:
  assumes "0 \<le> x" "x \<le> y" "y \<le> MaxInt64"
  shows "i64_sub y x = y - x"
  using assms by (intro i64_sub_exact in_i64_nonneg) linarith+

lemma beforeSlice_reported:
  assumes "beforeSlice env d c w = (t, c', w')" "beats_ok c w" "lag_ok c" "meter_outputTokens (ct_meter c) \<le> MaxInt64"
  shows "beats_ok c' w' \<and> lag_ok c' \<and> (t = None \<longrightarrow> \<not> ct_heartbeatLost c')"
proof (cases "ct_heartbeatLost c")
  case True
  then show ?thesis using assms by (auto simp: beforeSlice_def)
next
  case False
  let ?w = "w\<lparr>sw_reads := Suc (sw_reads w)\<rparr>" and ?due = "t_Sub (sd_now env (sw_reads w)) (ct_lastAccepted c) \<ge> stageDHeartbeatInterval
    \<or> i64_sub (meter_outputTokens (ct_meter c)) (ct_lastOutput c) \<ge> stageDHeartbeatOutputTokenDelta"
  obtain lost c1 w1 where b: "beat env ?due c ?w = (lost, c1, w1)" by (metis prod_cases3)
  have lag: "0 \<le> ct_lastOutput c" "ct_lastOutput c \<le> meter_outputTokens (ct_meter c)" using assms(3) False by (auto simp: lag_ok_def)
  have "beats_ok c1 w1 \<and> lag_ok c1 \<and> ct_heartbeatLost c1 = lost"
    using beat_reported [OF b _ False lag] assms(2) lag_sub [OF lag assms(4)] by (simp add: not_le) linarith
  then show ?thesis using assms(1) False b
    by (cases lost) (auto simp: beforeSlice_def split: if_splits)
qed

lemma afterSlice_reported:
  assumes "afterSlice env d c w = (t, c', w')" "beats_ok c w" "lag_ok c" "\<not> ct_heartbeatLost c"
    "usage_le (heartbeatUsage (ct_meter c)) (heartbeatUsage (meter_admit d (ct_meter c)))" "meter_outputTokens (meter_admit d (ct_meter c)) \<le> MaxInt64"
  shows "beats_ok c' w' \<and> lag_ok c'"
proof -
  let ?c = "c\<lparr>ct_sliceInFlight := False, ct_meter := meter_admit d (ct_meter c)\<rparr>"
  let ?w = "w\<lparr>sw_reads := Suc (sw_reads w)\<rparr>" and ?due = "t_Sub (sd_now env (sw_reads w)) (ct_lastAccepted ?c) \<ge> stageDHeartbeatInterval
    \<or> i64_sub (meter_outputTokens (ct_meter ?c)) (ct_lastOutput ?c) \<ge> stageDHeartbeatOutputTokenDelta"
  obtain lost c1 w1 where b: "beat env ?due ?c ?w = (lost, c1, w1)" by (metis prod_cases3)
  have lag: "0 \<le> ct_lastOutput ?c" "ct_lastOutput ?c \<le> meter_outputTokens (ct_meter ?c)"
    using assms(3-5) by (auto simp: lag_ok_def usage_le_def heartbeatUsage_def)
  have ok: "beats_ok ?c ?w" by (rule beats_ok_meter [OF assms(2, 5)]) simp_all
  have "beats_ok c1 w1 \<and> lag_ok c1"
    using beat_reported [OF b ok _ lag] assms(4) lag_sub [OF lag] assms(6) by (simp add: not_le) linarith
  then show ?thesis using assms(1, 4) b by (cases lost) (auto simp: afterSlice_def Let_def)
qed

lemma tick_reported:
  assumes "cadenceTick env c w = (c', w')" "beats_ok c w" "lag_ok c"
  shows "beats_ok c' w' \<and> lag_ok c'"
  using assms(1)
proof (rule tick_cases)
  fix due lost
  assume b: "beat env due c (w\<lparr>sw_reads := Suc (sw_reads w)\<rparr>) = (lost, c', w')" "\<not> ct_heartbeatLost c" "\<not> ct_sliceInFlight c"
  then show ?thesis using beat_reported [OF b(1) _ b(2)] assms(2, 3) by (auto simp: lag_ok_def)
qed (use assms in auto)

lemma observe_reported:
  assumes "beats_ok c w" "lag_ok c"
  shows "beats_ok (observeUsage u c) w \<and> lag_ok (observeUsage u c)"
proof -
  have "usage_le (heartbeatUsage (ct_meter c)) (heartbeatUsage (ct_meter (observeUsage u c)))"
    by (auto simp: observeUsage_def usage_le_def heartbeatUsage_def Let_def meter_outputTokens_def meter_reasoningTokens_def split: option.split)
  moreover have "ct_heartbeatLost (observeUsage u c) = ct_heartbeatLost c" "ct_seq (observeUsage u c) = ct_seq c" "ct_lastOutput (observeUsage u c) = ct_lastOutput c"
    "meter_outputTokens (ct_meter (observeUsage u c)) = meter_outputTokens (ct_meter c)"
    by (auto simp: observeUsage_def Let_def meter_outputTokens_def split: option.split)
  ultimately show ?thesis using assms beats_ok_meter [OF assms(1), of "ct_meter (observeUsage u c)" "observeUsage u c" w] by (simp add: lag_ok_def)
qed

lemma admit_usage_le:
  assumes "metered s" "metered s'" "ct_meter (st_ctl s') = meter_admit d (ct_meter (st_ctl s))" "st_visible s' = st_visible s @ [d]"
    "bytesOf (st_visible s') \<le> MaxInt64"
  shows "usage_le (heartbeatUsage (ct_meter (st_ctl s))) (heartbeatUsage (meter_admit d (ct_meter (st_ctl s))))"
proof -
  have b: "bytesOf (st_visible s) \<le> MaxInt64" using assms(4, 5) by (simp add: bytes_append)
  have "bytesOf (st_visible s) div 4 \<le> bytesOf (st_visible s') div 4" "reasoningOf (st_visible s) div 4 \<le> reasoningOf (st_visible s') div 4"
    using assms(4) bytes_append by (auto intro!: zdiv_mono1)
  then show ?thesis
    using metered_tokens [OF assms(1) b] metered_tokens [OF assms(2, 5)] assms(3)
    by (auto simp: usage_le_def heartbeatUsage_def meter_admit_def Let_def)
qed

lemma output_le: "metered s \<Longrightarrow> bytesOf (st_visible s) \<le> MaxInt64 \<Longrightarrow> meter_outputTokens (ct_meter (st_ctl s)) \<le> MaxInt64"
  using metered_tokens(1) [of s] bytes_nonneg [of "st_visible s"] by (simp add: i64_defs)

lemma step_visible: "stage_step env s s' \<Longrightarrow> \<exists>ds. st_visible s' = st_visible s @ ds"
  by (induction rule: stage_step.induct) auto

lemma bytes_prefix: "bytesOf ds \<le> bytesOf (ds @ es)"
  using bytes_nonneg [of es] by (simp add: bytesOf_def)

lemma step_reported:
  assumes "stage_step env s s'" "metered s" "metered s'" "reported s" "bytesOf (st_visible s') \<le> MaxInt64"
  shows "reported s'"
proof -
  have b: "bytesOf (st_visible s) \<le> MaxInt64" using step_visible [OF assms(1)] assms(5) bytes_prefix order_trans by metis
  note o = output_le [OF assms(2) b] and o' = output_le [OF assms(3, 5)]
  have r: "beats_ok (st_ctl s) (st_world s)" "lag_ok (st_ctl s)"
    "\<And>d. st_phase s = Writing d \<Longrightarrow> ct_sliceInFlight (st_ctl s) \<and> \<not> ct_heartbeatLost (st_ctl s)" using assms(4) by (auto simp: reported_def)
  from assms(1) show ?thesis
  proof cases
    case (admit d c w)
    then show ?thesis using beforeSlice_reported [OF admit(3) r(1, 2) o] beforeSlice_kept [OF admit(3)] by (simp add: reported_def)
  next
    case (refuse d t c w)
    then show ?thesis using beforeSlice_reported [OF refuse(3) r(1, 2) o] by (simp add: reported_def)
  next
    case (written d c w)
    have m: "ct_meter (st_ctl s') = meter_admit d (ct_meter (st_ctl s))" using afterSlice_kept [OF written(3)] written(1) by simp
    have u: "usage_le (heartbeatUsage (ct_meter (st_ctl s))) (heartbeatUsage (meter_admit d (ct_meter (st_ctl s))))"
      by (rule admit_usage_le [OF assms(2, 3) m _ assms(5)]) (simp add: written(1))
    then show ?thesis using afterSlice_reported [OF written(3) r(1, 2) _ u] r(3) [OF written(2)] o' m written(1) by (simp add: reported_def)
  next
    case (written_stop d t c w)
    have m: "ct_meter (st_ctl s') = meter_admit d (ct_meter (st_ctl s))" using afterSlice_kept [OF written_stop(3)] written_stop(1) by simp
    have u: "usage_le (heartbeatUsage (ct_meter (st_ctl s))) (heartbeatUsage (meter_admit d (ct_meter (st_ctl s))))"
      by (rule admit_usage_le [OF assms(2, 3) m _ assms(5)]) (simp add: written_stop(1))
    then show ?thesis using afterSlice_reported [OF written_stop(3) r(1, 2) _ u] r(3) [OF written_stop(2)] o' m written_stop(1) by (simp add: reported_def)
  next
    case (observe u)
    then show ?thesis using observe_reported [OF r(1, 2), of u] by (simp add: reported_def)
  next
    case (tick c w)
    have "c = st_ctl s \<and> w = st_world s" if "st_phase s = Writing d" for d
      using tick(3) r(3) [OF that] by (auto simp: cadenceTick_def)
    then show ?thesis using tick tick_reported [OF tick(3) r(1, 2)] r(3) by (auto simp: reported_def)
  qed (use r in \<open>auto simp: reported_def stopCadence_def\<close>)
qed

lemma start_reported:
  assumes "preHeader env c0 w0 = (None, c, w)" "sw_calls w0 = []" "ct_heartbeatLost c0 = False" "mt_semanticBytes (ct_meter c0) = 0"
  shows "reported \<lparr>st_ctl = c, st_world = w, st_phase = Idle, st_visible = []\<rparr>"
proof -
  obtain err c1 w1 where snd: "sendHeartbeatLocked env 1 c0 w0 = (err, c1, w1)" by (metis prod_cases3)
  obtain now out where o: "sw_calls w1 = sw_calls w0 @ [(heartbeatFor env c0 1 now, out)]" "framed c0 c1" "ct_heartbeatLost c1 = ct_heartbeatLost c0"
    "err = None \<longleftrightarrow> acknowledged 1 out" "err = None \<longrightarrow> ct_seq c1 = 1 \<and> ct_lastOutput c1 = meter_outputTokens (ct_meter c0)"
    using snd by (rule send_spec)
  have c: "err = None" "c = c1\<lparr>ct_ticking := True\<rparr>" "w = w1"
    using assms(1) snd by (auto simp: preHeader_def split: option.splits if_splits)
  have m: "ct_meter c1 = ct_meter c0" "meter_outputTokens (ct_meter c0) = 0" "wrap64 1 = 1"
    using o(2) assms(4) by (simp_all add: framed_def meter_outputTokens_def i64_quot_def wrap64_def)
  have "beats_ok c w" "lag_ok c"
    using c o assms(2, 3) m
    by (simp_all add: beats_ok_def Let_def ackedCall_def heartbeatFor_def lag_ok_def stageDHeartbeatOutputTokenDelta_def heartbeatUsage_def)
  then show ?thesis by (simp add: reported_def)
qed

lemma reach_reported:
  assumes "stage_reach env c0 w0 s" "sw_calls w0 = []" "ct_heartbeatLost c0 = False" "mt_semanticBytes (ct_meter c0) = 0" "mt_reasoningBytes (ct_meter c0) = 0"
    "bytesOf (st_visible s) \<le> MaxInt64"
  shows "reported s"
  using assms(1, 6)
proof induction
  case (start c w)
  then show ?case using start_reported [OF start(1) assms(2-4)] by simp
next
  case (run s s')
  have "bytesOf (st_visible s) \<le> MaxInt64" using step_visible [OF run(2)] run(4) bytes_prefix order_trans by metis
  moreover have "metered s" "metered s'" using reach_kept [OF _ assms(4, 5)] run(1, 2) stage_reach.run by blast+
  ultimately show ?case using step_reported [OF run(2)] run(3, 4) by blast
qed

section \<open>Properties\<close>


text \<open>(C39) Heartbeats follow the stream. In every reachable state the heartbeats sent so far are numbered from one without a gap, each was
  acknowledged before the next was sent, and no counter of a later one is below that of an earlier one. Unless the heartbeat is lost, what the client has
  seen is less than 256 tokens ahead of the last acknowledged report; and nothing is written once it is lost.\<close>
theorem stage_d_heartbeats:
  assumes "stage_reach env (newStageDController env config started ep prompt) w0 s" "sw_calls w0 = []" "bytesOf (st_visible s) \<le> MaxInt64"
  shows "let cs = sw_calls (st_world s); lost = ct_heartbeatLost (st_ctl s) in
    map call_seq cs = map (\<lambda>i. wrap64 (int i + 1)) [0..<length cs]
    \<and> list_all ackedCall (if lost then butlast cs else cs)
    \<and> sorted_wrt usage_le (map (\<lambda>x. hb_Usage (fst x)) cs)
    \<and> (\<not> lost \<longrightarrow> bytesOf (st_visible s) div 4 - (if cs = [] then 0 else hu_OutputTokens (hb_Usage (fst (last cs)))) < 256)
    \<and> (\<forall>d. st_phase s = Writing d \<longrightarrow> \<not> lost)"
proof -
  obtain price ok where p: "priceFor (pau_CandidatePrices (sd_auth env)) ep = (price, ok)" by fastforce
  have z: "ct_heartbeatLost (newStageDController env config started ep prompt) = False"
    "mt_semanticBytes (ct_meter (newStageDController env config started ep prompt)) = 0"
    "mt_reasoningBytes (ct_meter (newStageDController env config started ep prompt)) = 0"
    by (simp_all add: newStageDController_def p)
  have m: "metered s" using reach_kept [OF assms(1) z(2, 3)] by simp
  show ?thesis
    using reach_reported [OF assms(1, 2) z assms(3)] metered_tokens(1) [OF m assms(3)]
    by (auto simp: reported_def beats_ok_def lag_ok_def Let_def stageDHeartbeatOutputTokenDelta_def)
qed

definition exStage :: stage_env where
  "exStage = \<lparr>sd_net = exNet 0, sd_client = exClient, sd_context = exContext, sd_authorizeRetry = defaultAuthorizeRetryPolicy,
     sd_signer = Some \<lparr>ds_Kid = ''k'', ds_SignDigest = (\<lambda>_. Some ''s'')\<rparr>, sd_sha256 = (\<lambda>_. ''d''),
     sd_decodeValue = (\<lambda>_. Inr (JObj [(''accepted'', JBool True), (''seq'', JNum ''1'')])), sd_now = (\<lambda>_. \<lparr>t_wall = 0, t_mono = Some 0\<rparr>),
     sd_auth = exampleAuth\<lparr>pau_CapMicro := 7000\<rparr>\<rparr>"

definition exWorld :: stage_world where
  "exWorld = \<lparr>sw_net = exStart, sw_reads = 0, sw_calls = []\<rparr>"

definition exConfig :: stageDConfig where
  "exConfig = \<lparr>cf_usageHeartbeat = True, cf_terminateAtCap = True, cf_heartbeatBudget = 5 * Second, cf_settleBeforeTerminal = 2 * Second\<rparr>"

definition exController :: stageDController where
  "exController = newStageDController exStage exConfig \<lparr>t_wall = 0, t_mono = Some 0\<rparr> ''e1'' 1000"

definition exReply :: HeartbeatResponse where
  "exReply = zeroResponse\<lparr>hbr_Accepted := True, hbr_Seq := 1\<rparr>"

lemma exStage_reply: "heartbeatReply exStage resp = Inr exReply"
proof -
  have "responseDecoder zeroResponse (JObj [(''accepted'', JBool True), (''seq'', JNum ''1'')]) = Some exReply" by code_simp
  then show ?thesis by (simp add: heartbeatReply_def exStage_def)
qed

lemma exStage_heartbeat: "fst (Heartbeat exStage (heartbeatFor exStage exController 1 now) exStart) = Inr exReply"
proof -
  have n: "''https://a'' @ HeartbeatPath \<noteq> ''https://a'' @ settlePath" by code_simp
  have "fst (heartbeatBytes exStage body exStart) = Inr exReply" for body
    unfolding heartbeatBytes_def postJSONBytesWithRetryFromEndpoint_def
    using n exStage_reply
    by (simp add: exStage_def SignAuthorize_def Let_def normalizeRetryPolicy_def defaultAuthorizeRetryPolicy_def postJSONBytesWithBootAuthAtEndpoint_def
        postToControlPlaneWithBootAuth_def exClient_def exampleAuth_def pinnedControlPlaneEndpoint_def authority_pin.defs httpc_Do_def exNet_def numeral_eq_Suc)
  then show ?thesis by (simp add: Heartbeat_def heartbeatFor_def Let_def)
qed

definition exBeaten :: stageDController where
  "exBeaten = exController\<lparr>ct_seq := 1, ct_lastAccepted := \<lparr>t_wall = 0, t_mono = Some 0\<rparr>, ct_lastOutput := 0\<rparr>"

lemma exStage_send: "\<exists>w. sendHeartbeatLocked exStage 1 exController exWorld = (None, exBeaten, w) \<and> sw_reads w = 2"
proof -
  let ?r = "heartbeatFor exStage exController 1 \<lparr>t_wall = 0, t_mono = Some 0\<rparr>"
  obtain net where h: "Heartbeat exStage ?r exStart = (Inr exReply, net)" using exStage_heartbeat by (metis prod.collapse)
  have clock: "sd_now exStage n = \<lparr>t_wall = 0, t_mono = Some 0\<rparr>" for n by (simp add: exStage_def)
  have r: "hbr_Accepted exReply" "hbr_Seq exReply = 1" "hbr_CapMicro exReply = 0" by (simp_all add: exReply_def zeroResponse_def)
  have m: "meter_outputTokens (ct_meter exController) = 0" by code_simp
  show ?thesis using h r m by (simp add: sendHeartbeatLocked_def exWorld_def clock Let_def acknowledged_def exBeaten_def)
qed

definition exDelta :: StreamDelta where
  "exDelta = \<lparr>dl_Type = ''text_delta'', dl_Index = 0, dl_Text = ''hello'', dl_Signature = []\<rparr>"

lemma exStage_writing: "\<exists>s. stage_reach exStage exController exWorld s \<and> st_phase s = Writing exDelta \<and> st_visible s = []"
proof -
  obtain w where w: "sendHeartbeatLocked exStage 1 exController exWorld = (None, exBeaten, w)" using exStage_send by blast
  have cap: "\<not> (cf_terminateAtCap (ct_config exBeaten) \<and> (\<not> ct_hasPrice exBeaten \<or> ct_capMicro exBeaten \<le> 0 \<or> cand_Rounding (ct_price exBeaten) \<noteq> ''half_up_per_million''))"
    by code_simp
  let ?c = "exBeaten\<lparr>ct_ticking := True\<rparr>"
  have "preHeader exStage exController exWorld = (None, ?c, w)" using w cap by (simp add: preHeader_def)
  then have s: "stage_reach exStage exController exWorld \<lparr>st_ctl = ?c, st_world = w, st_phase = Idle, st_visible = []\<rparr>" by (rule stage_reach.start)
  have clock: "sd_now exStage n = \<lparr>t_wall = 0, t_mono = Some 0\<rparr>" for n by (simp add: exStage_def)
  have due: "\<not> stageDHeartbeatInterval \<le> t_Sub \<lparr>t_wall = 0, t_mono = Some 0\<rparr> (ct_lastAccepted ?c)"
    "\<not> stageDHeartbeatOutputTokenDelta \<le> i64_sub (meter_outputTokens (ct_meter ?c)) (ct_lastOutput ?c)"
    "\<not> ct_heartbeatLost ?c" "\<not> wouldExceedCapLocked ?c (dl_Text exDelta)" by code_simp+
  then have "beforeSlice exStage exDelta ?c w = (None, ?c\<lparr>ct_sliceInFlight := True\<rparr>, w\<lparr>sw_reads := Suc (sw_reads w)\<rparr>)"
    unfolding beforeSlice_def beat_def time_Now_def clock by simp
  then have "stage_step exStage \<lparr>st_ctl = ?c, st_world = w, st_phase = Idle, st_visible = []\<rparr>
      (\<lparr>st_ctl = ?c, st_world = w, st_phase = Idle, st_visible = []\<rparr>\<lparr>st_ctl := ?c\<lparr>ct_sliceInFlight := True\<rparr>, st_world := w\<lparr>sw_reads := Suc (sw_reads w)\<rparr>, st_phase := Writing exDelta\<rparr>)"
    by (intro stage_step.admit) simp_all
  from stage_reach.run [OF s this] show ?thesis by fastforce
qed


theorem stage_d_heartbeats_witness:
  "\<exists>s. stage_reach exStage exController exWorld s \<and> st_phase s = Writing exDelta \<and> \<not> ct_heartbeatLost (st_ctl s)
     \<and> list_all ackedCall (sw_calls (st_world s))"
proof -
  obtain s where s: "stage_reach exStage exController exWorld s" "st_phase s = Writing exDelta" "st_visible s = []" using exStage_writing by blast
  have c: "sw_calls exWorld = []" "bytesOf (st_visible s) \<le> MaxInt64" using s(3) by (simp_all add: exWorld_def bytesOf_def i64_defs)
  show ?thesis using stage_d_heartbeats [OF s(1) [unfolded exController_def] c] s by (auto simp: Let_def)
qed

end
