(* ===== verification/SettleQueue.thy ===== *)
theory SettleQueue
  imports StageD "HOL-Library.Multiset"
begin

text \<open>
  The queue of settlements and refunds to try again (\<open>cmd/enclave/settlement_retry.go\<close>). A job is compacted, its request is frozen once, and every attempt
  sends those bytes (theory \<open>ControlFreeze\<close>); a job the queue gives up on goes to the settle outbox (theory \<open>SettleOutbox\<close>). Callers, the goroutines that
  hold a job back, the worker, the shutdown drain and the goroutine of the outbox interleave: \<open>Enqueue\<close> is several steps of a thread,
  one for each access to the channel or the counter of held jobs. The clock readings of a step are arbitrary, so a hold may end at any time.
  \<open>rq_submitted\<close>, \<open>rq_finished\<close>, \<open>rq_given\<close> and \<open>rq_interrupted\<close> are histories; logging is left out.
\<close>

section \<open>Jobs\<close>

record settlementRetryJob =
  rj_reportedCost :: "int option"
  rj_authorization :: "Authorization option"
  rj_usage :: Usage
  rj_requestLogID :: string
  rj_clientContext :: "ClientContext option"
  rj_attempt :: int
  rj_enqueuedAt :: gotime
  rj_kind :: string
  rj_refundStatus :: int
  rj_refundType :: string
  rj_refundElapsed :: gofloat
  rj_refundMetadata :: "(string \<times> anyval) list option"
  rj_cause :: "go_error option"
  rj_notBefore :: gotime
  rj_frozen :: "FrozenTerminal option"
  rj_frozenErr :: "go_error option"
  rj_frozenSet :: bool

record retry_env =
  re_settle :: "SettleResult settle_env"
  re_client :: Client
  re_context :: call_context

definition t_IsZero :: "gotime \<Rightarrow> bool" where
  "t_IsZero t \<longleftrightarrow> t_wall t = t_wall zeroTime"

definition stageDTimeout :: "go_error option \<Rightarrow> bool" where
  "stageDTimeout err = (case err of None \<Rightarrow> False | Some e \<Rightarrow> errors_Is e DeadlineExceeded \<or> errors_Is e Canceled)"

text \<open>The frozen request, or the error that kept it from being built; neither for a refund without an authorization.\<close>

definition freezeSettlementRetry :: "retry_env \<Rightarrow> settlementRetryJob \<Rightarrow> FrozenTerminal option \<times> go_error option" where
  "freezeSettlementRetry env job =
     (let bx = \<lparr>bx_requestLogID = rj_requestLogID job, bx_clientContext = rj_clientContext job\<rparr>;
          result = (\<lambda>r. case r of Inl e \<Rightarrow> (None, Some e) | Inr t \<Rightarrow> (Some t, None)) in
      if rj_kind job = ''refund'' then
        (case rj_authorization job of
           None \<Rightarrow> (None, None)
         | Some auth \<Rightarrow> result (FreezeRefund (st_float (re_settle env)) (re_client env) bx auth (rj_refundStatus job) (rj_refundType job) (rj_refundElapsed job) (rj_refundMetadata job)))
      else
        (case rj_authorization job of
           None \<Rightarrow> (None, Some (errorf ''trustedrouter: nil authorization''))
         | Some auth \<Rightarrow> result (FreezeSettle (st_float (re_settle env)) (re_client env) bx auth (rj_usage job))))"

definition compactAuthorization :: "Authorization \<Rightarrow> Authorization" where
  "compactAuthorization a = a\<lparr>au_cacheAffinityKey := [], au_cacheAffinityExplicit := False, au_SettlementStatusURL := []\<rparr>"

definition compactSettlementRetryJob :: "retry_env \<Rightarrow> settlementRetryJob \<Rightarrow> settlementRetryJob" where
  "compactSettlementRetryJob env job0 =
     (let job = job0\<lparr>rj_authorization := map_option compactAuthorization (rj_authorization job0),
            rj_usage := (rj_usage job0)\<lparr>us_User := [], us_SessionID := [], us_Trace := None, us_Metadata := None, us_App := [], us_HTTPReferer := [],
              us_AppCategories := []\<rparr>,
            rj_refundMetadata := None, rj_cause := None\<rparr> in
      if rj_frozenSet job then job
      else (case freezeSettlementRetry env job of (t, e) \<Rightarrow> job\<lparr>rj_frozen := t, rj_frozenErr := e, rj_frozenSet := True\<rparr>))"

section \<open>The queue\<close>

datatype enqueue_pc = Enter | Count | Undo | Hold | Send | Evict | Resend | Leave

datatype enqueue_owner = Caller | Holder | Worker

record enqueue_thread =
  et_job :: settlementRetryJob
  et_pc :: enqueue_pc
  et_owner :: enqueue_owner

datatype retry_worker = Receiving | Processing settlementRetryJob | Enqueuing | Exited

record settlementRetryQueue =
  rq_enabled :: bool
  rq_cap :: nat
  rq_maxAttempts :: int
  rq_baseDelay :: int
  rq_maxDelay :: int
  rq_abandonedDelay :: int
  rq_jobs :: "settlementRetryJob list"
  rq_threads :: "enqueue_thread list"
  rq_deferred :: int
  rq_released :: bool
  rq_worker :: retry_worker
  rq_outbox :: "WriterQueue option"
  rq_net :: net_state
  rq_submitted :: "settlementRetryJob list"
  rq_finished :: "(settlementRetryJob \<times> SettleResult) list"
  rq_given :: "(settlementRetryJob \<times> string) list"
  rq_interrupted :: "settlementRetryJob list"

fun delayLoop :: "int \<Rightarrow> nat \<Rightarrow> int \<Rightarrow> int" where
  "delayLoop maxDelay 0 delay = delay"
| "delayLoop maxDelay (Suc n) delay = (let delay = i64_mul delay 2 in if delay \<ge> maxDelay then maxDelay else delayLoop maxDelay n delay)"

definition queue_delay :: "settlementRetryQueue \<Rightarrow> int \<Rightarrow> int" where
  "queue_delay q attempt = (if attempt \<le> 1 then 0 else delayLoop (rq_maxDelay q) (nat (attempt - 2)) (rq_baseDelay q))"

text \<open>\<open>newSettlementRetryQueueFromEnv\<close>, with the values read from the environment, and \<open>SetOutbox\<close>.\<close>

definition newSettlementRetryQueue :: "int \<Rightarrow> int \<Rightarrow> int \<Rightarrow> int \<Rightarrow> WriterQueue option \<Rightarrow> net_state \<Rightarrow> settlementRetryQueue" where
  "newSettlementRetryQueue qsize attempts base maxDelay outbox net =
     (let q = \<lparr>rq_enabled = False, rq_cap = 0, rq_maxAttempts = 0, rq_baseDelay = 0, rq_maxDelay = 0, rq_abandonedDelay = 0, rq_jobs = [], rq_threads = [],
            rq_deferred = 0, rq_released = False, rq_worker = Receiving, rq_outbox = outbox, rq_net = net, rq_submitted = [], rq_finished = [], rq_given = [],
            rq_interrupted = []\<rparr> in
      if qsize \<le> 0 then q
      else q\<lparr>rq_enabled := True, rq_cap := nat qsize, rq_maxAttempts := (if attempts \<le> 0 then 6 else attempts), rq_baseDelay := base,
             rq_maxDelay := max maxDelay base, rq_abandonedDelay := 23 * Second\<rparr>)"

definition firstAttempt :: "settlementRetryJob \<Rightarrow> settlementRetryJob" where
  "firstAttempt job = (if rj_attempt job \<le> 0 then job\<lparr>rj_attempt := 1\<rparr> else job)"

definition park :: "retry_env \<Rightarrow> settlementRetryJob \<Rightarrow> string \<Rightarrow> settlementRetryQueue \<Rightarrow> settlementRetryQueue" where
  "park env job0 reason q = (case rq_outbox q of
     None \<Rightarrow> q
   | Some outbox \<Rightarrow>
     (let job = firstAttempt (compactSettlementRetryJob env job0) in
      if rj_frozenErr job \<noteq> None then q
      else case rj_frozen job of
          None \<Rightarrow> q
        | Some t \<Rightarrow> q\<lparr>rq_outbox := Some (fst (Offer outbox \<lparr>en_Terminal = t, en_Reason = reason, en_Attempts = rj_attempt job\<rparr>))\<rparr>))"

definition giveUp :: "retry_env \<Rightarrow> settlementRetryJob \<Rightarrow> string \<Rightarrow> settlementRetryQueue \<Rightarrow> settlementRetryQueue" where
  "giveUp env job reason q = (park env job reason q)\<lparr>rq_given := rq_given q @ [(job, reason)]\<rparr>"

definition prepare :: "retry_env \<Rightarrow> gotime \<Rightarrow> gotime \<Rightarrow> settlementRetryQueue \<Rightarrow> settlementRetryJob \<Rightarrow> settlementRetryJob" where
  "prepare env now1 now2 q job0 =
     (let job = firstAttempt job0;
          job = (if rj_attempt job = 1 \<and> t_IsZero (rj_notBefore job) \<and> rq_abandonedDelay q > 0 \<and> stageDTimeout (rj_cause job)
                 then job\<lparr>rj_notBefore := t_Add now1 (rq_abandonedDelay q)\<rparr> else job);
          job = compactSettlementRetryJob env job
      in if t_IsZero (rj_enqueuedAt job) then job\<lparr>rj_enqueuedAt := now2\<rparr> else job)"

text \<open>One step of a thread in \<open>Enqueue\<close> (with \<open>deferUntilDue\<close>): the threads that take its place, and the queue.\<close>

definition threadStep :: "retry_env \<Rightarrow> gotime \<Rightarrow> gotime \<Rightarrow> gotime \<Rightarrow> enqueue_thread \<Rightarrow> settlementRetryQueue \<Rightarrow> enqueue_thread list \<times> settlementRetryQueue" where
  "threadStep env now1 now2 now3 t q = (case et_pc t of
     Enter \<Rightarrow>
       if \<not> rq_enabled q then ([t\<lparr>et_pc := Leave\<rparr>], giveUp env (et_job t) ''queue_disabled'' q)
       else (let job = prepare env now1 now2 q (et_job t) in
             ([t\<lparr>et_job := job, et_pc := (if t_Sub (rj_notBefore job) now3 \<le> 0 \<or> rq_released q then Send else Count)\<rparr>], q))
   | Count \<Rightarrow>
       if rq_deferred q + 1 > int (rq_cap q) then ([t\<lparr>et_pc := Undo\<rparr>], q\<lparr>rq_deferred := rq_deferred q + 1\<rparr>)
       else ([t\<lparr>et_pc := Leave\<rparr>, \<lparr>et_job = et_job t, et_pc = Hold, et_owner = Holder\<rparr>], q\<lparr>rq_deferred := rq_deferred q + 1\<rparr>)
   | Undo \<Rightarrow> ([t\<lparr>et_pc := Send\<rparr>], q\<lparr>rq_deferred := rq_deferred q - 1\<rparr>)
   | Hold \<Rightarrow> ([t\<lparr>et_job := (et_job t)\<lparr>rj_notBefore := zeroTime\<rparr>, et_pc := Enter\<rparr>], q)
   | Send \<Rightarrow>
       if length (rq_jobs q) < rq_cap q then ([t\<lparr>et_pc := Leave\<rparr>], q\<lparr>rq_jobs := rq_jobs q @ [et_job t]\<rparr>)
       else ([t\<lparr>et_pc := Evict\<rparr>], q)
   | Evict \<Rightarrow> (case rq_jobs q of
       dropped # rest \<Rightarrow> ([t\<lparr>et_pc := Resend\<rparr>], giveUp env dropped ''evicted'' (q\<lparr>rq_jobs := rest\<rparr>))
     | [] \<Rightarrow> ([t\<lparr>et_pc := Resend\<rparr>], q))
   | Resend \<Rightarrow>
       if length (rq_jobs q) < rq_cap q then ([t\<lparr>et_pc := Leave\<rparr>], q\<lparr>rq_jobs := rq_jobs q @ [et_job t]\<rparr>)
       else ([t\<lparr>et_pc := Leave\<rparr>], giveUp env (et_job t) ''queue_full'' q)
   | Leave \<Rightarrow> ([], case et_owner t of
       Caller \<Rightarrow> q
     | Holder \<Rightarrow> q\<lparr>rq_deferred := rq_deferred q - 1\<rparr>
     | Worker \<Rightarrow> q\<lparr>rq_worker := Receiving\<rparr>))"

text \<open>One attempt of the worker, after its delay.\<close>

definition attemptPost :: "retry_env \<Rightarrow> settlementRetryJob \<Rightarrow> net_state \<Rightarrow> (go_error + SettleResult) \<times> net_state" where
  "attemptPost env job w = (case rj_frozenErr job of
     Some e \<Rightarrow> (Inl e, w)
   | None \<Rightarrow> (case rj_frozen job of
       None \<Rightarrow> (Inr zeroResult, w)
     | Some t \<Rightarrow> PostFrozenTerminal (re_settle env) (re_client env) (re_context env) t w))"

definition process :: "retry_env \<Rightarrow> settlementRetryJob \<Rightarrow> settlementRetryQueue \<Rightarrow> settlementRetryQueue" where
  "process env job q = (case attemptPost env job (rq_net q) of
     (Inr r, w) \<Rightarrow> q\<lparr>rq_net := w, rq_finished := rq_finished q @ [(job, r)], rq_worker := Receiving\<rparr>
   | (Inl e, w) \<Rightarrow>
       if rj_attempt job \<ge> rq_maxAttempts q then (giveUp env job ''retry_exhausted'' (q\<lparr>rq_net := w\<rparr>))\<lparr>rq_worker := Receiving\<rparr>
       else q\<lparr>rq_net := w, rq_worker := Enqueuing,
              rq_threads := rq_threads q @ [\<lparr>et_job = job\<lparr>rj_attempt := i64_add (rj_attempt job) 1\<rparr>, et_pc = Enter, et_owner = Worker\<rparr>]\<rparr>)"

inductive retry_step :: "retry_env \<Rightarrow> settlementRetryQueue \<Rightarrow> settlementRetryQueue \<Rightarrow> bool" for env where
  submit: "retry_step env q (q\<lparr>rq_threads := rq_threads q @ [\<lparr>et_job = job, et_pc = Enter, et_owner = Caller\<rparr>], rq_submitted := rq_submitted q @ [job]\<rparr>)"
| thread: "rq_threads q = xs @ t # ys \<Longrightarrow> threadStep env now1 now2 now3 t q = (ts, q') \<Longrightarrow> retry_step env q (q'\<lparr>rq_threads := xs @ ts @ ys\<rparr>)"
| receive: "rq_enabled q \<Longrightarrow> rq_worker q = Receiving \<Longrightarrow> rq_jobs q = job # rest
    \<Longrightarrow> retry_step env q (q\<lparr>rq_jobs := rest, rq_worker := Processing (firstAttempt (compactSettlementRetryJob env job))\<rparr>)"
| attempt: "rq_worker q = Processing job \<Longrightarrow> retry_step env q (process env job q)"
| interrupt: "rq_worker q = Processing job \<Longrightarrow> queue_delay q (rj_attempt job) > 0
    \<Longrightarrow> retry_step env q (q\<lparr>rq_worker := Receiving, rq_interrupted := rq_interrupted q @ [job]\<rparr>)"
| exit: "rq_worker q = Receiving \<Longrightarrow> retry_step env q (q\<lparr>rq_worker := Exited\<rparr>)"
| release: "retry_step env q (q\<lparr>rq_released := True\<rparr>)"
| shutdown: "rq_jobs q = job # rest \<Longrightarrow> retry_step env q (giveUp env job ''shutdown'' (q\<lparr>rq_jobs := rest\<rparr>))"
| outbox: "rq_outbox q = Some ob \<Longrightarrow> writer_step ob ob' \<Longrightarrow> retry_step env q (q\<lparr>rq_outbox := Some ob'\<rparr>)"

text \<open>The answer of the worker to an idle check of \<open>WaitForIdle\<close>. The counter is read before the channel; with no held job
  and the worker answering, only a caller could fill the channel in between.\<close>

definition idleCheck :: "settlementRetryQueue \<Rightarrow> bool" where
  "idleCheck q \<longleftrightarrow> rq_worker q = Receiving \<and> rq_deferred q = 0 \<and> rq_jobs q = []"

end
