(* ===== verification/SettleQueueProps.thy ===== *)
theory SettleQueueProps
  imports SettleQueue
begin

text \<open>
  Conservation of the settlement retry queue: under every interleaving each submitted request is waiting, being sent, finished, or handed to the
  settle outbox, with the bytes that were frozen for it.
\<close>

section \<open>What identifies a job\<close>

text \<open>The request every attempt sends.\<close>

definition sends :: "retry_env \<Rightarrow> settlementRetryJob \<Rightarrow> FrozenTerminal option \<times> go_error option" where
  "sends env j = (let c = compactSettlementRetryJob env j in (rj_frozen c, rj_frozenErr c))"

lemma freeze_frame [simp]:
  "freezeSettlementRetry env (j\<lparr>rj_attempt := n\<rparr>) = freezeSettlementRetry env j"
  "freezeSettlementRetry env (j\<lparr>rj_notBefore := t\<rparr>) = freezeSettlementRetry env j"
  "freezeSettlementRetry env (j\<lparr>rj_enqueuedAt := t\<rparr>) = freezeSettlementRetry env j"
  by (cases "rj_authorization j"; simp add: freezeSettlementRetry_def Let_def)+

lemma sends_frame [simp]:
  "sends env (j\<lparr>rj_attempt := n\<rparr>) = sends env j"
  "sends env (j\<lparr>rj_notBefore := t\<rparr>) = sends env j"
  "sends env (j\<lparr>rj_enqueuedAt := t\<rparr>) = sends env j"
proof -
  have comm: "j\<lparr>rj_attempt := n\<rparr>\<lparr>rj_authorization := a, rj_usage := u, rj_refundMetadata := m, rj_cause := c\<rparr> = j\<lparr>rj_authorization := a, rj_usage := u, rj_refundMetadata := m, rj_cause := c\<rparr>\<lparr>rj_attempt := n\<rparr>"
    "j\<lparr>rj_notBefore := t\<rparr>\<lparr>rj_authorization := a, rj_usage := u, rj_refundMetadata := m, rj_cause := c\<rparr> = j\<lparr>rj_authorization := a, rj_usage := u, rj_refundMetadata := m, rj_cause := c\<rparr>\<lparr>rj_notBefore := t\<rparr>"
    "j\<lparr>rj_enqueuedAt := t\<rparr>\<lparr>rj_authorization := a, rj_usage := u, rj_refundMetadata := m, rj_cause := c\<rparr> = j\<lparr>rj_authorization := a, rj_usage := u, rj_refundMetadata := m, rj_cause := c\<rparr>\<lparr>rj_enqueuedAt := t\<rparr>"
    for a u m c by simp_all
  show "sends env (j\<lparr>rj_attempt := n\<rparr>) = sends env j" "sends env (j\<lparr>rj_notBefore := t\<rparr>) = sends env j" "sends env (j\<lparr>rj_enqueuedAt := t\<rparr>) = sends env j"
    unfolding sends_def compactSettlementRetryJob_def Let_def comm freeze_frame by (simp_all split: prod.split)
qed

lemma compact_frozen: "rj_frozenSet (compactSettlementRetryJob env j)"
  by (simp add: compactSettlementRetryJob_def Let_def split: prod.split)

lemma sends_frozen: "rj_frozenSet j \<Longrightarrow> sends env j = (rj_frozen j, rj_frozenErr j)"
  by (simp add: sends_def compactSettlementRetryJob_def)

lemma sends_compact [simp]: "sends env (compactSettlementRetryJob env j) = sends env j"
  unfolding sends_frozen [OF compact_frozen] by (simp add: sends_def Let_def)

lemma sends_firstAttempt [simp]: "sends env (firstAttempt j) = sends env j"
  by (simp add: firstAttempt_def)

lemma sends_prepare [simp]: "sends env (prepare env now1 now2 q j) = sends env j"
  by (simp add: prepare_def Let_def)

section \<open>Where the jobs are\<close>

definition threadJobs :: "enqueue_thread \<Rightarrow> settlementRetryJob list" where
  "threadJobs t = (if et_pc t = Leave then [] else [et_job t])"

definition workerJobs :: "retry_worker \<Rightarrow> settlementRetryJob list" where
  "workerJobs w = (case w of Processing j \<Rightarrow> [j] | _ \<Rightarrow> [])"

definition elsewhere :: "settlementRetryQueue \<Rightarrow> settlementRetryJob list" where
  "elsewhere q = rq_jobs q @ workerJobs (rq_worker q) @ map fst (rq_finished q) @ map fst (rq_given q) @ rq_interrupted q"

definition everywhere :: "settlementRetryQueue \<Rightarrow> settlementRetryJob list" where
  "everywhere q = concat (map threadJobs (rq_threads q)) @ elsewhere q"

abbreviation sent :: "retry_env \<Rightarrow> settlementRetryJob list \<Rightarrow> (FrozenTerminal option \<times> go_error option) multiset" where
  "sent env js \<equiv> mset (map (sends env) js)"

definition conserved :: "retry_env \<Rightarrow> settlementRetryQueue \<Rightarrow> bool" where
  "conserved env q \<longleftrightarrow> sent env (rq_submitted q) = sent env (everywhere q)"

definition owned :: "enqueue_owner \<Rightarrow> enqueue_thread list \<Rightarrow> nat" where
  "owned w ts = length (filter (\<lambda>t. et_owner t = w) ts)"

definition undoing :: "enqueue_thread list \<Rightarrow> nat" where
  "undoing ts = length (filter (\<lambda>t. et_pc t = Undo) ts)"

definition accounted :: "settlementRetryQueue \<Rightarrow> bool" where
  "accounted q \<longleftrightarrow> owned Worker (rq_threads q) = (if rq_worker q = Enqueuing then 1 else 0)
     \<and> rq_deferred q = int (owned Holder (rq_threads q)) + int (undoing (rq_threads q))
     \<and> length (rq_jobs q) \<le> rq_cap q \<and> owned Holder (rq_threads q) \<le> rq_cap q"

lemma count_simps [simp]:
  "owned w [] = 0" "owned w (t # ts) = (if et_owner t = w then 1 else 0) + owned w ts" "owned w (xs @ ys) = owned w xs + owned w ys"
  "undoing [] = 0" "undoing (t # ts) = (if et_pc t = Undo then 1 else 0) + undoing ts" "undoing (xs @ ys) = undoing xs + undoing ys"
  by (simp_all add: owned_def undoing_def)

text \<open>Giving up moves a job to the history and touches nothing but the outbox.\<close>

lemma park_frame [simp]:
  "rq_jobs (park env j r q) = rq_jobs q" "rq_threads (park env j r q) = rq_threads q" "rq_worker (park env j r q) = rq_worker q"
  "rq_deferred (park env j r q) = rq_deferred q" "rq_cap (park env j r q) = rq_cap q" "rq_submitted (park env j r q) = rq_submitted q"
  "rq_finished (park env j r q) = rq_finished q" "rq_given (park env j r q) = rq_given q" "rq_interrupted (park env j r q) = rq_interrupted q"
  by (simp_all add: park_def Let_def split: option.split)

lemma giveUp_frame [simp]:
  "rq_jobs (giveUp env j r q) = rq_jobs q" "rq_threads (giveUp env j r q) = rq_threads q" "rq_worker (giveUp env j r q) = rq_worker q"
  "rq_deferred (giveUp env j r q) = rq_deferred q" "rq_cap (giveUp env j r q) = rq_cap q" "rq_submitted (giveUp env j r q) = rq_submitted q"
  "rq_finished (giveUp env j r q) = rq_finished q" "rq_given (giveUp env j r q) = rq_given q @ [(j, r)]" "rq_interrupted (giveUp env j r q) = rq_interrupted q"
  by (simp_all add: giveUp_def)

lemma thread_conserves:
  assumes "threadStep env now1 now2 now3 t q = (ts, q')" "et_owner t = Worker \<Longrightarrow> rq_worker q = Enqueuing"
  shows "rq_submitted q' = rq_submitted q \<and> rq_threads q' = rq_threads q
    \<and> sent env (concat (map threadJobs ts)) + sent env (elsewhere q') = sent env (threadJobs t) + sent env (elsewhere q)"
proof (cases "et_pc t")
  case Enter
  then show ?thesis using assms(1)
    by (cases "rq_enabled q") (auto simp: threadStep_def threadJobs_def elsewhere_def Let_def)
next
  case Count
  then show ?thesis using assms(1)
    by (cases "rq_deferred q + 1 > int (rq_cap q)") (auto simp: threadStep_def threadJobs_def elsewhere_def)
next
  case Evict
  then show ?thesis using assms(1) by (cases "rq_jobs q") (auto simp: threadStep_def threadJobs_def elsewhere_def)
next
  case Leave
  then show ?thesis using assms
    by (cases "et_owner t") (auto simp: threadStep_def threadJobs_def elsewhere_def workerJobs_def)
next
  case Send
  then show ?thesis using assms(1) by (cases "length (rq_jobs q) < rq_cap q") (auto simp: threadStep_def threadJobs_def elsewhere_def)
next
  case Resend
  then show ?thesis using assms(1) by (cases "length (rq_jobs q) < rq_cap q") (auto simp: threadStep_def threadJobs_def elsewhere_def)
qed (use assms(1) in \<open>auto simp: threadStep_def threadJobs_def elsewhere_def\<close>)

lemma thread_accounted:
  assumes "threadStep env now1 now2 now3 t q = (ts, q')" "accounted q" "rq_threads q = xs @ t # ys"
  shows "accounted (q'\<lparr>rq_threads := xs @ ts @ ys\<rparr>)"
proof (cases "et_pc t")
  case Enter
  then show ?thesis using assms
    by (cases "rq_enabled q") (auto simp: threadStep_def accounted_def Let_def)
next
  case Count
  then show ?thesis using assms
    by (cases "rq_deferred q + 1 > int (rq_cap q)") (auto simp: threadStep_def accounted_def)
next
  case Evict
  then show ?thesis using assms by (cases "rq_jobs q") (auto simp: threadStep_def accounted_def)
next
  case Leave
  then show ?thesis using assms
    by (cases "et_owner t") (auto simp: threadStep_def accounted_def split: if_splits)
next
  case Send
  then show ?thesis using assms by (cases "length (rq_jobs q) < rq_cap q") (auto simp: threadStep_def accounted_def)
next
  case Resend
  then show ?thesis using assms by (cases "length (rq_jobs q) < rq_cap q") (auto simp: threadStep_def accounted_def)
qed (use assms in \<open>auto simp: threadStep_def accounted_def\<close>)

section \<open>Parked terminals\<close>

text \<open>The outbox has taken, or counted as dropped, an entry with the terminal of every job that was given up.\<close>

definition entries :: "WriterQueue \<Rightarrow> OutEntry set" where
  "entries ob = set (wq_accepted ob) \<union> set (wq_lost ob)"

definition parked :: "retry_env \<Rightarrow> settlementRetryQueue \<Rightarrow> bool" where
  "parked env q \<longleftrightarrow> (\<exists>ob. rq_outbox q = Some ob \<and> writer_step\<^sup>*\<^sup>* NewWriterQueue ob
     \<and> (\<forall>(j, r) \<in> set (rq_given q). \<forall>t. sends env j = (Some t, None) \<longrightarrow> (\<exists>e \<in> entries ob. en_Terminal e = t \<and> en_Reason e = r)))"

lemma entries_mono: "writer_step ob ob' \<Longrightarrow> entries ob \<subseteq> entries ob'"
  by (induction rule: writer_step.induct)
    (auto simp: entries_def offerEnter_def offerSend_def Start_def runReceive_def runFinish_def runExit_def Let_def split: list.splits option.splits)

lemma Offer_step:
  assumes "writer_step\<^sup>*\<^sup>* NewWriterQueue ob"
  shows "writer_step\<^sup>*\<^sup>* NewWriterQueue (fst (Offer ob e)) \<and> entries (fst (Offer ob e)) = insert e (entries ob)"
proof -
  have "writer_step ob (offerEnter ob e)" by (rule writer_step.enter)
  moreover have "writer_step (offerEnter ob e) (fst (offerSend (offerEnter ob e) e))" by (rule writer_step.send) (simp add: offerEnter_def)
  ultimately have "writer_step\<^sup>*\<^sup>* NewWriterQueue (fst (Offer ob e))"
    unfolding Offer_def using assms by (meson rtranclp.rtrancl_into_rtrancl)
  then show ?thesis by (auto simp: Offer_def offerEnter_def offerSend_def entries_def Let_def)
qed

lemma park_entries:
  assumes "rq_outbox q = Some ob" "writer_step\<^sup>*\<^sup>* NewWriterQueue ob"
  obtains ob' where "rq_outbox (park env j r q) = Some ob'" "writer_step\<^sup>*\<^sup>* NewWriterQueue ob'" "entries ob \<subseteq> entries ob'"
    "\<forall>t. sends env j = (Some t, None) \<longrightarrow> (\<exists>e \<in> entries ob'. en_Terminal e = t \<and> en_Reason e = r)"
proof -
  let ?j = "firstAttempt (compactSettlementRetryJob env j)"
  have k: "rj_frozen ?j = fst (sends env j)" "rj_frozenErr ?j = snd (sends env j)" by (simp_all add: firstAttempt_def sends_def Let_def)
  show thesis
  proof (cases "\<exists>t. sends env j = (Some t, None)")
    case True
    then obtain t where t: "sends env j = (Some t, None)" by blast
    let ?e = "\<lparr>en_Terminal = t, en_Reason = r, en_Attempts = rj_attempt ?j\<rparr>"
    have "rq_outbox (park env j r q) = Some (fst (Offer ob ?e))" using assms(1) t k by (simp add: park_def Let_def)
    then show thesis using that Offer_step [OF assms(2), of ?e] t by auto
  next
    case False
    then have "rq_outbox (park env j r q) = Some ob" using assms(1) k by (cases "sends env j") (auto simp: park_def Let_def split: option.split)
    then show thesis using that assms(2) False by auto
  qed
qed

lemma giveUp_parked:
  assumes "parked env q"
  shows "parked env (giveUp env j r q)"
proof -
  obtain ob where ob: "rq_outbox q = Some ob" "writer_step\<^sup>*\<^sup>* NewWriterQueue ob"
    "\<forall>(j, r) \<in> set (rq_given q). \<forall>t. sends env j = (Some t, None) \<longrightarrow> (\<exists>e \<in> entries ob. en_Terminal e = t \<and> en_Reason e = r)"
    using assms by (auto simp: parked_def)
  obtain ob' where "rq_outbox (park env j r q) = Some ob'" "writer_step\<^sup>*\<^sup>* NewWriterQueue ob'" "entries ob \<subseteq> entries ob'"
    "\<forall>t. sends env j = (Some t, None) \<longrightarrow> (\<exists>e \<in> entries ob'. en_Terminal e = t \<and> en_Reason e = r)"
    using park_entries [OF ob(1, 2)] by blast
  then show ?thesis using ob(3) unfolding parked_def giveUp_def by (fastforce simp: giveUp_def)
qed

lemma parked_frame:
  "parked env q \<Longrightarrow> rq_outbox q' = rq_outbox q \<Longrightarrow> rq_given q' = rq_given q \<Longrightarrow> parked env q'"
  by (simp add: parked_def)

lemma thread_parked:
  assumes "threadStep env now1 now2 now3 t q = (ts, q')" "parked env q"
  shows "parked env q'"
proof -
  have "(\<exists>j r q1. q' = giveUp env j r q1 \<and> rq_outbox q1 = rq_outbox q \<and> rq_given q1 = rq_given q) \<or> (rq_outbox q' = rq_outbox q \<and> rq_given q' = rq_given q)"
    using assms(1) by (cases "et_pc t"; cases "et_owner t"; cases "rq_jobs q") (fastforce simp: threadStep_def Let_def split: if_splits)+
  then show ?thesis using giveUp_parked parked_frame assms(2) by metis
qed

section \<open>Every step\<close>

definition retry_inv :: "retry_env \<Rightarrow> settlementRetryQueue \<Rightarrow> bool" where
  "retry_inv env q \<longleftrightarrow> conserved env q \<and> accounted q \<and> parked env q"

lemma conserved_eq: "conserved env q \<longleftrightarrow> sent env (rq_submitted q) = sent env (concat (map threadJobs (rq_threads q))) + sent env (elsewhere q)"
  by (simp add: conserved_def everywhere_def)

lemma process_inv:
  assumes "rq_worker q = Processing job" "retry_inv env q"
  shows "retry_inv env (process env job q)"
proof -
  obtain out w where a: "attemptPost env job (rq_net q) = (out, w)" by fastforce
  have i: "conserved env q" "accounted q" "parked env q" using assms(2) by (simp_all add: retry_inv_def)
  have g: "parked env (giveUp env job r (q\<lparr>rq_net := w\<rparr>))" for r by (rule giveUp_parked) (rule parked_frame [OF i(3)], simp_all)
  show ?thesis
  proof (cases out)
    case (Inr r)
    then show ?thesis using i assms(1) a
      by (simp add: process_def retry_inv_def conserved_eq accounted_def elsewhere_def workerJobs_def parked_def)
  next
    case (Inl e)
    show ?thesis
    proof (cases "rj_attempt job \<ge> rq_maxAttempts q")
      case True
      have "parked env ((giveUp env job ''retry_exhausted'' (q\<lparr>rq_net := w\<rparr>))\<lparr>rq_worker := Receiving\<rparr>)" by (rule parked_frame [OF g]) simp_all
      then show ?thesis using i(1, 2) assms(1) a Inl True
        by (simp add: process_def retry_inv_def conserved_eq accounted_def elsewhere_def workerJobs_def)
    next
      case False
      then show ?thesis using i assms(1) a Inl
        by (simp add: process_def retry_inv_def conserved_eq accounted_def elsewhere_def workerJobs_def threadJobs_def parked_def)
    qed
  qed
qed

lemma retry_step_inv:
  assumes "retry_step env q q'" "retry_inv env q"
  shows "retry_inv env q'"
proof -
  have i: "conserved env q" "accounted q" "parked env q" using assms(2) by (simp_all add: retry_inv_def)
  from assms(1) show ?thesis
  proof cases
    case (submit job)
    then show ?thesis using i by (simp add: retry_inv_def conserved_eq accounted_def elsewhere_def threadJobs_def parked_def)
  next
    case (thread xs t ys now1 now2 now3 ts q1)
    have "rq_worker q = Enqueuing" if "et_owner t = Worker" using that i(2) thread(2) by (simp add: accounted_def split: if_splits)
    note c = thread_conserves [OF thread(3) this]
    have "parked env q'" unfolding thread(1) by (rule parked_frame [OF thread_parked [OF thread(3) i(3)]]) simp_all
    moreover have "accounted q'" unfolding thread(1) by (rule thread_accounted [OF thread(3) i(2) thread(2)])
    moreover have "conserved env q'"
      using c i(1) unfolding conserved_eq thread(1, 2) by (simp add: thread(2) elsewhere_def)
    ultimately show ?thesis by (simp add: retry_inv_def)
  next
    case (receive job rest)
    then show ?thesis using i by (simp add: retry_inv_def conserved_eq accounted_def elsewhere_def workerJobs_def parked_def)
  next
    case (attempt job)
    then show ?thesis using process_inv assms(2) by simp
  next
    case (interrupt job)
    then show ?thesis using i by (simp add: retry_inv_def conserved_eq accounted_def elsewhere_def workerJobs_def parked_def)
  next
    case exit
    then show ?thesis using i by (simp add: retry_inv_def conserved_eq accounted_def elsewhere_def workerJobs_def parked_def)
  next
    case release
    then show ?thesis using i by (simp add: retry_inv_def conserved_eq accounted_def elsewhere_def parked_def)
  next
    case (shutdown job rest)
    have "parked env q'" unfolding shutdown(1) by (rule giveUp_parked) (rule parked_frame [OF i(3)], simp_all)
    then show ?thesis using i(1, 2) shutdown by (simp add: retry_inv_def conserved_eq accounted_def elsewhere_def)
  next
    case (outbox ob ob')
    have "parked env q'" using i(3) outbox entries_mono [OF outbox(3)] by (fastforce simp: parked_def intro: rtranclp.rtrancl_into_rtrancl)
    then show ?thesis using i(1, 2) outbox by (simp add: retry_inv_def conserved_eq accounted_def elsewhere_def)
  qed
qed

lemma retry_reach_inv:
  assumes "(retry_step env)\<^sup>*\<^sup>* (newSettlementRetryQueue qsize attempts base maxDelay (Some NewWriterQueue) net) q"
  shows "retry_inv env q"
  using assms
proof (induction rule: rtranclp_induct)
  case base
  then show ?case
    by (simp add: newSettlementRetryQueue_def retry_inv_def conserved_eq accounted_def elsewhere_def workerJobs_def parked_def Let_def)
next
  case (step q q')
  then show ?case using retry_step_inv by blast
qed

lemma no_threads: "owned Caller ts = 0 \<Longrightarrow> owned Holder ts = 0 \<Longrightarrow> owned Worker ts = 0 \<Longrightarrow> ts = []"
proof (induction ts)
  case (Cons t ts)
  then show ?case by (cases "et_owner t") auto
qed simp


definition exRetryEnv :: retry_env where
  "exRetryEnv = \<lparr>re_settle = \<lparr>st_net = exNet 0, st_float = (\<lambda>_. ''1''), st_decode = (\<lambda>_. Inr zeroResult)\<rparr>, re_client = exClient, re_context = exContext\<rparr>"

text \<open>A settlement whose request was frozen, submitted to a queue that is switched off.\<close>

definition exJob :: settlementRetryJob where
  "exJob = \<lparr>rj_reportedCost = None, rj_authorization = Some exAuth, rj_usage = exUsage, rj_requestLogID = [], rj_clientContext = None, rj_attempt = 0,
     rj_enqueuedAt = zeroTime, rj_kind = [], rj_refundStatus = 0, rj_refundType = [], rj_refundElapsed = FFinite 0, rj_refundMetadata = None, rj_cause = None,
     rj_notBefore = zeroTime, rj_frozen = Some (en_Terminal exampleEntry), rj_frozenErr = None, rj_frozenSet = True\<rparr>"

definition exQueue :: settlementRetryQueue where
  "exQueue = newSettlementRetryQueue 0 0 0 0 (Some NewWriterQueue) exStart"

definition exGiven :: settlementRetryQueue where
  "exGiven = (giveUp exRetryEnv exJob ''queue_disabled'' (exQueue\<lparr>rq_submitted := [exJob]\<rparr>))\<lparr>rq_threads := [\<lparr>et_job = exJob, et_pc = Leave, et_owner = Caller\<rparr>]\<rparr>"

lemma exGiven_reached: "(retry_step exRetryEnv)\<^sup>*\<^sup>* exQueue exGiven"
proof -
  let ?t = "\<lparr>et_job = exJob, et_pc = Enter, et_owner = Caller\<rparr>"
  let ?q = "exQueue\<lparr>rq_threads := rq_threads exQueue @ [?t], rq_submitted := rq_submitted exQueue @ [exJob]\<rparr>"
  have 1: "retry_step exRetryEnv exQueue ?q" by (rule retry_step.submit)
  have e: "rq_threads exQueue = []" "rq_submitted exQueue = []" "\<not> rq_enabled exQueue" by (simp_all add: exQueue_def newSettlementRetryQueue_def)
  let ?g = "giveUp exRetryEnv exJob ''queue_disabled'' ?q"
  have "retry_step exRetryEnv ?q (?g\<lparr>rq_threads := [] @ [?t\<lparr>et_pc := Leave\<rparr>] @ []\<rparr>)"
    by (rule retry_step.thread [where t = ?t and ?now1.0 = zeroTime and ?now2.0 = zeroTime and ?now3.0 = zeroTime]) (simp_all add: e threadStep_def)
  moreover have "?g\<lparr>rq_threads := [] @ [?t\<lparr>et_pc := Leave\<rparr>] @ []\<rparr> = exGiven"
    by (simp add: exGiven_def e giveUp_def park_def Let_def split: option.split)
  ultimately show ?thesis using 1 by (metis rtranclp.rtrancl_into_rtrancl rtranclp.rtrancl_refl)
qed


end
