(* ===== verification/Spec2Isabelle.thy ===== *)
theory Spec2Isabelle
  imports SpendLeaseProgress BillingProps SettleProps Abuse ProviderCircuit BroadcastQueue BillingBackoff SpecEqual SpecDispatchExample AsyncProps StageDProps SettleQueueProps
begin

text \<open>
  \<^bold>\<open>Verification of the enclave's money path and its bounded state\<close>

  The repository is a proxy for language models that runs in a confidential enclave
  (\<open>src/enclave-go\<close>). A request is checked against the control plane, admitted against money,
  sent to a provider, priced, and settled with the control plane afterwards. This library
  models the Go code that decides about money and about what the enclave remembers, and proves
  that it does so correctly under concurrency, crashes of siblings, wrapping integers and
  clocks that jump.

  \<^bold>\<open>How the parts interact.\<close> A credential passes the protector (\<open>internal/abuse\<close>), which asks
  the negative verdict cache (\<open>internal/authcache\<close>) and the limiter. A request that was just
  refused for lack of credits is answered from the billing backoff
  (\<open>internal/trustedrouter/billing_backoff.go\<close>). Otherwise the control plane authorizes it, or a
  spend lease the control plane signed admits it locally (\<open>internal/spendlease\<close>). A provider is
  chosen among those whose circuit is closed (\<open>cmd/enclave/provider_circuit.go\<close>). The usage is
  priced with a frozen price snapshot (\<open>internal/billingv1\<close>); the signed receipt of the inference
  is a JWS (\<open>internal/receipt\<close>). A settlement that cannot be delivered is parked in object
  storage and replayed by the sweeper of any enclave (\<open>internal/settleoutbox\<close>). Content exports go
  through a bounded queue (\<open>internal/broadcast/queue.go\<close>).

  \<^bold>\<open>Theories and sources.\<close>

  \<^item> \<open>GoPrelude\<close>, \<open>GoText\<close>, \<open>GoJSON\<close>, \<open>GoList\<close>: what the code uses of Go. 64-bit integers are \<open>int\<close>
    with the wrap-around written out (\<open>i64_add\<close>, \<open>i64_mul\<close>, truncating \<open>i64_quot\<close>); \<open>time.Time\<close>
    has a wall clock and an optional monotonic reading with the saturation rules of package time;
    the \<open>error\<close> result is a sum. Strings are byte lists; hex, base64, trimming and splitting are
    functions with their round trips. JSON values have a marshaller; the lexer of \<open>encoding/json\<close>
    is a parameter. \<open>container/list\<close> with a map of elements is the \<open>table\<close> of \<open>GoList\<close>, whose locale
    \<open>bounded_state\<close> states what every bounded table promises; it is interpreted for the verdict
    cache, the limiter, the circuit breaker, the export queue and the billing backoff.

  \<^item> \<open>SpendLease\<close> (\<open>types.go\<close>, \<open>estimator.go\<close>, \<open>auth.go\<close>, \<open>admission.go\<close>), \<open>SpendLeaseVerifier\<close>
    (\<open>verifier.go\<close>), \<open>SpendLeaseState\<close> (\<open>state.go\<close>): leases, the conservative price estimate,
    verification of a signed lease, and the per-boot state with admission, debit and replacement.
    \<open>LeaseBudget\<close> is the abstract budget (a locale over debits) that \<open>SpendLeaseLedger\<close> interprets on
    \<open>ShadowState\<close>; \<open>SpendLeaseCAS\<close> gives the same operations as single atomic steps of any number
    of goroutines and interprets the budget again, for every interleaving; \<open>SpendLeaseProgress\<close> shows
    that their compare-and-swap loops end.

  \<^item> \<open>Receipt\<close> (\<open>receipt.go\<close>): compact and flattened JWS, signing and verification.

  \<^item> \<open>BillingSchema\<close>, \<open>BillingTypes\<close>, \<open>BillingValidate\<close> (\<open>validate.go\<close>, \<open>types.go\<close>): strict decoding, the
    reflective walk over Go struct types and the semantic rules; \<open>BillingV1\<close> (\<open>evaluate.go\<close>,
    \<open>build.go\<close>, \<open>canonical.go\<close>): pricing. \<open>BillingLaws\<close> has the lemmas and \<open>BillingProps\<close> the properties;
    the reference they are measured against prices over unbounded integers.

  \<^item> \<open>SettleOutbox\<close> (\<open>outbox.go\<close>) and \<open>SettleSweeper\<close> (\<open>sweeper.go\<close>): the envelope, the writer with
    its queue and goroutine, leases on objects, replay, filing and paging, against a store that
    siblings change between any two calls. \<open>SettleConserve\<close> states what the store promises as the
    locales \<open>guarantee\<close> and \<open>outbox_store\<close>; \<open>SettleStore\<close> interprets them on a store with generation
    preconditions; \<open>SettleProps\<close> has the properties.

  \<^item> \<open>ControlPlane\<close> (\<open>client.go\<close>): errors of the control plane and the verdicts read from them.
    \<open>AuthCache\<close> (\<open>internal/authcache/cache.go\<close>), \<open>Abuse\<close> (\<open>limiter.go\<close>, \<open>protector.go\<close>), \<open>ProviderCircuit\<close>
    (\<open>provider_circuit.go\<close>), \<open>BroadcastQueue\<close> (\<open>queue.go\<close>), \<open>BillingBackoff\<close> (\<open>billing_backoff.go\<close> of
    \<open>trustedrouter\<close> and of \<open>cmd/enclave\<close>).

  \<^item> \<open>SpecJSON\<close> (\<open>internal/speculation/json.go\<close>): the strict JSON domain of the speculation protocol, its
    canonical writer and its comparison. \<open>SpecProtocol\<close> (\<open>protocol.go\<close>, \<open>cost.go\<close>, \<open>verdict.go\<close>,
    \<open>shadow_refresh.go\<close>): signed grants, permits, descriptors, acceptance, renewal and the
    classification of denials. \<open>SpecLaws\<close> and \<open>SpecRoundtrip\<close> hold the lemmas on the reader and the
    writer, \<open>SpecGrants\<close> the properties, \<open>SpecExample\<close> a concrete grant, descriptor and renewal.
    \<open>SpecEqual\<close> is the comparison walk over values in memory. \<open>SpecBudget\<close> (\<open>payload_budget.go\<close>) and
    \<open>SpecEligibility\<close> (\<open>deadline.go\<close>, \<open>health.go\<close>, \<open>eligibility.go\<close>, \<open>payload.go\<close>) decide whether a request may be sent
    under a grant; \<open>SpecDispatch\<close> has the properties and \<open>SpecDispatchExample\<close> their example.

  \<^item> \<open>GoUnmarshal\<close>: \<open>json.Unmarshal\<close> into structs. \<open>ControlClient\<close> (\<open>endpoints.go\<close>, \<open>authorization_retry.go\<close>,
    \<open>settlement_retry.go\<close> and the transport of \<open>client.go\<close>): calls to the ordered billing
    authorities, failover and retries, against a network that answers each interaction in any way, with
    the history of everything sent. \<open>ControlLaws\<close> has their lemmas and properties. \<open>ControlBodies\<close> (\<open>client.go\<close>,
    \<open>internal/types/client_context.go\<close>) has the bytes of settlements and refunds, \<open>ControlFreeze\<close> (\<open>frozen_terminal.go\<close>)
    the configured authorities and the frozen terminals the settle outbox parks. \<open>AsyncSettle\<close> (\<open>async_settlement.go\<close>,
    \<open>settlement_cost.go\<close>) is the settlement machine of an authorization that negotiated asynchronous settlement; \<open>AsyncLaws\<close> shows that
    it refines an abstract machine of four phases, \<open>AsyncProps\<close> has the properties and an example.

  \<^item> \<open>CandidateCost\<close> (\<open>candidate_cost.go\<close> and \<open>stage_d.go\<close> of \<open>trustedrouter\<close>, \<open>usage_cost.go\<close> and \<open>estimated_billing.go\<close> of
    \<open>cmd/enclave\<close>): prices an authorization carries, the cost a client is told and buffered estimates; \<open>CandidateProps\<close> relates them to
    \<open>Evaluate\<close> and to the cap. \<open>StageD\<close> (\<open>stage_d.go\<close>, \<open>SemanticSlices\<close> and the slice hooks of \<open>internal/adapter/adapter.go\<close>): the
    controller of a stream under a cap, with its meter, its heartbeats over the transport of \<open>ControlClient\<close> and its ticker, as an inductive step
    relation; \<open>StageDProps\<close> has its invariants.

  \<^item> \<open>SettleQueue\<close> (\<open>cmd/enclave/settlement_retry.go\<close>): the queue of settlements to try again, with its callers, held jobs, worker and shutdown as
    interleaved steps over \<open>ControlFreeze\<close> and \<open>SettleOutbox\<close>; \<open>SettleQueueProps\<close> shows that it conserves them.

  \<^bold>\<open>What is shown.\<close>

  \<^item> Money: the debits of one lease generation never exceed its signed cap, sequentially and under
    every interleaving of atomic accesses; one request at a time holds an admission scope; an
    accepted lease is authentic and its lifetime is decided on the monotonic clock; pricing
    equals an exact reference and reports overflow exactly; an envelope validates exactly with the
    price of its usage; a client is told exactly what it is charged, and a buffered estimate stays within its reservation.
  \<^item> Streams: no slice of output becomes visible whose cost passes the cap; heartbeats are numbered without gaps, never regress and stay within
    256 tokens of what the client has seen; slices are the text, cut between runes.
  \<^item> Settlement: a terminal that was reported written is never lost, it stays pending or has a
    filed copy; a replay posts the bytes that were parked, with the signature over them; one sweeper
    at a time holds a lease; the report of a sweep accounts for every object; the writer conserves
    entries under every interleaving and drains once no new entry is offered; the retry queue before it accounts for every submitted
    settlement, and hands those it gives up to the outbox with their frozen bytes.
  \<^item> Memory: every table and queue stays in its bound for every history; a negative verdict, an open
    circuit and a billing backoff answer only while the event that justifies them is recent, for
    exactly the key it was recorded for.
  \<^item> Speculation: an accepted grant is authentic, bound to the deployment and live; its permits are
    bounded money; a descriptor spends one of them on one request; renewals never go back; a
    prepared payload costs no more than any permit; a dispatch happens before the signed start deadline on the
    issuer's clock; a verified grant never makes the checks panic.
  \<^item> Control plane: all requests of one call that may have reached a server went to one authority, with the
    same bytes; retries persist and wait within their policy; only reviewed authorities are configured; replaying a frozen
    settlement is the settlement itself; an asynchronous settlement sends one body at its exact price, and never
    both reports a result and permits the legacy settlement.
  \<^item> Round trips of receipts, envelopes and JSON; error behaviour of each entry point.

  \<^bold>\<open>Bounds of loops.\<close> \<open>readValue\<close> takes the number of tokens as fuel (\<open>decodeJSON_faithful\<close> shows it is
  enough); eviction and expiry loops run at most once per element of the table (\<open>tb_evict_spec\<close>,
  \<open>expireLoop_spec\<close>, \<open>makeRoom_spec\<close> show they end in the state the loop condition asks for);
  \<open>jsonValue\<close> takes twice the number of tokens (\<open>parseJSON_total\<close> shows it never runs out);
  the queue's eviction is a \<open>function\<close> with its measure; write retries and backoff count down
  the attempts of the source, and so does \<open>retryLoop\<close> (\<open>retry_persists\<close> shows that none is left out).

  \<^bold>\<open>Parameters.\<close> Cryptography (SHA-256, Ed25519, ECDSA), the JSON lexer, the object store, floating point,
  IP parsing and the environment are arguments of the definitions; what the proofs need of
  them is a named predicate, and each property that uses one has a witness with a concrete instance.

  \<^bold>\<open>Not modelled.\<close> HTTP handlers and provider clients, the wire adapters, attestation, TLS and
  bootstrap are I/O around the modelled decisions. Logging and telemetry are left out everywhere.
  The tail of \<open>serializeChat\<close> is a parameter. The terminal usage of a stream, authorization bodies, the negotiation of
  asynchronous settlement, shadow coordination, batch jobs, request timing and
  the BYOK cache are left for later.
\<close>

end
